(* ===== verification/Prelude.thy ===== *)
theory Prelude
  imports Complex_Main "HOL-Library.Multiset" "HOL-Library.Sublist"
    "HOL-Library.List_Lexorder" "HOL-Library.Product_Lexorder"
begin

section \<open>Shared types, automation and lemmas\<close>

text \<open>
  The vocabulary every component uses: Python strings as lists of code points, the result
  of code that may raise as a sum whose left side is the error, maps over such code, and the
  lemmas on stable sorting that make "sorted by a total key" independent of the input order.
\<close>

named_theorems enum_defs \<open>the published string of every closed enumeration\<close>
named_theorems result_simps \<open>rewriting of code that may raise\<close>

subsection \<open>Python strings\<close>

text \<open>
  A \<open>str\<close> is a sequence of Unicode code points; \<open>len\<close> counts them and \<open><\<close>
  compares them lexicographically, which is the order of \<open>List_Lexorder\<close> on code points.
  \<open>lit\<close> writes an ASCII literal.
\<close>

type_synonym pystr = "nat list"

definition lit :: "string \<Rightarrow> pystr" where
  "lit s = map of_char s"

lemma lit_inject [simp]: "lit s = lit t \<longleftrightarrow> s = t"
  by (simp add: lit_def inj_map_eq_map inj_def)

lemma lit_Nil [simp]: "lit [] = []"
  by (simp add: lit_def)

lemma length_lit [simp]: "length (lit s) = length s"
  by (simp add: lit_def)

lemma lit_eq_Nil [simp]: "lit s = [] \<longleftrightarrow> s = []" "[] = lit s \<longleftrightarrow> s = []"
  by (auto simp: lit_def)

text \<open>\<open>text.split(".")\<close>: never empty, one part more than there are separators.\<close>

fun split_on :: "'a \<Rightarrow> 'a list \<Rightarrow> 'a list list" where
  "split_on c [] = [[]]"
| "split_on c (x # xs) =
     (if x = c then [] # split_on c xs
      else (case split_on c xs of [] \<Rightarrow> [[x]] | p # ps \<Rightarrow> (x # p) # ps))"

text \<open>\<open>".".join(parts)\<close>\<close>

fun join_with :: "'a \<Rightarrow> 'a list list \<Rightarrow> 'a list" where
  "join_with c [] = []"
| "join_with c [p] = p"
| "join_with c (p # ps) = p @ c # join_with c ps"

lemma split_on_not_Nil [simp]: "split_on c xs \<noteq> []"
  by (induction xs) (auto split: list.splits)

lemma join_split_on [simp]: "join_with c (split_on c xs) = xs"
proof (induction xs)
  case Nil
  then show ?case by simp
next
  case (Cons x xs)
  obtain p ps where s: "split_on c xs = p # ps"
    by (cases "split_on c xs") auto
  show ?case using Cons s by (cases ps) auto
qed

lemma split_on_append_sep: "c \<notin> set p \<Longrightarrow> split_on c (p @ c # xs) = p # split_on c xs"
  by (induction p) auto

lemma split_on_no_sep: "c \<notin> set p \<Longrightarrow> split_on c p = [p]"
  by (induction p) auto

lemma split_join_with: "ps \<noteq> [] \<Longrightarrow> \<forall>p\<in>set ps. c \<notin> set p \<Longrightarrow> split_on c (join_with c ps) = ps"
  by (induction c ps rule: join_with.induct) (auto simp: split_on_append_sep split_on_no_sep)

lemma in_split_on_no_sep: "p \<in> set (split_on c xs) \<Longrightarrow> c \<notin> set p"
  by (induction xs arbitrary: p) (auto split: list.splits if_splits)

text \<open>\<open>needle in text\<close> for strings\<close>

fun starts_with :: "'a list \<Rightarrow> 'a list \<Rightarrow> bool" where
  "starts_with [] ys = True"
| "starts_with (x # xs) [] = False"
| "starts_with (x # xs) (y # ys) = (x = y \<and> starts_with xs ys)"

fun has_substring :: "'a list \<Rightarrow> 'a list \<Rightarrow> bool" where
  "has_substring needle [] = (needle = [])"
| "has_substring needle (y # ys) = (starts_with needle (y # ys) \<or> has_substring needle ys)"

lemma starts_with_prefix: "starts_with xs ys \<longleftrightarrow> prefix xs ys"
  by (induction xs ys rule: starts_with.induct) auto

lemma has_substring_sublist: "has_substring xs ys \<longleftrightarrow> sublist xs ys"
  by (induction ys) (auto simp: starts_with_prefix sublist_Cons_right)

text \<open>Decimal digits of a number, \<open>str(n)\<close>\<close>

fun show_nat :: "nat \<Rightarrow> pystr" where
  "show_nat n = (if n < 10 then [48 + n] else show_nat (n div 10) @ [48 + n mod 10])"

declare show_nat.simps [simp del]

definition show_int :: "int \<Rightarrow> pystr" where
  "show_int i = (if i < 0 then 45 # show_nat (nat (- i)) else show_nat (nat i))"

fun read_nat :: "pystr \<Rightarrow> nat \<Rightarrow> nat" where
  "read_nat [] acc = acc"
| "read_nat (c # cs) acc = read_nat cs (10 * acc + (c - 48))"

lemma read_nat_append: "read_nat (xs @ ys) a = read_nat ys (read_nat xs a)"
  by (induction xs arbitrary: a) auto

lemma read_show_nat [simp]: "read_nat (show_nat n) 0 = n"
proof (induction n rule: show_nat.induct)
  case (1 n)
  then show ?case
    by (subst show_nat.simps) (auto simp: read_nat_append)
qed

lemma show_nat_inject [simp]: "show_nat m = show_nat n \<longleftrightarrow> m = n"
  using read_show_nat by metis

lemma show_nat_not_Nil [simp]: "show_nat n \<noteq> []"
  by (subst show_nat.simps) auto

lemma show_nat_digits: "c \<in> set (show_nat n) \<Longrightarrow> 48 \<le> c \<and> c \<le> 57"
proof (induction n rule: show_nat.induct)
  case (1 n)
  have "n mod 10 < 10" by simp
  then show ?case
    using 1 by (cases "n < 10") (auto simp: show_nat.simps[of n])
qed

subsection \<open>Code that may raise\<close>

text \<open>
  A call that may raise returns \<open>Inl\<close> of the error. A comprehension over such calls stops
  at the first error, in order.
\<close>

fun map_result :: "('a \<Rightarrow> 'e + 'b) \<Rightarrow> 'a list \<Rightarrow> 'e + 'b list" where
  "map_result f [] = Inr []"
| "map_result f (x # xs) =
     (case f x of
        Inl e \<Rightarrow> Inl e
      | Inr y \<Rightarrow> (case map_result f xs of Inl e \<Rightarrow> Inl e | Inr ys \<Rightarrow> Inr (y # ys)))"

lemma map_result_cong [fundef_cong]:
  "xs = ys \<Longrightarrow> (\<And>x. x \<in> set ys \<Longrightarrow> f x = g x) \<Longrightarrow> map_result f xs = map_result g ys"
  by (induction xs arbitrary: ys) (auto split: sum.splits)

lemma map_result_Inr_conv:
  "map_result f xs = Inr ys \<longleftrightarrow> list_all2 (\<lambda>x y. f x = Inr y) xs ys"
proof (induction xs arbitrary: ys)
  case Nil
  then show ?case by (cases ys) auto
next
  case (Cons x xs)
  show ?case
  proof (cases ys)
    case Nil
    then show ?thesis by (auto split: sum.splits)
  next
    case ys: (Cons z zs)
    show ?thesis
      unfolding ys using Cons.IH[of zs] by (auto split: sum.splits)
  qed
qed

lemma map_result_total [result_simps]:
  "(\<And>x. x \<in> set xs \<Longrightarrow> f x = Inr (g x)) \<Longrightarrow> map_result f xs = Inr (map g xs)"
  by (induction xs) auto

lemma map_result_length: "map_result f xs = Inr ys \<Longrightarrow> length ys = length xs"
  by (auto simp: map_result_Inr_conv dest: list_all2_lengthD)

lemma map_result_exists: "(\<And>x. x \<in> set xs \<Longrightarrow> \<exists>y. f x = Inr y) \<Longrightarrow> \<exists>ys. map_result f xs = Inr ys"
  by (induction xs) fastforce+

lemma map_result_each: "map_result f xs = Inr ys \<Longrightarrow> x \<in> set xs \<Longrightarrow> \<exists>y\<in>set ys. f x = Inr y"
  unfolding map_result_Inr_conv by (induction rule: list_all2_induct) auto

lemma map_result_from: "map_result f xs = Inr ys \<Longrightarrow> y \<in> set ys \<Longrightarrow> \<exists>x\<in>set xs. f x = Inr y"
  unfolding map_result_Inr_conv by (induction rule: list_all2_induct) auto

definition bind_result :: "'e + 'a \<Rightarrow> ('a \<Rightarrow> 'e + 'b) \<Rightarrow> 'e + 'b" where
  "bind_result r f = (case r of Inl e \<Rightarrow> Inl e | Inr x \<Rightarrow> f x)"

lemma bind_result_simps [simp, result_simps]:
  "bind_result (Inl e) f = Inl e" "bind_result (Inr x) f = f x"
  by (simp_all add: bind_result_def)

lemma bind_result_Inr: "bind_result r f = Inr y \<longleftrightarrow> (\<exists>x. r = Inr x \<and> f x = Inr y)"
  by (cases r) auto

subsection \<open>Stable sorting by a key\<close>

text \<open>
  Python's \<open>sorted(xs, key=k)\<close> is stable; so is \<open>sort_key k\<close>. When no two elements of the
  input share a key, the result does not depend on the order the input came in.
\<close>

lemma sort_key_perm_inj:
  assumes "mset xs = mset ys" and "inj_on k (set xs)"
  shows "sort_key k xs = sort_key k ys"
proof (rule properties_for_sort_key)
  show "mset (sort_key k ys) = mset xs" using assms(1) by simp
next
  fix a assume a: "a \<in> set (sort_key k ys)"
  have set_eq: "set xs = set ys" using assms(1) by (metis set_mset_mset)
  have single: "filter (\<lambda>x. k a = k x) zs = replicate (count (mset zs) a) a"
    if "set zs = set xs" for zs
  proof -
    have "filter (\<lambda>x. k a = k x) zs = filter (\<lambda>x. a = x) zs"
      using assms(2) a that set_eq by (auto intro!: filter_cong dest: inj_onD)
    also have "\<dots> = replicate (count (mset zs) a) a"
      by (induction zs) auto
    finally show ?thesis .
  qed
  show "filter (\<lambda>x. k a = k x) (sort_key k ys) = filter (\<lambda>x. k a = k x) xs"
    using single[of "sort_key k ys"] single[of xs] assms(1) set_eq by simp
qed (simp)

text \<open>
  The contract of every "deterministic order" of the program: a key that determines the
  identity of what it sorts. A list whose members have distinct identities then sorts to one
  list, whatever order a repository, a dictionary or a set handed it over in.
\<close>

locale deterministic_order =
  fixes key :: "'a \<Rightarrow> 'k::linorder"
    and ident :: "'a \<Rightarrow> 'i"
  assumes key_ident: "key x = key y \<Longrightarrow> ident x = ident y"
begin

lemma inj_on_key: "inj_on ident A \<Longrightarrow> inj_on key A"
  by (meson inj_on_def key_ident)

lemma order_perm:
  "mset xs = mset ys \<Longrightarrow> inj_on ident (set xs) \<Longrightarrow> sort_key key xs = sort_key key ys"
  by (rule sort_key_perm_inj[OF _ inj_on_key])

lemma order_filter_perm:
  "mset xs = mset ys \<Longrightarrow> inj_on ident (set (filter P xs)) \<Longrightarrow>
   sort_key key (filter P xs) = sort_key key (filter P ys)"
  by (rule order_perm) (auto simp: mset_filter)

lemma order_first_least:
  "sort_key key xs = x # zs \<Longrightarrow> y \<in> set xs \<Longrightarrow> key x \<le> key y"
proof -
  assume s: "sort_key key xs = x # zs" and y: "y \<in> set xs"
  have "sorted (map key (x # zs))" using s by (metis sorted_sort_key)
  moreover have "y \<in> set (x # zs)" using y s by (metis set_sort)
  ultimately show ?thesis by auto
qed

end

text \<open>\<open>sorted({...})\<close> of a set comprehension: the distinct values in order.\<close>

definition sorted_set :: "'a::linorder list \<Rightarrow> 'a list" where
  "sorted_set xs = sort (remdups xs)"

lemma set_sorted_set [simp]: "set (sorted_set xs) = set xs"
  by (simp add: sorted_set_def)

lemma sorted_sorted_set [simp]: "sorted (sorted_set xs)"
  by (simp add: sorted_set_def)

lemma distinct_sorted_set [simp]: "distinct (sorted_set xs)"
  by (simp add: sorted_set_def)

lemma sorted_set_cong: "set xs = set ys \<Longrightarrow> sorted_set xs = sorted_set ys"
  by (rule sorted_distinct_set_unique) auto

lemma sorted_set_Nil_iff [simp]: "sorted_set xs = [] \<longleftrightarrow> xs = []"
  by (metis set_empty set_sorted_set)

subsection \<open>Objects as association lists\<close>

text \<open>\<open>mapping.get(key)\<close> and \<open>key in mapping\<close> on a mapping with distinct keys.\<close>

definition has_key :: "('k \<times> 'v) list \<Rightarrow> 'k \<Rightarrow> bool" where
  "has_key m k \<longleftrightarrow> k \<in> set (map fst m)"

lemma has_key_map_of: "has_key m k \<longleftrightarrow> map_of m k \<noteq> None"
  unfolding has_key_def by (metis map_of_eq_None_iff list.set_map)

lemma last_filter_Cons_snoc: "filter P xs \<noteq> [] \<Longrightarrow> last (filter P xs) \<in> set xs \<and> P (last (filter P xs))"
  using last_in_set[of "filter P xs"] by auto

end
