(* ===== verification/PyNum.thy ===== *)
theory PyNum
  imports Prelude
begin

section \<open>Python's numbers: exact decimals and binary floats\<close>

text \<open>
  The arithmetic of the standard library that the engine uses, written out where it is not
  the mathematical one. \<open>decimal.Decimal\<close> is a coefficient and a power of ten; comparison
  is exact, but a difference is rounded half-even to the 28 significant digits of the default
  context and raises \<open>Overflow\<close> above its largest exponent. A \<open>float\<close> is a rational (the
  double it denotes; the sign of zero is not kept, and no caller reads it) or one of the three
  non-finite values; \<open>repr\<close> gives the shortest decimal that rounds back to it.
\<close>

subsection \<open>Powers and digit counts\<close>

definition rpow :: "nat \<Rightarrow> int \<Rightarrow> rat" where
  "rpow b k = (if 0 \<le> k then of_nat b ^ nat k else 1 / of_nat b ^ nat (- k))"

fun ndigits_base :: "nat \<Rightarrow> nat \<Rightarrow> nat" where
  "ndigits_base b n = (if b < 2 \<or> n < b then 1 else Suc (ndigits_base b (n div b)))"

declare ndigits_base.simps [simp del]

abbreviation ndigits :: "nat \<Rightarrow> nat" where
  "ndigits \<equiv> ndigits_base 10"

lemma rpow_pos: "0 < b \<Longrightarrow> 0 < rpow b k"
  by (simp add: rpow_def)

lemma ndigits_pos [simp]: "0 < ndigits_base b n"
  by (subst ndigits_base.simps) auto

lemma ndigits_mult_power:
  assumes "0 < n"
  shows "ndigits (n * 10 ^ k) = ndigits n + k"
proof (induction k)
  case 0
  then show ?case by simp
next
  case (Suc k)
  have "ndigits (n * 10 ^ Suc k) = Suc (ndigits (n * 10 ^ Suc k div 10))"
    using assms by (subst ndigits_base.simps) auto
  also have "n * 10 ^ Suc k div 10 = n * 10 ^ k"
    by simp
  finally show ?case using Suc by simp
qed

lemma ndigits_upper: "n < 10 ^ ndigits n"
proof (induction n rule: less_induct)
  case (less n)
  show ?case
  proof (cases "n < 10")
    case True
    then show ?thesis by (subst ndigits_base.simps) simp
  next
    case False
    then have "n div 10 < 10 ^ ndigits (n div 10)"
      using less by simp
    then have "n < 10 ^ Suc (ndigits (n div 10))"
      by (simp add: div_less_iff_less_mult mult.commute)
    with False show ?thesis by (subst ndigits_base.simps) simp
  qed
qed

text \<open>\<open>n / d\<close> rounded to the nearest integer, ties to even.\<close>

definition div_half_even :: "nat \<Rightarrow> nat \<Rightarrow> nat" where
  "div_half_even n d =
     (let q = n div d; r = n mod d
      in if 2 * r < d \<or> (2 * r = d \<and> even q) then q else Suc q)"

lemma div_half_even_exact [simp]: "0 < d \<Longrightarrow> div_half_even (q * d) d = q"
  by (simp add: div_half_even_def)

subsection \<open>\<open>decimal.Decimal\<close>\<close>

text \<open>A finite decimal \<open>Dec c e\<close> denotes \<open>c * 10 ^ e\<close>.\<close>

datatype dec = Dec (dec_coef: int) (dec_exp: int)

definition dec_value :: "dec \<Rightarrow> rat" where
  "dec_value d = of_int (dec_coef d) * rpow 10 (dec_exp d)"

definition dec_of_int :: "int \<Rightarrow> dec" where
  "dec_of_int i = Dec i 0"

text \<open>Two decimals written over the smaller of their exponents.\<close>

definition dec_align :: "dec \<Rightarrow> dec \<Rightarrow> int \<times> int \<times> int" where
  "dec_align a b =
     (let e = min (dec_exp a) (dec_exp b)
      in (dec_coef a * 10 ^ nat (dec_exp a - e), dec_coef b * 10 ^ nat (dec_exp b - e), e))"

text \<open>\<open>a == b\<close> on decimals: exact, no context involved.\<close>

definition dec_eq :: "dec \<Rightarrow> dec \<Rightarrow> bool" where
  "dec_eq a b = (case dec_align a b of (x, y, e) \<Rightarrow> x = y)"

lemma rpow_shift: "0 < b \<Longrightarrow> k \<le> j \<Longrightarrow> rpow b j = of_nat b ^ nat (j - k) * rpow b k"
proof -
  assume b: "0 < b" and k: "k \<le> j"
  define B :: rat where "B = of_nat b"
  have B: "B \<noteq> 0" using b by (simp add: B_def)
  have rp: "rpow b i = B powi i" for i
    by (simp add: rpow_def B_def power_int_def field_simps)
  have "B powi j = B powi (j - k) * B powi k"
    using B by (simp add: power_int_add [symmetric])
  also have "B powi (j - k) = B ^ nat (j - k)"
    using k by (simp add: power_int_def)
  finally show ?thesis by (simp add: rp B_def)
qed

lemma dec_align_value:
  assumes "dec_align a b = (x, y, e)"
  shows "dec_value a = of_int x * rpow 10 e" "dec_value b = of_int y * rpow 10 e"
proof -
  have e: "e = min (dec_exp a) (dec_exp b)"
    and x: "x = dec_coef a * 10 ^ nat (dec_exp a - e)"
    and y: "y = dec_coef b * 10 ^ nat (dec_exp b - e)"
    using assms by (auto simp: dec_align_def Let_def)
  show "dec_value a = of_int x * rpow 10 e"
    using rpow_shift[of 10 e "dec_exp a"] by (simp add: dec_value_def x e)
  show "dec_value b = of_int y * rpow 10 e"
    using rpow_shift[of 10 e "dec_exp b"] by (simp add: dec_value_def y e)
qed

lemma dec_eq_iff: "dec_eq a b \<longleftrightarrow> dec_value a = dec_value b"
proof -
  obtain x y e where al: "dec_align a b = (x, y, e)"
    by (cases "dec_align a b") auto
  have "rpow 10 e \<noteq> 0" using rpow_pos[of 10 e] by simp
  then show ?thesis
    using dec_align_value[OF al] by (simp add: dec_eq_def al)
qed

text \<open>
  The default context: 28 significant digits, exponents between \<open>-999999\<close> and \<open>999999\<close>,
  ties to even. \<open>Overflow\<close> is trapped, so it is raised (\<open>Inl\<close>); rounding and underflow
  are not.
\<close>

datatype arith_error = DecimalOverflow

definition context_prec :: nat where "context_prec = 28"
definition context_emax :: int where "context_emax = 999999"
definition context_etiny :: int where "context_etiny = -1000026"

definition dec_round :: "int \<Rightarrow> int \<Rightarrow> arith_error + dec" where
  "dec_round c e =
     (let n = nat \<bar>c\<bar>;
          k = max (int (ndigits n) - int context_prec) (context_etiny - e)
      in if c = 0 then Inr (Dec 0 e)
         else if k \<le> 0 then
           (if e + int (ndigits n) - 1 > context_emax then Inl DecimalOverflow else Inr (Dec c e))
         else
           (let q = div_half_even n (10 ^ nat k)
            in if e + k + int (ndigits q) - 1 > context_emax then Inl DecimalOverflow
               else Inr (Dec (sgn c * int q) (e + k))))"

definition dec_sub :: "dec \<Rightarrow> dec \<Rightarrow> arith_error + dec" where
  "dec_sub a b = (case dec_align a b of (x, y, e) \<Rightarrow> dec_round (x - y) e)"

text \<open>A difference whose exact coefficient fits the context is not rounded.\<close>

lemma dec_sub_exact:
  assumes "dec_align a b = (x, y, e)"
    and "ndigits (nat \<bar>x - y\<bar>) \<le> context_prec"
    and "context_etiny \<le> e" and "e + int context_prec - 1 \<le> context_emax"
  shows "dec_sub a b = Inr (Dec (x - y) e)"
    and "dec_value (Dec (x - y) e) = dec_value a - dec_value b"
proof -
  show "dec_sub a b = Inr (Dec (x - y) e)"
    using assms by (simp add: dec_sub_def dec_round_def Let_def)
  show "dec_value (Dec (x - y) e) = dec_value a - dec_value b"
    using dec_align_value[OF assms(1)] by (simp add: dec_value_def algebra_simps)
qed

subsection \<open>\<open>Decimal(text)\<close>\<close>

text \<open>
  White space around the text is stripped, every underscore is dropped and any Unicode
  decimal digit counts as its value; the rest is a sign, digits with at most one point, and an
  optional exponent. The first code point of each run of ten decimal digits of the Unicode
  tables:
\<close>

definition nd_zeros :: "nat list" where
  "nd_zeros =
     [0x30, 0x660, 0x6F0, 0x7C0, 0x966, 0x9E6, 0xA66, 0xAE6, 0xB66, 0xBE6, 0xC66, 0xCE6, 0xD66,
      0xDE6, 0xE50, 0xED0, 0xF20, 0x1040, 0x1090, 0x17E0, 0x1810, 0x1946, 0x19D0, 0x1A80, 0x1A90,
      0x1B50, 0x1BB0, 0x1C40, 0x1C50, 0xA620, 0xA8D0, 0xA900, 0xA9D0, 0xA9F0, 0xAA50, 0xABF0,
      0xFF10, 0x104A0, 0x10D30, 0x11066, 0x110F0, 0x11136, 0x111D0, 0x112F0, 0x11450, 0x114D0,
      0x11650, 0x116C0, 0x11730, 0x118E0, 0x11950, 0x11C50, 0x11D50, 0x11DA0, 0x11F50, 0x16A60,
      0x16AC0, 0x16B50, 0x1D7CE, 0x1D7D8, 0x1D7E2, 0x1D7EC, 0x1D7F6, 0x1E140, 0x1E2F0, 0x1E4F0,
      0x1E950, 0x1FBF0]"

definition decimal_digit :: "nat \<Rightarrow> nat option" where
  "decimal_digit c = map_option (\<lambda>z. c - z) (find (\<lambda>z. z \<le> c \<and> c < z + 10) nd_zeros)"

definition is_space :: "nat \<Rightarrow> bool" where
  "is_space c \<longleftrightarrow> (9 \<le> c \<and> c \<le> 13) \<or> (28 \<le> c \<and> c \<le> 32) \<or> c = 133 \<or> c = 160 \<or> c = 5760
     \<or> (8192 \<le> c \<and> c \<le> 8202) \<or> c = 8232 \<or> c = 8233 \<or> c = 8239 \<or> c = 8287 \<or> c = 12288"

definition strip :: "pystr \<Rightarrow> pystr" where
  "strip s = rev (dropWhile is_space (rev (dropWhile is_space s)))"

fun take_digits :: "pystr \<Rightarrow> nat list \<times> pystr" where
  "take_digits [] = ([], [])"
| "take_digits (c # cs) =
     (case decimal_digit c of
        None \<Rightarrow> ([], c # cs)
      | Some d \<Rightarrow> (case take_digits cs of (ds, rest) \<Rightarrow> (d # ds, rest)))"

definition digits_value :: "nat list \<Rightarrow> nat" where
  "digits_value ds = foldl (\<lambda>a d. 10 * a + d) 0 ds"

text \<open>\<open>[Ee][-+]?digits\<close> to the end, or nothing: the exponent, \<open>None\<close> when malformed.\<close>

definition parse_exponent :: "pystr \<Rightarrow> int option" where
  "parse_exponent s =
     (case s of
        [] \<Rightarrow> Some 0
      | c # cs \<Rightarrow>
          if c = 69 \<or> c = 101 then
            (let (neg, body) =
               (case cs of
                  [] \<Rightarrow> (False, [])
                | d # ds \<Rightarrow> if d = 45 then (True, ds) else if d = 43 then (False, ds) else (False, cs));
                 (ds, rest) = take_digits body
             in if ds = [] \<or> rest \<noteq> [] then None
                else Some ((if neg then -1 else 1) * int (digits_value ds)))
          else None)"

text \<open>
  The finite value of the text, or \<open>None\<close> when \<open>Decimal\<close> raises \<open>InvalidOperation\<close> or
  the value is an infinity or a NaN. The construction is exact, within the exponent range of
  the C implementation.
\<close>

definition decimal_of_text :: "pystr \<Rightarrow> dec option" where
  "decimal_of_text text =
     (let s = filter (\<lambda>c. c \<noteq> 95) (strip text);
          (neg, body) = (case s of [] \<Rightarrow> (False, [])
            | c # cs \<Rightarrow> if c = 45 then (True, cs) else if c = 43 then (False, cs) else (False, s));
          (ip, r1) = take_digits body;
          (fp, r2) = (case r1 of [] \<Rightarrow> ([], []) | c # cs \<Rightarrow> if c = 46 then take_digits cs else ([], r1))
      in if ip = [] \<and> fp = [] then None
         else (case parse_exponent r2 of
                 None \<Rightarrow> None
               | Some x \<Rightarrow>
                   (let n = digits_value (ip @ fp); e = x - int (length fp)
                    in if e + int (ndigits n) - 1 > 999999999999999999
                          \<or> e < -1999999999999999997
                       then None
                       else Some (Dec (if neg then - int n else int n) e))))"

subsection \<open>Binary floats\<close>

datatype pyfloat = Finite rat | PosInf | NegInf | NaN

definition floor_log :: "nat \<Rightarrow> rat \<Rightarrow> int" where
  \<comment> \<open>the exponent of the leading digit of a positive rational in base \<open>b\<close>\<close>
  "floor_log b x =
     (case quotient_of x of (n, d) \<Rightarrow>
        (let k = int (ndigits_base b (nat n)) - int (ndigits_base b (nat d))
         in if rpow b k \<le> x then k else k - 1))"

definition round_half_even :: "rat \<Rightarrow> nat" where
  "round_half_even x = (case quotient_of x of (n, d) \<Rightarrow> div_half_even (nat n) (nat d))"

text \<open>The double nearest to a positive rational (53 bits, smallest quantum \<open>2^-1074\<close>).\<close>

definition nearest_double :: "rat \<Rightarrow> rat" where
  "nearest_double x =
     (let q = max (floor_log 2 x - 52) (-1074)
      in of_nat (round_half_even (x / rpow 2 q)) * rpow 2 q)"

text \<open>
  \<open>repr\<close>: of the decimals with the fewest digits that round back to \<open>x\<close>, the closest to
  it, as coefficient and exponent. Seventeen digits always suffice for a double; where the
  search fails (\<open>x\<close> is not a double) the exact expansion of the dyadic is returned.
\<close>

definition exact_decimal :: "rat \<Rightarrow> nat \<times> int" where
  "exact_decimal x =
     (case quotient_of x of (n, d) \<Rightarrow>
        (let k = int (ndigits_base 2 (nat d)) - 1 in (nat n * 5 ^ nat k, - k)))"

fun repr_search :: "nat \<Rightarrow> nat \<Rightarrow> rat \<Rightarrow> nat \<times> int" where
  "repr_search 0 n x = exact_decimal x"
| "repr_search (Suc fuel) n x =
     (let e = floor_log 10 x - int n + 1;
          lo = nat \<lfloor>x / rpow 10 e\<rfloor>; hi = Suc lo;
          back = (\<lambda>c. nearest_double (of_nat c * rpow 10 e) = x);
          dist = (\<lambda>c. \<bar>of_nat c * rpow 10 e - x\<bar>)
      in if back lo \<and> back hi then
           (if dist lo < dist hi \<or> (dist lo = dist hi \<and> even lo) then (lo, e) else (hi, e))
         else if back lo then (lo, e)
         else if back hi then (hi, e)
         else repr_search fuel (Suc n) x)"

definition float_repr :: "rat \<Rightarrow> nat \<times> int" where
  "float_repr x = repr_search 17 1 x"

definition float_repr_value :: "rat \<Rightarrow> rat" where
  "float_repr_value x =
     (if x = 0 then 0
      else (case float_repr \<bar>x\<bar> of (c, e) \<Rightarrow> sgn x * of_nat c * rpow 10 e))"

lemma repr_search_back:
  assumes "repr_search fuel n x = (c, e)" and "(c, e) \<noteq> exact_decimal x"
  shows "nearest_double (of_nat c * rpow 10 e) = x"
  using assms
proof (induction fuel n x rule: repr_search.induct)
  case (1 n x)
  then show ?case by simp
next
  case (2 fuel n x)
  then show ?case
    by (auto simp: Let_def split: if_splits)
qed

end
