(* ===== verification/Json.thy ===== *)
theory Json
  imports PyNum
begin

section \<open>JSON values and exact deep equality\<close>

text \<open>
  The values a provider, a contract or a timeline carries (\<open>kernel.JsonValue\<close>), and the
  equality of \<open>engine/assertions.py\<close> on them. An object is the list of its members in
  insertion order; a Python mapping has one value per key, which \<open>wf_json\<close> says.
\<close>

datatype json =
    JNull
  | JBool bool
  | JInt int
  | JFloat pyfloat
  | JStr pystr
  | JArr "json list"
  | JObj "(pystr \<times> json) list"

type_synonym jobject = "(pystr \<times> json) list"

lemma size_member [termination_simp]: "(k, v) \<in> set kvs \<Longrightarrow> size v < Suc (size_list (size_prod (\<lambda>_. 0) size) kvs)"
  by (induction kvs) auto

lemma size_member_snd [termination_simp]:
  "kv \<in> set kvs \<Longrightarrow> size (snd kv) < Suc (size_list (size_prod (\<lambda>_. 0) size) kvs)"
  by (cases kv) (auto simp: size_member)

lemma size_element [termination_simp]: "x \<in> set xs \<Longrightarrow> size x < Suc (size_list size xs)"
  by (induction xs) auto

lemma size_zip_fst [termination_simp]: "p \<in> set (zip xs ys) \<Longrightarrow> size (fst p) < Suc (size_list size xs)"
  by (cases p) (auto dest: set_zip_leftD size_element)

fun wf_json :: "json \<Rightarrow> bool" where
  "wf_json (JArr xs) = (\<forall>x\<in>set xs. wf_json x)"
| "wf_json (JObj kvs) = (distinct (map fst kvs) \<and> (\<forall>kv\<in>set kvs. wf_json (snd kv)))"
| "wf_json _ = True"

text \<open>No NaN inside: the one value Python's \<open>==\<close> does not find equal to itself.\<close>

fun nan_free :: "json \<Rightarrow> bool" where
  "nan_free (JFloat x) = (x \<noteq> NaN)"
| "nan_free (JArr xs) = (\<forall>x\<in>set xs. nan_free x)"
| "nan_free (JObj kvs) = (\<forall>kv\<in>set kvs. nan_free (snd kv))"
| "nan_free _ = True"

subsection \<open>Number equality\<close>

text \<open>Python compares an integer and a float by their exact values; a NaN equals nothing.\<close>

definition float_eq :: "pyfloat \<Rightarrow> pyfloat \<Rightarrow> bool" where
  "float_eq x y \<longleftrightarrow> x = y \<and> x \<noteq> NaN"

definition int_float_eq :: "int \<Rightarrow> pyfloat \<Rightarrow> bool" where
  "int_float_eq i x = (case x of Finite r \<Rightarrow> of_int i = r | _ \<Rightarrow> False)"

lemma float_eq_sym: "float_eq x y = float_eq y x"
  by (auto simp: float_eq_def)

subsection \<open>\<open>deep_equal\<close>\<close>

fun deep_equal :: "json \<Rightarrow> json \<Rightarrow> bool" where
  "deep_equal (JBool a) r = (case r of JBool b \<Rightarrow> a = b | _ \<Rightarrow> False)"
| "deep_equal (JInt a) r =
     (case r of JInt b \<Rightarrow> a = b | JFloat y \<Rightarrow> int_float_eq a y | _ \<Rightarrow> False)"
| "deep_equal (JFloat x) r =
     (case r of JInt b \<Rightarrow> int_float_eq b x | JFloat y \<Rightarrow> float_eq x y | _ \<Rightarrow> False)"
| "deep_equal (JStr a) r = (case r of JStr b \<Rightarrow> a = b | _ \<Rightarrow> False)"
| "deep_equal (JObj kvs) r =
     (case r of
        JObj kvs' \<Rightarrow>
          set (map fst kvs) = set (map fst kvs') \<and>
          (\<forall>kv\<in>set kvs. case map_of kvs' (fst kv) of
                           None \<Rightarrow> False | Some w \<Rightarrow> deep_equal (snd kv) w)
      | _ \<Rightarrow> False)"
| "deep_equal (JArr xs) r =
     (case r of
        JArr ys \<Rightarrow> length xs = length ys \<and> (\<forall>p\<in>set (zip xs ys). deep_equal (fst p) (snd p))
      | _ \<Rightarrow> False)"
| "deep_equal JNull r = (case r of JNull \<Rightarrow> True | _ \<Rightarrow> False)"

lemma deep_equal_refl: "wf_json v \<Longrightarrow> nan_free v \<Longrightarrow> deep_equal v v"
proof (induction v)
  case (JFloat x)
  then show ?case by (simp add: float_eq_def)
next
  case (JArr xs)
  then show ?case by (auto simp: zip_same_conv_map)
next
  case (JObj kvs)
  have "map_of kvs (fst kv) = Some (snd kv)" if "kv \<in> set kvs" for kv
    using JObj.prems(1) that by (simp add: map_of_eq_Some_iff)
  moreover have "deep_equal (snd kv) (snd kv)" if "kv \<in> set kvs" for kv
  proof -
    have "wf_json (snd kv)" "nan_free (snd kv)" using JObj.prems that by simp_all
    then show ?thesis using JObj.IH[of kv "snd kv"] that by (cases kv) simp
  qed
  ultimately show ?case by simp
qed auto

lemma deep_equal_sym: "deep_equal v w \<Longrightarrow> wf_json v \<Longrightarrow> wf_json w \<Longrightarrow> deep_equal w v"
proof (induction v w rule: deep_equal.induct)
  case (3 x r)
  then show ?case by (auto split: json.splits simp: float_eq_sym)
next
  case (5 kvs r)
  from "5.prems"(1) obtain kvs' where r: "r = JObj kvs'"
    and keys: "set (map fst kvs) = set (map fst kvs')"
    and all: "\<forall>kv\<in>set kvs. case map_of kvs' (fst kv) of None \<Rightarrow> False | Some w \<Rightarrow> deep_equal (snd kv) w"
    by (auto split: json.splits)
  have "case map_of kvs (fst kv') of None \<Rightarrow> False | Some w \<Rightarrow> deep_equal (snd kv') w"
    if kv': "kv' \<in> set kvs'" for kv'
  proof -
    have "fst kv' \<in> set (map fst kvs)" using keys kv' by auto
    then obtain v where v: "(fst kv', v) \<in> set kvs" by auto
    have m': "map_of kvs' (fst kv') = Some (snd kv')"
      using kv' "5.prems"(3) r by (simp add: map_of_eq_Some_iff)
    have m: "map_of kvs (fst kv') = Some v"
      using v "5.prems"(2) by (simp add: map_of_eq_Some_iff)
    have "deep_equal v (snd kv')" using all v m' by fastforce
    moreover have "wf_json v" "wf_json (snd kv')"
      using "5.prems"(2,3) v kv' r by auto
    ultimately have "deep_equal (snd kv') v"
      using "5.IH"[OF r v] m' by simp
    then show ?thesis using m by simp
  qed
  then show ?case using keys r by simp
next
  case (6 xs r)
  from "6.prems"(1) obtain ys where r: "r = JArr ys" and len: "length xs = length ys"
    and all: "\<forall>p\<in>set (zip xs ys). deep_equal (fst p) (snd p)"
    by (auto split: json.splits)
  have "deep_equal (fst q) (snd q)" if q: "q \<in> set (zip ys xs)" for q
  proof -
    have p: "(snd q, fst q) \<in> set (zip xs ys)"
      using q len by (metis in_set_zip fst_conv snd_conv)
    have "wf_json (snd q)" "wf_json (fst q)"
      using p "6.prems"(2,3) r by (auto dest: set_zip_leftD set_zip_rightD)
    then show ?thesis
      using "6.IH"[OF r p] all p by auto
  qed
  then show ?case using len r by simp
qed (auto split: json.splits)

lemma int_float_eq_trans:
  "int_float_eq i x \<Longrightarrow> int_float_eq j x \<Longrightarrow> i = j"
  by (auto simp: int_float_eq_def split: pyfloat.splits)

lemma deep_equal_trans: "deep_equal u v \<Longrightarrow> deep_equal v w \<Longrightarrow> deep_equal u w"
proof (induction u v arbitrary: w rule: deep_equal.induct)
  case (2 a r)
  then show ?case by (auto split: json.splits simp: float_eq_def dest: int_float_eq_trans)
next
  case (3 x r)
  then show ?case
    by (auto split: json.splits simp: float_eq_def int_float_eq_def pyfloat.splits split: pyfloat.splits)
next
  case (5 kvs r)
  from "5.prems"(1) obtain kvs' where r: "r = JObj kvs'"
    and keys: "set (map fst kvs) = set (map fst kvs')"
    and all: "\<forall>kv\<in>set kvs. case map_of kvs' (fst kv) of None \<Rightarrow> False | Some w \<Rightarrow> deep_equal (snd kv) w"
    by (auto split: json.splits)
  from "5.prems"(2) r obtain kvs'' where w: "w = JObj kvs''"
    and keys': "set (map fst kvs') = set (map fst kvs'')"
    and all': "\<forall>kv\<in>set kvs'. case map_of kvs'' (fst kv) of None \<Rightarrow> False | Some w \<Rightarrow> deep_equal (snd kv) w"
    by (auto split: json.splits)
  have "case map_of kvs'' (fst kv) of None \<Rightarrow> False | Some w \<Rightarrow> deep_equal (snd kv) w"
    if kv: "kv \<in> set kvs" for kv
  proof -
    obtain v' where v': "map_of kvs' (fst kv) = Some v'" and e: "deep_equal (snd kv) v'"
      using all kv by (auto split: option.splits)
    have "(fst kv, v') \<in> set kvs'" using v' by (rule map_of_SomeD)
    with all' obtain v'' where v'': "map_of kvs'' (fst kv) = Some v''" and e': "deep_equal v' v''"
      by (auto split: option.splits)
    show ?thesis using "5.IH"[OF r kv v' e e'] v'' by simp
  qed
  then show ?case using w keys keys' by simp
next
  case (6 xs r)
  from "6.prems"(1) obtain ys where r: "r = JArr ys" and len: "length xs = length ys"
    and all: "\<forall>p\<in>set (zip xs ys). deep_equal (fst p) (snd p)"
    by (auto split: json.splits)
  from "6.prems"(2) r obtain zs where w: "w = JArr zs" and len': "length ys = length zs"
    and all': "\<forall>p\<in>set (zip ys zs). deep_equal (fst p) (snd p)"
    by (auto split: json.splits)
  have "deep_equal (xs ! i) (zs ! i)" if i: "i < length xs" for i
  proof -
    have p: "(xs ! i, ys ! i) \<in> set (zip xs ys)" and q: "(ys ! i, zs ! i) \<in> set (zip ys zs)"
      using i len len' by (auto simp: in_set_zip)
    show ?thesis using "6.IH"[OF r p] all p all' q by fastforce
  qed
  then show ?case using w len len' by (auto simp: in_set_zip)
qed (auto split: json.splits)

text \<open>\<open>deep_equal\<close> never crosses the boundary between the JSON types.\<close>

datatype json_type = TNull | TBool | TNumber | TString | TArray | TObject

fun type_of :: "json \<Rightarrow> json_type" where
  "type_of JNull = TNull"
| "type_of (JBool _) = TBool"
| "type_of (JInt _) = TNumber"
| "type_of (JFloat _) = TNumber"
| "type_of (JStr _) = TString"
| "type_of (JArr _) = TArray"
| "type_of (JObj _) = TObject"

lemma deep_equal_type_of: "deep_equal v w \<Longrightarrow> type_of v = type_of w"
  by (cases v) (auto split: json.splits)

end
