(* ===== verification/Paths.thy ===== *)
theory Paths
  imports Json
begin

section \<open>Restricted dotted observation paths\<close>

text \<open>
  \<open>contracts/paths.py\<close>: the grammar of a dotted path, \<open>ObservationPath.parse\<close>, the overlap
  test at a dotted-key boundary and the exact resolution against an evaluation context. Every
  character of a segment a path of the program has is ASCII: \<open>parse\<close> and the state diff are
  the only places that build paths.
\<close>

subsection \<open>Segments\<close>

definition is_letter :: "nat \<Rightarrow> bool" where
  "is_letter c \<longleftrightarrow> 65 \<le> c \<and> c \<le> 90 \<or> 97 \<le> c \<and> c \<le> 122"

definition is_digit :: "nat \<Rightarrow> bool" where
  "is_digit c \<longleftrightarrow> 48 \<le> c \<and> c \<le> 57"

text \<open>\<open>[A-Za-z_][A-Za-z0-9_-]*\<close>, \<open>0\<close>, or \<open>[1-9][0-9]*\<close>\<close>

fun segment_body :: "pystr \<Rightarrow> bool" where
  "segment_body [] = False"
| "segment_body (c # cs) =
     ((is_letter c \<or> c = 95) \<and> (\<forall>d\<in>set cs. is_letter d \<or> is_digit d \<or> d = 95 \<or> d = 45) \<or>
      c = 48 \<and> cs = [] \<or>
      (is_digit c \<and> c \<noteq> 48) \<and> (\<forall>d\<in>set cs. is_digit d))"

text \<open>
  \<open>_SEGMENT.match\<close>: the pattern's \<open>$\<close> also matches before a line feed at the very end of
  the text.
\<close>

definition is_valid_segment :: "pystr \<Rightarrow> bool" where
  "is_valid_segment t \<longleftrightarrow>
     segment_body t \<or> (t \<noteq> [] \<and> last t = 10 \<and> segment_body (butlast t))"

lemma segment_body_chars:
  "segment_body s \<Longrightarrow> c \<in> set s \<Longrightarrow> is_letter c \<or> is_digit c \<or> c = 95 \<or> c = 45"
  by (cases s) (auto simp: is_digit_def)

lemma segment_body_not_Nil [simp]: "segment_body s \<Longrightarrow> s \<noteq> []"
  by auto

lemma segment_body_show_nat [simp]: "segment_body (show_nat n)"
proof -
  have head: "show_nat n = [48] \<or> (\<exists>c cs. show_nat n = c # cs \<and> c \<noteq> 48)" for n
  proof (induction n rule: show_nat.induct)
    case (1 n)
    show ?case
    proof (cases "n < 10")
      case True
      then show ?thesis by (auto simp: show_nat.simps[of n])
    next
      case False
      have "n div 10 \<noteq> 0" using False by (simp add: div_eq_0_iff)
      then have "show_nat (n div 10) \<noteq> [48]"
        using read_show_nat[of "n div 10"] by (metis read_nat.simps add_0 diff_self_eq_0 mult_0_right)
      then obtain c cs where c: "show_nat (n div 10) = c # cs" "c \<noteq> 48"
        using "1.IH"[OF False] by blast
      have "show_nat n = c # (cs @ [48 + n mod 10])"
        using False c by (subst show_nat.simps) simp
      then show ?thesis using c by blast
    qed
  qed
  have "\<forall>c\<in>set (show_nat n). is_digit c"
    using show_nat_digits by (auto simp: is_digit_def)
  with head[of n] show ?thesis by auto
qed

lemma is_valid_segment_body: "segment_body s \<Longrightarrow> is_valid_segment s"
  by (simp add: is_valid_segment_def)

subsection \<open>Paths and their order\<close>

datatype observation_path = Path (segments: "pystr list")

instantiation observation_path :: linorder
begin

definition less_eq_observation_path :: "observation_path \<Rightarrow> observation_path \<Rightarrow> bool" where
  "less_eq_observation_path p q \<longleftrightarrow> segments p \<le> segments q"

definition less_observation_path :: "observation_path \<Rightarrow> observation_path \<Rightarrow> bool" where
  "less_observation_path p q \<longleftrightarrow> segments p < segments q"

instance
  by standard
    (auto simp: less_eq_observation_path_def less_observation_path_def intro: observation_path.expand)

end

definition path_str :: "observation_path \<Rightarrow> pystr" where
  "path_str p = join_with 46 (segments p)"

definition path_namespace :: "observation_path \<Rightarrow> pystr option" where
  "path_namespace p = (case segments p of [] \<Rightarrow> None | s # _ \<Rightarrow> Some s)"

definition path_len :: "observation_path \<Rightarrow> nat" where
  "path_len p = length (segments p)"

definition is_ancestor_of :: "observation_path \<Rightarrow> observation_path \<Rightarrow> bool" where
  "is_ancestor_of p q \<longleftrightarrow>
     length (segments p) \<le> length (segments q) \<and>
     take (length (segments p)) (segments q) = segments p"

definition overlaps :: "observation_path \<Rightarrow> observation_path \<Rightarrow> bool" where
  "overlaps p q \<longleftrightarrow> is_ancestor_of p q \<or> is_ancestor_of q p"

subsection \<open>Parsing\<close>

definition max_observation_path_length :: nat where
  "max_observation_path_length = 200"

text \<open>The constructs refused by name, in the order they are looked for.\<close>

definition forbidden_constructs :: "nat list" where
  "forbidden_constructs = lit ''*$[]()@?'' @ [39] @ lit [CHR 0x22, CHR 0x5C, CHR ''/'', CHR '':'', CHR '' '']"

datatype path_error =
    NotAString
  | EmptyPath
  | PathTooLong
  | ForbiddenConstruct nat
  | ControlCharacter
  | EmptySegment
  | IllFormedSegment pystr

fun check_segments :: "pystr list \<Rightarrow> path_error option" where
  "check_segments [] = None"
| "check_segments (s # ss) =
     (if s = [] then Some EmptySegment
      else if \<not> is_valid_segment s then Some (IllFormedSegment s)
      else check_segments ss)"

definition parse_text :: "pystr \<Rightarrow> path_error + observation_path" where
  "parse_text t =
     (if t = [] then Inl EmptyPath
      else if max_observation_path_length < length t then Inl PathTooLong
      else case find (\<lambda>c. c \<in> set t) forbidden_constructs of
        Some c \<Rightarrow> Inl (ForbiddenConstruct c)
      | None \<Rightarrow>
          if \<exists>c\<in>set t. c < 32 \<or> c = 127 then Inl ControlCharacter
          else (case check_segments (split_on 46 t) of
                  Some e \<Rightarrow> Inl e
                | None \<Rightarrow> Inr (Path (split_on 46 t))))"

text \<open>\<open>ObservationPath.parse\<close> takes any object; a value that is no string is refused.\<close>

definition parse :: "json \<Rightarrow> path_error + observation_path" where
  "parse v = (case v of JStr t \<Rightarrow> parse_text t | _ \<Rightarrow> Inl NotAString)"

subsection \<open>Resolution\<close>

text \<open>
  A \<open>Resolution\<close> is \<open>Some\<close> of the value found, \<open>None\<close> is \<open>MISSING\<close>; a present
  null is \<open>Some JNull\<close>. The walk indexes objects by the segment and arrays by a decimal
  segment in range, and ends anywhere else.
\<close>

type_synonym resolution = "json option"

fun all_digits :: "pystr \<Rightarrow> bool" where
  "all_digits s = (s \<noteq> [] \<and> (\<forall>c\<in>set s. is_digit c))"

fun step :: "json \<Rightarrow> pystr \<Rightarrow> resolution" where
  "step (JObj kvs) s = map_of kvs s"
| "step (JArr xs) s =
     (if all_digits s
      then (let i = read_nat s 0 in if length xs \<le> i then None else Some (xs ! i))
      else None)"
| "step _ s = None"

fun walk :: "pystr list \<Rightarrow> json \<Rightarrow> resolution" where
  "walk [] v = Some v"
| "walk (s # ss) v = (case step v s of None \<Rightarrow> None | Some w \<Rightarrow> walk ss w)"

definition resolve :: "observation_path \<Rightarrow> jobject \<Rightarrow> resolution" where
  "resolve p ctx = walk (segments p) (JObj ctx)"

subsection \<open>Overlap\<close>

lemma is_ancestor_of_prefix: "is_ancestor_of p q \<longleftrightarrow> prefix (segments p) (segments q)"
proof -
  have "take (length xs) ys = xs \<longleftrightarrow> prefix xs ys" for xs ys :: "pystr list"
    by (metis append_eq_conv_conj append_take_drop_id prefix_def)
  moreover have "prefix xs ys \<Longrightarrow> length xs \<le> length ys" for xs ys :: "pystr list"
    by (rule prefix_length_le)
  ultimately show ?thesis by (auto simp: is_ancestor_of_def)
qed

lemma is_ancestor_of_refl [simp]: "is_ancestor_of p p"
  by (simp add: is_ancestor_of_prefix)

lemma is_ancestor_of_trans: "is_ancestor_of p q \<Longrightarrow> is_ancestor_of q r \<Longrightarrow> is_ancestor_of p r"
  by (auto simp: is_ancestor_of_prefix)

lemma is_ancestor_of_antisym: "is_ancestor_of p q \<Longrightarrow> is_ancestor_of q p \<Longrightarrow> p = q"
  by (auto simp: is_ancestor_of_prefix intro: observation_path.expand prefix_order.antisym)

lemma overlaps_sym: "overlaps p q = overlaps q p"
  by (auto simp: overlaps_def)

lemma overlaps_refl [simp]: "overlaps p p"
  by (simp add: overlaps_def)

lemma overlaps_common_descendant: "overlaps p q \<longleftrightarrow> (\<exists>r. is_ancestor_of p r \<and> is_ancestor_of q r)"
proof
  assume "overlaps p q"
  then show "\<exists>r. is_ancestor_of p r \<and> is_ancestor_of q r"
    unfolding overlaps_def using is_ancestor_of_refl by blast
next
  assume "\<exists>r. is_ancestor_of p r \<and> is_ancestor_of q r"
  then obtain r where "prefix (segments p) (segments r)" "prefix (segments q) (segments r)"
    by (auto simp: is_ancestor_of_prefix)
  then have "prefix (segments p) (segments q) \<or> prefix (segments q) (segments p)"
    using prefix_same_cases by blast
  then show "overlaps p q" by (simp add: overlaps_def is_ancestor_of_prefix)
qed

subsection \<open>Resolution is compositional\<close>

lemma walk_append: "walk (xs @ ys) v = (case walk xs v of None \<Rightarrow> None | Some w \<Rightarrow> walk ys w)"
  by (induction xs arbitrary: v) (auto split: option.splits)

lemma walk_snoc: "walk (xs @ [s]) v = (case walk xs v of None \<Rightarrow> None | Some w \<Rightarrow> step w s)"
  by (auto simp: walk_append split: option.splits)

lemma resolve_ancestor:
  "is_ancestor_of p q \<Longrightarrow> resolve q ctx = Some v \<Longrightarrow>
   \<exists>w. resolve p ctx = Some w \<and> walk (drop (length (segments p)) (segments q)) w = Some v"
proof -
  assume "is_ancestor_of p q" and r: "resolve q ctx = Some v"
  then obtain zs where z: "segments q = segments p @ zs"
    by (auto simp: is_ancestor_of_prefix prefix_def)
  show ?thesis using r
    by (auto simp: resolve_def z walk_append split: option.splits)
qed

lemma step_scalar: "type_of v \<noteq> TObject \<Longrightarrow> type_of v \<noteq> TArray \<Longrightarrow> step v s = None"
  by (cases v) auto

lemma walk_through_scalar:
  "type_of v \<noteq> TObject \<Longrightarrow> type_of v \<noteq> TArray \<Longrightarrow> ss \<noteq> [] \<Longrightarrow> walk ss v = None"
  by (cases ss) (auto simp: step_scalar)

subsection \<open>What the grammar accepts\<close>

text \<open>The printed paths of the grammar: what \<open>parse\<close> and \<open>str\<close> carry to and fro.\<close>

definition wf_path :: "observation_path \<Rightarrow> bool" where
  "wf_path p \<longleftrightarrow>
     segments p \<noteq> [] \<and> (\<forall>s\<in>set (segments p). segment_body s) \<and>
     length (path_str p) \<le> max_observation_path_length"

definition path_char :: "nat \<Rightarrow> bool" where
  "path_char c \<longleftrightarrow> is_letter c \<or> is_digit c \<or> c = 95 \<or> c = 45 \<or> c = 46"

lemma forbidden_not_path_char: "c \<in> set forbidden_constructs \<Longrightarrow> \<not> path_char c"
  by (auto simp: forbidden_constructs_def lit_def path_char_def is_letter_def is_digit_def)

lemma control_not_path_char: "c < 32 \<or> c = 127 \<Longrightarrow> \<not> path_char c"
  by (auto simp: path_char_def is_letter_def is_digit_def)

lemma check_segments_None: "check_segments ss = None \<longleftrightarrow> (\<forall>s\<in>set ss. is_valid_segment s)"
  by (induction ss) (auto simp: is_valid_segment_def)

lemma in_join_with: "c \<in> set (join_with d ps) \<Longrightarrow> c = d \<or> (\<exists>p\<in>set ps. c \<in> set p)"
  by (induction d ps rule: join_with.induct) auto

lemma in_split_on: "p \<in> set (split_on d xs) \<Longrightarrow> c \<in> set p \<Longrightarrow> c \<in> set xs"
proof (induction xs arbitrary: p)
  case (Cons x xs)
  obtain q qs where q: "split_on d xs = q # qs" by (cases "split_on d xs") auto
  show ?case using Cons.prems Cons.IH[of q] Cons.IH[of p] q by (auto split: if_splits)
qed auto

lemma segment_body_path_char: "segment_body s \<Longrightarrow> c \<in> set s \<Longrightarrow> path_char c"
  by (auto simp: path_char_def dest: segment_body_chars)

lemma find_None: "find P xs = None \<longleftrightarrow> (\<forall>x\<in>set xs. \<not> P x)"
  by (auto simp: find_None_iff)

lemma parse_text_iff:
  "parse_text t = Inr p \<longleftrightarrow>
     t \<noteq> [] \<and> length t \<le> max_observation_path_length \<and>
     p = Path (split_on 46 t) \<and> (\<forall>s\<in>set (split_on 46 t). segment_body s)"
proof (cases "\<forall>s\<in>set (split_on 46 t). segment_body s")
  case True
  have "path_char c" if "c \<in> set t" for c
  proof -
    from that have "c \<in> set (join_with 46 (split_on 46 t))" by simp
    then have "c = 46 \<or> (\<exists>s\<in>set (split_on 46 t). c \<in> set s)" by (rule in_join_with)
    then show ?thesis
      using True segment_body_path_char by (auto simp: path_char_def)
  qed
  then have "find (\<lambda>c. c \<in> set t) forbidden_constructs = None"
      and "\<not> (\<exists>c\<in>set t. c < 32 \<or> c = 127)"
    using forbidden_not_path_char control_not_path_char by (auto simp: find_None)
  moreover have "check_segments (split_on 46 t) = None"
    using True by (simp add: check_segments_None is_valid_segment_body)
  ultimately show ?thesis using True by (auto simp: parse_text_def)
next
  case False
  then obtain s where s: "s \<in> set (split_on 46 t)" "\<not> segment_body s" by blast
  have "\<exists>c\<in>set t. c < 32 \<or> c = 127" if "is_valid_segment s"
  proof -
    have "s \<noteq> [] \<and> last s = 10" using that s(2) by (auto simp: is_valid_segment_def)
    then have "10 \<in> set s" by (metis last_in_set)
    then have "10 \<in> set t" using s(1) by (rule in_split_on[rotated])
    then show ?thesis by (intro bexI[of _ 10]) simp_all
  qed
  then have "parse_text t \<noteq> Inr p"
    using s by (auto simp: parse_text_def check_segments_None split: option.splits)
  then show ?thesis using s by blast
qed

lemma wf_path_split:
  assumes "t \<noteq> []" "length t \<le> max_observation_path_length"
    "\<forall>s\<in>set (split_on 46 t). segment_body s"
  shows "wf_path (Path (split_on 46 t))"
  using assms by (simp add: wf_path_def path_str_def)

lemma wf_path_no_dot: "wf_path p \<Longrightarrow> s \<in> set (segments p) \<Longrightarrow> 46 \<notin> set s"
  using segment_body_chars[of s 46] by (auto simp: wf_path_def is_letter_def is_digit_def)

lemma split_path_str: "wf_path p \<Longrightarrow> split_on 46 (path_str p) = segments p"
  unfolding path_str_def by (rule split_join_with) (use wf_path_no_dot in \<open>auto simp: wf_path_def\<close>)

lemma path_str_not_Nil: "wf_path p \<Longrightarrow> path_str p \<noteq> []"
proof
  assume p: "wf_path p" and "path_str p = []"
  then have "segments p = [[]]" using split_path_str[of p] by simp
  then show False using p by (simp add: wf_path_def)
qed

lemma path_str_inject: "wf_path p \<Longrightarrow> wf_path q \<Longrightarrow> path_str p = path_str q \<Longrightarrow> p = q"
  by (metis split_path_str observation_path.expand)

text \<open>
  C10. Parsing and printing are inverse to each other: \<open>ObservationPath.parse\<close> accepts exactly
  the texts that are the printed form of a path of the restricted grammar (identifier-shaped
  keys and integers without leading zeros, at most 200 characters), and returns that path. In
  particular no wildcard, bracket, quote, space or control character survives.
\<close>

theorem parse_print_roundtrip: "parse v = Inr p \<longleftrightarrow> wf_path p \<and> v = JStr (path_str p)"
proof (cases v)
  case (JStr t)
  have "parse_text t = Inr p \<longleftrightarrow> wf_path p \<and> t = path_str p"
  proof
    assume "parse_text t = Inr p"
    then show "wf_path p \<and> t = path_str p"
      by (auto simp: parse_text_iff wf_path_split path_str_def)
  next
    assume a: "wf_path p \<and> t = path_str p"
    then show "parse_text t = Inr p"
      by (auto simp: parse_text_iff split_path_str path_str_not_Nil)
        (auto simp: wf_path_def)
  qed
  then show ?thesis using JStr by (simp add: parse_def)
qed (auto simp: parse_def)

text \<open>
  Two paths overlap exactly when some path lies under both of them at a dotted-key
  boundary.
\<close>

theorem overlaps_iff_common_descendant:
  "overlaps p q \<longleftrightarrow> (\<exists>r. prefix (segments p) (segments r) \<and> prefix (segments q) (segments r))"
  by (simp add: overlaps_common_descendant is_ancestor_of_prefix)

end
