(* ===== verification/Vocabulary.thy ===== *)
theory Vocabulary
  imports Prelude
begin

section \<open>The closed enumerations\<close>

text \<open>
  The \<open>StrEnum\<close> classes of \<open>contracts/enums.py\<close>, \<open>engine/enums.py\<close>,
  \<open>evidence/enums.py\<close>, \<open>reports/enums.py\<close> and \<open>journeys/enums.py\<close>: a
  datatype per class, with the string each member is stored as. A \<open>StrEnum\<close> sorts as its
  string; the enumerations the program sorts are linear orders by it.
\<close>

datatype assertion_operator =
    Op_Equals
  | Op_NotEquals
  | Op_Exists
  | Op_Absent
  | Op_Contains
  | Op_Unchanged
  | Op_ChangedBy
  | Op_CountEquals

fun assertion_operator_value :: "assertion_operator \<Rightarrow> pystr" where
  "assertion_operator_value Op_Equals = lit ''equals''"
| "assertion_operator_value Op_NotEquals = lit ''not_equals''"
| "assertion_operator_value Op_Exists = lit ''exists''"
| "assertion_operator_value Op_Absent = lit ''absent''"
| "assertion_operator_value Op_Contains = lit ''contains''"
| "assertion_operator_value Op_Unchanged = lit ''unchanged''"
| "assertion_operator_value Op_ChangedBy = lit ''changed_by''"
| "assertion_operator_value Op_CountEquals = lit ''count_equals''"

lemma assertion_operator_value_inject [simp]: "assertion_operator_value x = assertion_operator_value y \<longleftrightarrow> x = y"
  by (cases x; cases y; simp)

datatype assertion_severity =
    Sev_Info
  | Sev_Warning
  | Sev_Critical

fun assertion_severity_value :: "assertion_severity \<Rightarrow> pystr" where
  "assertion_severity_value Sev_Info = lit ''info''"
| "assertion_severity_value Sev_Warning = lit ''warning''"
| "assertion_severity_value Sev_Critical = lit ''critical''"

lemma assertion_severity_value_inject [simp]: "assertion_severity_value x = assertion_severity_value y \<longleftrightarrow> x = y"
  by (cases x; cases y; simp)

instantiation assertion_severity :: linorder
begin

definition less_eq_assertion_severity :: "assertion_severity \<Rightarrow> assertion_severity \<Rightarrow> bool" where
  "less_eq_assertion_severity x y \<longleftrightarrow> assertion_severity_value x \<le> assertion_severity_value y"

definition less_assertion_severity :: "assertion_severity \<Rightarrow> assertion_severity \<Rightarrow> bool" where
  "less_assertion_severity x y \<longleftrightarrow> assertion_severity_value x < assertion_severity_value y"

instance
  by standard (auto simp: less_eq_assertion_severity_def less_assertion_severity_def order.strict_iff_order)

end

datatype policy_type =
    Pt_RequiresConfirmation
  | Pt_IdempotentByRequestId
  | Pt_MaximumMutations
  | Pt_ForbiddenTool
  | Pt_NoUndeclaredChanges
  | Pt_StableToolSurface

fun policy_type_value :: "policy_type \<Rightarrow> pystr" where
  "policy_type_value Pt_RequiresConfirmation = lit ''requires_confirmation''"
| "policy_type_value Pt_IdempotentByRequestId = lit ''idempotent_by_request_id''"
| "policy_type_value Pt_MaximumMutations = lit ''maximum_mutations''"
| "policy_type_value Pt_ForbiddenTool = lit ''forbidden_tool''"
| "policy_type_value Pt_NoUndeclaredChanges = lit ''no_undeclared_changes''"
| "policy_type_value Pt_StableToolSurface = lit ''stable_tool_surface''"

lemma policy_type_value_inject [simp]: "policy_type_value x = policy_type_value y \<longleftrightarrow> x = y"
  by (cases x; cases y; simp)

datatype surface_delta_kind =
    Sd_Added
  | Sd_Removed
  | Sd_SchemaChange
  | Sd_HintChange
  | Sd_DescriptionChange

fun surface_delta_kind_value :: "surface_delta_kind \<Rightarrow> pystr" where
  "surface_delta_kind_value Sd_Added = lit ''added''"
| "surface_delta_kind_value Sd_Removed = lit ''removed''"
| "surface_delta_kind_value Sd_SchemaChange = lit ''schema_change''"
| "surface_delta_kind_value Sd_HintChange = lit ''hint_change''"
| "surface_delta_kind_value Sd_DescriptionChange = lit ''description_change''"

lemma surface_delta_kind_value_inject [simp]: "surface_delta_kind_value x = surface_delta_kind_value y \<longleftrightarrow> x = y"
  by (cases x; cases y; simp)

instantiation surface_delta_kind :: linorder
begin

definition less_eq_surface_delta_kind :: "surface_delta_kind \<Rightarrow> surface_delta_kind \<Rightarrow> bool" where
  "less_eq_surface_delta_kind x y \<longleftrightarrow> surface_delta_kind_value x \<le> surface_delta_kind_value y"

definition less_surface_delta_kind :: "surface_delta_kind \<Rightarrow> surface_delta_kind \<Rightarrow> bool" where
  "less_surface_delta_kind x y \<longleftrightarrow> surface_delta_kind_value x < surface_delta_kind_value y"

instance
  by standard (auto simp: less_eq_surface_delta_kind_def less_surface_delta_kind_def order.strict_iff_order)

end

datatype check_type =
    Ct_Precondition
  | Ct_Assertion
  | Ct_ExpectedTools
  | Ct_Policy

fun check_type_value :: "check_type \<Rightarrow> pystr" where
  "check_type_value Ct_Precondition = lit ''precondition''"
| "check_type_value Ct_Assertion = lit ''assertion''"
| "check_type_value Ct_ExpectedTools = lit ''expected_tools''"
| "check_type_value Ct_Policy = lit ''policy''"

lemma check_type_value_inject [simp]: "check_type_value x = check_type_value y \<longleftrightarrow> x = y"
  by (cases x; cases y; simp)

datatype check_status =
    Cs_Passed
  | Cs_Failed
  | Cs_NotEvaluated
  | Cs_ObservationUnavailable

fun check_status_value :: "check_status \<Rightarrow> pystr" where
  "check_status_value Cs_Passed = lit ''passed''"
| "check_status_value Cs_Failed = lit ''failed''"
| "check_status_value Cs_NotEvaluated = lit ''not_evaluated''"
| "check_status_value Cs_ObservationUnavailable = lit ''observation_unavailable''"

lemma check_status_value_inject [simp]: "check_status_value x = check_status_value y \<longleftrightarrow> x = y"
  by (cases x; cases y; simp)

datatype failure_classification =
    Fc_ToolExecutionError
  | Fc_FalseSuccessOrStateMismatch
  | Fc_IdempotencyViolation
  | Fc_MissingConfirmation
  | Fc_AssertionMismatch
  | Fc_MissingExpectedTool
  | Fc_UnexpectedTool
  | Fc_TrajectoryOrderViolation
  | Fc_ObservationUnavailable
  | Fc_UndeclaredStateChange
  | Fc_ToolSurfaceMutation
  | Fc_HarnessError

fun failure_classification_value :: "failure_classification \<Rightarrow> pystr" where
  "failure_classification_value Fc_ToolExecutionError = lit ''tool_execution_error''"
| "failure_classification_value Fc_FalseSuccessOrStateMismatch = lit ''false_success_or_state_mismatch''"
| "failure_classification_value Fc_IdempotencyViolation = lit ''idempotency_violation''"
| "failure_classification_value Fc_MissingConfirmation = lit ''missing_confirmation''"
| "failure_classification_value Fc_AssertionMismatch = lit ''assertion_mismatch''"
| "failure_classification_value Fc_MissingExpectedTool = lit ''missing_expected_tool''"
| "failure_classification_value Fc_UnexpectedTool = lit ''unexpected_tool''"
| "failure_classification_value Fc_TrajectoryOrderViolation = lit ''trajectory_order_violation''"
| "failure_classification_value Fc_ObservationUnavailable = lit ''observation_unavailable''"
| "failure_classification_value Fc_UndeclaredStateChange = lit ''undeclared_state_change''"
| "failure_classification_value Fc_ToolSurfaceMutation = lit ''tool_surface_mutation''"
| "failure_classification_value Fc_HarnessError = lit ''harness_error''"

lemma failure_classification_value_inject [simp]: "failure_classification_value x = failure_classification_value y \<longleftrightarrow> x = y"
  by (cases x; cases y; simp)

instantiation failure_classification :: linorder
begin

definition less_eq_failure_classification :: "failure_classification \<Rightarrow> failure_classification \<Rightarrow> bool" where
  "less_eq_failure_classification x y \<longleftrightarrow> failure_classification_value x \<le> failure_classification_value y"

definition less_failure_classification :: "failure_classification \<Rightarrow> failure_classification \<Rightarrow> bool" where
  "less_failure_classification x y \<longleftrightarrow> failure_classification_value x < failure_classification_value y"

instance
  by standard (auto simp: less_eq_failure_classification_def less_failure_classification_def order.strict_iff_order)

end

datatype evidence_source =
    Es_AuthoritativeObservation
  | Es_ToolReported
  | Es_JourneyEvents

fun evidence_source_value :: "evidence_source \<Rightarrow> pystr" where
  "evidence_source_value Es_AuthoritativeObservation = lit ''authoritative_observation''"
| "evidence_source_value Es_ToolReported = lit ''tool_reported''"
| "evidence_source_value Es_JourneyEvents = lit ''journey_events''"

lemma evidence_source_value_inject [simp]: "evidence_source_value x = evidence_source_value y \<longleftrightarrow> x = y"
  by (cases x; cases y; simp)

datatype tool_reported_status =
    Rs_Success
  | Rs_BlockedByUser
  | Rs_BlockedByExpiry
  | Rs_AlreadyApplied

fun tool_reported_status_value :: "tool_reported_status \<Rightarrow> pystr" where
  "tool_reported_status_value Rs_Success = lit ''success''"
| "tool_reported_status_value Rs_BlockedByUser = lit ''blocked_by_user''"
| "tool_reported_status_value Rs_BlockedByExpiry = lit ''blocked_by_expiry''"
| "tool_reported_status_value Rs_AlreadyApplied = lit ''already_applied''"

lemma tool_reported_status_value_inject [simp]: "tool_reported_status_value x = tool_reported_status_value y \<longleftrightarrow> x = y"
  by (cases x; cases y; simp)

datatype tool_namespace =
    Ns_Harness
  | Ns_Target

fun tool_namespace_value :: "tool_namespace \<Rightarrow> pystr" where
  "tool_namespace_value Ns_Harness = lit ''harness''"
| "tool_namespace_value Ns_Target = lit ''target''"

lemma tool_namespace_value_inject [simp]: "tool_namespace_value x = tool_namespace_value y \<longleftrightarrow> x = y"
  by (cases x; cases y; simp)

instantiation tool_namespace :: linorder
begin

definition less_eq_tool_namespace :: "tool_namespace \<Rightarrow> tool_namespace \<Rightarrow> bool" where
  "less_eq_tool_namespace x y \<longleftrightarrow> tool_namespace_value x \<le> tool_namespace_value y"

definition less_tool_namespace :: "tool_namespace \<Rightarrow> tool_namespace \<Rightarrow> bool" where
  "less_tool_namespace x y \<longleftrightarrow> tool_namespace_value x < tool_namespace_value y"

instance
  by standard (auto simp: less_eq_tool_namespace_def less_tool_namespace_def order.strict_iff_order)

end

datatype report_layer =
    Ly_ModelToolSelection
  | Ly_ObservedTrajectory
  | Ly_ToolExecution
  | Ly_BusinessOutcome
  | Ly_SafetyPolicy

fun report_layer_value :: "report_layer \<Rightarrow> pystr" where
  "report_layer_value Ly_ModelToolSelection = lit ''model_tool_selection''"
| "report_layer_value Ly_ObservedTrajectory = lit ''observed_trajectory''"
| "report_layer_value Ly_ToolExecution = lit ''tool_execution''"
| "report_layer_value Ly_BusinessOutcome = lit ''business_outcome''"
| "report_layer_value Ly_SafetyPolicy = lit ''safety_policy''"

lemma report_layer_value_inject [simp]: "report_layer_value x = report_layer_value y \<longleftrightarrow> x = y"
  by (cases x; cases y; simp)

datatype layer_result =
    Lr_Passed
  | Lr_PassedWithWarnings
  | Lr_BlockedSafely
  | Lr_Failed
  | Lr_Error
  | Lr_NotEvaluated

fun layer_result_value :: "layer_result \<Rightarrow> pystr" where
  "layer_result_value Lr_Passed = lit ''passed''"
| "layer_result_value Lr_PassedWithWarnings = lit ''passed_with_warnings''"
| "layer_result_value Lr_BlockedSafely = lit ''blocked_safely''"
| "layer_result_value Lr_Failed = lit ''failed''"
| "layer_result_value Lr_Error = lit ''error''"
| "layer_result_value Lr_NotEvaluated = lit ''not_evaluated''"

lemma layer_result_value_inject [simp]: "layer_result_value x = layer_result_value y \<longleftrightarrow> x = y"
  by (cases x; cases y; simp)

datatype run_mode =
    Rm_Verification
  | Rm_Proposal

fun run_mode_value :: "run_mode \<Rightarrow> pystr" where
  "run_mode_value Rm_Verification = lit ''verification''"
| "run_mode_value Rm_Proposal = lit ''proposal''"

lemma run_mode_value_inject [simp]: "run_mode_value x = run_mode_value y \<longleftrightarrow> x = y"
  by (cases x; cases y; simp)

datatype run_state =
    Run_Armed
  | Run_Proposing
  | Run_Capturing
  | Run_Proposed
  | Run_Running
  | Run_AwaitingConfirmation
  | Run_Verifying
  | Run_Passed
  | Run_PassedWithWarnings
  | Run_Failed
  | Run_Error
  | Run_Cancelled

fun run_state_value :: "run_state \<Rightarrow> pystr" where
  "run_state_value Run_Armed = lit ''armed''"
| "run_state_value Run_Proposing = lit ''proposing''"
| "run_state_value Run_Capturing = lit ''capturing''"
| "run_state_value Run_Proposed = lit ''proposed''"
| "run_state_value Run_Running = lit ''running''"
| "run_state_value Run_AwaitingConfirmation = lit ''awaiting_confirmation''"
| "run_state_value Run_Verifying = lit ''verifying''"
| "run_state_value Run_Passed = lit ''passed''"
| "run_state_value Run_PassedWithWarnings = lit ''passed_with_warnings''"
| "run_state_value Run_Failed = lit ''failed''"
| "run_state_value Run_Error = lit ''error''"
| "run_state_value Run_Cancelled = lit ''cancelled''"

lemma run_state_value_inject [simp]: "run_state_value x = run_state_value y \<longleftrightarrow> x = y"
  by (cases x; cases y; simp)

datatype eval_run_state =
    Er_Queued
  | Er_Running
  | Er_Passed
  | Er_Failed
  | Er_Cancelled
  | Er_Error

fun eval_run_state_value :: "eval_run_state \<Rightarrow> pystr" where
  "eval_run_state_value Er_Queued = lit ''queued''"
| "eval_run_state_value Er_Running = lit ''running''"
| "eval_run_state_value Er_Passed = lit ''passed''"
| "eval_run_state_value Er_Failed = lit ''failed''"
| "eval_run_state_value Er_Cancelled = lit ''cancelled''"
| "eval_run_state_value Er_Error = lit ''error''"

lemma eval_run_state_value_inject [simp]: "eval_run_state_value x = eval_run_state_value y \<longleftrightarrow> x = y"
  by (cases x; cases y; simp)

datatype benchmark_suite_state =
    Bs_Draft
  | Bs_Ready
  | Bs_Running
  | Bs_Completed
  | Bs_Cancelled
  | Bs_Error

fun benchmark_suite_state_value :: "benchmark_suite_state \<Rightarrow> pystr" where
  "benchmark_suite_state_value Bs_Draft = lit ''draft''"
| "benchmark_suite_state_value Bs_Ready = lit ''ready''"
| "benchmark_suite_state_value Bs_Running = lit ''running''"
| "benchmark_suite_state_value Bs_Completed = lit ''completed''"
| "benchmark_suite_state_value Bs_Cancelled = lit ''cancelled''"
| "benchmark_suite_state_value Bs_Error = lit ''error''"

lemma benchmark_suite_state_value_inject [simp]: "benchmark_suite_state_value x = benchmark_suite_state_value y \<longleftrightarrow> x = y"
  by (cases x; cases y; simp)

datatype outcome_event_type =
    Ev_RunArmed
  | Ev_GuidanceTransitioned
  | Ev_SnapshotCaptured
  | Ev_ExternalObservationReceived
  | Ev_ToolInvocationStarted
  | Ev_ToolInvocationCompleted
  | Ev_ToolInvocationFailed
  | Ev_ToolInvocationCancelled
  | Ev_ConfirmationRequested
  | Ev_ConfirmationApproved
  | Ev_ConfirmationDenied
  | Ev_ConfirmationExpired
  | Ev_ConfirmationCancelled
  | Ev_VerificationStarted
  | Ev_AssertionEvaluated
  | Ev_PolicyEvaluated
  | Ev_VerificationCompleted
  | Ev_RunCancelled
  | Ev_ResourceLimitExceeded
  | Ev_ToolSurfaceCaptured
  | Ev_ToolSurfaceChanged
  | Ev_AssertionsProposed
  | Ev_AnnotationAdded
  | Ev_ToolIdentityMismatch
  | Ev_AuditAuthorizationAsserted

fun outcome_event_type_value :: "outcome_event_type \<Rightarrow> pystr" where
  "outcome_event_type_value Ev_RunArmed = lit ''run_armed''"
| "outcome_event_type_value Ev_GuidanceTransitioned = lit ''guidance_transitioned''"
| "outcome_event_type_value Ev_SnapshotCaptured = lit ''snapshot_captured''"
| "outcome_event_type_value Ev_ExternalObservationReceived = lit ''external_observation_received''"
| "outcome_event_type_value Ev_ToolInvocationStarted = lit ''tool_invocation_started''"
| "outcome_event_type_value Ev_ToolInvocationCompleted = lit ''tool_invocation_completed''"
| "outcome_event_type_value Ev_ToolInvocationFailed = lit ''tool_invocation_failed''"
| "outcome_event_type_value Ev_ToolInvocationCancelled = lit ''tool_invocation_cancelled''"
| "outcome_event_type_value Ev_ConfirmationRequested = lit ''confirmation_requested''"
| "outcome_event_type_value Ev_ConfirmationApproved = lit ''confirmation_approved''"
| "outcome_event_type_value Ev_ConfirmationDenied = lit ''confirmation_denied''"
| "outcome_event_type_value Ev_ConfirmationExpired = lit ''confirmation_expired''"
| "outcome_event_type_value Ev_ConfirmationCancelled = lit ''confirmation_cancelled''"
| "outcome_event_type_value Ev_VerificationStarted = lit ''verification_started''"
| "outcome_event_type_value Ev_AssertionEvaluated = lit ''assertion_evaluated''"
| "outcome_event_type_value Ev_PolicyEvaluated = lit ''policy_evaluated''"
| "outcome_event_type_value Ev_VerificationCompleted = lit ''verification_completed''"
| "outcome_event_type_value Ev_RunCancelled = lit ''run_cancelled''"
| "outcome_event_type_value Ev_ResourceLimitExceeded = lit ''resource_limit_exceeded''"
| "outcome_event_type_value Ev_ToolSurfaceCaptured = lit ''tool_surface_captured''"
| "outcome_event_type_value Ev_ToolSurfaceChanged = lit ''tool_surface_changed''"
| "outcome_event_type_value Ev_AssertionsProposed = lit ''assertions_proposed''"
| "outcome_event_type_value Ev_AnnotationAdded = lit ''annotation_added''"
| "outcome_event_type_value Ev_ToolIdentityMismatch = lit ''tool_identity_mismatch''"
| "outcome_event_type_value Ev_AuditAuthorizationAsserted = lit ''audit_authorization_asserted''"

datatype event_actor =
    Ac_Agent
  | Ac_Human
  | Ac_Harness
  | Ac_External
  | Ac_Eval

fun event_actor_value :: "event_actor \<Rightarrow> pystr" where
  "event_actor_value Ac_Agent = lit ''agent''"
| "event_actor_value Ac_Human = lit ''human''"
| "event_actor_value Ac_Harness = lit ''harness''"
| "event_actor_value Ac_External = lit ''external''"
| "event_actor_value Ac_Eval = lit ''eval''"

lemma event_actor_value_inject [simp]: "event_actor_value x = event_actor_value y \<longleftrightarrow> x = y"
  by (cases x; cases y; simp)

datatype guidance_actor =
    Ga_Operator
  | Ga_Agent
  | Ga_HumanApprover
  | Ga_System

fun guidance_actor_value :: "guidance_actor \<Rightarrow> pystr" where
  "guidance_actor_value Ga_Operator = lit ''operator''"
| "guidance_actor_value Ga_Agent = lit ''agent''"
| "guidance_actor_value Ga_HumanApprover = lit ''human_approver''"
| "guidance_actor_value Ga_System = lit ''system''"

lemma guidance_actor_value_inject [simp]: "guidance_actor_value x = guidance_actor_value y \<longleftrightarrow> x = y"
  by (cases x; cases y; simp)

datatype workspace_phase =
    Wp_NoContract
  | Wp_Proposing
  | Wp_Candidates
  | Wp_ContractReady
  | Wp_Armed
  | Wp_Running
  | Wp_AwaitingConfirmation
  | Wp_Verifying
  | Wp_Passed
  | Wp_PassedWithWarnings
  | Wp_Failed
  | Wp_Error
  | Wp_Cancelled
  | Wp_EvalReady
  | Wp_EvalRunning

fun workspace_phase_value :: "workspace_phase \<Rightarrow> pystr" where
  "workspace_phase_value Wp_NoContract = lit ''no_contract''"
| "workspace_phase_value Wp_Proposing = lit ''proposing''"
| "workspace_phase_value Wp_Candidates = lit ''candidates''"
| "workspace_phase_value Wp_ContractReady = lit ''contract_ready''"
| "workspace_phase_value Wp_Armed = lit ''armed''"
| "workspace_phase_value Wp_Running = lit ''running''"
| "workspace_phase_value Wp_AwaitingConfirmation = lit ''awaiting_confirmation''"
| "workspace_phase_value Wp_Verifying = lit ''verifying''"
| "workspace_phase_value Wp_Passed = lit ''passed''"
| "workspace_phase_value Wp_PassedWithWarnings = lit ''passed_with_warnings''"
| "workspace_phase_value Wp_Failed = lit ''failed''"
| "workspace_phase_value Wp_Error = lit ''error''"
| "workspace_phase_value Wp_Cancelled = lit ''cancelled''"
| "workspace_phase_value Wp_EvalReady = lit ''eval_ready''"
| "workspace_phase_value Wp_EvalRunning = lit ''eval_running''"

lemma workspace_phase_value_inject [simp]: "workspace_phase_value x = workspace_phase_value y \<longleftrightarrow> x = y"
  by (cases x; cases y; simp)

datatype guidance_action_code =
    Gc_SelectContract
  | Gc_ArmRun
  | Gc_InvokeTargetTool
  | Gc_DecideConfirmation
  | Gc_CancelConfirmation
  | Gc_VerifyOutcome
  | Gc_ReviewFindings
  | Gc_CurateCandidates
  | Gc_RunRegressionEval
  | Gc_ResetWorkspace
  | Gc_Wait

fun guidance_action_code_value :: "guidance_action_code \<Rightarrow> pystr" where
  "guidance_action_code_value Gc_SelectContract = lit ''select_contract''"
| "guidance_action_code_value Gc_ArmRun = lit ''arm_run''"
| "guidance_action_code_value Gc_InvokeTargetTool = lit ''invoke_target_tool''"
| "guidance_action_code_value Gc_DecideConfirmation = lit ''decide_confirmation''"
| "guidance_action_code_value Gc_CancelConfirmation = lit ''cancel_confirmation''"
| "guidance_action_code_value Gc_VerifyOutcome = lit ''verify_outcome''"
| "guidance_action_code_value Gc_ReviewFindings = lit ''review_findings''"
| "guidance_action_code_value Gc_CurateCandidates = lit ''curate_candidates''"
| "guidance_action_code_value Gc_RunRegressionEval = lit ''run_regression_eval''"
| "guidance_action_code_value Gc_ResetWorkspace = lit ''reset_workspace''"
| "guidance_action_code_value Gc_Wait = lit ''wait''"

lemma guidance_action_code_value_inject [simp]: "guidance_action_code_value x = guidance_action_code_value y \<longleftrightarrow> x = y"
  by (cases x; cases y; simp)

datatype snapshot_phase =
    Sp_Before
  | Sp_After

fun snapshot_phase_value :: "snapshot_phase \<Rightarrow> pystr" where
  "snapshot_phase_value Sp_Before = lit ''before''"
| "snapshot_phase_value Sp_After = lit ''after''"

lemma snapshot_phase_value_inject [simp]: "snapshot_phase_value x = snapshot_phase_value y \<longleftrightarrow> x = y"
  by (cases x; cases y; simp)

datatype workspace_kind =
    Wk_Interactive
  | Wk_Eval
  | Wk_Observed

fun workspace_kind_value :: "workspace_kind \<Rightarrow> pystr" where
  "workspace_kind_value Wk_Interactive = lit ''interactive''"
| "workspace_kind_value Wk_Eval = lit ''eval''"
| "workspace_kind_value Wk_Observed = lit ''observed''"

lemma workspace_kind_value_inject [simp]: "workspace_kind_value x = workspace_kind_value y \<longleftrightarrow> x = y"
  by (cases x; cases y; simp)

datatype confirmation_status =
    Cf_Pending
  | Cf_Approved
  | Cf_Denied
  | Cf_Expired
  | Cf_Cancelled
  | Cf_Consumed

fun confirmation_status_value :: "confirmation_status \<Rightarrow> pystr" where
  "confirmation_status_value Cf_Pending = lit ''pending''"
| "confirmation_status_value Cf_Approved = lit ''approved''"
| "confirmation_status_value Cf_Denied = lit ''denied''"
| "confirmation_status_value Cf_Expired = lit ''expired''"
| "confirmation_status_value Cf_Cancelled = lit ''cancelled''"
| "confirmation_status_value Cf_Consumed = lit ''consumed''"

lemma confirmation_status_value_inject [simp]: "confirmation_status_value x = confirmation_status_value y \<longleftrightarrow> x = y"
  by (cases x; cases y; simp)

text \<open>Distinguished subsets\<close>

definition transition_operators :: "assertion_operator list" where
  "transition_operators = [Op_Unchanged, Op_ChangedBy]"

definition operators_requiring_value :: "assertion_operator list" where
  "operators_requiring_value = [Op_Equals, Op_NotEquals, Op_Contains, Op_ChangedBy, Op_CountEquals]"

fun allowed_layer_results :: "report_layer \<Rightarrow> layer_result list" where
  "allowed_layer_results Ly_ModelToolSelection = [Lr_Passed, Lr_Failed, Lr_NotEvaluated]"
| "allowed_layer_results Ly_ObservedTrajectory = [Lr_Passed, Lr_Failed, Lr_NotEvaluated]"
| "allowed_layer_results Ly_ToolExecution = [Lr_Passed, Lr_BlockedSafely, Lr_Failed, Lr_NotEvaluated]"
| "allowed_layer_results Ly_BusinessOutcome =
     [Lr_Passed, Lr_PassedWithWarnings, Lr_Failed, Lr_Error, Lr_NotEvaluated]"
| "allowed_layer_results Ly_SafetyPolicy = [Lr_Passed, Lr_Failed, Lr_Error]"

definition authorizing_confirmation_status :: "confirmation_status list" where
  "authorizing_confirmation_status = [Cf_Approved]"

definition terminal_confirmation_statuses :: "confirmation_status list" where
  "terminal_confirmation_statuses = [Cf_Denied, Cf_Expired, Cf_Cancelled, Cf_Consumed]"

end
