(* ===== verification/Redaction.thy ===== *)
theory Redaction
  imports Paths
begin

section \<open>Redaction and bounded text\<close>

text \<open>
  \<open>security/redaction.py\<close>: the glob grammar of a redaction pattern, the default keys, and
  the walk that replaces every selected value before anything is hashed or stored; and the
  bounded summaries of \<open>security/limits.py\<close>. \<open>str.lower\<close> is modelled as far as a
  comparison with an ASCII key can see it.
\<close>

subsection \<open>Patterns\<close>

datatype pattern_error =
    PatternNotAString
  | EmptyPattern
  | PatternTooLong
  | EmptyPatternSegment
  | IllFormedPatternSegment pystr

datatype redaction_pattern = Pattern (pattern_segments: "pystr list")

definition star :: pystr where "star = lit ''*''"
definition star_star :: pystr where "star_star = lit ''**''"

lemma stars_distinct [simp]: "star \<noteq> star_star" "star_star \<noteq> star"
  by (auto simp: star_def star_star_def)

fun check_pattern_segments :: "pystr list \<Rightarrow> pattern_error option" where
  "check_pattern_segments [] = None"
| "check_pattern_segments (s # ss) =
     (if s = star \<or> s = star_star then check_pattern_segments ss
      else if s = [] then Some EmptyPatternSegment
      else if \<not> is_valid_segment s then Some (IllFormedPatternSegment s)
      else check_pattern_segments ss)"

definition parse_pattern :: "json \<Rightarrow> pattern_error + redaction_pattern" where
  "parse_pattern v =
     (case v of
        JStr t \<Rightarrow>
          if t = [] then Inl EmptyPattern
          else if max_observation_path_length < length t then Inl PatternTooLong
          else (case check_pattern_segments (split_on 46 t) of
                  Some e \<Rightarrow> Inl e
                | None \<Rightarrow> Inr (Pattern (split_on 46 t)))
      | _ \<Rightarrow> Inl PatternNotAString)"

definition pattern_str :: "redaction_pattern \<Rightarrow> pystr" where
  "pattern_str p = join_with 46 (pattern_segments p)"

text \<open>\<open>_match\<close>, the two-index walk over a pattern and a path\<close>

fun glob_match :: "pystr list \<Rightarrow> pystr list \<Rightarrow> bool" where
  "glob_match [] path = (path = [])"
| "glob_match (h # rest) path =
     (if h = star_star then \<exists>i\<in>set [0..<Suc (length path)]. glob_match rest (drop i path)
      else (case path of
              [] \<Rightarrow> False
            | s # ss \<Rightarrow> if h \<noteq> star \<and> h \<noteq> s then False else glob_match rest ss))"

definition pattern_matches :: "redaction_pattern \<Rightarrow> pystr list \<Rightarrow> bool" where
  "pattern_matches p path = glob_match (pattern_segments p) path"

text \<open>
  What a pattern means: the path is cut into one piece per pattern segment, \<open>**\<close> takes any
  piece, \<open>*\<close> one segment, a literal exactly itself.
\<close>

definition piece_fits :: "pystr \<Rightarrow> pystr list \<Rightarrow> bool" where
  "piece_fits h piece \<longleftrightarrow>
     (if h = star_star then True else if h = star then length piece = 1 else piece = [h])"

definition glob_meaning :: "pystr list \<Rightarrow> pystr list \<Rightarrow> bool" where
  "glob_meaning pattern path \<longleftrightarrow> (\<exists>pieces. path = concat pieces \<and> list_all2 piece_fits pattern pieces)"

lemma glob_meaning_Cons:
  "glob_meaning (h # rest) path \<longleftrightarrow>
     (\<exists>piece path'. path = piece @ path' \<and> piece_fits h piece \<and> glob_meaning rest path')"
  unfolding glob_meaning_def list_all2_Cons1 by (metis concat.simps(2))

lemma glob_match_meaning: "glob_match pattern path = glob_meaning pattern path"
proof (induction pattern path rule: glob_match.induct)
  case (1 path)
  then show ?case by (auto simp: glob_meaning_def)
next
  case (2 h rest path)
  show ?case
  proof (cases "h = star_star")
    case True
    have "(\<exists>i\<in>set [0..<Suc (length path)]. glob_match rest (drop i path)) \<longleftrightarrow>
          (\<exists>i\<le>length path. glob_meaning rest (drop i path))"
      using 2(1)[OF True] by (auto simp del: upt_Suc simp: less_Suc_eq_le Bex_def)
    also have "\<dots> \<longleftrightarrow> (\<exists>piece path'. path = piece @ path' \<and> glob_meaning rest path')"
      by (metis append_take_drop_id append_eq_conv_conj length_append le_add1)
    finally show ?thesis using True by (simp add: glob_meaning_Cons piece_fits_def del: upt_Suc)
  next
    case False
    show ?thesis
    proof (cases path)
      case Nil
      then show ?thesis using False
        by (auto simp: glob_meaning_Cons piece_fits_def)
    next
      case (Cons s ss)
      have "glob_meaning (h # rest) path \<longleftrightarrow>
              (\<exists>piece path'. s # ss = piece @ path' \<and> piece_fits h piece \<and> glob_meaning rest path')"
        using Cons by (simp add: glob_meaning_Cons)
      also have "\<dots> \<longleftrightarrow> (h = star \<or> h = s) \<and> glob_meaning rest ss"
      proof -
        have fits: "piece_fits h piece \<longleftrightarrow> (\<exists>x. piece = [x] \<and> (h = star \<or> h = x))" for piece
          using False by (auto simp: piece_fits_def length_Suc_conv)
        have "s # ss = [s] @ ss" by simp
        then show ?thesis unfolding fits by (metis append_Cons append_Nil list.inject)
      qed
      finally have "glob_meaning (h # rest) path \<longleftrightarrow> (h = star \<or> h = s) \<and> glob_meaning rest ss" .
      then show ?thesis using False Cons 2(2)[OF False Cons] by auto
    qed
  qed
qed

subsection \<open>Default keys\<close>

definition redacted_marker :: pystr where
  "redacted_marker = lit ''[REDACTED]''"

definition default_redaction_keys :: "pystr list" where
  "default_redaction_keys = map lit
     [''password'', ''secret'', ''token'', ''authorization'', ''cookie'', ''api_key'',
      ''access_token'', ''cart_token'', ''email'', ''payment'', ''card'']"

definition word_defaults :: "pystr list" where
  "word_defaults = map lit
     [''password'', ''secret'', ''token'', ''authorization'', ''cookie'', ''email'', ''payment'',
      ''card'']"

definition is_upper :: "nat \<Rightarrow> bool" where
  "is_upper c \<longleftrightarrow> 65 \<le> c \<and> c \<le> 90"

definition is_alnum :: "nat \<Rightarrow> bool" where
  "is_alnum c \<longleftrightarrow> is_letter c \<or> is_digit c"

text \<open>\<open>str.lower\<close>; the Kelvin sign is the one other character whose lower case is ASCII.\<close>

definition lower_char :: "nat \<Rightarrow> nat" where
  "lower_char c = (if is_upper c then c + 32 else if c = 0x212A then 107 else c)"

definition lower :: "pystr \<Rightarrow> pystr" where
  "lower s = map lower_char s"

text \<open>
  \<open>_WORD_BOUNDARY.split\<close>: cut at runs of other characters, and between a lower-case letter
  or digit and an upper-case letter.
\<close>

fun split_words :: "pystr \<Rightarrow> pystr \<Rightarrow> pystr list" where
  "split_words cur [] = [cur]"
| "split_words cur (c # cs) =
     (if \<not> is_alnum c then cur # split_words [] cs
      else if cur \<noteq> [] \<and> is_upper c \<and> \<not> is_upper (last cur) then cur # split_words [c] cs
      else split_words (cur @ [c]) cs)"

definition words :: "pystr \<Rightarrow> pystr list" where
  "words key = map lower (filter (\<lambda>w. w \<noteq> []) (split_words [] key))"

definition is_default_redacted_key :: "pystr \<Rightarrow> bool" where
  "is_default_redacted_key key \<longleftrightarrow>
     lower key \<in> set default_redaction_keys \<or> (\<exists>w\<in>set (words key). w \<in> set word_defaults)"

subsection \<open>The policy and the walk\<close>

record redaction_policy =
  rp_patterns :: "redaction_pattern list"
  rp_apply_defaults :: bool

definition default_policy :: redaction_policy where
  "default_policy = \<lparr>rp_patterns = [], rp_apply_defaults = True\<rparr>"

definition policy_from_paths :: "json list \<Rightarrow> pattern_error + redaction_policy" where
  "policy_from_paths paths =
     (case map_result parse_pattern paths of
        Inl e \<Rightarrow> Inl e
      | Inr ps \<Rightarrow> Inr \<lparr>rp_patterns = ps, rp_apply_defaults = True\<rparr>)"

definition selects :: "redaction_policy \<Rightarrow> pystr list \<Rightarrow> bool \<Rightarrow> bool" where
  "selects pol path is_object_key \<longleftrightarrow>
     (if path = [] then False
      else if rp_apply_defaults pol \<and> is_object_key \<and> is_default_redacted_key (last path) then True
      else \<exists>p\<in>set (rp_patterns pol). pattern_matches p path)"

lemma size_enumerate [termination_simp]:
  "ix \<in> set (enumerate n xs) \<Longrightarrow> size (snd ix) < Suc (size_list size xs)"
proof -
  assume "ix \<in> set (enumerate n xs)"
  then have "snd ix \<in> set xs" by (metis in_set_enumerate_eq in_set_conv_nth less_diff_conv2 linorder_not_less)
  then show ?thesis by (rule size_element)
qed

fun redact_walk :: "redaction_policy \<Rightarrow> pystr list \<Rightarrow> json \<Rightarrow> json" where
  "redact_walk pol path (JObj kvs) =
     JObj (map (\<lambda>kv. (fst kv,
                      if selects pol (path @ [fst kv]) True then JStr redacted_marker
                      else redact_walk pol (path @ [fst kv]) (snd kv))) kvs)"
| "redact_walk pol path (JArr xs) =
     JArr (map (\<lambda>ix. if selects pol (path @ [show_nat (fst ix)]) False then JStr redacted_marker
                     else redact_walk pol (path @ [show_nat (fst ix)]) (snd ix)) (enumerate 0 xs))"
| "redact_walk pol path v = v"

definition redact :: "redaction_policy option \<Rightarrow> json \<Rightarrow> json" where
  "redact pol v = redact_walk (case pol of None \<Rightarrow> default_policy | Some p \<Rightarrow> p) [] v"

subsection \<open>Where a value sits in a document\<close>

text \<open>
  \<open>located v path b w\<close>: \<open>w\<close> is at \<open>path\<close> inside \<open>v\<close>; \<open>b\<close> tells whether the last
  step is an object key.
\<close>

inductive located :: "json \<Rightarrow> pystr list \<Rightarrow> bool \<Rightarrow> json \<Rightarrow> bool" where
  here_member: "(k, w) \<in> set kvs \<Longrightarrow> located (JObj kvs) [k] True w"
| here_element: "i < length xs \<Longrightarrow> located (JArr xs) [show_nat i] False (xs ! i)"
| in_member: "(k, w) \<in> set kvs \<Longrightarrow> located w p b u \<Longrightarrow> located (JObj kvs) (k # p) b u"
| in_element: "i < length xs \<Longrightarrow> located (xs ! i) p b u \<Longrightarrow> located (JArr xs) (show_nat i # p) b u"

inductive_cases located_objE [consumes 1, case_names here below]: "located (JObj kvs) p b u"
inductive_cases located_arrE [consumes 1, case_names here below]: "located (JArr xs) p b u"
inductive_cases located_scalarE [elim!]:
  "located JNull p b u" "located (JBool x) p b u" "located (JInt i) p b u"
  "located (JFloat y) p b u" "located (JStr s) p b u"

lemma located_not_Nil: "located v p b w \<Longrightarrow> p \<noteq> []"
  by (induction rule: located.induct) auto

lemma redact_walk_nth:
  "i < length xs \<Longrightarrow> redact_walk pol path (JArr xs) = JArr ys \<Longrightarrow>
   ys ! i = (if selects pol (path @ [show_nat i]) False then JStr redacted_marker
             else redact_walk pol (path @ [show_nat i]) (xs ! i))"
  by (auto simp: nth_enumerate_eq)

lemma redact_walk_located:
  "located (redact_walk pol path v) p b w \<Longrightarrow> selects pol (path @ p) b \<Longrightarrow> w = JStr redacted_marker"
proof (induction pol path v arbitrary: p b w rule: redact_walk.induct)
  case (1 pol path kvs)
  obtain ms where ms: "redact_walk pol path (JObj kvs) = JObj ms" by simp
  have mem: "\<exists>v. (k, v) \<in> set kvs \<and>
      w' = (if selects pol (path @ [k]) True then JStr redacted_marker
            else redact_walk pol (path @ [k]) v)" if "(k, w') \<in> set ms" for k w'
  proof -
    let ?f = "\<lambda>kv. (fst kv, if selects pol (path @ [fst kv]) True then JStr redacted_marker
                     else redact_walk pol (path @ [fst kv]) (snd kv))"
    have "(k, w') \<in> ?f ` set kvs" using that ms by auto
    then obtain kv where "kv \<in> set kvs" "(k, w') = ?f kv" by (rule imageE) blast
    then show ?thesis by (intro exI[of _ "snd kv"]) auto
  qed
  from "1.prems"(1) ms have "located (JObj ms) p b w" by simp
  then show ?case
  proof (cases rule: located_objE)
    case (here k)
    then show ?thesis using mem[of k w] "1.prems"(2) by (auto split: if_splits)
  next
    case (below k w' q)
    then obtain v where v: "(k, v) \<in> set kvs"
      "w' = (if selects pol (path @ [k]) True then JStr redacted_marker
             else redact_walk pol (path @ [k]) v)" using mem by blast
    show ?thesis
      using "1.IH"[OF v(1), of q b w] below v(2) "1.prems"(2) by (auto split: if_splits)
  qed
next
  case (2 pol path xs)
  obtain ys where ys: "redact_walk pol path (JArr xs) = JArr ys" by simp
  then have len: "length ys = length xs" by auto
  from "2.prems"(1) ys have "located (JArr ys) p b w" by simp
  then show ?case
  proof (cases rule: located_arrE)
    case (here i)
    then show ?thesis
      using redact_walk_nth[OF _ ys, of i] len "2.prems"(2) by (auto split: if_splits)
  next
    case (below i q)
    have i: "(i, xs ! i) \<in> set (enumerate 0 xs)" using below len by (simp add: in_set_enumerate_eq)
    show ?thesis
      using "2.IH"[OF i, of q b w] below redact_walk_nth[OF _ ys, of i] len "2.prems"(2)
      by (auto split: if_splits)
  qed
qed auto

lemma redact_walk_idempotent: "redact_walk pol path (redact_walk pol path v) = redact_walk pol path v"
proof (induction pol path v rule: redact_walk.induct)
  case (1 pol path kvs)
  then show ?case by (auto simp: prod_eq_iff)
next
  case (2 pol path xs)
  obtain ys where ys: "redact_walk pol path (JArr xs) = JArr ys" by simp
  obtain zs where zs: "redact_walk pol path (JArr ys) = JArr zs" by simp
  have len: "length ys = length xs" using ys by auto
  have len': "length zs = length ys" using zs by auto
  have "zs ! i = ys ! i" if i: "i < length ys" for i
  proof -
    have mem: "(i, xs ! i) \<in> set (enumerate 0 xs)" using i len by (simp add: in_set_enumerate_eq)
    show ?thesis
      using redact_walk_nth[OF _ ys, of i] redact_walk_nth[OF _ zs, of i] i len "2.IH"[OF mem]
      by (auto split: if_splits)
  qed
  then have "zs = ys" using len' by (simp add: list_eq_iff_nth_eq)
  then show ?case using ys zs by simp
qed auto

lemma redact_walk_unselected:
  "(\<And>p b w. located v p b w \<Longrightarrow> \<not> selects pol (path @ p) b) \<Longrightarrow> redact_walk pol path v = v"
proof (induction pol path v rule: redact_walk.induct)
  case (1 pol path kvs)
  have "(if selects pol (path @ [fst kv]) True then JStr redacted_marker
         else redact_walk pol (path @ [fst kv]) (snd kv)) = snd kv" if kv: "kv \<in> set kvs" for kv
  proof -
    have n: "\<not> selects pol (path @ [fst kv]) True"
      using "1.prems"[OF here_member] kv by (metis prod.collapse)
    moreover have "redact_walk pol (path @ [fst kv]) (snd kv) = snd kv"
    proof (rule "1.IH"[OF kv n])
      fix p b w
      assume "located (snd kv) p b w"
      then show "\<not> selects pol ((path @ [fst kv]) @ p) b"
        using "1.prems"[OF in_member[of "fst kv" "snd kv" kvs p b w]] kv by simp
    qed
    ultimately show ?thesis by simp
  qed
  then show ?case by (simp add: map_idI)
next
  case (2 pol path xs)
  have "(if selects pol (path @ [show_nat (fst ix)]) False then JStr redacted_marker
         else redact_walk pol (path @ [show_nat (fst ix)]) (snd ix)) = snd ix"
    if ix: "ix \<in> set (enumerate 0 xs)" for ix
  proof -
    have i: "fst ix < length xs" "snd ix = xs ! fst ix" using ix by (auto simp: in_set_enumerate_eq)
    have n: "\<not> selects pol (path @ [show_nat (fst ix)]) False"
      using "2.prems"[OF here_element[OF i(1)]] .
    moreover have "redact_walk pol (path @ [show_nat (fst ix)]) (snd ix) = snd ix"
    proof (rule "2.IH"[OF ix n])
      fix p b w
      assume "located (snd ix) p b w"
      then show "\<not> selects pol ((path @ [show_nat (fst ix)]) @ p) b"
        using "2.prems"[OF in_element[OF i(1), of p b w]] i(2) by simp
    qed
    ultimately show ?thesis by simp
  qed
  then have "map (\<lambda>ix. if selects pol (path @ [show_nat (fst ix)]) False then JStr redacted_marker
         else redact_walk pol (path @ [show_nat (fst ix)]) (snd ix)) (enumerate 0 xs) =
      map snd (enumerate 0 xs)"
    by (intro map_cong) auto
  then show ?case by simp
qed auto

subsection \<open>Bounded text\<close>

text \<open>The truncation marker, an ellipsis and a bracketed word\<close>

definition truncation_marker :: pystr where
  "truncation_marker = 0x2026 # lit ''[truncated]''"

definition max_finding_value_chars :: nat where "max_finding_value_chars = 120"
definition max_tool_name_chars :: nat where "max_tool_name_chars = 30"
definition max_tool_result_chars :: nat where "max_tool_result_chars = 1500"

record truncated_text =
  tt_text :: pystr
  tt_truncated :: bool
  tt_original_length :: nat

definition bounded_summary :: "pystr \<Rightarrow> nat \<Rightarrow> truncated_text" where
  "bounded_summary value limit =
     (if length value \<le> limit
      then \<lparr>tt_text = value, tt_truncated = False, tt_original_length = length value\<rparr>
      else if limit \<le> length truncation_marker
      then \<lparr>tt_text = take limit value, tt_truncated = True, tt_original_length = length value\<rparr>
      else (let keep = limit - length truncation_marker in
        \<lparr>tt_text = take keep value @ truncation_marker, tt_truncated = True,
         tt_original_length = length value\<rparr>))"

lemma bounded_summary_within: "length (tt_text (bounded_summary v n)) \<le> n"
  by (auto simp: bounded_summary_def Let_def)

lemma bounded_summary_exact: "\<not> tt_truncated (bounded_summary v n) \<Longrightarrow> tt_text (bounded_summary v n) = v"
  by (auto simp: bounded_summary_def Let_def split: if_splits)

lemma bounded_summary_truncated: "tt_truncated (bounded_summary v n) \<longleftrightarrow> n < length v"
  by (auto simp: bounded_summary_def Let_def)

text \<open>\<open>bounded\<close> of \<open>evidence/effects.py\<close>: only strings are cut, the shape survives.\<close>

fun bounded :: "nat \<Rightarrow> json \<Rightarrow> json" where
  "bounded limit (JStr s) = JStr (if length s \<le> limit then s else take limit s @ truncation_marker)"
| "bounded limit (JObj kvs) = JObj (map (\<lambda>kv. (fst kv, bounded limit (snd kv))) kvs)"
| "bounded limit (JArr xs) = JArr (map (bounded limit) xs)"
| "bounded limit v = v"

text \<open>
  C11. Redaction is complete: after \<open>redact\<close>, whatever sits at a path the policy selects, by a
  default key or by one of the contract's patterns and at any depth, is the marker.
\<close>

theorem redaction_complete:
  assumes "located (redact (Some pol) v) p b w" "selects pol p b"
  shows "w = JStr redacted_marker"
  using redact_walk_located[of pol "[]" v p b w] assms by (simp add: redact_def)

lemma redaction_complete_witness:
  "\<exists>w. located (redact (Some default_policy)
          (JObj [(lit ''cart'', JObj [(lit ''userEmail'', JStr (lit ''a@b.c''))])]))
        [lit ''cart'', lit ''userEmail''] True w \<and> w = JStr redacted_marker"
proof -
  let ?v = "JObj [(lit ''cart'', JObj [(lit ''userEmail'', JStr (lit ''a@b.c''))])]"
  have e: "is_default_redacted_key (lit ''userEmail'')" and c: "\<not> is_default_redacted_key (lit ''cart'')"
    by (simp_all add: is_default_redacted_key_def default_redaction_keys_def word_defaults_def
        words_def lower_def lower_char_def is_upper_def is_alnum_def is_letter_def is_digit_def lit_def)
  then have sel: "selects default_policy [lit ''cart'', lit ''userEmail''] True"
    by (simp add: selects_def default_policy_def)
  have "redact (Some default_policy) ?v =
      JObj [(lit ''cart'', JObj [(lit ''userEmail'', JStr redacted_marker)])]"
    using e c by (simp add: redact_def selects_def default_policy_def)
  then have loc: "located (redact (Some default_policy) ?v) [lit ''cart'', lit ''userEmail''] True
      (JStr redacted_marker)"
    by (auto intro!: in_member here_member)
  show ?thesis using redaction_complete[OF loc sel] loc by blast
qed

text \<open>
  Redaction is exact and stable: a document no location of which is selected is returned
  unchanged, and redacting a redacted document changes nothing.
\<close>

theorem redaction_stable:
  "redact pol (redact pol v) = redact pol v \<and>
   ((\<forall>p b w. located v p b w \<longrightarrow> \<not> selects (case pol of None \<Rightarrow> default_policy | Some q \<Rightarrow> q) p b) \<longrightarrow>
    redact pol v = v)"
  using redact_walk_unselected[of v _ "[]"]
  by (auto simp: redact_def redact_walk_idempotent)

lemma redaction_stable_witness:
  "redact None (JObj [(lit ''total'', JInt 3)]) = JObj [(lit ''total'', JInt 3)]"
proof -
  have "\<not> selects default_policy [lit ''total''] True"
    by (simp add: selects_def default_policy_def is_default_redacted_key_def
        default_redaction_keys_def word_defaults_def words_def lower_def lower_char_def is_upper_def
        is_alnum_def is_letter_def is_digit_def lit_def)
  then have "\<forall>p b w. located (JObj [(lit ''total'', JInt 3)]) p b w \<longrightarrow>
      \<not> selects (case None of None \<Rightarrow> default_policy | Some q \<Rightarrow> q) p b"
    by (auto elim!: located_objE)
  then show ?thesis using redaction_stable[of None "JObj [(lit ''total'', JInt 3)]"] by blast
qed

end
