(* ===== verification/Evidence.thy ===== *)
theory Evidence
  imports Redaction Vocabulary
begin

section \<open>Recorded evidence\<close>

text \<open>
  \<open>evidence/models.py\<close> (the events of a run timeline, what they say about canonical state,
  their order) and \<open>evidence/effects.py\<close> (the declared effect paths resolved before and after
  one call, and the fragment of the observation kept for the causal classifier).
\<close>

subsection \<open>Run events\<close>

text \<open>
  The event fields. The instant is a number of microseconds; a sequence number is never
  negative, which the field's own bound says.
\<close>

record run_event =
  ev_sequence_number :: nat
  ev_event_type :: outcome_event_type
  ev_actor :: event_actor
  ev_created_at :: int
  ev_tool_name :: "pystr option"
  ev_correlation_id :: "pystr option"
  ev_request_id :: "pystr option"
  ev_reported_status :: "tool_reported_status option"
  ev_state_version_before :: "pystr option"
  ev_state_version_after :: "pystr option"
  ev_state_hash_before :: "pystr option"
  ev_state_hash_after :: "pystr option"
  ev_duration_ms :: "nat option"
  ev_redacted_payload :: jobject
  ev_post_call_effect_state :: "jobject option"

definition invocation_start_events :: "outcome_event_type list" where
  "invocation_start_events = [Ev_ToolInvocationStarted]"

definition terminal_invocation_events :: "outcome_event_type list" where
  "terminal_invocation_events =
     [Ev_ToolInvocationCompleted, Ev_ToolInvocationFailed, Ev_ToolInvocationCancelled]"

text \<open>Python's truth of an optional string: present and not empty.\<close>

fun truthy :: "pystr option \<Rightarrow> bool" where
  "truthy None = False"
| "truthy (Some s) = (s \<noteq> [])"

datatype event_error = EventNamesNoTool | EventReportsStatus

definition check_invocation_shape :: "run_event \<Rightarrow> event_error + run_event" where
  "check_invocation_shape e =
     (let invocation = ev_event_type e \<in> set (invocation_start_events @ terminal_invocation_events) in
      if invocation \<and> \<not> truthy (ev_tool_name e) then Inl EventNamesNoTool
      else (let completed = ev_event_type e = Ev_ToolInvocationCompleted in
        if \<not> completed \<and> ev_reported_status e \<noteq> None then Inl EventReportsStatus
        else Inr e))"

definition valid_event :: "run_event \<Rightarrow> bool" where
  "valid_event e \<longleftrightarrow> check_invocation_shape e = Inr e"

definition is_invocation_start :: "run_event \<Rightarrow> bool" where
  "is_invocation_start e \<longleftrightarrow> ev_event_type e \<in> set invocation_start_events"

definition reported_success :: "run_event \<Rightarrow> bool" where
  "reported_success e \<longleftrightarrow> ev_reported_status e = Some Rs_Success"

text \<open>\<open>changed_state\<close>: \<open>None\<close> when the event recorded no hashes.\<close>

definition changed_state :: "run_event \<Rightarrow> bool option" where
  "changed_state e =
     (if ev_state_hash_before e = None \<or> ev_state_hash_after e = None then None
      else Some (ev_state_hash_before e \<noteq> ev_state_hash_after e))"

definition ordered :: "run_event list \<Rightarrow> run_event list" where
  "ordered events = sort_key ev_sequence_number events"

lemma set_ordered [simp]: "set (ordered evs) = set evs"
  by (simp add: ordered_def)

lemma mset_ordered [simp]: "mset (ordered evs) = mset evs"
  by (simp add: ordered_def)

lemma length_ordered [simp]: "length (ordered evs) = length evs"
  by (simp add: ordered_def)

lemma sorted_ordered: "sorted (map ev_sequence_number (ordered evs))"
  by (simp add: ordered_def)

lemma ordered_perm:
  "mset evs = mset evs' \<Longrightarrow> inj_on ev_sequence_number (set evs) \<Longrightarrow> ordered evs = ordered evs'"
  unfolding ordered_def by (rule sort_key_perm_inj)

lemma valid_event_iff:
  "valid_event e \<longleftrightarrow>
     (ev_event_type e \<in> set (invocation_start_events @ terminal_invocation_events) \<longrightarrow>
       (\<exists>t. ev_tool_name e = Some t \<and> t \<noteq> [])) \<and>
     (ev_reported_status e \<noteq> None \<longrightarrow> ev_event_type e = Ev_ToolInvocationCompleted)"
proof -
  have "truthy t \<longleftrightarrow> (\<exists>s. t = Some s \<and> s \<noteq> [])" for t by (cases t) auto
  then show ?thesis by (auto simp: valid_event_def check_invocation_shape_def Let_def)
qed

text \<open>\<open>context_of\<close>: no snapshot, no context.\<close>

record observation =
  ob_namespace :: pystr
  ob_provider_id :: pystr
  ob_provenance :: pystr
  ob_schema_version :: pystr
  ob_payload :: jobject
  ob_state_version :: "pystr option"
  ob_captured_at :: int

definition as_context :: "observation \<Rightarrow> jobject" where
  "as_context ob = [(ob_namespace ob, JObj (ob_payload ob))]"

definition context_of :: "observation option \<Rightarrow> jobject option" where
  "context_of snap = (case snap of None \<Rightarrow> None | Some ob \<Rightarrow> Some (as_context ob))"

text \<open>\<open>redacted_observation\<close>; the payload is the only member that changes.\<close>

definition redacted_observation :: "observation \<Rightarrow> redaction_policy option \<Rightarrow> observation" where
  "redacted_observation ob pol =
     (case redact pol (JObj (ob_payload ob)) of
        JObj payload \<Rightarrow> if payload = ob_payload ob then ob else ob\<lparr>ob_payload := payload\<rparr>
      | _ \<Rightarrow> ob)"

lemma redacted_observation_payload:
  "JObj (ob_payload (redacted_observation ob pol)) = redact pol (JObj (ob_payload ob))"
  by (auto simp: redacted_observation_def redact_def)

lemma redacted_observation_metadata:
  "ob_namespace (redacted_observation ob pol) = ob_namespace ob"
  "ob_state_version (redacted_observation ob pol) = ob_state_version ob"
  "ob_provenance (redacted_observation ob pol) = ob_provenance ob"
  by (auto simp: redacted_observation_def redact_def)

subsection \<open>Effect evidence\<close>

record seen =
  seen_present :: bool
  seen_value :: json

definition seen_at :: "observation_path \<Rightarrow> jobject option \<Rightarrow> redaction_policy option \<Rightarrow> nat \<Rightarrow> seen" where
  "seen_at p ctx pol limit =
     (case ctx of
        None \<Rightarrow> \<lparr>seen_present = False, seen_value = JNull\<rparr>
      | Some c \<Rightarrow>
          (case resolve p c of
             None \<Rightarrow> \<lparr>seen_present = False, seen_value = JNull\<rparr>
           | Some v \<Rightarrow> \<lparr>seen_present = True, seen_value = bounded limit (redact pol v)\<rparr>))"

text \<open>
  Python's \<open>==\<close> on two JSON values, in which \<open>True == 1\<close> and \<open>1 == 1.0\<close>.
\<close>

fun py_number :: "json \<Rightarrow> pyfloat option" where
  "py_number (JBool b) = Some (Finite (if b then 1 else 0))"
| "py_number (JInt i) = Some (Finite (of_int i))"
| "py_number (JFloat x) = Some x"
| "py_number _ = None"

fun py_eq :: "json \<Rightarrow> json \<Rightarrow> bool" where
  "py_eq (JObj kvs) r =
     (case r of
        JObj kvs' \<Rightarrow>
          length kvs = length kvs' \<and>
          (\<forall>kv\<in>set kvs. case map_of kvs' (fst kv) of None \<Rightarrow> False | Some w \<Rightarrow> py_eq (snd kv) w)
      | _ \<Rightarrow> False)"
| "py_eq (JArr xs) r =
     (case r of
        JArr ys \<Rightarrow> length xs = length ys \<and> (\<forall>p\<in>set (zip xs ys). py_eq (fst p) (snd p))
      | _ \<Rightarrow> False)"
| "py_eq (JStr s) r = (case r of JStr t \<Rightarrow> s = t | _ \<Rightarrow> False)"
| "py_eq JNull r = (case r of JNull \<Rightarrow> True | _ \<Rightarrow> False)"
| "py_eq v r =
     (case (py_number v, py_number r) of (Some x, Some y) \<Rightarrow> float_eq x y | _ \<Rightarrow> False)"

definition effect_changed :: "seen \<Rightarrow> seen \<Rightarrow> bool option" where
  "effect_changed before after =
     (if \<not> seen_present before \<and> \<not> seen_present after then None
      else if seen_present before \<noteq> seen_present after then Some True
      else Some (\<not> py_eq (seen_value before) (seen_value after)))"

text \<open>One entry of the audit mapping\<close>

definition opt_bool :: "bool option \<Rightarrow> json" where
  "opt_bool b = (case b of None \<Rightarrow> JNull | Some x \<Rightarrow> JBool x)"

definition effect_entry ::
  "jobject option \<Rightarrow> jobject option \<Rightarrow> redaction_policy option \<Rightarrow> nat \<Rightarrow> observation_path \<Rightarrow> json" where
  "effect_entry before after pol limit p =
     (let unobserved = before = None \<or> after = None;
          b = seen_at p before pol limit;
          a = seen_at p after pol limit
      in JObj [(lit ''before'', seen_value b), (lit ''after'', seen_value a),
               (lit ''before_present'', JBool (seen_present b)),
               (lit ''after_present'', JBool (seen_present a)),
               (lit ''changed'', opt_bool (if unobserved then None else effect_changed b a))])"

text \<open>\<open>m[k] = v\<close> on an insertion-ordered mapping\<close>

fun obj_set :: "pystr \<Rightarrow> 'v \<Rightarrow> (pystr \<times> 'v) list \<Rightarrow> (pystr \<times> 'v) list" where
  "obj_set k v [] = [(k, v)]"
| "obj_set k v ((k', v') # kvs) = (if k' = k then (k, v) # kvs else (k', v') # obj_set k v kvs)"

lemma map_of_obj_set: "map_of (obj_set k v kvs) = (map_of kvs)(k \<mapsto> v)"
  by (induction kvs) (auto simp: fun_upd_twist)

lemma keys_obj_set: "fst ` set (obj_set k v kvs) = insert k (fst ` set kvs)"
  by (simp flip: dom_map_of_conv_image_fst add: map_of_obj_set)

lemma distinct_obj_set: "distinct (map fst kvs) \<Longrightarrow> distinct (map fst (obj_set k v kvs))"
  by (induction kvs) (auto simp: keys_obj_set)

definition effect_evidence ::
  "observation_path list \<Rightarrow> jobject option \<Rightarrow> jobject option \<Rightarrow> redaction_policy option \<Rightarrow> nat \<Rightarrow>
   jobject" where
  "effect_evidence paths before after pol limit =
     foldl (\<lambda>ev p. obj_set (path_str p) (effect_entry before after pol limit p) ev) [] paths"

subsection \<open>The post-call fragment\<close>

text \<open>
  \<open>_graft\<close>: a present member that is no object stops the descent, a present leaf wins. A
  present null counts as nothing there. An empty list of segments has no leaf, which the
  declared paths never have.
\<close>

fun graft :: "jobject \<Rightarrow> pystr list \<Rightarrow> json \<Rightarrow> jobject" where
  "graft target [] v = target"
| "graft target [leaf] v = (if has_key target leaf then target else obj_set leaf v target)"
| "graft target (s # t # ss) v =
     (case map_of target s of
        Some (JObj node) \<Rightarrow> obj_set s (JObj (graft node (t # ss) v)) target
      | Some JNull \<Rightarrow> obj_set s (JObj (graft [] (t # ss) v)) target
      | Some _ \<Rightarrow> target
      | None \<Rightarrow> obj_set s (JObj (graft [] (t # ss) v)) target)"

definition graft_effect ::
  "jobject \<Rightarrow> redaction_policy option \<Rightarrow> jobject \<Rightarrow> observation_path \<Rightarrow> jobject" where
  "graft_effect ctx pol fragment p =
     (case resolve p ctx of
        None \<Rightarrow> fragment
      | Some v \<Rightarrow> graft fragment (segments p) (redact pol v))"

definition effect_context ::
  "observation_path list \<Rightarrow> jobject option \<Rightarrow> redaction_policy option \<Rightarrow> jobject option" where
  "effect_context paths ctx pol =
     (case ctx of None \<Rightarrow> None | Some c \<Rightarrow> Some (foldl (graft_effect c pol) [] paths))"

lemma walk_graft_new: "ss \<noteq> [] \<Longrightarrow> walk ss (JObj (graft [] ss v)) = Some v"
proof (induction "[] :: jobject" ss v rule: graft.induct)
  case (3 s t ss v)
  then show ?case by (auto simp: map_of_obj_set)
qed (auto simp: has_key_def)

text \<open>A single effect path: the fragment answers for it and for everything below it.\<close>

lemma effect_context_single:
  assumes "segments e \<noteq> []" and r: "resolve e c = Some v"
  shows "effect_context [e] (Some c) pol = Some (graft [] (segments e) (redact pol v))"
  using assms by (simp add: effect_context_def graft_effect_def)

lemma effect_context_single_below:
  assumes "segments e \<noteq> []" "resolve e c = Some v" "redact pol v = v" "is_ancestor_of e p"
    "effect_context [e] (Some c) pol = Some fragment"
  shows "resolve p fragment = resolve p c"
proof -
  obtain zs where z: "segments p = segments e @ zs"
    using assms(4) by (auto simp: is_ancestor_of_prefix prefix_def)
  have "fragment = graft [] (segments e) v"
    using assms effect_context_single[OF assms(1,2), of pol] by simp
  then show ?thesis
    using assms(2) by (simp add: resolve_def z walk_append walk_graft_new[OF assms(1)])
qed

end
