(* ===== verification/Findings.thy ===== *)
theory Findings
  imports Evidence
begin

section \<open>Findings and their order\<close>

text \<open>
  \<open>engine/findings.py\<close>: one evaluated check, which statuses count against a run, the
  deterministic order that selects the primary failure, the critical classification set that
  eval expectations compare, and the aggregation to one layer result.
\<close>

record finding =
  fi_check_id :: pystr
  fi_check_type :: check_type
  fi_status :: check_status
  fi_severity :: assertion_severity
  fi_classification :: "failure_classification option"
  fi_path :: "observation_path option"
  fi_paths :: "observation_path list"
  fi_applied_exemptions :: "observation_path list"
  fi_attributed_cause :: "jobject option"
  fi_expected :: json
  fi_actual :: json
  fi_causal_event_sequence :: "nat option"
  fi_evidence :: jobject

text \<open>A finding with the defaults of the model's optional fields\<close>

definition basic_finding :: "pystr \<Rightarrow> check_type \<Rightarrow> check_status \<Rightarrow> assertion_severity \<Rightarrow> finding" where
  "basic_finding cid ct st sev =
     \<lparr>fi_check_id = cid, fi_check_type = ct, fi_status = st, fi_severity = sev,
      fi_classification = None, fi_path = None, fi_paths = [], fi_applied_exemptions = [],
      fi_attributed_cause = None, fi_expected = JNull, fi_actual = JNull,
      fi_causal_event_sequence = None, fi_evidence = []\<rparr>"

lemma basic_finding_simps [simp]:
  "fi_check_id (basic_finding c t s v) = c"
  "fi_check_type (basic_finding c t s v) = t"
  "fi_status (basic_finding c t s v) = s"
  "fi_severity (basic_finding c t s v) = v"
  "fi_classification (basic_finding c t s v) = None"
  "fi_path (basic_finding c t s v) = None"
  "fi_paths (basic_finding c t s v) = []"
  "fi_applied_exemptions (basic_finding c t s v) = []"
  "fi_attributed_cause (basic_finding c t s v) = None"
  "fi_expected (basic_finding c t s v) = JNull"
  "fi_actual (basic_finding c t s v) = JNull"
  "fi_causal_event_sequence (basic_finding c t s v) = None"
  "fi_evidence (basic_finding c t s v) = []"
  by (simp_all add: basic_finding_def)

fun severity_rank :: "assertion_severity \<Rightarrow> int" where
  "severity_rank Sev_Critical = 3"
| "severity_rank Sev_Warning = 2"
| "severity_rank Sev_Info = 1"

definition failing_statuses :: "check_status list" where
  "failing_statuses = [Cs_Failed, Cs_ObservationUnavailable]"

definition failed :: "finding \<Rightarrow> bool" where
  "failed f \<longleftrightarrow> fi_status f \<in> set failing_statuses"

definition finding_sort_key :: "finding \<Rightarrow> int \<times> nat \<times> nat \<times> pystr" where
  "finding_sort_key f =
     (- severity_rank (fi_severity f),
      if fi_causal_event_sequence f = None then 1 else 0,
      case fi_causal_event_sequence f of Some n \<Rightarrow> n | None \<Rightarrow> 0,
      fi_check_id f)"

definition order_failures :: "finding list \<Rightarrow> finding list" where
  "order_failures fs = sort_key finding_sort_key (filter failed fs)"

definition primary_failure :: "finding list \<Rightarrow> finding option" where
  "primary_failure fs = (case order_failures fs of [] \<Rightarrow> None | f # _ \<Rightarrow> Some f)"

definition critical_classifications :: "finding list \<Rightarrow> failure_classification list" where
  "critical_classifications fs =
     sorted_set (List.map_filter fi_classification
       (filter (\<lambda>f. failed f \<and> fi_severity f = Sev_Critical) fs))"

definition aggregate :: "finding list \<Rightarrow> layer_result" where
  "aggregate fs =
     (let failures = filter failed fs in
      if \<exists>f\<in>set failures. fi_severity f = Sev_Critical then Lr_Failed
      else if \<exists>f\<in>set failures. fi_severity f = Sev_Warning then Lr_PassedWithWarnings
      else Lr_Passed)"

subsection \<open>The order is deterministic\<close>

interpretation finding_order: deterministic_order finding_sort_key fi_check_id
  by unfold_locales (simp add: finding_sort_key_def)

interpretation event_order: deterministic_order ev_sequence_number ev_sequence_number
  by unfold_locales

lemma failed_iff: "failed f \<longleftrightarrow> fi_status f = Cs_Failed \<or> fi_status f = Cs_ObservationUnavailable"
  by (simp add: failed_def failing_statuses_def)

lemma mset_order_failures: "mset (order_failures fs) = filter_mset failed (mset fs)"
  by (simp add: order_failures_def mset_filter)

lemma set_order_failures [simp]: "set (order_failures fs) = {f \<in> set fs. failed f}"
  by (auto simp: order_failures_def)

lemma primary_failure_None: "primary_failure fs = None \<longleftrightarrow> (\<forall>f\<in>set fs. \<not> failed f)"
  using set_order_failures[of fs]
  by (cases "order_failures fs") (auto simp: primary_failure_def simp del: set_order_failures)

lemma primary_failure_Some:
  assumes "primary_failure fs = Some f"
  shows "f \<in> set fs" "failed f" "\<And>g. g \<in> set fs \<Longrightarrow> failed g \<Longrightarrow> finding_sort_key f \<le> finding_sort_key g"
proof -
  from assms obtain gs where gs: "order_failures fs = f # gs"
    by (auto simp: primary_failure_def split: list.splits)
  have "f \<in> set (order_failures fs)" using gs by simp
  then show "f \<in> set fs" "failed f" by simp_all
  show "finding_sort_key f \<le> finding_sort_key g" if "g \<in> set fs" "failed g" for g
    using finding_order.order_first_least[of "filter failed fs" f gs g] gs that
    by (simp add: order_failures_def)
qed

lemma order_failures_perm:
  "mset fs = mset gs \<Longrightarrow> inj_on fi_check_id (set fs) \<Longrightarrow> order_failures fs = order_failures gs"
  unfolding order_failures_def
  by (rule finding_order.order_filter_perm) (auto intro: inj_on_subset)

lemma set_critical_classifications:
  "set (critical_classifications fs) =
     {c. \<exists>f\<in>set fs. failed f \<and> fi_severity f = Sev_Critical \<and> fi_classification f = Some c}"
  by (auto simp: critical_classifications_def List.map_filter_def image_iff) force

lemma critical_classifications_cong: "set fs = set gs \<Longrightarrow> critical_classifications fs = critical_classifications gs"
  unfolding critical_classifications_def by (rule sorted_set_cong) (auto simp: List.map_filter_def)

text \<open>The shape every evaluator keeps: a failing finding says how it failed.\<close>

definition classified :: "finding \<Rightarrow> bool" where
  "classified f \<longleftrightarrow> (failed f \<longleftrightarrow> fi_classification f \<noteq> None)"

lemma aggregate_Failed_iff:
  "aggregate fs = Lr_Failed \<longleftrightarrow> (\<exists>f\<in>set fs. failed f \<and> fi_severity f = Sev_Critical)"
  by (auto simp: aggregate_def Let_def)

lemma aggregate_Passed_iff:
  "aggregate fs = Lr_Passed \<longleftrightarrow> (\<forall>f\<in>set fs. failed f \<longrightarrow> fi_severity f = Sev_Info)"
  by (auto simp: aggregate_def Let_def) (metis assertion_severity.exhaust)+

lemma aggregate_cases: "aggregate fs \<in> {Lr_Failed, Lr_PassedWithWarnings, Lr_Passed}"
  by (auto simp: aggregate_def Let_def)

lemma aggregate_Nil [simp]: "aggregate [] = Lr_Passed"
  by (simp add: aggregate_def)

lemma aggregate_critical:
  "\<forall>f\<in>set fs. fi_severity f = Sev_Critical \<Longrightarrow> aggregate fs \<in> {Lr_Failed, Lr_Passed}"
  by (auto simp: aggregate_def Let_def)

lemma classified_aggregate:
  assumes "\<forall>f\<in>set fs. classified f"
  shows "aggregate fs = Lr_Failed \<longleftrightarrow> critical_classifications fs \<noteq> []"
proof -
  have "critical_classifications fs \<noteq> [] \<longleftrightarrow> (\<exists>c. c \<in> set (critical_classifications fs))"
    by (cases "critical_classifications fs") auto
  also have "\<dots> \<longleftrightarrow> (\<exists>f\<in>set fs. failed f \<and> fi_severity f = Sev_Critical)"
    using assms by (auto simp: set_critical_classifications classified_def)
  finally show ?thesis by (simp add: aggregate_Failed_iff)
qed

subsection \<open>The contract of an evaluator\<close>

text \<open>
  What every evaluator of a contract term promises: its finding carries the term's identifier
  and kind, and says how it failed exactly when it failed.
\<close>

locale check_evaluator =
  fixes evaluate :: "'t \<Rightarrow> 'e \<Rightarrow> 'err + finding"
    and term_id :: "'t \<Rightarrow> pystr"
    and kind :: check_type
  assumes evaluate_id: "evaluate t e = Inr f \<Longrightarrow> fi_check_id f = term_id t"
    and evaluate_kind: "evaluate t e = Inr f \<Longrightarrow> fi_check_type f = kind"
    and evaluate_classified: "evaluate t e = Inr f \<Longrightarrow> classified f"
begin

lemma findings_ids:
  "map_result (\<lambda>t. evaluate t e) ts = Inr fs \<Longrightarrow> map fi_check_id fs = map term_id ts"
  unfolding map_result_Inr_conv by (induction rule: list_all2_induct) (auto simp: evaluate_id)

lemma findings_from_terms:
  "map_result (\<lambda>t. evaluate t e) ts = Inr fs \<Longrightarrow> f \<in> set fs \<Longrightarrow> \<exists>t\<in>set ts. evaluate t e = Inr f"
  unfolding map_result_Inr_conv by (induction rule: list_all2_induct) auto

lemma findings_kind:
  "map_result (\<lambda>t. evaluate t e) ts = Inr fs \<Longrightarrow> f \<in> set fs \<Longrightarrow> fi_check_type f = kind"
  by (drule (1) findings_from_terms) (auto dest: evaluate_kind)

lemma findings_classified:
  "map_result (\<lambda>t. evaluate t e) ts = Inr fs \<Longrightarrow> \<forall>f\<in>set fs. classified f"
  by (auto dest!: findings_from_terms dest: evaluate_classified)

lemma findings_distinct:
  assumes "map_result (\<lambda>t. evaluate t e) ts = Inr fs" "distinct (map term_id ts)"
  shows "inj_on fi_check_id (set fs)"
proof -
  have "distinct (map fi_check_id fs)" using findings_ids[OF assms(1)] assms(2) by simp
  then show ?thesis by (simp add: distinct_map)
qed

lemma findings_aggregate:
  "map_result (\<lambda>t. evaluate t e) ts = Inr fs \<Longrightarrow>
   aggregate fs = Lr_Failed \<longleftrightarrow> critical_classifications fs \<noteq> []"
  by (rule classified_aggregate[OF findings_classified])

end

text \<open>
  The order of failures is a total one on a run whose findings have distinct check ids:
  it lists exactly the failing findings, ascending by the sort key, the primary failure is the
  least of them, and neither depends on the order the findings came in.
\<close>

theorem failure_order_deterministic:
  assumes "mset fs = mset gs" "inj_on fi_check_id (set fs)"
  shows "order_failures fs = order_failures gs \<and> primary_failure fs = primary_failure gs \<and>
    mset (order_failures fs) = filter_mset failed (mset fs) \<and>
    sorted (map finding_sort_key (order_failures fs)) \<and>
    (\<forall>f. primary_failure fs = Some f \<longrightarrow>
       failed f \<and> (\<forall>g\<in>set fs. failed g \<longrightarrow> finding_sort_key f \<le> finding_sort_key g))"
proof -
  have eq: "order_failures fs = order_failures gs" using assms by (rule order_failures_perm)
  moreover have "primary_failure fs = primary_failure gs" using eq by (simp add: primary_failure_def)
  moreover have "sorted (map finding_sort_key (order_failures fs))" by (simp add: order_failures_def)
  ultimately show ?thesis
    using primary_failure_Some[of fs] mset_order_failures[of fs] by blast
qed

lemma failure_order_deterministic_witness:
  "order_failures
     [basic_finding (lit ''b'') Ct_Assertion Cs_Failed Sev_Critical,
      basic_finding (lit ''a'') Ct_Assertion Cs_Failed Sev_Critical] =
   order_failures
     [basic_finding (lit ''a'') Ct_Assertion Cs_Failed Sev_Critical,
      basic_finding (lit ''b'') Ct_Assertion Cs_Failed Sev_Critical]"
  by (rule failure_order_deterministic[THEN conjunct1]) (auto simp: inj_on_def)

end
