(* ===== verification/Canonical.thy ===== *)
theory Canonical
  imports Json "HOL-Library.Word"
begin

section \<open>Canonical serialization and content hashes\<close>

text \<open>
  \<open>security/canonical.py\<close>: RFC 8785. Strings are escaped, numbers are laid out as
  ECMAScript does from the shortest digits that read back to the double, members are sorted by
  their UTF-16 code units, nesting deeper than a hundred levels is refused; the content hash is
  the SHA-256 of the UTF-8 bytes. Hashing is part of Python's library and is written out here.
\<close>

unbundle bit_operations_syntax

datatype canon_error =
    LoneSurrogate
  | NotRepresentable int
  | IntegerOverflow
  | NonFinite
  | TooDeep

definition max_canonical_depth :: nat where
  "max_canonical_depth = 100"

subsection \<open>Strings\<close>

definition short_escape :: "nat \<Rightarrow> pystr option" where
  "short_escape c =
     (if c = 34 then Some [92, 34] else if c = 92 then Some [92, 92]
      else if c = 8 then Some (92 # lit ''b'') else if c = 12 then Some (92 # lit ''f'')
      else if c = 10 then Some (92 # lit ''n'') else if c = 13 then Some (92 # lit ''r'')
      else if c = 9 then Some (92 # lit ''t'') else None)"

definition hex_digit :: "nat \<Rightarrow> nat" where
  "hex_digit d = (if d < 10 then 48 + d else 87 + d)"

definition escape_char :: "nat \<Rightarrow> pystr" where
  "escape_char c =
     (case short_escape c of
        Some e \<Rightarrow> e
      | None \<Rightarrow>
          if c < 32 then 92 # lit ''u00'' @ [hex_digit (c div 16), hex_digit (c mod 16)] else [c])"

definition is_surrogate :: "nat \<Rightarrow> bool" where
  "is_surrogate c \<longleftrightarrow> 0xD800 \<le> c \<and> c \<le> 0xDFFF"

definition encode_string :: "pystr \<Rightarrow> canon_error + pystr" where
  "encode_string s =
     (if \<exists>c\<in>set s. is_surrogate c then Inl LoneSurrogate
      else Inr ([34] @ concat (map escape_char s) @ [34]))"

subsection \<open>Numbers\<close>

text \<open>\<open>float(n)\<close>: the nearest double, Python's \<open>OverflowError\<close> when it would be infinite.\<close>

definition int_to_double :: "int \<Rightarrow> rat option" where
  "int_to_double i =
     (if i = 0 then Some 0
      else (let m = nearest_double (of_int \<bar>i\<bar>) in
        if 2 ^ 1024 \<le> m then None else Some (of_int (sgn i) * m)))"

definition check_integer :: "int \<Rightarrow> canon_error + rat" where
  "check_integer i =
     (case int_to_double i of
        None \<Rightarrow> Inl IntegerOverflow
      | Some d \<Rightarrow> if \<lfloor>d\<rfloor> \<noteq> i then Inl (NotRepresentable i) else Inr d)"

text \<open>Trailing zeros of the digits move into the exponent.\<close>

function strip_zeros :: "nat \<Rightarrow> int \<Rightarrow> nat \<times> int" where
  "strip_zeros c e = (if 10 \<le> c \<and> c mod 10 = 0 then strip_zeros (c div 10) (e + 1) else (c, e))"
  by auto
termination by (relation "measure fst") auto

declare strip_zeros.simps [simp del]

definition lay_out :: "bool \<Rightarrow> pystr \<Rightarrow> int \<Rightarrow> pystr" where
  "lay_out negative digits exponent =
     (let sign = (if negative then [45] else []);
          count = int (length digits);
          position = exponent + count
      in if count \<le> position \<and> position \<le> 21 then
           sign @ digits @ replicate (nat (position - count)) 48
         else if 0 < position \<and> position \<le> 21 then
           sign @ take (nat position) digits @ [46] @ drop (nat position) digits
         else if - 6 < position \<and> position \<le> 0 then
           sign @ [48, 46] @ replicate (nat (- position)) 48 @ digits
         else
           (let mantissa = (if count = 1 then digits else take 1 digits @ [46] @ drop 1 digits);
                power = position - 1
            in sign @ mantissa @ lit ''e'' @ [if 0 \<le> power then 43 else 45] @ show_nat (nat \<bar>power\<bar>)))"

definition encode_number :: "pyfloat \<Rightarrow> canon_error + pystr" where
  "encode_number x =
     (case x of
        Finite r \<Rightarrow>
          if r = 0 then Inr [48]
          else (case float_repr \<bar>r\<bar> of (c, e) \<Rightarrow>
            (case strip_zeros c e of (c', e') \<Rightarrow> Inr (lay_out (r < 0) (show_nat c') e')))
      | _ \<Rightarrow> Inl NonFinite)"

subsection \<open>Documents\<close>

text \<open>\<open>key.encode("utf-16-be", errors="surrogatepass")\<close>\<close>

definition utf16_be_char :: "nat \<Rightarrow> nat list" where
  "utf16_be_char c =
     (if c < 0x10000 then [c div 256, c mod 256]
      else (let u = c - 0x10000; h = 0xD800 + u div 1024; l = 0xDC00 + u mod 1024
            in [h div 256, h mod 256, l div 256, l mod 256]))"

definition utf16_be :: "pystr \<Rightarrow> nat list" where
  "utf16_be s = concat (map utf16_be_char s)"

definition member_key :: "pystr \<times> json \<Rightarrow> nat list" where
  "member_key kv = utf16_be (fst kv)"

fun encode_json :: "nat \<Rightarrow> json \<Rightarrow> canon_error + pystr" where
  "encode_json depth JNull =
     (if max_canonical_depth < depth then Inl TooDeep else Inr (lit ''null''))"
| "encode_json depth (JBool b) =
     (if max_canonical_depth < depth then Inl TooDeep
      else Inr (if b then lit ''true'' else lit ''false''))"
| "encode_json depth (JInt i) =
     (if max_canonical_depth < depth then Inl TooDeep
      else bind_result (check_integer i) (\<lambda>d. encode_number (Finite d)))"
| "encode_json depth (JFloat x) =
     (if max_canonical_depth < depth then Inl TooDeep else encode_number x)"
| "encode_json depth (JStr s) =
     (if max_canonical_depth < depth then Inl TooDeep else encode_string s)"
| "encode_json depth (JObj kvs) =
     (if max_canonical_depth < depth then Inl TooDeep
      else bind_result
        (map_result (\<lambda>kv. bind_result (encode_json (Suc depth) (snd kv)) (\<lambda>v.
           bind_result (encode_string (fst kv)) (\<lambda>k. Inr (k @ [58] @ v)))) (sort_key member_key kvs))
        (\<lambda>members. Inr ([123] @ join_with 44 members @ [125])))"
| "encode_json depth (JArr xs) =
     (if max_canonical_depth < depth then Inl TooDeep
      else bind_result (map_result (encode_json (Suc depth)) xs)
        (\<lambda>items. Inr ([91] @ join_with 44 items @ [93])))"

definition canonical_text :: "json \<Rightarrow> canon_error + pystr" where
  "canonical_text v = encode_json 0 v"

definition utf8_char :: "nat \<Rightarrow> nat list" where
  "utf8_char c =
     (if c < 0x80 then [c]
      else if c < 0x800 then [0xC0 + c div 64, 0x80 + c mod 64]
      else if c < 0x10000 then [0xE0 + c div 4096, 0x80 + c div 64 mod 64, 0x80 + c mod 64]
      else [0xF0 + c div 262144, 0x80 + c div 4096 mod 64, 0x80 + c div 64 mod 64, 0x80 + c mod 64])"

definition canonicalize :: "json \<Rightarrow> canon_error + nat list" where
  "canonicalize v = bind_result (canonical_text v) (\<lambda>t. Inr (concat (map utf8_char t)))"

subsection \<open>SHA-256\<close>

type_synonym word32 = "32 word"

text \<open>
  The constants are the first 32 bits of the fractional parts of cube roots of the first sixty-four
  primes, and of square roots of the first eight for the initial state: computed, not tabulated.
\<close>

fun integer_root :: "nat \<Rightarrow> nat \<Rightarrow> nat \<Rightarrow> nat \<Rightarrow> nat" where
  "integer_root k n 0 acc = acc"
| "integer_root k n (Suc b) acc =
     (let c = acc + 2 ^ b in integer_root k n b (if c ^ k \<le> n then c else acc))"

definition sha_primes :: "nat list" where
  "sha_primes = filter (\<lambda>n. \<forall>d\<in>set [2..<n]. n mod d \<noteq> 0) [2..<312]"

definition fraction_bits :: "nat \<Rightarrow> nat \<Rightarrow> word32" where
  "fraction_bits k p = of_nat (integer_root k (p * 2 ^ (32 * k)) 36 0)"

definition sha_constants :: "word32 list" where
  "sha_constants = map (fraction_bits 3) sha_primes"

definition sha_initial :: "word32 list" where
  "sha_initial = map (fraction_bits 2) (take 8 sha_primes)"

definition rotr :: "nat \<Rightarrow> word32 \<Rightarrow> word32" where
  "rotr n x = word_rotr n x"

definition sha_pad :: "nat list \<Rightarrow> nat list" where
  "sha_pad msg =
     (let n = length msg; zeros = (119 - n mod 64) mod 64; bits = 8 * n
      in msg @ [0x80] @ replicate zeros 0 @ map (\<lambda>i. bits div 256 ^ (7 - i) mod 256) [0..<8])"

definition sha_word :: "nat list \<Rightarrow> word32" where
  "sha_word bs = of_nat (foldl (\<lambda>a b. 256 * a + b) 0 bs)"

fun chunks :: "nat \<Rightarrow> nat \<Rightarrow> 'a list \<Rightarrow> 'a list list" where
  "chunks 0 n xs = []"
| "chunks (Suc fuel) n xs = (if xs = [] then [] else take n xs # chunks fuel n (drop n xs))"

text \<open>The message schedule, newest word first\<close>

definition sha_next :: "word32 list \<Rightarrow> word32" where
  "sha_next ws =
     (let w15 = ws ! 14; w2 = ws ! 1;
          s0 = rotr 7 w15 XOR rotr 18 w15 XOR drop_bit 3 w15;
          s1 = rotr 17 w2 XOR rotr 19 w2 XOR drop_bit 10 w2
      in ws ! 15 + s0 + ws ! 6 + s1)"

fun sha_schedule :: "nat \<Rightarrow> word32 list \<Rightarrow> word32 list" where
  "sha_schedule 0 ws = rev ws"
| "sha_schedule (Suc n) ws = sha_schedule n (sha_next ws # ws)"

definition sha_round :: "word32 list \<Rightarrow> word32 \<times> word32 \<Rightarrow> word32 list" where
  "sha_round st kw =
     (case st of
        [a, b, c, d, e, f, g, h] \<Rightarrow>
          (let s1 = rotr 6 e XOR rotr 11 e XOR rotr 25 e;
               ch = (e AND f) XOR (NOT e AND g);
               t1 = h + s1 + ch + fst kw + snd kw;
               s0 = rotr 2 a XOR rotr 13 a XOR rotr 22 a;
               maj = (a AND b) XOR (a AND c) XOR (b AND c);
               t2 = s0 + maj
           in [t1 + t2, a, b, c, d + t1, e, f, g])
      | _ \<Rightarrow> st)"

definition sha_block :: "word32 list \<Rightarrow> nat list \<Rightarrow> word32 list" where
  "sha_block st block =
     (let ws = sha_schedule 48 (rev (map sha_word (chunks 16 4 block)))
      in map2 (+) st (foldl sha_round st (zip sha_constants ws)))"

definition sha256 :: "nat list \<Rightarrow> word32 list" where
  "sha256 msg = (let padded = sha_pad msg in foldl sha_block sha_initial (chunks (length padded) 64 padded))"

definition hex_word :: "word32 \<Rightarrow> pystr" where
  "hex_word w = map (\<lambda>i. hex_digit (unat w div 16 ^ (7 - i) mod 16)) [0..<8]"

definition sha256_hex :: "nat list \<Rightarrow> pystr" where
  "sha256_hex payload = concat (map hex_word (sha256 payload))"

subsection \<open>Content hashes\<close>

definition content_hash :: "json \<Rightarrow> canon_error + pystr" where
  "content_hash v = bind_result (canonicalize v) (\<lambda>bs. Inr (lit ''sha256:'' @ sha256_hex bs))"

definition document_content_hash :: "jobject \<Rightarrow> canon_error + pystr" where
  "document_content_hash doc =
     content_hash (JObj (filter (\<lambda>kv. fst kv \<noteq> lit ''content_hash'') doc))"

end
