(* ===== verification/Contracts.thy ===== *)
theory Contracts
  imports Canonical Redaction Vocabulary
begin

section \<open>Outcome contracts\<close>

text \<open>
  \<open>contracts/models.py\<close>: the terms a contract carries, the rules its validators enforce, the
  canonical document that is bounded and hashed, and the check against a selected target. The
  prose of an error is left out; every rejection is a constructor. As in the model classes, the
  errors of all fields are collected, and the rules over the whole contract run only when the
  fields are sound.
\<close>

subsection \<open>Terms\<close>

record precondition =
  pc_path :: observation_path
  pc_operator :: assertion_operator
  pc_value :: "json option"

record assertion =
  as_id :: pystr
  as_path :: observation_path
  as_operator :: assertion_operator
  as_value :: "json option"
  as_severity :: assertion_severity

text \<open>The attribute read of an omitted \<open>value\<close> is \<open>None\<close>, which is JSON null.\<close>

definition supplied_value :: "json option \<Rightarrow> json" where
  "supplied_value v = (case v of None \<Rightarrow> JNull | Some x \<Rightarrow> x)"

record expected_tools =
  et_ordered :: bool
  et_calls :: "pystr list"

datatype policy =
    RequiresConfirmation (policy_tool: pystr) (timeout_seconds: int)
  | Idempotency (policy_tool: pystr)
  | MaximumMutations (mutation_limit: int)
  | ForbiddenTool (policy_tool: pystr)
  | NoUndeclaredChanges (allow_paths: "observation_path list")
  | StableToolSurface (failing_delta_kinds: "surface_delta_kind list")

fun policy_kind :: "policy \<Rightarrow> policy_type" where
  "policy_kind (RequiresConfirmation _ _) = Pt_RequiresConfirmation"
| "policy_kind (Idempotency _) = Pt_IdempotentByRequestId"
| "policy_kind (MaximumMutations _) = Pt_MaximumMutations"
| "policy_kind (ForbiddenTool _) = Pt_ForbiddenTool"
| "policy_kind (NoUndeclaredChanges _) = Pt_NoUndeclaredChanges"
| "policy_kind (StableToolSurface _) = Pt_StableToolSurface"

record outcome_contract =
  oc_schema_version :: pystr
  oc_name :: pystr
  oc_target_id :: pystr
  oc_intent :: pystr
  oc_description :: pystr
  oc_preconditions :: "precondition list"
  oc_expected_tools :: "expected_tools option"
  oc_assertions :: "assertion list"
  oc_policies :: "policy list"
  oc_redaction :: "redaction_pattern list option"

subsection \<open>Limits\<close>

definition max_name_length :: nat where "max_name_length = 80"
definition max_description_length :: nat where "max_description_length = 500"
definition max_intent_length :: nat where "max_intent_length = 1000"
definition max_assertions :: nat where "max_assertions = 25"
definition max_policies :: nat where "max_policies = 10"
definition max_expected_tools :: nat where "max_expected_tools = 20"
definition max_redaction_paths :: nat where "max_redaction_paths = 25"
definition max_canonical_contract_bytes :: nat where "max_canonical_contract_bytes = 32 * 1024"

subsection \<open>Canonical documents\<close>

definition term_document :: "observation_path \<Rightarrow> assertion_operator \<Rightarrow> json option \<Rightarrow> jobject" where
  "term_document p op v =
     [(lit ''path'', JStr (path_str p)), (lit ''operator'', JStr (assertion_operator_value op))] @
     (case v of None \<Rightarrow> [] | Some x \<Rightarrow> [(lit ''value'', x)])"

definition precondition_document :: "precondition \<Rightarrow> json" where
  "precondition_document t = JObj (term_document (pc_path t) (pc_operator t) (pc_value t))"

definition assertion_document :: "assertion \<Rightarrow> json" where
  "assertion_document t = JObj
     ([(lit ''id'', JStr (as_id t))] @ term_document (as_path t) (as_operator t) (as_value t) @
      [(lit ''severity'', JStr (assertion_severity_value (as_severity t)))])"

definition expected_tools_document :: "expected_tools \<Rightarrow> json" where
  "expected_tools_document t = JObj
     [(lit ''ordered'', JBool (et_ordered t)), (lit ''calls'', JArr (map JStr (et_calls t)))]"

definition policy_type_member :: "policy \<Rightarrow> pystr \<times> json" where
  "policy_type_member p = (lit ''type'', JStr (policy_type_value (policy_kind p)))"

fun policy_document :: "policy \<Rightarrow> json" where
  "policy_document (RequiresConfirmation t n) = JObj
     [policy_type_member (RequiresConfirmation t n), (lit ''tool'', JStr t), (lit ''timeout_seconds'', JInt n)]"
| "policy_document (Idempotency t) = JObj [policy_type_member (Idempotency t), (lit ''tool'', JStr t)]"
| "policy_document (MaximumMutations n) = JObj [policy_type_member (MaximumMutations n), (lit ''limit'', JInt n)]"
| "policy_document (ForbiddenTool t) = JObj [policy_type_member (ForbiddenTool t), (lit ''tool'', JStr t)]"
| "policy_document (NoUndeclaredChanges ps) = JObj
     [policy_type_member (NoUndeclaredChanges ps), (lit ''allow_paths'', JArr (map (\<lambda>p. JStr (path_str p)) ps))]"
| "policy_document (StableToolSurface ks) = JObj
     [policy_type_member (StableToolSurface ks),
      (lit ''failing_delta_kinds'', JArr (map JStr (sort (map surface_delta_kind_value ks))))]"

definition redaction_document :: "redaction_pattern list \<Rightarrow> json" where
  "redaction_document ps = JObj [(lit ''paths'', JArr (map (\<lambda>p. JStr (pattern_str p)) ps))]"

definition contract_document :: "outcome_contract \<Rightarrow> jobject" where
  "contract_document c =
     [(lit ''schema_version'', JStr (oc_schema_version c)), (lit ''name'', JStr (oc_name c)),
      (lit ''target_id'', JStr (oc_target_id c)), (lit ''intent'', JStr (oc_intent c))] @
     (if oc_description c \<noteq> [] then [(lit ''description'', JStr (oc_description c))] else []) @
     (if oc_preconditions c \<noteq> []
      then [(lit ''preconditions'', JArr (map precondition_document (oc_preconditions c)))] else []) @
     (case oc_expected_tools c of
        None \<Rightarrow> [] | Some t \<Rightarrow> [(lit ''expected_tools'', expected_tools_document t)]) @
     (if oc_assertions c \<noteq> []
      then [(lit ''assertions'', JArr (map assertion_document (oc_assertions c)))] else []) @
     (if oc_policies c \<noteq> []
      then [(lit ''policies'', JArr (map policy_document (oc_policies c)))] else []) @
     (case oc_redaction c of
        None \<Rightarrow> [] | Some ps \<Rightarrow> if ps \<noteq> [] then [(lit ''redaction'', redaction_document ps)] else [])"

definition contract_hash :: "outcome_contract \<Rightarrow> canon_error + pystr" where
  "contract_hash c = content_hash (JObj (contract_document c))"

subsection \<open>Validation\<close>

datatype contract_error =
    TextTooShort pystr
  | TextTooLong pystr
  | TooMany pystr
  | TooFew pystr
  | TransitionInPrecondition observation_path
  | ValueRequired pystr
  | ValueNotAllowed pystr
  | TimeoutOutOfRange int
  | NegativeLimit int
  | DuplicateDeltaKind
  | UnsupportedSchemaVersion pystr
  | JudgesNothing
  | DuplicateAssertionIds "pystr list"
  | NotCanonicalizable canon_error
  | ContractTooLarge nat

text \<open>A length-bounded string field, and a bounded tuple field\<close>

definition check_text :: "pystr \<Rightarrow> nat \<Rightarrow> nat \<Rightarrow> pystr \<Rightarrow> contract_error list" where
  "check_text field lo hi t =
     (if length t < lo then [TextTooShort field] else if hi < length t then [TextTooLong field] else [])"

definition check_items ::
  "('a \<Rightarrow> contract_error list) \<Rightarrow> pystr \<Rightarrow> nat \<Rightarrow> nat \<Rightarrow> 'a list \<Rightarrow> contract_error list" where
  "check_items check field lo hi xs =
     (if hi < length xs then [TooMany field]
      else (let es = concat (map check xs) in
        if es \<noteq> [] then es else if length xs < lo then [TooFew field] else []))"

definition check_value_presence :: "assertion_operator \<Rightarrow> json option \<Rightarrow> pystr \<Rightarrow> contract_error list" where
  "check_value_presence op v location =
     (let supplied = v \<noteq> None; needs_value = op \<in> set operators_requiring_value in
      if needs_value \<and> \<not> supplied then [ValueRequired location]
      else if \<not> needs_value \<and> supplied then [ValueNotAllowed location]
      else [])"

definition check_precondition :: "precondition \<Rightarrow> contract_error list" where
  "check_precondition t =
     (if pc_operator t \<in> set transition_operators then [TransitionInPrecondition (pc_path t)]
      else check_value_presence (pc_operator t) (pc_value t) (path_str (pc_path t)))"

definition check_assertion :: "assertion \<Rightarrow> contract_error list" where
  "check_assertion t =
     (let es = check_text (lit ''id'') 1 max_name_length (as_id t) in
      if es \<noteq> [] then es else check_value_presence (as_operator t) (as_value t) (as_id t))"

definition check_tool_name :: "pystr \<Rightarrow> contract_error list" where
  "check_tool_name t = check_text (lit ''tool'') 1 max_tool_name_chars t"

definition check_expected_tools :: "expected_tools \<Rightarrow> contract_error list" where
  "check_expected_tools t =
     check_items check_tool_name (lit ''calls'') 1 max_expected_tools (et_calls t)"

fun check_policy :: "policy \<Rightarrow> contract_error list" where
  "check_policy (RequiresConfirmation t n) =
     check_tool_name t @ (if n < 10 \<or> 300 < n then [TimeoutOutOfRange n] else [])"
| "check_policy (Idempotency t) = check_tool_name t"
| "check_policy (MaximumMutations n) = (if n < 0 then [NegativeLimit n] else [])"
| "check_policy (ForbiddenTool t) = check_tool_name t"
| "check_policy (NoUndeclaredChanges _) = []"
| "check_policy (StableToolSurface ks) =
     (if card (set ks) \<noteq> length ks then [DuplicateDeltaKind] else [])"

definition check_fields :: "outcome_contract \<Rightarrow> contract_error list" where
  "check_fields c =
     check_text (lit ''name'') 1 max_name_length (oc_name c) @
     check_text (lit ''target_id'') 1 max_name_length (oc_target_id c) @
     check_text (lit ''intent'') 1 max_intent_length (oc_intent c) @
     check_text (lit ''description'') 0 max_description_length (oc_description c) @
     check_items check_precondition (lit ''preconditions'') 0 max_assertions (oc_preconditions c) @
     (case oc_expected_tools c of None \<Rightarrow> [] | Some t \<Rightarrow> check_expected_tools t) @
     check_items check_assertion (lit ''assertions'') 0 max_assertions (oc_assertions c) @
     check_items check_policy (lit ''policies'') 0 max_policies (oc_policies c) @
     (case oc_redaction c of
        None \<Rightarrow> []
      | Some ps \<Rightarrow> check_items (\<lambda>_. []) (lit ''paths'') 0 max_redaction_paths ps)"

text \<open>The model validator over the whole contract, stopping at the first rejection\<close>

definition duplicate_ids :: "pystr list \<Rightarrow> pystr list" where
  "duplicate_ids ids = sorted_set (filter (\<lambda>i. 1 < count_list ids i) ids)"

definition check_whole :: "outcome_contract \<Rightarrow> contract_error option" where
  "check_whole c =
     (if oc_schema_version c \<noteq> lit ''1.0'' then Some (UnsupportedSchemaVersion (oc_schema_version c))
      else if oc_assertions c = [] \<and> oc_policies c = [] then Some JudgesNothing
      else (let duplicates = duplicate_ids (map as_id (oc_assertions c)) in
        if duplicates \<noteq> [] then Some (DuplicateAssertionIds duplicates)
        else (case canonicalize (JObj (contract_document c)) of
          Inl e \<Rightarrow> Some (NotCanonicalizable e)
        | Inr bs \<Rightarrow>
            if max_canonical_contract_bytes < length bs then Some (ContractTooLarge (length bs))
            else None)))"

definition validate_contract :: "outcome_contract \<Rightarrow> contract_error list + outcome_contract" where
  "validate_contract c =
     (let es = check_fields c in
      if es \<noteq> [] then Inl es
      else (case check_whole c of Some e \<Rightarrow> Inl [e] | None \<Rightarrow> Inr c))"

definition valid_contract :: "outcome_contract \<Rightarrow> bool" where
  "valid_contract c \<longleftrightarrow> validate_contract c = Inr c"

subsection \<open>What a contract implies\<close>

definition contract_redaction_policy :: "outcome_contract \<Rightarrow> redaction_policy" where
  "contract_redaction_policy c =
     \<lparr>rp_patterns = (case oc_redaction c of None \<Rightarrow> [] | Some ps \<Rightarrow> ps), rp_apply_defaults = True\<rparr>"

fun named_tool :: "policy \<Rightarrow> pystr option" where
  "named_tool (RequiresConfirmation t _) = Some t"
| "named_tool (Idempotency t) = Some t"
| "named_tool (ForbiddenTool t) = Some t"
| "named_tool _ = None"

definition referenced_tools :: "outcome_contract \<Rightarrow> pystr list" where
  "referenced_tools c =
     (case oc_expected_tools c of None \<Rightarrow> [] | Some t \<Rightarrow> et_calls t) @
     List.map_filter named_tool (oc_policies c)"

fun confirmed_tool :: "policy \<Rightarrow> pystr option" where
  "confirmed_tool (RequiresConfirmation t _) = Some t"
| "confirmed_tool _ = None"

definition confirmed_tools :: "outcome_contract \<Rightarrow> pystr list" where
  "confirmed_tools c = List.map_filter confirmed_tool (oc_policies c)"

datatype target_issue = WrongTarget pystr | UnpublishedTool pystr | UnconfirmedMutation pystr

definition target_issues ::
  "outcome_contract \<Rightarrow> pystr \<Rightarrow> pystr list \<Rightarrow> pystr list \<Rightarrow> target_issue list" where
  "target_issues c target_id tool_names protected_tools =
     (if target_id \<noteq> oc_target_id c then [WrongTarget target_id] else []) @
     map UnpublishedTool
       (sorted_set (filter (\<lambda>t. t \<notin> set tool_names) (referenced_tools c))) @
     map UnconfirmedMutation
       (sorted_set (filter (\<lambda>t. t \<in> set protected_tools \<and> t \<notin> set (confirmed_tools c))
          (referenced_tools c)))"

definition validate_against_target ::
  "outcome_contract \<Rightarrow> pystr \<Rightarrow> pystr list \<Rightarrow> pystr list \<Rightarrow> target_issue list + unit" where
  "validate_against_target c target_id tool_names protected_tools =
     (let details = target_issues c target_id tool_names protected_tools in
      if details \<noteq> [] then Inl details else Inr ())"

subsection \<open>Contract records\<close>

record contract_record =
  cr_contract_id :: pystr
  cr_schema_version :: pystr
  cr_content_hash :: pystr
  cr_document :: jobject
  cr_created_at :: int

definition contract_record_of :: "outcome_contract \<Rightarrow> pystr \<Rightarrow> int \<Rightarrow> canon_error + contract_record" where
  "contract_record_of c cid now =
     bind_result (contract_hash c) (\<lambda>h. Inr
       \<lparr>cr_contract_id = cid, cr_schema_version = oc_schema_version c, cr_content_hash = h,
        cr_document = contract_document c, cr_created_at = now\<rparr>)"

definition verify_contract_record :: "contract_record \<Rightarrow> canon_error + bool" where
  "verify_contract_record r =
     bind_result (content_hash (JObj (cr_document r))) (\<lambda>h. Inr (h = cr_content_hash r))"

subsection \<open>Validity in one statement\<close>

lemma check_text_Nil: "check_text f lo hi t = [] \<longleftrightarrow> lo \<le> length t \<and> length t \<le> hi"
  by (auto simp: check_text_def)

lemma check_items_Nil:
  "check_items ch f lo hi xs = [] \<longleftrightarrow> lo \<le> length xs \<and> length xs \<le> hi \<and> (\<forall>x\<in>set xs. ch x = [])"
  by (auto simp: check_items_def Let_def)

lemma check_value_presence_Nil:
  "check_value_presence op v l = [] \<longleftrightarrow> (op \<in> set operators_requiring_value \<longleftrightarrow> v \<noteq> None)"
  by (auto simp: check_value_presence_def Let_def)

lemma count_list_distinct: "(\<forall>i\<in>set ids. count_list ids i \<le> 1) \<longleftrightarrow> distinct ids"
proof (induction ids)
  case (Cons x xs)
  have "(\<forall>i\<in>set (x # xs). count_list (x # xs) i \<le> 1) \<longleftrightarrow>
        x \<notin> set xs \<and> (\<forall>i\<in>set xs. count_list xs i \<le> 1)"
    by (auto simp: count_list_0_iff)
  then show ?case using Cons by simp
qed simp

lemma duplicate_ids_Nil: "duplicate_ids ids = [] \<longleftrightarrow> distinct ids"
proof -
  have "duplicate_ids ids = [] \<longleftrightarrow> (\<forall>i\<in>set ids. count_list ids i \<le> 1)"
    by (auto simp: duplicate_ids_def filter_empty_conv)
  then show ?thesis using count_list_distinct[of ids] by simp
qed

lemma set_referenced_tools:
  "set (referenced_tools c) =
     (case oc_expected_tools c of None \<Rightarrow> {} | Some t \<Rightarrow> set (et_calls t)) \<union>
     {t. \<exists>p\<in>set (oc_policies c). named_tool p = Some t}"
  by (auto simp: referenced_tools_def List.map_filter_def image_iff split: option.splits) force+

lemma set_confirmed_tools:
  "t \<in> set (confirmed_tools c) \<longleftrightarrow> (\<exists>n. RequiresConfirmation t n \<in> set (oc_policies c))"
proof -
  have "confirmed_tool p = Some t \<longleftrightarrow> (\<exists>n. p = RequiresConfirmation t n)" for p
    by (cases p) auto
  then show ?thesis
    by (auto simp: confirmed_tools_def List.map_filter_def image_iff) force
qed

text \<open>A stored record verifies against the document it was built with.\<close>

lemma contract_record_verifies:
  "contract_record_of c cid now = Inr r \<Longrightarrow> verify_contract_record r = Inr True"
  by (auto simp: contract_record_of_def verify_contract_record_def contract_hash_def bind_result_Inr)

lemma validate_contract_Inr:
  "validate_contract c = Inr d \<longleftrightarrow> d = c \<and> check_fields c = [] \<and> check_whole c = None"
  by (auto simp: validate_contract_def Let_def split: option.splits)

lemma check_whole_None:
  "check_whole c = None \<longleftrightarrow>
     oc_schema_version c = lit ''1.0'' \<and> (oc_assertions c \<noteq> [] \<or> oc_policies c \<noteq> []) \<and>
     distinct (map as_id (oc_assertions c)) \<and>
     (\<exists>bs. canonicalize (JObj (contract_document c)) = Inr bs \<and>
        length bs \<le> max_canonical_contract_bytes)"
  by (auto simp: check_whole_def Let_def duplicate_ids_Nil split: sum.splits)

lemma valid_contract_terms:
  assumes "valid_contract c"
  shows "\<forall>t\<in>set (oc_preconditions c). pc_operator t \<notin> set transition_operators"
    and "\<forall>t\<in>set (oc_preconditions c).
           (pc_operator t \<in> set operators_requiring_value \<longleftrightarrow> pc_value t \<noteq> None)"
    and "\<forall>t\<in>set (oc_assertions c).
           (as_operator t \<in> set operators_requiring_value \<longleftrightarrow> as_value t \<noteq> None)"
    and "distinct (map as_id (oc_assertions c))"
    and "oc_assertions c \<noteq> [] \<or> oc_policies c \<noteq> []"
proof -
  have f: "check_fields c = []" and w: "check_whole c = None"
    using assms by (auto simp: valid_contract_def validate_contract_Inr)
  have pre: "check_precondition t = []" if "t \<in> set (oc_preconditions c)" for t
    using f that by (auto simp: check_fields_def check_items_Nil)
  have ass: "check_assertion t = []" if "t \<in> set (oc_assertions c)" for t
    using f that by (auto simp: check_fields_def check_items_Nil)
  show "\<forall>t\<in>set (oc_preconditions c). pc_operator t \<notin> set transition_operators"
    using pre by (fastforce simp: check_precondition_def)
  show "\<forall>t\<in>set (oc_preconditions c).
           (pc_operator t \<in> set operators_requiring_value \<longleftrightarrow> pc_value t \<noteq> None)"
    using pre by (fastforce simp: check_precondition_def check_value_presence_Nil split: if_splits)
  show "\<forall>t\<in>set (oc_assertions c).
           (as_operator t \<in> set operators_requiring_value \<longleftrightarrow> as_value t \<noteq> None)"
    using ass by (fastforce simp: check_assertion_def Let_def check_value_presence_Nil split: if_splits)
  show "distinct (map as_id (oc_assertions c))" "oc_assertions c \<noteq> [] \<or> oc_policies c \<noteq> []"
    using w by (auto simp: check_whole_None)
qed

text \<open>
  A contract is accepted for a target exactly when it names that target, every tool it
  refers to is published, and every protected tool it refers to has a confirmation policy.
\<close>

theorem accepted_for_target_iff:
  "validate_against_target c target_id tool_names protected_tools = Inr () \<longleftrightarrow>
     target_id = oc_target_id c \<and> set (referenced_tools c) \<subseteq> set tool_names \<and>
     set (referenced_tools c) \<inter> set protected_tools \<subseteq>
       {t. \<exists>n. RequiresConfirmation t n \<in> set (oc_policies c)}"
proof -
  have "validate_against_target c target_id tool_names protected_tools = Inr () \<longleftrightarrow>
      target_issues c target_id tool_names protected_tools = []"
    by (simp add: validate_against_target_def Let_def)
  also have "\<dots> \<longleftrightarrow> target_id = oc_target_id c \<and> set (referenced_tools c) \<subseteq> set tool_names \<and>
     (\<forall>t\<in>set (referenced_tools c) \<inter> set protected_tools. t \<in> set (confirmed_tools c))"
    by (auto simp: target_issues_def filter_empty_conv)
  finally show ?thesis by (auto simp: set_confirmed_tools)
qed

end
