(* ===== verification/Assertions.thy ===== *)
theory Assertions
  imports Findings Contracts
begin

section \<open>The assertion engine\<close>

text \<open>
  \<open>engine/assertions.py\<close>: the eight operators with their reasons, the evaluation of an
  assertion and of a precondition. Python's decimal subtraction runs in the default context
  and may raise; that is the one error of this component.
\<close>

type_synonym ctx = "jobject option"

fun json_is_array :: "json \<Rightarrow> bool" where
  "json_is_array (JArr _) = True"
| "json_is_array _ = False"

fun as_exact :: "json \<Rightarrow> dec option" where
  "as_exact (JInt i) = Some (dec_of_int i)"
| "as_exact (JStr s) = decimal_of_text s"
| "as_exact _ = None"

definition found_value :: "resolution \<Rightarrow> json" where
  "found_value r = (case r of None \<Rightarrow> JNull | Some v \<Rightarrow> v)"

definition no_final :: pystr where "no_final = lit ''path did not resolve in the final snapshot''"
definition not_in_both :: pystr where "not_in_both = lit ''path did not resolve in both snapshots''"

subsection \<open>The operators\<close>

definition op_contains :: "json \<Rightarrow> json \<Rightarrow> bool \<times> json \<times> pystr" where
  "op_contains actual expected =
     (case actual of
        JStr s \<Rightarrow>
          (case expected of
             JStr needle \<Rightarrow> (has_substring needle s, actual, lit ''substring not found'')
           | _ \<Rightarrow> (False, actual, lit ''an observed string can only contain a string''))
      | JArr xs \<Rightarrow> (\<exists>x\<in>set xs. deep_equal x expected, actual, lit ''no member matched'')
      | _ \<Rightarrow> (False, actual, lit ''contains applies to an observed string or array''))"

definition op_changed_by ::
  "json \<Rightarrow> bool \<Rightarrow> json \<Rightarrow> json \<Rightarrow> arith_error + bool \<times> json \<times> pystr" where
  "op_changed_by expected supplied initial final =
     (let before = as_exact initial; after = as_exact final;
          delta = (if supplied then as_exact expected else None)
      in case before of
           None \<Rightarrow> Inr (False, final, lit ''changed_by requires integer or decimal values'')
         | Some b \<Rightarrow>
             (case after of
                None \<Rightarrow> Inr (False, final, lit ''changed_by requires integer or decimal values'')
              | Some a \<Rightarrow>
                  (case delta of
                     None \<Rightarrow> Inr (False, final, lit ''the expected delta is not an integer or decimal'')
                   | Some d \<Rightarrow>
                       bind_result (dec_sub a b)
                         (\<lambda>diff. Inr (dec_eq diff d, final, lit ''delta did not match'')))))"

definition op_count_equals :: "json \<Rightarrow> json \<Rightarrow> bool \<times> json \<times> pystr" where
  "op_count_equals actual expected =
     (case expected of
        JInt n \<Rightarrow>
          if n < 0 then (False, actual, lit ''count_equals expects a non-negative integer'')
          else (case actual of
            JObj kvs \<Rightarrow> (int (length kvs) = n, JInt (int (length kvs)), lit ''count did not match'')
          | JArr xs \<Rightarrow> (int (length xs) = n, JInt (int (length xs)), lit ''count did not match'')
          | _ \<Rightarrow> (False, actual, lit ''count_equals applies to an observed object or array''))
      | _ \<Rightarrow> (False, actual, lit ''count_equals expects a non-negative integer''))"

fun evaluate_operator ::
  "assertion_operator \<Rightarrow> json \<Rightarrow> bool \<Rightarrow> resolution \<Rightarrow> resolution \<Rightarrow>
   arith_error + bool \<times> json \<times> pystr" where
  "evaluate_operator Op_Equals expected supplied initial final =
     (case final of
        None \<Rightarrow> Inr (False, JNull, no_final)
      | Some v \<Rightarrow> Inr (deep_equal v expected, v, lit ''value did not match''))"
| "evaluate_operator Op_NotEquals expected supplied initial final =
     (case final of
        None \<Rightarrow> Inr (False, JNull, no_final)
      | Some v \<Rightarrow> Inr (\<not> deep_equal v expected, v, lit ''value matched''))"
| "evaluate_operator Op_Exists expected supplied initial final =
     Inr (final \<noteq> None, found_value final, lit ''path is absent'')"
| "evaluate_operator Op_Absent expected supplied initial final =
     Inr (final = None, found_value final, lit ''path is present'')"
| "evaluate_operator Op_Contains expected supplied initial final =
     (case final of
        None \<Rightarrow> Inr (False, JNull, no_final)
      | Some v \<Rightarrow> Inr (op_contains v expected))"
| "evaluate_operator Op_Unchanged expected supplied initial final =
     (case (initial, final) of
        (Some i, Some f) \<Rightarrow> Inr (deep_equal i f, f, lit ''value changed'')
      | _ \<Rightarrow> Inr (False, found_value final, not_in_both))"
| "evaluate_operator Op_ChangedBy expected supplied initial final =
     (case (initial, final) of
        (Some i, Some f) \<Rightarrow> op_changed_by expected supplied i f
      | _ \<Rightarrow> Inr (False, found_value final, not_in_both))"
| "evaluate_operator Op_CountEquals expected supplied initial final =
     (case final of
        None \<Rightarrow> Inr (False, JNull, no_final)
      | Some v \<Rightarrow> Inr (op_count_equals v expected))"

subsection \<open>Findings\<close>

definition reason_evidence :: "string \<Rightarrow> jobject" where
  "reason_evidence s = [(lit ''reason'', JStr (lit s))]"

definition verdict_finding ::
  "pystr \<Rightarrow> check_type \<Rightarrow> assertion_severity \<Rightarrow> observation_path \<Rightarrow> json \<Rightarrow>
   bool \<times> json \<times> pystr \<Rightarrow> finding" where
  "verdict_finding cid ct sev p expected verdict =
     (case verdict of (held, actual, reason) \<Rightarrow>
        (basic_finding cid ct (if held then Cs_Passed else Cs_Failed) sev)
          \<lparr>fi_classification := if held then None else Some Fc_AssertionMismatch,
           fi_path := Some p, fi_expected := expected, fi_actual := actual,
           fi_evidence := if held then [] else [(lit ''reason'', JStr reason)]\<rparr>)"

definition unavailable_finding ::
  "pystr \<Rightarrow> check_type \<Rightarrow> assertion_severity \<Rightarrow> observation_path \<Rightarrow> json \<Rightarrow> string \<Rightarrow> finding" where
  "unavailable_finding cid ct sev p expected why =
     (basic_finding cid ct Cs_ObservationUnavailable sev)
       \<lparr>fi_classification := Some Fc_ObservationUnavailable, fi_path := Some p,
        fi_expected := expected, fi_evidence := reason_evidence why\<rparr>"

definition resolve_in :: "observation_path \<Rightarrow> ctx \<Rightarrow> resolution" where
  "resolve_in p c = (case c of None \<Rightarrow> None | Some x \<Rightarrow> resolve p x)"

definition evaluate_assertion :: "assertion \<Rightarrow> ctx \<times> ctx \<Rightarrow> arith_error + finding" where
  "evaluate_assertion a snaps =
     (case snaps of (initial, final) \<Rightarrow>
        (let needs_initial = as_operator a \<in> set transition_operators in
         if final = None \<or> needs_initial \<and> initial = None then
           Inr (unavailable_finding (as_id a) Ct_Assertion (as_severity a) (as_path a)
             (supplied_value (as_value a)) ''the required authoritative observation was not available'')
         else
           bind_result
             (evaluate_operator (as_operator a) (supplied_value (as_value a)) (as_value a \<noteq> None)
               (resolve_in (as_path a) initial) (resolve_in (as_path a) final))
             (\<lambda>verdict. Inr (verdict_finding (as_id a) Ct_Assertion (as_severity a) (as_path a)
               (supplied_value (as_value a)) verdict))))"

definition evaluate_assertions :: "assertion list \<Rightarrow> ctx \<times> ctx \<Rightarrow> arith_error + finding list" where
  "evaluate_assertions as snaps = map_result (\<lambda>a. evaluate_assertion a snaps) as"

definition evaluate_precondition :: "precondition \<Rightarrow> ctx \<Rightarrow> arith_error + finding" where
  "evaluate_precondition t initial =
     (let cid = path_str (pc_path t) in
      if initial = None then
        Inr (unavailable_finding cid Ct_Precondition Sev_Critical (pc_path t)
          (supplied_value (pc_value t)) ''the initial authoritative observation was not available'')
      else
        bind_result
          (evaluate_operator (pc_operator t) (supplied_value (pc_value t)) (pc_value t \<noteq> None)
            None (resolve_in (pc_path t) initial))
          (\<lambda>verdict. Inr (verdict_finding cid Ct_Precondition Sev_Critical (pc_path t)
            (supplied_value (pc_value t)) verdict)))"

definition evaluate_preconditions :: "precondition list \<Rightarrow> ctx \<Rightarrow> arith_error + finding list" where
  "evaluate_preconditions ts initial = map_result (\<lambda>t. evaluate_precondition t initial) ts"

subsection \<open>What an operator decides\<close>

text \<open>The verdict as a relation between the two resolutions, without reasons or errors.\<close>

fun holds :: "assertion_operator \<Rightarrow> json \<Rightarrow> resolution \<Rightarrow> resolution \<Rightarrow> bool" where
  "holds Op_Equals expected initial final = (\<exists>v. final = Some v \<and> deep_equal v expected)"
| "holds Op_NotEquals expected initial final = (\<exists>v. final = Some v \<and> \<not> deep_equal v expected)"
| "holds Op_Exists expected initial final = (final \<noteq> None)"
| "holds Op_Absent expected initial final = (final = None)"
| "holds Op_Contains expected initial final =
     ((\<exists>s n. final = Some (JStr s) \<and> expected = JStr n \<and> sublist n s) \<or>
      (\<exists>xs. final = Some (JArr xs) \<and> (\<exists>x\<in>set xs. deep_equal x expected)))"
| "holds Op_Unchanged expected initial final =
     (\<exists>i f. initial = Some i \<and> final = Some f \<and> deep_equal i f)"
| "holds Op_ChangedBy expected initial final =
     (\<exists>i f b a d diff. initial = Some i \<and> final = Some f \<and> as_exact i = Some b \<and> as_exact f = Some a \<and>
        as_exact expected = Some d \<and> dec_sub a b = Inr diff \<and> dec_value diff = dec_value d)"
| "holds Op_CountEquals expected initial final =
     (\<exists>n. expected = JInt (int n) \<and>
        ((\<exists>kvs. final = Some (JObj kvs) \<and> length kvs = n) \<or>
         (\<exists>xs. final = Some (JArr xs) \<and> length xs = n)))"

lemma op_contains_held:
  "fst (op_contains v e) \<longleftrightarrow> holds Op_Contains e initial (Some v)"
  by (auto simp: op_contains_def has_substring_sublist split: json.splits)

lemma op_count_equals_held:
  "fst (op_count_equals v e) \<longleftrightarrow> holds Op_CountEquals e initial (Some v)"
proof (cases e)
  case (JInt n)
  then show ?thesis
    by (cases "n < 0"; cases v)
      (auto simp: op_count_equals_def intro: exI[of _ "nat n"])
qed (auto simp: op_count_equals_def)

lemma op_changed_by_held:
  "op_changed_by e supplied i f = Inr verdict \<Longrightarrow> supplied \<Longrightarrow>
   fst verdict \<longleftrightarrow> holds Op_ChangedBy e (Some i) (Some f)"
  by (auto simp: op_changed_by_def Let_def bind_result_Inr dec_eq_iff split: option.splits)

lemma evaluate_operator_held:
  assumes "evaluate_operator op e supplied initial final = Inr verdict"
    and "op = Op_ChangedBy \<Longrightarrow> supplied"
  shows "fst verdict \<longleftrightarrow> holds op e initial final"
proof (cases op)
  case Op_Contains
  then show ?thesis
    using assms op_contains_held by (auto split: option.splits)
next
  case Op_CountEquals
  then show ?thesis
    using assms op_count_equals_held by (auto split: option.splits)
next
  case Op_ChangedBy
  then show ?thesis
    using assms op_changed_by_held by (auto split: option.splits)
qed (use assms in \<open>auto split: option.splits\<close>)

text \<open>Only \<open>changed_by\<close> can raise, and only in the subtraction.\<close>

lemma evaluate_operator_raises:
  "evaluate_operator op e supplied initial final = Inl err \<Longrightarrow>
   op = Op_ChangedBy \<and> (\<exists>i f b a. initial = Some i \<and> final = Some f \<and> as_exact i = Some b \<and>
     as_exact f = Some a \<and> dec_sub a b = Inl err)"
  by (cases op)
    (auto simp: op_changed_by_def Let_def bind_result_def split: option.splits sum.splits)

lemma evaluate_operator_total:
  "op \<noteq> Op_ChangedBy \<Longrightarrow> \<exists>verdict. evaluate_operator op e supplied initial final = Inr verdict"
  using evaluate_operator_raises by (cases "evaluate_operator op e supplied initial final") blast+

lemma verdict_finding_simps [simp]:
  "fi_check_id (verdict_finding c t s p e v) = c"
  "fi_check_type (verdict_finding c t s p e v) = t"
  "fi_severity (verdict_finding c t s p e v) = s"
  "fi_status (verdict_finding c t s p e v) = (if fst v then Cs_Passed else Cs_Failed)"
  "fi_classification (verdict_finding c t s p e v) =
     (if fst v then None else Some Fc_AssertionMismatch)"
  "fi_path (verdict_finding c t s p e v) = Some p"
  "failed (verdict_finding c t s p e v) \<longleftrightarrow> \<not> fst v"
  by (auto simp: verdict_finding_def failed_iff split: prod.splits)

lemma unavailable_finding_simps [simp]:
  "fi_check_id (unavailable_finding c t s p e w) = c"
  "fi_check_type (unavailable_finding c t s p e w) = t"
  "fi_severity (unavailable_finding c t s p e w) = s"
  "fi_status (unavailable_finding c t s p e w) = Cs_ObservationUnavailable"
  "fi_classification (unavailable_finding c t s p e w) = Some Fc_ObservationUnavailable"
  "fi_path (unavailable_finding c t s p e w) = Some p"
  "failed (unavailable_finding c t s p e w)"
  by (auto simp: unavailable_finding_def failed_iff)

interpretation assertion_check: check_evaluator evaluate_assertion as_id Ct_Assertion
  by unfold_locales
    (auto simp: evaluate_assertion_def Let_def bind_result_Inr classified_def
      split: prod.splits if_splits)

interpretation precondition_check:
  check_evaluator evaluate_precondition "\<lambda>t. path_str (pc_path t)" Ct_Precondition
  by unfold_locales
    (auto simp: evaluate_precondition_def Let_def bind_result_Inr classified_def split: if_splits)

subsection \<open>Properties\<close>

lemma evaluate_assertion_unavailable:
  "final = None \<or> as_operator a \<in> set transition_operators \<and> initial = None \<Longrightarrow>
   evaluate_assertion a (initial, final) = Inr (unavailable_finding (as_id a) Ct_Assertion
     (as_severity a) (as_path a) (supplied_value (as_value a))
     ''the required authoritative observation was not available'')"
  by (auto simp: evaluate_assertion_def)

lemma evaluate_assertion_available:
  assumes "evaluate_assertion a (initial, Some c) = Inr f"
    and "as_operator a \<in> set transition_operators \<Longrightarrow> initial \<noteq> None"
  obtains verdict where
    "evaluate_operator (as_operator a) (supplied_value (as_value a)) (as_value a \<noteq> None)
       (resolve_in (as_path a) initial) (resolve (as_path a) c) = Inr verdict"
    "f = verdict_finding (as_id a) Ct_Assertion (as_severity a) (as_path a)
       (supplied_value (as_value a)) verdict"
  using assms by (auto simp: evaluate_assertion_def bind_result_Inr resolve_in_def split: if_splits)

lemma evaluate_assertion_cases:
  assumes ev: "evaluate_assertion a (initial, final) = Inr f"
    and ok: "as_operator a = Op_ChangedBy \<Longrightarrow> as_value a \<noteq> None"
  shows "fi_severity f = as_severity a \<and> fi_path f = Some (as_path a) \<and>
    (fi_status f = Cs_ObservationUnavailable \<longleftrightarrow>
      final = None \<or> as_operator a \<in> set transition_operators \<and> initial = None) \<and>
    (fi_status f = Cs_Passed \<longleftrightarrow>
      final \<noteq> None \<and> (as_operator a \<in> set transition_operators \<longrightarrow> initial \<noteq> None) \<and>
       holds (as_operator a) (supplied_value (as_value a))
         (resolve_in (as_path a) initial) (resolve_in (as_path a) final)) \<and>
    (fi_status f = Cs_Failed \<longleftrightarrow> fi_classification f = Some Fc_AssertionMismatch)"
proof (cases "final = None \<or> as_operator a \<in> set transition_operators \<and> initial = None")
  case True
  then show ?thesis using ev by (auto simp: evaluate_assertion_unavailable)
next
  case False
  then obtain c where c: "final = Some c" by auto
  obtain verdict where v:
    "evaluate_operator (as_operator a) (supplied_value (as_value a)) (as_value a \<noteq> None)
       (resolve_in (as_path a) initial) (resolve (as_path a) c) = Inr verdict"
    "f = verdict_finding (as_id a) Ct_Assertion (as_severity a) (as_path a)
       (supplied_value (as_value a)) verdict"
    using evaluate_assertion_available[of a initial c f] ev c False by blast
  have "fst verdict \<longleftrightarrow> holds (as_operator a) (supplied_value (as_value a))
      (resolve_in (as_path a) initial) (resolve (as_path a) c)"
    using evaluate_operator_held[OF v(1)] ok by simp
  then show ?thesis using v(2) c False by (auto simp: resolve_in_def)
qed

text \<open>
  C12. The verdict of an assertion. It is unresolved exactly when a snapshot it needs is missing;
  otherwise it passes exactly when the operator's relation holds between the two resolutions of
  its path, and every other outcome is a mismatch. In particular an unresolved path passes for
  \<open>absent\<close> and fails for every other operator.
\<close>

theorem assertion_verdict:
  assumes "evaluate_assertion a (initial, final) = Inr f"
    and "as_operator a = Op_ChangedBy \<Longrightarrow> as_value a \<noteq> None"
  shows "(fi_status f = Cs_ObservationUnavailable \<longleftrightarrow>
        final = None \<or> as_operator a \<in> set transition_operators \<and> initial = None) \<and>
    (fi_status f = Cs_Passed \<longleftrightarrow>
       final \<noteq> None \<and> (as_operator a \<in> set transition_operators \<longrightarrow> initial \<noteq> None) \<and>
       holds (as_operator a) (supplied_value (as_value a))
         (resolve_in (as_path a) initial) (resolve_in (as_path a) final)) \<and>
    (final \<noteq> None \<longrightarrow> resolve_in (as_path a) final = None \<longrightarrow>
       (fi_status f = Cs_Passed \<longleftrightarrow> as_operator a = Op_Absent))"
proof -
  have "holds op e i None \<longleftrightarrow> op = Op_Absent" for op e i by (cases op) auto
  moreover have "Op_Absent \<notin> set transition_operators" by (simp add: transition_operators_def)
  ultimately show ?thesis
    using evaluate_assertion_cases[OF assms] by (auto simp del: holds.simps)
qed

lemma assertion_verdict_witness:
  "\<exists>f. evaluate_assertion
      \<lparr>as_id = lit ''a'', as_path = Path [lit ''target'', lit ''total''], as_operator = Op_Equals,
       as_value = Some (JInt 3), as_severity = Sev_Critical\<rparr>
      (None, Some [(lit ''target'', JObj [(lit ''total'', JInt 3)])]) = Inr f \<and>
    fi_status f = Cs_Passed"
proof -
  let ?a = "\<lparr>as_id = lit ''a'', as_path = Path [lit ''target'', lit ''total''],
      as_operator = Op_Equals, as_value = Some (JInt 3), as_severity = Sev_Critical\<rparr>"
  let ?c = "[(lit ''target'', JObj [(lit ''total'', JInt 3)])]"
  obtain f where f: "evaluate_assertion ?a (None, Some ?c) = Inr f"
    by (simp add: evaluate_assertion_def transition_operators_def resolve_in_def resolve_def)
  have "fi_status f = Cs_Passed"
    using assertion_verdict[OF f]
    by (simp add: transition_operators_def resolve_in_def resolve_def supplied_value_def)
  with f show ?thesis by blast
qed

lemma dec_align_ints [simp]: "dec_align (dec_of_int a) (dec_of_int b) = (a, b, 0)"
  by (simp add: dec_align_def dec_of_int_def Let_def)

lemma ndigits_eq: "10 ^ k \<le> n \<Longrightarrow> n < 10 ^ Suc k \<Longrightarrow> ndigits n = Suc k"
proof (induction k arbitrary: n)
  case 0
  then show ?case by (subst ndigits_base.simps) simp
next
  case (Suc k)
  have "(10::nat) ^ 1 \<le> 10 ^ Suc k" by (rule power_increasing) auto
  then have "10 \<le> n" using Suc.prems(1) by (simp only: power_one_right)
  moreover have "10 ^ k \<le> n div 10" "n div 10 < 10 ^ Suc k"
    using Suc.prems by (auto simp: less_mult_imp_div_less mult.commute less_eq_div_iff_mult_less_eq)
  ultimately show ?case using Suc.IH[of "n div 10"] by (subst ndigits_base.simps) simp
qed

lemma ndigits_le:
  assumes "n < 10 ^ k" "0 < k"
  shows "ndigits n \<le> k"
  using assms
proof (induction k arbitrary: n)
  case (Suc k)
  show ?case
  proof (cases "n < 10")
    case True
    then show ?thesis by (simp add: ndigits_base.simps)
  next
    case False
    then have "0 < k" using Suc.prems(1) by (cases k) auto
    moreover have "n div 10 < 10 ^ k" using Suc.prems(1) by (simp add: less_mult_imp_div_less mult.commute)
    ultimately have "ndigits (n div 10) \<le> k" using Suc.IH by blast
    then show ?thesis using False by (subst ndigits_base.simps) simp
  qed
qed simp

text \<open>
  \<open>changed_by\<close> is exact on integers as long as the change fits the 28 significant
  digits of the decimal context: it holds exactly when final minus initial is the expected
  delta, and it never raises.
\<close>

theorem changed_by_exact:
  assumes "\<bar>a - b\<bar> < 10 ^ 28"
  shows "evaluate_operator Op_ChangedBy (JInt d) True (Some (JInt b)) (Some (JInt a)) =
    Inr (a - b = d, JInt a, lit ''delta did not match'')"
proof -
  have "nat \<bar>a - b\<bar> < 10 ^ 28" using assms by (simp add: nat_less_iff)
  then have n: "ndigits (nat \<bar>a - b\<bar>) \<le> context_prec"
    unfolding context_prec_def by (rule ndigits_le) simp
  have "dec_sub (dec_of_int a) (dec_of_int b) = Inr (Dec (a - b) 0)"
    by (rule dec_sub_exact(1)[OF dec_align_ints n])
      (simp_all add: context_etiny_def context_emax_def context_prec_def)
  moreover have "dec_eq (Dec (a - b) 0) (dec_of_int d) \<longleftrightarrow> a - b = d"
    using dec_align_ints[of "a - b" d] by (simp add: dec_eq_def dec_of_int_def)
  ultimately show ?thesis
    by (simp add: op_changed_by_def)
qed

lemma changed_by_exact_witness:
  "evaluate_operator Op_ChangedBy (JInt 2) True (Some (JInt 5)) (Some (JInt 7)) =
    Inr (True, JInt 7, lit ''delta did not match'')"
  using changed_by_exact[of 7 5 2] by simp

text \<open>
  Beyond 28 digits \<open>changed_by\<close> is not exact: the subtraction is rounded by the default
  context, so a delta that is off by one is accepted.
\<close>

theorem changed_by_rounds:
  "evaluate_operator Op_ChangedBy (JInt (10 ^ 28)) True (Some (JInt 0)) (Some (JInt (10 ^ 28 + 1))) =
    Inr (True, JInt (10 ^ 28 + 1), lit ''delta did not match'')"
proof -
  have d: "ndigits (10 ^ 28 + 1) = 29" "ndigits (10 ^ 27) = 28"
    using ndigits_eq[of 28 "10 ^ 28 + 1"] ndigits_eq[of 27 "10 ^ 27"] by simp_all
  have "dec_sub (dec_of_int (10 ^ 28 + 1)) (dec_of_int 0) = Inr (Dec (10 ^ 27) 1)"
    using d by (simp add: dec_sub_def dec_round_def Let_def context_prec_def context_etiny_def
        context_emax_def div_half_even_def)
  moreover have "dec_eq (Dec (10 ^ 27) 1) (dec_of_int (10 ^ 28))"
    by (simp add: dec_eq_def dec_align_def dec_of_int_def Let_def)
  ultimately show ?thesis by (simp add: op_changed_by_def)
qed

end
