(* ===== verification/Trajectory.thy ===== *)
theory Trajectory
  imports Assertions
begin

section \<open>Observed-trajectory conformance\<close>

text \<open>
  \<open>engine/trajectory.py\<close>: the eligible invocation starts in recorded order, the multiset
  comparison with the required calls and, for an ordered term, the greedy subsequence match.
\<close>

definition eligible_trajectory_actors :: "event_actor list" where
  "eligible_trajectory_actors = [Ac_Agent, Ac_Eval]"

definition expected_tools_check_id :: pystr where
  "expected_tools_check_id = lit ''expected_tools''"

definition eligible_start :: "run_event \<Rightarrow> bool" where
  "eligible_start e \<longleftrightarrow> is_invocation_start e \<and> ev_actor e \<in> set eligible_trajectory_actors"

definition observed_calls :: "run_event list \<Rightarrow> pystr list" where
  "observed_calls events = List.map_filter ev_tool_name (filter eligible_start (ordered events))"

text \<open>The iterator is consumed from left to right, each wanted call taking up where the last stopped.\<close>

fun is_subsequence :: "pystr list \<Rightarrow> pystr list \<Rightarrow> bool" where
  "is_subsequence [] observed = True"
| "is_subsequence (want # required) observed =
     (case dropWhile (\<lambda>call. call \<noteq> want) observed of
        [] \<Rightarrow> False
      | _ # remaining \<Rightarrow> is_subsequence required remaining)"

text \<open>\<open>Counter(required) - Counter(observed)\<close>, as the list of its elements\<close>

definition shortfall :: "pystr list \<Rightarrow> pystr list \<Rightarrow> pystr list" where
  "shortfall required observed = fold remove1 observed required"

definition first_eligible_sequence :: "run_event list \<Rightarrow> nat option" where
  "first_eligible_sequence events =
     (case filter eligible_start (ordered events) of
        [] \<Rightarrow> None | e # _ \<Rightarrow> Some (ev_sequence_number e))"

definition json_strings :: "pystr list \<Rightarrow> json" where
  "json_strings xs = JArr (map JStr xs)"

definition tools_finding :: "check_status \<Rightarrow> jobject \<Rightarrow> finding" where
  "tools_finding st evidence =
     (basic_finding expected_tools_check_id Ct_ExpectedTools st Sev_Critical)\<lparr>fi_evidence := evidence\<rparr>"

definition tools_failure ::
  "failure_classification \<Rightarrow> run_event list \<Rightarrow> pystr list \<Rightarrow> pystr list \<Rightarrow> jobject \<Rightarrow> finding" where
  "tools_failure cl events required observed evidence =
     (tools_finding Cs_Failed evidence)
       \<lparr>fi_classification := Some cl,
        fi_causal_event_sequence := first_eligible_sequence events,
        fi_expected := json_strings required, fi_actual := json_strings observed\<rparr>"

definition evaluate_expected_tools :: "expected_tools option \<Rightarrow> run_event list \<Rightarrow> finding" where
  "evaluate_expected_tools expected events =
     (let observed = observed_calls events in
      case expected of
        None \<Rightarrow> tools_finding Cs_NotEvaluated
          [(lit ''reason'', JStr (lit ''the contract declares no expected_tools'')),
           (lit ''observed_calls'', json_strings observed)]
      | Some et \<Rightarrow>
          (let required = et_calls et;
               missing = shortfall required observed;
               evidence = [(lit ''ordered'', JBool (et_ordered et)),
                           (lit ''required_calls'', json_strings required),
                           (lit ''observed_calls'', json_strings observed)]
           in if missing \<noteq> [] then
                tools_failure Fc_MissingExpectedTool events required observed
                  (evidence @ [(lit ''missing_calls'', json_strings (sort missing)),
                     (lit ''reason'', JStr (lit ''a required tool call did not occur''))])
              else if et_ordered et \<and> \<not> is_subsequence required observed then
                tools_failure Fc_TrajectoryOrderViolation events required observed
                  (evidence @ [(lit ''reason'',
                     JStr (lit ''every required call occurred, but not in the required order''))])
              else tools_finding Cs_Passed evidence))"

subsection \<open>The two comparisons\<close>

lemma is_subsequence_Cons:
  "is_subsequence (w # ws) (x # xs) = (if x = w then is_subsequence ws xs else is_subsequence (w # ws) xs)"
  by simp

lemma is_subsequence_subseq: "is_subsequence required observed \<longleftrightarrow> subseq required observed"
proof (induction observed arbitrary: required)
  case Nil
  then show ?case by (cases required) auto
next
  case (Cons x xs)
  show ?case
  proof (cases required)
    case (Cons w ws)
    then show ?thesis
      using Cons.IH[of ws] Cons.IH[of required]
      by (simp only: is_subsequence_Cons subseq_Cons2_iff) auto
  qed simp
qed

lemma mset_shortfall: "mset (shortfall required observed) = mset required - mset observed"
proof -
  have "mset (fold remove1 obs req) = mset req - mset obs" for obs req :: "pystr list"
    by (induction obs arbitrary: req) (auto simp: diff_diff_add_mset)
  then show ?thesis by (simp add: shortfall_def)
qed

lemma shortfall_Nil: "shortfall required observed = [] \<longleftrightarrow> mset required \<subseteq># mset observed"
  using mset_shortfall[of required observed]
  by (metis Diff_eq_empty_iff_mset mset_zero_iff)

lemma set_json_strings_sort: "mset xs = mset ys \<Longrightarrow> sort xs = sort ys"
  by (simp add: properties_for_sort)

subsection \<open>The verdict\<close>

lemma tools_finding_simps [simp]:
  "fi_check_id (tools_finding st ev) = expected_tools_check_id"
  "fi_check_type (tools_finding st ev) = Ct_ExpectedTools"
  "fi_status (tools_finding st ev) = st"
  "fi_severity (tools_finding st ev) = Sev_Critical"
  "fi_classification (tools_finding st ev) = None"
  by (simp_all add: tools_finding_def)

lemma tools_failure_simps [simp]:
  "fi_check_id (tools_failure cl evs r obs ev) = expected_tools_check_id"
  "fi_check_type (tools_failure cl evs r obs ev) = Ct_ExpectedTools"
  "fi_status (tools_failure cl evs r obs ev) = Cs_Failed"
  "fi_severity (tools_failure cl evs r obs ev) = Sev_Critical"
  "fi_classification (tools_failure cl evs r obs ev) = Some cl"
  "fi_causal_event_sequence (tools_failure cl evs r obs ev) = first_eligible_sequence evs"
  by (simp_all add: tools_failure_def)

interpretation tools_check:
  check_evaluator "\<lambda>t evs. Inr (evaluate_expected_tools t evs)" "\<lambda>_. expected_tools_check_id" Ct_ExpectedTools
  by unfold_locales
    (auto simp: evaluate_expected_tools_def Let_def classified_def failed_iff split: option.splits)

lemma observed_calls_perm:
  "mset evs = mset evs' \<Longrightarrow> inj_on ev_sequence_number (set evs) \<Longrightarrow> observed_calls evs = observed_calls evs'"
  unfolding observed_calls_def by (metis ordered_perm)

text \<open>
  C14. The trajectory check, as a statement about the recorded agent and replay starts: nothing
  is judged without the term; a required call that occurs too rarely is missing, whatever the
  order; an ordered term that is satisfied as a multiset but not as a subsequence is an order
  violation; everything else passes. No completed, failed or human event takes part.
\<close>

theorem expected_tools_verdict:
  "fi_status (evaluate_expected_tools None evs) = Cs_NotEvaluated \<and>
   fi_classification (evaluate_expected_tools (Some et) evs) =
     (if \<not> mset (et_calls et) \<subseteq># mset (observed_calls evs) then Some Fc_MissingExpectedTool
      else if et_ordered et \<and> \<not> subseq (et_calls et) (observed_calls evs)
      then Some Fc_TrajectoryOrderViolation else None) \<and>
   fi_status (evaluate_expected_tools (Some et) evs) =
     (if fi_classification (evaluate_expected_tools (Some et) evs) = None then Cs_Passed else Cs_Failed)"
  by (simp add: evaluate_expected_tools_def Let_def shortfall_Nil is_subsequence_subseq)

end
