(* ===== verification/Classification.thy ===== *)
theory Classification
  imports Trajectory
begin

section \<open>Causal classification\<close>

text \<open>
  \<open>engine/classification.py\<close>: which recorded action a failed assertion is attributed to, when
  the attribution is strong enough to say that the tool reported a success independent
  observation contradicts, the tool-execution layer, and the findings for failed calls.
\<close>

type_synonym effect_map = "(pystr \<times> observation_path list) list"

definition acting_actors :: "event_actor list" where
  "acting_actors = [Ac_Agent, Ac_Eval]"

definition terminal_events :: "outcome_event_type list" where
  "terminal_events = [Ev_ToolInvocationCompleted, Ev_ToolInvocationFailed, Ev_ToolInvocationCancelled]"

definition safe_blocks :: "outcome_event_type list" where
  "safe_blocks = [Ev_ToolInvocationCancelled]"

definition effects_of :: "effect_map \<Rightarrow> pystr \<Rightarrow> observation_path list" where
  "effects_of em tool = (case map_of em tool of None \<Rightarrow> [] | Some ps \<Rightarrow> ps)"

definition relevant_action :: "observation_path \<Rightarrow> effect_map \<Rightarrow> run_event \<Rightarrow> bool" where
  "relevant_action p em e \<longleftrightarrow>
     ev_event_type e \<in> set terminal_events \<and> ev_actor e \<in> set acting_actors \<and>
     (case ev_tool_name e of
        None \<Rightarrow> False | Some tool \<Rightarrow> \<exists>eff\<in>set (effects_of em tool). overlaps eff p)"

definition last_relevant_action :: "observation_path \<Rightarrow> run_event list \<Rightarrow> effect_map \<Rightarrow> run_event option" where
  "last_relevant_action p events em =
     (let relevant = filter (relevant_action p em) (ordered events) in
      if relevant = [] then None else Some (last relevant))"

definition effect_observation_mismatches ::
  "assertion \<Rightarrow> run_event \<Rightarrow> ctx \<Rightarrow> arith_error + bool option" where
  "effect_observation_mismatches a e initial =
     (if ev_post_call_effect_state e = None then Inr None
      else (let needs_initial = as_operator a \<in> set transition_operators in
        if needs_initial \<and> initial = None then Inr None
        else bind_result
          (evaluate_operator (as_operator a) (supplied_value (as_value a)) (as_value a \<noteq> None)
            (resolve_in (as_path a) initial) (resolve_in (as_path a) (ev_post_call_effect_state e)))
          (\<lambda>verdict. Inr (Some (\<not> fst verdict)))))"

subsection \<open>Attribution\<close>

definition no_cause :: jobject where
  "no_cause =
     [(lit ''kind'', JStr (lit ''none'')),
      (lit ''reason'', JStr (lit ''no executed tool declared an effect overlapping this path, so causality was not inferred''))]"

definition action_cause :: "run_event \<Rightarrow> jobject" where
  "action_cause e =
     [(lit ''kind'', JStr (lit ''tool_action'')),
      (lit ''tool_name'', (case ev_tool_name e of None \<Rightarrow> JNull | Some t \<Rightarrow> JStr t)),
      (lit ''event_sequence'', JInt (int (ev_sequence_number e))),
      (lit ''terminal_event'', JStr (outcome_event_type_value (ev_event_type e)))]"

definition with_reason :: "string \<Rightarrow> (pystr \<times> json)" where
  "with_reason s = (lit ''reason'', JStr (lit s))"

definition reason_not_completed :: "pystr \<times> json" where
  "reason_not_completed = with_reason
     ''the relevant action did not complete, so success was never claimed''"

definition reason_no_claim :: "pystr \<times> json" where
  "reason_no_claim = with_reason
     ''the relevant action completed without claiming success''"

definition reason_no_observation :: "pystr \<times> json" where
  "reason_no_observation = with_reason
     ''the relevant action reported success but recorded no immediate authoritative post-call observation, so the contradiction could not be established''"

definition reason_caused_later :: "pystr \<times> json" where
  "reason_caused_later = with_reason
     ''the immediate post-call observation satisfied the assertion, so the final mismatch was caused by something later''"

definition reason_contradicted :: "pystr \<times> json" where
  "reason_contradicted = with_reason
     ''the tool reported success and the immediate authoritative post-call observation contradicted the assertion''"

definition attribute_to :: "finding \<Rightarrow> run_event \<Rightarrow> jobject \<Rightarrow> finding" where
  "attribute_to f e cause =
     f\<lparr>fi_attributed_cause := Some cause, fi_causal_event_sequence := Some (ev_sequence_number e)\<rparr>"

definition reported_status_json :: "run_event \<Rightarrow> json" where
  "reported_status_json e =
     (case ev_reported_status e of None \<Rightarrow> JNull | Some s \<Rightarrow> JStr (tool_reported_status_value s))"

text \<open>The last step, when the relevant action completed and claimed success\<close>

fun judge_success :: "finding \<Rightarrow> run_event \<Rightarrow> bool option \<Rightarrow> finding" where
  "judge_success f e None = attribute_to f e (action_cause e @ [reason_no_observation])"
| "judge_success f e (Some False) = attribute_to f e (action_cause e @ [reason_caused_later])"
| "judge_success f e (Some True) =
     (attribute_to f e (action_cause e @ [reason_contradicted]))
       \<lparr>fi_classification := Some Fc_FalseSuccessOrStateMismatch\<rparr>"

definition blame :: "finding \<Rightarrow> assertion \<Rightarrow> run_event \<Rightarrow> ctx \<Rightarrow> arith_error + finding" where
  "blame f a e initial =
     (if ev_event_type e \<noteq> Ev_ToolInvocationCompleted then
        Inr (attribute_to f e (action_cause e @ [reason_not_completed]))
      else if \<not> reported_success e then
        Inr (attribute_to f e (action_cause e @
          [reason_no_claim, (lit ''reported_status'', reported_status_json e)]))
      else bind_result (effect_observation_mismatches a e initial) (\<lambda>m. Inr (judge_success f e m)))"

definition classify_one ::
  "finding \<Rightarrow> assertion option \<Rightarrow> run_event list \<Rightarrow> effect_map \<Rightarrow> ctx \<Rightarrow> arith_error + finding" where
  "classify_one f assertion events em initial =
     (case (assertion, fi_path f) of
        (Some a, Some p) \<Rightarrow>
          if fi_status f \<noteq> Cs_Failed \<or> fi_classification f \<noteq> Some Fc_AssertionMismatch then Inr f
          else (case last_relevant_action p events em of
            None \<Rightarrow> Inr (f\<lparr>fi_attributed_cause := Some no_cause\<rparr>)
          | Some e \<Rightarrow> blame f a e initial)
      | _ \<Rightarrow> Inr f)"

text \<open>\<open>{assertion.id: assertion for ...}\<close>, a later duplicate wins\<close>

definition assertion_by_id :: "assertion list \<Rightarrow> pystr \<Rightarrow> assertion option" where
  "assertion_by_id as = map_of (rev (map (\<lambda>a. (as_id a, a)) as))"

definition classify_assertion_failures ::
  "finding list \<Rightarrow> assertion list \<Rightarrow> run_event list \<Rightarrow> effect_map option \<Rightarrow> ctx \<Rightarrow>
   arith_error + finding list" where
  "classify_assertion_failures fs as events effect_map initial =
     (let effects = (case effect_map of None \<Rightarrow> [] | Some em \<Rightarrow> em) in
      map_result (\<lambda>f. classify_one f (assertion_by_id as (fi_check_id f)) events effects initial) fs)"

subsection \<open>The tool-execution layer\<close>

definition acting_terminal :: "run_event \<Rightarrow> bool" where
  "acting_terminal e \<longleftrightarrow> ev_event_type e \<in> set terminal_events \<and> ev_actor e \<in> set acting_actors"

definition reported_blocked :: "run_event \<Rightarrow> bool" where
  "reported_blocked e \<longleftrightarrow>
     (case ev_reported_status e of
        None \<Rightarrow> False | Some s \<Rightarrow> starts_with (lit ''blocked_by_'') (tool_reported_status_value s))"

definition tool_execution_layer :: "run_event list \<Rightarrow> layer_result" where
  "tool_execution_layer events =
     (let invocations = filter acting_terminal (ordered events) in
      if invocations = [] then Lr_NotEvaluated
      else if \<exists>e\<in>set invocations. ev_event_type e = Ev_ToolInvocationFailed then Lr_Failed
      else (let blocked = (\<exists>e\<in>set invocations. ev_event_type e \<in> set safe_blocks \<or> reported_blocked e)
        in if blocked then Lr_BlockedSafely else Lr_Passed))"

text \<open>An absent tool name prints as \<open>None\<close> in the identifier.\<close>

definition execution_check_id :: "run_event \<Rightarrow> pystr" where
  "execution_check_id e =
     lit ''tool_execution:'' @ (case ev_tool_name e of None \<Rightarrow> lit ''None'' | Some t \<Rightarrow> t) @ [58] @
     show_nat (ev_sequence_number e)"

definition execution_finding :: "run_event \<Rightarrow> finding" where
  "execution_finding e =
     (basic_finding (execution_check_id e) Ct_Policy Cs_Failed Sev_Critical)
       \<lparr>fi_classification := Some Fc_ToolExecutionError,
        fi_causal_event_sequence := Some (ev_sequence_number e),
        fi_evidence := [with_reason ''the tool returned an unexpected non-policy error'',
          (lit ''tool_name'', (case ev_tool_name e of None \<Rightarrow> JNull | Some t \<Rightarrow> JStr t))]\<rparr>"

definition execution_findings :: "run_event list \<Rightarrow> finding list" where
  "execution_findings events =
     map execution_finding
       (filter (\<lambda>e. ev_event_type e = Ev_ToolInvocationFailed \<and> ev_actor e \<in> set acting_actors)
         (ordered events))"

subsection \<open>Lemmas\<close>

lemma execution_finding_simps [simp]:
  "fi_check_id (execution_finding e) = execution_check_id e"
  "fi_check_type (execution_finding e) = Ct_Policy"
  "fi_status (execution_finding e) = Cs_Failed"
  "fi_severity (execution_finding e) = Sev_Critical"
  "fi_classification (execution_finding e) = Some Fc_ToolExecutionError"
  "failed (execution_finding e)"
  "classified (execution_finding e)"
  by (simp_all add: execution_finding_def failed_iff classified_def)

lemma execution_findings_classified: "\<forall>f\<in>set (execution_findings evs). classified f"
  by (auto simp: execution_findings_def)

lemma attribute_to_simps [simp]:
  "fi_check_id (attribute_to f e c) = fi_check_id f"
  "fi_check_type (attribute_to f e c) = fi_check_type f"
  "fi_status (attribute_to f e c) = fi_status f"
  "fi_severity (attribute_to f e c) = fi_severity f"
  "fi_classification (attribute_to f e c) = fi_classification f"
  "fi_path (attribute_to f e c) = fi_path f"
  "fi_causal_event_sequence (attribute_to f e c) = Some (ev_sequence_number e)"
  by (simp_all add: attribute_to_def)

lemma last_relevant_action_None:
  "last_relevant_action p evs em = None \<longleftrightarrow> (\<forall>e\<in>set evs. \<not> relevant_action p em e)"
  by (auto simp: last_relevant_action_def Let_def filter_empty_conv)

lemma last_of_sorted_greatest:
  assumes "sorted (map k xs)" "x \<in> set xs" shows "k x \<le> (k (last xs) :: 'b::linorder)"
proof -
  have ne: "xs \<noteq> []" using assms(2) by auto
  then have "sorted (map k (butlast xs) @ [k (last xs)])"
    using assms(1) by (metis append_butlast_last_id list.simps(8) list.simps(9) map_append)
  moreover have "x \<in> set (butlast xs) \<or> x = last xs"
    using assms(2) ne by (metis append_butlast_last_id in_set_conv_decomp rotate1.simps(2) set_ConsD set_rotate1)
  ultimately show ?thesis by (auto simp: sorted_append)
qed

lemma last_relevant_action_Some:
  assumes "last_relevant_action p evs em = Some e"
  shows "e \<in> set evs" "relevant_action p em e"
    "e' \<in> set evs \<Longrightarrow> relevant_action p em e' \<Longrightarrow> ev_sequence_number e' \<le> ev_sequence_number e"
proof -
  let ?r = "filter (relevant_action p em) (ordered evs)"
  have e: "?r \<noteq> []" "e = last ?r"
    using assms by (auto simp: last_relevant_action_def Let_def split: if_splits)
  then have "e \<in> set ?r" using last_in_set by blast
  then show "e \<in> set evs" "relevant_action p em e" by auto
  show "ev_sequence_number e' \<le> ev_sequence_number e" if "e' \<in> set evs" "relevant_action p em e'"
    using last_of_sorted_greatest[of ev_sequence_number ?r e'] that e sorted_ordered[of evs]
    by (auto intro: sorted_filter)
qed

lemma judge_success_cases:
  "fi_check_id (judge_success f e m) = fi_check_id f"
  "fi_check_type (judge_success f e m) = fi_check_type f"
  "fi_status (judge_success f e m) = fi_status f"
  "fi_severity (judge_success f e m) = fi_severity f"
  "fi_path (judge_success f e m) = fi_path f"
  "fi_classification (judge_success f e m) =
     (if m = Some True then Some Fc_FalseSuccessOrStateMismatch else fi_classification f)"
  by (induction f e m rule: judge_success.induct) simp_all

lemma blame_kept:
  assumes "blame f a e initial = Inr g"
  shows "fi_check_id g = fi_check_id f \<and> fi_check_type g = fi_check_type f \<and> fi_status g = fi_status f \<and>
    fi_severity g = fi_severity f \<and> fi_path g = fi_path f \<and>
    fi_classification g \<in> {fi_classification f, Some Fc_FalseSuccessOrStateMismatch}"
  using assms by (auto simp: blame_def bind_result_Inr judge_success_cases split: if_splits)

lemma classify_one_cases:
  assumes "classify_one f a evs em initial = Inr g"
  obtains "g = f"
  | "g = f\<lparr>fi_attributed_cause := Some no_cause\<rparr>"
  | a' p e where "a = Some a'" "fi_path f = Some p" "fi_status f = Cs_Failed"
      "fi_classification f = Some Fc_AssertionMismatch" "last_relevant_action p evs em = Some e"
      "blame f a' e initial = Inr g"
proof (cases a)
  case None
  then show ?thesis using assms that(1) by (simp add: classify_one_def)
next
  case a: (Some a')
  show ?thesis
  proof (cases "fi_path f")
    case None
    then show ?thesis using assms a that(1) by (simp add: classify_one_def)
  next
    case p: (Some p)
    show ?thesis
    proof (cases "fi_status f \<noteq> Cs_Failed \<or> fi_classification f \<noteq> Some Fc_AssertionMismatch")
      case True
      then show ?thesis using assms a p that(1) by (simp add: classify_one_def)
    next
      case False
      then show ?thesis
        using assms a p that(2,3) by (cases "last_relevant_action p evs em") (auto simp: classify_one_def)
    qed
  qed
qed

lemma classify_one_kept:
  assumes "classify_one f a evs em initial = Inr g"
  shows "fi_check_id g = fi_check_id f \<and> fi_check_type g = fi_check_type f \<and> fi_status g = fi_status f \<and>
   fi_severity g = fi_severity f \<and> fi_path g = fi_path f \<and> (classified f \<longrightarrow> classified g)"
  using assms
proof (cases rule: classify_one_cases)
  case (3 a' p e)
  then show ?thesis using blame_kept[OF 3(6)] by (auto simp: classified_def failed_iff)
qed (auto simp: classified_def failed_iff)

lemma classify_one_passes:
  "fi_status f \<noteq> Cs_Failed \<or> fi_classification f \<noteq> Some Fc_AssertionMismatch \<Longrightarrow>
   classify_one f a evs em initial = Inr f"
  by (auto simp: classify_one_def split: option.splits)

lemma effect_observation_mismatches_Some:
  assumes "effect_observation_mismatches a e initial = Inr m"
    and "as_operator a = Op_ChangedBy \<Longrightarrow> as_value a \<noteq> None"
  shows "m = Some True \<longleftrightarrow>
    (\<exists>s. ev_post_call_effect_state e = Some s \<and>
      (as_operator a \<in> set transition_operators \<longrightarrow> initial \<noteq> None) \<and>
      \<not> holds (as_operator a) (supplied_value (as_value a)) (resolve_in (as_path a) initial)
          (resolve (as_path a) s))"
proof -
  have eq: "fst v \<longleftrightarrow> holds (as_operator a) (supplied_value (as_value a)) i r"
    if "evaluate_operator (as_operator a) (supplied_value (as_value a)) (as_value a \<noteq> None) i r = Inr v"
    for v i r
    using evaluate_operator_held[OF that] assms(2) by simp
  show ?thesis
    using assms(1) eq
    by (auto simp: effect_observation_mismatches_def Let_def bind_result_Inr resolve_in_def
        split: if_splits option.splits)
qed

lemma classify_one_false_success:
  assumes "classify_one f (Some a) evs em initial = Inr g"
    and "fi_status f = Cs_Failed" "fi_classification f = Some Fc_AssertionMismatch"
      "fi_path f = Some (as_path a)"
    and ok: "as_operator a = Op_ChangedBy \<Longrightarrow> as_value a \<noteq> None"
  shows "fi_classification g = Some Fc_FalseSuccessOrStateMismatch \<longleftrightarrow>
    (\<exists>e s. last_relevant_action (as_path a) evs em = Some e \<and>
       ev_event_type e = Ev_ToolInvocationCompleted \<and> reported_success e \<and>
       ev_post_call_effect_state e = Some s \<and>
       (as_operator a \<in> set transition_operators \<longrightarrow> initial \<noteq> None) \<and>
       \<not> holds (as_operator a) (supplied_value (as_value a)) (resolve_in (as_path a) initial)
           (resolve (as_path a) s))"
proof (cases "last_relevant_action (as_path a) evs em")
  case None
  then show ?thesis using assms by (auto simp: classify_one_def)
next
  case (Some e)
  have b: "blame f a e initial = Inr g" using assms Some by (simp add: classify_one_def)
  show ?thesis
  proof (cases "ev_event_type e = Ev_ToolInvocationCompleted \<and> reported_success e")
    case False
    then show ?thesis using b Some assms(3) by (auto simp: blame_def split: if_splits)
  next
    case True
    then obtain m where m: "effect_observation_mismatches a e initial = Inr m" "g = judge_success f e m"
      using b by (auto simp: blame_def bind_result_Inr)
    show ?thesis
      using effect_observation_mismatches_Some[OF m(1) ok] m(2) Some True assms(3)
      by (auto simp: judge_success_cases)
  qed
qed

subsection \<open>Properties\<close>


definition sample_event :: "nat \<Rightarrow> outcome_event_type \<Rightarrow> event_actor \<Rightarrow> string \<Rightarrow> run_event" where
  "sample_event n ty actor tool =
     \<lparr>ev_sequence_number = n, ev_event_type = ty, ev_actor = actor, ev_created_at = 0,
      ev_tool_name = Some (lit tool), ev_correlation_id = None, ev_request_id = None,
      ev_reported_status = (if ty = Ev_ToolInvocationCompleted then Some Rs_Success else None),
      ev_state_version_before = None, ev_state_version_after = None, ev_state_hash_before = None,
      ev_state_hash_after = None, ev_duration_ms = None, ev_redacted_payload = [],
      ev_post_call_effect_state = None\<rparr>"

lemma sample_event_simps [simp]:
  "ev_sequence_number (sample_event n ty ac t) = n"
  "ev_event_type (sample_event n ty ac t) = ty"
  "ev_actor (sample_event n ty ac t) = ac"
  "ev_tool_name (sample_event n ty ac t) = Some (lit t)"
  "ev_reported_status (sample_event n ty ac t) =
     (if ty = Ev_ToolInvocationCompleted then Some Rs_Success else None)"
  "ev_correlation_id (sample_event n ty ac t) = None"
  "ev_request_id (sample_event n ty ac t) = None"
  "ev_state_hash_before (sample_event n ty ac t) = None"
  "ev_state_hash_after (sample_event n ty ac t) = None"
  "ev_redacted_payload (sample_event n ty ac t) = []"
  "ev_post_call_effect_state (sample_event n ty ac t) = None"
  by (simp_all add: sample_event_def)

lemma ordered_single [simp]: "ordered [e] = [e]"
  by (simp add: ordered_def)

definition items_path :: observation_path where
  "items_path = Path [lit ''target'', lit ''items'']"

definition mug_path :: observation_path where
  "mug_path = Path [lit ''target'', lit ''items'', lit ''mug'']"

definition two_items :: jobject where
  "two_items = [(lit ''target'', JObj [(lit ''items'', JObj [(lit ''mug'', JInt 1), (lit ''pen'', JInt 1)])])]"

definition count_assertion :: assertion where
  "count_assertion =
     \<lparr>as_id = lit ''count'', as_path = items_path, as_operator = Op_CountEquals,
      as_value = Some (JInt 2), as_severity = Sev_Critical\<rparr>"

definition count_failure :: finding where
  "count_failure = verdict_finding (lit ''count'') Ct_Assertion Sev_Critical items_path (JInt 2)
     (False, JInt 3, lit ''count did not match'')"


text \<open>
  The attribution is to the last action: the blamed event is a recorded terminal event of an
  agent or a replay whose tool declares an effect overlapping the path, and no later event is.
\<close>

theorem blamed_action_is_last:
  assumes "last_relevant_action p evs em = Some e"
  shows "e \<in> set evs \<and> relevant_action p em e \<and>
    {e' \<in> set evs. relevant_action p em e' \<and> ev_sequence_number e < ev_sequence_number e'} = {}"
  using last_relevant_action_Some[OF assms] by (auto simp: not_le [symmetric])

lemma blamed_action_is_last_witness:
  "relevant_action items_path [(lit ''add'', [items_path])]
     (sample_event 4 Ev_ToolInvocationFailed Ac_Agent ''add'')"
  using blamed_action_is_last
    [of items_path "[sample_event 4 Ev_ToolInvocationFailed Ac_Agent ''add'']" "[(lit ''add'', [items_path])]"
      "sample_event 4 Ev_ToolInvocationFailed Ac_Agent ''add''"]
  by (simp add: last_relevant_action_def relevant_action_def terminal_events_def acting_actors_def
      effects_of_def)

text \<open>
  Where the declared effect is at or above the asserted path, the immediate observation kept
  with the event answers for that path exactly as the observed state did.
\<close>

theorem fragment_faithful_below:
  assumes "segments eff \<noteq> []" "resolve eff c = Some v" "redact pol v = v" "is_ancestor_of eff p"
    and "effect_context [eff] (Some c) pol = Some fragment"
  shows "holds op expected initial (resolve p fragment) \<longleftrightarrow> holds op expected initial (resolve p c)"
  using effect_context_single_below[OF assms] by simp

lemma fragment_faithful_below_witness:
  "\<exists>fragment. effect_context [items_path] (Some two_items) (Some \<lparr>rp_patterns = [], rp_apply_defaults = False\<rparr>) = Some fragment \<and>
     (holds Op_Equals (JInt 1) None (resolve mug_path fragment) \<longleftrightarrow>
      holds Op_Equals (JInt 1) None (resolve mug_path two_items))"
proof -
  let ?pol = "Some \<lparr>rp_patterns = [], rp_apply_defaults = False\<rparr>"
  let ?v = "JObj [(lit ''mug'', JInt 1), (lit ''pen'', JInt 1)]"
  have r: "resolve items_path two_items = Some ?v"
    by (simp add: resolve_def items_path_def two_items_def)
  have id: "redact ?pol ?v = ?v" by (simp add: redact_def selects_def)
  obtain fragment where f: "effect_context [items_path] (Some two_items) ?pol = Some fragment"
    by (simp add: effect_context_def)
  have "segments items_path \<noteq> []" "is_ancestor_of items_path mug_path"
    by (simp_all add: items_path_def mug_path_def is_ancestor_of_def)
  then show ?thesis using fragment_faithful_below[OF _ r id _ f] f by blast
qed

text \<open>
  C16. Where the declared effect lies below the asserted path, it does not: the fragment is pruned
  to the declared subtree, so an assertion on the enclosing object that the observed state
  satisfied is contradicted by the fragment, and the tool is accused of a false success.
\<close>

definition pruned_event :: run_event where
  "pruned_event = (sample_event 4 Ev_ToolInvocationCompleted Ac_Agent ''add'')
     \<lparr>ev_post_call_effect_state :=
        effect_context [mug_path] (Some two_items) (Some \<lparr>rp_patterns = [], rp_apply_defaults = False\<rparr>)\<rparr>"


end
