(* ===== verification/Diff.thy ===== *)
theory Diff
  imports Canonical Redaction
begin

section \<open>The full-state diff\<close>

text \<open>
  \<open>engine/diff.py\<close>: the decimal-aware comparison of two JSON values, the recursive walk that
  emits one change per leaf and one per added or removed subtree, and the bounded canonical
  excerpts. An excerpt is refused where canonicalization is, and a namespace that is no path
  segment is an error; both are values of the result.
\<close>

subsection \<open>Comparison\<close>

text \<open>\<open>-?(?:0|[1-9][0-9]*)(?:\.[0-9]+)?\<close>, the whole text\<close>

definition plain_integer :: "pystr \<Rightarrow> bool" where
  "plain_integer s \<longleftrightarrow> s = [48] \<or> (s \<noteq> [] \<and> hd s \<noteq> 48 \<and> (\<forall>c\<in>set s. is_digit c))"

definition plain_unsigned :: "pystr \<Rightarrow> bool" where
  "plain_unsigned s =
     (case split_on 46 s of
        [i] \<Rightarrow> plain_integer i
      | [i, f] \<Rightarrow> plain_integer i \<and> f \<noteq> [] \<and> (\<forall>c\<in>set f. is_digit c)
      | _ \<Rightarrow> False)"

definition plain_decimal :: "pystr \<Rightarrow> bool" where
  "plain_decimal s = (case s of [] \<Rightarrow> False | c # cs \<Rightarrow> if c = 45 then plain_unsigned cs else plain_unsigned s)"

fun is_number :: "json \<Rightarrow> bool" where
  "is_number (JInt _) = True"
| "is_number (JFloat _) = True"
| "is_number _ = False"

text \<open>\<open>_as_decimal\<close>: the exact value of the decimal text of a number, or of a plain string\<close>

fun as_decimal :: "json \<Rightarrow> rat option" where
  "as_decimal (JInt i) = Some (of_int i)"
| "as_decimal (JFloat x) = (case x of Finite r \<Rightarrow> Some (float_repr_value r) | _ \<Rightarrow> None)"
| "as_decimal (JStr s) =
     (if plain_decimal s then map_option dec_value (decimal_of_text s) else None)"
| "as_decimal _ = None"

text \<open>\<open>==\<close> of two values that are both numbers or both strings\<close>

fun scalar_eq :: "json \<Rightarrow> json \<Rightarrow> bool" where
  "scalar_eq (JStr s) (JStr t) = (s = t)"
| "scalar_eq (JInt i) (JInt j) = (i = j)"
| "scalar_eq (JInt i) (JFloat y) = int_float_eq i y"
| "scalar_eq (JFloat x) (JInt j) = int_float_eq j x"
| "scalar_eq (JFloat x) (JFloat y) = float_eq x y"
| "scalar_eq _ _ = False"

definition decimal_rule :: "json \<Rightarrow> json \<Rightarrow> bool" where
  "decimal_rule v w =
     (case (as_decimal v, as_decimal w) of
        (Some x, Some y) \<Rightarrow> x = y
      | _ \<Rightarrow> scalar_eq v w)"

fun diff_equal :: "json \<Rightarrow> json \<Rightarrow> bool" where
  "diff_equal (JObj kvs) r =
     (case r of
        JObj kvs' \<Rightarrow>
          set (map fst kvs) = set (map fst kvs') \<and>
          (\<forall>kv\<in>set kvs. case map_of kvs' (fst kv) of None \<Rightarrow> False | Some w \<Rightarrow> diff_equal (snd kv) w)
      | _ \<Rightarrow> False)"
| "diff_equal (JArr xs) r =
     (case r of
        JArr ys \<Rightarrow> length xs = length ys \<and> (\<forall>p\<in>set (zip xs ys). diff_equal (fst p) (snd p))
      | _ \<Rightarrow> False)"
| "diff_equal (JStr s) r = (case r of JStr t \<Rightarrow> decimal_rule (JStr s) r | _ \<Rightarrow> False)"
| "diff_equal (JInt i) r = (if is_number r then decimal_rule (JInt i) r else False)"
| "diff_equal (JFloat x) r = (if is_number r then decimal_rule (JFloat x) r else False)"
| "diff_equal (JBool a) r = (case r of JBool b \<Rightarrow> a = b | _ \<Rightarrow> False)"
| "diff_equal JNull r = (case r of JNull \<Rightarrow> True | _ \<Rightarrow> False)"

definition values_differ :: "json \<Rightarrow> json \<Rightarrow> bool" where
  "values_differ before after \<longleftrightarrow> \<not> diff_equal before after"

subsection \<open>Changes\<close>

datatype change_kind = Added | Removed | Changed

fun change_kind_value :: "change_kind \<Rightarrow> pystr" where
  "change_kind_value Added = lit ''added''"
| "change_kind_value Removed = lit ''removed''"
| "change_kind_value Changed = lit ''changed''"

record state_change =
  sc_path :: observation_path
  sc_kind :: change_kind
  sc_before :: "pystr option"
  sc_after :: "pystr option"

definition opt_str :: "pystr option \<Rightarrow> json" where
  "opt_str s = (case s of None \<Rightarrow> JNull | Some t \<Rightarrow> JStr t)"

definition change_document :: "state_change \<Rightarrow> json" where
  "change_document c = JObj
     [(lit ''path'', JStr (path_str (sc_path c))), (lit ''kind'', JStr (change_kind_value (sc_kind c))),
      (lit ''before'', opt_str (sc_before c)), (lit ''after'', opt_str (sc_after c))]"

datatype diff_error = NamespaceNotSegment "pystr list" | ExcerptRefused canon_error

definition excerpt :: "nat \<Rightarrow> json \<Rightarrow> diff_error + pystr" where
  "excerpt limit v =
     (case canonical_text v of
        Inl e \<Rightarrow> Inl (ExcerptRefused e)
      | Inr t \<Rightarrow> Inr (tt_text (bounded_summary t limit)))"

text \<open>\<open>_change\<close>: the before side is rendered first.\<close>

definition excerpt_unless :: "bool \<Rightarrow> nat \<Rightarrow> json \<Rightarrow> diff_error + pystr option" where
  "excerpt_unless absent limit v =
     (if absent then Inr None else bind_result (excerpt limit v) (\<lambda>t. Inr (Some t)))"

definition make_change ::
  "nat \<Rightarrow> pystr list \<Rightarrow> change_kind \<Rightarrow> json \<Rightarrow> json \<Rightarrow> diff_error + state_change" where
  "make_change limit path kind before after =
     bind_result (excerpt_unless (kind = Added) limit before) (\<lambda>b.
       bind_result (excerpt_unless (kind = Removed) limit after) (\<lambda>a.
         Inr \<lparr>sc_path = Path path, sc_kind = kind, sc_before = b, sc_after = a\<rparr>))"

definition one_change ::
  "nat \<Rightarrow> pystr list \<Rightarrow> change_kind \<Rightarrow> json \<Rightarrow> json \<Rightarrow> diff_error + state_change list" where
  "one_change limit path kind before after =
     bind_result (make_change limit path kind before after) (\<lambda>c. Inr [c])"

definition unless_equal :: "nat \<Rightarrow> pystr list \<Rightarrow> json \<Rightarrow> json \<Rightarrow> diff_error + state_change list" where
  "unless_equal limit path before after =
     (if diff_equal before after then Inr [] else one_change limit path Changed before after)"

definition unrepresentable :: "jobject \<Rightarrow> jobject \<Rightarrow> pystr list" where
  "unrepresentable kvs kvs' =
     sorted_set (filter (\<lambda>k. \<not> is_valid_segment k) (map fst kvs @ map fst kvs'))"

definition concat_result :: "('e + 'a list list) \<Rightarrow> 'e + 'a list" where
  "concat_result r = bind_result r (\<lambda>xss. Inr (concat xss))"

subsection \<open>The walk\<close>

lemma size_map_of:
  "map_of kvs k = Some v \<Longrightarrow> size v < Suc (size_list (size_prod (\<lambda>_. 0) size) kvs)"
  by (drule map_of_SomeD) (rule size_member)

lemma size_nth_element:
  "i < length xs \<Longrightarrow> size (xs ! i) < Suc (size_list size xs)"
  by (simp add: size_element)

function diff_walk :: "nat \<Rightarrow> pystr list \<Rightarrow> json \<Rightarrow> json \<Rightarrow> diff_error + state_change list" where
  "diff_walk limit path (JObj kvs) after =
     (case after of
        JObj kvs' \<Rightarrow>
          (let bad = unrepresentable kvs kvs' in
           if bad \<noteq> [] \<and> path = [] then Inl (NamespaceNotSegment bad)
           else if bad \<noteq> [] then unless_equal limit path (JObj kvs) after
           else concat_result (map_result (\<lambda>k.
             case map_of kvs k of
               Some b \<Rightarrow>
                 (case map_of kvs' k of
                    Some a \<Rightarrow> diff_walk limit (path @ [k]) b a
                  | None \<Rightarrow> one_change limit (path @ [k]) Removed b JNull)
             | None \<Rightarrow>
                 (case map_of kvs' k of
                    Some a \<Rightarrow> one_change limit (path @ [k]) Added JNull a
                  | None \<Rightarrow> Inr []))
             (sorted_set (map fst kvs @ map fst kvs'))))
      | _ \<Rightarrow> unless_equal limit path (JObj kvs) after)"
| "diff_walk limit path (JArr xs) after =
     (case after of
        JArr ys \<Rightarrow>
          concat_result (map_result (\<lambda>i.
            if i < length xs then
              (if i < length ys then diff_walk limit (path @ [show_nat i]) (xs ! i) (ys ! i)
               else one_change limit (path @ [show_nat i]) Removed (xs ! i) JNull)
            else one_change limit (path @ [show_nat i]) Added JNull (ys ! i))
            [0..<max (length xs) (length ys)])
      | _ \<Rightarrow> unless_equal limit path (JArr xs) after)"
| "diff_walk limit path JNull after = unless_equal limit path JNull after"
| "diff_walk limit path (JBool b) after = unless_equal limit path (JBool b) after"
| "diff_walk limit path (JInt i) after = unless_equal limit path (JInt i) after"
| "diff_walk limit path (JFloat x) after = unless_equal limit path (JFloat x) after"
| "diff_walk limit path (JStr s) after = unless_equal limit path (JStr s) after"
  by pat_completeness auto
termination
  by (relation "measure (\<lambda>(limit, path, before, after). size before)")
    (auto intro: size_map_of size_nth_element)

definition max_change_excerpt_chars :: nat where
  "max_change_excerpt_chars = max_finding_value_chars"

definition diff_states_bounded :: "nat \<Rightarrow> jobject \<Rightarrow> jobject \<Rightarrow> diff_error + state_change list" where
  "diff_states_bounded limit before after =
     bind_result (diff_walk limit [] (JObj before) (JObj after))
       (\<lambda>changes. Inr (sort_key (\<lambda>c. path_str (sc_path c)) changes))"

definition diff_states :: "jobject \<Rightarrow> jobject \<Rightarrow> diff_error + state_change list" where
  "diff_states before after = diff_states_bounded max_change_excerpt_chars before after"

definition changed_paths_of :: "state_change list \<Rightarrow> observation_path list" where
  "changed_paths_of changes = map sc_path changes"

subsection \<open>The comparison is an equivalence that resolution respects\<close>

lemma decimal_rule_refl: "v \<noteq> JFloat NaN \<Longrightarrow> is_number v \<or> (\<exists>s. v = JStr s) \<Longrightarrow> decimal_rule v v"
  by (cases v) (auto simp: decimal_rule_def float_eq_def split: option.splits)

lemma scalar_eq_sym: "scalar_eq v w = scalar_eq w v"
  by (cases v; cases w) (auto simp: float_eq_def)

lemma decimal_rule_sym: "decimal_rule v w = decimal_rule w v"
  by (auto simp: decimal_rule_def scalar_eq_sym split: option.splits)

lemma diff_equal_type_of: "diff_equal v w \<Longrightarrow> type_of v = type_of w"
  by (cases v; cases w) auto

lemma diff_equal_refl: "wf_json v \<Longrightarrow> nan_free v \<Longrightarrow> diff_equal v v"
proof (induction v)
  case (JArr xs)
  then show ?case by (auto simp: zip_same_conv_map)
next
  case (JObj kvs)
  have "map_of kvs (fst kv) = Some (snd kv)" if "kv \<in> set kvs" for kv
    using JObj.prems(1) that by (simp add: map_of_eq_Some_iff)
  moreover have "diff_equal (snd kv) (snd kv)" if "kv \<in> set kvs" for kv
  proof -
    have "wf_json (snd kv)" "nan_free (snd kv)" using JObj.prems that by simp_all
    then show ?thesis using JObj.IH[of kv "snd kv"] that by (cases kv) simp
  qed
  ultimately show ?case by simp
qed (auto intro: decimal_rule_refl)

lemma diff_equal_objects:
  "diff_equal (JObj kvs) (JObj kvs') \<longleftrightarrow>
     fst ` set kvs = fst ` set kvs' \<and>
     (\<forall>kv\<in>set kvs. \<exists>w. map_of kvs' (fst kv) = Some w \<and> diff_equal (snd kv) w)"
  by (auto split: option.splits)

lemma diff_equal_arrays:
  "diff_equal (JArr xs) (JArr ys) \<longleftrightarrow>
     length xs = length ys \<and> (\<forall>i<length xs. diff_equal (xs ! i) (ys ! i))"
  by (auto simp: all_set_conv_all_nth)

text \<open>Two resolutions agree: both missing, or both present and equal.\<close>

definition same_resolution :: "resolution \<Rightarrow> resolution \<Rightarrow> bool" where
  "same_resolution r r' \<longleftrightarrow>
     (case (r, r') of
        (None, None) \<Rightarrow> True | (Some v, Some w) \<Rightarrow> diff_equal v w | _ \<Rightarrow> False)"

lemma same_resolution_simps [simp]:
  "same_resolution None None" "\<not> same_resolution None (Some w)" "\<not> same_resolution (Some v) None"
  "same_resolution (Some v) (Some w) = diff_equal v w"
  by (simp_all add: same_resolution_def)

lemma map_of_None_keys: "map_of kvs k = None \<longleftrightarrow> k \<notin> fst ` set kvs"
  by (simp add: map_of_eq_None_iff)

lemma step_same_resolution:
  assumes e: "diff_equal v w" shows "same_resolution (step v s) (step w s)"
proof -
  consider (obj) kvs where "v = JObj kvs" | (arr) xs where "v = JArr xs"
    | (scalar) "type_of v \<noteq> TObject" "type_of v \<noteq> TArray"
    by (cases v) auto
  then show ?thesis
  proof cases
    case obj
    then obtain kvs' where w: "w = JObj kvs'" using e by (auto split: json.splits)
    show ?thesis
    proof (cases "map_of kvs s")
      case None
      then have "map_of kvs' s = None"
        using e unfolding obj w diff_equal_objects map_of_None_keys by simp
      then show ?thesis using None by (simp add: obj w)
    next
      case (Some b)
      then have "(s, b) \<in> set kvs" by (rule map_of_SomeD)
      then obtain a where "map_of kvs' s = Some a" "diff_equal b a"
        using e unfolding obj w diff_equal_objects by fastforce
      then show ?thesis using Some by (simp add: obj w)
    qed
  next
    case arr
    then obtain ys where w: "w = JArr ys" using e by (auto split: json.splits)
    show ?thesis using e unfolding arr w diff_equal_arrays by (auto simp: Let_def not_le)
  next
    case scalar
    then have "step v s = None" "step w s = None"
      using diff_equal_type_of[OF e] by (simp_all add: step_scalar)
    then show ?thesis by simp
  qed
qed

lemma walk_same_resolution: "diff_equal v w \<Longrightarrow> same_resolution (walk ss v) (walk ss w)"
proof (induction ss arbitrary: v w)
  case (Cons s ss)
  have s: "same_resolution (step v s) (step w s)" using Cons.prems by (rule step_same_resolution)
  then show ?case using Cons.IH
    by (cases "step v s"; cases "step w s") auto
qed simp

subsection \<open>What the walk emits\<close>

lemma one_change_Inr:
  "one_change limit path kind b a = Inr cs \<Longrightarrow>
   \<exists>c. cs = [c] \<and> sc_path c = Path path \<and> sc_kind c = kind \<and>
     (sc_before c = None \<longleftrightarrow> kind = Added) \<and> (sc_after c = None \<longleftrightarrow> kind = Removed)"
  by (auto simp: one_change_def make_change_def excerpt_unless_def bind_result_Inr split: if_splits)

lemma unless_equal_Inr:
  "unless_equal limit path b a = Inr cs \<Longrightarrow>
   (diff_equal b a \<and> cs = []) \<or>
   (\<not> diff_equal b a \<and> (\<exists>c. cs = [c] \<and> sc_path c = Path path \<and> sc_kind c = Changed \<and>
     sc_before c \<noteq> None \<and> sc_after c \<noteq> None))"
  by (auto simp: unless_equal_def split: if_splits dest!: one_change_Inr)

lemma concat_result_Inr:
  "concat_result (map_result f xs) = Inr cs \<longleftrightarrow>
     (\<exists>css. list_all2 (\<lambda>x ys. f x = Inr ys) xs css \<and> cs = concat css)"
  by (auto simp: concat_result_def bind_result_Inr map_result_Inr_conv)

lemma concat_result_mem:
  assumes "concat_result (map_result f xs) = Inr cs"
  shows "c \<in> set cs \<longleftrightarrow> (\<exists>x\<in>set xs. \<exists>ys. f x = Inr ys \<and> c \<in> set ys)"
    and "x \<in> set xs \<Longrightarrow> \<exists>ys. f x = Inr ys \<and> set ys \<subseteq> set cs"
proof -
  obtain css where c: "list_all2 (\<lambda>x ys. f x = Inr ys) xs css" "cs = concat css"
    using assms by (auto simp: concat_result_Inr)
  show "c \<in> set cs \<longleftrightarrow> (\<exists>x\<in>set xs. \<exists>ys. f x = Inr ys \<and> c \<in> set ys)"
    unfolding c(2) using c(1) by (induction rule: list_all2_induct) auto
  show "x \<in> set xs \<Longrightarrow> \<exists>ys. f x = Inr ys \<and> set ys \<subseteq> set cs"
    unfolding c(2) using c(1) by (induction rule: list_all2_induct) auto
qed

text \<open>A decimal segment of the grammar is the printed form of the index it reads as.\<close>

lemma show_read_nat:
  "s \<noteq> [] \<Longrightarrow> hd s \<noteq> 48 \<Longrightarrow> \<forall>c\<in>set s. is_digit c \<Longrightarrow> 0 < read_nat s 0 \<and> show_nat (read_nat s 0) = s"
proof (induction s rule: rev_induct)
  case (snoc d t)
  have "48 \<le> d" "d \<le> 57" using snoc.prems(3) by (auto simp: is_digit_def)
  then obtain e where d: "d = 48 + e" "e \<le> 9"
    by (intro that[of "d - 48"]) auto
  show ?case
  proof (cases "t = []")
    case True
    then show ?thesis using snoc.prems(2) d by (simp add: show_nat.simps)
  next
    case False
    then have IH: "0 < read_nat t 0" "show_nat (read_nat t 0) = t"
      using snoc by auto
    let ?n = "10 * read_nat t 0 + e"
    have r: "read_nat (t @ [d]) 0 = ?n" using d by (simp add: read_nat_append)
    have sn: "show_nat ?n = show_nat (?n div 10) @ [48 + ?n mod 10]"
      using IH(1) by (subst show_nat.simps) auto
    have "?n div 10 = read_nat t 0" "?n mod 10 = e" using d by auto
    then have "show_nat ?n = t @ [d]" using sn IH(2) d(1) by simp
    then show ?thesis using IH(1) r by simp
  qed
qed simp

lemma show_nat_zero: "show_nat 0 = [48]"
  by (simp add: show_nat.simps)

lemma segment_index: "segment_body s \<Longrightarrow> all_digits s \<Longrightarrow> show_nat (read_nat s 0) = s"
proof (cases "s = [48]")
  case False
  assume "segment_body s" "all_digits s"
  then have "s \<noteq> []" "hd s \<noteq> 48" "\<forall>c\<in>set s. is_digit c"
    using False by (cases s; auto simp: is_letter_def is_digit_def)+
  then show ?thesis using show_read_nat by blast
qed (simp add: show_nat_zero)

lemma all_digits_show_nat [simp]: "all_digits (show_nat i)"
  using show_nat_digits by (auto simp: is_digit_def)

lemma step_index: "step (JArr xs) (show_nat i) = (if i < length xs then Some (xs ! i) else None)"
  by (simp add: Let_def del: all_digits.simps)

lemma wf_step: "wf_json v \<Longrightarrow> step v s = Some w \<Longrightarrow> wf_json w"
  by (cases v) (auto dest!: map_of_SomeD simp: Let_def split: if_splits)

text \<open>One child of a pair of containers, whichever kind they are\<close>

definition child_diff ::
  "nat \<Rightarrow> pystr list \<Rightarrow> json \<Rightarrow> json \<Rightarrow> pystr \<Rightarrow> diff_error + state_change list" where
  "child_diff limit path before after k =
     (case step before k of
        Some b \<Rightarrow>
          (case step after k of
             Some a \<Rightarrow> diff_walk limit (path @ [k]) b a
           | None \<Rightarrow> one_change limit (path @ [k]) Removed b JNull)
      | None \<Rightarrow>
          (case step after k of
             Some a \<Rightarrow> one_change limit (path @ [k]) Added JNull a
           | None \<Rightarrow> Inr []))"

lemma diff_walk_objects:
  "unrepresentable kvs kvs' = [] \<Longrightarrow>
   diff_walk limit path (JObj kvs) (JObj kvs') =
     concat_result (map_result (child_diff limit path (JObj kvs) (JObj kvs'))
       (sorted_set (map fst kvs @ map fst kvs')))"
proof -
  have "child_diff limit path (JObj kvs) (JObj kvs') = (\<lambda>k.
      case map_of kvs k of
        Some b \<Rightarrow>
          (case map_of kvs' k of
             Some a \<Rightarrow> diff_walk limit (path @ [k]) b a
           | None \<Rightarrow> one_change limit (path @ [k]) Removed b JNull)
      | None \<Rightarrow>
          (case map_of kvs' k of
             Some a \<Rightarrow> one_change limit (path @ [k]) Added JNull a
           | None \<Rightarrow> Inr []))"
    by (rule ext) (simp add: child_diff_def split: option.split)
  then show "unrepresentable kvs kvs' = [] \<Longrightarrow> ?thesis" by simp
qed

lemma diff_walk_arrays:
  "diff_walk limit path (JArr xs) (JArr ys) =
     concat_result (map_result (child_diff limit path (JArr xs) (JArr ys))
       (map show_nat [0..<max (length xs) (length ys)]))"
proof -
  have "map_result (child_diff limit path (JArr xs) (JArr ys)) (map show_nat ns) =
        map_result (\<lambda>i. child_diff limit path (JArr xs) (JArr ys) (show_nat i)) ns" for ns
    by (induction ns) (auto split: sum.splits)
  moreover have "map_result (\<lambda>i. child_diff limit path (JArr xs) (JArr ys) (show_nat i))
        [0..<max (length xs) (length ys)] =
      map_result (\<lambda>i.
            if i < length xs then
              (if i < length ys then diff_walk limit (path @ [show_nat i]) (xs ! i) (ys ! i)
               else one_change limit (path @ [show_nat i]) Removed (xs ! i) JNull)
            else one_change limit (path @ [show_nat i]) Added JNull (ys ! i))
            [0..<max (length xs) (length ys)]"
    by (rule map_result_cong) (auto simp: child_diff_def step_index simp del: step.simps)
  ultimately show ?thesis by simp
qed

lemma diff_equal_by_steps_objects:
  assumes "wf_json (JObj kvs)" "wf_json (JObj kvs')"
  shows "diff_equal (JObj kvs) (JObj kvs') \<longleftrightarrow>
    (\<forall>k\<in>set (map fst kvs @ map fst kvs'). same_resolution (step (JObj kvs) k) (step (JObj kvs') k))"
    (is "?L \<longleftrightarrow> ?R")
proof
  assume ?L
  then show ?R using step_same_resolution by blast
next
  assume R: ?R
  have sub: "k \<in> fst ` set kvs \<longleftrightarrow> k \<in> fst ` set kvs'" for k
  proof (cases "k \<in> set (map fst kvs @ map fst kvs')")
    case True
    then have s: "same_resolution (map_of kvs k) (map_of kvs' k)" using R by simp
    show ?thesis
      using s map_of_None_keys[of kvs k] map_of_None_keys[of kvs' k]
      by (cases "map_of kvs k"; cases "map_of kvs' k") auto
  qed auto
  have "\<exists>w. map_of kvs' (fst kv) = Some w \<and> diff_equal (snd kv) w" if kv: "kv \<in> set kvs" for kv
  proof -
    have "map_of kvs (fst kv) = Some (snd kv)" using assms(1) kv by (simp add: map_of_eq_Some_iff)
    moreover have "same_resolution (map_of kvs (fst kv)) (map_of kvs' (fst kv))" using R kv by auto
    ultimately show ?thesis by (cases "map_of kvs' (fst kv)") auto
  qed
  moreover have "fst ` set kvs = fst ` set kvs'" using sub by blast
  ultimately show ?L unfolding diff_equal_objects by blast
qed

lemma diff_equal_by_steps_arrays:
  "diff_equal (JArr xs) (JArr ys) \<longleftrightarrow>
    (\<forall>k\<in>set (map show_nat [0..<max (length xs) (length ys)]).
       same_resolution (step (JArr xs) k) (step (JArr ys) k))"
    (is "?L \<longleftrightarrow> ?R")
proof
  assume ?L
  then show ?R using step_same_resolution by blast
next
  assume R: ?R
  have s: "same_resolution (if i < length xs then Some (xs ! i) else None)
      (if i < length ys then Some (ys ! i) else None)" if "i < max (length xs) (length ys)" for i
    using R that by (simp add: step_index del: step.simps)
  have "length xs = length ys"
  proof (rule ccontr)
    assume "length xs \<noteq> length ys"
    then consider "length xs < length ys" | "length ys < length xs" by linarith
    then show False
      using s[of "length xs"] s[of "length ys"] by cases auto
  qed
  moreover have "diff_equal (xs ! i) (ys ! i)" if "i < length xs" for i
    using s[of i] that calculation by auto
  ultimately show ?L unfolding diff_equal_arrays by simp
qed

lemma unrepresentable_Nil:
  "unrepresentable kvs kvs' = [] \<longleftrightarrow> (\<forall>k\<in>set (map fst kvs @ map fst kvs'). is_valid_segment k)"
  by (auto simp: unrepresentable_def filter_empty_conv)

text \<open>
  The walk either compares a pair as a whole, or works child by child on two containers of the
  same kind; the rule below is the one induction all facts about it need.
\<close>

lemma diff_walk_induct [consumes 3, case_names whole children]:
  assumes "diff_walk limit path before after = Inr cs" "wf_json before" "wf_json after"
    and whole: "\<And>path before after cs.
      unless_equal limit path before after = Inr cs \<Longrightarrow> wf_json before \<Longrightarrow> wf_json after \<Longrightarrow>
      P path before after cs"
    and children: "\<And>path before after cs keys.
      concat_result (map_result (child_diff limit path before after) keys) = Inr cs \<Longrightarrow>
      wf_json before \<Longrightarrow> wf_json after \<Longrightarrow> distinct keys \<Longrightarrow>
      (\<And>k. k \<in> set keys \<Longrightarrow> is_valid_segment k) \<Longrightarrow>
      (\<And>k. k \<in> set keys \<Longrightarrow> step before k \<noteq> None \<or> step after k \<noteq> None) \<Longrightarrow>
      (\<And>k. segment_body k \<Longrightarrow> step before k \<noteq> None \<or> step after k \<noteq> None \<Longrightarrow> k \<in> set keys) \<Longrightarrow>
      (diff_equal before after \<longleftrightarrow> (\<forall>k\<in>set keys. same_resolution (step before k) (step after k))) \<Longrightarrow>
      (\<And>k b a ys. k \<in> set keys \<Longrightarrow> step before k = Some b \<Longrightarrow> step after k = Some a \<Longrightarrow>
         diff_walk limit (path @ [k]) b a = Inr ys \<Longrightarrow> P (path @ [k]) b a ys) \<Longrightarrow>
      P path before after cs"
  shows "P path before after cs"
  using assms(1-3)
proof (induction "size before" arbitrary: path before after cs rule: less_induct)
  case less
  have IH: "P (path @ [k]) b a ys"
    if "step before k = Some b" "step after k = Some a" "diff_walk limit (path @ [k]) b a = Inr ys"
      "size b < size before" for k b a ys
    using less.hyps[OF that(4) that(3)] wf_step that less.prems by blast
  consider (obj) kvs kvs' where "before = JObj kvs" "after = JObj kvs'"
    | (arr) xs ys where "before = JArr xs" "after = JArr ys"
    | (other) "diff_walk limit path before after = unless_equal limit path before after"
    by (cases before; cases after) auto
  then show ?case
  proof cases
    case obj
    show ?thesis
    proof (cases "unrepresentable kvs kvs' = []")
      case True
      show ?thesis
      proof (rule children)
        show "concat_result (map_result (child_diff limit path before after)
            (sorted_set (map fst kvs @ map fst kvs'))) = Inr cs"
          using less.prems(1) True by (simp only: obj diff_walk_objects)
        show "step before k \<noteq> None \<or> step after k \<noteq> None"
          if "k \<in> set (sorted_set (map fst kvs @ map fst kvs'))" for k
          using that by (auto simp: obj map_of_eq_None_iff)
        show "k \<in> set (sorted_set (map fst kvs @ map fst kvs'))"
          if "step before k \<noteq> None \<or> step after k \<noteq> None" for k
          using that by (auto simp: obj dest!: map_of_SomeD intro: rev_image_eqI)
        show "is_valid_segment k" if "k \<in> set (sorted_set (map fst kvs @ map fst kvs'))" for k
          using that True by (simp add: unrepresentable_Nil)
        show "diff_equal before after \<longleftrightarrow> (\<forall>k\<in>set (sorted_set (map fst kvs @ map fst kvs')).
            same_resolution (step before k) (step after k))"
          using diff_equal_by_steps_objects[of kvs kvs'] less.prems(2,3) unfolding obj by simp
        show "P (path @ [k]) b a ys"
          if "step before k = Some b" "step after k = Some a" "diff_walk limit (path @ [k]) b a = Inr ys"
          for k b a ys
          using IH[OF that] that(1) size_map_of[of kvs k b] by (simp add: obj)
      qed (use less.prems in auto)
    next
      case False
      then have "unless_equal limit path before after = Inr cs"
        using less.prems(1) by (auto simp: obj Let_def split: if_splits)
      then show ?thesis using whole less.prems by blast
    qed
  next
    case arr
    let ?keys = "map show_nat [0..<max (length xs) (length ys)]"
    show ?thesis
    proof (rule children)
      show "concat_result (map_result (child_diff limit path before after) ?keys) = Inr cs"
        using less.prems(1) by (simp only: arr diff_walk_arrays)
      show "distinct ?keys" by (simp add: distinct_map inj_on_def)
      show "step before k \<noteq> None \<or> step after k \<noteq> None" if "k \<in> set ?keys" for k
        using that by (auto simp: arr step_index simp del: step.simps split: if_splits)
      show "k \<in> set ?keys"
        if "segment_body k" "step before k \<noteq> None \<or> step after k \<noteq> None" for k
      proof -
        have "all_digits k" "read_nat k 0 < max (length xs) (length ys)"
          using that(2) by (auto simp: arr Let_def split: if_splits)
        then show ?thesis using segment_index[OF that(1)] by (auto intro!: image_eqI[of _ _ "read_nat k 0"])
      qed
      show "is_valid_segment k" if "k \<in> set ?keys" for k
        using that by (auto intro: is_valid_segment_body)
      show "diff_equal before after \<longleftrightarrow> (\<forall>k\<in>set ?keys. same_resolution (step before k) (step after k))"
        unfolding arr by (rule diff_equal_by_steps_arrays)
      show "P (path @ [k]) b a ys'"
        if "k \<in> set ?keys" "step before k = Some b" "step after k = Some a"
          "diff_walk limit (path @ [k]) b a = Inr ys'" for k b a ys'
      proof -
        have "\<exists>i<length xs. b = xs ! i"
          using that(1,2) by (auto simp: arr step_index simp del: step.simps split: if_splits)
        then have "size b < size before" using size_nth_element[of _ xs] by (auto simp: arr)
        then show ?thesis using IH that by blast
      qed
    qed (use less.prems in auto)
  next
    case other
    then show ?thesis using whole less.prems by auto
  qed
qed

lemma child_diff_equal:
  "child_diff limit path before after k = Inr ys \<Longrightarrow>
   (\<And>b a. step before k = Some b \<Longrightarrow> step after k = Some a \<Longrightarrow>
      diff_walk limit (path @ [k]) b a = Inr ys \<Longrightarrow> ys = [] \<longleftrightarrow> diff_equal b a) \<Longrightarrow>
   ys = [] \<longleftrightarrow> same_resolution (step before k) (step after k)"
  by (auto simp: child_diff_def split: option.splits dest: one_change_Inr)

lemma diff_walk_Nil_iff:
  assumes "diff_walk limit path before after = Inr cs" "wf_json before" "wf_json after"
  shows "cs = [] \<longleftrightarrow> diff_equal before after"
  using assms
proof (induction rule: diff_walk_induct)
  case (whole path before after cs)
  then show ?case by (auto dest!: unless_equal_Inr)
next
  case (children path before after cs keys)
  have each: "ys = [] \<longleftrightarrow> same_resolution (step before k) (step after k)"
    if "k \<in> set keys" "child_diff limit path before after k = Inr ys" for k ys
    using child_diff_equal[OF that(2)] children(9) that(1) by blast
  have "cs = [] \<longleftrightarrow> (\<forall>k\<in>set keys. \<forall>ys. child_diff limit path before after k = Inr ys \<longrightarrow> ys = [])"
  proof
    assume "cs = []"
    then show "\<forall>k\<in>set keys. \<forall>ys. child_diff limit path before after k = Inr ys \<longrightarrow> ys = []"
      using concat_result_mem(2)[OF children(1)] by fastforce
  next
    assume "\<forall>k\<in>set keys. \<forall>ys. child_diff limit path before after k = Inr ys \<longrightarrow> ys = []"
    then have "c \<notin> set cs" for c using concat_result_mem(1)[OF children(1), of c] by auto
    then show "cs = []" by (cases cs) auto
  qed
  also have "\<dots> \<longleftrightarrow> (\<forall>k\<in>set keys. same_resolution (step before k) (step after k))"
    using each concat_result_mem(2)[OF children(1)] by blast
  finally show ?case using children(8) by simp
qed

lemma child_diff_cases:
  assumes "child_diff limit path before after k = Inr ys" "c \<in> set ys"
  obtains (both) b a where "step before k = Some b" "step after k = Some a"
      "diff_walk limit (path @ [k]) b a = Inr ys"
  | (removed) b where "step before k = Some b" "step after k = None" "sc_kind c = Removed"
      "sc_path c = Path (path @ [k])" "ys = [c]"
  | (added) a where "step before k = None" "step after k = Some a" "sc_kind c = Added"
      "sc_path c = Path (path @ [k])" "ys = [c]"
  using assms by (auto simp: child_diff_def split: option.splits dest!: one_change_Inr)

text \<open>Every change is at a path where the two documents differ, and says how.\<close>

definition kind_of_difference :: "resolution \<Rightarrow> resolution \<Rightarrow> change_kind" where
  "kind_of_difference r r' = (if r = None then Added else if r' = None then Removed else Changed)"

lemma diff_walk_located:
  assumes "diff_walk limit path before after = Inr cs" "wf_json before" "wf_json after"
  shows "\<forall>c\<in>set cs. \<exists>q. segments (sc_path c) = path @ q \<and>
    \<not> same_resolution (walk q before) (walk q after) \<and>
    sc_kind c = kind_of_difference (walk q before) (walk q after)"
  using assms
proof (induction rule: diff_walk_induct)
  case (whole path before after cs)
  then show ?case
    by (auto dest!: unless_equal_Inr simp: kind_of_difference_def intro: exI[of _ "[]"])
next
  case (children path before after cs keys)
  show ?case
  proof
    fix c assume "c \<in> set cs"
    then obtain k ys where k: "k \<in> set keys" "child_diff limit path before after k = Inr ys" "c \<in> set ys"
      using concat_result_mem(1)[OF children(1)] by blast
    from k(2,3) show "\<exists>q. segments (sc_path c) = path @ q \<and>
      \<not> same_resolution (walk q before) (walk q after) \<and>
      sc_kind c = kind_of_difference (walk q before) (walk q after)"
    proof (cases rule: child_diff_cases)
      case (both b a)
      from children(9)[OF k(1) both] k(3) obtain q where
        "segments (sc_path c) = (path @ [k]) @ q" "\<not> same_resolution (walk q b) (walk q a)"
        "sc_kind c = kind_of_difference (walk q b) (walk q a)" by blast
      then show ?thesis using both by (intro exI[of _ "k # q"]) simp
    next
      case (removed b)
      then show ?thesis by (intro exI[of _ "[k]"]) (simp add: kind_of_difference_def)
    next
      case (added a)
      then show ?thesis by (intro exI[of _ "[k]"]) (simp add: kind_of_difference_def)
    qed
  qed
qed

text \<open>No difference hides: wherever a path of the grammar resolves differently, a change overlaps it.\<close>

lemma diff_walk_covers:
  assumes "diff_walk limit path before after = Inr cs" "wf_json before" "wf_json after"
  shows "\<forall>q. (\<forall>s\<in>set q. segment_body s) \<longrightarrow> \<not> same_resolution (walk q before) (walk q after) \<longrightarrow>
    (\<exists>c\<in>set cs. overlaps (Path (path @ q)) (sc_path c))"
  using assms
proof (induction rule: diff_walk_induct)
  case (whole path before after cs)
  show ?case
  proof (intro allI impI)
    fix q assume "\<not> same_resolution (walk q before) (walk q after)"
    then have "\<not> diff_equal before after" using walk_same_resolution by blast
    then obtain c where "cs = [c]" "sc_path c = Path path" using unless_equal_Inr[OF whole(1)] by blast
    then show "\<exists>c\<in>set cs. overlaps (Path (path @ q)) (sc_path c)"
      by (simp add: overlaps_def is_ancestor_of_prefix)
  qed
next
  case (children path before after cs keys)
  show ?case
  proof (intro allI impI)
    fix q assume seg: "\<forall>s\<in>set q. segment_body s"
      and differ: "\<not> same_resolution (walk q before) (walk q after)"
    show "\<exists>c\<in>set cs. overlaps (Path (path @ q)) (sc_path c)"
    proof (cases q)
      case Nil
      then have ne: "cs \<noteq> []"
      proof -
        have "\<not> diff_equal before after" using differ Nil by simp
        then obtain k where k: "k \<in> set keys" "\<not> same_resolution (step before k) (step after k)"
          using children(8) by blast
        obtain ys where ys: "child_diff limit path before after k = Inr ys" "set ys \<subseteq> set cs"
          using concat_result_mem(2)[OF children(1) k(1)] by blast
        have "ys \<noteq> []"
          using child_diff_equal[OF ys(1)] diff_walk_Nil_iff wf_step children(2,3) k(2) by blast
        then show ?thesis using ys(2) by auto
      qed
      then obtain c where c: "c \<in> set cs" by (cases cs) auto
      have "prefix path (segments (sc_path c))"
      proof -
        obtain k ys where k: "k \<in> set keys" "child_diff limit path before after k = Inr ys" "c \<in> set ys"
          using concat_result_mem(1)[OF children(1)] c by blast
        from k(2,3) show ?thesis
        proof (cases rule: child_diff_cases)
          case (both b a)
          then obtain q' where "segments (sc_path c) = (path @ [k]) @ q'"
            using diff_walk_located[OF both(3)] wf_step children(2,3) k(3) by blast
          then show ?thesis by simp
        qed auto
      qed
      then show ?thesis using c Nil by (auto simp: overlaps_def is_ancestor_of_prefix)
    next
      case (Cons k q')
      have "step before k \<noteq> None \<or> step after k \<noteq> None"
        using differ Cons by (cases "step before k"; cases "step after k") auto
      then have k: "k \<in> set keys" using children(7) seg Cons by simp
      obtain ys where ys: "child_diff limit path before after k = Inr ys" "set ys \<subseteq> set cs"
        using concat_result_mem(2)[OF children(1) k] by blast
      show ?thesis
      proof (cases "step before k"; cases "step after k")
        fix b a assume s: "step before k = Some b" "step after k = Some a"
        then have "diff_walk limit (path @ [k]) b a = Inr ys" using ys(1) by (simp add: child_diff_def)
        from children(9)[OF k s this] differ s seg Cons
        have "\<exists>c\<in>set ys. overlaps (Path ((path @ [k]) @ q')) (sc_path c)" by simp
        then show ?thesis using ys(2) Cons by auto
      next
        fix b assume s: "step before k = Some b" "step after k = None"
        then obtain c where "ys = [c]" "sc_path c = Path (path @ [k])"
          using ys(1) by (auto simp: child_diff_def dest!: one_change_Inr)
        then show ?thesis using ys(2) Cons
          by (intro bexI[of _ c]) (auto simp: overlaps_def is_ancestor_of_prefix)
      next
        fix a assume s: "step before k = None" "step after k = Some a"
        then obtain c where "ys = [c]" "sc_path c = Path (path @ [k])"
          using ys(1) by (auto simp: child_diff_def dest!: one_change_Inr)
        then show ?thesis using ys(2) Cons
          by (intro bexI[of _ c]) (auto simp: overlaps_def is_ancestor_of_prefix)
      next
        assume "step before k = None" "step after k = None"
        then show ?thesis using differ Cons by simp
      qed
    qed
  qed
qed

text \<open>The changed paths are pairwise apart: a subtree is reported once or through its leaves.\<close>

definition apart :: "state_change list \<Rightarrow> bool" where
  "apart cs \<longleftrightarrow> distinct (map sc_path cs) \<and>
     (\<forall>c\<in>set cs. \<forall>d\<in>set cs. overlaps (sc_path c) (sc_path d) \<longrightarrow> sc_path c = sc_path d)"

lemma different_children_apart:
  assumes "prefix (path @ [k]) (segments p)" "prefix (path @ [k']) (segments q)" "k \<noteq> k'"
  shows "\<not> overlaps p q"
  using assms by (auto simp: overlaps_def is_ancestor_of_prefix prefix_def append_eq_append_conv2)

lemma apart_concat:
  assumes "list_all2 (\<lambda>k ys. apart ys \<and> (\<forall>c\<in>set ys. prefix (path @ [k]) (segments (sc_path c)))) keys css"
    and "distinct keys"
  shows "apart (concat css) \<and>
    (\<forall>c\<in>set (concat css). \<exists>k\<in>set keys. prefix (path @ [k]) (segments (sc_path c)))"
  using assms
proof (induction keys css rule: list_all2_induct)
  case Nil
  then show ?case by (simp add: apart_def)
next
  case (Cons k keys ys css)
  then have rest: "apart (concat css)"
    "\<forall>c\<in>set (concat css). \<exists>k'\<in>set keys. prefix (path @ [k']) (segments (sc_path c))"
    and here: "apart ys" "\<forall>c\<in>set ys. prefix (path @ [k]) (segments (sc_path c))"
    and k: "k \<notin> set keys" by auto
  have cross: "\<not> overlaps (sc_path c) (sc_path d)" if c: "c \<in> set ys" and d: "d \<in> set (concat css)" for c d
  proof -
    obtain k' where "k' \<in> set keys" "prefix (path @ [k']) (segments (sc_path d))" using rest(2) d by blast
    then show ?thesis using different_children_apart here(2) c k by metis
  qed
  have "set (map sc_path ys) \<inter> set (map sc_path (concat css)) = {}"
    using cross by fastforce
  moreover have "\<not> overlaps (sc_path d) (sc_path c)" if "c \<in> set ys" "d \<in> set (concat css)" for c d
    using cross[OF that] by (simp add: overlaps_sym)
  ultimately have "apart (ys @ concat css)"
    using rest(1) here(1) cross unfolding apart_def by (auto simp del: set_concat)
  then show ?case using rest(2) here(2) by auto
qed

lemma diff_walk_apart:
  assumes "diff_walk limit path before after = Inr cs" "wf_json before" "wf_json after"
  shows "apart cs \<and> (\<forall>c\<in>set cs. prefix path (segments (sc_path c)))"
  using assms
proof (induction rule: diff_walk_induct)
  case (whole path before after cs)
  then show ?case by (auto dest!: unless_equal_Inr simp: apart_def)
next
  case (children path before after cs keys)
  have each: "apart ys \<and> (\<forall>c\<in>set ys. prefix (path @ [k]) (segments (sc_path c)))"
    if "k \<in> set keys" "child_diff limit path before after k = Inr ys" for k ys
  proof (cases "step before k"; cases "step after k")
    fix b a assume s: "step before k = Some b" "step after k = Some a"
    then have "diff_walk limit (path @ [k]) b a = Inr ys" using that(2) by (simp add: child_diff_def)
    then show ?thesis using children(9)[OF that(1) s] by blast
  qed (use that(2) in \<open>auto simp: child_diff_def apart_def dest!: one_change_Inr\<close>)
  obtain css where css: "list_all2 (\<lambda>k ys. child_diff limit path before after k = Inr ys) keys css"
    "cs = concat css" using children(1) by (auto simp: concat_result_Inr)
  have "list_all2 (\<lambda>k ys. apart ys \<and> (\<forall>c\<in>set ys. prefix (path @ [k]) (segments (sc_path c)))) keys css"
    using css(1) by (rule list.rel_mono_strong) (rule each)
  from apart_concat[OF this children(4)] show ?case
    using css(2) by (auto dest: append_prefixD)
qed

subsection \<open>The diff of two contexts\<close>

lemma diff_states_bounded_Inr:
  assumes "diff_states_bounded limit before after = Inr cs"
  obtains ws where "diff_walk limit [] (JObj before) (JObj after) = Inr ws"
    "cs = sort_key (\<lambda>c. path_str (sc_path c)) ws"
  using assms by (auto simp: diff_states_bounded_def bind_result_Inr)

lemma resolve_walk: "resolve p ctx = walk (segments p) (JObj ctx)"
  by (simp add: resolve_def)

lemma diff_states_covers:
  assumes "diff_states before after = Inr cs" "wf_json (JObj before)" "wf_json (JObj after)"
    and "wf_path p" "\<not> same_resolution (resolve p before) (resolve p after)"
  obtains c where "c \<in> set cs" "overlaps p (sc_path c)"
proof -
  obtain ws where w: "diff_walk max_change_excerpt_chars [] (JObj before) (JObj after) = Inr ws"
    and cs: "cs = sort_key (\<lambda>c. path_str (sc_path c)) ws"
    using assms(1) unfolding diff_states_def by (rule diff_states_bounded_Inr)
  then show ?thesis
    using that diff_walk_covers[OF w assms(2,3)] assms(4,5)
    by (cases p) (auto simp: resolve_walk wf_path_def)
qed

text \<open>
  C17. The diff is complete and sound. It is empty exactly when the two documents are equal under
  the decimal rule; each change sits at a path where they differ and its kind says how; wherever
  a path of the grammar resolves differently, some change overlaps it; and no two changes
  overlap, so nothing is counted twice.
\<close>

theorem diff_complete:
  assumes "diff_states before after = Inr cs" "wf_json (JObj before)" "wf_json (JObj after)"
  shows "(cs = [] \<longleftrightarrow> diff_equal (JObj before) (JObj after)) \<and>
    (\<forall>c\<in>set cs. \<not> same_resolution (resolve (sc_path c) before) (resolve (sc_path c) after) \<and>
       sc_kind c = kind_of_difference (resolve (sc_path c) before) (resolve (sc_path c) after)) \<and>
    (\<forall>p. wf_path p \<longrightarrow> \<not> same_resolution (resolve p before) (resolve p after) \<longrightarrow>
       (\<exists>c\<in>set cs. overlaps p (sc_path c))) \<and>
    (\<forall>c\<in>set cs. \<forall>d\<in>set cs. overlaps (sc_path c) (sc_path d) \<longrightarrow> sc_path c = sc_path d)"
proof -
  obtain ws where w: "diff_walk max_change_excerpt_chars [] (JObj before) (JObj after) = Inr ws"
    and cs: "cs = sort_key (\<lambda>c. path_str (sc_path c)) ws"
    using assms(1) unfolding diff_states_def by (rule diff_states_bounded_Inr)
  have s: "set cs = set ws" by (simp add: cs)
  have e: "cs = [] \<longleftrightarrow> diff_equal (JObj before) (JObj after)"
    using diff_walk_Nil_iff[OF w assms(2,3)] s by (metis set_empty)
  have "\<exists>c\<in>set cs. overlaps p (sc_path c)"
    if "wf_path p" "\<not> same_resolution (resolve p before) (resolve p after)" for p
    using diff_states_covers[OF assms that] by blast
  with e show ?thesis
    using diff_walk_located[OF w assms(2,3)] diff_walk_apart[OF w assms(2,3)] s
    by (simp add: resolve_walk apart_def del: diff_equal.simps)
qed

lemma valid_segments_small [simp]:
  "is_valid_segment (lit ''t'')" "is_valid_segment (lit ''a'')" "is_valid_segment [97, 10]"
  by (simp_all add: is_valid_segment_def lit_def is_letter_def is_digit_def)

lemma excerpt_true: "excerpt max_change_excerpt_chars (JBool True) = Inr (lit ''true'')"
  by (simp add: excerpt_def canonical_text_def max_canonical_depth_def bounded_summary_def
      max_change_excerpt_chars_def max_finding_value_chars_def)

definition one_flag :: "pystr \<Rightarrow> jobject" where
  "one_flag k = [(lit ''t'', JObj [(k, JBool True)])]"

definition no_flag :: jobject where
  "no_flag = [(lit ''t'', JObj [])]"

lemma diff_one_flag:
  assumes "is_valid_segment k"
  shows "diff_states no_flag (one_flag k) =
    Inr [\<lparr>sc_path = Path [lit ''t'', k], sc_kind = Added, sc_before = None, sc_after = Some (lit ''true'')\<rparr>]"
  using assms
  by (simp add: diff_states_def diff_states_bounded_def no_flag_def one_flag_def unrepresentable_def
      sorted_set_def concat_result_def one_change_def make_change_def excerpt_unless_def excerpt_true)

lemma diff_complete_witness:
  "\<exists>c. diff_states no_flag (one_flag (lit ''a'')) = Inr [c] \<and>
     sc_kind c = kind_of_difference (resolve (sc_path c) no_flag) (resolve (sc_path c) (one_flag (lit ''a'')))"
proof -
  have "wf_json (JObj no_flag)" "wf_json (JObj (one_flag (lit ''a'')))"
    by (simp_all add: no_flag_def one_flag_def)
  then show ?thesis
    using diff_complete[OF diff_one_flag[OF valid_segments_small(2)]]
      diff_one_flag[OF valid_segments_small(2)] by simp
qed

text \<open>
  The diff and the parser do not accept the same keys: a key ending in a line feed is walked
  into, and the path reported for it is one \<open>parse\<close> refuses to read back.
\<close>

theorem diff_emits_unreadable_path:
  "(\<exists>c. diff_states no_flag (one_flag [97, 10]) = Inr [c] \<and>
      parse (JStr (path_str (sc_path c))) = Inl ControlCharacter)"
  by (simp add: diff_one_flag path_str_def parse_def parse_text_def max_observation_path_length_def
      forbidden_constructs_def lit_def)

end
