(* ===== verification/Surface.thy ===== *)
theory Surface
  imports Canonical Vocabulary
begin

section \<open>Tool surfaces\<close>

text \<open>
  \<open>evidence/surface.py\<close>: tool definitions and their identity hashes, the canonicalisation of
  an input schema, and the deltas between two captures of one namespace.
\<close>

definition max_tool_schema_depth :: nat where
  "max_tool_schema_depth = 32"

datatype surface_error = SchemaTooDeep | SchemaRefCycle | NotCanonical canon_error

definition lift_canon :: "canon_error + 'a \<Rightarrow> surface_error + 'a" where
  "lift_canon r = (case r of Inl e \<Rightarrow> Inl (NotCanonical e) | Inr x \<Rightarrow> Inr x)"

lemma lift_canon_Inr [simp]: "lift_canon r = Inr x \<longleftrightarrow> r = Inr x"
  by (auto simp: lift_canon_def split: sum.splits)

subsection \<open>Schema canonicalisation\<close>

definition unordered_scalar_keywords :: "pystr list" where
  "unordered_scalar_keywords = [lit ''required'', lit ''enum'']"

definition unordered_schema_keywords :: "pystr list" where
  "unordered_schema_keywords = [lit ''anyOf'', lit ''oneOf'', lit ''allOf'']"

definition self_referential :: "pystr list" where
  "self_referential = [lit ''#'', lit ''#/'']"

definition ref_key :: pystr where "ref_key = lit (CHR ''$'' # ''ref'')"

text \<open>Every \<open>$ref\<close> string of a document\<close>

fun local_refs :: "json \<Rightarrow> pystr list" where
  "local_refs (JObj kvs) =
     concat (map (\<lambda>kv. if fst kv = ref_key \<and> type_of (snd kv) = TString
                         then (case snd kv of JStr s \<Rightarrow> [s] | _ \<Rightarrow> [])
                         else local_refs (snd kv)) kvs)"
| "local_refs (JArr xs) = concat (map local_refs xs)"
| "local_refs _ = []"

definition has_ref_cycle :: "json \<Rightarrow> bool" where
  "has_ref_cycle v \<longleftrightarrow> (\<exists>r\<in>set (local_refs v). r \<in> set self_referential)"

text \<open>\<open>sorted(items, key=canonicalize)\<close>\<close>

definition sort_canonically :: "json list \<Rightarrow> surface_error + json list" where
  "sort_canonically xs =
     bind_result (map_result (\<lambda>x. bind_result (lift_canon (canonicalize x)) (\<lambda>k. Inr (k, x))) xs)
       (\<lambda>keyed. Inr (map snd (sort_key fst keyed)))"

fun canonicalize_value :: "nat \<Rightarrow> json \<Rightarrow> surface_error + json" where
  "canonicalize_value depth (JObj kvs) =
     (if max_tool_schema_depth < depth then Inl SchemaTooDeep
      else if has_ref_cycle (JObj kvs) then Inl SchemaRefCycle
      else bind_result
        (map_result (\<lambda>kv.
           bind_result
             (case snd kv of
                JArr xs \<Rightarrow>
                  if fst kv \<in> set unordered_scalar_keywords then
                    bind_result (sort_canonically xs) (\<lambda>ys. Inr (JArr ys))
                  else if fst kv \<in> set unordered_schema_keywords then
                    bind_result (map_result (canonicalize_value (Suc depth)) xs) (\<lambda>ys.
                      bind_result (sort_canonically ys) (\<lambda>zs. Inr (JArr zs)))
                  else canonicalize_value (Suc depth) (JArr xs)
              | v \<Rightarrow> canonicalize_value (Suc depth) v)
             (\<lambda>w. Inr (fst kv, w))) kvs)
        (\<lambda>members. Inr (JObj members)))"
| "canonicalize_value depth (JArr xs) =
     (if max_tool_schema_depth < depth then Inl SchemaTooDeep
      else bind_result (map_result (canonicalize_value (Suc depth)) xs) (\<lambda>ys. Inr (JArr ys)))"
| "canonicalize_value depth v = (if max_tool_schema_depth < depth then Inl SchemaTooDeep else Inr v)"

definition canonical_schema :: "jobject \<Rightarrow> surface_error + json" where
  "canonical_schema schema = canonicalize_value 0 (JObj schema)"

subsection \<open>Tools and their identity\<close>

record tool_definition =
  td_name :: pystr
  td_namespace :: tool_namespace
  td_description :: pystr
  td_read_only_hint :: "bool option"
  td_untrusted_content_hint :: "bool option"
  td_input_schema :: jobject

record tool_identity =
  ti_name_hash :: pystr
  ti_description_hash :: pystr
  ti_hints_hash :: pystr
  ti_schema_hash :: pystr
  ti_identity_hash :: pystr

definition hint_json :: "bool option \<Rightarrow> json" where
  "hint_json h = (case h of None \<Rightarrow> JNull | Some b \<Rightarrow> JBool b)"

definition hints_document :: "tool_definition \<Rightarrow> json" where
  "hints_document t = JObj
     [(lit ''read_only_hint'', hint_json (td_read_only_hint t)),
      (lit ''untrusted_content_hint'', hint_json (td_untrusted_content_hint t))]"

definition tool_identity_of :: "tool_definition \<Rightarrow> surface_error + tool_identity" where
  "tool_identity_of t =
     bind_result (lift_canon (content_hash (JStr (td_name t)))) (\<lambda>name_hash.
     bind_result (lift_canon (content_hash (JStr (td_description t)))) (\<lambda>description_hash.
     bind_result (lift_canon (content_hash (hints_document t))) (\<lambda>hints_hash.
     bind_result (canonical_schema (td_input_schema t)) (\<lambda>schema.
     bind_result (lift_canon (content_hash schema)) (\<lambda>schema_hash.
     bind_result (lift_canon (content_hash (JObj
         [(lit ''name_hash'', JStr name_hash), (lit ''description_hash'', JStr description_hash),
          (lit ''hints_hash'', JStr hints_hash), (lit ''schema_hash'', JStr schema_hash)])))
       (\<lambda>identity_hash. Inr
         \<lparr>ti_name_hash = name_hash, ti_description_hash = description_hash,
          ti_hints_hash = hints_hash, ti_schema_hash = schema_hash,
          ti_identity_hash = identity_hash\<rparr>))))))"

definition differing_kinds :: "tool_identity \<Rightarrow> tool_identity \<Rightarrow> surface_delta_kind list" where
  "differing_kinds a b =
     (if ti_schema_hash a \<noteq> ti_schema_hash b then [Sd_SchemaChange] else []) @
     (if ti_hints_hash a \<noteq> ti_hints_hash b then [Sd_HintChange] else []) @
     (if ti_description_hash a \<noteq> ti_description_hash b then [Sd_DescriptionChange] else [])"

definition tool_document :: "tool_definition \<Rightarrow> surface_error + json" where
  "tool_document t =
     bind_result (canonical_schema (td_input_schema t)) (\<lambda>schema. Inr (JObj
       [(lit ''name'', JStr (td_name t)), (lit ''namespace'', JStr (tool_namespace_value (td_namespace t))),
        (lit ''description'', JStr (td_description t)),
        (lit ''read_only_hint'', hint_json (td_read_only_hint t)),
        (lit ''untrusted_content_hint'', hint_json (td_untrusted_content_hint t)),
        (lit ''input_schema'', schema)]))"

subsection \<open>Surfaces\<close>

type_synonym tool_surface = "tool_definition list"

definition tool_sort_key :: "tool_definition \<Rightarrow> pystr \<times> pystr" where
  "tool_sort_key t = (tool_namespace_value (td_namespace t), td_name t)"

definition sorted_tools :: "tool_surface \<Rightarrow> tool_definition list" where
  "sorted_tools tools = sort_key tool_sort_key tools"

definition surface_partition :: "tool_surface \<Rightarrow> tool_namespace \<Rightarrow> tool_definition list" where
  "surface_partition tools ns = filter (\<lambda>t. td_namespace t = ns) (sorted_tools tools)"

text \<open>\<open>{tool.name: tool for ...}\<close>, a later duplicate wins\<close>

definition tool_by_name :: "tool_surface \<Rightarrow> tool_namespace \<Rightarrow> pystr \<Rightarrow> tool_definition option" where
  "tool_by_name tools ns = map_of (rev (map (\<lambda>t. (td_name t, t)) (surface_partition tools ns)))"

definition surface_document :: "tool_surface \<Rightarrow> surface_error + json" where
  "surface_document tools =
     bind_result (map_result tool_document (sorted_tools tools))
       (\<lambda>docs. Inr (JObj [(lit ''tools'', JArr docs)]))"

definition surface_hash :: "tool_surface \<Rightarrow> surface_error + pystr" where
  "surface_hash tools = bind_result (surface_document tools) (\<lambda>d. lift_canon (content_hash d))"

record surface_delta =
  sd_tool_name :: pystr
  sd_namespace :: tool_namespace
  sd_kind :: surface_delta_kind
  sd_before :: "tool_definition option"
  sd_after :: "tool_definition option"

definition optional_tool_document :: "tool_definition option \<Rightarrow> surface_error + json" where
  "optional_tool_document t = (case t of None \<Rightarrow> Inr JNull | Some x \<Rightarrow> tool_document x)"

definition delta_document :: "surface_delta \<Rightarrow> surface_error + json" where
  "delta_document d =
     bind_result (optional_tool_document (sd_before d)) (\<lambda>b.
     bind_result (optional_tool_document (sd_after d)) (\<lambda>a. Inr (JObj
       [(lit ''tool_name'', JStr (sd_tool_name d)),
        (lit ''namespace'', JStr (tool_namespace_value (sd_namespace d))),
        (lit ''kind'', JStr (surface_delta_kind_value (sd_kind d))),
        (lit ''before'', b), (lit ''after'', a)])))"

text \<open>The deltas one name contributes\<close>

definition name_deltas ::
  "tool_namespace \<Rightarrow> pystr \<Rightarrow> tool_definition option \<Rightarrow> tool_definition option \<Rightarrow>
   surface_error + surface_delta list" where
  "name_deltas ns name old new =
     (case old of
        None \<Rightarrow>
          (case new of
             None \<Rightarrow> Inr []
           | Some n \<Rightarrow> Inr [\<lparr>sd_tool_name = name, sd_namespace = ns, sd_kind = Sd_Added,
               sd_before = None, sd_after = Some n\<rparr>])
      | Some ol \<Rightarrow>
          (case new of
             None \<Rightarrow> Inr [\<lparr>sd_tool_name = name, sd_namespace = ns, sd_kind = Sd_Removed,
               sd_before = Some ol, sd_after = None\<rparr>]
           | Some n \<Rightarrow>
               bind_result (tool_identity_of ol) (\<lambda>i. bind_result (tool_identity_of n) (\<lambda>j.
                 Inr (map (\<lambda>k. \<lparr>sd_tool_name = name, sd_namespace = ns, sd_kind = k,
                   sd_before = Some ol, sd_after = Some n\<rparr>) (differing_kinds i j))))))"

definition surface_names :: "tool_surface \<Rightarrow> tool_namespace \<Rightarrow> pystr list" where
  "surface_names tools ns = map td_name (surface_partition tools ns)"

definition diff_surfaces ::
  "tool_surface \<Rightarrow> tool_surface \<Rightarrow> tool_namespace \<Rightarrow> surface_error + surface_delta list" where
  "diff_surfaces baseline current ns =
     bind_result
       (map_result (\<lambda>name. name_deltas ns name (tool_by_name baseline ns name) (tool_by_name current ns name))
         (sorted_set (surface_names baseline ns @ surface_names current ns)))
       (\<lambda>dss. Inr (concat dss))"

subsection \<open>Lemmas\<close>

interpretation tool_order: deterministic_order tool_sort_key "\<lambda>t. (td_namespace t, td_name t)"
  by unfold_locales (simp add: tool_sort_key_def)

lemma set_surface_partition: "set (surface_partition tools ns) = {t \<in> set tools. td_namespace t = ns}"
  by (auto simp: surface_partition_def sorted_tools_def)

lemma set_surface_names: "set (surface_names tools ns) = td_name ` {t \<in> set tools. td_namespace t = ns}"
  by (simp add: surface_names_def set_surface_partition)

lemma tool_by_name_None: "tool_by_name tools ns name = None \<longleftrightarrow> name \<notin> set (surface_names tools ns)"
  by (simp add: tool_by_name_def map_of_eq_None_iff surface_names_def image_image)

lemma tool_by_name_Some:
  "tool_by_name tools ns name = Some t \<Longrightarrow> t \<in> set tools \<and> td_namespace t = ns \<and> td_name t = name"
  unfolding tool_by_name_def by (drule map_of_SomeD) (auto simp: set_surface_partition)

lemma tool_by_name_unique:
  assumes "t \<in> set tools" "inj_on (\<lambda>t. (td_namespace t, td_name t)) (set tools)"
  shows "tool_by_name tools (td_namespace t) (td_name t) = Some t"
proof -
  have "td_name t \<in> set (surface_names tools (td_namespace t))"
    using assms(1) by (auto simp: set_surface_names)
  then obtain u where u: "tool_by_name tools (td_namespace t) (td_name t) = Some u"
    using tool_by_name_None by (cases "tool_by_name tools (td_namespace t) (td_name t)") auto
  then have "u = t" using tool_by_name_Some[OF u] assms by (auto dest: inj_onD)
  then show ?thesis using u by simp
qed

lemma name_deltas_none: "name_deltas ns name None None = Inr []"
  by (simp add: name_deltas_def)

lemma name_deltas_mem:
  "name_deltas ns name old new = Inr ds \<Longrightarrow> d \<in> set ds \<Longrightarrow>
   sd_tool_name d = name \<and> sd_namespace d = ns \<and> sd_before d = old \<and> sd_after d = new"
  by (auto simp: name_deltas_def bind_result_Inr split: option.splits)

lemma name_deltas_added:
  "name_deltas ns name old new = Inr ds \<Longrightarrow>
   (\<exists>d\<in>set ds. sd_kind d = Sd_Added) \<longleftrightarrow> old = None \<and> new \<noteq> None"
  by (auto simp: name_deltas_def bind_result_Inr differing_kinds_def split: option.splits)

lemma name_deltas_removed:
  "name_deltas ns name old new = Inr ds \<Longrightarrow>
   (\<exists>d\<in>set ds. sd_kind d = Sd_Removed) \<longleftrightarrow> old \<noteq> None \<and> new = None"
  by (auto simp: name_deltas_def bind_result_Inr differing_kinds_def split: option.splits)

lemma name_deltas_schema:
  "name_deltas ns name old new = Inr ds \<Longrightarrow>
   (\<exists>d\<in>set ds. sd_kind d = Sd_SchemaChange) \<longleftrightarrow>
   (\<exists>o' n i j. old = Some o' \<and> new = Some n \<and> tool_identity_of o' = Inr i \<and> tool_identity_of n = Inr j \<and>
      ti_schema_hash i \<noteq> ti_schema_hash j)"
  by (auto simp: name_deltas_def bind_result_Inr differing_kinds_def split: option.splits)

lemma diff_surfaces_mem:
  assumes "diff_surfaces b c ns = Inr ds"
  shows "d \<in> set ds \<longleftrightarrow>
    (\<exists>xs. name_deltas ns (sd_tool_name d) (tool_by_name b ns (sd_tool_name d))
        (tool_by_name c ns (sd_tool_name d)) = Inr xs \<and> d \<in> set xs)"
proof -
  let ?f = "\<lambda>name. name_deltas ns name (tool_by_name b ns name) (tool_by_name c ns name)"
  let ?names = "sorted_set (surface_names b ns @ surface_names c ns)"
  obtain dss where dss: "list_all2 (\<lambda>n xs. ?f n = Inr xs) ?names dss" "ds = concat dss"
    using assms by (auto simp: diff_surfaces_def bind_result_Inr map_result_Inr_conv)
  have mem: "d \<in> set (concat dss) \<longleftrightarrow> (\<exists>n\<in>set ?names. \<exists>xs. ?f n = Inr xs \<and> d \<in> set xs)"
    using dss(1) by (induction rule: list_all2_induct) auto
  have out: "?f n = Inr []" if "n \<notin> set ?names" for n
  proof -
    have "tool_by_name b ns n = None" "tool_by_name c ns n = None"
      using that by (simp_all add: tool_by_name_None)
    then show ?thesis by (simp add: name_deltas_none)
  qed
  show ?thesis
  proof
    assume "d \<in> set ds"
    then show "\<exists>xs. ?f (sd_tool_name d) = Inr xs \<and> d \<in> set xs"
      using mem dss(2) name_deltas_mem by blast
  next
    assume "\<exists>xs. ?f (sd_tool_name d) = Inr xs \<and> d \<in> set xs"
    then show "d \<in> set ds" using mem dss(2) out by (cases "sd_tool_name d \<in> set ?names") auto
  qed
qed

text \<open>A capture enumerated in another order is the same surface.\<close>

lemma sorted_tools_perm:
  "mset tools = mset tools' \<Longrightarrow> inj_on (\<lambda>t. (td_namespace t, td_name t)) (set tools) \<Longrightarrow>
   sorted_tools tools = sorted_tools tools'"
  unfolding sorted_tools_def by (rule tool_order.order_perm)

lemma surface_names_perm:
  "mset tools = mset tools' \<Longrightarrow> inj_on (\<lambda>t. (td_namespace t, td_name t)) (set tools) \<Longrightarrow>
   surface_partition tools ns = surface_partition tools' ns"
  by (simp add: surface_partition_def sorted_tools_perm)

text \<open>
  The order in which a browser enumerates its tools is not evidence: for captures whose
  tools have distinct names in their namespace, the surface hash and every comparison with
  another capture depend only on which tools there are.
\<close>

theorem surface_enumeration_irrelevant:
  assumes "mset tools = mset tools'" "inj_on (\<lambda>t. (td_namespace t, td_name t)) (set tools)"
  shows "surface_hash tools = surface_hash tools' \<and>
    diff_surfaces tools other ns = diff_surfaces tools' other ns \<and>
    diff_surfaces other tools ns = diff_surfaces other tools' ns"
  using sorted_tools_perm[OF assms] surface_names_perm[OF assms]
  by (simp add: surface_hash_def surface_document_def diff_surfaces_def surface_names_def tool_by_name_def)

definition sample_tool :: "string \<Rightarrow> tool_definition" where
  "sample_tool n =
     \<lparr>td_name = lit n, td_namespace = Ns_Target, td_description = [], td_read_only_hint = None,
      td_untrusted_content_hint = None, td_input_schema = []\<rparr>"

lemma sample_tool_simps [simp]:
  "td_name (sample_tool n) = lit n" "td_namespace (sample_tool n) = Ns_Target"
  by (simp_all add: sample_tool_def)

lemma surface_enumeration_irrelevant_witness:
  "surface_hash [sample_tool ''b'', sample_tool ''a''] = surface_hash [sample_tool ''a'', sample_tool ''b'']"
  by (rule surface_enumeration_irrelevant[THEN conjunct1]) (auto simp: inj_on_def)

lemma diff_surfaces_each:
  assumes "diff_surfaces b c ns = Inr ds"
  shows "\<exists>xs. name_deltas ns n (tool_by_name b ns n) (tool_by_name c ns n) = Inr xs"
proof (cases "n \<in> set (surface_names b ns @ surface_names c ns)")
  case True
  then show ?thesis
    using assms by (auto simp: diff_surfaces_def bind_result_Inr dest!: map_result_each[of _ _ _ n])
next
  case False
  then have "tool_by_name b ns n = None" "tool_by_name c ns n = None" by (simp_all add: tool_by_name_None)
  then show ?thesis by (simp add: name_deltas_none)
qed

lemma diff_surfaces_names:
  assumes "diff_surfaces b c ns = Inr ds"
  shows "n \<in> {sd_tool_name d |d. d \<in> set ds \<and> sd_kind d = k} \<longleftrightarrow>
    (\<exists>xs. name_deltas ns n (tool_by_name b ns n) (tool_by_name c ns n) = Inr xs \<and>
       (\<exists>d\<in>set xs. sd_kind d = k))"
  using diff_surfaces_mem[OF assms] name_deltas_mem by blast

lemma diff_surfaces_self:
  assumes "diff_surfaces b b ns = Inr ds" shows "ds = []"
proof -
  have same: "xs = []" if "name_deltas ns n t t = Inr xs" for n t xs
    using that by (auto simp: name_deltas_def bind_result_Inr differing_kinds_def split: option.splits)
  have "d \<notin> set ds" for d using diff_surfaces_mem[OF assms, of d] same by fastforce
  then show ?thesis by (cases ds) auto
qed

text \<open>
  The deltas between two captures, tool by tool: a name is added or removed exactly when
  only one capture has it, a schema change is reported exactly when the schema hashes of the
  two definitions differ, and a capture differs from itself in nothing.
\<close>

theorem surface_deltas_exact:
  assumes "diff_surfaces b c ns = Inr ds"
  shows "{sd_tool_name d |d. d \<in> set ds \<and> sd_kind d = Sd_Added} =
      set (surface_names c ns) - set (surface_names b ns) \<and>
    {sd_tool_name d |d. d \<in> set ds \<and> sd_kind d = Sd_Removed} =
      set (surface_names b ns) - set (surface_names c ns) \<and>
    {sd_tool_name d |d. d \<in> set ds \<and> sd_kind d = Sd_SchemaChange} =
      {n. \<exists>o' n' i j. tool_by_name b ns n = Some o' \<and> tool_by_name c ns n = Some n' \<and>
         tool_identity_of o' = Inr i \<and> tool_identity_of n' = Inr j \<and>
         ti_schema_hash i \<noteq> ti_schema_hash j} \<and>
    (b = c \<longrightarrow> ds = [])"
proof (intro conjI)
  show "{sd_tool_name d |d. d \<in> set ds \<and> sd_kind d = Sd_Added} =
      set (surface_names c ns) - set (surface_names b ns)" (is "?L = ?R")
  proof (rule set_eqI)
    fix n
    obtain xs where xs: "name_deltas ns n (tool_by_name b ns n) (tool_by_name c ns n) = Inr xs"
      using diff_surfaces_each[OF assms] by blast
    show "n \<in> ?L \<longleftrightarrow> n \<in> ?R"
      using diff_surfaces_names[OF assms, of n Sd_Added] name_deltas_added[OF xs] xs
        tool_by_name_None[of b ns n] tool_by_name_None[of c ns n] by (simp add: conj_commute)
  qed
  show "{sd_tool_name d |d. d \<in> set ds \<and> sd_kind d = Sd_Removed} =
      set (surface_names b ns) - set (surface_names c ns)" (is "?L = ?R")
  proof (rule set_eqI)
    fix n
    obtain xs where xs: "name_deltas ns n (tool_by_name b ns n) (tool_by_name c ns n) = Inr xs"
      using diff_surfaces_each[OF assms] by blast
    show "n \<in> ?L \<longleftrightarrow> n \<in> ?R"
      using diff_surfaces_names[OF assms, of n Sd_Removed] name_deltas_removed[OF xs] xs
        tool_by_name_None[of b ns n] tool_by_name_None[of c ns n] by simp
  qed
  show "{sd_tool_name d |d. d \<in> set ds \<and> sd_kind d = Sd_SchemaChange} =
      {n. \<exists>o' n' i j. tool_by_name b ns n = Some o' \<and> tool_by_name c ns n = Some n' \<and>
         tool_identity_of o' = Inr i \<and> tool_identity_of n' = Inr j \<and>
         ti_schema_hash i \<noteq> ti_schema_hash j}" (is "?L = ?R")
  proof (rule set_eqI)
    fix n
    obtain xs where xs: "name_deltas ns n (tool_by_name b ns n) (tool_by_name c ns n) = Inr xs"
      using diff_surfaces_each[OF assms] by blast
    show "n \<in> ?L \<longleftrightarrow> n \<in> ?R"
      using diff_surfaces_names[OF assms, of n Sd_SchemaChange] name_deltas_schema[OF xs] xs by simp
  qed
  show "b = c \<longrightarrow> ds = []" using assms diff_surfaces_self by blast
qed

lemma surface_deltas_exact_witness:
  "\<exists>ds. diff_surfaces [] [sample_tool ''a''] Ns_Target = Inr ds \<and>
    lit ''a'' \<in> {sd_tool_name d |d. d \<in> set ds \<and> sd_kind d = Sd_Added}"
proof -
  have "\<exists>ds. diff_surfaces [] [sample_tool ''a''] Ns_Target = Inr ds"
    by (simp add: diff_surfaces_def surface_names_def surface_partition_def sorted_tools_def
        tool_by_name_def name_deltas_def sorted_set_def)
  then obtain ds where ds: "diff_surfaces [] [sample_tool ''a''] Ns_Target = Inr ds" by blast
  have "lit ''a'' \<in> set (surface_names [sample_tool ''a''] Ns_Target) - set (surface_names [] Ns_Target)"
    by (simp add: surface_names_def surface_partition_def sorted_tools_def)
  then show ?thesis using surface_deltas_exact[OF ds] ds by blast
qed

end
