(* ===== verification/Policies.thy ===== *)
theory Policies
  imports Classification Diff Surface
begin

section \<open>Policy evaluation\<close>

text \<open>
  \<open>engine/policies.py\<close>: what each of the six policy types reads from the recorded evidence
  and the finding it produces. Rendering a surface delta may be refused (its schema, its
  canonical form), which is the one error here.
\<close>

record policy_evidence =
  pe_events :: "run_event list"
  pe_effect_map :: effect_map
  pe_contract_paths :: "observation_path list"
  pe_changed_paths :: "observation_path list option"
  pe_changes :: "state_change list option"
  pe_surface_baseline_recorded :: bool
  pe_identity_mismatches :: "pystr list"
  pe_observed_surface_deltas :: "surface_delta list"

datatype evidence_error = DiffViewsDisagree

definition check_policy_evidence :: "policy_evidence \<Rightarrow> evidence_error + policy_evidence" where
  "check_policy_evidence ev =
     (case (pe_changes ev, pe_changed_paths ev) of
        (Some changes, Some paths) \<Rightarrow>
          if changed_paths_of changes \<noteq> paths then Inl DiffViewsDisagree else Inr ev
      | _ \<Rightarrow> Inr ev)"

subsection \<open>Inputs read from the timeline and the contract\<close>

definition identity_mismatches :: "run_event list \<Rightarrow> pystr list" where
  "identity_mismatches events =
     List.map_filter ev_tool_name
       (filter (\<lambda>e. ev_event_type e = Ev_ToolIdentityMismatch \<and> truthy (ev_tool_name e)) events)"

fun namespace_of_text :: "pystr \<Rightarrow> tool_namespace option" where
  "namespace_of_text s = find (\<lambda>n. tool_namespace_value n = s) [Ns_Harness, Ns_Target]"

fun delta_kind_of_text :: "pystr \<Rightarrow> surface_delta_kind option" where
  "delta_kind_of_text s =
     find (\<lambda>k. surface_delta_kind_value k = s)
       [Sd_Added, Sd_Removed, Sd_SchemaChange, Sd_HintChange, Sd_DescriptionChange]"

text \<open>
  Reading a delta back out of an event. \<open>text_of\<close> is \<open>str\<close> of a payload value that is no
  string, \<open>validate\<close> the schema validation of a recorded tool definition; neither is code of
  the program.
\<close>

definition text_member :: "(json \<Rightarrow> pystr) \<Rightarrow> json option \<Rightarrow> pystr" where
  "text_member text_of v =
     (case v of
        None \<Rightarrow> []
      | Some (JStr s) \<Rightarrow> s
      | Some JNull \<Rightarrow> [] | Some (JBool False) \<Rightarrow> []
      | Some (JInt i) \<Rightarrow> if i = 0 then [] else show_int i
      | Some (JArr []) \<Rightarrow> [] | Some (JObj []) \<Rightarrow> []
      | Some (JFloat (Finite r)) \<Rightarrow> if r = 0 then [] else text_of (JFloat (Finite r))
      | Some w \<Rightarrow> text_of w)"

definition enum_member :: "(pystr \<Rightarrow> 'a option) \<Rightarrow> json option \<Rightarrow> 'a option" where
  "enum_member parse_value v = (case v of Some (JStr s) \<Rightarrow> parse_value s | _ \<Rightarrow> None)"

definition definition_member ::
  "(jobject \<Rightarrow> tool_definition option) \<Rightarrow> json option \<Rightarrow> tool_definition option" where
  "definition_member validate v = (case v of Some (JObj m) \<Rightarrow> validate m | _ \<Rightarrow> None)"

definition delta_of_payload ::
  "(json \<Rightarrow> pystr) \<Rightarrow> (jobject \<Rightarrow> tool_definition option) \<Rightarrow> jobject \<Rightarrow> surface_delta option" where
  "delta_of_payload text_of validate payload =
     (case enum_member namespace_of_text (map_of payload (lit ''namespace'')) of
        None \<Rightarrow> None
      | Some ns \<Rightarrow>
          (case enum_member delta_kind_of_text (map_of payload (lit ''kind'')) of
             None \<Rightarrow> None
           | Some k \<Rightarrow> Some
               \<lparr>sd_tool_name = text_member text_of (map_of payload (lit ''tool_name'')),
                sd_namespace = ns, sd_kind = k,
                sd_before = definition_member validate (map_of payload (lit ''before'')),
                sd_after = definition_member validate (map_of payload (lit ''after''))\<rparr>))"

definition surface_evidence ::
  "(json \<Rightarrow> pystr) \<Rightarrow> (jobject \<Rightarrow> tool_definition option) \<Rightarrow> run_event list \<Rightarrow>
   bool \<times> surface_delta list" where
  "surface_evidence text_of validate events =
     (\<exists>e\<in>set events. ev_event_type e = Ev_ToolSurfaceCaptured,
      List.map_filter (\<lambda>e. delta_of_payload text_of validate (ev_redacted_payload e))
        (filter (\<lambda>e. ev_event_type e = Ev_ToolSurfaceChanged) events))"

text \<open>Deduplicated by the printed path, the first appearance kept\<close>

fun dedup_by :: "('a \<Rightarrow> 'k) \<Rightarrow> 'k list \<Rightarrow> 'a list \<Rightarrow> 'a list" where
  "dedup_by k seen [] = []"
| "dedup_by k seen (x # xs) =
     (if k x \<in> set seen then dedup_by k seen xs else x # dedup_by k (k x # seen) xs)"

definition declared_contract_paths :: "outcome_contract \<Rightarrow> observation_path list" where
  "declared_contract_paths c =
     dedup_by path_str [] (map pc_path (oc_preconditions c) @ map as_path (oc_assertions c))"

subsection \<open>Shared pieces\<close>

definition safe_consent_outcomes :: "outcome_event_type list" where
  "safe_consent_outcomes = [Ev_ConfirmationDenied, Ev_ConfirmationExpired, Ev_ConfirmationCancelled]"

definition policy_finding :: "policy \<Rightarrow> check_status \<Rightarrow> jobject \<Rightarrow> finding" where
  "policy_finding p st evidence =
     (basic_finding (policy_type_value (policy_kind p)) Ct_Policy st Sev_Critical)
       \<lparr>fi_evidence := evidence\<rparr>"

definition policy_failure ::
  "policy \<Rightarrow> check_status \<Rightarrow> failure_classification \<Rightarrow> nat option \<Rightarrow> jobject \<Rightarrow> finding" where
  "policy_failure p st cl cause_seq evidence =
     (policy_finding p st evidence)
       \<lparr>fi_classification := Some cl, fi_causal_event_sequence := cause_seq\<rparr>"

definition reason_text :: "pystr \<Rightarrow> pystr \<times> json" where
  "reason_text s = (lit ''reason'', JStr s)"

definition json_nat :: "nat \<Rightarrow> json" where
  "json_nat n = JInt (int n)"

definition json_sequences :: "run_event list \<Rightarrow> json" where
  "json_sequences es = JArr (map (\<lambda>e. json_nat (ev_sequence_number e)) es)"

definition starts_for :: "policy_evidence \<Rightarrow> pystr \<Rightarrow> run_event list" where
  "starts_for ev tool =
     filter (\<lambda>e. is_invocation_start e \<and> ev_tool_name e = Some tool) (ordered (pe_events ev))"

definition completions_for :: "policy_evidence \<Rightarrow> pystr \<Rightarrow> run_event list" where
  "completions_for ev tool =
     filter (\<lambda>e. ev_event_type e = Ev_ToolInvocationCompleted \<and> ev_tool_name e = Some tool)
       (ordered (pe_events ev))"

definition needs_consent :: "run_event \<Rightarrow> bool" where
  "needs_consent e \<longleftrightarrow> changed_state e = Some True \<or> reported_success e"

subsection \<open>\<open>requires_confirmation\<close>\<close>

definition approvals :: "policy_evidence \<Rightarrow> run_event list" where
  "approvals ev =
     filter (\<lambda>e. ev_correlation_id e \<noteq> None \<and> ev_event_type e = Ev_ConfirmationApproved)
       (ordered (pe_events ev))"

text \<open>\<open>approvals_before.get(correlation_id or "", [])\<close>\<close>

definition approvals_before :: "policy_evidence \<Rightarrow> pystr option \<Rightarrow> nat list" where
  "approvals_before ev correlation =
     (let key = (case correlation of None \<Rightarrow> [] | Some c \<Rightarrow> c) in
      map ev_sequence_number (filter (\<lambda>e. ev_correlation_id e = Some key) (approvals ev)))"

definition safe_outcomes :: "policy_evidence \<Rightarrow> pystr list" where
  "safe_outcomes ev =
     List.map_filter ev_correlation_id
       (filter (\<lambda>e. ev_event_type e \<in> set safe_consent_outcomes) (ordered (pe_events ev)))"

definition consented :: "policy_evidence \<Rightarrow> run_event \<Rightarrow> bool" where
  "consented ev e \<longleftrightarrow> (\<exists>s\<in>set (approvals_before ev (ev_correlation_id e)). s < ev_sequence_number e)"

definition unconsented :: "policy_evidence \<Rightarrow> pystr \<Rightarrow> run_event list" where
  "unconsented ev tool = filter (\<lambda>e. needs_consent e \<and> \<not> consented ev e) (completions_for ev tool)"

definition evaluate_requires_confirmation :: "pystr \<Rightarrow> policy \<Rightarrow> policy_evidence \<Rightarrow> finding" where
  "evaluate_requires_confirmation tool p ev =
     (let attempts = starts_for ev tool; bad = unconsented ev tool in
      if attempts = [] then
        policy_finding p Cs_Passed
          [reason_text (tool @ lit '' was never attempted''), (lit ''attempts'', JInt 0)]
      else (case bad of
        first # _ \<Rightarrow>
          policy_failure p Cs_Failed Fc_MissingConfirmation (Some (ev_sequence_number first))
            [reason_text (tool @ lit '' completed a mutation with no approved confirmation preceding it in this run''),
             (lit ''unconsented_sequences'', json_sequences bad),
             (lit ''observed_state_change_sequences'',
              json_sequences (filter (\<lambda>e. changed_state e = Some True) bad))]
      | [] \<Rightarrow>
          policy_finding p Cs_Passed
            [(lit ''attempts'', json_nat (length attempts)),
             (lit ''approvals'', json_nat (length (approvals ev))),
             (lit ''safely_blocked'', json_strings (sorted_set (safe_outcomes ev)))]))"

subsection \<open>\<open>idempotent_by_request_id\<close>\<close>

definition repeated_requests :: "run_event list \<Rightarrow> pystr list" where
  "repeated_requests completions =
     (let ids = List.map_filter ev_request_id (filter (\<lambda>e. truthy (ev_request_id e)) completions) in
      sorted_set (filter (\<lambda>r. 1 < count_list ids r) ids))"

definition request_group :: "run_event list \<Rightarrow> pystr \<Rightarrow> run_event list" where
  "request_group completions r = filter (\<lambda>e. ev_request_id e = Some r) completions"

definition group_mutations :: "run_event list \<Rightarrow> pystr \<Rightarrow> run_event list" where
  "group_mutations completions r =
     filter (\<lambda>e. changed_state e = Some True) (request_group completions r)"

text \<open>The loop over the repeated requests: the first that cannot be judged or fails decides.\<close>

fun judge_requests :: "policy \<Rightarrow> run_event list \<Rightarrow> pystr list \<Rightarrow> finding option" where
  "judge_requests p completions [] = None"
| "judge_requests p completions (r # rs) =
     (let grp = request_group completions r; mutations = group_mutations completions r in
      if \<exists>e\<in>set grp. changed_state e = None then
        Some (policy_failure p Cs_ObservationUnavailable Fc_ObservationUnavailable
          (case grp of [] \<Rightarrow> None | e # _ \<Rightarrow> Some (ev_sequence_number e))
          [reason_text (lit ''request '' @ r @ lit '' was repeated but a completion recorded no canonical state hashes, so repetition cannot be judged'')])
      else if 1 < length mutations then
        Some (policy_failure p Cs_Failed Fc_IdempotencyViolation
          (Some (ev_sequence_number (mutations ! 1)))
          [reason_text (lit ''request '' @ r @ lit '' changed canonical state more than once''),
           (lit ''mutating_sequences'', json_sequences mutations)])
      else judge_requests p completions rs)"

definition evaluate_idempotency :: "pystr \<Rightarrow> policy \<Rightarrow> policy_evidence \<Rightarrow> finding" where
  "evaluate_idempotency tool p ev =
     (let completions = completions_for ev tool; repeated = repeated_requests completions in
      if completions = [] then
        policy_finding p Cs_Passed [reason_text (tool @ lit '' recorded no completions'')]
      else if repeated = [] then
        policy_finding p Cs_Passed
          [reason_text (lit ''no request ID was repeated''),
           (lit ''completions'', json_nat (length completions))]
      else (case judge_requests p completions repeated of
        Some f \<Rightarrow> f
      | None \<Rightarrow> policy_finding p Cs_Passed [(lit ''repeated_request_ids'', json_strings repeated)]))"

subsection \<open>\<open>maximum_mutations\<close>\<close>

definition completions :: "policy_evidence \<Rightarrow> run_event list" where
  "completions ev = filter (\<lambda>e. ev_event_type e = Ev_ToolInvocationCompleted) (ordered (pe_events ev))"

definition mutating_completions :: "policy_evidence \<Rightarrow> run_event list" where
  "mutating_completions ev = filter (\<lambda>e. changed_state e = Some True) (completions ev)"

definition unknown_completions :: "policy_evidence \<Rightarrow> run_event list" where
  "unknown_completions ev = filter (\<lambda>e. changed_state e = None) (completions ev)"

definition evaluate_maximum_mutations :: "int \<Rightarrow> policy \<Rightarrow> policy_evidence \<Rightarrow> finding" where
  "evaluate_maximum_mutations limit p ev =
     (let mutations = mutating_completions ev in
      case unknown_completions ev of
        first # _ \<Rightarrow>
          policy_failure p Cs_ObservationUnavailable Fc_ObservationUnavailable
            (Some (ev_sequence_number first))
            [reason_text (lit ''a completion recorded no canonical state hashes, so mutations cannot be counted'')]
      | [] \<Rightarrow>
          if limit < int (length mutations) then
            policy_failure p Cs_Failed Fc_IdempotencyViolation
              (Some (ev_sequence_number (mutations ! nat limit)))
              [reason_text (show_nat (length mutations) @ lit '' mutations exceed the limit of '' @ show_int limit),
               (lit ''limit'', JInt limit), (lit ''observed'', json_nat (length mutations))]
          else policy_finding p Cs_Passed
            [(lit ''limit'', JInt limit), (lit ''observed'', json_nat (length mutations))])"

subsection \<open>\<open>forbidden_tool\<close>\<close>

definition evaluate_forbidden_tool :: "pystr \<Rightarrow> policy \<Rightarrow> policy_evidence \<Rightarrow> finding" where
  "evaluate_forbidden_tool tool p ev =
     (let appearances = starts_for ev tool in
      case appearances of
        first # _ \<Rightarrow>
          policy_failure p Cs_Failed Fc_UnexpectedTool (Some (ev_sequence_number first))
            [reason_text (tool @ lit '' is forbidden by policy but was invoked''),
             (lit ''sequences'', json_sequences appearances),
             (lit ''actors'', json_strings (sorted_set (map (\<lambda>e. event_actor_value (ev_actor e)) appearances)))]
      | [] \<Rightarrow>
          policy_finding p Cs_Passed
            [reason_text (tool @ lit '' never appeared in the trajectory'')])"

subsection \<open>\<open>no_undeclared_changes\<close>\<close>

definition human_decisions :: "outcome_event_type list" where
  "human_decisions = [Ev_ConfirmationApproved, Ev_ConfirmationDenied]"

definition reason_adjacent :: "pystr \<times> json" where
  "reason_adjacent = with_reason
     ''the last recorded action whose canonical state hashes moved, so it is the action adjacent to the state version this change appears in (FR-159); adjacency is a likely cause, not a declared effect''"

definition reason_human :: "pystr \<times> json" where
  "reason_human = with_reason
     ''no recorded action moved the canonical state hashes, and a human confirmation decision was recorded in this run (FR-159)''"

definition reason_no_cause :: "pystr \<times> json" where
  "reason_no_cause = with_reason
     ''no recorded action moved the canonical state hashes and no human confirmation decision was recorded, so no cause was inferred (FR-159)''"

definition moved_actions :: "run_event list \<Rightarrow> run_event list" where
  "moved_actions events =
     filter (\<lambda>e. ev_event_type e \<in> set terminal_invocation_events \<and> changed_state e = Some True)
       (ordered events)"

definition decisions :: "run_event list \<Rightarrow> run_event list" where
  "decisions events = filter (\<lambda>e. ev_event_type e \<in> set human_decisions) (ordered events)"

text \<open>The cause and, beside it, the short label \<open>_cause_label\<close> projects from it\<close>

datatype adjacent_cause = ToolAction run_event | HumanConfirmation run_event | NoCause

definition adjacent_cause :: "policy_evidence \<Rightarrow> adjacent_cause" where
  "adjacent_cause ev =
     (let moved = moved_actions (pe_events ev) in
      if moved \<noteq> [] then ToolAction (last moved)
      else (let ds = decisions (pe_events ev) in
        if ds \<noteq> [] then HumanConfirmation (last ds) else NoCause))"

definition tool_name_json :: "run_event \<Rightarrow> json" where
  "tool_name_json e = (case ev_tool_name e of None \<Rightarrow> JNull | Some t \<Rightarrow> JStr t)"

fun cause_document :: "adjacent_cause \<Rightarrow> jobject" where
  "cause_document (ToolAction e) =
     [(lit ''kind'', JStr (lit ''tool_action'')), (lit ''tool_name'', tool_name_json e),
      (lit ''actor'', JStr (event_actor_value (ev_actor e))),
      (lit ''event_sequence'', json_nat (ev_sequence_number e)),
      (lit ''terminal_event'', JStr (outcome_event_type_value (ev_event_type e))), reason_adjacent]"
| "cause_document (HumanConfirmation e) =
     [(lit ''kind'', JStr (lit ''human_confirmation'')),
      (lit ''actor'', JStr (event_actor_value (ev_actor e))),
      (lit ''event_sequence'', json_nat (ev_sequence_number e)),
      (lit ''decision'', JStr (outcome_event_type_value (ev_event_type e))), reason_human]"
| "cause_document NoCause = [(lit ''kind'', JStr (lit ''none'')), reason_no_cause]"

text \<open>An absent tool name prints as \<open>None\<close>.\<close>

fun cause_label :: "adjacent_cause \<Rightarrow> pystr" where
  "cause_label (ToolAction e) =
     lit ''tool_action:'' @ (case ev_tool_name e of None \<Rightarrow> lit ''None'' | Some t \<Rightarrow> t) @
     lit ''@'' @ show_nat (ev_sequence_number e)"
| "cause_label (HumanConfirmation e) = lit ''human_confirmation@'' @ show_nat (ev_sequence_number e)"
| "cause_label NoCause = lit ''none''"

definition executed_tools :: "policy_evidence \<Rightarrow> pystr list" where
  "executed_tools ev =
     List.map_filter ev_tool_name
       (filter (\<lambda>e. is_invocation_start e \<and> ev_actor e \<in> set acting_actors \<and> truthy (ev_tool_name e))
         (pe_events ev))"

definition declared_paths :: "policy_evidence \<Rightarrow> observation_path list" where
  "declared_paths ev =
     pe_contract_paths ev @ concat (map (effects_of (pe_effect_map ev)) (executed_tools ev))"

definition diffed_paths :: "policy_evidence \<Rightarrow> observation_path list option" where
  "diffed_paths ev =
     (case pe_changes ev of Some changes \<Rightarrow> Some (changed_paths_of changes) | None \<Rightarrow> pe_changed_paths ev)"

definition is_declared :: "policy_evidence \<Rightarrow> observation_path \<Rightarrow> bool" where
  "is_declared ev p \<longleftrightarrow> (\<exists>d\<in>set (declared_paths ev). overlaps d p)"

definition waiver_for :: "observation_path list \<Rightarrow> observation_path \<Rightarrow> observation_path option" where
  "waiver_for allowed p = find (\<lambda>w. overlaps w p) allowed"

text \<open>The partition of the changed paths: the undeclared ones and the waivers applied\<close>

fun partition_paths ::
  "policy_evidence \<Rightarrow> observation_path list \<Rightarrow> observation_path list \<Rightarrow>
   observation_path list \<times> observation_path list" where
  "partition_paths ev allowed [] = ([], [])"
| "partition_paths ev allowed (p # ps) =
     (case partition_paths ev allowed ps of (undeclared, applied) \<Rightarrow>
        if is_declared ev p then (undeclared, applied)
        else (case waiver_for allowed p of
                Some w \<Rightarrow> (undeclared, w # applied)
              | None \<Rightarrow> (p # undeclared, applied)))"

definition change_entry :: "policy_evidence \<Rightarrow> pystr \<Rightarrow> observation_path \<Rightarrow> json" where
  "change_entry ev label p =
     (let change = (case pe_changes ev of
            None \<Rightarrow> None
          | Some cs \<Rightarrow> map_of (rev (map (\<lambda>c. (path_str (sc_path c), c)) cs)) (path_str p))
      in JObj
       [(lit ''path'', JStr (path_str p)),
        (lit ''before'', (case change of None \<Rightarrow> JNull | Some c \<Rightarrow> opt_str (sc_before c))),
        (lit ''after'', (case change of None \<Rightarrow> JNull | Some c \<Rightarrow> opt_str (sc_after c))),
        (lit ''attributed_cause'', JStr label)])"

definition effects_published :: "policy_evidence \<Rightarrow> pystr \<times> json" where
  "effects_published ev = (lit ''effect_metadata_published'', JBool (pe_effect_map ev \<noteq> []))"

definition reason_no_diff :: "pystr \<times> json" where
  "reason_no_diff = with_reason
     ''no full-state diff was supplied, so changed paths could not be partitioned into declared and undeclared (FR-157)''"

definition evaluate_no_undeclared_changes ::
  "observation_path list \<Rightarrow> policy \<Rightarrow> policy_evidence \<Rightarrow> finding" where
  "evaluate_no_undeclared_changes allowed p ev =
     (case diffed_paths ev of
        None \<Rightarrow> policy_finding p Cs_NotEvaluated [reason_no_diff]
      | Some changed \<Rightarrow>
          (case partition_paths ev allowed changed of (undeclared, applied) \<Rightarrow>
            (let exemptions = sorted_set applied in
             if undeclared \<noteq> [] then
               (let ordered_paths = sort undeclared; cause = adjacent_cause ev in
                (policy_failure p Cs_Failed Fc_UndeclaredStateChange None
                  [with_reason ''a canonical state path changed that nothing declared'',
                   (lit ''changed_paths'', json_nat (length changed)),
                   (lit ''undeclared_paths'', json_strings (map path_str ordered_paths)),
                   (lit ''undeclared_changes'',
                    JArr (map (change_entry ev (cause_label cause)) ordered_paths)),
                   effects_published ev])
                  \<lparr>fi_paths := ordered_paths, fi_applied_exemptions := exemptions,
                   fi_attributed_cause := Some (cause_document cause)\<rparr>)
             else
               (policy_finding p Cs_Passed
                 [(lit ''changed_paths'', json_nat (length changed)), effects_published ev])
                 \<lparr>fi_applied_exemptions := exemptions\<rparr>)))"

subsection \<open>\<open>stable_tool_surface\<close>\<close>

definition watched_deltas :: "policy_evidence \<Rightarrow> surface_delta list" where
  "watched_deltas ev = filter (\<lambda>d. sd_namespace d = Ns_Target) (pe_observed_surface_deltas ev)"

definition failing_deltas :: "surface_delta_kind list \<Rightarrow> policy_evidence \<Rightarrow> surface_delta list" where
  "failing_deltas kinds ev = filter (\<lambda>d. sd_kind d \<in> set kinds) (watched_deltas ev)"

definition warned_deltas :: "surface_delta_kind list \<Rightarrow> policy_evidence \<Rightarrow> surface_delta list" where
  "warned_deltas kinds ev =
     filter (\<lambda>d. d \<notin> set (failing_deltas kinds ev)) (watched_deltas ev)"

definition delta_kinds :: "surface_delta list \<Rightarrow> json" where
  "delta_kinds ds = json_strings (sorted_set (map (\<lambda>d. surface_delta_kind_value (sd_kind d)) ds))"

text \<open>\<open>repr\<close> of the tool name is a parameter of the rendering, as above.\<close>

definition surface_warnings :: "(pystr \<Rightarrow> pystr) \<Rightarrow> surface_delta list \<Rightarrow> json" where
  "surface_warnings repr_of ds = json_strings
     (map (\<lambda>d. surface_delta_kind_value (sd_kind d) @ lit '' on target tool '' @ repr_of (sd_tool_name d) @
              lit '' was warned, not failed ('' @ [0xA7] @ lit ''9.5)'')
       (sort_key (\<lambda>d. (surface_delta_kind_value (sd_kind d), sd_tool_name d)) ds))"

definition reason_identity :: "pystr \<times> json" where
  "reason_identity = with_reason
     ''a tool's definition at invocation time did not match the armed baseline (FR-169)''"

definition reason_surface :: "pystr \<times> json" where
  "reason_surface = with_reason ''the target tool surface changed outside a declared delta''"

definition reason_no_baseline :: "pystr \<times> json" where
  "reason_no_baseline = reason_text
     (lit ''no tool-surface baseline was recorded for this run ('' @ [0xA7] @ lit ''16.1)'')"

definition evaluate_stable_tool_surface ::
  "(pystr \<Rightarrow> pystr) \<Rightarrow> surface_delta_kind list \<Rightarrow> policy \<Rightarrow> policy_evidence \<Rightarrow> surface_error + finding" where
  "evaluate_stable_tool_surface repr_of kinds p ev =
     (if \<not> pe_surface_baseline_recorded ev then
        Inr (policy_failure p Cs_ObservationUnavailable Fc_ObservationUnavailable None [reason_no_baseline])
      else
        (let failing = failing_deltas kinds ev; warned = warned_deltas kinds ev;
             warnings = surface_warnings repr_of warned;
             mismatched = sorted_set (pe_identity_mismatches ev)
         in if mismatched \<noteq> [] then
              bind_result (map_result delta_document failing) (\<lambda>docs.
                Inr (policy_failure p Cs_Failed Fc_ToolSurfaceMutation None
                  [reason_identity, (lit ''identity_mismatches'', json_strings mismatched),
                   (lit ''failing_delta_kinds'', delta_kinds failing),
                   (lit ''warned_delta_kinds'', delta_kinds warned), (lit ''warnings'', warnings),
                   (lit ''deltas'', JArr docs)]))
            else if failing \<noteq> [] then
              bind_result (map_result delta_document failing) (\<lambda>docs.
                Inr (policy_failure p Cs_Failed Fc_ToolSurfaceMutation None
                  [reason_surface, (lit ''failing_delta_kinds'', delta_kinds failing),
                   (lit ''warned_delta_kinds'', delta_kinds warned), (lit ''warnings'', warnings),
                   (lit ''deltas'', JArr docs)]))
            else Inr (policy_finding p Cs_Passed
              [(lit ''warned_delta_kinds'', delta_kinds warned), (lit ''warnings'', warnings)])))"

subsection \<open>Dispatch\<close>

fun evaluate_policy :: "(pystr \<Rightarrow> pystr) \<Rightarrow> policy \<Rightarrow> policy_evidence \<Rightarrow> surface_error + finding" where
  "evaluate_policy repr_of (RequiresConfirmation tool n) ev =
     Inr (evaluate_requires_confirmation tool (RequiresConfirmation tool n) ev)"
| "evaluate_policy repr_of (Idempotency tool) ev = Inr (evaluate_idempotency tool (Idempotency tool) ev)"
| "evaluate_policy repr_of (MaximumMutations n) ev =
     Inr (evaluate_maximum_mutations n (MaximumMutations n) ev)"
| "evaluate_policy repr_of (ForbiddenTool tool) ev =
     Inr (evaluate_forbidden_tool tool (ForbiddenTool tool) ev)"
| "evaluate_policy repr_of (NoUndeclaredChanges allowed) ev =
     Inr (evaluate_no_undeclared_changes allowed (NoUndeclaredChanges allowed) ev)"
| "evaluate_policy repr_of (StableToolSurface kinds) ev =
     evaluate_stable_tool_surface repr_of kinds (StableToolSurface kinds) ev"

definition evaluate_policies ::
  "(pystr \<Rightarrow> pystr) \<Rightarrow> policy list \<Rightarrow> policy_evidence \<Rightarrow> surface_error + finding list" where
  "evaluate_policies repr_of ps ev = map_result (\<lambda>p. evaluate_policy repr_of p ev) ps"

subsection \<open>Every policy finding is critical and classified\<close>

lemma policy_finding_simps [simp]:
  "fi_check_id (policy_finding p st ev) = policy_type_value (policy_kind p)"
  "fi_check_type (policy_finding p st ev) = Ct_Policy"
  "fi_status (policy_finding p st ev) = st"
  "fi_severity (policy_finding p st ev) = Sev_Critical"
  "fi_classification (policy_finding p st ev) = None"
  "fi_evidence (policy_finding p st ev) = ev"
  by (simp_all add: policy_finding_def)

lemma policy_failure_simps [simp]:
  "fi_check_id (policy_failure p st cl n ev) = policy_type_value (policy_kind p)"
  "fi_check_type (policy_failure p st cl n ev) = Ct_Policy"
  "fi_status (policy_failure p st cl n ev) = st"
  "fi_severity (policy_failure p st cl n ev) = Sev_Critical"
  "fi_classification (policy_failure p st cl n ev) = Some cl"
  "fi_causal_event_sequence (policy_failure p st cl n ev) = n"
  "fi_evidence (policy_failure p st cl n ev) = ev"
  by (simp_all add: policy_failure_def)

definition policy_shape :: "policy \<Rightarrow> finding \<Rightarrow> bool" where
  "policy_shape p f \<longleftrightarrow>
     fi_check_id f = policy_type_value (policy_kind p) \<and> fi_check_type f = Ct_Policy \<and>
     fi_severity f = Sev_Critical \<and> classified f"

lemma policy_finding_shape:
  "st \<noteq> Cs_Failed \<Longrightarrow> st \<noteq> Cs_ObservationUnavailable \<Longrightarrow> policy_shape p (policy_finding p st ev)"
  by (simp add: policy_shape_def classified_def failed_iff)

lemma policy_failure_shape:
  "st = Cs_Failed \<or> st = Cs_ObservationUnavailable \<Longrightarrow> policy_shape p (policy_failure p st cl n ev)"
  by (auto simp: policy_shape_def classified_def failed_iff)

lemma policy_shape_update [simp]:
  "policy_shape p (f\<lparr>fi_paths := x\<rparr>) = policy_shape p f"
  "policy_shape p (f\<lparr>fi_applied_exemptions := y\<rparr>) = policy_shape p f"
  "policy_shape p (f\<lparr>fi_attributed_cause := z\<rparr>) = policy_shape p f"
  by (simp_all add: policy_shape_def classified_def failed_iff)

lemmas policy_shapes = policy_finding_shape policy_failure_shape

lemma judge_requests_shape: "judge_requests p cs rs = Some f \<Longrightarrow> policy_shape p f"
  by (induction rs) (auto simp: Let_def policy_shapes split: if_splits)

lemma evaluate_policy_shape: "evaluate_policy repr_of p ev = Inr f \<Longrightarrow> policy_shape p f"
proof (cases p)
  case (RequiresConfirmation tool n)
  then show "evaluate_policy repr_of p ev = Inr f \<Longrightarrow> ?thesis"
    by (auto simp: evaluate_requires_confirmation_def Let_def policy_shapes split: list.splits)
next
  case (Idempotency tool)
  then show "evaluate_policy repr_of p ev = Inr f \<Longrightarrow> ?thesis"
    by (auto simp: evaluate_idempotency_def Let_def policy_shapes judge_requests_shape split: option.splits)
next
  case (MaximumMutations n)
  then show "evaluate_policy repr_of p ev = Inr f \<Longrightarrow> ?thesis"
    by (auto simp: evaluate_maximum_mutations_def Let_def policy_shapes split: list.splits)
next
  case (ForbiddenTool tool)
  then show "evaluate_policy repr_of p ev = Inr f \<Longrightarrow> ?thesis"
    by (auto simp: evaluate_forbidden_tool_def Let_def policy_shapes split: list.splits)
next
  case (NoUndeclaredChanges allowed)
  then show "evaluate_policy repr_of p ev = Inr f \<Longrightarrow> ?thesis"
    by (auto simp: evaluate_no_undeclared_changes_def Let_def policy_shapes split: option.splits prod.splits)
next
  case (StableToolSurface kinds)
  then show "evaluate_policy repr_of p ev = Inr f \<Longrightarrow> ?thesis"
    by (auto simp: evaluate_stable_tool_surface_def Let_def bind_result_Inr policy_shapes split: if_splits)
qed

interpretation policy_check:
  check_evaluator "evaluate_policy repr_of" "\<lambda>p. policy_type_value (policy_kind p)" Ct_Policy for repr_of
  by unfold_locales (auto dest: evaluate_policy_shape simp: policy_shape_def)

lemma evaluate_policies_critical:
  "evaluate_policies repr_of ps ev = Inr fs \<Longrightarrow> \<forall>f\<in>set fs. fi_severity f = Sev_Critical"
  unfolding evaluate_policies_def
  by (auto dest!: map_result_from evaluate_policy_shape simp: policy_shape_def)

text \<open>Only rendering a surface delta can be refused.\<close>

lemma evaluate_policy_error:
  "evaluate_policy repr_of p ev = Inl e \<Longrightarrow> \<exists>kinds. p = StableToolSurface kinds"
  by (cases p) auto

subsection \<open>Lemmas per policy\<close>

lemma in_starts_for:
  "e \<in> set (starts_for ev tool) \<longleftrightarrow>
     e \<in> set (pe_events ev) \<and> ev_event_type e = Ev_ToolInvocationStarted \<and> ev_tool_name e = Some tool"
  by (auto simp: starts_for_def is_invocation_start_def invocation_start_events_def)

lemma in_completions_for:
  "e \<in> set (completions_for ev tool) \<longleftrightarrow>
     e \<in> set (pe_events ev) \<and> ev_event_type e = Ev_ToolInvocationCompleted \<and> ev_tool_name e = Some tool"
  by (auto simp: completions_for_def)

text \<open>Prior consent: an approval recorded earlier in the run under the same correlation id\<close>

definition prior_approval :: "run_event list \<Rightarrow> run_event \<Rightarrow> bool" where
  "prior_approval events e \<longleftrightarrow>
     (\<exists>a\<in>set events. ev_event_type a = Ev_ConfirmationApproved \<and> ev_correlation_id a \<noteq> None \<and>
        ev_correlation_id a = ev_correlation_id e \<and> ev_sequence_number a < ev_sequence_number e)"

definition mutates :: "run_event \<Rightarrow> bool" where
  "mutates e \<longleftrightarrow>
     (\<exists>h h'. ev_state_hash_before e = Some h \<and> ev_state_hash_after e = Some h' \<and> h \<noteq> h')"

lemma changed_state_mutates: "changed_state e = Some True \<longleftrightarrow> mutates e"
  by (auto simp: changed_state_def mutates_def)

lemma changed_state_None:
  "changed_state e = None \<longleftrightarrow> ev_state_hash_before e = None \<or> ev_state_hash_after e = None"
  by (simp add: changed_state_def)

lemma consented_iff:
  assumes "\<forall>a\<in>set (pe_events ev). ev_correlation_id a \<noteq> Some []"
  shows "consented ev e \<longleftrightarrow> prior_approval (pe_events ev) e"
proof (cases "ev_correlation_id e")
  case None
  then show ?thesis
    using assms by (auto simp: consented_def approvals_before_def approvals_def prior_approval_def)
next
  case (Some c)
  then show ?thesis
    by (auto simp: consented_def approvals_before_def approvals_def prior_approval_def)
qed

lemma requires_confirmation_status:
  "fi_status (evaluate_requires_confirmation tool p ev) =
     (if starts_for ev tool \<noteq> [] \<and> unconsented ev tool \<noteq> [] then Cs_Failed else Cs_Passed)"
  by (auto simp: evaluate_requires_confirmation_def Let_def split: list.splits)

lemma forbidden_tool_status:
  "fi_status (evaluate_forbidden_tool tool p ev) = (if starts_for ev tool \<noteq> [] then Cs_Failed else Cs_Passed)"
  by (auto simp: evaluate_forbidden_tool_def Let_def split: list.splits)

lemma maximum_mutations_status:
  "fi_status (evaluate_maximum_mutations n p ev) =
     (if unknown_completions ev \<noteq> [] then Cs_ObservationUnavailable
      else if n < int (length (mutating_completions ev)) then Cs_Failed else Cs_Passed)"
  by (auto simp: evaluate_maximum_mutations_def Let_def split: list.splits)

lemma judge_requests_None:
  "judge_requests p cs rs = None \<longleftrightarrow>
     (\<forall>r\<in>set rs. (\<forall>e\<in>set (request_group cs r). changed_state e \<noteq> None) \<and> length (group_mutations cs r) \<le> 1)"
  by (induction rs) (auto simp: Let_def)

lemma judge_requests_failing: "judge_requests p cs rs = Some f \<Longrightarrow> fi_status f \<in> {Cs_Failed, Cs_ObservationUnavailable}"
  by (induction rs) (auto simp: Let_def split: if_splits)

lemma count_map_filter_request:
  "count_list (List.map_filter ev_request_id (filter (\<lambda>e. truthy (ev_request_id e)) cs)) r =
     (if r = [] then 0 else length (request_group cs r))"
  by (induction cs) (auto simp: List.map_filter_def request_group_def elim!: truthy.elims)

lemma set_repeated_requests:
  "r \<in> set (repeated_requests cs) \<longleftrightarrow> r \<noteq> [] \<and> 1 < length (request_group cs r)"
proof -
  let ?ids = "List.map_filter ev_request_id (filter (\<lambda>e. truthy (ev_request_id e)) cs)"
  have "r \<in> set (repeated_requests cs) \<longleftrightarrow> r \<in> set ?ids \<and> 1 < count_list ?ids r"
    by (simp add: repeated_requests_def Let_def)
  also have "\<dots> \<longleftrightarrow> 1 < count_list ?ids r"
    by (metis count_list_0_iff less_zeroE)
  finally show ?thesis by (simp add: count_map_filter_request)
qed

lemma idempotency_status:
  "fi_status (evaluate_idempotency tool p ev) = Cs_Passed \<longleftrightarrow>
     (\<forall>r. r \<noteq> [] \<longrightarrow> 1 < length (request_group (completions_for ev tool) r) \<longrightarrow>
        (\<forall>e\<in>set (request_group (completions_for ev tool) r). changed_state e \<noteq> None) \<and>
        length (group_mutations (completions_for ev tool) r) \<le> 1)"
proof -
  let ?cs = "completions_for ev tool"
  have j: "judge_requests p ?cs (repeated_requests ?cs) = None \<longleftrightarrow>
      (\<forall>r. r \<noteq> [] \<longrightarrow> 1 < length (request_group ?cs r) \<longrightarrow>
        (\<forall>e\<in>set (request_group ?cs r). changed_state e \<noteq> None) \<and> length (group_mutations ?cs r) \<le> 1)"
    unfolding judge_requests_None by (auto simp: set_repeated_requests)
  have "fi_status (evaluate_idempotency tool p ev) = Cs_Passed \<longleftrightarrow>
      judge_requests p ?cs (repeated_requests ?cs) = None"
  proof (cases "judge_requests p ?cs (repeated_requests ?cs)")
    case None
    then show ?thesis by (simp add: evaluate_idempotency_def Let_def)
  next
    case (Some f)
    then have "repeated_requests ?cs \<noteq> []" by auto
    moreover have "?cs \<noteq> []" using calculation by (auto simp: repeated_requests_def)
    ultimately show ?thesis
      using Some judge_requests_failing[OF Some] by (auto simp: evaluate_idempotency_def Let_def)
  qed
  then show ?thesis using j by simp
qed


lemma partition_paths_eq:
  "partition_paths ev allowed ps =
     (filter (\<lambda>p. \<not> is_declared ev p \<and> waiver_for allowed p = None) ps,
      List.map_filter (waiver_for allowed) (filter (\<lambda>p. \<not> is_declared ev p) ps))"
  by (induction ps) (auto simp: List.map_filter_simps split: option.splits)

lemma waiver_for_None: "waiver_for allowed p = None \<longleftrightarrow> (\<forall>w\<in>set allowed. \<not> overlaps w p)"
  by (auto simp: waiver_for_def find_None_iff)

definition undeclared :: "policy_evidence \<Rightarrow> observation_path list \<Rightarrow> observation_path \<Rightarrow> bool" where
  "undeclared ev allowed p \<longleftrightarrow>
     (\<forall>d\<in>set (declared_paths ev). \<not> overlaps d p) \<and> (\<forall>w\<in>set allowed. \<not> overlaps w p)"

lemma no_undeclared_changes_cases:
  assumes "diffed_paths ev = Some changed"
  shows "fi_status (evaluate_no_undeclared_changes allowed p ev) =
      (if \<exists>q\<in>set changed. undeclared ev allowed q then Cs_Failed else Cs_Passed)"
    and "fi_paths (evaluate_no_undeclared_changes allowed p ev) = sort (filter (undeclared ev allowed) changed)"
    and "fi_applied_exemptions (evaluate_no_undeclared_changes allowed p ev) =
      sorted_set (List.map_filter (waiver_for allowed) (filter (\<lambda>q. \<not> is_declared ev q) changed))"
proof -
  have f: "filter (\<lambda>p. \<not> is_declared ev p \<and> waiver_for allowed p = None) changed =
      filter (undeclared ev allowed) changed"
    by (simp add: undeclared_def is_declared_def waiver_for_None cong: filter_cong)
  have n: "filter (undeclared ev allowed) changed = [] \<longleftrightarrow> \<not> (\<exists>q\<in>set changed. undeclared ev allowed q)"
    by (simp add: filter_empty_conv)
  show "fi_status (evaluate_no_undeclared_changes allowed p ev) =
      (if \<exists>q\<in>set changed. undeclared ev allowed q then Cs_Failed else Cs_Passed)"
    using n by (simp add: evaluate_no_undeclared_changes_def assms partition_paths_eq f Let_def)
  show "fi_paths (evaluate_no_undeclared_changes allowed p ev) = sort (filter (undeclared ev allowed) changed)"
    by (simp add: evaluate_no_undeclared_changes_def assms partition_paths_eq f Let_def policy_finding_def
        basic_finding_def)
  show "fi_applied_exemptions (evaluate_no_undeclared_changes allowed p ev) =
      sorted_set (List.map_filter (waiver_for allowed) (filter (\<lambda>q. \<not> is_declared ev q) changed))"
    by (simp add: evaluate_no_undeclared_changes_def assms partition_paths_eq Let_def)
qed

lemma no_undeclared_changes_no_diff:
  "diffed_paths ev = None \<Longrightarrow> fi_status (evaluate_no_undeclared_changes allowed p ev) = Cs_NotEvaluated"
  by (simp add: evaluate_no_undeclared_changes_def)

lemma stable_tool_surface_status:
  assumes "evaluate_stable_tool_surface repr_of kinds p ev = Inr f"
  shows "fi_status f =
    (if \<not> pe_surface_baseline_recorded ev then Cs_ObservationUnavailable
     else if pe_identity_mismatches ev \<noteq> [] \<or> failing_deltas kinds ev \<noteq> [] then Cs_Failed
     else Cs_Passed)"
  using assms
  by (auto simp: evaluate_stable_tool_surface_def Let_def bind_result_Inr split: if_splits)

subsection \<open>What each policy decides\<close>

definition no_evidence :: policy_evidence where
  "no_evidence =
     \<lparr>pe_events = [], pe_effect_map = [], pe_contract_paths = [], pe_changed_paths = None,
      pe_changes = None, pe_surface_baseline_recorded = False, pe_identity_mismatches = [],
      pe_observed_surface_deltas = []\<rparr>"

text \<open>
  C18. Consent. The policy fails exactly when the protected tool was started and some completion
  of it that moved the canonical state, or claimed success, has no earlier approval under its
  correlation id. A completion that reports a refusal is no exemption when the hashes moved.
\<close>

theorem consent_verdict:
  assumes "evaluate_policy repr_of (RequiresConfirmation tool n) ev = Inr f"
    and "Some [] \<notin> ev_correlation_id ` set (pe_events ev)"
  shows "fi_status f \<in> {Cs_Passed, Cs_Failed} \<and>
    (fi_status f = Cs_Failed \<longleftrightarrow>
      (\<exists>s\<in>set (pe_events ev). ev_event_type s = Ev_ToolInvocationStarted \<and> ev_tool_name s = Some tool) \<and>
      (\<exists>e\<in>set (pe_events ev). ev_event_type e = Ev_ToolInvocationCompleted \<and> ev_tool_name e = Some tool \<and>
         (mutates e \<or> reported_success e) \<and> \<not> prior_approval (pe_events ev) e))"
proof -
  have f: "f = evaluate_requires_confirmation tool (RequiresConfirmation tool n) ev"
    using assms(1) by simp
  have c: "consented ev e = prior_approval (pe_events ev) e" for e
    using assms(2) by (intro consented_iff) (metis imageI)
  have "unconsented ev tool \<noteq> [] \<longleftrightarrow>
      (\<exists>e\<in>set (completions_for ev tool). needs_consent e \<and> \<not> prior_approval (pe_events ev) e)"
    by (auto simp: unconsented_def filter_empty_conv c)
  moreover have "starts_for ev tool \<noteq> [] \<longleftrightarrow> (\<exists>e. e \<in> set (starts_for ev tool))"
    by (metis list.set_intros(1) neq_Nil_conv equals0D set_empty)
  ultimately show ?thesis
    unfolding f requires_confirmation_status
    by (auto simp: in_starts_for in_completions_for needs_consent_def changed_state_mutates)
qed

definition blocked_but_moved :: run_event where
  "blocked_but_moved = (sample_event 2 Ev_ToolInvocationCompleted Ac_Agent ''pay'')
     \<lparr>ev_reported_status := Some Rs_BlockedByUser,
      ev_state_hash_before := Some (lit ''a''), ev_state_hash_after := Some (lit ''b'')\<rparr>"

definition blocked_run :: policy_evidence where
  "blocked_run = no_evidence
     \<lparr>pe_events := [sample_event 1 Ev_ToolInvocationStarted Ac_Agent ''pay'', blocked_but_moved]\<rparr>"

lemma consent_verdict_witness:
  "fi_status (evaluate_requires_confirmation (lit ''pay'') (RequiresConfirmation (lit ''pay'') 1) blocked_run) =
     Cs_Failed"
proof -
  have e: "evaluate_policy id (RequiresConfirmation (lit ''pay'') 1) blocked_run =
      Inr (evaluate_requires_confirmation (lit ''pay'') (RequiresConfirmation (lit ''pay'') 1) blocked_run)"
    by simp
  have n: "Some [] \<notin> ev_correlation_id ` set (pe_events blocked_run)"
    by (simp add: blocked_run_def blocked_but_moved_def sample_event_def)
  show ?thesis
    using consent_verdict[OF e n]
    by (simp add: blocked_run_def blocked_but_moved_def sample_event_def mutates_def prior_approval_def)
qed

text \<open>
  C19. Idempotency. The policy passes exactly when every request id that was repeated recorded
  its state hashes each time and moved the canonical state at most once; a repeated request whose
  hashes are missing is never a pass.
\<close>

theorem idempotency_verdict:
  "fi_status (evaluate_idempotency tool p ev) = Cs_Passed \<longleftrightarrow>
     {r. r \<noteq> [] \<and> 1 < length (request_group (completions_for ev tool) r) \<and>
        ((\<exists>e\<in>set (request_group (completions_for ev tool) r).
            ev_state_hash_before e = None \<or> ev_state_hash_after e = None) \<or>
         1 < length (filter mutates (request_group (completions_for ev tool) r)))} = {}"
proof -
  have m: "group_mutations cs r = filter mutates (request_group cs r)" for cs r
    by (simp add: group_mutations_def changed_state_mutates)
  show ?thesis
    unfolding idempotency_status by (auto simp: m changed_state_None not_less)
qed

text \<open>
  Undeclared changes. Given a diff, the policy fails exactly when a changed path overlaps no
  declared path and no waiver; the finding lists just those paths in order, and every exemption it
  records as applied is a waiver of the contract.
\<close>

theorem undeclared_changes_verdict:
  assumes "diffed_paths ev = Some changed"
  shows "fi_status (evaluate_no_undeclared_changes allowed p ev) =
      (if \<exists>q\<in>set changed. undeclared ev allowed q then Cs_Failed else Cs_Passed) \<and>
    fi_paths (evaluate_no_undeclared_changes allowed p ev) = sort (filter (undeclared ev allowed) changed) \<and>
    set (fi_applied_exemptions (evaluate_no_undeclared_changes allowed p ev)) \<subseteq> set allowed"
proof -
  have "w \<in> set allowed" if "waiver_for allowed q = Some w" for w q
    using that unfolding waiver_for_def find_Some_iff by (metis nth_mem)
  then have "set (List.map_filter (waiver_for allowed) qs) \<subseteq> set allowed" for qs
    by (auto simp: List.map_filter_def)
  then show ?thesis by (simp add: no_undeclared_changes_cases[OF assms])
qed

definition one_change_run :: policy_evidence where
  "one_change_run = no_evidence \<lparr>pe_changed_paths := Some [items_path]\<rparr>"

lemma undeclared_changes_verdict_witness:
  "fi_status (evaluate_no_undeclared_changes [] (NoUndeclaredChanges []) one_change_run) = Cs_Failed \<and>
   fi_status (evaluate_no_undeclared_changes [items_path] (NoUndeclaredChanges [items_path]) one_change_run) =
     Cs_Passed"
proof -
  have "diffed_paths one_change_run = Some [items_path]"
    by (simp add: one_change_run_def no_evidence_def diffed_paths_def)
  from undeclared_changes_verdict[OF this] show ?thesis
    by (simp add: undeclared_def declared_paths_def executed_tools_def one_change_run_def no_evidence_def)
qed

text \<open>
  C20. The policy on a real diff. When it passes on the diff of two snapshots, every path of the
  grammar that resolves differently before and after overlaps a reported change that a declared
  path or a waiver overlaps: nothing moved in a region no declaration touches.
\<close>

theorem passing_diff_is_accounted_for:
  assumes "diff_states before after = Inr cs" "pe_changes ev = Some cs"
    and "wf_json (JObj before)" "wf_json (JObj after)"
    and "fi_status (evaluate_no_undeclared_changes allowed p ev) \<noteq> Cs_Failed"
    and "wf_path q" "\<not> same_resolution (resolve q before) (resolve q after)"
  shows "\<exists>c\<in>set cs. overlaps q (sc_path c) \<and>
    (\<exists>d\<in>set (declared_paths ev) \<union> set allowed. overlaps d (sc_path c))"
proof -
  obtain c where c: "c \<in> set cs" "overlaps q (sc_path c)"
    using diff_states_covers[OF assms(1,3,4,6,7)] .
  have d: "diffed_paths ev = Some (map sc_path cs)"
    by (simp add: diffed_paths_def assms(2) changed_paths_of_def)
  have "\<not> undeclared ev allowed (sc_path c)"
    using assms(5) c(1) unfolding no_undeclared_changes_cases(1)[OF d] by (auto split: if_splits)
  with c show ?thesis by (auto simp: undeclared_def)
qed

definition declared_flag_run :: policy_evidence where
  "declared_flag_run = no_evidence
     \<lparr>pe_changes := Some [\<lparr>sc_path = Path [lit ''t'', lit ''a''], sc_kind = Added, sc_before = None,
        sc_after = Some (lit ''true'')\<rparr>],
      pe_contract_paths := [Path [lit ''t'']]\<rparr>"

lemma passing_diff_is_accounted_for_witness:
  "overlaps (Path [lit ''t'', lit ''a'']) (Path [lit ''t'', lit ''a'']) \<and>
   (\<exists>d\<in>set (declared_paths declared_flag_run). overlaps d (Path [lit ''t'', lit ''a'']))"
proof -
  have w: "wf_json (JObj no_flag)" "wf_json (JObj (one_flag (lit ''a'')))"
    by (simp_all add: no_flag_def one_flag_def)
  have c: "pe_changes declared_flag_run =
      Some [\<lparr>sc_path = Path [lit ''t'', lit ''a''], sc_kind = Added, sc_before = None, sc_after = Some (lit ''true'')\<rparr>]"
    by (simp add: declared_flag_run_def)
  have d: "declared_paths declared_flag_run = [Path [lit ''t'']]"
    by (simp add: declared_flag_run_def no_evidence_def declared_paths_def executed_tools_def)
  have "fi_status (evaluate_no_undeclared_changes [] (NoUndeclaredChanges []) declared_flag_run) \<noteq> Cs_Failed"
    by (subst no_undeclared_changes_cases(1)[OF diffed_paths_def[THEN trans]])
      (auto simp: c changed_paths_of_def undeclared_def d overlaps_def is_ancestor_of_def)
  moreover have "wf_path (Path [lit ''t'', lit ''a''])"
    by (simp add: wf_path_def lit_def is_letter_def is_digit_def path_str_def max_observation_path_length_def)
  ultimately show ?thesis
    using passing_diff_is_accounted_for[OF diff_one_flag[OF valid_segments_small(2)] c w, of "[]"
        "NoUndeclaredChanges []" "Path [lit ''t'', lit ''a'']"]
    by (simp add: no_flag_def one_flag_def resolve_def d)
qed

text \<open>
  The accounting of C22 is at the granularity of the reported change. A subtree added whole
  is one change at its root, and a declaration of a single member of it excuses all of it: here
  only \<open>t.a.b\<close> is declared, \<open>t.a.c\<close> appeared too, no declaration overlaps it, and the policy passes.
\<close>

definition grown :: jobject where
  "grown = [(lit ''t'', JObj [(lit ''a'', JObj [(lit ''b'', JBool True), (lit ''c'', JBool True)])])]"

definition one_member_declared :: "state_change list \<Rightarrow> policy_evidence" where
  "one_member_declared cs = no_evidence
     \<lparr>pe_changes := Some cs, pe_contract_paths := [Path [lit ''t'', lit ''a'', lit ''b'']]\<rparr>"

lemma excerpt_pair:
  "excerpt max_change_excerpt_chars (JObj [(lit ''b'', JBool True), (lit ''c'', JBool True)]) =
     Inr (lit [CHR ''{'', CHR 34, CHR ''b'', CHR 34] @ lit '':true,'' @ [34, 99, 34] @ lit '':true}'')"
  by (simp add: excerpt_def canonical_text_def max_canonical_depth_def bounded_summary_def
      max_change_excerpt_chars_def max_finding_value_chars_def encode_string_def lit_def
      member_key_def utf16_be_def utf16_be_char_def is_surrogate_def escape_char_def short_escape_def)

theorem declared_member_excuses_siblings:
  "\<exists>cs. diff_states no_flag grown = Inr cs \<and>
     fi_status (evaluate_no_undeclared_changes [] (NoUndeclaredChanges []) (one_member_declared cs)) = Cs_Passed \<and>
     \<not> same_resolution (resolve (Path [lit ''t'', lit ''a'', lit ''c'']) no_flag)
         (resolve (Path [lit ''t'', lit ''a'', lit ''c'']) grown) \<and>
     undeclared (one_member_declared cs) [] (Path [lit ''t'', lit ''a'', lit ''c''])"
proof -
  let ?c = "Path [lit ''t'', lit ''a'', lit ''c'']"
  obtain s where "excerpt max_change_excerpt_chars (JObj [(lit ''b'', JBool True), (lit ''c'', JBool True)]) = Inr s"
    using excerpt_pair by blast
  then have d: "diff_states no_flag grown =
      Inr [\<lparr>sc_path = Path [lit ''t'', lit ''a''], sc_kind = Added, sc_before = None, sc_after = Some s\<rparr>]"
    by (simp add: diff_states_def diff_states_bounded_def no_flag_def grown_def unrepresentable_def
        sorted_set_def concat_result_def one_change_def make_change_def excerpt_unless_def)
  let ?cs = "[\<lparr>sc_path = Path [lit ''t'', lit ''a''], sc_kind = Added, sc_before = None, sc_after = Some s\<rparr>]"
  have p: "declared_paths (one_member_declared ?cs) = [Path [lit ''t'', lit ''a'', lit ''b'']]"
    by (simp add: one_member_declared_def no_evidence_def declared_paths_def executed_tools_def)
  have c: "diffed_paths (one_member_declared ?cs) = Some [Path [lit ''t'', lit ''a'']]"
    by (simp add: one_member_declared_def diffed_paths_def changed_paths_of_def)
  have "fi_status (evaluate_no_undeclared_changes [] (NoUndeclaredChanges []) (one_member_declared ?cs)) = Cs_Passed"
    unfolding no_undeclared_changes_cases(1)[OF c]
    by (simp add: undeclared_def p overlaps_def is_ancestor_of_def)
  moreover have "\<not> same_resolution (resolve ?c no_flag) (resolve ?c grown)"
    by (simp add: no_flag_def grown_def resolve_def)
  moreover have "undeclared (one_member_declared ?cs) [] ?c"
    by (simp add: undeclared_def p overlaps_def is_ancestor_of_def)
  ultimately show ?thesis using d by blast
qed

text \<open>
  The tool surface. The policy passes exactly when a baseline was recorded, no tool's
  identity differed at invocation, and no target-side delta has a kind the policy fails on; without
  a baseline it is unavailable, never a pass.
\<close>

theorem stable_surface_verdict:
  assumes "evaluate_policy repr_of (StableToolSurface kinds) ev = Inr f"
  shows "(fi_status f = Cs_Passed \<longleftrightarrow>
      pe_surface_baseline_recorded ev \<and> pe_identity_mismatches ev = [] \<and>
      {d \<in> set (pe_observed_surface_deltas ev). sd_namespace d = Ns_Target \<and> sd_kind d \<in> set kinds} = {}) \<and>
    (fi_status f = Cs_ObservationUnavailable \<longleftrightarrow> \<not> pe_surface_baseline_recorded ev)"
proof -
  have "failing_deltas kinds ev = [] \<longleftrightarrow>
      {d \<in> set (pe_observed_surface_deltas ev). sd_namespace d = Ns_Target \<and> sd_kind d \<in> set kinds} = {}"
    by (auto simp: failing_deltas_def watched_deltas_def filter_empty_conv)
  then show ?thesis
    using stable_tool_surface_status[of repr_of kinds "StableToolSurface kinds" ev f] assms by auto
qed

lemma stable_surface_verdict_witness:
  "fi_status (policy_failure (StableToolSurface [Sd_SchemaChange]) Cs_ObservationUnavailable
     Fc_ObservationUnavailable None [reason_no_baseline]) = Cs_ObservationUnavailable"
proof -
  have "evaluate_policy id (StableToolSurface [Sd_SchemaChange]) no_evidence =
      Inr (policy_failure (StableToolSurface [Sd_SchemaChange]) Cs_ObservationUnavailable
        Fc_ObservationUnavailable None [reason_no_baseline])"
    by (simp add: evaluate_stable_tool_surface_def no_evidence_def)
  from stable_surface_verdict[OF this] show ?thesis by (simp add: no_evidence_def)
qed

end
