(* ===== verification/Kernel.thy ===== *)
theory Kernel
  imports Prelude
begin

section \<open>Instants\<close>

text \<open>
  The instants of \<open>kernel.py\<close> and their one spelling. An instant is a number of microseconds
  since 0001-01-01T00:00:00 in UTC, the origin of Python's \<open>datetime\<close>; the calendar is the
  proleptic Gregorian one that \<open>isoformat\<close> prints.
\<close>

subsection \<open>The calendar\<close>

definition leap_year :: "nat \<Rightarrow> bool" where
  "leap_year y \<longleftrightarrow> y mod 4 = 0 \<and> (y mod 100 \<noteq> 0 \<or> y mod 400 = 0)"

definition days_in_year :: "nat \<Rightarrow> nat" where
  "days_in_year y = (if leap_year y then 366 else 365)"

definition month_lengths :: "nat \<Rightarrow> nat list" where
  "month_lengths y = [31, if leap_year y then 29 else 28, 31, 30, 31, 30, 31, 31, 30, 31, 30, 31]"

text \<open>The year a day number falls in, counted from a first year, and the day within it\<close>

function year_of_day :: "nat \<Rightarrow> nat \<Rightarrow> nat \<times> nat" where
  "year_of_day y d = (if d < days_in_year y then (y, d) else year_of_day (Suc y) (d - days_in_year y))"
  by auto
termination
  by (relation "measure snd") (auto simp: days_in_year_def split: if_splits)

declare year_of_day.simps [simp del]

fun month_of_day :: "nat list \<Rightarrow> nat \<Rightarrow> nat \<Rightarrow> nat \<times> nat" where
  "month_of_day [] m d = (m, d)"
| "month_of_day (l # ls) m d = (if d < l then (m, d) else month_of_day ls (Suc m) (d - l))"

text \<open>The day number back from its parts\<close>

definition days_before_year :: "nat \<Rightarrow> nat" where
  "days_before_year y = (let p = y - 1 in p * 365 + p div 4 + p div 400 - p div 100)"

lemma mod_factor_zero:
  fixes n :: nat
  shows "n mod 100 = 0 \<Longrightarrow> n mod 4 = 0" "n mod 400 = 0 \<Longrightarrow> n mod 100 = 0"
  using mod_mod_cancel[of 4 100 n] mod_mod_cancel[of 100 400 n] by simp_all

lemma days_before_Suc:
  assumes "0 < y"
  shows "days_before_year (Suc y) = days_before_year y + days_in_year y"
proof -
  obtain p where y: "y = Suc p" using assms by (cases y) auto
  have "p div 100 \<le> p" by simp
  then have le: "p div 100 \<le> p * 365 + p div 4 + p div 400" by linarith
  have "days_before_year (Suc y) + Suc p div 100 = Suc p * 365 + Suc p div 4 + Suc p div 400"
    using div_le_dividend[of "Suc p" 100] unfolding days_before_year_def y Let_def by simp
  moreover have "days_before_year y + p div 100 = p * 365 + p div 4 + p div 400"
    using le unfolding days_before_year_def y Let_def by simp
  moreover have "Suc p div 4 = p div 4 + (if Suc p mod 4 = 0 then 1 else 0)"
    "Suc p div 100 = p div 100 + (if Suc p mod 100 = 0 then 1 else 0)"
    "Suc p div 400 = p div 400 + (if Suc p mod 400 = 0 then 1 else 0)"
    by (simp_all only: div_Suc split: if_splits) simp_all
  ultimately show ?thesis
    using mod_factor_zero[of "Suc p"] unfolding y days_in_year_def leap_year_def
    by (simp split: if_splits)
qed

lemma year_of_day_sound:
  "0 < y \<Longrightarrow> year_of_day y d = (y', d') \<Longrightarrow>
   0 < y' \<and> days_before_year y' + d' = days_before_year y + d \<and> d' < days_in_year y'"
proof (induction y d rule: year_of_day.induct)
  case (1 y d)
  show ?case
  proof (cases "d < days_in_year y")
    case True
    then show ?thesis using 1 by (simp add: year_of_day.simps[of y d])
  next
    case False
    then have "year_of_day (Suc y) (d - days_in_year y) = (y', d')"
      using "1.prems" by (simp add: year_of_day.simps[of y d])
    from "1.IH"[OF False _ this] show ?thesis
      using False "1.prems" by (simp add: days_before_Suc)
  qed
qed

lemma month_of_day_sound:
  "month_of_day ls m d = (m', d') \<Longrightarrow> m \<le> m' \<and> m' - m \<le> length ls \<and> sum_list (take (m' - m) ls) + d' = d"
proof (induction ls m d arbitrary: m' d' rule: month_of_day.induct)
  case (2 l ls m d)
  show ?case
  proof (cases "d < l")
    case True
    then show ?thesis using 2 by simp
  next
    case False
    then have "Suc m \<le> m' \<and> m' - Suc m \<le> length ls \<and> sum_list (take (m' - Suc m) ls) + d' = d - l"
      using 2 by simp
    moreover then have "m' - m = Suc (m' - Suc m)" by linarith
    ultimately show ?thesis using False by (cases "m' - m") auto
  qed
qed simp

subsection \<open>\<open>isoformat\<close>\<close>

definition pad_digits :: "nat \<Rightarrow> nat \<Rightarrow> pystr" where
  "pad_digits k n = replicate (k - length (show_nat n)) 48 @ show_nat n"

lemma read_zeros: "read_nat (replicate k 48) 0 = 0"
  by (induction k) auto

lemma read_pad [simp]: "read_nat (pad_digits k n) 0 = n"
  by (simp add: pad_digits_def read_nat_append read_zeros)

lemma length_show_nat: "n < 10 ^ k \<Longrightarrow> 0 < k \<Longrightarrow> length (show_nat n) \<le> k"
proof (induction n arbitrary: k rule: show_nat.induct)
  case (1 n)
  show ?case
  proof (cases "n < 10")
    case True
    then show ?thesis using 1 by (simp add: show_nat.simps[of n])
  next
    case False
    obtain j where k: "k = Suc j" using 1 by (cases k) auto
    moreover have "0 < j" using 1 False k by (cases j) auto
    ultimately have k: "k = Suc j" "0 < j" by auto
    have "n div 10 < 10 ^ j"
      using "1.prems" k by (simp add: less_mult_imp_div_less mult.commute)
    then have "length (show_nat (n div 10)) \<le> j"
      using "1.IH"[OF False] k by blast
    then show ?thesis using False k by (simp add: show_nat.simps[of n])
  qed
qed

lemma length_pad: "n < 10 ^ k \<Longrightarrow> 0 < k \<Longrightarrow> length (pad_digits k n) = k"
  by (simp add: pad_digits_def length_show_nat)

definition micros_per_second :: nat where "micros_per_second = 1000000"

definition max_instant :: nat where
  "max_instant = 3652059 * (86400 * 1000000) - 1"

definition date_text :: "nat \<Rightarrow> pystr" where
  "date_text day =
     (case year_of_day 1 day of (y, d) \<Rightarrow>
        (case month_of_day (month_lengths y) 1 d of (m, dd) \<Rightarrow>
          pad_digits 4 y @ [45] @ pad_digits 2 m @ [45] @ pad_digits 2 (Suc dd)))"

definition time_text :: "nat \<Rightarrow> pystr" where
  "time_text s =
     pad_digits 2 (s div 3600) @ [58] @ pad_digits 2 (s mod 3600 div 60) @ [58] @ pad_digits 2 (s mod 60)"

definition fraction_text :: "nat \<Rightarrow> pystr" where
  "fraction_text us = (if us = 0 then [] else [46] @ pad_digits 6 us)"

definition isoformat_z :: "nat \<Rightarrow> pystr" where
  "isoformat_z t =
     (let seconds = t div micros_per_second; us = t mod micros_per_second in
      date_text (seconds div 86400) @ [84] @ time_text (seconds mod 86400) @ fraction_text us @ [90])"

text \<open>
  A \<open>datetime\<close> as it arrives: naive, or with an offset from UTC in microseconds; a naive one is
  refused. An offset that leaves the range of \<open>datetime\<close> raises there.
\<close>

datatype stored_datetime = Naive nat | Aware nat int

datatype instant_error = NaiveInstant | InstantOutOfRange

definition require_utc :: "stored_datetime \<Rightarrow> instant_error + nat" where
  "require_utc v =
     (case v of
        Naive _ \<Rightarrow> Inl NaiveInstant
      | Aware t off \<Rightarrow>
          (let u = int t - off in
           if u < 0 \<or> int max_instant < u then Inl InstantOutOfRange else Inr (nat u)))"

definition format_instant :: "stored_datetime \<Rightarrow> instant_error + pystr" where
  "format_instant v = bind_result (require_utc v) (\<lambda>t. Inr (isoformat_z t))"

subsection \<open>One spelling per instant\<close>

lemma append_eq_parts:
  "length xs = length ys \<Longrightarrow> xs @ us = ys @ vs \<longleftrightarrow> xs = ys \<and> us = vs"
  by simp

lemma pad_inject: "pad_digits k m = pad_digits k n \<longleftrightarrow> m = n"
  by (metis read_pad)

lemma year_bound:
  assumes "year_of_day 1 day = (y, d)" "day < 3652059"
  shows "y < 10000"
proof (rule ccontr)
  assume "\<not> y < 10000"
  then have "10000 \<le> y" by simp
  then have "days_before_year 10000 \<le> days_before_year y"
    by (induction rule: dec_induct) (simp_all add: days_before_Suc)
  moreover have "days_before_year 10000 = 3652059" by (simp add: days_before_year_def)
  moreover have "days_before_year 1 = 0" by (simp add: days_before_year_def)
  ultimately show False using year_of_day_sound[OF _ assms(1)] assms(2) by simp
qed

lemma month_of_day_bound:
  "d < sum_list ls \<Longrightarrow> month_of_day ls m d = (m', d') \<Longrightarrow>
   m' < m + length ls \<and> (\<exists>l\<in>set ls. d' < l)"
proof (induction ls m d rule: month_of_day.induct)
  case (2 l ls m d)
  then show ?case by (auto split: if_splits)
qed simp

lemma sum_month_lengths: "sum_list (month_lengths y) = days_in_year y"
  by (simp add: month_lengths_def days_in_year_def)

text \<open>The parts a date prints, their bounds, and the day number back\<close>

lemma date_parts:
  assumes "day < 3652059"
  obtains y m dd where
    "date_text day = pad_digits 4 y @ [45] @ pad_digits 2 m @ [45] @ pad_digits 2 (Suc dd)"
    "y < 10 ^ 4" "m < 10 ^ 2" "Suc dd < 10 ^ 2"
    "day = days_before_year y + sum_list (take (m - 1) (month_lengths y)) + dd"
proof -
  obtain y d where y: "year_of_day 1 day = (y, d)" by force
  obtain m dd where m: "month_of_day (month_lengths y) 1 d = (m, dd)" by force
  have 1: "days_before_year y + d = day" "d < days_in_year y"
    using year_of_day_sound[OF _ y] by (simp_all add: days_before_year_def)
  have 2: "m < 1 + length (month_lengths y)" "\<exists>l\<in>set (month_lengths y). dd < l"
    using month_of_day_bound[OF _ m] 1(2) by (simp_all add: sum_month_lengths)
  have 3: "sum_list (take (m - 1) (month_lengths y)) + dd = d"
    using month_of_day_sound[OF m] by simp
  show ?thesis
  proof (rule that)
    show "date_text day = pad_digits 4 y @ [45] @ pad_digits 2 m @ [45] @ pad_digits 2 (Suc dd)"
      using y m by (simp add: date_text_def)
    show "y < 10 ^ 4" using year_bound[OF y assms] by simp
    show "m < 10 ^ 2" using 2(1) by (simp add: month_lengths_def)
    show "Suc dd < 10 ^ 2" using 2(2) by (auto simp: month_lengths_def split: if_splits)
    show "day = days_before_year y + sum_list (take (m - 1) (month_lengths y)) + dd"
      using 1(1) 3 by simp
  qed
qed

lemma length_date_text: "day < 3652059 \<Longrightarrow> length (date_text day) = 10"
  by (erule date_parts) (simp add: length_pad)

lemma date_text_inject:
  assumes "day < 3652059" "day' < 3652059" "date_text day = date_text day'"
  shows "day = day'"
proof -
  obtain y m dd where 1:
    "date_text day = pad_digits 4 y @ [45] @ pad_digits 2 m @ [45] @ pad_digits 2 (Suc dd)"
    "y < 10 ^ 4" "m < 10 ^ 2" "Suc dd < 10 ^ 2"
    "day = days_before_year y + sum_list (take (m - 1) (month_lengths y)) + dd"
    using date_parts[OF assms(1)] .
  obtain y' m' dd' where 2:
    "date_text day' = pad_digits 4 y' @ [45] @ pad_digits 2 m' @ [45] @ pad_digits 2 (Suc dd')"
    "y' < 10 ^ 4" "m' < 10 ^ 2" "Suc dd' < 10 ^ 2"
    "day' = days_before_year y' + sum_list (take (m' - 1) (month_lengths y')) + dd'"
    using date_parts[OF assms(2)] .
  have "y = y' \<and> m = m' \<and> dd = dd'"
    using assms(3) 1(2-4) 2(2-4) by (simp add: 1(1) 2(1) length_pad pad_inject)
  then show ?thesis by (simp add: 1(5) 2(5))
qed

lemma length_time_text: "s < 86400 \<Longrightarrow> length (time_text s) = 8"
  by (simp add: time_text_def length_pad less_mult_imp_div_less)

lemma time_text_inject:
  assumes "s < 86400" "s' < 86400" "time_text s = time_text s'"
  shows "s = s'"
proof -
  have b: "s div 3600 < 10 ^ 2" "s' div 3600 < 10 ^ 2" using assms(1,2) by simp_all
  have "s div 3600 = s' div 3600 \<and> s mod 3600 div 60 = s' mod 3600 div 60 \<and> s mod 60 = s' mod 60"
    using assms(3) b by (simp add: time_text_def length_pad pad_inject less_mult_imp_div_less)
  moreover have "x = 3600 * (x div 3600) + 60 * (x mod 3600 div 60) + x mod 60" for x :: nat
  proof -
    have "x mod 3600 mod 60 = x mod 60" by (rule mod_mod_cancel) simp
    then show ?thesis using mult_div_mod_eq[of 3600 x] mult_div_mod_eq[of 60 "x mod 3600"] by linarith
  qed
  ultimately show ?thesis by metis
qed

lemma fraction_text_inject:
  assumes "u < 1000000" "v < 1000000" "fraction_text u @ [90] = fraction_text v @ [90]"
  shows "u = v"
  using assms by (auto simp: fraction_text_def pad_inject split: if_splits)

lemma isoformat_z_inject:
  assumes "t \<le> max_instant" "t' \<le> max_instant" "isoformat_z t = isoformat_z t'"
  shows "t = t'"
proof -
  have day: "x div micros_per_second div 86400 < 3652059" if "x \<le> max_instant" for x
    using that by (simp add: max_instant_def micros_per_second_def div_mult2_eq[symmetric])
  have "date_text (t div micros_per_second div 86400) = date_text (t' div micros_per_second div 86400) \<and>
      time_text (t div micros_per_second mod 86400) = time_text (t' div micros_per_second mod 86400) \<and>
      fraction_text (t mod micros_per_second) @ [90] = fraction_text (t' mod micros_per_second) @ [90]"
    using assms(3) day[OF assms(1)] day[OF assms(2)]
    by (simp add: isoformat_z_def Let_def length_date_text length_time_text)
  then have "t div micros_per_second div 86400 = t' div micros_per_second div 86400"
    "t div micros_per_second mod 86400 = t' div micros_per_second mod 86400"
    "t mod micros_per_second = t' mod micros_per_second"
    using date_text_inject[OF day[OF assms(1)] day[OF assms(2)]]
    by (auto intro: time_text_inject fraction_text_inject simp: micros_per_second_def)
  then show ?thesis by (metis div_mult_mod_eq)
qed

text \<open>
  One spelling per instant: within the range of \<open>datetime\<close> two stored instants print alike
  exactly when they are the same moment, whatever offsets they arrived with; a naive one is refused.
\<close>

theorem format_instant_faithful:
  assumes "require_utc v = Inr t" "require_utc w = Inr u"
  shows "format_instant v = format_instant w \<longleftrightarrow> t = u"
proof -
  have "t \<le> max_instant" "u \<le> max_instant"
    using assms by (auto simp: require_utc_def Let_def split: stored_datetime.splits if_splits)
  then show ?thesis using isoformat_z_inject assms by (auto simp: format_instant_def)
qed

lemma format_instant_faithful_witness:
  "format_instant (Aware 3600000000 3600000000) = format_instant (Aware 0 0)"
  using format_instant_faithful[of "Aware 3600000000 3600000000" 0 "Aware 0 0" 0]
  by (simp add: require_utc_def max_instant_def)

lemma common_prefix_less: "xs @ ys < xs @ zs \<longleftrightarrow> ys < (zs :: nat list)"
  by (induction xs) auto

text \<open>
  The spelling does not sort like the instants. The fraction is left out when it is zero, and
  the full stop of a fraction sorts before the final letter, so a later moment can print earlier.
\<close>

theorem instant_text_order_differs:
  "\<exists>t u. t < u \<and> u \<le> max_instant \<and> isoformat_z u < isoformat_z t"
proof (intro exI conjI)
  show "(0::nat) < 1" "(1::nat) \<le> max_instant" by (simp_all add: max_instant_def)
  show "isoformat_z 1 < isoformat_z 0"
    by (simp add: isoformat_z_def micros_per_second_def Let_def fraction_text_def common_prefix_less)
qed

end
