(* ===== verification/Lifecycle.thy ===== *)
theory Lifecycle
  imports Vocabulary
begin

section \<open>Lifecycles and guidance\<close>

text \<open>
  \<open>journeys/transitions.py\<close>: the transition tables of outcome runs, eval runs and benchmark suites
  and the validation of a move. \<open>journeys/guidance.py\<close>: the workspace phase a run state puts a
  person in, and the guidance published for each phase. The tables are typed, so a state of one
  machine cannot be looked up in another's table; \<open>reset\<close> is no state.
\<close>

subsection \<open>Transition tables\<close>

fun run_transitions :: "run_state \<Rightarrow> run_state list" where
  "run_transitions Run_Armed = [Run_Running, Run_Cancelled, Run_Error]"
| "run_transitions Run_Proposing = [Run_Capturing, Run_Cancelled, Run_Error]"
| "run_transitions Run_Capturing = [Run_Proposed, Run_Cancelled, Run_Error]"
| "run_transitions Run_Proposed = []"
| "run_transitions Run_Running = [Run_AwaitingConfirmation, Run_Verifying, Run_Cancelled, Run_Error]"
| "run_transitions Run_AwaitingConfirmation = [Run_Running, Run_Cancelled, Run_Error]"
| "run_transitions Run_Verifying = [Run_Passed, Run_PassedWithWarnings, Run_Failed, Run_Error]"
| "run_transitions Run_Passed = []"
| "run_transitions Run_PassedWithWarnings = []"
| "run_transitions Run_Failed = []"
| "run_transitions Run_Error = []"
| "run_transitions Run_Cancelled = []"

fun eval_run_transitions :: "eval_run_state \<Rightarrow> eval_run_state list" where
  "eval_run_transitions Er_Queued = [Er_Running, Er_Cancelled, Er_Error]"
| "eval_run_transitions Er_Running = [Er_Passed, Er_Failed, Er_Cancelled, Er_Error]"
| "eval_run_transitions Er_Passed = []"
| "eval_run_transitions Er_Failed = []"
| "eval_run_transitions Er_Cancelled = []"
| "eval_run_transitions Er_Error = []"

fun benchmark_suite_transitions :: "benchmark_suite_state \<Rightarrow> benchmark_suite_state list" where
  "benchmark_suite_transitions Bs_Draft = [Bs_Ready, Bs_Cancelled, Bs_Error]"
| "benchmark_suite_transitions Bs_Ready = [Bs_Running, Bs_Completed, Bs_Cancelled, Bs_Error]"
| "benchmark_suite_transitions Bs_Running = [Bs_Completed, Bs_Cancelled, Bs_Error]"
| "benchmark_suite_transitions Bs_Completed = []"
| "benchmark_suite_transitions Bs_Cancelled = []"
| "benchmark_suite_transitions Bs_Error = []"

datatype transition_error = TransitionNotPermitted

definition validate_transition :: "('s \<Rightarrow> 's list) \<Rightarrow> 's \<Rightarrow> 's \<Rightarrow> transition_error + unit" where
  "validate_transition transitions current target =
     (if target \<notin> set (transitions current) then Inl TransitionNotPermitted else Inr ())"

definition validate_run_transition :: "run_state \<Rightarrow> run_state \<Rightarrow> transition_error + unit" where
  "validate_run_transition = validate_transition run_transitions"

definition validate_eval_run_transition :: "eval_run_state \<Rightarrow> eval_run_state \<Rightarrow> transition_error + unit" where
  "validate_eval_run_transition = validate_transition eval_run_transitions"

definition validate_benchmark_suite_transition ::
  "benchmark_suite_state \<Rightarrow> benchmark_suite_state \<Rightarrow> transition_error + unit" where
  "validate_benchmark_suite_transition = validate_transition benchmark_suite_transitions"

definition proposal_run_states :: "run_state list" where
  "proposal_run_states = [Run_Proposing, Run_Capturing, Run_Proposed]"

definition verdict_run_states :: "run_state list" where
  "verdict_run_states = [Run_Passed, Run_PassedWithWarnings, Run_Failed]"

definition is_terminal :: "('s \<Rightarrow> 's list) \<Rightarrow> 's \<Rightarrow> bool" where
  "is_terminal transitions s \<longleftrightarrow> transitions s = []"

text \<open>Every run state is a key of the table, so a reset is always possible.\<close>

fun can_reset :: "run_state \<Rightarrow> bool" where
  "can_reset s = True"

subsection \<open>The machine the tables describe\<close>

inductive run_path :: "run_state \<Rightarrow> run_state list \<Rightarrow> run_state \<Rightarrow> bool" where
  run_path_refl: "run_path s [] s"
| run_path_step: "validate_run_transition s t = Inr () \<Longrightarrow> run_path t ts u \<Longrightarrow> run_path s (t # ts) u"

lemma validate_transition_iff: "validate_transition f s t = Inr () \<longleftrightarrow> t \<in> set (f s)"
  by (simp add: validate_transition_def)

lemma validate_run_transition_iff: "validate_run_transition s t = Inr () \<longleftrightarrow> t \<in> set (run_transitions s)"
  by (simp add: validate_run_transition_def validate_transition_iff)

lemma run_transition_self: "t \<in> set (run_transitions s) \<Longrightarrow> t \<noteq> s"
  by (cases s) auto

lemma verdict_only_from_verifying:
  "t \<in> set (run_transitions s) \<Longrightarrow> t \<in> set verdict_run_states \<Longrightarrow> s = Run_Verifying"
  by (cases s) (auto simp: verdict_run_states_def)

lemma proposal_closed:
  "t \<in> set (run_transitions s) \<Longrightarrow>
   s \<in> set proposal_run_states \<Longrightarrow> t \<in> set proposal_run_states \<union> {Run_Cancelled, Run_Error}"
  by (cases s) (auto simp: proposal_run_states_def)

lemma run_path_proposal:
  "run_path s ts u \<Longrightarrow> s \<in> set proposal_run_states \<union> {Run_Cancelled, Run_Error} \<Longrightarrow>
   set ts \<subseteq> set proposal_run_states \<union> {Run_Cancelled, Run_Error}"
proof (induction rule: run_path.induct)
  case (run_path_step s t ts u)
  then have "t \<in> set proposal_run_states \<union> {Run_Cancelled, Run_Error}"
    using proposal_closed[of t s] by (auto simp: validate_run_transition_iff)
  then show ?case using run_path_step by simp
qed simp

lemma run_path_verdict:
  "run_path s ts u \<Longrightarrow> u \<in> set verdict_run_states \<Longrightarrow> s \<notin> set verdict_run_states \<Longrightarrow>
   ts \<noteq> [] \<and> last ts = u \<and> (s # ts) ! (length ts - 1) = Run_Verifying"
proof (induction rule: run_path.induct)
  case (run_path_step s t ts u)
  show ?case
  proof (cases "t \<in> set verdict_run_states")
    case True
    then have v: "s = Run_Verifying"
      using run_path_step verdict_only_from_verifying by (simp add: validate_run_transition_iff)
    from run_path_step.hyps(2) True have "ts = [] \<and> u = t"
      by (cases rule: run_path.cases) (auto simp: validate_run_transition_iff verdict_run_states_def)
    with v show ?thesis by simp
  next
    case False
    then show ?thesis using run_path_step by (auto simp: nth_Cons split: nat.splits)
  qed
qed simp

text \<open>
  The run machine. A run reaches a verdict only by a last move out of \<open>verifying\<close>; a proposal
  run only ever becomes proposed, cancelled or an error; and a terminal state is left by no move.
\<close>

theorem verdict_through_verifying:
  assumes "run_path s ts u" "s \<notin> set verdict_run_states"
  shows "(u \<in> set verdict_run_states \<longrightarrow> ts \<noteq> [] \<and> (s # ts) ! (length ts - 1) = Run_Verifying) \<and>
    (s \<in> set proposal_run_states \<longrightarrow> set ts \<subseteq> set proposal_run_states \<union> {Run_Cancelled, Run_Error}) \<and>
    (is_terminal run_transitions s \<longrightarrow> ts = [])"
proof -
  have "ts = []" if "is_terminal run_transitions s"
    using assms(1) that by (cases rule: run_path.cases) (auto simp: is_terminal_def validate_run_transition_iff)
  then show ?thesis
    using run_path_verdict[OF assms(1)] run_path_proposal[OF assms(1)] assms(2) by blast
qed

lemma verdict_through_verifying_witness:
  "run_path Run_Armed [Run_Running, Run_Verifying, Run_Passed] Run_Passed \<and>
   [Run_Armed, Run_Running, Run_Verifying, Run_Passed] ! 2 = Run_Verifying"
proof -
  have p: "run_path Run_Armed [Run_Running, Run_Verifying, Run_Passed] Run_Passed"
    by (intro run_path.intros) (simp_all add: validate_run_transition_iff)
  then show ?thesis
    using verdict_through_verifying[OF p] by (simp add: verdict_run_states_def)
qed

subsection \<open>Guidance\<close>

record guidance_state =
  gs_phase :: workspace_phase
  gs_active_actor :: guidance_actor
  gs_next_actor :: "guidance_actor option"
  gs_headline :: pystr
  gs_instruction :: pystr
  gs_reason :: pystr
  gs_expected_consequence :: pystr
  gs_action_code :: "guidance_action_code option"
  gs_recovery_action_code :: "guidance_action_code option"
  gs_waiting_for :: "pystr option"
  gs_requires_human_input :: bool
  gs_correlation_id :: "pystr option"

fun phase_by_run_state :: "run_state \<Rightarrow> workspace_phase" where
  "phase_by_run_state Run_Armed = Wp_Armed"
| "phase_by_run_state Run_Proposing = Wp_Proposing"
| "phase_by_run_state Run_Capturing = Wp_Proposing"
| "phase_by_run_state Run_Proposed = Wp_Candidates"
| "phase_by_run_state Run_Running = Wp_Running"
| "phase_by_run_state Run_AwaitingConfirmation = Wp_AwaitingConfirmation"
| "phase_by_run_state Run_Verifying = Wp_Verifying"
| "phase_by_run_state Run_Passed = Wp_Passed"
| "phase_by_run_state Run_PassedWithWarnings = Wp_PassedWithWarnings"
| "phase_by_run_state Run_Failed = Wp_Failed"
| "phase_by_run_state Run_Error = Wp_Error"
| "phase_by_run_state Run_Cancelled = Wp_Cancelled"

definition eval_capable_run_states :: "run_state list" where
  "eval_capable_run_states = [Run_Failed, Run_PassedWithWarnings]"

definition phase_for :: "bool \<Rightarrow> run_state option \<Rightarrow> bool \<Rightarrow> bool \<Rightarrow> workspace_phase" where
  "phase_for has_contract run_state regression_case_ready regression_replay_open =
     (case run_state of
        Some s \<Rightarrow>
          if s \<in> set eval_capable_run_states \<and> regression_replay_open then Wp_EvalRunning
          else if s \<in> set eval_capable_run_states \<and> regression_case_ready then Wp_EvalReady
          else phase_by_run_state s
      | None \<Rightarrow> if has_contract then Wp_ContractReady else Wp_NoContract)"

fun guidance_template :: "workspace_phase \<Rightarrow> guidance_state" where
  "guidance_template Wp_NoContract =
     \<lparr>gs_phase = Wp_NoContract,
      gs_active_actor = Ga_Operator,
      gs_next_actor = Some Ga_Agent,
      gs_headline = lit ''Choose what this run should prove.'',
      gs_instruction = lit ''Select one of the built-in contracts to judge the next run against.'',
      gs_reason = lit ''A run needs a contract; without one there is nothing to compare against.'',
      gs_expected_consequence = lit ''The contract and its target become the workspace's selection, and the run can be armed.'',
      gs_action_code = Some Gc_SelectContract,
      gs_recovery_action_code = None,
      gs_waiting_for = None,
      gs_requires_human_input = True,
      gs_correlation_id = None\<rparr>"
| "guidance_template Wp_ContractReady =
     \<lparr>gs_phase = Wp_ContractReady,
      gs_active_actor = Ga_Operator,
      gs_next_actor = Some Ga_Agent,
      gs_headline = lit ''Arm the run.'',
      gs_instruction = lit ''Arm the selected contract to capture the target's starting state.'',
      gs_reason = lit ''Arming records the configuration and one authoritative observation, so the outcome can later be compared against a baseline nobody edited.'',
      gs_expected_consequence = lit ''A run is created in `armed`, its initial snapshot is stored, and the agent may begin using target tools.'',
      gs_action_code = Some Gc_ArmRun,
      gs_recovery_action_code = None,
      gs_waiting_for = None,
      gs_requires_human_input = True,
      gs_correlation_id = None\<rparr>"
| "guidance_template Wp_Armed =
     \<lparr>gs_phase = Wp_Armed,
      gs_active_actor = Ga_Agent,
      gs_next_actor = Some Ga_Agent,
      gs_headline = lit ''The run is armed. Work the task.'',
      gs_instruction = lit ''Use the target's tools to carry out the task the contract describes.'',
      gs_reason = lit ''The starting state is recorded, so every change from here on is attributable to an action on the timeline.'',
      gs_expected_consequence = lit ''Each tool call is recorded with what it reported and what was independently observed immediately afterwards.'',
      gs_action_code = Some Gc_InvokeTargetTool,
      gs_recovery_action_code = Some Gc_ResetWorkspace,
      gs_waiting_for = None,
      gs_requires_human_input = False,
      gs_correlation_id = None\<rparr>"
| "guidance_template Wp_Running =
     \<lparr>gs_phase = Wp_Running,
      gs_active_actor = Ga_Agent,
      gs_next_actor = Some Ga_System,
      gs_headline = lit ''Continue, then verify when the task is done.'',
      gs_instruction = lit ''Continue with the target's tools, and verify the outcome when the task is complete.'',
      gs_reason = lit ''Verification is what turns recorded actions into a judged outcome; until it runs, nothing has been decided.'',
      gs_expected_consequence = lit ''Verification captures final state, evaluates the contract, and produces a report that stands on independent observation.'',
      gs_action_code = Some Gc_VerifyOutcome,
      gs_recovery_action_code = Some Gc_ResetWorkspace,
      gs_waiting_for = None,
      gs_requires_human_input = False,
      gs_correlation_id = None\<rparr>"
| "guidance_template Wp_AwaitingConfirmation =
     \<lparr>gs_phase = Wp_AwaitingConfirmation,
      gs_active_actor = Ga_HumanApprover,
      gs_next_actor = Some Ga_Agent,
      gs_headline = lit ''A protected action needs a person's decision.'',
      gs_instruction = lit ''Review the pending action and choose Approve once or Deny.'',
      gs_reason = lit ''This action changes state that cannot be undone by retrying, so it proceeds only on an explicit decision made by a person.'',
      gs_expected_consequence = lit ''Approving lets this one invocation proceed; denying stops it. Either way the decision and its outcome are recorded.'',
      gs_action_code = Some Gc_DecideConfirmation,
      gs_recovery_action_code = Some Gc_CancelConfirmation,
      gs_waiting_for = Some (lit ''the agent is waiting for this decision before it can continue''),
      gs_requires_human_input = True,
      gs_correlation_id = None\<rparr>"
| "guidance_template Wp_Verifying =
     \<lparr>gs_phase = Wp_Verifying,
      gs_active_actor = Ga_System,
      gs_next_actor = Some Ga_Operator,
      gs_headline = lit ''Verifying the outcome.'',
      gs_instruction = lit ''No action is needed while verification completes.'',
      gs_reason = lit ''Final state is being captured and evaluated; new target actions are refused so the snapshot describes one moment.'',
      gs_expected_consequence = lit ''A report and its findings become available.'',
      gs_action_code = Some Gc_Wait,
      gs_recovery_action_code = Some Gc_ResetWorkspace,
      gs_waiting_for = Some (lit ''the server is capturing final state and evaluating the contract''),
      gs_requires_human_input = False,
      gs_correlation_id = None\<rparr>"
| "guidance_template Wp_Passed =
     \<lparr>gs_phase = Wp_Passed,
      gs_active_actor = Ga_Operator,
      gs_next_actor = None,
      gs_headline = lit ''The outcome passed.'',
      gs_instruction = lit ''Read the report to see what was observed and how it was judged.'',
      gs_reason = lit ''Every assertion held against independently observed state.'',
      gs_expected_consequence = lit ''The run is terminal; its evidence is retained.'',
      gs_action_code = Some Gc_ReviewFindings,
      gs_recovery_action_code = None,
      gs_waiting_for = None,
      gs_requires_human_input = False,
      gs_correlation_id = None\<rparr>"
| "guidance_template Wp_PassedWithWarnings =
     \<lparr>gs_phase = Wp_PassedWithWarnings,
      gs_active_actor = Ga_Operator,
      gs_next_actor = None,
      gs_headline = lit ''The outcome passed, with warnings.'',
      gs_instruction = lit ''Read the findings to see which non-critical checks did not hold.'',
      gs_reason = lit ''No critical assertion failed, but at least one warning was recorded.'',
      gs_expected_consequence = lit ''The run is terminal; a regression eval can be generated from it.'',
      gs_action_code = Some Gc_ReviewFindings,
      gs_recovery_action_code = None,
      gs_waiting_for = None,
      gs_requires_human_input = False,
      gs_correlation_id = None\<rparr>"
| "guidance_template Wp_Failed =
     \<lparr>gs_phase = Wp_Failed,
      gs_active_actor = Ga_Operator,
      gs_next_actor = None,
      gs_headline = lit ''The outcome failed.'',
      gs_instruction = lit ''Read the findings to see which check failed and what was observed.'',
      gs_reason = lit ''At least one critical assertion did not hold against independently observed state.'',
      gs_expected_consequence = lit ''The run is terminal; a regression eval can be generated to reproduce it.'',
      gs_action_code = Some Gc_ReviewFindings,
      gs_recovery_action_code = None,
      gs_waiting_for = None,
      gs_requires_human_input = False,
      gs_correlation_id = None\<rparr>"
| "guidance_template Wp_Error =
     \<lparr>gs_phase = Wp_Error,
      gs_active_actor = Ga_Operator,
      gs_next_actor = None,
      gs_headline = lit ''The run stopped without a verdict.'',
      gs_instruction = lit ''Read the report to see why verification could not be completed.'',
      gs_reason = lit ''The harness could not finish '' @ [0x2014] @ lit '' a required observation was unavailable, or a resource ceiling was reached '' @ [0x2014] @ lit '' so no assertion was judged and nothing here is a pass.'',
      gs_expected_consequence = lit ''The run is terminal and its evidence is kept. Resetting clears it, keeps the selected contract, and reseeds the target so the next run starts from a known state.'',
      gs_action_code = Some Gc_ReviewFindings,
      gs_recovery_action_code = Some Gc_ResetWorkspace,
      gs_waiting_for = None,
      gs_requires_human_input = False,
      gs_correlation_id = None\<rparr>"
| "guidance_template Wp_Cancelled =
     \<lparr>gs_phase = Wp_Cancelled,
      gs_active_actor = Ga_Operator,
      gs_next_actor = Some Ga_Agent,
      gs_headline = lit ''The run was cancelled before it was verified.'',
      gs_instruction = lit ''Arm a new run when you are ready; the selected contract was kept.'',
      gs_reason = lit ''A reset cancelled the run in flight, so no verdict was produced and its partial evidence stands as a record rather than a result.'',
      gs_expected_consequence = lit ''A new run is created in `armed` with a fresh initial observation, and the cancelled run stays on record.'',
      gs_action_code = Some Gc_ArmRun,
      gs_recovery_action_code = Some Gc_ResetWorkspace,
      gs_waiting_for = None,
      gs_requires_human_input = True,
      gs_correlation_id = None\<rparr>"
| "guidance_template Wp_Proposing =
     \<lparr>gs_phase = Wp_Proposing,
      gs_active_actor = Ga_Agent,
      gs_next_actor = Some Ga_Operator,
      gs_headline = lit ''Working the task so assertions can be proposed.'',
      gs_instruction = lit ''Use the target's tools to demonstrate the behaviour to be captured.'',
      gs_reason = lit ''A proposal run records a state delta; no contract is being judged.'',
      gs_expected_consequence = lit ''Candidate assertions are derived for a person to curate.'',
      gs_action_code = Some Gc_InvokeTargetTool,
      gs_recovery_action_code = Some Gc_ResetWorkspace,
      gs_waiting_for = None,
      gs_requires_human_input = False,
      gs_correlation_id = None\<rparr>"
| "guidance_template Wp_Candidates =
     \<lparr>gs_phase = Wp_Candidates,
      gs_active_actor = Ga_Operator,
      gs_next_actor = None,
      gs_headline = lit ''Curate the proposed assertions.'',
      gs_instruction = lit ''Accept or reject each candidate before it becomes a contract.'',
      gs_reason = lit ''Candidates are derived mechanically; a person decides which of them state the intended outcome.'',
      gs_expected_consequence = lit ''The accepted set becomes one immutable contract.'',
      gs_action_code = Some Gc_CurateCandidates,
      gs_recovery_action_code = Some Gc_ResetWorkspace,
      gs_waiting_for = None,
      gs_requires_human_input = True,
      gs_correlation_id = None\<rparr>"
| "guidance_template Wp_EvalReady =
     \<lparr>gs_phase = Wp_EvalReady,
      gs_active_actor = Ga_Operator,
      gs_next_actor = None,
      gs_headline = lit ''A regression case is ready to replay.'',
      gs_instruction = lit ''Replay the generated regression case to confirm it reproduces.'',
      gs_reason = lit ''A regression case is only useful once it has reproduced its source failure.'',
      gs_expected_consequence = lit ''The replay reports whether the original classification recurred.'',
      gs_action_code = Some Gc_RunRegressionEval,
      gs_recovery_action_code = Some Gc_ResetWorkspace,
      gs_waiting_for = None,
      gs_requires_human_input = False,
      gs_correlation_id = None\<rparr>"
| "guidance_template Wp_EvalRunning =
     \<lparr>gs_phase = Wp_EvalRunning,
      gs_active_actor = Ga_System,
      gs_next_actor = Some Ga_Operator,
      gs_headline = lit ''Replaying the regression case.'',
      gs_instruction = lit ''No action is needed while the replay completes.'',
      gs_reason = lit ''The fixture is being restored and the recorded trajectory replayed.'',
      gs_expected_consequence = lit ''The replay's classification is compared against the source run.'',
      gs_action_code = Some Gc_Wait,
      gs_recovery_action_code = Some Gc_ResetWorkspace,
      gs_waiting_for = Some (lit ''the server is replaying the recorded trajectory''),
      gs_requires_human_input = False,
      gs_correlation_id = None\<rparr>"

definition derive_guidance :: "workspace_phase \<Rightarrow> pystr option \<Rightarrow> guidance_state" where
  "derive_guidance phase correlation_id = (guidance_template phase)\<lparr>gs_correlation_id := correlation_id\<rparr>"

definition next_action :: "guidance_state \<Rightarrow> guidance_actor \<times> guidance_action_code option \<times> pystr \<times> bool" where
  "next_action g = (gs_active_actor g, gs_action_code g, gs_instruction g, gs_requires_human_input g)"

lemma guidance_texts_fit:
  "length (gs_headline (guidance_template p)) \<le> 400" "length (gs_instruction (guidance_template p)) \<le> 400"
  "length (gs_reason (guidance_template p)) \<le> 400"
  "length (gs_expected_consequence (guidance_template p)) \<le> 400"
  by (cases p; simp)+

text \<open>
  Guidance and machine agree. In a phase derived from a run, the agent is told to invoke a
  tool only while the run may still move and has not begun verification, nobody is told to wait
  except by the system, and a recommended verification is a move the machine permits.
\<close>

theorem guidance_matches_machine:
  "(gs_action_code (guidance_template (phase_by_run_state s)) = Some Gc_InvokeTargetTool \<longrightarrow>
      \<not> is_terminal run_transitions s \<and> s \<noteq> Run_Verifying) \<and>
   (gs_action_code (guidance_template (phase_by_run_state s)) = Some Gc_VerifyOutcome \<longleftrightarrow>
      validate_run_transition s Run_Verifying = Inr ()) \<and>
   (gs_action_code (guidance_template (phase_by_run_state s)) = Some Gc_Wait \<longleftrightarrow>
      gs_active_actor (guidance_template (phase_by_run_state s)) = Ga_System) \<and>
   (gs_action_code (guidance_template (phase_by_run_state s)) = Some Gc_ReviewFindings \<longrightarrow>
      is_terminal run_transitions s)"
  by (cases s) (simp_all add: is_terminal_def validate_run_transition_iff)

lemma guidance_matches_machine_witness:
  "gs_action_code (guidance_template (phase_by_run_state Run_Armed)) = Some Gc_InvokeTargetTool \<and>
   \<not> is_terminal run_transitions Run_Armed"
  using guidance_matches_machine[of Run_Armed] by simp

end
