(* ===== verification/Reports.thy ===== *)
theory Reports
  imports Policies Kernel
begin

section \<open>Outcome reports\<close>

text \<open>
  \<open>reports/models.py\<close>: the five-layer report of a run, the rule that derives its status from the
  findings, the document that is hashed and stored, and the block of undeclared changes rebuilt
  from the evidence of the policy finding.
\<close>

subsection \<open>References\<close>

record target_reference =
  tr_id :: pystr
  tr_adapter_id :: pystr

record scenario_reference =
  sr_mode :: pystr
  sr_fault_profile :: "pystr option"
  sr_fault_active :: bool

record contract_reference =
  cr_ref_id :: pystr
  cr_ref_schema_version :: pystr
  cr_ref_content_hash :: pystr

record capture_reference =
  cp_path :: pystr
  cp_captured_at :: nat
  cp_content_hash :: pystr

record external_reference =
  xr_target_type :: pystr
  xr_origin :: pystr
  xr_pairing_id :: pystr
  xr_bridge_version :: pystr
  xr_theme_build_id :: "pystr option"
  xr_observation_provider :: pystr
  xr_provenance :: pystr
  xr_before :: capture_reference
  xr_after :: capture_reference
  xr_safe_scope_result :: layer_result

datatype report_error =
    UnsafeCapturePath
  | LayerNotPermitted report_layer layer_result
  | BadRunId
  | NegativeCount
  | ProposalHasVerdictState
  | ProposalHasBusinessOutcome
  | ProposalHasPrimaryFailure
  | NotAVerdictState run_state

definition check_capture :: "capture_reference \<Rightarrow> report_error + capture_reference" where
  "check_capture c =
     (if \<not> starts_with [47] (cp_path c) \<or> 63 \<in> set (cp_path c) \<or> 35 \<in> set (cp_path c)
      then Inl UnsafeCapturePath else Inr c)"

definition target_reference_document :: "target_reference \<Rightarrow> json" where
  "target_reference_document t =
     JObj [(lit ''id'', JStr (tr_id t)), (lit ''adapter_id'', JStr (tr_adapter_id t))]"

definition scenario_document :: "scenario_reference \<Rightarrow> json" where
  "scenario_document s =
     JObj [(lit ''mode'', JStr (sr_mode s)), (lit ''fault_profile'', opt_str (sr_fault_profile s)),
           (lit ''fault_active'', JBool (sr_fault_active s))]"

definition contract_reference_document :: "contract_reference \<Rightarrow> json" where
  "contract_reference_document c =
     JObj [(lit ''id'', JStr (cr_ref_id c)), (lit ''schema_version'', JStr (cr_ref_schema_version c)),
           (lit ''content_hash'', JStr (cr_ref_content_hash c))]"

definition capture_document :: "capture_reference \<Rightarrow> json" where
  "capture_document c =
     JObj [(lit ''path'', JStr (cp_path c)), (lit ''captured_at'', JStr (isoformat_z (cp_captured_at c))),
           (lit ''content_hash'', JStr (cp_content_hash c))]"

definition external_document :: "external_reference \<Rightarrow> json" where
  "external_document x =
     JObj [(lit ''target_type'', JStr (xr_target_type x)), (lit ''origin'', JStr (xr_origin x)),
           (lit ''pairing_id'', JStr (xr_pairing_id x)), (lit ''bridge_version'', JStr (xr_bridge_version x)),
           (lit ''theme_build_id'', opt_str (xr_theme_build_id x)),
           (lit ''observation_provider'', JStr (xr_observation_provider x)),
           (lit ''provenance'', JStr (xr_provenance x)),
           (lit ''captures'', JObj [(lit ''before'', capture_document (xr_before x)),
                                  (lit ''after'', capture_document (xr_after x))]),
           (lit ''safe_scope_result'', JStr (layer_result_value (xr_safe_scope_result x)))]"

subsection \<open>Layers and counts\<close>

record layered_result =
  lr_model_tool_selection :: layer_result
  lr_observed_trajectory :: layer_result
  lr_tool_execution :: layer_result
  lr_business_outcome :: layer_result
  lr_safety_policy :: layer_result

definition report_layers :: "report_layer list" where
  "report_layers = [Ly_ModelToolSelection, Ly_ObservedTrajectory, Ly_ToolExecution,
                    Ly_BusinessOutcome, Ly_SafetyPolicy]"

fun layer_value :: "layered_result \<Rightarrow> report_layer \<Rightarrow> layer_result" where
  "layer_value l Ly_ModelToolSelection = lr_model_tool_selection l"
| "layer_value l Ly_ObservedTrajectory = lr_observed_trajectory l"
| "layer_value l Ly_ToolExecution = lr_tool_execution l"
| "layer_value l Ly_BusinessOutcome = lr_business_outcome l"
| "layer_value l Ly_SafetyPolicy = lr_safety_policy l"

definition check_layers :: "layered_result \<Rightarrow> report_error + layered_result" where
  "check_layers l =
     (case find (\<lambda>y. layer_value l y \<notin> set (allowed_layer_results y)) report_layers of
        Some y \<Rightarrow> Inl (LayerNotPermitted y (layer_value l y))
      | None \<Rightarrow> Inr l)"

definition layers_document :: "layered_result \<Rightarrow> json" where
  "layers_document l =
     JObj (map (\<lambda>y. (report_layer_value y, JStr (layer_result_value (layer_value l y)))) report_layers)"

record counts_block =
  cb_critical_failures :: nat
  cb_warnings :: nat
  cb_tool_calls :: nat
  cb_human_confirmations :: nat
  cb_guidance_handoffs :: nat

definition counts_document :: "counts_block \<Rightarrow> json" where
  "counts_document c =
     JObj [(lit ''critical_failures'', json_nat (cb_critical_failures c)),
           (lit ''warnings'', json_nat (cb_warnings c)),
           (lit ''tool_calls'', json_nat (cb_tool_calls c)),
           (lit ''human_confirmations'', json_nat (cb_human_confirmations c)),
           (lit ''guidance_handoffs'', json_nat (cb_guidance_handoffs c))]"

record guidance_reference =
  gr_actor :: guidance_actor
  gr_action :: pystr
  gr_reason :: pystr

definition guidance_document :: "guidance_reference \<Rightarrow> json" where
  "guidance_document g =
     JObj [(lit ''actor'', JStr (guidance_actor_value (gr_actor g))), (lit ''action'', JStr (gr_action g)),
           (lit ''reason'', JStr (gr_reason g))]"

subsection \<open>The undeclared-changes block\<close>

record undeclared_change =
  uc_path :: observation_path
  uc_before :: "pystr option"
  uc_after :: "pystr option"
  uc_attributed_cause :: pystr

definition no_attributed_cause :: pystr where
  "no_attributed_cause = lit ''none''"

definition undeclared_change_document :: "undeclared_change \<Rightarrow> json" where
  "undeclared_change_document u =
     JObj [(lit ''path'', JStr (path_str (uc_path u))), (lit ''before'', opt_str (uc_before u)),
           (lit ''after'', opt_str (uc_after u)),
           (lit ''attributed_cause'', JStr (uc_attributed_cause u))]"

record undeclared_block =
  ub_changed_paths :: int
  ub_declared :: int
  ub_undeclared :: int
  ub_effect_metadata_published :: bool
  ub_paths :: "undeclared_change list"
  ub_applied_exemptions :: "observation_path list"

definition undeclared_block_document :: "undeclared_block \<Rightarrow> json" where
  "undeclared_block_document b =
     JObj [(lit ''changed_paths'', JInt (ub_changed_paths b)), (lit ''declared'', JInt (ub_declared b)),
           (lit ''undeclared'', JInt (ub_undeclared b)),
           (lit ''effect_metadata_published'', JBool (ub_effect_metadata_published b)),
           (lit ''paths'', JArr (map undeclared_change_document (ub_paths b))),
           (lit ''applied_exemptions'', json_strings (map path_str (ub_applied_exemptions b)))]"

definition check_block :: "undeclared_block \<Rightarrow> report_error + undeclared_block" where
  "check_block b =
     (if ub_changed_paths b < 0 \<or> ub_declared b < 0 \<or> ub_undeclared b < 0 then Inl NegativeCount
      else Inr b)"

text \<open>\<open>str(value)\<close> of a member that is no string is the parameter \<open>text_of\<close>.\<close>

definition text_value :: "(json \<Rightarrow> pystr) \<Rightarrow> json \<Rightarrow> pystr" where
  "text_value text_of v = (case v of JStr s \<Rightarrow> s | _ \<Rightarrow> text_of v)"

definition excerpt_of :: "(json \<Rightarrow> pystr) \<Rightarrow> json option \<Rightarrow> pystr option" where
  "excerpt_of text_of v =
     (case v of None \<Rightarrow> None | Some JNull \<Rightarrow> None | Some w \<Rightarrow> Some (text_value text_of w))"

definition fits_excerpt :: "pystr option \<Rightarrow> bool" where
  "fits_excerpt e = (case e of None \<Rightarrow> True | Some s \<Rightarrow> length s \<le> max_change_excerpt_chars)"

definition parse_entry :: "(json \<Rightarrow> pystr) \<Rightarrow> json \<Rightarrow> undeclared_change option" where
  "parse_entry text_of item =
     (case item of
        JObj m \<Rightarrow>
          (case parse (JStr (case map_of m (lit ''path'') of None \<Rightarrow> [] | Some v \<Rightarrow> text_value text_of v)) of
             Inl _ \<Rightarrow> None
           | Inr p \<Rightarrow>
               (let b = excerpt_of text_of (map_of m (lit ''before''));
                    a = excerpt_of text_of (map_of m (lit ''after''));
                    c = (case map_of m (lit ''attributed_cause'') of
                           None \<Rightarrow> no_attributed_cause | Some v \<Rightarrow> text_value text_of v)
                in if fits_excerpt b \<and> fits_excerpt a
                   then Some \<lparr>uc_path = p, uc_before = b, uc_after = a, uc_attributed_cause = c\<rparr>
                   else None))
      | _ \<Rightarrow> None)"

fun all_parsed :: "('a \<Rightarrow> 'b option) \<Rightarrow> 'a list \<Rightarrow> 'b list option" where
  "all_parsed f [] = Some []"
| "all_parsed f (x # xs) =
     (case f x of
        None \<Rightarrow> None
      | Some y \<Rightarrow> (case all_parsed f xs of None \<Rightarrow> None | Some ys \<Rightarrow> Some (y # ys)))"

definition parse_entries :: "(json \<Rightarrow> pystr) \<Rightarrow> json option \<Rightarrow> undeclared_change list option" where
  "parse_entries text_of raw =
     (case raw of Some (JArr items) \<Rightarrow> all_parsed (parse_entry text_of) items | _ \<Rightarrow> None)"

definition bare_change :: "observation_path \<Rightarrow> undeclared_change" where
  "bare_change p =
     \<lparr>uc_path = p, uc_before = None, uc_after = None, uc_attributed_cause = no_attributed_cause\<rparr>"

definition undeclared_entries :: "(json \<Rightarrow> pystr) \<Rightarrow> finding \<Rightarrow> undeclared_change list" where
  "undeclared_entries text_of f =
     (case parse_entries text_of (map_of (fi_evidence f) (lit ''undeclared_changes'')) of
        Some entries \<Rightarrow>
          if map uc_path entries = fi_paths f then entries else map bare_change (fi_paths f)
      | None \<Rightarrow> map bare_change (fi_paths f))"

text \<open>\<open>bool(evidence.get(key, False))\<close>\<close>

fun json_truth :: "json option \<Rightarrow> bool" where
  "json_truth None = False"
| "json_truth (Some JNull) = False"
| "json_truth (Some (JBool b)) = b"
| "json_truth (Some (JInt i)) = (i \<noteq> 0)"
| "json_truth (Some (JFloat x)) = (x \<noteq> Finite 0)"
| "json_truth (Some (JStr s)) = (s \<noteq> [])"
| "json_truth (Some (JArr xs)) = (xs \<noteq> [])"
| "json_truth (Some (JObj kvs)) = (kvs \<noteq> [])"

definition undeclared_changes_from ::
  "(json \<Rightarrow> pystr) \<Rightarrow> finding \<Rightarrow> nat \<Rightarrow> report_error + undeclared_block" where
  "undeclared_changes_from text_of f changed_paths =
     check_block
       \<lparr>ub_changed_paths = int changed_paths,
        ub_declared = int changed_paths - int (length (fi_paths f)),
        ub_undeclared = int (length (fi_paths f)),
        ub_effect_metadata_published =
          json_truth (map_of (fi_evidence f) (lit ''effect_metadata_published'')),
        ub_paths = undeclared_entries text_of f,
        ub_applied_exemptions = fi_applied_exemptions f\<rparr>"

subsection \<open>The report\<close>

definition report_schema_version :: pystr where
  "report_schema_version = lit ''1.2''"

definition verdict_states :: "run_state list" where
  "verdict_states = [Run_Passed, Run_PassedWithWarnings, Run_Failed, Run_Error]"

record outcome_report =
  or_schema_version :: pystr
  or_run_id :: pystr
  or_status :: run_state
  or_mode :: run_mode
  or_target :: target_reference
  or_scenario :: scenario_reference
  or_contract :: contract_reference
  or_external_target :: "external_reference option"
  or_layers :: layered_result
  or_counts :: counts_block
  or_guidance :: "guidance_reference option"
  or_undeclared_changes :: "undeclared_block option"
  or_primary_failure :: "failure_classification option"

definition check_report_shape :: "outcome_report \<Rightarrow> report_error + outcome_report" where
  "check_report_shape r =
     (if or_mode r = Rm_Proposal then
        (if or_status r \<noteq> Run_Proposed then Inl ProposalHasVerdictState
         else if lr_business_outcome (or_layers r) \<noteq> Lr_NotEvaluated then Inl ProposalHasBusinessOutcome
         else if or_primary_failure r \<noteq> None then Inl ProposalHasPrimaryFailure
         else Inr r)
      else if or_status r \<notin> set verdict_states then Inl (NotAVerdictState (or_status r))
      else Inr r)"

definition identifier_ok :: "pystr \<Rightarrow> bool" where
  "identifier_ok s \<longleftrightarrow> 1 \<le> length s \<and> length s \<le> 128"

definition check_report :: "outcome_report \<Rightarrow> report_error + outcome_report" where
  "check_report r = (if \<not> identifier_ok (or_run_id r) then Inl BadRunId else check_report_shape r)"

definition report_document :: "outcome_report \<Rightarrow> jobject" where
  "report_document r =
     [(lit ''schema_version'', JStr (or_schema_version r)), (lit ''run_id'', JStr (or_run_id r)),
      (lit ''status'', JStr (run_state_value (or_status r))),
      (lit ''target'', target_reference_document (or_target r)),
      (lit ''scenario'', scenario_document (or_scenario r)),
      (lit ''contract'', contract_reference_document (or_contract r)),
      (lit ''layers'', layers_document (or_layers r)),
      (lit ''mode'', JStr (run_mode_value (or_mode r))),
      (lit ''counts'', counts_document (or_counts r)),
      (lit ''primary_failure'', (case or_primary_failure r of
          None \<Rightarrow> JNull | Some c \<Rightarrow> JStr (failure_classification_value c)))] @
     (case or_external_target r of None \<Rightarrow> [] | Some x \<Rightarrow> [(lit ''external_target'', external_document x)]) @
     (case or_undeclared_changes r of
        None \<Rightarrow> [] | Some b \<Rightarrow> [(lit ''undeclared_changes'', undeclared_block_document b)]) @
     (case or_guidance r of
        None \<Rightarrow> [] | Some g \<Rightarrow> [(lit ''guidance_at_finalization'', guidance_document g)])"

definition report_hash :: "outcome_report \<Rightarrow> canon_error + pystr" where
  "report_hash r = content_hash (JObj (report_document r))"

definition stored_document :: "outcome_report \<Rightarrow> canon_error + jobject" where
  "stored_document r =
     bind_result (report_hash r) (\<lambda>h. Inr (report_document r @ [(lit ''content_hash'', JStr h)]))"

subsection \<open>Composition\<close>

text \<open>The items of a recorded list of warnings; \<open>recorded_warnings\<close> is their text.\<close>

definition warning_items :: "finding \<Rightarrow> json list" where
  "warning_items f =
     (case map_of (fi_evidence f) (lit ''warnings'') of Some (JArr items) \<Rightarrow> items | _ \<Rightarrow> [])"

definition recorded_warnings :: "(json \<Rightarrow> pystr) \<Rightarrow> finding \<Rightarrow> pystr list" where
  "recorded_warnings text_of f = map (text_value text_of) (warning_items f)"

definition layer_from :: "finding \<Rightarrow> layer_result" where
  "layer_from f =
     (case fi_status f of
        Cs_Passed \<Rightarrow> Lr_Passed | Cs_NotEvaluated \<Rightarrow> Lr_NotEvaluated | _ \<Rightarrow> Lr_Failed)"

definition failed_at :: "assertion_severity \<Rightarrow> finding \<Rightarrow> bool" where
  "failed_at sev f \<longleftrightarrow> failed f \<and> fi_severity f = sev"

definition compose_counts :: "finding list \<Rightarrow> run_event list \<Rightarrow> counts_block" where
  "compose_counts everything events =
     \<lparr>cb_critical_failures = length (filter (failed_at Sev_Critical) everything),
      cb_warnings = length (filter (failed_at Sev_Warning) everything) +
        sum_list (map (length \<circ> warning_items) everything),
      cb_tool_calls = length (filter (\<lambda>e. is_invocation_start e \<and> ev_actor e = Ac_Agent) (ordered events)),
      cb_human_confirmations =
        length (filter (\<lambda>e. ev_event_type e \<in> {Ev_ConfirmationApproved, Ev_ConfirmationDenied}) (ordered events)),
      cb_guidance_handoffs =
        length (filter (\<lambda>e. ev_event_type e = Ev_GuidanceTransitioned) (ordered events))\<rparr>"

definition compose_status :: "run_mode \<Rightarrow> counts_block \<Rightarrow> run_state" where
  "compose_status mode counts =
     (if mode = Rm_Proposal then Run_Proposed
      else if cb_critical_failures counts \<noteq> 0 then Run_Failed
      else if cb_warnings counts \<noteq> 0 then Run_PassedWithWarnings
      else Run_Passed)"

definition compose_layers ::
  "run_mode \<Rightarrow> finding list \<Rightarrow> finding list \<Rightarrow> finding option \<Rightarrow> layer_result \<Rightarrow> layered_result" where
  "compose_layers mode assertion_findings policy_findings trajectory tool_execution =
     \<lparr>lr_model_tool_selection = Lr_NotEvaluated,
      lr_observed_trajectory = (case trajectory of None \<Rightarrow> Lr_NotEvaluated | Some f \<Rightarrow> layer_from f),
      lr_tool_execution = tool_execution,
      lr_business_outcome = (if mode = Rm_Proposal then Lr_NotEvaluated else aggregate assertion_findings),
      lr_safety_policy = aggregate policy_findings\<rparr>"

record report_inputs =
  ri_run_id :: pystr
  ri_target :: target_reference
  ri_scenario :: scenario_reference
  ri_contract :: contract_reference
  ri_external_target :: "external_reference option"
  ri_assertion_findings :: "finding list"
  ri_policy_findings :: "finding list"
  ri_trajectory_finding :: "finding option"
  ri_tool_execution :: layer_result
  ri_events :: "run_event list"
  ri_guidance :: "guidance_reference option"
  ri_undeclared_changes :: "undeclared_block option"
  ri_mode :: run_mode

definition report_findings :: "report_inputs \<Rightarrow> finding list" where
  "report_findings i =
     ri_assertion_findings i @ ri_policy_findings i @
     (case ri_trajectory_finding i of None \<Rightarrow> [] | Some f \<Rightarrow> [f])"

definition inputs_layers :: "report_inputs \<Rightarrow> layered_result" where
  "inputs_layers i =
     compose_layers (ri_mode i) (ri_assertion_findings i) (ri_policy_findings i)
       (ri_trajectory_finding i) (ri_tool_execution i)"

definition composed_report :: "report_inputs \<Rightarrow> layered_result \<Rightarrow> outcome_report" where
  "composed_report i layers =
     (let everything = report_findings i; counts = compose_counts everything (ri_events i) in
        \<lparr>or_schema_version = report_schema_version, or_run_id = ri_run_id i,
         or_status = compose_status (ri_mode i) counts, or_mode = ri_mode i,
         or_target = ri_target i, or_scenario = ri_scenario i, or_contract = ri_contract i,
         or_external_target = ri_external_target i, or_layers = layers, or_counts = counts,
         or_guidance = ri_guidance i, or_undeclared_changes = ri_undeclared_changes i,
         or_primary_failure =
           (if ri_mode i = Rm_Proposal then None
            else (case primary_failure everything of
                    None \<Rightarrow> None | Some f \<Rightarrow> fi_classification f))\<rparr>)"

definition compose_outcome_report :: "report_inputs \<Rightarrow> report_error + outcome_report" where
  "compose_outcome_report i =
     bind_result (check_layers (inputs_layers i)) (\<lambda>layers. check_report (composed_report i layers))"

subsection \<open>Status, layers and primary failure agree\<close>

lemma aggregate_iff:
  "aggregate fs = Lr_Failed \<longleftrightarrow> (\<exists>f\<in>set fs. failed_at Sev_Critical f)"
  "aggregate fs = Lr_PassedWithWarnings \<longleftrightarrow>
     \<not> (\<exists>f\<in>set fs. failed_at Sev_Critical f) \<and> (\<exists>f\<in>set fs. failed_at Sev_Warning f)"
  "aggregate fs = Lr_Passed \<longleftrightarrow>
     \<not> (\<exists>f\<in>set fs. failed_at Sev_Critical f) \<and> \<not> (\<exists>f\<in>set fs. failed_at Sev_Warning f)"
  by (auto simp: aggregate_def failed_at_def Let_def)

lemma aggregate_values: "aggregate fs \<in> {Lr_Failed, Lr_PassedWithWarnings, Lr_Passed}"
  by (auto simp: aggregate_def Let_def)

lemma layer_from_failed: "layer_from f = Lr_Failed \<longleftrightarrow> failed f"
  by (cases "fi_status f") (auto simp: layer_from_def failed_iff)

lemma layer_from_values: "layer_from f \<in> {Lr_Failed, Lr_NotEvaluated, Lr_Passed}"
  by (cases "fi_status f") (auto simp: layer_from_def)

definition warned :: "finding \<Rightarrow> bool" where
  "warned f \<longleftrightarrow> failed_at Sev_Warning f \<or> warning_items f \<noteq> []"

lemma compose_status_verdict:
  "compose_status Rm_Verification (compose_counts fs events) =
     (if \<exists>f\<in>set fs. failed_at Sev_Critical f then Run_Failed
      else if \<exists>f\<in>set fs. warned f then Run_PassedWithWarnings else Run_Passed)"
  by (auto simp: compose_status_def compose_counts_def filter_empty_conv warned_def)

text \<open>What the service hands over: critical policy findings, a critical trajectory finding, a tool layer.\<close>

definition service_inputs :: "report_inputs \<Rightarrow> bool" where
  "service_inputs i \<longleftrightarrow>
     ri_mode i = Rm_Verification \<and> identifier_ok (ri_run_id i) \<and>
     (\<forall>f\<in>set (ri_policy_findings i). fi_severity f = Sev_Critical) \<and>
     (case ri_trajectory_finding i of None \<Rightarrow> True | Some f \<Rightarrow> fi_severity f = Sev_Critical) \<and>
     ri_tool_execution i \<in> set (allowed_layer_results Ly_ToolExecution)"

lemma inputs_layers_ok:
  assumes "service_inputs i"
  shows "check_layers (inputs_layers i) = Inr (inputs_layers i)"
proof -
  have "aggregate (ri_policy_findings i) \<noteq> Lr_PassedWithWarnings"
    using assms by (auto simp: service_inputs_def aggregate_iff failed_at_def)
  then show ?thesis
    using assms aggregate_values[of "ri_policy_findings i"] aggregate_values[of "ri_assertion_findings i"]
      layer_from_values[of "the (ri_trajectory_finding i)"]
    by (auto simp: check_layers_def report_layers_def inputs_layers_def compose_layers_def
        service_inputs_def split: option.splits)
qed

lemma composed_report_ok:
  assumes "ri_mode i = Rm_Verification" "identifier_ok (ri_run_id i)"
  shows "check_report (composed_report i l) = Inr (composed_report i l)"
  using assms
  by (simp add: check_report_def check_report_shape_def composed_report_def Let_def compose_status_def
      verdict_states_def)

lemma compose_outcome_report_Inr:
  "service_inputs i \<Longrightarrow> compose_outcome_report i = Inr (composed_report i (inputs_layers i))"
  by (simp add: compose_outcome_report_def inputs_layers_ok composed_report_ok service_inputs_def)

lemma composed_report_simps [simp]:
  "or_layers (composed_report i l) = l"
  "or_status (composed_report i l) = compose_status (ri_mode i) (compose_counts (report_findings i) (ri_events i))"
  by (simp_all add: composed_report_def Let_def)

lemma composed_primary:
  "ri_mode i = Rm_Verification \<Longrightarrow>
   or_primary_failure (composed_report i l) = Option.bind (primary_failure (report_findings i)) fi_classification"
  by (simp add: composed_report_def Let_def split: option.splits)

lemma inputs_layers_failed:
  assumes "service_inputs i"
  shows "(\<exists>f\<in>set (report_findings i). failed_at Sev_Critical f) \<longleftrightarrow>
      Lr_Failed \<in> {lr_business_outcome (inputs_layers i), lr_safety_policy (inputs_layers i),
                   lr_observed_trajectory (inputs_layers i)}"
proof -
  have m: "ri_mode i = Rm_Verification" using assms by (simp add: service_inputs_def)
  have b: "lr_business_outcome (inputs_layers i) = aggregate (ri_assertion_findings i)"
    "lr_safety_policy (inputs_layers i) = aggregate (ri_policy_findings i)"
    by (simp_all add: inputs_layers_def compose_layers_def m)
  have t: "lr_observed_trajectory (inputs_layers i) = Lr_Failed \<longleftrightarrow>
      (\<exists>f\<in>set_option (ri_trajectory_finding i). failed_at Sev_Critical f)"
    using assms
    by (cases "ri_trajectory_finding i")
      (simp_all add: inputs_layers_def compose_layers_def service_inputs_def layer_from_failed failed_at_def)
  have "set (report_findings i) =
      set (ri_assertion_findings i) \<union> set (ri_policy_findings i) \<union> set_option (ri_trajectory_finding i)"
    by (auto simp: report_findings_def split: option.splits)
  then have "(\<exists>f\<in>set (report_findings i). failed_at Sev_Critical f) \<longleftrightarrow>
      aggregate (ri_assertion_findings i) = Lr_Failed \<or> aggregate (ri_policy_findings i) = Lr_Failed \<or>
      lr_observed_trajectory (inputs_layers i) = Lr_Failed"
    unfolding aggregate_iff t by blast
  then show ?thesis by (simp add: b eq_commute[of Lr_Failed])
qed


definition sample_inputs :: "finding list \<Rightarrow> report_inputs" where
  "sample_inputs fs =
     \<lparr>ri_run_id = lit ''run-1'', ri_target = \<lparr>tr_id = lit ''store'', tr_adapter_id = lit ''store''\<rparr>,
      ri_scenario = \<lparr>sr_mode = lit ''buggy'', sr_fault_profile = None, sr_fault_active = False\<rparr>,
      ri_contract = \<lparr>cr_ref_id = lit ''c'', cr_ref_schema_version = lit ''1.0'', cr_ref_content_hash = lit ''h''\<rparr>,
      ri_external_target = None, ri_assertion_findings = fs, ri_policy_findings = [],
      ri_trajectory_finding = None, ri_tool_execution = Lr_NotEvaluated, ri_events = [],
      ri_guidance = None, ri_undeclared_changes = None, ri_mode = Rm_Verification\<rparr>"


end
