(* ===== verification/Verification.thy ===== *)
theory Verification
  imports Reports Lifecycle
begin

section \<open>Evaluating a run\<close>

text \<open>
  The pure half of \<open>application/verification_service.py\<close>: the evaluation of a contract over the
  recorded timeline and the two observations, the result stored on the run's row, and the report
  composed beside it. \<open>text_of\<close>, \<open>repr_of\<close> and \<open>validate\<close> are \<open>str\<close> and \<open>repr\<close> of values that are
  no strings and the schema validation of a stored tool definition, as in the policy evaluation.
\<close>

subsection \<open>The result of a run\<close>

text \<open>Only three layer results name a terminal state; the others are no keys of the table.\<close>

fun terminal_state :: "layer_result \<Rightarrow> run_state option" where
  "terminal_state Lr_Passed = Some Run_Passed"
| "terminal_state Lr_PassedWithWarnings = Some Run_PassedWithWarnings"
| "terminal_state Lr_Failed = Some Run_Failed"
| "terminal_state _ = None"

definition with_recorded_warnings :: "layer_result \<Rightarrow> finding list \<Rightarrow> layer_result" where
  "with_recorded_warnings result findings =
     (if result \<noteq> Lr_Passed then result
      else if \<exists>f\<in>set findings. warning_items f \<noteq> [] then Lr_PassedWithWarnings else result)"

definition final_observation_check_id :: pystr where
  "final_observation_check_id = lit ''final_observation''"

definition reason_unobservable :: "pystr \<times> json" where
  "reason_unobservable = with_reason
     ''the authoritative observation provider could not supply the final state, so no verdict rests on it''"

definition unobservable_finding :: finding where
  "unobservable_finding =
     (basic_finding final_observation_check_id Ct_Policy Cs_ObservationUnavailable Sev_Critical)
       \<lparr>fi_classification := Some Fc_ObservationUnavailable, fi_evidence := [reason_unobservable]\<rparr>"

subsection \<open>Evaluation\<close>

record evaluation =
  evl_assertions :: "finding list"
  evl_trajectory :: finding
  evl_policies :: "finding list"
  evl_execution :: "finding list"
  evl_changes :: "state_change list option"

definition evaluation_all :: "evaluation \<Rightarrow> finding list" where
  "evaluation_all e = evl_assertions e @ [evl_trajectory e] @ evl_policies e @ evl_execution e"

datatype evaluation_error =
    EffectPathRefused path_error
  | ArithmeticRaised arith_error
  | DiffRefused diff_error
  | EvidenceRefused evidence_error
  | SurfaceRefused surface_error

definition lift_error :: "('a \<Rightarrow> 'b) \<Rightarrow> 'a + 'c \<Rightarrow> 'b + 'c" where
  "lift_error f r = (case r of Inl e \<Rightarrow> Inl (f e) | Inr x \<Rightarrow> Inr x)"

lemma lift_error_of_Inr [simp]: "lift_error f (Inr x) = Inr x"
  by (simp add: lift_error_def)

lemma lift_error_Inr [simp]: "lift_error f r = Inr x \<longleftrightarrow> r = Inr x"
  by (cases r) (auto simp: lift_error_def)

text \<open>The adapter's published effect paths are texts; an absent adapter publishes none.\<close>

definition parse_effect_map ::
  "(pystr \<times> pystr list) list option \<Rightarrow> path_error + effect_map" where
  "parse_effect_map published =
     (case published of
        None \<Rightarrow> Inr []
      | Some m \<Rightarrow> map_result (\<lambda>(tool, paths).
          bind_result (map_result (\<lambda>p. parse (JStr p)) paths) (\<lambda>ps. Inr (tool, ps))) m)"

definition diff_contexts :: "ctx \<Rightarrow> ctx \<Rightarrow> diff_error + state_change list option" where
  "diff_contexts initial final =
     (case (initial, final) of
        (Some i, Some f) \<Rightarrow> bind_result (diff_states i f) (\<lambda>cs. Inr (Some cs))
      | _ \<Rightarrow> Inr None)"

definition policy_evidence_of ::
  "(json \<Rightarrow> pystr) \<Rightarrow> (jobject \<Rightarrow> tool_definition option) \<Rightarrow> outcome_contract \<Rightarrow> effect_map \<Rightarrow>
   run_event list \<Rightarrow> state_change list option \<Rightarrow> policy_evidence" where
  "policy_evidence_of text_of validate c em events changes =
     (let surface = surface_evidence text_of validate events in
      \<lparr>pe_events = events, pe_effect_map = em, pe_contract_paths = declared_contract_paths c,
       pe_changed_paths = map_option changed_paths_of changes, pe_changes = changes,
       pe_surface_baseline_recorded = fst surface,
       pe_identity_mismatches = identity_mismatches events,
       pe_observed_surface_deltas = snd surface\<rparr>)"

definition judged_assertions ::
  "outcome_contract \<Rightarrow> effect_map \<Rightarrow> run_event list \<Rightarrow> ctx \<Rightarrow> ctx \<Rightarrow> arith_error + finding list" where
  "judged_assertions c em events initial final =
     bind_result (evaluate_assertions (oc_assertions c) (initial, final))
       (\<lambda>fs. classify_assertion_failures fs (oc_assertions c) events (Some em) initial)"

definition evaluate_run ::
  "(json \<Rightarrow> pystr) \<Rightarrow> (pystr \<Rightarrow> pystr) \<Rightarrow> (jobject \<Rightarrow> tool_definition option) \<Rightarrow> outcome_contract \<Rightarrow>
   (pystr \<times> pystr list) list option \<Rightarrow> run_event list \<Rightarrow> ctx \<Rightarrow> ctx \<Rightarrow> evaluation_error + evaluation" where
  "evaluate_run text_of repr_of validate c published events initial final =
     bind_result (lift_error EffectPathRefused (parse_effect_map published)) (\<lambda>em.
     bind_result (lift_error ArithmeticRaised (judged_assertions c em events initial final)) (\<lambda>assertions.
     bind_result (lift_error DiffRefused (diff_contexts initial final)) (\<lambda>changes.
     bind_result (lift_error EvidenceRefused (check_policy_evidence
        (policy_evidence_of text_of validate c em events changes))) (\<lambda>evidence.
     bind_result (lift_error SurfaceRefused (evaluate_policies repr_of (oc_policies c) evidence)) (\<lambda>policies.
       Inr \<lparr>evl_assertions = assertions,
            evl_trajectory = evaluate_expected_tools (oc_expected_tools c) events,
            evl_policies = policies,
            evl_execution = execution_findings events,
            evl_changes = changes\<rparr>)))))"

definition run_result :: "finding list \<Rightarrow> layer_result" where
  "run_result findings = with_recorded_warnings (aggregate findings) findings"

definition primary_check_id :: "finding list \<Rightarrow> pystr option" where
  "primary_check_id findings = map_option fi_check_id (primary_failure findings)"

definition check_event :: "finding \<Rightarrow> outcome_event_type" where
  "check_event f = (if fi_check_type f = Ct_Policy then Ev_PolicyEvaluated else Ev_AssertionEvaluated)"

subsection \<open>The report composed beside it\<close>

definition undeclared_changes_block ::
  "(json \<Rightarrow> pystr) \<Rightarrow> evaluation \<Rightarrow> report_error + undeclared_block option" where
  "undeclared_changes_block text_of e =
     (case evl_changes e of
        None \<Rightarrow> Inr None
      | Some changes \<Rightarrow>
          (case find (\<lambda>f. fi_check_id f = policy_type_value Pt_NoUndeclaredChanges) (evl_policies e) of
             None \<Rightarrow> Inr None
           | Some f \<Rightarrow>
               if fi_status f = Cs_NotEvaluated then Inr None
               else bind_result (undeclared_changes_from text_of f (length changes)) (\<lambda>b. Inr (Some b))))"

text \<open>What the composition reads of the run's row\<close>

record report_row =
  rw_target_id :: pystr
  rw_target_adapter_id :: pystr
  rw_scenario_mode :: "pystr option"
  rw_failure_profile :: "pystr option"
  rw_fault_active :: bool
  rw_contract_id :: pystr
  rw_contract_content_hash :: pystr

definition compose_inputs ::
  "pystr \<Rightarrow> report_row \<Rightarrow> outcome_contract \<Rightarrow> evaluation \<Rightarrow> run_event list \<Rightarrow> guidance_state \<Rightarrow>
   external_reference option \<Rightarrow> undeclared_block option \<Rightarrow> report_inputs" where
  "compose_inputs run_id row c e events guidance external block =
     \<lparr>ri_run_id = run_id,
      ri_target = \<lparr>tr_id = rw_target_id row, tr_adapter_id = rw_target_adapter_id row\<rparr>,
      ri_scenario =
        \<lparr>sr_mode = (if truthy (rw_scenario_mode row) then the (rw_scenario_mode row) else lit ''unspecified''),
         sr_fault_profile = rw_failure_profile row, sr_fault_active = rw_fault_active row\<rparr>,
      ri_contract =
        \<lparr>cr_ref_id = rw_contract_id row, cr_ref_schema_version = oc_schema_version c,
         cr_ref_content_hash = rw_contract_content_hash row\<rparr>,
      ri_external_target = external,
      ri_assertion_findings = evl_assertions e,
      ri_policy_findings = evl_policies e @ evl_execution e,
      ri_trajectory_finding = Some (evl_trajectory e),
      ri_tool_execution = tool_execution_layer events,
      ri_events = events,
      ri_guidance = Some
        \<lparr>gr_actor = gs_active_actor guidance,
         gr_action = (case gs_action_code guidance of
            Some a \<Rightarrow> guidance_action_code_value a | None \<Rightarrow> lit ''wait''),
         gr_reason = gs_reason guidance\<rparr>,
      ri_undeclared_changes = block, ri_mode = Rm_Verification\<rparr>"

definition compose_report ::
  "(json \<Rightarrow> pystr) \<Rightarrow> pystr \<Rightarrow> report_row \<Rightarrow> outcome_contract \<Rightarrow> evaluation \<Rightarrow> run_event list \<Rightarrow>
   guidance_state \<Rightarrow> external_reference option \<Rightarrow> report_error + outcome_report" where
  "compose_report text_of run_id row c e events guidance external =
     bind_result (undeclared_changes_block text_of e) (\<lambda>block.
       compose_outcome_report (compose_inputs run_id row c e events guidance external block))"

subsection \<open>What an evaluation guarantees of its findings\<close>

lemma execution_findings_shape:
  assumes "f \<in> set (execution_findings events)"
  shows "fi_severity f = Sev_Critical" "failed f" "fi_check_type f = Ct_Policy"
  using assms by (auto simp: execution_findings_def execution_finding_def failed_iff)

lemma tool_execution_layer_allowed: "tool_execution_layer events \<in> set (allowed_layer_results Ly_ToolExecution)"
  by (auto simp: tool_execution_layer_def Let_def)

lemma trajectory_finding_critical: "fi_severity (evaluate_expected_tools x events) = Sev_Critical"
  by (auto simp: evaluate_expected_tools_def tools_finding_def tools_failure_def Let_def
      split: option.splits)

lemma policy_evidence_of_consistent:
  "check_policy_evidence (policy_evidence_of text_of validate c em events changes) =
     Inr (policy_evidence_of text_of validate c em events changes)"
  by (cases changes) (simp_all add: check_policy_evidence_def policy_evidence_of_def Let_def)


lemma evaluate_run_Inr:
  assumes "evaluate_run text_of repr_of validate c published events initial final = Inr e"
  obtains em changes where
    "parse_effect_map published = Inr em"
    "judged_assertions c em events initial final = Inr (evl_assertions e)"
    "diff_contexts initial final = Inr changes" "evl_changes e = changes"
    "evaluate_policies repr_of (oc_policies c)
       (policy_evidence_of text_of validate c em events changes) = Inr (evl_policies e)"
    "evl_trajectory e = evaluate_expected_tools (oc_expected_tools c) events"
    "evl_execution e = execution_findings events"
  using assms
  by (auto simp: evaluate_run_def bind_result_Inr policy_evidence_of_consistent)

lemma evaluation_policies_shape:
  assumes "evaluate_run text_of repr_of validate c published events initial final = Inr e"
    and "f \<in> set (evl_policies e)"
  shows "\<exists>p. policy_shape p f"
proof -
  from evaluate_run_Inr[OF assms(1)] obtain evidence where
    "evaluate_policies repr_of (oc_policies c) evidence = Inr (evl_policies e)" by metis
  then obtain p where "evaluate_policy repr_of p evidence = Inr f"
    unfolding evaluate_policies_def using assms(2) by (auto dest: map_result_from)
  then show ?thesis using evaluate_policy_shape by blast
qed

subsection \<open>The stored result and the report agree\<close>

text \<open>Moving one element past others of different keys does not change a stable sort.\<close>

lemma sort_key_move:
  fixes k :: "'a \<Rightarrow> 'k::linorder"
  assumes "k x \<notin> k ` set ys"
  shows "sort_key k (us @ [x] @ ys) = sort_key k (us @ ys @ [x])"
proof (rule properties_for_sort_key)
  show "filter (\<lambda>b. k a = k b) (sort_key k (us @ ys @ [x])) = filter (\<lambda>b. k a = k b) (us @ [x] @ ys)"
    for a
  proof -
    have "filter (\<lambda>b. k a = k b) (sort_key k zs) = filter (\<lambda>b. k a = k b) zs" for zs
      using sort_key_stable[of k "k a" zs] by (simp add: eq_commute)
    moreover have "filter (\<lambda>b. k a = k b) ys = []" if "k a = k x"
      using assms that by (auto simp: filter_empty_conv)
    ultimately show ?thesis by simp
  qed
qed simp_all

definition is_trajectory :: "finding \<Rightarrow> bool" where
  "is_trajectory f \<longleftrightarrow> fi_check_id f = expected_tools_check_id"

lemma trajectory_check_id: "fi_check_id (evaluate_expected_tools x events) = expected_tools_check_id"
  by (auto simp: evaluate_expected_tools_def tools_finding_def tools_failure_def Let_def
      split: option.splits)

lemma policy_id_not_trajectory: "policy_type_value t \<noteq> expected_tools_check_id"
  by (cases t) (simp_all add: expected_tools_check_id_def)

lemma execution_id_not_trajectory: "execution_check_id e \<noteq> expected_tools_check_id"
proof
  assume "execution_check_id e = expected_tools_check_id"
  then have "hd (execution_check_id e) = hd expected_tools_check_id" by simp
  then show False by (simp add: execution_check_id_def expected_tools_check_id_def lit_def)
qed

lemma finding_key_id: "finding_sort_key f = finding_sort_key g \<Longrightarrow> fi_check_id f = fi_check_id g"
  by (simp add: finding_sort_key_def)

lemma order_failures_report:
  assumes "evaluate_run text_of repr_of validate c published events initial final = Inr e"
  shows "order_failures (evl_assertions e @ (evl_policies e @ evl_execution e) @ [evl_trajectory e]) =
    order_failures (evaluation_all e)"
proof -
  let ?ps = "evl_policies e @ evl_execution e"
  have t: "fi_check_id (evl_trajectory e) = expected_tools_check_id"
    using evaluate_run_Inr[OF assms] trajectory_check_id by metis
  have x: "evl_execution e = execution_findings events" using evaluate_run_Inr[OF assms] by metis
  have "fi_check_id f \<noteq> expected_tools_check_id" if "f \<in> set (evl_policies e)" for f
    using evaluation_policies_shape[OF assms that] policy_id_not_trajectory
    by (metis policy_shape_def)
  moreover have "fi_check_id f \<noteq> expected_tools_check_id" if "f \<in> set (evl_execution e)" for f
    using that execution_id_not_trajectory by (auto simp: x execution_findings_def execution_finding_def)
  ultimately have "fi_check_id f \<noteq> expected_tools_check_id" if "f \<in> set ?ps" for f
    using that by auto
  then have k: "finding_sort_key (evl_trajectory e) \<notin> finding_sort_key ` set (filter failed ?ps)"
    using finding_key_id t by (metis (no_types, lifting) filter_is_subset imageE subsetD)
  show ?thesis
  proof (cases "failed (evl_trajectory e)")
    case True
    then show ?thesis
      using sort_key_move[OF k, of "filter failed (evl_assertions e)"]
      by (simp add: order_failures_def evaluation_all_def)
  qed (simp add: order_failures_def evaluation_all_def)
qed

lemma undeclared_paths_within:
  assumes "diffed_paths ev = Some changed"
  shows "length (fi_paths (evaluate_no_undeclared_changes allowed p ev)) \<le> length changed"
  by (simp add: no_undeclared_changes_cases(2)[OF assms])

lemma policy_kind_undeclared:
  "policy_type_value (policy_kind p) = policy_type_value Pt_NoUndeclaredChanges \<Longrightarrow>
   \<exists>allowed. p = NoUndeclaredChanges allowed"
  by (cases p) auto

lemma undeclared_changes_block_total:
  assumes "evaluate_run text_of repr_of validate c published events initial final = Inr e"
  shows "\<exists>b. undeclared_changes_block text_of e = Inr b"
proof -
  from evaluate_run_Inr[OF assms] obtain em changes where ev: "evl_changes e = changes"
    "evaluate_policies repr_of (oc_policies c)
       (policy_evidence_of text_of validate c em events changes) = Inr (evl_policies e)" by metis
  let ?ev = "policy_evidence_of text_of validate c em events changes"
  have fits: "length (fi_paths f) \<le> length cs"
    if f: "f \<in> set (evl_policies e)" "fi_check_id f = policy_type_value Pt_NoUndeclaredChanges"
      and cs: "changes = Some cs" for f cs
  proof -
    obtain p where p: "evaluate_policy repr_of p ?ev = Inr f"
      using ev(2) f(1) unfolding evaluate_policies_def by (auto dest: map_result_from)
    obtain allowed where a: "p = NoUndeclaredChanges allowed"
      using evaluate_policy_shape[OF p] f(2) policy_kind_undeclared[of p] by (auto simp: policy_shape_def)
    have d: "diffed_paths ?ev = Some (changed_paths_of cs)"
      by (simp add: diffed_paths_def policy_evidence_of_def Let_def cs)
    show ?thesis using undeclared_paths_within[OF d] p a by (auto simp: changed_paths_of_def)
  qed
  show ?thesis
  proof (cases changes)
    case (Some cs)
    have "length (fi_paths f) \<le> length cs"
      if "find (\<lambda>f. fi_check_id f = policy_type_value Pt_NoUndeclaredChanges) (evl_policies e) = Some f" for f
      using that fits[OF _ _ Some] by (auto simp: find_Some_iff)
    then show ?thesis
      by (auto simp: undeclared_changes_block_def undeclared_changes_from_def check_block_def ev(1) Some
          split: option.split)
  qed (simp add: undeclared_changes_block_def ev(1))
qed

lemma service_inputs_compose:
  assumes "evaluate_run text_of repr_of validate c published events initial final = Inr e"
    and "identifier_ok run_id"
  shows "service_inputs (compose_inputs run_id row c e events guidance external block)"
proof -
  have "evl_trajectory e = evaluate_expected_tools (oc_expected_tools c) events"
    "evl_execution e = execution_findings events"
    using evaluate_run_Inr[OF assms(1)] by metis+
  moreover have "fi_severity f = Sev_Critical" if "f \<in> set (evl_policies e)" for f
    using evaluation_policies_shape[OF assms(1) that] by (auto simp: policy_shape_def)
  ultimately show ?thesis
    using assms(2) execution_findings_shape(1) tool_execution_layer_allowed
    by (auto simp: service_inputs_def compose_inputs_def trajectory_finding_critical)
qed

lemma run_result_terminal:
  "terminal_state (run_result fs) = Some (compose_status Rm_Verification (compose_counts fs events))"
  unfolding compose_status_verdict run_result_def with_recorded_warnings_def
  by (auto simp: aggregate_iff warned_def aggregate_def failed_at_def Let_def)

lemma report_findings_compose:
  "report_findings (compose_inputs run_id row c e events guidance external block) =
     evl_assertions e @ (evl_policies e @ evl_execution e) @ [evl_trajectory e]"
  by (simp add: report_findings_def compose_inputs_def)

lemma compose_status_same_findings:
  assumes "set fs = set gs"
  shows "compose_status Rm_Verification (compose_counts fs events) =
    compose_status Rm_Verification (compose_counts gs events)"
  unfolding compose_status_verdict assms ..

lemma tool_layer_failed:
  "tool_execution_layer events = Lr_Failed \<Longrightarrow>
   \<exists>f\<in>set (execution_findings events). failed f \<and> fi_severity f = Sev_Critical"
  using execution_findings_shape[of _ events]
  by (fastforce simp: tool_execution_layer_def execution_findings_def acting_terminal_def Let_def
      split: if_splits)

text \<open>
  C22. Two records, one verdict. Whatever a contract, a timeline and two observations evaluate to,
  the report is composed without refusal, the state stored on the run's row is the status the
  report carries, both name the same primary failure although they list the findings in different
  orders, and a tool that raised makes the verdict a failure.
\<close>

theorem stored_result_agrees:
  assumes "evaluate_run text_of repr_of validate c published events initial final = Inr e"
    and "identifier_ok run_id"
  shows "\<exists>r. compose_report text_of run_id row c e events guidance external = Inr r \<and>
    terminal_state (run_result (evaluation_all e)) = Some (or_status r) \<and>
    or_primary_failure r = Option.bind (primary_failure (evaluation_all e)) fi_classification \<and>
    (lr_tool_execution (or_layers r) = Lr_Failed \<longrightarrow> or_status r = Run_Failed)"
proof -
  obtain block where b: "undeclared_changes_block text_of e = Inr block"
    using undeclared_changes_block_total[OF assms(1)] by blast
  let ?i = "compose_inputs run_id row c e events guidance external block"
  let ?r = "composed_report ?i (inputs_layers ?i)"
  have m: "ri_mode ?i = Rm_Verification" "ri_events ?i = events" by (simp_all add: compose_inputs_def)
  have r: "compose_report text_of run_id row c e events guidance external = Inr ?r"
    using compose_outcome_report_Inr[OF service_inputs_compose[OF assms]] by (simp add: compose_report_def b)
  have same: "set (report_findings ?i) = set (evaluation_all e)"
    by (auto simp: report_findings_compose evaluation_all_def)
  have status: "or_status ?r = compose_status Rm_Verification (compose_counts (evaluation_all e) events)"
    using compose_status_same_findings[OF same] by (simp add: m)
  have "primary_failure (report_findings ?i) = primary_failure (evaluation_all e)"
    by (simp add: primary_failure_def report_findings_compose order_failures_report[OF assms(1), simplified])
  then have primary: "or_primary_failure ?r = Option.bind (primary_failure (evaluation_all e)) fi_classification"
    using composed_primary[OF m(1)] by simp
  have "or_status ?r = Run_Failed" if "lr_tool_execution (or_layers ?r) = Lr_Failed"
  proof -
    have x: "evl_execution e = execution_findings events" using evaluate_run_Inr[OF assms(1)] by metis
    have "tool_execution_layer events = Lr_Failed"
      using that by (simp add: inputs_layers_def compose_layers_def compose_inputs_def)
    then obtain f where "f \<in> set (execution_findings events)" "failed f" "fi_severity f = Sev_Critical"
      using tool_layer_failed by blast
    then have "\<exists>f\<in>set (evaluation_all e). failed_at Sev_Critical f"
      by (auto simp: evaluation_all_def x failed_at_def)
    then show ?thesis unfolding status compose_status_verdict by simp
  qed
  with r status primary show ?thesis by (auto simp: run_result_terminal[of _ events])
qed

definition empty_contract :: outcome_contract where
  "empty_contract =
     \<lparr>oc_schema_version = lit ''1.0'', oc_name = lit ''c'', oc_target_id = lit ''t'', oc_intent = lit ''i'',
      oc_description = [], oc_preconditions = [], oc_expected_tools = None, oc_assertions = [],
      oc_policies = [], oc_redaction = None\<rparr>"

definition sample_row :: report_row where
  "sample_row =
     \<lparr>rw_target_id = lit ''t'', rw_target_adapter_id = lit ''t'', rw_scenario_mode = None,
      rw_failure_profile = None, rw_fault_active = False, rw_contract_id = lit ''c'',
      rw_contract_content_hash = lit ''h''\<rparr>"

lemma stored_result_agrees_witness:
  "\<exists>e r. evaluate_run (\<lambda>_. []) id (\<lambda>_. None) empty_contract None
      [sample_event 1 Ev_ToolInvocationFailed Ac_Agent ''add''] None None = Inr e \<and>
    compose_report (\<lambda>_. []) (lit ''run-1'') sample_row empty_contract e
      [sample_event 1 Ev_ToolInvocationFailed Ac_Agent ''add''] (guidance_template Wp_Failed) None = Inr r \<and>
    or_status r = Run_Failed"
proof -
  let ?events = "[sample_event 1 Ev_ToolInvocationFailed Ac_Agent ''add'']"
  obtain e where e: "evaluate_run (\<lambda>_. []) id (\<lambda>_. None) empty_contract None ?events None None = Inr e"
    by (simp add: evaluate_run_def parse_effect_map_def judged_assertions_def empty_contract_def
        evaluate_assertions_def classify_assertion_failures_def diff_contexts_def evaluate_policies_def
        policy_evidence_of_consistent)
  have i: "identifier_ok (lit ''run-1'')" by (simp add: identifier_ok_def)
  have "evl_execution e = execution_findings ?events" using evaluate_run_Inr[OF e] by metis
  then have "\<exists>f\<in>set (evaluation_all e). failed_at Sev_Critical f"
    by (auto simp: evaluation_all_def execution_findings_def execution_finding_def ordered_def
        acting_actors_def failed_at_def failed_iff)
  then have "terminal_state (run_result (evaluation_all e)) = Some Run_Failed"
    by (simp add: run_result_terminal[of _ "[]"] compose_status_verdict)
  then show ?thesis using stored_result_agrees[OF e i, of sample_row "guidance_template Wp_Failed" None] e
    by fastforce
qed

end
