(* ===== verification/Ports.thy ===== *)
theory Ports
  imports Evidence
begin

section \<open>The target adapter's published surface\<close>

text \<open>
  \<open>ports/enums.py\<close>, \<open>ports/models.py\<close> (the published tools and the result a tool reports) and
  \<open>ports/schemas.py\<close> (the small schema language an argument is checked against). An adapter's
  own code is not here: its tools, its answers and its observations are arbitrary values.
\<close>

subsection \<open>Vocabulary\<close>

datatype side_effect_class = Se_ReadOnly | Se_Mutating | Se_ProtectedMutating

fun side_effect_class_value :: "side_effect_class \<Rightarrow> pystr" where
  "side_effect_class_value Se_ReadOnly = lit ''read_only''"
| "side_effect_class_value Se_Mutating = lit ''mutating''"
| "side_effect_class_value Se_ProtectedMutating = lit ''protected_mutating''"

datatype retry_semantics =
  Rt_ReadOnlySafe | Rt_IdempotentByRequestId | Rt_NaturallyIdempotent | Rt_NotRetryable

fun retry_semantics_value :: "retry_semantics \<Rightarrow> pystr" where
  "retry_semantics_value Rt_ReadOnlySafe = lit ''read_only_safe''"
| "retry_semantics_value Rt_IdempotentByRequestId = lit ''idempotent_by_request_id''"
| "retry_semantics_value Rt_NaturallyIdempotent = lit ''naturally_idempotent''"
| "retry_semantics_value Rt_NotRetryable = lit ''not_retryable''"

subsection \<open>Published tools and reported results\<close>

record target_tool_spec =
  ts_name :: pystr
  ts_description :: pystr
  ts_input_schema :: jobject
  ts_side_effect :: side_effect_class
  ts_retry :: retry_semantics
  ts_effect_paths :: "observation_path list"

datatype port_error =
    ReadOnlyWithEffects
  | ReadOnlyNotRetrySafe
  | NotATerminalEvent
  | CompletedWithoutStatus
  | StatusWithoutCompletion

definition check_tool_spec :: "target_tool_spec \<Rightarrow> port_error + target_tool_spec" where
  "check_tool_spec spec =
     (if ts_side_effect spec = Se_ReadOnly \<and> ts_effect_paths spec \<noteq> [] then Inl ReadOnlyWithEffects
      else if ts_side_effect spec = Se_ReadOnly \<and> ts_retry spec \<noteq> Rt_ReadOnlySafe
      then Inl ReadOnlyNotRetrySafe
      else Inr spec)"

record tool_execution_result =
  tx_tool_name :: pystr
  tx_terminal_event :: outcome_event_type
  tx_reported_status :: "tool_reported_status option"
  tx_reported_summary :: pystr
  tx_error_code :: "pystr option"
  tx_request_id :: pystr
  tx_correlation_id :: pystr
  tx_duration_ms :: nat
  tx_state_version_before :: "pystr option"
  tx_state_version_after :: "pystr option"

definition check_terminal_shape :: "tool_execution_result \<Rightarrow> port_error + tool_execution_result" where
  "check_terminal_shape r =
     (if tx_terminal_event r \<notin> set terminal_invocation_events then Inl NotATerminalEvent
      else if tx_terminal_event r = Ev_ToolInvocationCompleted \<and> tx_reported_status r = None
      then Inl CompletedWithoutStatus
      else if tx_terminal_event r \<noteq> Ev_ToolInvocationCompleted \<and> tx_reported_status r \<noteq> None
      then Inl StatusWithoutCompletion
      else Inr r)"

definition claims_success :: "tool_execution_result \<Rightarrow> bool" where
  "claims_success r \<longleftrightarrow> tx_reported_status r = Some Rs_Success"

lemma check_terminal_shape_Inr:
  "check_terminal_shape r = Inr r' \<longleftrightarrow>
     r' = r \<and> tx_terminal_event r \<in> set terminal_invocation_events \<and>
     (tx_terminal_event r = Ev_ToolInvocationCompleted \<longleftrightarrow> tx_reported_status r \<noteq> None)"
  by (auto simp: check_terminal_shape_def)

subsection \<open>The schema language\<close>

datatype schema_error =
    UnsupportedKeywords "pystr list"
  | UnsupportedType
  | PropertyNotASchema pystr
  | SchemaRaised

definition supported_keywords :: "pystr list" where
  "supported_keywords =
     [lit ''type'', lit ''properties'', lit ''required'', lit ''additionalProperties'', lit ''enum'',
      lit ''minimum'', lit ''maximum'', lit ''minLength'', lit ''maxLength'',
      lit ''description'', lit ''title'', lit ''default'']"

definition supported_types :: "pystr list" where
  "supported_types =
     [lit ''object'', lit ''string'', lit ''integer'', lit ''number'', lit ''boolean'']"

text \<open>
  \<open>schema.get(name) or ...\<close>: an absent, null or empty member counts as none. A member of
  another JSON kind has no \<open>items\<close>, which raises.
\<close>

fun is_falsy :: "json \<Rightarrow> bool" where
  "is_falsy JNull = True"
| "is_falsy (JBool b) = (\<not> b)"
| "is_falsy (JInt i) = (i = 0)"
| "is_falsy (JFloat x) = (x = Finite 0)"
| "is_falsy (JStr s) = (s = [])"
| "is_falsy (JArr xs) = (xs = [])"
| "is_falsy (JObj kvs) = (kvs = [])"

definition properties_of :: "jobject \<Rightarrow> schema_error + jobject" where
  "properties_of schema =
     (case map_of schema (lit ''properties'') of
        None \<Rightarrow> Inr []
      | Some v \<Rightarrow> if is_falsy v then Inr [] else (case v of JObj m \<Rightarrow> Inr m | _ \<Rightarrow> Inl SchemaRaised))"

definition declared_type :: "jobject \<Rightarrow> schema_error + pystr option" where
  "declared_type schema =
     (case map_of schema (lit ''type'') of
        None \<Rightarrow> Inr None
      | Some JNull \<Rightarrow> Inr None
      | Some (JStr t) \<Rightarrow> if t \<in> set supported_types then Inr (Some t) else Inl UnsupportedType
      | Some (JArr _) \<Rightarrow> Inl SchemaRaised
      | Some (JObj _) \<Rightarrow> Inl SchemaRaised
      | Some _ \<Rightarrow> Inl UnsupportedType)"

lemma size_map_of_obj: "map_of m k = Some (JObj v) \<Longrightarrow>
    size_list (size_prod (\<lambda>_. 0) size) v < size_list (size_prod (\<lambda>_. 0) size) m"
proof -
  assume "map_of m k = Some (JObj v)"
  then have "(k, JObj v) \<in> set m" by (rule map_of_SomeD)
  then show ?thesis using size_member[of k "JObj v" m] by simp
qed

lemma size_properties_of [termination_simp]:
  "properties_of schema = Inr m \<Longrightarrow> m \<noteq> [] \<Longrightarrow>
   size_list (size_prod (\<lambda>_. 0) size) m < size_list (size_prod (\<lambda>_. 0) size) schema"
  by (auto simp: properties_of_def size_map_of_obj split: option.splits json.splits if_splits)

function validate_schema :: "jobject \<Rightarrow> schema_error + unit" where
  "validate_schema schema =
     (let unknown = sort (filter (\<lambda>k. k \<notin> set supported_keywords) (map fst schema)) in
      if unknown \<noteq> [] then Inl (UnsupportedKeywords unknown)
      else (case declared_type schema of
        Inl e \<Rightarrow> Inl e
      | Inr _ \<Rightarrow>
          (case properties_of schema of
             Inl e \<Rightarrow> Inl e
           | Inr [] \<Rightarrow> Inr ()
           | Inr (m # ms) \<Rightarrow>
               bind_result
                 (map_result (\<lambda>kv. case snd kv of
                      JObj sub \<Rightarrow> validate_schema sub
                    | _ \<Rightarrow> Inl (PropertyNotASchema (fst kv))) (m # ms))
                 (\<lambda>_. Inr ()))))"
  by pat_completeness auto

termination
proof (relation "measure (size_list (size_prod (\<lambda>_. 0) size))", goal_cases)
  case (2 schema unknown declared props m ms kv sub)
  then have "(fst kv, JObj sub) \<in> set props" by (metis prod.collapse)
  then have "size (JObj sub) < Suc (size_list (size_prod (\<lambda>_. 0) size) props)" by (rule size_member)
  moreover have "size_list (size_prod (\<lambda>_. 0) size) props < size_list (size_prod (\<lambda>_. 0) size) schema"
    using 2 by (intro size_properties_of) auto
  ultimately show ?case by simp
qed simp

declare validate_schema.simps [simp del]

text \<open>
  One keyword of one value. \<open>in_enum\<close> is Python's \<open>in\<close>: element equality in a list, a key of an
  object, a part of a string; anything else raises.
\<close>

fun num_less :: "pyfloat \<Rightarrow> pyfloat \<Rightarrow> bool" where
  "num_less NaN _ = False"
| "num_less _ NaN = False"
| "num_less (Finite x) (Finite y) = (x < y)"
| "num_less PosInf _ = False"
| "num_less _ PosInf = True"
| "num_less _ NegInf = False"
| "num_less NegInf _ = True"

fun is_container :: "json \<Rightarrow> bool" where
  "is_container (JArr _) = True"
| "is_container (JObj _) = True"
| "is_container _ = False"

definition in_enum :: "json \<Rightarrow> json \<Rightarrow> schema_error + bool" where
  "in_enum v options =
     (case options of
        JArr xs \<Rightarrow> Inr (\<exists>x\<in>set xs. py_eq x v)
      | JObj m \<Rightarrow> if is_container v then Inl SchemaRaised
                  else Inr (case v of JStr s \<Rightarrow> s \<in> set (map fst m) | _ \<Rightarrow> False)
      | JStr t \<Rightarrow> (case v of JStr s \<Rightarrow> Inr (has_substring s t) | _ \<Rightarrow> Inl SchemaRaised)
      | _ \<Rightarrow> Inl SchemaRaised)"

definition number_of :: "json \<Rightarrow> schema_error + pyfloat" where
  "number_of v = (case py_number v of None \<Rightarrow> Inl SchemaRaised | Some x \<Rightarrow> Inr x)"

text \<open>Whether a keyword, when present, rejects the value\<close>

definition keyword_rejects ::
  "jobject \<Rightarrow> pystr \<Rightarrow> (json \<Rightarrow> schema_error + bool) \<Rightarrow> schema_error + bool" where
  "keyword_rejects schema keyword test =
     (case map_of schema keyword of None \<Rightarrow> Inr False | Some bound \<Rightarrow> test bound)"

fun is_type :: "pystr \<Rightarrow> json \<Rightarrow> bool" where
  "is_type t v =
     (if t = lit ''object'' then (case v of JObj _ \<Rightarrow> True | _ \<Rightarrow> False)
      else if t = lit ''string'' then (case v of JStr _ \<Rightarrow> True | _ \<Rightarrow> False)
      else if t = lit ''boolean'' then (case v of JBool _ \<Rightarrow> True | _ \<Rightarrow> False)
      else if t = lit ''integer'' then (case v of JInt _ \<Rightarrow> True | _ \<Rightarrow> False)
      else if t = lit ''number'' then (case v of JInt _ \<Rightarrow> True | JFloat _ \<Rightarrow> True | _ \<Rightarrow> False)
      else False)"

datatype argument_problem =
    UnknownArgument pystr
  | MissingArgument pystr
  | WrongType pystr
  | NotInEnum pystr
  | TooShort pystr
  | TooLong pystr
  | BelowMinimum pystr
  | AboveMaximum pystr

definition length_problem :: "pystr \<Rightarrow> jobject \<Rightarrow> json \<Rightarrow> schema_error + argument_problem option" where
  "length_problem name schema v =
     (case v of
        JStr s \<Rightarrow>
          bind_result (keyword_rejects schema (lit ''minLength'')
              (\<lambda>b. bind_result (number_of b) (\<lambda>x. Inr (num_less (Finite (of_nat (length s))) x)))) (\<lambda>short.
          if short then Inr (Some (TooShort name)) else
          bind_result (keyword_rejects schema (lit ''maxLength'')
              (\<lambda>b. bind_result (number_of b) (\<lambda>x. Inr (num_less x (Finite (of_nat (length s))))))) (\<lambda>long.
          if long then Inr (Some (TooLong name)) else Inr None))
      | _ \<Rightarrow> Inr None)"

definition bound_problem :: "pystr \<Rightarrow> jobject \<Rightarrow> json \<Rightarrow> schema_error + argument_problem option" where
  "bound_problem name schema v =
     (if type_of v \<noteq> TNumber then Inr None
      else
          bind_result (number_of v) (\<lambda>n.
          bind_result (keyword_rejects schema (lit ''minimum'')
              (\<lambda>b. bind_result (number_of b) (\<lambda>x. Inr (num_less n x)))) (\<lambda>low.
          if low then Inr (Some (BelowMinimum name)) else
          bind_result (keyword_rejects schema (lit ''maximum'')
              (\<lambda>b. bind_result (number_of b) (\<lambda>x. Inr (num_less x n)))) (\<lambda>high.
          if high then Inr (Some (AboveMaximum name)) else Inr None))))"

definition check_argument :: "pystr \<Rightarrow> jobject \<Rightarrow> json \<Rightarrow> schema_error + argument_problem option" where
  "check_argument name schema v =
     bind_result (declared_type schema) (\<lambda>declared.
       if declared \<noteq> None \<and> \<not> is_type (the declared) v then Inr (Some (WrongType name))
       else bind_result (keyword_rejects schema (lit ''enum'')
              (\<lambda>options. bind_result (in_enum v options) (\<lambda>b. Inr (\<not> b)))) (\<lambda>outside.
       if outside then Inr (Some (NotInEnum name)) else
       bind_result (length_problem name schema v) (\<lambda>p.
       if p \<noteq> None then Inr p else bound_problem name schema v)))"

subsection \<open>Arguments\<close>

datatype argument_error = BadSchema schema_error | BadArguments "argument_problem list"

text \<open>\<open>schema.get("required") or ()\<close>: names; a name that is no string is in no mapping.\<close>

definition required_of :: "jobject \<Rightarrow> schema_error + json list" where
  "required_of schema =
     (case map_of schema (lit ''required'') of
        None \<Rightarrow> Inr []
      | Some v \<Rightarrow> if is_falsy v then Inr [] else (case v of JArr xs \<Rightarrow> Inr xs | _ \<Rightarrow> Inl SchemaRaised))"

definition missing_argument :: "jobject \<Rightarrow> json \<Rightarrow> schema_error + argument_problem list" where
  "missing_argument arguments name =
     (case name of
        JStr s \<Rightarrow> Inr (if has_key arguments s then [] else [MissingArgument s])
      | _ \<Rightarrow> if is_container name then Inl SchemaRaised else Inr [MissingArgument []])"

text \<open>One declared property: its problem, or the value it resolves to, or nothing.\<close>

definition resolve_argument ::
  "jobject \<Rightarrow> pystr \<times> json \<Rightarrow> schema_error + argument_problem list \<times> jobject" where
  "resolve_argument arguments p =
     (case p of (name, JObj sub) \<Rightarrow>
        (case map_of arguments name of
           None \<Rightarrow> Inr ([], case map_of sub (lit ''default'') of None \<Rightarrow> [] | Some d \<Rightarrow> [(name, d)])
         | Some v \<Rightarrow> bind_result (check_argument name sub v) (\<lambda>problem.
             Inr (case problem of None \<Rightarrow> ([], [(name, v)]) | Some q \<Rightarrow> ([q], []))))
      | (name, _) \<Rightarrow> Inl (PropertyNotASchema name))"

definition validate_arguments :: "jobject \<Rightarrow> jobject \<Rightarrow> argument_error + jobject" where
  "validate_arguments schema arguments =
     (case bind_result (validate_schema schema) (\<lambda>_.
           bind_result (properties_of schema) (\<lambda>properties.
           bind_result (required_of schema) (\<lambda>required.
           bind_result (map_result (missing_argument arguments) required) (\<lambda>missing.
           bind_result (map_result (resolve_argument arguments) properties) (\<lambda>resolved.
             Inr ((if map_of schema (lit ''additionalProperties'') = Some (JBool False)
                   then map UnknownArgument (sort (filter (\<lambda>k. \<not> has_key properties k) (map fst arguments)))
                   else []) @ concat missing @ concat (map fst resolved),
                  concat (map snd resolved))))))) of
        Inl e \<Rightarrow> Inl (BadSchema e)
      | Inr (problems, result) \<Rightarrow> if problems = [] then Inr result else Inl (BadArguments problems))"

subsection \<open>What an accepted call carries\<close>

lemma resolve_argument_clean:
  assumes "resolve_argument arguments (name, s) = Inr ([], kvs)"
  obtains sub where "s = JObj sub" "map fst kvs = [] \<or> map fst kvs = [name]"
    "\<And>v. map_of kvs name = Some v \<longleftrightarrow>
       map_of arguments name = Some v \<and> check_argument name sub v = Inr None \<or>
       map_of arguments name = None \<and> map_of sub (lit ''default'') = Some v"
proof -
  obtain sub where s: "s = JObj sub" using assms by (cases s) (auto simp: resolve_argument_def)
  show thesis
  proof (cases "map_of arguments name")
    case None
    then show thesis using assms
      by (intro that[OF s]) (auto simp: resolve_argument_def s split: option.splits)
  next
    case (Some v)
    then have c: "check_argument name sub v = Inr None" "kvs = [(name, v)]" using assms
      by (auto simp: resolve_argument_def s bind_result_Inr split: option.splits)
    then show thesis using Some by (intro that[OF s]) auto
  qed
qed

lemma resolve_argument_keys:
  "resolve_argument arguments p = Inr ([], kvs) \<Longrightarrow> map fst kvs = [] \<or> map fst kvs = [fst p]"
  by (cases p) (auto elim: resolve_argument_clean)

lemma concat_one_key:
  assumes "list_all2 (\<lambda>p kvs. map fst kvs = [] \<or> map fst kvs = [fst p]) props rs" "distinct (map fst props)"
  shows "set (map fst (concat rs)) \<subseteq> set (map fst props) \<and>
    (list_all2 (\<lambda>p kvs. map_of (concat rs) (fst p) = map_of kvs (fst p)) props rs)"
  using assms
proof (induction rule: list_all2_induct)
  case (Cons p props kvs rs)
  have k: "map_of kvs x = None" if "x \<noteq> fst p" for x
    using Cons.hyps(1) that by (metis empty_iff insert_iff list.set(1,2) list.set_map map_of_eq_None_iff)
  have n: "map_of (concat rs) (fst p) = None"
    using Cons by (auto simp: map_of_eq_None_iff)
  have "list_all2 (\<lambda>q ks. map_of (concat (kvs # rs)) (fst q) = map_of ks (fst q)) props rs"
  proof -
    have "map_of kvs (fst (props ! i)) = None" if "i < length props" for i
    proof (rule k)
      have "props ! i \<in> set props" using that by simp
      then show "fst (props ! i) \<noteq> fst p" using Cons.prems by (metis distinct.simps(2) image_eqI list.set_map list.simps(9))
    qed
    then show ?thesis
      using Cons.IH Cons.prems by (auto simp: list_all2_conv_all_nth map_add_def split: option.splits)
  qed
  then show ?case using Cons n by (auto simp: map_add_def split: option.splits)
qed simp

lemma accepted_parts:
  assumes "validate_arguments schema arguments = Inr r" "properties_of schema = Inr props"
  obtains resolved required missing where
    "list_all2 (\<lambda>p kvs. resolve_argument arguments p = Inr ([], kvs)) props resolved"
    "r = concat resolved" "required_of schema = Inr required"
    "map_result (missing_argument arguments) required = Inr missing" "concat missing = []"
    "map_of schema (lit ''additionalProperties'') = Some (JBool False) \<longrightarrow>
       filter (\<lambda>k. \<not> has_key props k) (map fst arguments) = []"
proof -
  obtain required missing rs where p:
    "required_of schema = Inr required" "map_result (missing_argument arguments) required = Inr missing"
    "map_result (resolve_argument arguments) props = Inr rs" "r = concat (map snd rs)"
    "concat missing = []" "concat (map fst rs) = []"
    "map_of schema (lit ''additionalProperties'') = Some (JBool False) \<longrightarrow>
       sort (filter (\<lambda>k. \<not> has_key props k) (map fst arguments)) = []"
    using assms
    by (auto simp: validate_arguments_def bind_result_Inr split: sum.splits prod.splits if_splits)
  have "list_all2 (\<lambda>p y. resolve_argument arguments p = Inr y) props rs"
    using p(3) by (simp add: map_result_Inr_conv)
  moreover have "y = ([], snd y)" if "y \<in> set rs" for y using p(6) that by (cases y) auto
  ultimately have "list_all2 (\<lambda>p y. resolve_argument arguments p = Inr ([], snd y)) props rs"
    by (smt (verit) list.rel_mono_strong)
  then have "list_all2 (\<lambda>p kvs. resolve_argument arguments p = Inr ([], kvs)) props (map snd rs)"
    by (simp add: list.rel_map)
  moreover have "map_of schema (lit ''additionalProperties'') = Some (JBool False) \<longrightarrow>
      filter (\<lambda>k. \<not> has_key props k) (map fst arguments) = []"
    using p(7) by (metis set_empty set_sort)
  ultimately show thesis by (rule that[OF _ p(4) p(1) p(2) p(5)])
qed

lemma accepted_member:
  assumes "validate_arguments schema arguments = Inr r" "properties_of schema = Inr props"
    and "distinct (map fst props)"
  shows "map_of r name = Some v \<longleftrightarrow>
    (\<exists>sub. map_of props name = Some (JObj sub) \<and>
      (map_of arguments name = Some v \<and> check_argument name sub v = Inr None \<or>
       map_of arguments name = None \<and> map_of sub (lit ''default'') = Some v))"
proof -
  obtain resolved where l: "list_all2 (\<lambda>p kvs. resolve_argument arguments p = Inr ([], kvs)) props resolved"
    and r: "r = concat resolved"
    by (rule accepted_parts[OF assms(1,2)]) (rule that)
  have "list_all2 (\<lambda>p kvs. map fst kvs = [] \<or> map fst kvs = [fst p]) props resolved"
    using l by (rule list_all2_mono) (rule resolve_argument_keys)
  from concat_one_key[OF this assms(3)]
  have keys: "set (map fst r) \<subseteq> set (map fst props)"
    and at: "list_all2 (\<lambda>p kvs. map_of r (fst p) = map_of kvs (fst p)) props resolved"
    by (auto simp: r)
  show ?thesis
  proof (cases "map_of props name")
    case None
    then have "map_of r name = None" using keys by (auto simp: map_of_eq_None_iff)
    then show ?thesis using None by simp
  next
    case (Some s)
    then obtain i where i: "i < length props" "props ! i = (name, s)"
      by (metis in_set_conv_nth map_of_SomeD)
    then have a: "resolve_argument arguments (name, s) = Inr ([], resolved ! i)"
      and m: "map_of r name = map_of (resolved ! i) name"
      using l at by (auto simp: list_all2_conv_all_nth)
    from a obtain sub where "s = JObj sub" "\<And>v. map_of (resolved ! i) name = Some v \<longleftrightarrow>
        map_of arguments name = Some v \<and> check_argument name sub v = Inr None \<or>
        map_of arguments name = None \<and> map_of sub (lit ''default'') = Some v"
      by (rule resolve_argument_clean) (rule that)
    then show ?thesis using Some m by simp
  qed
qed

lemma accepted_required:
  assumes "validate_arguments schema arguments = Inr r" "required_of schema = Inr required"
  shows "\<forall>n\<in>set required. \<exists>s. n = JStr s \<and> has_key arguments s"
proof
  fix n assume n: "n \<in> set required"
  obtain props where "properties_of schema = Inr props"
    using assms(1) by (auto simp: validate_arguments_def bind_result_Inr split: sum.splits)
  then obtain missing where "map_result (missing_argument arguments) required = Inr missing" "concat missing = []"
    using assms(2) by (auto elim: accepted_parts[OF assms(1)])
  then have "missing_argument arguments n = Inr []"
    using map_result_each[OF _ n] by (metis concat_eq_Nil_conv)
  then show "\<exists>s. n = JStr s \<and> has_key arguments s"
    by (auto simp: missing_argument_def split: json.splits if_splits)
qed

text \<open>
  C23. Arguments. A call that passes the published schema carries, for every declared property,
  the caller's value after its own check or else the declared default, and nothing else: a member
  the schema does not declare is dropped, or refused when \<open>additionalProperties\<close> is false. Every
  required name was supplied.
\<close>

theorem accepted_arguments:
  assumes "validate_arguments schema arguments = Inr r" "properties_of schema = Inr props"
    and "distinct (map fst props)" "required_of schema = Inr required"
  shows "(map_of r name = Some v \<longleftrightarrow>
      (\<exists>sub. map_of props name = Some (JObj sub) \<and>
        (map_of arguments name = Some v \<and> check_argument name sub v = Inr None \<or>
         map_of arguments name = None \<and> map_of sub (lit ''default'') = Some v))) \<and>
    (\<forall>n\<in>set required. \<exists>s. n = JStr s \<and> has_key arguments s) \<and>
    (map_of schema (lit ''additionalProperties'') = Some (JBool False) \<longrightarrow>
      (\<forall>k. has_key arguments k \<longrightarrow> has_key props k))"
proof -
  have "map_of schema (lit ''additionalProperties'') = Some (JBool False) \<longrightarrow>
      filter (\<lambda>k. \<not> has_key props k) (map fst arguments) = []"
    by (rule accepted_parts[OF assms(1,2)])
  then have "map_of schema (lit ''additionalProperties'') = Some (JBool False) \<longrightarrow>
      (\<forall>k. has_key arguments k \<longrightarrow> has_key props k)"
    unfolding filter_empty_conv has_key_def[of arguments] by blast
  with accepted_member[OF assms(1-3)] accepted_required[OF assms(1,4)] show ?thesis by blast
qed

definition quantity_schema :: jobject where
  "quantity_schema =
     [(lit ''type'', JStr (lit ''object'')),
      (lit ''properties'', JObj
        [(lit ''sku'', JObj [(lit ''type'', JStr (lit ''string''))]),
         (lit ''quantity'', JObj [(lit ''type'', JStr (lit ''integer'')), (lit ''minimum'', JInt 1),
                                  (lit ''default'', JInt 1)])]),
      (lit ''required'', JArr [JStr (lit ''sku'')]),
      (lit ''additionalProperties'', JBool False)]"

lemma accepted_arguments_witness:
  "\<exists>r props required.
     validate_arguments quantity_schema [(lit ''sku'', JStr (lit ''mug''))] = Inr r \<and>
     properties_of quantity_schema = Inr props \<and> required_of quantity_schema = Inr required \<and>
     map_of r (lit ''quantity'') = Some (JInt 1) \<and>
     validate_arguments quantity_schema [(lit ''sku'', JStr (lit ''mug'')), (lit ''quantity'', JInt 0)] =
       Inl (BadArguments [BelowMinimum (lit ''quantity'')])"
proof -
  have v: "validate_schema quantity_schema = Inr ()"
    by (simp add: validate_schema.simps quantity_schema_def supported_keywords_def declared_type_def
        properties_of_def supported_types_def Let_def)
  obtain props where p: "properties_of quantity_schema = Inr props" "distinct (map fst props)"
    "map_of props (lit ''quantity'') =
      Some (JObj [(lit ''type'', JStr (lit ''integer'')), (lit ''minimum'', JInt 1), (lit ''default'', JInt 1)])"
    by (simp add: quantity_schema_def properties_of_def)
  obtain required where q: "required_of quantity_schema = Inr required"
    by (simp add: quantity_schema_def required_of_def)
  obtain r where r: "validate_arguments quantity_schema [(lit ''sku'', JStr (lit ''mug''))] = Inr r"
    using v
    by (simp add: validate_arguments_def quantity_schema_def properties_of_def required_of_def
        missing_argument_def resolve_argument_def check_argument_def declared_type_def supported_types_def
        keyword_rejects_def length_problem_def bound_problem_def has_key_def)
  have "validate_arguments quantity_schema [(lit ''sku'', JStr (lit ''mug'')), (lit ''quantity'', JInt 0)] =
      Inl (BadArguments [BelowMinimum (lit ''quantity'')])"
    using v
    by (simp add: validate_arguments_def quantity_schema_def properties_of_def required_of_def
        missing_argument_def resolve_argument_def check_argument_def declared_type_def supported_types_def
        keyword_rejects_def length_problem_def bound_problem_def has_key_def number_of_def)
  then show ?thesis
    using r p q accepted_arguments[OF r p(1,2) q, of "lit ''quantity''" "JInt 1"] by auto
qed

end
