(* ===== verification/Database.thy ===== *)
theory Database
  imports Ports Verification
begin

section \<open>The service's tables\<close>

text \<open>
  The rows the run services read and write (\<open>persistence/repositories.py\<close>), one list per table
  in insertion order, and the small transactions everything else is composed of: appending an
  event, recording guidance (\<open>application/guidance_service.py\<close>), scoping a read to a workspace
  (\<open>application/authorization.py\<close>) and the ceilings (\<open>application/limits.py\<close>). A transaction is a
  function of the tables that may refuse; a refusal rolls back, so it returns no tables. An
  instant is a number of microseconds and a stored one is its text.
\<close>

subsection \<open>Refusals\<close>

datatype api_error_code =
    Api_ContractValidationFailed
  | Api_PreconditionFailed
  | Api_RunInProgress
  | Api_RunAlreadyVerifying
  | Api_RunTimelineSealed
  | Api_ToolIdentityMismatch
  | Api_ResourceNotFound
  | Api_EventLimitExceeded
  | Api_WorkspaceLimitExceeded
  | Api_TargetUnavailable
  | Api_HarnessError

text \<open>
  What a transaction may raise: a structured refusal, a transition the machine forbids, a value
  without a canonical form, an evaluation that raised, or the database's own integrity check.
\<close>

datatype service_error =
    ApiRefused api_error_code
  | TransitionRefused
  | HashRefused canon_error
  | SurfaceRaised surface_error
  | EvaluationRaised evaluation_error
  | IntegrityFailed

subsection \<open>Rows\<close>

record workspace_row =
  wk_id :: pystr
  wk_selected_contract_id :: "pystr option"
  wk_selected_target_id :: "pystr option"
  wk_active_run_id :: "pystr option"
  wk_scenario_mode :: "pystr option"
  wk_failure_profile :: "pystr option"

record contract_row =
  ct_id :: pystr
  ct_workspace_id :: "pystr option"
  ct_content_hash :: pystr
  ct_contract :: outcome_contract

record run_row =
  rn_id :: pystr
  rn_workspace_id :: pystr
  rn_contract_id :: "pystr option"
  rn_contract_content_hash :: pystr
  rn_target_id :: pystr
  rn_target_adapter_id :: pystr
  rn_scenario_mode :: "pystr option"
  rn_failure_profile :: "pystr option"
  rn_fault_active :: bool
  rn_status :: run_state
  rn_overall_result :: "layer_result option"
  rn_started_at :: pystr
  rn_completed_at :: "pystr option"
  rn_comparison_source_run_id :: "pystr option"

record event_row = run_event +
  er_run_id :: pystr
  er_tool_identity_hash :: "pystr option"
  er_status :: "pystr option"

record confirmation_row =
  cf_id :: pystr
  cf_workspace_id :: pystr
  cf_run_id :: pystr
  cf_correlation_id :: pystr
  cf_tool_name :: pystr
  cf_state_binding_hash :: pystr
  cf_arguments_hash :: "pystr option"
  cf_consequence :: jobject
  cf_status :: confirmation_status
  cf_expires_at :: nat
  cf_created_at :: pystr
  cf_decided_at :: "pystr option"
  cf_consumed_at :: "pystr option"

record guidance_row =
  gd_workspace_id :: pystr
  gd_run_id :: "pystr option"
  gd_workspace_version :: nat
  gd_guidance :: guidance_state
  gd_correlation_id :: pystr

record snapshot_row =
  sn_run_id :: pystr
  sn_phase :: snapshot_phase
  sn_observation :: observation
  sn_content_hash :: pystr

record artifact_row =
  ar_workspace_id :: pystr
  ar_run_id :: "pystr option"
  ar_artifact_type :: pystr
  ar_content_hash :: pystr
  ar_byte_size :: nat

record evaluation_case_row =
  ec_id :: pystr
  ec_workspace_id :: pystr
  ec_source_run_id :: pystr

record evaluation_run_row =
  vr_owner_workspace_id :: pystr
  vr_evaluation_case_id :: pystr
  vr_completed :: bool

record database =
  db_workspaces :: "workspace_row list"
  db_contracts :: "contract_row list"
  db_runs :: "run_row list"
  db_events :: "event_row list"
  db_confirmations :: "confirmation_row list"
  db_guidance :: "guidance_row list"
  db_snapshots :: "snapshot_row list"
  db_findings :: "(pystr \<times> finding) list"
  db_artifacts :: "artifact_row list"
  db_evaluation_cases :: "evaluation_case_row list"
  db_evaluation_runs :: "evaluation_run_row list"

text \<open>\<open>ORDER BY k DESC LIMIT 1\<close>\<close>

definition latest_by :: "('a \<Rightarrow> 'k::linorder) \<Rightarrow> 'a list \<Rightarrow> 'a option" where
  "latest_by k rows = (case rev (sort_key k rows) of [] \<Rightarrow> None | r # _ \<Rightarrow> Some r)"

lemma latest_by_mem: "latest_by k rows = Some r \<Longrightarrow> r \<in> set rows"
proof -
  assume "latest_by k rows = Some r"
  then obtain zs where "rev (sort_key k rows) = r # zs" by (auto simp: latest_by_def split: list.splits)
  then have "r \<in> set (rev (sort_key k rows))" by (simp only: list.set_intros)
  then show ?thesis by simp
qed

lemma latest_by_None [simp]: "latest_by k rows = None \<longleftrightarrow> rows = []"
proof -
  have "rev (sort_key k rows) = [] \<longleftrightarrow> rows = []" by (metis rev_is_Nil_conv set_empty set_sort)
  then show ?thesis by (auto simp: latest_by_def split: list.splits)
qed

subsection \<open>Scoped reads\<close>

definition find_run :: "database \<Rightarrow> pystr \<Rightarrow> pystr \<Rightarrow> run_row option" where
  "find_run db ws rid = find (\<lambda>r. rn_id r = rid \<and> rn_workspace_id r = ws) (db_runs db)"

definition scoped_run :: "database \<Rightarrow> pystr \<Rightarrow> pystr \<Rightarrow> service_error + run_row" where
  "scoped_run db ws rid =
     (case find_run db ws rid of None \<Rightarrow> Inl (ApiRefused Api_ResourceNotFound) | Some r \<Rightarrow> Inr r)"

definition scoped_contract :: "database \<Rightarrow> pystr \<Rightarrow> pystr \<Rightarrow> service_error + contract_row" where
  "scoped_contract db ws cid =
     (case find (\<lambda>c. ct_id c = cid \<and> (ct_workspace_id c = Some ws \<or> ct_workspace_id c = None))
        (db_contracts db) of
        None \<Rightarrow> Inl (ApiRefused Api_ResourceNotFound)
      | Some c \<Rightarrow> Inr c)"

definition stored_contract :: "database \<Rightarrow> pystr \<Rightarrow> outcome_contract option" where
  "stored_contract db cid = map_option ct_contract (find (\<lambda>c. ct_id c = cid) (db_contracts db))"

definition workspace_of :: "database \<Rightarrow> pystr \<Rightarrow> workspace_row option" where
  "workspace_of db ws = find (\<lambda>w. wk_id w = ws) (db_workspaces db)"

subsection \<open>Events\<close>

definition events_of :: "database \<Rightarrow> pystr \<Rightarrow> event_row list" where
  "events_of db rid = filter (\<lambda>e. er_run_id e = rid) (db_events db)"

definition next_sequence :: "database \<Rightarrow> pystr \<Rightarrow> nat" where
  "next_sequence db rid = foldr max (map ev_sequence_number (events_of db rid)) 0 + 1"

definition event_count :: "database \<Rightarrow> pystr \<Rightarrow> nat" where
  "event_count db rid = length (events_of db rid)"

text \<open>The columns an event leaves out are null, its payload an empty object.\<close>

definition draft_event :: "outcome_event_type \<Rightarrow> event_actor \<Rightarrow> event_row" where
  "draft_event t a =
     \<lparr>ev_sequence_number = 0, ev_event_type = t, ev_actor = a, ev_created_at = 0, ev_tool_name = None,
      ev_correlation_id = None, ev_request_id = None, ev_reported_status = None,
      ev_state_version_before = None, ev_state_version_after = None, ev_state_hash_before = None,
      ev_state_hash_after = None, ev_duration_ms = None, ev_redacted_payload = [],
      ev_post_call_effect_state = None, er_run_id = [], er_tool_identity_hash = None, er_status = None\<rparr>"

definition run_exists :: "database \<Rightarrow> pystr \<Rightarrow> bool" where
  "run_exists db rid \<longleftrightarrow> (\<exists>r\<in>set (db_runs db). rn_id r = rid)"

text \<open>\<open>EventRepository.append\<close>: an event of no run violates its foreign key.\<close>

definition append_event :: "nat \<Rightarrow> pystr \<Rightarrow> event_row \<Rightarrow> database \<Rightarrow> service_error + database" where
  "append_event now rid event db =
     (if run_exists db rid then
        Inr (db\<lparr>db_events := db_events db @
          [event\<lparr>ev_sequence_number := next_sequence db rid, ev_created_at := int now,
                 er_run_id := rid\<rparr>]\<rparr>)
      else Inl IntegrityFailed)"

text \<open>\<open>_run_event\<close>: the stored row as the core's event.\<close>

definition run_event_of :: "event_row \<Rightarrow> run_event" where
  "run_event_of e =
     \<lparr>ev_sequence_number = ev_sequence_number e, ev_event_type = ev_event_type e, ev_actor = ev_actor e,
      ev_created_at = ev_created_at e, ev_tool_name = ev_tool_name e,
      ev_correlation_id = ev_correlation_id e, ev_request_id = ev_request_id e,
      ev_reported_status = ev_reported_status e, ev_state_version_before = ev_state_version_before e,
      ev_state_version_after = ev_state_version_after e, ev_state_hash_before = ev_state_hash_before e,
      ev_state_hash_after = ev_state_hash_after e, ev_duration_ms = ev_duration_ms e,
      ev_redacted_payload = ev_redacted_payload e,
      ev_post_call_effect_state =
        (case map_of (ev_redacted_payload e) (lit ''post_call_effect_state'') of
           Some (JObj m) \<Rightarrow> Some m | _ \<Rightarrow> None)\<rparr>"

definition timeline :: "database \<Rightarrow> pystr \<Rightarrow> run_event list" where
  "timeline db rid = map run_event_of (sort_key ev_sequence_number (events_of db rid))"

subsection \<open>Status updates\<close>

text \<open>\<open>UPDATE runs SET status = ? WHERE id = ? AND workspace_id = ?\<close>\<close>

definition set_run_status :: "pystr \<Rightarrow> pystr \<Rightarrow> run_state \<Rightarrow> database \<Rightarrow> database" where
  "set_run_status ws rid st db =
     db\<lparr>db_runs := map (\<lambda>r. if rn_id r = rid \<and> rn_workspace_id r = ws then r\<lparr>rn_status := st\<rparr> else r)
        (db_runs db)\<rparr>"

definition complete_run :: "nat \<Rightarrow> pystr \<Rightarrow> pystr \<Rightarrow> run_state \<Rightarrow> database \<Rightarrow> database" where
  "complete_run now ws rid st db =
     db\<lparr>db_runs := map (\<lambda>r. if rn_id r = rid \<and> rn_workspace_id r = ws
          then r\<lparr>rn_status := st, rn_completed_at := Some (isoformat_z now)\<rparr> else r) (db_runs db)\<rparr>"

definition transition_check :: "run_state \<Rightarrow> run_state \<Rightarrow> service_error + unit" where
  "transition_check s t =
     (case validate_run_transition s t of Inl _ \<Rightarrow> Inl TransitionRefused | Inr u \<Rightarrow> Inr u)"

text \<open>A value's hash inside a transaction\<close>

definition state_hash :: "jobject \<Rightarrow> service_error + pystr" where
  "state_hash payload =
     (case content_hash (JObj payload) of Inl e \<Rightarrow> Inl (HashRefused e) | Inr h \<Rightarrow> Inr h)"

definition observation_hash :: "observation \<Rightarrow> service_error + pystr" where
  "observation_hash ob = state_hash (ob_payload ob)"

subsection \<open>Guidance\<close>

definition regression_progress :: "database \<Rightarrow> pystr \<Rightarrow> pystr \<Rightarrow> bool \<times> bool" where
  "regression_progress db ws rid =
     (case find (\<lambda>c. ec_workspace_id c = ws \<and> ec_source_run_id c = rid) (db_evaluation_cases db) of
        None \<Rightarrow> (False, False)
      | Some c \<Rightarrow> (True, \<exists>v\<in>set (db_evaluation_runs db).
          vr_owner_workspace_id v = ws \<and> vr_evaluation_case_id v = ec_id c \<and> \<not> vr_completed v))"

definition current_guidance :: "database \<Rightarrow> pystr \<Rightarrow> guidance_state" where
  "current_guidance db ws =
     (case workspace_of db ws of
        None \<Rightarrow> derive_guidance (phase_for False None False False) None
      | Some w \<Rightarrow>
          (let contract = truthy (wk_selected_contract_id w);
               run = (if truthy (wk_active_run_id w) then find_run db ws (the (wk_active_run_id w)) else None)
           in (case run of
                 None \<Rightarrow> derive_guidance (phase_for contract None False False) None
               | Some r \<Rightarrow>
                   (let progress = regression_progress db ws (rn_id r) in
                    derive_guidance (phase_for contract (Some (rn_status r)) (fst progress) (snd progress))
                      (Some (rn_id r))))))"

definition workspace_guidance :: "database \<Rightarrow> pystr \<Rightarrow> guidance_row list" where
  "workspace_guidance db ws = filter (\<lambda>g. gd_workspace_id g = ws) (db_guidance db)"

definition next_version :: "database \<Rightarrow> pystr \<Rightarrow> nat" where
  "next_version db ws = foldr max (map gd_workspace_version (workspace_guidance db ws)) 0 + 1"

definition latest_guidance :: "database \<Rightarrow> pystr \<Rightarrow> guidance_row option" where
  "latest_guidance db ws = latest_by gd_workspace_version (workspace_guidance db ws)"

definition guidance_payload :: "pystr \<Rightarrow> guidance_state \<Rightarrow> jobject" where
  "guidance_payload gid g =
     [(lit ''guidance_event_id'', JStr gid),
      (lit ''phase'', JStr (workspace_phase_value (gs_phase g))),
      (lit ''active_actor'', JStr (guidance_actor_value (gs_active_actor g))),
      (lit ''action_code'', case gs_action_code g of
         None \<Rightarrow> JNull | Some a \<Rightarrow> JStr (guidance_action_code_value a))]"

text \<open>\<open>GuidanceRecorder.append\<close>; \<open>gid\<close> is the new row's identifier.\<close>

definition append_guidance ::
  "nat \<Rightarrow> pystr \<Rightarrow> pystr \<Rightarrow> guidance_state \<Rightarrow> pystr option \<Rightarrow> database \<Rightarrow> service_error + database" where
  "append_guidance now gid ws g rid db =
     (let correlation = (if truthy (gs_correlation_id g) then the (gs_correlation_id g) else gid);
          row = \<lparr>gd_workspace_id = ws, gd_run_id = rid, gd_workspace_version = next_version db ws,
                 gd_guidance = g, gd_correlation_id = correlation\<rparr>;
          db' = db\<lparr>db_guidance := db_guidance db @ [row]\<rparr>
      in (case rid of
            None \<Rightarrow> Inr db'
          | Some r \<Rightarrow> append_event now r
              ((draft_event Ev_GuidanceTransitioned Ac_Harness)
                 \<lparr>ev_correlation_id := Some correlation, ev_redacted_payload := guidance_payload gid g\<rparr>) db'))"

definition guidance_transition ::
  "nat \<Rightarrow> pystr \<Rightarrow> pystr \<Rightarrow> guidance_state \<Rightarrow> pystr option \<Rightarrow> database \<Rightarrow> service_error + database" where
  "guidance_transition now gid ws g rid db =
     (case latest_guidance db ws of
        Some l \<Rightarrow> if gs_phase (gd_guidance l) = gs_phase g then Inr db else append_guidance now gid ws g rid db
      | None \<Rightarrow> append_guidance now gid ws g rid db)"

subsection \<open>Ceilings\<close>

definition events_per_run :: int where
  "events_per_run = 250"

definition ordinary_events_per_run :: int where
  "ordinary_events_per_run = events_per_run - 1"

definition outcome_runs_per_workspace :: nat where
  "outcome_runs_per_workspace = 10"

definition artifacts_per_workspace :: nat where
  "artifacts_per_workspace = 25"

definition artifact_bytes_per_workspace :: nat where
  "artifact_bytes_per_workspace = 10 * 1024 * 1024"

definition event_budget_remaining :: "database \<Rightarrow> pystr \<Rightarrow> int \<Rightarrow> int" where
  "event_budget_remaining db rid reserved = ordinary_events_per_run - reserved - int (event_count db rid)"

definition limit_payload :: jobject where
  "limit_payload =
     [(lit ''code'', JStr (lit ''EVENT_LIMIT_EXCEEDED'')), (lit ''limit'', JInt ordinary_events_per_run)]"

text \<open>
  \<open>trip_if_event_budget_exhausted\<close>: no refusal, or the refusal to raise after the commit
  together with the tables that carry the boundary event. A missing run refuses and writes nothing.
\<close>

definition trip_if_event_budget_exhausted ::
  "nat \<Rightarrow> pystr \<Rightarrow> pystr \<Rightarrow> int \<Rightarrow> database \<Rightarrow> service_error + (api_error_code option \<times> database)" where
  "trip_if_event_budget_exhausted now ws rid reserved db =
     (if event_budget_remaining db rid reserved > 0 then Inr (None, db)
      else if find_run db ws rid = None then Inr (Some Api_ResourceNotFound, db)
      else bind_result (append_event now rid
             ((draft_event Ev_ResourceLimitExceeded Ac_Harness)
                \<lparr>er_status := Some (lit ''EVENT_LIMIT_EXCEEDED''), ev_redacted_payload := limit_payload\<rparr>)
             (complete_run now ws rid Run_Error db))
           (\<lambda>db'. Inr (Some Api_EventLimitExceeded, db')))"

definition guard_new_run :: "database \<Rightarrow> pystr \<Rightarrow> service_error + unit" where
  "guard_new_run db ws =
     (if length (filter (\<lambda>r. rn_workspace_id r = ws) (db_runs db)) \<ge> outcome_runs_per_workspace
      then Inl (ApiRefused Api_WorkspaceLimitExceeded) else Inr ())"

text \<open>
  \<open>ArtifactStore.record\<close>: the row of a written document, refused at either ceiling. The
  refusal rolls back the transaction it is part of.
\<close>

definition guard_new_artifact :: "database \<Rightarrow> pystr \<Rightarrow> nat \<Rightarrow> service_error + unit" where
  "guard_new_artifact db ws bytes =
     (let held = filter (\<lambda>a. ar_workspace_id a = ws) (db_artifacts db) in
      if length held \<ge> artifacts_per_workspace then Inl (ApiRefused Api_WorkspaceLimitExceeded)
      else if sum_list (map ar_byte_size held) + bytes > artifact_bytes_per_workspace
      then Inl (ApiRefused Api_WorkspaceLimitExceeded)
      else Inr ())"

definition record_artifact :: "artifact_row \<Rightarrow> database \<Rightarrow> service_error + database" where
  "record_artifact a db =
     bind_result (guard_new_artifact db (ar_workspace_id a) (ar_byte_size a))
       (\<lambda>_. Inr (db\<lparr>db_artifacts := db_artifacts db @ [a]\<rparr>))"

end
