(* ===== verification/Confirmations.thy ===== *)
theory Confirmations
  imports Database
begin

section \<open>Human confirmations\<close>

text \<open>
  \<open>application/confirmation_service.py\<close> (which calls need a person, the stored request and its
  conditional updates) and \<open>application/decision_service.py\<close> (the person's decision, and the
  expiry of a request nobody decided). Every decision is one transaction whose conditional
  update on the request's status decides a race.
\<close>

subsection \<open>Which calls need a person\<close>

definition confirmation_event_reservation :: int where "confirmation_event_reservation = 2"

record confirmation_need =
  cn_tool :: pystr
  cn_timeout_seconds :: int

text \<open>
  Stored documents are the canonical ones, whose \<open>tool\<close> is a text and \<open>timeout_seconds\<close> an
  integer; a policy object without a timeout gets 60 seconds.
\<close>

definition doc_items :: "jobject \<Rightarrow> pystr \<Rightarrow> json list" where
  "doc_items doc key = (case map_of doc key of Some (JArr xs) \<Rightarrow> xs | _ \<Rightarrow> [])"

fun policy_need :: "pystr \<Rightarrow> json \<Rightarrow> confirmation_need option" where
  "policy_need tool (JObj m) =
     (if map_of m (lit ''type'') \<noteq> Some (JStr (policy_type_value Pt_RequiresConfirmation)) then None
      else if map_of m (lit ''tool'') \<noteq> Some (JStr tool) then None
      else Some \<lparr>cn_tool = tool, cn_timeout_seconds =
        (case map_of m (lit ''timeout_seconds'') of Some (JInt n) \<Rightarrow> n | _ \<Rightarrow> 60)\<rparr>)"
| "policy_need tool _ = None"

definition confirmation_requirement :: "jobject option \<Rightarrow> pystr \<Rightarrow> confirmation_need option" where
  "confirmation_requirement document tool =
     (case document of
        None \<Rightarrow> None
      | Some doc \<Rightarrow>
          (case List.map_filter (policy_need tool) (doc_items doc (lit ''policies'')) of
             [] \<Rightarrow> None | n # _ \<Rightarrow> Some n))"

text \<open>On a stored contract: the tool is named by one of its \<open>requires_confirmation\<close> policies.\<close>

definition protects :: "outcome_contract \<Rightarrow> pystr \<Rightarrow> bool" where
  "protects c tool \<longleftrightarrow> (\<exists>n. RequiresConfirmation tool n \<in> set (oc_policies c))"

lemma policy_need_document:
  "policy_need tool (policy_document p) =
     (case p of RequiresConfirmation t n \<Rightarrow>
        if t = tool then Some \<lparr>cn_tool = tool, cn_timeout_seconds = n\<rparr> else None
      | _ \<Rightarrow> None)"
  by (cases p) (auto simp: policy_type_member_def)

lemma doc_items_policies: "doc_items (contract_document c) (lit ''policies'') = map policy_document (oc_policies c)"
  by (simp add: doc_items_def contract_document_def split: option.split)

lemma confirmation_requirement_protects:
  "confirmation_requirement (Some (contract_document c)) tool \<noteq> None \<longleftrightarrow> protects c tool"
proof -
  have "List.map_filter (policy_need tool) (map policy_document (oc_policies c)) = [] \<longleftrightarrow> \<not> protects c tool"
    by (auto simp: map_filter_def filter_empty_conv protects_def policy_need_document split: policy.splits)
  then show ?thesis
    by (auto simp: confirmation_requirement_def doc_items_policies split: list.splits)
qed

subsection \<open>The stored request\<close>

definition consequence_summary ::
  "pystr \<Rightarrow> json \<Rightarrow> observation \<Rightarrow> observation_path list \<Rightarrow> redaction_policy option \<Rightarrow> jobject" where
  "consequence_summary tool arguments observed paths policy =
     [(lit ''action'', JStr tool),
      (lit ''arguments'', bounded max_finding_value_chars arguments),
      (lit ''state_version'', opt_str (ob_state_version observed)),
      (lit ''affects'', bounded max_finding_value_chars
         (case effect_context paths (Some (as_context observed)) policy of None \<Rightarrow> JObj [] | Some m \<Rightarrow> JObj m))]"

definition open_confirmation ::
  "nat \<Rightarrow> pystr \<Rightarrow> pystr \<Rightarrow> pystr \<Rightarrow> pystr \<Rightarrow> pystr \<Rightarrow> pystr \<Rightarrow> pystr \<Rightarrow> jobject \<Rightarrow> nat \<Rightarrow> database \<Rightarrow> database" where
  "open_confirmation now cid ws rid correlation tool binding arguments consequence expires db =
     db\<lparr>db_confirmations := db_confirmations db @
       [\<lparr>cf_id = cid, cf_workspace_id = ws, cf_run_id = rid, cf_correlation_id = correlation,
         cf_tool_name = tool, cf_state_binding_hash = binding, cf_arguments_hash = Some arguments,
         cf_consequence = consequence, cf_status = Cf_Pending, cf_expires_at = expires,
         cf_created_at = isoformat_z now, cf_decided_at = None, cf_consumed_at = None\<rparr>]\<rparr>"

definition find_confirmation :: "database \<Rightarrow> pystr \<Rightarrow> pystr \<Rightarrow> confirmation_row option" where
  "find_confirmation db ws cid =
     find (\<lambda>c. cf_id c = cid \<and> cf_workspace_id c = ws) (db_confirmations db)"

definition pending_for_run :: "database \<Rightarrow> pystr \<Rightarrow> pystr \<Rightarrow> confirmation_row option" where
  "pending_for_run db ws rid =
     latest_by (\<lambda>c. (cf_created_at c, cf_id c))
       (filter (\<lambda>c. cf_workspace_id c = ws \<and> cf_run_id c = rid \<and> cf_status c = Cf_Pending)
         (db_confirmations db))"

text \<open>\<open>decided_at\<close> of a decided request is never null; a null would sort first.\<close>

definition live_approval :: "database \<Rightarrow> pystr \<Rightarrow> pystr \<Rightarrow> pystr \<Rightarrow> confirmation_row option" where
  "live_approval db ws rid tool =
     latest_by (\<lambda>c. (case cf_decided_at c of None \<Rightarrow> [] | Some t \<Rightarrow> t, cf_id c))
       (filter (\<lambda>c. cf_workspace_id c = ws \<and> cf_run_id c = rid \<and> cf_tool_name c = tool \<and>
                    cf_status c = Cf_Approved) (db_confirmations db))"

text \<open>
  \<open>UPDATE ... WHERE id = ? AND workspace_id = ? AND status = ?\<close>: the conditional update every
  decision and every claim rests on. The identifier is the primary key, so at most one row moves.
\<close>

definition update_confirmation ::
  "pystr \<Rightarrow> pystr \<Rightarrow> confirmation_status \<Rightarrow> (confirmation_row \<Rightarrow> confirmation_row) \<Rightarrow> database \<Rightarrow>
   bool \<times> database" where
  "update_confirmation ws cid expected change db =
     (let hit = (\<lambda>c. cf_id c = cid \<and> cf_workspace_id c = ws \<and> cf_status c = expected) in
      (length (filter hit (db_confirmations db)) = 1,
       db\<lparr>db_confirmations := map (\<lambda>c. if hit c then change c else c) (db_confirmations db)\<rparr>))"

definition mark_confirmation ::
  "nat \<Rightarrow> pystr \<Rightarrow> pystr \<Rightarrow> confirmation_status \<Rightarrow> database \<Rightarrow> bool \<times> database" where
  "mark_confirmation now ws cid status =
     update_confirmation ws cid Cf_Pending
       (\<lambda>c. c\<lparr>cf_status := status, cf_decided_at := Some (isoformat_z now)\<rparr>)"

definition claim_approved :: "nat \<Rightarrow> pystr \<Rightarrow> pystr \<Rightarrow> database \<Rightarrow> bool \<times> database" where
  "claim_approved now ws cid =
     update_confirmation ws cid Cf_Approved
       (\<lambda>c. c\<lparr>cf_status := Cf_Consumed, cf_consumed_at := Some (isoformat_z now)\<rparr>)"

text \<open>\<open>isoformat\<close> of an instant in UTC, which an event payload carries as it is\<close>

definition isoformat_utc :: "nat \<Rightarrow> pystr" where
  "isoformat_utc t =
     (let seconds = t div micros_per_second; us = t mod micros_per_second in
      date_text (seconds div 86400) @ [84] @ time_text (seconds mod 86400) @ fraction_text us @ lit ''+00:00'')"

definition expiry_from :: "nat \<Rightarrow> confirmation_need \<Rightarrow> nat" where
  "expiry_from clock need = nat (int clock + cn_timeout_seconds need * 1000000)"

subsection \<open>Decisions\<close>

datatype decision = ApproveOnce | Deny | Cancel

text \<open>\<open>_pending\<close>: the request a decision is about, if it is still open\<close>

definition pending_request ::
  "database \<Rightarrow> pystr \<Rightarrow> pystr \<Rightarrow> pystr \<Rightarrow> service_error + confirmation_row" where
  "pending_request db ws rid cid =
     bind_result (scoped_run db ws rid) (\<lambda>_.
       (case find_confirmation db ws cid of
          None \<Rightarrow> Inl (ApiRefused Api_ResourceNotFound)
        | Some c \<Rightarrow>
            if cf_run_id c \<noteq> rid then Inl (ApiRefused Api_ResourceNotFound)
            else if cf_status c \<noteq> Cf_Pending then Inl (ApiRefused Api_PreconditionFailed)
            else Inr c))"

definition lapsed :: "nat \<Rightarrow> confirmation_row \<Rightarrow> bool" where
  "lapsed clock c \<longleftrightarrow> cf_expires_at c \<le> clock"

text \<open>What a decision amounts to: an expired request is refused whatever was decided.\<close>

fun refusal_of :: "decision \<Rightarrow> (confirmation_status \<times> outcome_event_type) option" where
  "refusal_of Deny = Some (Cf_Denied, Ev_ConfirmationDenied)"
| "refusal_of Cancel = Some (Cf_Cancelled, Ev_ConfirmationCancelled)"
| "refusal_of ApproveOnce = None"

definition effective_refusal ::
  "nat \<Rightarrow> confirmation_row \<Rightarrow> decision \<Rightarrow> (confirmation_status \<times> outcome_event_type) option" where
  "effective_refusal clock c d =
     (if lapsed clock c then Some (Cf_Expired, Ev_ConfirmationExpired) else refusal_of d)"

definition record_decision ::
  "nat \<Rightarrow> pystr \<Rightarrow> confirmation_row \<Rightarrow> outcome_event_type \<Rightarrow> confirmation_status \<Rightarrow> database \<Rightarrow>
   service_error + database" where
  "record_decision now rid c event status =
     append_event now rid
       ((draft_event event Ac_Human)
          \<lparr>ev_tool_name := Some (cf_tool_name c), ev_correlation_id := Some (cf_correlation_id c),
           er_status := Some (confirmation_status_value status),
           ev_redacted_payload :=
             [(lit ''confirmation_id'', JStr (cf_id c)),
              (lit ''state_binding_hash'', JStr (cf_state_binding_hash c))]\<rparr>)"

text \<open>\<open>_release\<close> reads the run by its identifier alone and moves it when it is waiting.\<close>

definition release_run :: "pystr \<Rightarrow> pystr \<Rightarrow> database \<Rightarrow> service_error + database" where
  "release_run ws rid db =
     (case find (\<lambda>r. rn_id r = rid) (db_runs db) of
        None \<Rightarrow> Inr db
      | Some r \<Rightarrow>
          if rn_status r \<noteq> Run_AwaitingConfirmation then Inr db
          else bind_result (transition_check Run_AwaitingConfirmation Run_Running)
            (\<lambda>_. Inr (set_run_status ws rid Run_Running db)))"

definition refuse_request ::
  "nat \<Rightarrow> pystr \<Rightarrow> pystr \<Rightarrow> pystr \<Rightarrow> confirmation_row \<Rightarrow> confirmation_status \<Rightarrow> outcome_event_type \<Rightarrow> database \<Rightarrow>
   service_error + database" where
  "refuse_request now gid ws rid c status event db =
     (let (won, db1) = mark_confirmation now ws (cf_id c) status db in
      if \<not> won then Inl (ApiRefused Api_PreconditionFailed)
      else
        bind_result (record_decision now rid c event status db1) (\<lambda>db2.
        bind_result (release_run ws rid db2) (\<lambda>db3.
        bind_result (append_event now rid
            ((draft_event Ev_ToolInvocationCancelled Ac_Agent)
               \<lparr>ev_tool_name := Some (cf_tool_name c), ev_correlation_id := Some (cf_correlation_id c),
                er_status := Some (confirmation_status_value status),
                ev_redacted_payload :=
                  [(lit ''confirmation_id'', JStr (cf_id c)),
                   (lit ''reason'', JStr (confirmation_status_value status)),
                   (lit ''mutated'', JBool False)]\<rparr>) db3) (\<lambda>db4.
          guidance_transition now gid ws (current_guidance db4 ws) (Some rid) db4))))"

definition approve_request ::
  "nat \<Rightarrow> pystr \<Rightarrow> pystr \<Rightarrow> pystr \<Rightarrow> confirmation_row \<Rightarrow> database \<Rightarrow> service_error + database" where
  "approve_request now gid ws rid c db =
     (let (won, db1) = mark_confirmation now ws (cf_id c) Cf_Approved db in
      if \<not> won then Inl (ApiRefused Api_PreconditionFailed)
      else
        bind_result (record_decision now rid c Ev_ConfirmationApproved Cf_Approved db1) (\<lambda>db2.
        bind_result (release_run ws rid db2) (\<lambda>db3.
          guidance_transition now gid ws (current_guidance db3 ws) (Some rid) db3)))"

text \<open>The transaction a decision runs, the clock having been read after the request was.\<close>

definition decide_request ::
  "nat \<Rightarrow> nat \<Rightarrow> pystr \<Rightarrow> pystr \<Rightarrow> pystr \<Rightarrow> confirmation_row \<Rightarrow> decision \<Rightarrow> database \<Rightarrow>
   service_error + database" where
  "decide_request clock now gid ws rid c d db =
     (case effective_refusal clock c d of
        Some (status, event) \<Rightarrow> refuse_request now gid ws rid c status event db
      | None \<Rightarrow> approve_request now gid ws rid c db)"

text \<open>\<open>expire_lapsed\<close>: what it would refuse, when something has lapsed\<close>

definition lapsed_request :: "nat \<Rightarrow> database \<Rightarrow> pystr \<Rightarrow> pystr \<Rightarrow> confirmation_row option" where
  "lapsed_request clock db ws rid =
     (case pending_for_run db ws rid of
        None \<Rightarrow> None | Some c \<Rightarrow> if lapsed clock c then Some c else None)"

end
