(* ===== verification/Invocation.thy ===== *)
theory Invocation
  imports Confirmations
begin

section \<open>One tool invocation\<close>

text \<open>
  \<open>application/invocation_service.py\<close>: the reads an invocation begins with and its
  transactions (start or pause, claim, stale cancellation, termination). Between two of them the
  invocation is out at the target or observing it, holding no lock; the service theory
  interleaves them. \<open>published\<close> is the tool list each adapter publishes and \<open>surface_of\<close> the
  reading of a stored surface payload, both parameters. An observation is redacted before use.
\<close>

subsection \<open>What the first read fixes\<close>

definition invocable_run_states :: "run_state list" where
  "invocable_run_states = [Run_Armed, Run_Running]"

definition invocable_run :: "database \<Rightarrow> pystr \<Rightarrow> pystr \<Rightarrow> service_error + run_row" where
  "invocable_run db ws rid =
     bind_result (scoped_run db ws rid) (\<lambda>run.
       if rn_status run \<in> set invocable_run_states then Inr run
       else if rn_status run = Run_Verifying then Inl (ApiRefused Api_RunAlreadyVerifying)
       else Inl (ApiRefused Api_RunTimelineSealed))"

definition run_contract :: "database \<Rightarrow> run_row \<Rightarrow> outcome_contract option" where
  "run_contract db run =
     (if truthy (rn_contract_id run) then stored_contract db (the (rn_contract_id run)) else None)"

definition verification_fixed_events :: int where
  "verification_fixed_events = 3"

definition verification_reservation :: "jobject option \<Rightarrow> int" where
  "verification_reservation document =
     (case document of
        None \<Rightarrow> verification_fixed_events
      | Some doc \<Rightarrow> verification_fixed_events + int (length (doc_items doc (lit ''assertions'')) +
          length (doc_items doc (lit ''policies''))))"

record call =
  cl_workspace :: pystr
  cl_run :: pystr
  cl_spec :: target_tool_spec
  cl_supplied :: jobject
  cl_arguments :: jobject
  cl_identity :: "pystr option"
  cl_requirement :: "confirmation_need option"
  cl_reservation :: int
  cl_policy :: redaction_policy

definition require_published :: "target_tool_spec list \<Rightarrow> pystr \<Rightarrow> service_error + target_tool_spec" where
  "require_published specs tool =
     (case find (\<lambda>s. ts_name s = tool) specs of
        None \<Rightarrow> Inl (ApiRefused Api_ResourceNotFound) | Some s \<Rightarrow> Inr s)"

definition run_redaction_policy :: "outcome_contract option \<Rightarrow> redaction_policy" where
  "run_redaction_policy c = (case c of None \<Rightarrow> default_policy | Some d \<Rightarrow> contract_redaction_policy d)"

definition read_call ::
  "(pystr \<Rightarrow> target_tool_spec list) \<Rightarrow> database \<Rightarrow> pystr \<Rightarrow> pystr \<Rightarrow> pystr \<Rightarrow> jobject \<Rightarrow> pystr option \<Rightarrow>
   service_error + call" where
  "read_call published db ws rid tool arguments identity =
     bind_result (invocable_run db ws rid) (\<lambda>run.
       let contract = run_contract db run;
           document = map_option contract_document contract;
           requirement = confirmation_requirement document tool;
           reservation = verification_reservation document +
             (if requirement \<noteq> None then confirmation_event_reservation else 0)
       in bind_result (require_published (published (rn_target_adapter_id run)) tool) (\<lambda>spec.
          (case validate_arguments (ts_input_schema spec) arguments of
             Inl _ \<Rightarrow> Inl (ApiRefused Api_ContractValidationFailed)
           | Inr checked \<Rightarrow> Inr
               \<lparr>cl_workspace = ws, cl_run = rid, cl_spec = spec, cl_supplied = arguments,
                cl_arguments = checked, cl_identity = identity, cl_requirement = requirement,
                cl_reservation = reservation, cl_policy = run_redaction_policy contract\<rparr>)))"

definition target_request_id :: "target_tool_spec \<Rightarrow> jobject \<Rightarrow> pystr \<Rightarrow> pystr" where
  "target_request_id spec arguments vid =
     (let generated = lit ''req_'' @ vid in
      if ts_retry spec = Rt_IdempotentByRequestId then
        (case map_of arguments (lit ''request_id'') of
           Some (JStr s) \<Rightarrow> if s \<noteq> [] then s else generated
         | _ \<Rightarrow> generated)
      else generated)"

subsection \<open>Resuming an approved call\<close>

definition require_approved_arguments :: "confirmation_row \<Rightarrow> jobject \<Rightarrow> service_error + unit" where
  "require_approved_arguments approved arguments =
     (if \<not> truthy (cf_arguments_hash approved) then Inl (ApiRefused Api_PreconditionFailed)
      else bind_result (state_hash arguments) (\<lambda>h.
        if Some h \<noteq> cf_arguments_hash approved then Inl (ApiRefused Api_PreconditionFailed) else Inr ()))"

definition resumed_start :: "database \<Rightarrow> pystr \<Rightarrow> pystr \<Rightarrow> service_error + (nat \<times> pystr)" where
  "resumed_start db rid correlation =
     (case sort_key ev_sequence_number
        (filter (\<lambda>e. ev_correlation_id e = Some correlation \<and> ev_event_type e = Ev_ToolInvocationStarted)
          (events_of db rid)) of
        [] \<Rightarrow> Inl (ApiRefused Api_HarnessError)
      | e # _ \<Rightarrow> if truthy (ev_request_id e) then Inr (ev_sequence_number e, the (ev_request_id e))
                else Inl (ApiRefused Api_HarnessError))"

definition claim_approval :: "nat \<Rightarrow> pystr \<Rightarrow> confirmation_row \<Rightarrow> database \<Rightarrow> service_error + database" where
  "claim_approval now ws approved db =
     (let (won, db') = claim_approved now ws (cf_id approved) db in
      if won then Inr db' else Inl (ApiRefused Api_PreconditionFailed))"

definition stale_approval ::
  "nat \<Rightarrow> pystr \<Rightarrow> pystr \<Rightarrow> confirmation_row \<Rightarrow> observation \<Rightarrow> database \<Rightarrow> service_error + database" where
  "stale_approval now ws rid approved before db =
     (let (won, db1) = update_confirmation ws (cf_id approved) Cf_Approved
            (\<lambda>c. c\<lparr>cf_status := Cf_Cancelled, cf_decided_at := Some (isoformat_z now)\<rparr>) db in
      if \<not> won then Inl (ApiRefused Api_PreconditionFailed)
      else bind_result (observation_hash before) (\<lambda>h.
        append_event now rid
          ((draft_event Ev_ConfirmationCancelled Ac_Harness)
             \<lparr>ev_tool_name := Some (cf_tool_name approved),
              ev_correlation_id := Some (cf_correlation_id approved),
              er_status := Some (confirmation_status_value Cf_Cancelled),
              ev_state_hash_before := Some h,
              ev_redacted_payload :=
                [(lit ''confirmation_id'', JStr (cf_id approved)),
                 (lit ''reason'', JStr (lit ''state_changed_after_approval'')),
                 (lit ''mutated'', JBool False)]\<rparr>) db1))"

subsection \<open>Starting\<close>

definition open_run ::
  "nat \<Rightarrow> pystr \<Rightarrow> pystr \<Rightarrow> run_row \<Rightarrow> database \<Rightarrow> service_error + database" where
  "open_run now gid ws run db =
     (if rn_status run = Run_Armed then
        bind_result (transition_check Run_Armed Run_Running) (\<lambda>_.
          let db' = set_run_status ws (rn_id run) Run_Running db in
          guidance_transition now gid ws (current_guidance db' ws) (Some (rn_id run)) db')
      else Inr db)"

definition surface_baseline :: "(jobject \<Rightarrow> tool_surface option) \<Rightarrow> database \<Rightarrow> pystr \<Rightarrow> tool_surface option" where
  "surface_baseline surface_of db rid =
     (case sort_key ev_sequence_number
        (filter (\<lambda>e. ev_event_type e = Ev_ToolSurfaceCaptured) (events_of db rid)) of
        [] \<Rightarrow> None | e # _ \<Rightarrow> surface_of (ev_redacted_payload e))"

definition lift_surface :: "surface_error + 'a \<Rightarrow> service_error + 'a" where
  "lift_surface r = (case r of Inl e \<Rightarrow> Inl (SurfaceRaised e) | Inr x \<Rightarrow> Inr x)"

definition identity_mismatch ::
  "(jobject \<Rightarrow> tool_surface option) \<Rightarrow> database \<Rightarrow> pystr \<Rightarrow> pystr \<Rightarrow> pystr option \<Rightarrow>
   service_error + jobject option" where
  "identity_mismatch surface_of db rid tool presented =
     (case presented of
        None \<Rightarrow> Inr None
      | Some h \<Rightarrow>
          (case surface_baseline surface_of db rid of
             None \<Rightarrow> Inr None
           | Some baseline \<Rightarrow>
               (case tool_by_name baseline Ns_Target tool of
                  None \<Rightarrow> Inr None
                | Some entry \<Rightarrow>
                    bind_result (lift_surface (tool_identity_of entry)) (\<lambda>expected.
                      if ti_identity_hash expected = h then Inr None
                      else bind_result (lift_surface (tool_document entry)) (\<lambda>document.
                        Inr (Some
                          [(lit ''reason'', JStr (lit ''the tool definition changed since the run was armed'')),
                           (lit ''tool_name'', JStr tool),
                           (lit ''expected_identity_hash'', JStr (ti_identity_hash expected)),
                           (lit ''presented_identity_hash'', JStr h),
                           (lit ''armed_definition'', document)]))))))"

definition start_payload :: "call \<Rightarrow> pystr \<Rightarrow> jobject" where
  "start_payload cl vid =
     [(lit ''invocation_id'', JStr vid),
      (lit ''side_effect'', JStr (side_effect_class_value (ts_side_effect (cl_spec cl)))),
      (lit ''retry'', JStr (retry_semantics_value (ts_retry (cl_spec cl)))),
      (lit ''arguments'', bounded max_finding_value_chars (redact (Some (cl_policy cl)) (JObj (cl_arguments cl))))]"

definition start_event :: "call \<Rightarrow> pystr \<Rightarrow> pystr \<Rightarrow> observation \<Rightarrow> pystr \<Rightarrow> event_row" where
  "start_event cl vid request before h =
     (draft_event Ev_ToolInvocationStarted Ac_Agent)
       \<lparr>ev_tool_name := Some (ts_name (cl_spec cl)), er_tool_identity_hash := cl_identity cl,
        ev_correlation_id := Some vid, ev_request_id := Some request,
        ev_state_version_before := ob_state_version before, ev_state_hash_before := Some h,
        ev_redacted_payload := start_payload cl vid\<rparr>"

definition mismatch_event :: "call \<Rightarrow> pystr \<Rightarrow> pystr \<Rightarrow> jobject \<Rightarrow> event_row" where
  "mismatch_event cl vid request payload =
     (draft_event Ev_ToolIdentityMismatch Ac_Harness)
       \<lparr>ev_tool_name := Some (ts_name (cl_spec cl)), er_tool_identity_hash := cl_identity cl,
        ev_correlation_id := Some vid, ev_request_id := Some request, ev_redacted_payload := payload\<rparr>"

definition requested_event ::
  "call \<Rightarrow> pystr \<Rightarrow> pystr \<Rightarrow> pystr \<Rightarrow> observation \<Rightarrow> pystr \<Rightarrow> confirmation_need \<Rightarrow> nat \<Rightarrow> jobject \<Rightarrow> event_row" where
  "requested_event cl vid request cid before h need expires consequence =
     (draft_event Ev_ConfirmationRequested Ac_Agent)
       \<lparr>ev_tool_name := Some (ts_name (cl_spec cl)), ev_correlation_id := Some vid,
        ev_request_id := Some request, er_status := Some (confirmation_status_value Cf_Pending),
        ev_state_version_before := ob_state_version before, ev_state_hash_before := Some h,
        ev_redacted_payload :=
          [(lit ''confirmation_id'', JStr cid), (lit ''expires_at'', JStr (isoformat_utc expires)),
           (lit ''timeout_seconds'', JInt (cn_timeout_seconds need)), (lit ''consequence'', JObj consequence)]\<rparr>"

datatype start_outcome = StartRefused api_error_code | StartedAt nat | PausedAt nat pystr

text \<open>Opening the request for a protected call, in the transaction of its start event\<close>

definition pause_invocation ::
  "nat \<Rightarrow> nat \<Rightarrow> pystr \<Rightarrow> pystr \<Rightarrow> call \<Rightarrow> pystr \<Rightarrow> pystr \<Rightarrow> observation \<Rightarrow> pystr \<Rightarrow> confirmation_need \<Rightarrow>
   database \<Rightarrow> service_error + database" where
  "pause_invocation clock now gid cid cl vid request before h need db =
     (let ws = cl_workspace cl; rid = cl_run cl; expires = expiry_from clock need;
          consequence = consequence_summary (ts_name (cl_spec cl))
            (redact (Some (cl_policy cl)) (JObj (cl_arguments cl))) before
            (ts_effect_paths (cl_spec cl)) (Some (cl_policy cl))
      in bind_result (state_hash (cl_arguments cl)) (\<lambda>ah.
         let db1 = open_confirmation now cid ws rid vid (ts_name (cl_spec cl)) h ah consequence expires db in
         bind_result (transition_check Run_Running Run_AwaitingConfirmation) (\<lambda>_.
         let db2 = set_run_status ws rid Run_AwaitingConfirmation db1 in
         bind_result (append_event now rid
             (requested_event cl vid request cid before h need expires consequence) db2) (\<lambda>db3.
           guidance_transition now gid ws (current_guidance db3 ws) (Some rid) db3))))"

definition start_invocation ::
  "(jobject \<Rightarrow> tool_surface option) \<Rightarrow> nat \<Rightarrow> nat \<Rightarrow> pystr \<Rightarrow> pystr \<Rightarrow> pystr \<Rightarrow> call \<Rightarrow> pystr \<Rightarrow> pystr \<Rightarrow>
   observation \<Rightarrow> database \<Rightarrow> service_error + (start_outcome \<times> database)" where
  "start_invocation surface_of clock now gid gid' cid cl vid request before db =
     (let ws = cl_workspace cl; rid = cl_run cl; tool = ts_name (cl_spec cl) in
      bind_result (invocable_run db ws rid) (\<lambda>run.
      bind_result (trip_if_event_budget_exhausted now ws rid (cl_reservation cl) db) (\<lambda>(refusal, db1).
      (case refusal of
         Some code \<Rightarrow> Inr (StartRefused code, db1)
       | None \<Rightarrow>
           bind_result (open_run now gid ws run db1) (\<lambda>db2.
           bind_result (identity_mismatch surface_of db2 rid tool (cl_identity cl)) (\<lambda>mismatch.
           (case mismatch of
              Some payload \<Rightarrow>
                bind_result (append_event now rid (mismatch_event cl vid request payload) db2)
                  (\<lambda>db3. Inr (StartRefused Api_ToolIdentityMismatch, db3))
            | None \<Rightarrow>
                bind_result (observation_hash before) (\<lambda>h.
                bind_result (append_event now rid (start_event cl vid request before h) db2) (\<lambda>db3.
                (case cl_requirement cl of
                   None \<Rightarrow> Inr (StartedAt (next_sequence db2 rid), db3)
                 | Some need \<Rightarrow>
                     bind_result (pause_invocation clock now gid' cid cl vid request before h need db3)
                       (\<lambda>db4. Inr (PausedAt (next_sequence db2 rid) cid, db4))))))))))))"

subsection \<open>Terminating\<close>

definition reported_block :: "tool_execution_result option \<Rightarrow> pystr option \<Rightarrow> redaction_policy \<Rightarrow> json" where
  "reported_block result failure policy =
     (case result of
        None \<Rightarrow> JObj [(lit ''status'', JNull), (lit ''summary'', JStr []),
                      (lit ''error_code'', opt_str failure), (lit ''state_version_after'', JNull)]
      | Some r \<Rightarrow> JObj
          [(lit ''status'', opt_str (map_option tool_reported_status_value (tx_reported_status r))),
           (lit ''summary'', bounded max_tool_result_chars (redact (Some policy) (JStr (tx_reported_summary r)))),
           (lit ''error_code'', opt_str (tx_error_code r)),
           (lit ''state_version_after'', opt_str (tx_state_version_after r))])"

definition terminal_payload ::
  "call \<Rightarrow> pystr \<Rightarrow> nat \<Rightarrow> observation \<Rightarrow> observation option \<Rightarrow> tool_execution_result option \<Rightarrow> pystr option \<Rightarrow>
   bool \<Rightarrow> jobject" where
  "terminal_payload cl vid started before after result failure changed =
     [(lit ''invocation_id'', JStr vid),
      (lit ''side_effect'', JStr (side_effect_class_value (ts_side_effect (cl_spec cl)))),
      (lit ''started_at_sequence'', JInt (int started)),
      (lit ''reported'', reported_block result failure (cl_policy cl)),
      (lit ''post_call_effect_state'',
        case effect_context (ts_effect_paths (cl_spec cl)) (map_option as_context after) (Some (cl_policy cl)) of
          None \<Rightarrow> JNull | Some m \<Rightarrow> JObj m),
      (lit ''effects'', JObj (effect_evidence (ts_effect_paths (cl_spec cl)) (Some (as_context before))
        (map_option as_context after) (Some (cl_policy cl)) max_finding_value_chars)),
      (lit ''observed'', JObj [(lit ''available'', JBool (after \<noteq> None)), (lit ''state_changed'', JBool changed)])]"

definition terminal_type :: "tool_execution_result option \<Rightarrow> outcome_event_type" where
  "terminal_type result = (case result of None \<Rightarrow> Ev_ToolInvocationFailed | Some r \<Rightarrow> tx_terminal_event r)"

definition terminal_event ::
  "call \<Rightarrow> pystr \<Rightarrow> pystr \<Rightarrow> pystr \<Rightarrow> nat \<Rightarrow> observation \<Rightarrow> pystr \<Rightarrow> observation option \<Rightarrow> pystr option \<Rightarrow>
   tool_execution_result option \<Rightarrow> pystr option \<Rightarrow> nat \<Rightarrow> event_row" where
  "terminal_event cl vid correlation request started before hb after ha result failure duration =
     (draft_event (terminal_type result) Ac_Agent)
       \<lparr>ev_tool_name := Some (ts_name (cl_spec cl)), ev_correlation_id := Some correlation,
        ev_request_id := Some request,
        er_status := Some (outcome_event_type_value (terminal_type result)),
        ev_reported_status := (case result of None \<Rightarrow> None | Some r \<Rightarrow> tx_reported_status r),
        ev_duration_ms := Some duration,
        ev_state_version_before := ob_state_version before, ev_state_hash_before := Some hb,
        ev_state_version_after := (case after of None \<Rightarrow> None | Some a \<Rightarrow> ob_state_version a),
        ev_state_hash_after := ha,
        ev_redacted_payload := terminal_payload cl vid started before after result failure
          (ha \<noteq> None \<and> ha \<noteq> Some hb)\<rparr>"

definition optional_hash :: "observation option \<Rightarrow> service_error + pystr option" where
  "optional_hash ob = (case ob of None \<Rightarrow> Inr None | Some o' \<Rightarrow>
     bind_result (observation_hash o') (\<lambda>h. Inr (Some h)))"

definition terminate_invocation ::
  "nat \<Rightarrow> call \<Rightarrow> pystr \<Rightarrow> pystr \<Rightarrow> pystr \<Rightarrow> nat \<Rightarrow> observation \<Rightarrow> observation option \<Rightarrow>
   tool_execution_result option \<Rightarrow> pystr option \<Rightarrow> nat \<Rightarrow> database \<Rightarrow> service_error + database" where
  "terminate_invocation now cl vid correlation request started before after result failure duration db =
     bind_result (observation_hash before) (\<lambda>hb.
     bind_result (optional_hash after) (\<lambda>ha.
       append_event now (cl_run cl)
         (terminal_event cl vid correlation request started before hb after ha result failure duration) db))"

end
