(* ===== verification/Runs.thy ===== *)
theory Runs
  imports Invocation
begin

section \<open>Arming, verifying, resetting\<close>

text \<open>
  The transactions that open and close a run: \<open>application/run_service.py\<close> (arming),
  \<open>application/verification_gate.py\<close> and the sealing half of \<open>application/verification_service.py\<close>,
  \<open>application/workspace_service.py\<close> (selection and reset), \<open>application/surface_service.py\<close> and the
  selection of \<open>application/contract_service.py\<close>. The comparison key stored beside a verdict and
  the reset of a Shopify pairing are not modelled. \<open>serving\<close> gives the adapter that serves a
  target, if one is available.
\<close>

subsection \<open>Terminality\<close>

definition unfinished :: "run_row \<Rightarrow> bool" where
  "unfinished r \<longleftrightarrow> \<not> is_terminal run_transitions (rn_status r)"

definition active_runs :: "database \<Rightarrow> pystr \<Rightarrow> run_row list" where
  "active_runs db ws = filter (\<lambda>r. rn_workspace_id r = ws \<and> unfinished r) (db_runs db)"

definition require_no_active_run :: "database \<Rightarrow> pystr \<Rightarrow> service_error + unit" where
  "require_no_active_run db ws =
     (if active_runs db ws = [] then Inr () else Inl (ApiRefused Api_RunInProgress))"

subsection \<open>Selection\<close>

definition update_workspace :: "pystr \<Rightarrow> (workspace_row \<Rightarrow> workspace_row) \<Rightarrow> database \<Rightarrow> database" where
  "update_workspace ws change db =
     db\<lparr>db_workspaces := map (\<lambda>w. if wk_id w = ws then change w else w) (db_workspaces db)\<rparr>"

definition select_failure_profile :: "pystr \<Rightarrow> pystr option \<Rightarrow> database \<Rightarrow> service_error + database" where
  "select_failure_profile ws profile db =
     bind_result (require_no_active_run db ws)
       (\<lambda>_. Inr (update_workspace ws (\<lambda>w. w\<lparr>wk_failure_profile := profile\<rparr>) db))"

definition select_scenario_mode ::
  "pystr \<Rightarrow> pystr \<Rightarrow> pystr list \<Rightarrow> database \<Rightarrow> service_error + database" where
  "select_scenario_mode ws mode supported db =
     bind_result (require_no_active_run db ws) (\<lambda>_.
       if mode \<notin> set supported then Inl (ApiRefused Api_ContractValidationFailed)
       else Inr (update_workspace ws (\<lambda>w. w\<lparr>wk_scenario_mode := Some mode\<rparr>) db))"

text \<open>
  \<open>ContractService.select\<close>: \<open>compatible\<close> is the check of the contract against the adapter's
  published tools (the contract theory's \<open>validate_against_target\<close> on what the adapter publishes).
\<close>

definition select_contract ::
  "nat \<Rightarrow> pystr \<Rightarrow> (pystr \<Rightarrow> pystr option) \<Rightarrow> (outcome_contract \<Rightarrow> pystr \<Rightarrow> bool) \<Rightarrow> pystr \<Rightarrow> pystr \<Rightarrow> database \<Rightarrow>
   service_error + database" where
  "select_contract now gid serving compatible ws cid db =
     bind_result (require_no_active_run db ws) (\<lambda>_.
     bind_result (scoped_contract db ws cid) (\<lambda>row.
     bind_result (state_hash (contract_document (ct_contract row))) (\<lambda>h.
     if h \<noteq> ct_content_hash row then Inl (ApiRefused Api_HarnessError)
     else (let target = oc_target_id (ct_contract row) in
       (case serving target of
          None \<Rightarrow> Inl (ApiRefused Api_TargetUnavailable)
        | Some adapter \<Rightarrow>
            if \<not> compatible (ct_contract row) adapter then Inl (ApiRefused Api_ContractValidationFailed)
            else (let db' = update_workspace ws
                    (\<lambda>w. w\<lparr>wk_selected_contract_id := Some cid, wk_selected_target_id := Some target\<rparr>) db
                  in guidance_transition now gid ws (current_guidance db' ws) None db'))))))"

subsection \<open>Arming\<close>

record configuration =
  cg_contract_id :: pystr
  cg_contract_content_hash :: pystr
  cg_target_id :: pystr
  cg_adapter_id :: pystr
  cg_scenario_mode :: "pystr option"
  cg_failure_profile :: "pystr option"
  cg_contract :: outcome_contract

definition controlled_inputs ::
  "configuration \<Rightarrow> pystr \<times> pystr \<times> pystr \<times> pystr option \<times> pystr option" where
  "controlled_inputs c =
     (cg_contract_id c, cg_contract_content_hash c, cg_target_id c, cg_scenario_mode c, cg_failure_profile c)"

definition read_configuration ::
  "(pystr \<Rightarrow> pystr option) \<Rightarrow> pystr \<Rightarrow> database \<Rightarrow> service_error + configuration" where
  "read_configuration serving ws db =
     (case workspace_of db ws of
        None \<Rightarrow> Inl (ApiRefused Api_HarnessError)
      | Some w \<Rightarrow>
          if \<not> truthy (wk_selected_contract_id w) then Inl (ApiRefused Api_ContractValidationFailed)
          else bind_result (scoped_contract db ws (the (wk_selected_contract_id w))) (\<lambda>row.
            let target = (if truthy (wk_selected_target_id w) then the (wk_selected_target_id w)
                          else oc_target_id (ct_contract row))
            in (case serving target of
                  None \<Rightarrow> Inl (ApiRefused Api_TargetUnavailable)
                | Some adapter \<Rightarrow> Inr
                    \<lparr>cg_contract_id = the (wk_selected_contract_id w),
                     cg_contract_content_hash = ct_content_hash row, cg_target_id = target,
                     cg_adapter_id = adapter, cg_scenario_mode = wk_scenario_mode w,
                     cg_failure_profile = wk_failure_profile w, cg_contract = ct_contract row\<rparr>)))"

definition require_eligible_source :: "database \<Rightarrow> pystr \<Rightarrow> pystr option \<Rightarrow> service_error + unit" where
  "require_eligible_source db ws source =
     (case source of
        None \<Rightarrow> Inr ()
      | Some s \<Rightarrow> bind_result (scoped_run db ws s) (\<lambda>r.
          if unfinished r then Inl (ApiRefused Api_RunInProgress) else Inr ()))"

definition validate_preconditions :: "configuration \<Rightarrow> observation \<Rightarrow> service_error + unit" where
  "validate_preconditions c ob =
     (case evaluate_preconditions (oc_preconditions (cg_contract c)) (Some (as_context ob)) of
        Inl e \<Rightarrow> Inl (EvaluationRaised (ArithmeticRaised e))
      | Inr fs \<Rightarrow> if \<exists>f\<in>set fs. fi_status f \<noteq> Cs_Passed then Inl (ApiRefused Api_PreconditionFailed)
                 else Inr ())"

definition add_snapshot ::
  "pystr \<Rightarrow> snapshot_phase \<Rightarrow> observation \<Rightarrow> database \<Rightarrow> service_error + database" where
  "add_snapshot rid phase ob db =
     (if \<exists>s\<in>set (db_snapshots db). sn_run_id s = rid \<and> sn_phase s = phase then Inl IntegrityFailed
      else bind_result (observation_hash ob) (\<lambda>h.
        Inr (db\<lparr>db_snapshots := db_snapshots db @
          [\<lparr>sn_run_id = rid, sn_phase = phase, sn_observation = ob, sn_content_hash = h\<rparr>]\<rparr>)))"

definition snapshot_event :: "snapshot_phase \<Rightarrow> observation \<Rightarrow> pystr \<Rightarrow> event_row" where
  "snapshot_event phase ob h =
     (draft_event Ev_SnapshotCaptured Ac_Harness)
       \<lparr>ev_state_version_after := ob_state_version ob, ev_state_hash_after := Some h,
        ev_redacted_payload := [(lit ''phase'', JStr (snapshot_phase_value phase)),
                                (lit ''provider'', JStr (ob_provider_id ob))]\<rparr>"

definition armed_event :: "configuration \<Rightarrow> event_row" where
  "armed_event c =
     (draft_event Ev_RunArmed Ac_Human)
       \<lparr>ev_redacted_payload :=
          [(lit ''contract_id'', JStr (cg_contract_id c)),
           (lit ''contract_content_hash'', JStr (cg_contract_content_hash c)),
           (lit ''target_id'', JStr (cg_target_id c)),
           (lit ''scenario_mode'', opt_str (cg_scenario_mode c)),
           (lit ''failure_profile'', opt_str (cg_failure_profile c))]\<rparr>"

definition new_run :: "nat \<Rightarrow> pystr \<Rightarrow> pystr \<Rightarrow> configuration \<Rightarrow> bool \<Rightarrow> pystr option \<Rightarrow> run_row" where
  "new_run now rid ws c fault source =
     \<lparr>rn_id = rid, rn_workspace_id = ws, rn_contract_id = Some (cg_contract_id c),
      rn_contract_content_hash = cg_contract_content_hash c, rn_target_id = cg_target_id c,
      rn_target_adapter_id = cg_adapter_id c, rn_scenario_mode = cg_scenario_mode c,
      rn_failure_profile = cg_failure_profile c, rn_fault_active = fault, rn_status = Run_Armed,
      rn_overall_result = None, rn_started_at = isoformat_z now, rn_completed_at = None,
      rn_comparison_source_run_id = source\<rparr>"

definition write_run ::
  "nat \<Rightarrow> pystr \<Rightarrow> pystr \<Rightarrow> pystr \<Rightarrow> configuration \<Rightarrow> observation \<Rightarrow> bool \<Rightarrow> pystr option \<Rightarrow> database \<Rightarrow>
   service_error + database" where
  "write_run now gid rid ws c ob fault source db =
     bind_result (state_hash [(lit ''intent'', JStr (oc_intent (cg_contract c)))]) (\<lambda>_.
     if run_exists db rid then Inl IntegrityFailed else
     (let db1 = db\<lparr>db_runs := db_runs db @ [new_run now rid ws c fault source]\<rparr>;
          db2 = update_workspace ws (\<lambda>w. w\<lparr>wk_active_run_id := Some rid\<rparr>) db1 in
      bind_result (append_event now rid (armed_event c) db2) (\<lambda>db3.
      bind_result (add_snapshot rid Sp_Before ob db3) (\<lambda>db4.
      bind_result (observation_hash ob) (\<lambda>h.
      bind_result (append_event now rid (snapshot_event Sp_Before ob h) db4) (\<lambda>db5.
        guidance_transition now gid ws (current_guidance db5 ws) (Some rid) db5))))))"

definition arm_run ::
  "nat \<Rightarrow> pystr \<Rightarrow> (pystr \<Rightarrow> pystr option) \<Rightarrow> pystr \<Rightarrow> pystr \<Rightarrow> configuration \<Rightarrow> observation \<Rightarrow> bool \<Rightarrow>
   pystr option \<Rightarrow> database \<Rightarrow> service_error + database" where
  "arm_run now gid serving rid ws selected ob fault source db =
     bind_result (read_configuration serving ws db) (\<lambda>confirmed.
     if controlled_inputs confirmed \<noteq> controlled_inputs selected then Inl (ApiRefused Api_RunInProgress)
     else
       bind_result (require_no_active_run db ws) (\<lambda>_.
       bind_result (require_eligible_source db ws source) (\<lambda>_.
       bind_result (guard_new_run db ws) (\<lambda>_.
       bind_result (validate_preconditions confirmed ob) (\<lambda>_.
         write_run now gid rid ws confirmed ob fault source db)))))"

subsection \<open>The gate\<close>

text \<open>In SQL a null correlation equals nothing, so a start without one is always in flight.\<close>

definition in_flight :: "database \<Rightarrow> pystr \<Rightarrow> bool" where
  "in_flight db rid \<longleftrightarrow>
     (\<exists>s\<in>set (events_of db rid). ev_event_type s = Ev_ToolInvocationStarted \<and>
        \<not> (\<exists>d\<in>set (events_of db rid). ev_correlation_id d \<noteq> None \<and>
             ev_correlation_id d = ev_correlation_id s \<and>
             ev_event_type d \<in> set terminal_invocation_events))"

definition require_nothing_in_flight :: "database \<Rightarrow> pystr \<Rightarrow> service_error + unit" where
  "require_nothing_in_flight db rid =
     (if in_flight db rid then Inl (ApiRefused Api_RunInProgress)
      else if \<exists>c\<in>set (db_confirmations db). cf_run_id c = rid \<and> cf_status c = Cf_Pending
      then Inl (ApiRefused Api_RunInProgress)
      else Inr ())"

definition completed_actions :: "outcome_event_type list" where
  "completed_actions = terminal_invocation_events @ [Ev_ExternalObservationReceived]"

definition require_a_completed_action :: "database \<Rightarrow> pystr \<Rightarrow> service_error + unit" where
  "require_a_completed_action db rid =
     (if \<exists>e\<in>set (events_of db rid). ev_event_type e \<in> set completed_actions then Inr ()
      else Inl (ApiRefused Api_PreconditionFailed))"

definition gate_begin :: "pystr \<Rightarrow> pystr \<Rightarrow> database \<Rightarrow> service_error + (run_row \<times> database)" where
  "gate_begin ws rid db =
     bind_result (scoped_run db ws rid) (\<lambda>run.
     if rn_status run = Run_Verifying then Inl (ApiRefused Api_RunAlreadyVerifying)
     else
       bind_result (if rn_status run \<noteq> Run_Running then transition_check (rn_status run) Run_Verifying
                    else Inr ()) (\<lambda>_.
       bind_result (require_nothing_in_flight db rid) (\<lambda>_.
       bind_result (require_a_completed_action db rid) (\<lambda>_.
         if rn_status run = Run_Running then Inr (run, set_run_status ws rid Run_Verifying db)
         else Inl (ApiRefused Api_RunAlreadyVerifying)))))"

subsection \<open>Verification's two transactions\<close>

definition snapshot_context :: "database \<Rightarrow> pystr \<Rightarrow> snapshot_phase \<Rightarrow> service_error + ctx" where
  "snapshot_context db rid phase =
     (case find (\<lambda>s. sn_run_id s = rid \<and> sn_phase s = phase) (db_snapshots db) of
        None \<Rightarrow> Inr None
      | Some s \<Rightarrow> bind_result (observation_hash (sn_observation s)) (\<lambda>h.
          if h \<noteq> sn_content_hash s then Inl IntegrityFailed
          else Inr (Some (as_context (sn_observation s)))))"

record judging =
  jd_run :: run_row
  jd_contract :: outcome_contract
  jd_events :: "run_event list"
  jd_initial :: ctx

definition begin_verification ::
  "pystr \<Rightarrow> pystr \<Rightarrow> database \<Rightarrow> service_error + (judging \<times> database)" where
  "begin_verification ws rid db =
     bind_result (gate_begin ws rid db) (\<lambda>(run, db').
     if \<not> truthy (rn_contract_id run) then Inl (ApiRefused Api_ContractValidationFailed)
     else (case stored_contract db' (the (rn_contract_id run)) of
        None \<Rightarrow> Inl (ApiRefused Api_HarnessError)
      | Some c \<Rightarrow> bind_result (snapshot_context db' rid Sp_Before) (\<lambda>initial.
          Inr (\<lparr>jd_run = run, jd_contract = c, jd_events = timeline db' rid, jd_initial = initial\<rparr>, db'))))"

definition require_transition_still_legal ::
  "database \<Rightarrow> pystr \<Rightarrow> pystr \<Rightarrow> run_state \<Rightarrow> service_error + unit" where
  "require_transition_still_legal db ws rid target =
     bind_result (scoped_run db ws rid) (\<lambda>run.
       (case validate_run_transition (rn_status run) target of
          Inl _ \<Rightarrow> Inl (ApiRefused Api_RunInProgress) | Inr _ \<Rightarrow> Inr ()))"

definition finding_event :: "finding \<Rightarrow> event_row" where
  "finding_event f =
     (draft_event (check_event f) Ac_Harness)
       \<lparr>er_status := Some (check_status_value (fi_status f)),
        ev_redacted_payload :=
          [(lit ''check_id'', JStr (fi_check_id f)),
           (lit ''check_type'', JStr (check_type_value (fi_check_type f))),
           (lit ''severity'', JStr (assertion_severity_value (fi_severity f))),
           (lit ''classification'', opt_str (map_option failure_classification_value (fi_classification f)))]\<rparr>"

text \<open>A loop of appends inside one transaction\<close>

fun append_events :: "nat \<Rightarrow> pystr \<Rightarrow> event_row list \<Rightarrow> database \<Rightarrow> service_error + database" where
  "append_events now rid [] db = Inr db"
| "append_events now rid (e # es) db = bind_result (append_event now rid e db) (append_events now rid es)"

definition add_findings :: "pystr \<Rightarrow> finding list \<Rightarrow> database \<Rightarrow> database" where
  "add_findings rid fs db = db\<lparr>db_findings := db_findings db @ map (Pair rid) fs\<rparr>"

definition finish_run ::
  "nat \<Rightarrow> pystr \<Rightarrow> pystr \<Rightarrow> run_state \<Rightarrow> layer_result option \<Rightarrow> database \<Rightarrow> service_error + database" where
  "finish_run now ws rid terminal result db =
     (if \<exists>r\<in>set (db_runs db). rn_id r = rid \<and> rn_workspace_id r = ws \<and> rn_status r = Run_Verifying
      then Inr (db\<lparr>db_runs := map (\<lambda>r.
             if rn_id r = rid \<and> rn_workspace_id r = ws \<and> rn_status r = Run_Verifying
             then r\<lparr>rn_status := terminal, rn_completed_at := Some (isoformat_z now),
                    rn_overall_result := (case result of None \<Rightarrow> rn_overall_result r | Some x \<Rightarrow> Some x)\<rparr>
             else r) (db_runs db)\<rparr>)
      else Inl (ApiRefused Api_RunInProgress))"

definition completed_event :: "layer_result \<Rightarrow> finding list \<Rightarrow> event_row" where
  "completed_event result findings =
     (draft_event Ev_VerificationCompleted Ac_Harness)
       \<lparr>er_status := Some (layer_result_value result),
        ev_redacted_payload :=
          [(lit ''overall_result'', JStr (layer_result_value result)),
           (lit ''primary_failure'', opt_str (primary_check_id findings))]\<rparr>"

definition seal_run ::
  "nat \<Rightarrow> pystr \<Rightarrow> pystr \<Rightarrow> pystr \<Rightarrow> observation \<Rightarrow> finding list \<Rightarrow> layer_result \<Rightarrow> run_state \<Rightarrow> database \<Rightarrow>
   service_error + database" where
  "seal_run now gid ws rid final findings result terminal db =
     bind_result (require_transition_still_legal db ws rid terminal) (\<lambda>_.
     bind_result (append_event now rid (draft_event Ev_VerificationStarted Ac_Harness) db) (\<lambda>db1.
     bind_result (add_snapshot rid Sp_After final db1) (\<lambda>db2.
     bind_result (observation_hash final) (\<lambda>h.
     bind_result (append_event now rid (snapshot_event Sp_After final h) db2) (\<lambda>db3.
     bind_result (append_events now rid (map finding_event findings) db3) (\<lambda>db4.
     bind_result (finish_run now ws rid terminal (Some result) (add_findings rid findings db4)) (\<lambda>db5.
     bind_result (append_event now rid (completed_event result findings) db5) (\<lambda>db6.
       guidance_transition now gid ws
         (derive_guidance (phase_for True (Some terminal) False False) (Some rid)) (Some rid) db6))))))))"

text \<open>
  The whole second transaction: the verdict is computed from what the first one read and from the
  final observation, then sealed with the report's artifact row. An artifact ceiling refuses here
  and takes the seal with it.
\<close>

definition seal_verdict ::
  "nat \<Rightarrow> pystr \<Rightarrow> pystr \<Rightarrow> pystr \<Rightarrow> observation \<Rightarrow> evaluation \<Rightarrow> artifact_row \<Rightarrow> database \<Rightarrow>
   service_error + database" where
  "seal_verdict now gid ws rid final e artifact db =
     (let findings = evaluation_all e; result = run_result findings in
      (case terminal_state result of
         None \<Rightarrow> Inl IntegrityFailed
       | Some terminal \<Rightarrow>
           bind_result (seal_run now gid ws rid final findings result terminal db) (record_artifact artifact)))"

definition abandon_run :: "nat \<Rightarrow> pystr \<Rightarrow> pystr \<Rightarrow> pystr \<Rightarrow> database \<Rightarrow> service_error + database" where
  "abandon_run now gid ws rid db =
     bind_result (require_transition_still_legal db ws rid Run_Error) (\<lambda>_.
     bind_result (append_event now rid (draft_event Ev_VerificationStarted Ac_Harness) db) (\<lambda>db1.
     bind_result (append_event now rid (finding_event unobservable_finding) db1) (\<lambda>db2.
     bind_result (finish_run now ws rid Run_Error None (add_findings rid [unobservable_finding] db2)) (\<lambda>db3.
     bind_result (append_event now rid
         ((draft_event Ev_VerificationCompleted Ac_Harness)
            \<lparr>er_status := Some (run_state_value Run_Error),
             ev_redacted_payload :=
               [(lit ''classification'', JStr (failure_classification_value Fc_ObservationUnavailable)),
                reason_unobservable]\<rparr>) db3) (\<lambda>db4.
       guidance_transition now gid ws
         (derive_guidance (phase_for True (Some Run_Error) False False) (Some rid)) (Some rid) db4)))))"

subsection \<open>Reset\<close>

definition reset_payload :: jobject where
  "reset_payload = [(lit ''reason'', JStr (lit ''workspace_reset''))]"

fun cancel_confirmations ::
  "nat \<Rightarrow> pystr \<Rightarrow> confirmation_row list \<Rightarrow> database \<Rightarrow> service_error + database" where
  "cancel_confirmations now ws [] db = Inr db"
| "cancel_confirmations now ws (c # cs) db =
     (let db1 = db\<lparr>db_confirmations := map (\<lambda>d. if cf_id d = cf_id c \<and> cf_workspace_id d = ws
            then d\<lparr>cf_status := Cf_Cancelled, cf_decided_at := Some (isoformat_z now)\<rparr> else d)
            (db_confirmations db)\<rparr>
      in bind_result (append_event now (cf_run_id c)
           ((draft_event Ev_ConfirmationCancelled Ac_Human)
              \<lparr>ev_correlation_id := Some (cf_correlation_id c), ev_redacted_payload := reset_payload\<rparr>) db1)
         (cancel_confirmations now ws cs))"

fun cancel_runs :: "nat \<Rightarrow> pystr \<Rightarrow> run_row list \<Rightarrow> database \<Rightarrow> service_error + database" where
  "cancel_runs now ws [] db = Inr db"
| "cancel_runs now ws (r # rs) db =
     bind_result (append_event now (rn_id r)
         ((draft_event Ev_RunCancelled Ac_Human)\<lparr>ev_redacted_payload := reset_payload\<rparr>) db)
       (\<lambda>db1. cancel_runs now ws rs (complete_run now ws (rn_id r) Run_Cancelled db1))"

text \<open>
  \<open>_purge_completed\<close>: the rows of the workspace's terminal runs, and by cascade everything that
  hangs off them.
\<close>

definition purge_completed :: "pystr \<Rightarrow> database \<Rightarrow> database" where
  "purge_completed ws db =
     (let gone = (\<lambda>rid. \<exists>r\<in>set (db_runs db). rn_id r = rid \<and> rn_workspace_id r = ws \<and> \<not> unfinished r) in
      db\<lparr>db_runs := filter (\<lambda>r. \<not> (rn_workspace_id r = ws \<and> \<not> unfinished r)) (db_runs db),
         db_events := filter (\<lambda>e. \<not> gone (er_run_id e)) (db_events db),
         db_confirmations := filter (\<lambda>c. \<not> gone (cf_run_id c)) (db_confirmations db),
         db_guidance := filter (\<lambda>g. case gd_run_id g of None \<Rightarrow> True | Some r \<Rightarrow> \<not> gone r) (db_guidance db),
         db_snapshots := filter (\<lambda>s. \<not> gone (sn_run_id s)) (db_snapshots db),
         db_findings := filter (\<lambda>f. \<not> gone (fst f)) (db_findings db),
         db_artifacts := filter (\<lambda>a. case ar_run_id a of None \<Rightarrow> True | Some r \<Rightarrow> \<not> gone r) (db_artifacts db)\<rparr>)"

definition reset_workspace :: "nat \<Rightarrow> pystr \<Rightarrow> bool \<Rightarrow> database \<Rightarrow> service_error + database" where
  "reset_workspace now ws purge db =
     bind_result (cancel_confirmations now ws
         (filter (\<lambda>c. cf_workspace_id c = ws \<and> cf_status c = Cf_Pending) (db_confirmations db)) db) (\<lambda>db1.
     bind_result (cancel_runs now ws (active_runs db1 ws) db1) (\<lambda>db2.
     let db3 = (if purge then purge_completed ws db2 else db2)
     in Inr (update_workspace ws (\<lambda>w. w\<lparr>wk_active_run_id := None\<rparr>) db3)))"

subsection \<open>Surface captures\<close>

definition surface_payload :: "tool_surface \<Rightarrow> bool \<Rightarrow> surface_error + jobject" where
  "surface_payload surface baseline =
     bind_result (surface_hash surface) (\<lambda>h.
     bind_result (surface_document surface) (\<lambda>doc.
       Inr [(lit ''surface_hash'', JStr h), (lit ''baseline'', JBool baseline),
            (lit ''tool_count'', JInt (int (length surface))), (lit ''surface'', doc)]))"

definition delta_event :: "surface_delta \<Rightarrow> surface_error + event_row" where
  "delta_event d =
     bind_result (delta_document d) (\<lambda>doc.
       Inr ((draft_event Ev_ToolSurfaceChanged Ac_Harness)
         \<lparr>ev_tool_name := Some (sd_tool_name d), ev_redacted_payload := (case doc of JObj m \<Rightarrow> m | _ \<Rightarrow> [])\<rparr>))"

definition latest_surface :: "(jobject \<Rightarrow> tool_surface option) \<Rightarrow> database \<Rightarrow> pystr \<Rightarrow> tool_surface option" where
  "latest_surface surface_of db rid =
     (case latest_by ev_sequence_number
        (filter (\<lambda>e. ev_event_type e = Ev_ToolSurfaceCaptured) (events_of db rid)) of
        None \<Rightarrow> None | Some e \<Rightarrow> surface_of (ev_redacted_payload e))"

definition capture_surface ::
  "(jobject \<Rightarrow> tool_surface option) \<Rightarrow> nat \<Rightarrow> pystr \<Rightarrow> pystr \<Rightarrow> tool_surface \<Rightarrow> database \<Rightarrow>
   service_error + database" where
  "capture_surface surface_of now ws rid surface db =
     bind_result (scoped_run db ws rid) (\<lambda>_.
       let previous = latest_surface surface_of db rid in
       bind_result (lift_surface (surface_payload surface (previous = None))) (\<lambda>payload.
       bind_result (append_event now rid
           ((draft_event Ev_ToolSurfaceCaptured Ac_Harness)\<lparr>ev_redacted_payload := payload\<rparr>) db) (\<lambda>db1.
       (case previous of
          None \<Rightarrow> Inr db1
        | Some p \<Rightarrow>
            bind_result (lift_surface (diff_surfaces p surface Ns_Target)) (\<lambda>deltas.
            bind_result (lift_surface (map_result delta_event deltas)) (\<lambda>es.
              append_events now rid es db1))))))"

end
