(* ===== verification/Journey.thy ===== *)
theory Journey
  imports Lifecycle
begin

section \<open>The protocol of one run\<close>

text \<open>
  The abstract specification the run services implement: one run as its status, the tool facts of
  its timeline in order, its confirmation requests, the calls that may act on the target (of which
  those not yet handed over are \<open>ready\<close>) and the calls handed over so far. Each rule is one
  committed transaction or the one moment of dispatch. \<open>prot\<close> tells the tools the armed contract protects. The
  tables, the in-flight requests and the clients that realise it are in the service theories; the
  invariants are proved here, once.
\<close>

subsection \<open>States\<close>

datatype tool_fact =
    Started (fact_tool: pystr) (fact_corr: pystr)
  | Completed (fact_tool: pystr) (fact_corr: pystr)
  | Aborted (fact_tool: pystr) (fact_corr: pystr)
  | Approved (fact_tool: pystr) (fact_corr: pystr)

fun ends :: "tool_fact \<Rightarrow> bool" where
  "ends (Completed _ _) = True"
| "ends (Aborted _ _) = True"
| "ends _ = False"

fun begins :: "tool_fact \<Rightarrow> bool" where
  "begins (Started _ _) = True"
| "begins _ = False"

record request =
  rq_id :: pystr
  rq_corr :: pystr
  rq_tool :: pystr
  rq_status :: confirmation_status

record journey =
  jn_status :: run_state
  jn_trace :: "tool_fact list"
  jn_requests :: "request list"
  jn_working :: "(pystr \<times> pystr) set"
  jn_ready :: "(pystr \<times> pystr) set"
  jn_sent :: "(pystr \<times> pystr) list"

definition armed_journey :: journey where
  "armed_journey = \<lparr>jn_status = Run_Armed, jn_trace = [], jn_requests = [], jn_working = {},
     jn_ready = {}, jn_sent = []\<rparr>"

definition set_request :: "pystr \<Rightarrow> confirmation_status \<Rightarrow> confirmation_status \<Rightarrow> request list \<Rightarrow> request list" where
  "set_request i old new = map (\<lambda>q. if rq_id q = i \<and> rq_status q = old then q\<lparr>rq_status := new\<rparr> else q)"

definition cancel_pending :: "request \<Rightarrow> request" where
  "cancel_pending q = (if rq_status q = Cf_Pending then q\<lparr>rq_status := Cf_Cancelled\<rparr> else q)"

definition correlations :: "tool_fact list \<Rightarrow> pystr set" where
  "correlations tr = fact_corr ` set tr"

definition begun :: "tool_fact list \<Rightarrow> pystr set" where
  "begun tr = fact_corr ` {f \<in> set tr. begins f}"

definition ended :: "tool_fact list \<Rightarrow> pystr set" where
  "ended tr = fact_corr ` {f \<in> set tr. ends f}"

definition released :: "run_state \<Rightarrow> run_state" where
  "released s = (if s = Run_AwaitingConfirmation then Run_Running else s)"

definition cancelled_status :: "run_state \<Rightarrow> run_state" where
  "cancelled_status s = (if is_terminal run_transitions s then s else Run_Cancelled)"

subsection \<open>Steps\<close>

inductive journey_step :: "(pystr \<Rightarrow> bool) \<Rightarrow> journey \<Rightarrow> journey \<Rightarrow> bool" for prot where
  stutter: "journey_step prot j j"
| open_run: "jn_status j = Run_Armed \<Longrightarrow> journey_step prot j (j\<lparr>jn_status := Run_Running\<rparr>)"
| trip: "jn_status j \<in> {Run_Armed, Run_Running} \<Longrightarrow> journey_step prot j (j\<lparr>jn_status := Run_Error\<rparr>)"
| start: "jn_status j \<in> {Run_Armed, Run_Running} \<Longrightarrow> \<not> prot t \<Longrightarrow>
    c \<notin> correlations (jn_trace j) \<Longrightarrow> c \<notin> rq_corr ` set (jn_requests j) \<Longrightarrow> c \<notin> fst ` jn_working j \<Longrightarrow>
    journey_step prot j (j\<lparr>jn_status := Run_Running, jn_trace := jn_trace j @ [Started t c],
      jn_working := insert (c, t) (jn_working j), jn_ready := insert (c, t) (jn_ready j)\<rparr>)"
| ask: "jn_status j \<in> {Run_Armed, Run_Running} \<Longrightarrow> prot t \<Longrightarrow>
    c \<notin> correlations (jn_trace j) \<Longrightarrow> c \<notin> rq_corr ` set (jn_requests j) \<Longrightarrow> c \<notin> fst ` jn_working j \<Longrightarrow>
    i \<notin> rq_id ` set (jn_requests j) \<Longrightarrow>
    journey_step prot j (j\<lparr>jn_status := Run_AwaitingConfirmation, jn_trace := jn_trace j @ [Started t c],
      jn_requests := jn_requests j @ [\<lparr>rq_id = i, rq_corr = c, rq_tool = t, rq_status = Cf_Pending\<rparr>]\<rparr>)"
| approve: "q \<in> set (jn_requests j) \<Longrightarrow> rq_status q = Cf_Pending \<Longrightarrow>
    journey_step prot j (j\<lparr>jn_status := released (jn_status j),
      jn_trace := jn_trace j @ [Approved (rq_tool q) (rq_corr q)],
      jn_requests := set_request (rq_id q) Cf_Pending Cf_Approved (jn_requests j)\<rparr>)"
| refuse: "q \<in> set (jn_requests j) \<Longrightarrow> rq_status q = Cf_Pending \<Longrightarrow>
    st \<in> {Cf_Denied, Cf_Cancelled, Cf_Expired} \<Longrightarrow>
    journey_step prot j (j\<lparr>jn_status := released (jn_status j),
      jn_trace := jn_trace j @ [Aborted (rq_tool q) (rq_corr q)],
      jn_requests := set_request (rq_id q) Cf_Pending st (jn_requests j)\<rparr>)"
| claim: "q \<in> set (jn_requests j) \<Longrightarrow> rq_status q = Cf_Approved \<Longrightarrow>
    journey_step prot j (j\<lparr>jn_requests := set_request (rq_id q) Cf_Approved Cf_Consumed (jn_requests j),
      jn_working := insert (rq_corr q, rq_tool q) (jn_working j),
      jn_ready := insert (rq_corr q, rq_tool q) (jn_ready j)\<rparr>)"
| send: "w \<in> jn_ready j \<Longrightarrow>
    journey_step prot j (j\<lparr>jn_ready := jn_ready j - {w}, jn_sent := jn_sent j @ [w]\<rparr>)"
| stale: "q \<in> set (jn_requests j) \<Longrightarrow> rq_status q = Cf_Approved \<Longrightarrow>
    journey_step prot j (j\<lparr>jn_requests := set_request (rq_id q) Cf_Approved Cf_Cancelled (jn_requests j)\<rparr>)"
| finish: "(c, t) \<in> jn_working j \<Longrightarrow> (c, t) \<notin> jn_ready j \<Longrightarrow> f \<in> {Completed t c, Aborted t c} \<Longrightarrow>
    journey_step prot j (j\<lparr>jn_trace := jn_trace j @ [f], jn_working := jn_working j - {(c, t)}\<rparr>)"
| lose: "journey_step prot j (j\<lparr>jn_working := jn_working j - {w}, jn_ready := jn_ready j - {w}\<rparr>)"
| begin_verification: "jn_status j = Run_Running \<Longrightarrow> begun (jn_trace j) \<subseteq> ended (jn_trace j) \<Longrightarrow>
    \<forall>q\<in>set (jn_requests j). rq_status q \<noteq> Cf_Pending \<Longrightarrow>
    journey_step prot j (j\<lparr>jn_status := Run_Verifying\<rparr>)"
| seal: "jn_status j = Run_Verifying \<Longrightarrow> v \<in> set (run_transitions Run_Verifying) \<Longrightarrow>
    journey_step prot j (j\<lparr>jn_status := v\<rparr>)"
| reset: "journey_step prot j (j\<lparr>jn_status := cancelled_status (jn_status j),
      jn_requests := map cancel_pending (jn_requests j)\<rparr>)"

inductive journey_reach :: "(pystr \<Rightarrow> bool) \<Rightarrow> journey \<Rightarrow> bool" for prot where
  initial: "journey_reach prot armed_journey"
| step: "journey_reach prot j \<Longrightarrow> journey_step prot j k \<Longrightarrow> journey_reach prot k"

subsection \<open>The invariant\<close>

text \<open>
  Requests and timeline agree: every request names a call that was started, is open only while
  that call has not ended, and is approved or spent only after an approval on the timeline.
\<close>

definition request_ok :: "journey \<Rightarrow> request \<Rightarrow> bool" where
  "request_ok j q \<longleftrightarrow>
     Started (rq_tool q) (rq_corr q) \<in> set (jn_trace j) \<and>
     (rq_status q \<in> {Cf_Pending, Cf_Approved} \<longrightarrow>
        rq_corr q \<notin> ended (jn_trace j) \<and> rq_corr q \<notin> fst ` jn_working j) \<and>
     (rq_status q \<in> {Cf_Approved, Cf_Consumed} \<longrightarrow> Approved (rq_tool q) (rq_corr q) \<in> set (jn_trace j))"

text \<open>A call out at the target was started, has not ended, and was approved if it is protected.\<close>

definition working_ok :: "(pystr \<Rightarrow> bool) \<Rightarrow> journey \<Rightarrow> pystr \<times> pystr \<Rightarrow> bool" where
  "working_ok prot j w \<longleftrightarrow>
     Started (snd w) (fst w) \<in> set (jn_trace j) \<and> fst w \<notin> ended (jn_trace j) \<and>
     (prot (snd w) \<longrightarrow> Approved (snd w) (fst w) \<in> set (jn_trace j))"

text \<open>In a timeline, a protected completion comes after the approval of its own correlation.\<close>

definition consent_ordered :: "(pystr \<Rightarrow> bool) \<Rightarrow> tool_fact list \<Rightarrow> bool" where
  "consent_ordered prot tr \<longleftrightarrow>
     (\<forall>us t c vs. tr = us @ Completed t c # vs \<longrightarrow> prot t \<longrightarrow> Approved t c \<in> set us)"

definition quiet :: "journey \<Rightarrow> bool" where
  "quiet j \<longleftrightarrow> begun (jn_trace j) \<subseteq> ended (jn_trace j)"

definition judged_states :: "run_state list" where
  "judged_states = [Run_Verifying, Run_Passed, Run_PassedWithWarnings, Run_Failed]"

definition journey_inv :: "(pystr \<Rightarrow> bool) \<Rightarrow> journey \<Rightarrow> bool" where
  "journey_inv prot j \<longleftrightarrow>
     (\<forall>q\<in>set (jn_requests j). request_ok j q) \<and>
     distinct (map rq_corr (jn_requests j)) \<and> distinct (map rq_id (jn_requests j)) \<and>
     (\<forall>w\<in>jn_working j. working_ok prot j w) \<and>
     distinct (map fact_corr (filter begins (jn_trace j))) \<and>
     distinct (map fact_corr (filter ends (jn_trace j))) \<and>
     (\<forall>f\<in>set (jn_trace j). \<not> begins f \<longrightarrow> Started (fact_tool f) (fact_corr f) \<in> set (jn_trace j)) \<and>
     consent_ordered prot (jn_trace j) \<and>
     (jn_status j = Run_AwaitingConfirmation \<longleftrightarrow>
        (\<exists>q\<in>set (jn_requests j). rq_status q = Cf_Pending)) \<and>
     length (filter (\<lambda>q. rq_status q = Cf_Pending) (jn_requests j)) \<le> 1 \<and>
     (jn_status j \<in> set judged_states \<longrightarrow> quiet j)"

named_theorems journey_simps \<open>rewriting of facts about an extended timeline\<close>

lemma begun_append [journey_simps, simp]:
  "begun (tr @ [f]) = (if begins f then insert (fact_corr f) (begun tr) else begun tr)"
  by (auto simp: begun_def)

lemma ended_append [journey_simps, simp]:
  "ended (tr @ [f]) = (if ends f then insert (fact_corr f) (ended tr) else ended tr)"
  by (auto simp: ended_def)

lemma correlations_append [journey_simps, simp]:
  "correlations (tr @ [f]) = insert (fact_corr f) (correlations tr)"
  by (auto simp: correlations_def)

lemma ended_correlations: "c \<in> ended tr \<Longrightarrow> c \<in> correlations tr"
  by (auto simp: ended_def correlations_def)

lemma in_correlations: "f \<in> set tr \<Longrightarrow> fact_corr f \<in> correlations tr"
  by (auto simp: correlations_def)

lemma consent_ordered_snoc:
  "consent_ordered prot (tr @ [f]) \<longleftrightarrow>
     consent_ordered prot tr \<and> (\<forall>t c. f = Completed t c \<longrightarrow> prot t \<longrightarrow> Approved t c \<in> set tr)"
  unfolding consent_ordered_def
  by (auto simp: append_eq_append_conv2 append_eq_Cons_conv Cons_eq_append_conv) blast+

lemma ended_filter: "c \<in> fact_corr ` set (filter ends tr) \<longleftrightarrow> c \<in> ended tr"
  by (auto simp: ended_def)

lemma begun_filter: "c \<in> fact_corr ` set (filter begins tr) \<longleftrightarrow> c \<in> begun tr"
  by (auto simp: begun_def)

lemma begun_correlations: "c \<in> begun tr \<Longrightarrow> c \<in> correlations tr"
  by (auto simp: begun_def correlations_def)

lemma Started_begun: "Started t c \<in> set tr \<Longrightarrow> c \<in> begun tr"
  by (force simp: begun_def)

text \<open>A conditional update touches one request, by its identifier.\<close>

lemma set_request_ids [simp]: "map rq_id (set_request i old new qs) = map rq_id qs"
  by (auto simp: set_request_def)

lemma set_request_corrs [simp]: "map rq_corr (set_request i old new qs) = map rq_corr qs"
  by (auto simp: set_request_def)

lemma set_request_corr_set [simp]: "rq_corr ` set (set_request i old new qs) = rq_corr ` set qs"
  by (metis list.set_map set_request_corrs)

lemma set_request_mem:
  assumes "q' \<in> set (set_request i old new qs)"
  obtains q where "q \<in> set qs" "rq_id q' = rq_id q" "rq_corr q' = rq_corr q" "rq_tool q' = rq_tool q"
    "rq_status q' = (if rq_id q = i \<and> rq_status q = old then new else rq_status q)"
  using assms by (auto simp: set_request_def split: if_splits)

lemma set_request_pending:
  assumes "distinct (map rq_id qs)" "q \<in> set qs" "rq_status q = Cf_Pending" "new \<noteq> Cf_Pending"
    and "length (filter (\<lambda>q. rq_status q = Cf_Pending) qs) \<le> 1"
  shows "filter (\<lambda>q. rq_status q = Cf_Pending) (set_request (rq_id q) Cf_Pending new qs) = []"
proof -
  have q: "q \<in> set (filter (\<lambda>q. rq_status q = Cf_Pending) qs)" using assms(2,3) by simp
  then obtain x where x: "filter (\<lambda>q. rq_status q = Cf_Pending) qs = [x]"
    using assms(5) by (cases "filter (\<lambda>q. rq_status q = Cf_Pending) qs") auto
  have "p = q" if "p \<in> set qs" "rq_status p = Cf_Pending" for p
  proof -
    have "p \<in> set (filter (\<lambda>q. rq_status q = Cf_Pending) qs)" using that by simp
    then show ?thesis using q unfolding x by simp
  qed
  then show ?thesis using assms(4) by (auto simp: set_request_def filter_empty_conv split: if_splits)
qed

lemma set_request_keeps_pending:
  assumes "old \<noteq> Cf_Pending" "new \<noteq> Cf_Pending"
  shows "map rq_id (filter (\<lambda>q. rq_status q = Cf_Pending) (set_request i old new qs)) =
    map rq_id (filter (\<lambda>q. rq_status q = Cf_Pending) qs)"
  using assms by (induction qs) (auto simp: set_request_def)

lemma ex_length_filter: "(\<exists>x\<in>set xs. P x) \<longleftrightarrow> length (filter P xs) \<noteq> 0"
  by (simp add: filter_empty_conv)

text \<open>The invariant in the two forms the step lemmas use: taken apart, and put together.\<close>

lemma journey_invD:
  assumes "journey_inv prot j"
  shows "\<And>q. q \<in> set (jn_requests j) \<Longrightarrow> request_ok j q"
    and "distinct (map rq_corr (jn_requests j))" and "distinct (map rq_id (jn_requests j))"
    and "\<And>w. w \<in> jn_working j \<Longrightarrow> working_ok prot j w"
    and "distinct (map fact_corr (filter begins (jn_trace j)))"
    and "distinct (map fact_corr (filter ends (jn_trace j)))"
    and "\<And>f. f \<in> set (jn_trace j) \<Longrightarrow> \<not> begins f \<Longrightarrow> Started (fact_tool f) (fact_corr f) \<in> set (jn_trace j)"
    and "consent_ordered prot (jn_trace j)"
    and "jn_status j = Run_AwaitingConfirmation \<longleftrightarrow> (\<exists>q\<in>set (jn_requests j). rq_status q = Cf_Pending)"
    and "length (filter (\<lambda>q. rq_status q = Cf_Pending) (jn_requests j)) \<le> 1"
    and "jn_status j \<in> set judged_states \<Longrightarrow> quiet j"
  using assms unfolding journey_inv_def by blast+

lemma journey_invI:
  assumes "\<And>q. q \<in> set (jn_requests j) \<Longrightarrow> request_ok j q"
    and "distinct (map rq_corr (jn_requests j))" and "distinct (map rq_id (jn_requests j))"
    and "\<And>w. w \<in> jn_working j \<Longrightarrow> working_ok prot j w"
    and "distinct (map fact_corr (filter begins (jn_trace j)))"
    and "distinct (map fact_corr (filter ends (jn_trace j)))"
    and "\<And>f. f \<in> set (jn_trace j) \<Longrightarrow> \<not> begins f \<Longrightarrow> Started (fact_tool f) (fact_corr f) \<in> set (jn_trace j)"
    and "consent_ordered prot (jn_trace j)"
    and "jn_status j = Run_AwaitingConfirmation \<longleftrightarrow> (\<exists>q\<in>set (jn_requests j). rq_status q = Cf_Pending)"
    and "length (filter (\<lambda>q. rq_status q = Cf_Pending) (jn_requests j)) \<le> 1"
    and "jn_status j \<in> set judged_states \<Longrightarrow> quiet j"
  shows "journey_inv prot j"
  using assms unfolding journey_inv_def by blast

lemma request_started: "request_ok j q \<Longrightarrow> Started (rq_tool q) (rq_corr q) \<in> set (jn_trace j)"
  by (simp add: request_ok_def)

text \<open>A judged run holds no open request, no live approval and no call at the target.\<close>

lemma quiet_no_open_request:
  assumes "journey_inv prot j" "quiet j" "q \<in> set (jn_requests j)"
  shows "rq_status q \<notin> {Cf_Pending, Cf_Approved}"
proof -
  have r: "request_ok j q" using journey_invD(1)[OF assms(1,3)] .
  then have "rq_corr q \<in> ended (jn_trace j)"
    using assms(2) Started_begun[OF request_started[OF r]] by (auto simp: quiet_def)
  then show ?thesis using r by (auto simp: request_ok_def)
qed

lemma quiet_no_working:
  assumes "journey_inv prot j" "quiet j"
  shows "jn_working j = {}"
proof (rule ccontr)
  assume "jn_working j \<noteq> {}"
  then obtain w where "w \<in> jn_working j" by auto
  then have w: "working_ok prot j w" using journey_invD(4)[OF assms(1)] by blast
  then have "fst w \<in> begun (jn_trace j)" by (auto simp: working_ok_def intro: Started_begun)
  then show False using w assms(2) by (auto simp: working_ok_def quiet_def)
qed

subsection \<open>Every step preserves it\<close>

text \<open>Which calls are still to be dispatched does not matter to it.\<close>

lemma journey_inv_cong:
  assumes "journey_inv prot j" "jn_status k = jn_status j" "jn_trace k = jn_trace j"
    "jn_requests k = jn_requests j" "jn_working k = jn_working j"
  shows "journey_inv prot k"
  using assms unfolding journey_inv_def by (simp add: request_ok_def working_ok_def quiet_def)

lemma inv_status:
  assumes "journey_inv prot j"
    and "s = Run_AwaitingConfirmation \<longleftrightarrow> jn_status j = Run_AwaitingConfirmation"
    and "s \<in> set judged_states \<Longrightarrow> quiet j"
  shows "journey_inv prot (j\<lparr>jn_status := s\<rparr>)"
  using assms unfolding journey_inv_def
  by (simp add: request_ok_def working_ok_def quiet_def)

lemma inv_working:
  assumes "journey_inv prot j"
  shows "journey_inv prot (j\<lparr>jn_working := jn_working j - X\<rparr>)"
  using assms unfolding journey_inv_def by (auto simp: request_ok_def working_ok_def quiet_def)

text \<open>Appending the start of a call under a correlation the run has not seen\<close>

lemma inv_start:
  assumes i: "journey_inv prot j" and fresh: "c \<notin> correlations (jn_trace j)"
    "c \<notin> rq_corr ` set (jn_requests j)"
    and s: "jn_status j = Run_Running"
    and w: "W = jn_working j \<or> (\<not> prot t \<and> W = insert (c, t) (jn_working j))"
  shows "journey_inv prot (j\<lparr>jn_trace := jn_trace j @ [Started t c], jn_working := W\<rparr>)"
proof -
  have nb: "c \<notin> begun (jn_trace j)" "c \<notin> ended (jn_trace j)"
    using fresh(1) begun_correlations ended_correlations by blast+
  have p: "\<not> (\<exists>q\<in>set (jn_requests j). rq_status q = Cf_Pending)"
    using journey_invD(9)[OF i] s by simp
  have "request_ok (j\<lparr>jn_trace := jn_trace j @ [Started t c], jn_working := W\<rparr>) q"
    if "q \<in> set (jn_requests j)" for q
    using journey_invD(1)[OF i that] w that fresh(2) by (auto simp: request_ok_def)
  moreover have "working_ok prot (j\<lparr>jn_trace := jn_trace j @ [Started t c], jn_working := W\<rparr>) x"
    if "x \<in> W" for x
    using journey_invD(4)[OF i, of x] w that nb(2) by (auto simp: working_ok_def)
  moreover have "distinct (map fact_corr (filter begins (jn_trace j @ [Started t c])))"
    using journey_invD(5)[OF i] nb(1) by (simp add: begun_def)
  moreover have "\<forall>f\<in>set (jn_trace j @ [Started t c]). \<not> begins f \<longrightarrow>
      Started (fact_tool f) (fact_corr f) \<in> set (jn_trace j @ [Started t c])"
    using journey_invD(7)[OF i] by auto
  moreover have "consent_ordered prot (jn_trace j @ [Started t c])"
    using journey_invD(8)[OF i] by (simp add: consent_ordered_snoc)
  ultimately show ?thesis
    using journey_invD(2,3,6,9,10)[OF i] s p
    unfolding journey_inv_def by (simp add: judged_states_def)
qed

text \<open>A new request asks about a call already started and keeps the run waiting.\<close>

lemma inv_ask:
  assumes i: "journey_inv prot j" and run: "jn_status j = Run_Running"
    and q: "rq_status q = Cf_Pending" "rq_corr q \<notin> rq_corr ` set (jn_requests j)"
      "rq_id q \<notin> rq_id ` set (jn_requests j)"
    and t: "Started (rq_tool q) (rq_corr q) \<in> set (jn_trace j)" "rq_corr q \<notin> ended (jn_trace j)"
      "rq_corr q \<notin> fst ` jn_working j"
  shows "journey_inv prot (j\<lparr>jn_status := Run_AwaitingConfirmation, jn_requests := jn_requests j @ [q]\<rparr>)"
proof -
  let ?k = "j\<lparr>jn_status := Run_AwaitingConfirmation, jn_requests := jn_requests j @ [q]\<rparr>"
  have none: "filter (\<lambda>q. rq_status q = Cf_Pending) (jn_requests j) = []"
    using journey_invD(9)[OF i] run by (simp add: filter_empty_conv)
  have "request_ok ?k p" if "p \<in> set (jn_requests j @ [q])" for p
    using that journey_invD(1)[OF i] q t by (auto simp: request_ok_def)
  moreover have "working_ok prot ?k w" if "w \<in> jn_working j" for w
    using journey_invD(4)[OF i that] by (simp add: working_ok_def)
  moreover have "distinct (map rq_corr (jn_requests j @ [q]))" "distinct (map rq_id (jn_requests j @ [q]))"
    using journey_invD(2,3)[OF i] q by auto
  moreover have "\<exists>p\<in>set (jn_requests j @ [q]). rq_status p = Cf_Pending" using q by auto
  moreover have "length (filter (\<lambda>q. rq_status q = Cf_Pending) (jn_requests j @ [q])) \<le> 1"
    using none q by simp
  ultimately show ?thesis
    using journey_invD(5-8)[OF i] unfolding journey_inv_def by (simp add: judged_states_def)
qed

text \<open>Deciding the open request: the fact of the decision is appended and the run goes on.\<close>

lemma inv_decide:
  assumes i: "journey_inv prot j" and q: "q \<in> set (jn_requests j)" "rq_status q = Cf_Pending"
    and d: "(st = Cf_Approved \<and> f = Approved (rq_tool q) (rq_corr q)) \<or>
      (st \<in> {Cf_Denied, Cf_Cancelled, Cf_Expired} \<and> f = Aborted (rq_tool q) (rq_corr q))"
  shows "journey_inv prot (j\<lparr>jn_status := released (jn_status j), jn_trace := jn_trace j @ [f],
    jn_requests := set_request (rq_id q) Cf_Pending st (jn_requests j)\<rparr>)"
    (is "journey_inv prot ?k")
proof -
  let ?qs = "set_request (rq_id q) Cf_Pending st (jn_requests j)"
  have ids: "distinct (map rq_id (jn_requests j))" using journey_invD(3)[OF i] .
  have corrs: "distinct (map rq_corr (jn_requests j))" using journey_invD(2)[OF i] .
  have st: "st \<noteq> Cf_Pending" and fc: "fact_corr f = rq_corr q" "fact_tool f = rq_tool q" "\<not> begins f"
    using d by auto
  have rq: "request_ok j q" using journey_invD(1)[OF i q(1)] .
  have await: "jn_status j = Run_AwaitingConfirmation" using journey_invD(9)[OF i] q by blast
  have none: "filter (\<lambda>q. rq_status q = Cf_Pending) ?qs = []"
    by (rule set_request_pending[OF ids q st journey_invD(10)[OF i]])
  have reqs: "request_ok ?k p" if mem: "p \<in> set ?qs" for p
  proof -
    obtain p0 where p0: "p0 \<in> set (jn_requests j)" "rq_id p = rq_id p0" "rq_corr p = rq_corr p0"
      "rq_tool p = rq_tool p0"
      "rq_status p = (if rq_id p0 = rq_id q \<and> rq_status p0 = Cf_Pending then st else rq_status p0)"
      by (rule set_request_mem[OF mem])
    show ?thesis
    proof (cases "p0 = q")
      case True
      then show ?thesis using p0 q rq d by (auto simp: request_ok_def)
    next
      case False
      then have ne: "rq_id p0 \<noteq> rq_id q" "rq_corr p0 \<noteq> rq_corr q"
        using ids corrs p0(1) q(1) by (auto simp: distinct_map dest: inj_onD)
      then show ?thesis using p0 journey_invD(1)[OF i p0(1)] fc by (auto simp: request_ok_def)
    qed
  qed
  have works: "working_ok prot ?k w" if "w \<in> jn_working j" for w
  proof -
    have "rq_corr q \<notin> fst ` jn_working j" using rq q(2) by (simp add: request_ok_def)
    then have "fst w \<noteq> rq_corr q" using that by (metis image_eqI)
    then show ?thesis using journey_invD(4)[OF i that] fc by (auto simp: working_ok_def)
  qed
  have ends: "distinct (map fact_corr (filter ends (jn_trace j @ [f])))"
    using journey_invD(6)[OF i] rq q(2) fc by (auto simp: request_ok_def ended_def)
  have starts: "Started (fact_tool g) (fact_corr g) \<in> set (jn_trace j @ [f])"
    if "g \<in> set (jn_trace j @ [f])" "\<not> begins g" for g
    using journey_invD(7)[OF i] request_started[OF rq] fc that by auto
  have consent: "consent_ordered prot (jn_trace j @ [f])"
    using journey_invD(8)[OF i] d by (auto simp: consent_ordered_snoc)
  have rel: "released (jn_status j) = Run_Running" using await by (simp add: released_def)
  have np: "\<not> (\<exists>p\<in>set ?qs. rq_status p = Cf_Pending)" using none by (simp add: filter_empty_conv)
  have eq: "jn_requests ?k = ?qs" "jn_trace ?k = jn_trace j @ [f]" "jn_working ?k = jn_working j"
    "jn_status ?k = Run_Running" by (simp_all add: rel)
  show ?thesis
  proof (rule journey_invI, unfold eq)
    show "distinct (map fact_corr (filter begins (jn_trace j @ [f])))"
      using journey_invD(5)[OF i] fc(3) by simp
    show "Run_Running = Run_AwaitingConfirmation \<longleftrightarrow> (\<exists>q\<in>set ?qs. rq_status q = Cf_Pending)"
      using np by simp
    show "length (filter (\<lambda>q. rq_status q = Cf_Pending) ?qs) \<le> 1" by (simp only: none list.size)
    assume "Run_Running \<in> set judged_states"
    then show "quiet ?k" by (simp add: judged_states_def)
  qed (use reqs works ends starts consent ids corrs in \<open>simp_all only: set_request_corrs set_request_ids\<close>)
qed

lemma inv_claim:
  assumes i: "journey_inv prot j" and q: "q \<in> set (jn_requests j)" "rq_status q = Cf_Approved"
    and d: "(st = Cf_Consumed \<and> W = insert (rq_corr q, rq_tool q) (jn_working j)) \<or>
      (st = Cf_Cancelled \<and> W = jn_working j)"
  shows "journey_inv prot (j\<lparr>jn_requests := set_request (rq_id q) Cf_Approved st (jn_requests j), jn_working := W\<rparr>)"
proof -
  let ?qs = "set_request (rq_id q) Cf_Approved st (jn_requests j)"
  let ?k = "j\<lparr>jn_requests := ?qs, jn_working := W\<rparr>"
  have ids: "distinct (map rq_id (jn_requests j))" using journey_invD(3)[OF i] .
  have corrs: "distinct (map rq_corr (jn_requests j))" using journey_invD(2)[OF i] .
  have rq: "request_ok j q" using journey_invD(1)[OF i q(1)] .
  have "map rq_id (filter (\<lambda>q. rq_status q = Cf_Pending) ?qs) =
      map rq_id (filter (\<lambda>q. rq_status q = Cf_Pending) (jn_requests j))"
    using d by (intro set_request_keeps_pending) auto
  then have len: "length (filter (\<lambda>q. rq_status q = Cf_Pending) ?qs) =
      length (filter (\<lambda>q. rq_status q = Cf_Pending) (jn_requests j))" by (metis length_map)
  then have ex: "(\<exists>q\<in>set ?qs. rq_status q = Cf_Pending) \<longleftrightarrow>
      (\<exists>q\<in>set (jn_requests j). rq_status q = Cf_Pending)"
    by (simp only: ex_length_filter len)
  have "request_ok ?k p" if mem: "p \<in> set ?qs" for p
  proof -
    obtain p0 where p0: "p0 \<in> set (jn_requests j)" "rq_id p = rq_id p0" "rq_corr p = rq_corr p0"
      "rq_tool p = rq_tool p0"
      "rq_status p = (if rq_id p0 = rq_id q \<and> rq_status p0 = Cf_Approved then st else rq_status p0)"
      by (rule set_request_mem[OF mem])
    show ?thesis
    proof (cases "p0 = q")
      case True
      then show ?thesis using p0 q rq d by (auto simp: request_ok_def)
    next
      case False
      then have ne: "rq_id p0 \<noteq> rq_id q" "rq_corr p0 \<noteq> rq_corr q"
        using ids corrs p0(1) q(1) by (auto simp: distinct_map dest: inj_onD)
      then show ?thesis using p0 journey_invD(1)[OF i p0(1)] d by (auto simp: request_ok_def)
    qed
  qed
  moreover have "working_ok prot ?k w" if "w \<in> W" for w
    using d that journey_invD(4)[OF i, of w] rq q(2) by (auto simp: working_ok_def request_ok_def)
  ultimately show ?thesis
    using journey_invD(5-11)[OF i] ids corrs len ex unfolding journey_inv_def
    by (simp add: quiet_def)
qed

lemma inv_finish:
  assumes i: "journey_inv prot j" and w: "(c, t) \<in> jn_working j" and f: "f \<in> {Completed t c, Aborted t c}"
  shows "journey_inv prot (j\<lparr>jn_trace := jn_trace j @ [f], jn_working := jn_working j - {(c, t)}\<rparr>)"
proof -
  let ?k = "j\<lparr>jn_trace := jn_trace j @ [f], jn_working := jn_working j - {(c, t)}\<rparr>"
  have wo: "working_ok prot j (c, t)" using journey_invD(4)[OF i w] .
  have fc: "fact_corr f = c" "fact_tool f = t" "\<not> begins f" "ends f" using f by auto
  have starts: "x = t" if "Started x c \<in> set (jn_trace j)" for x
  proof -
    have "Started x c \<in> set (filter begins (jn_trace j))" "Started t c \<in> set (filter begins (jn_trace j))"
      using that wo by (auto simp: working_ok_def)
    moreover have "inj_on fact_corr (set (filter begins (jn_trace j)))"
      using journey_invD(5)[OF i] by (simp add: distinct_map)
    ultimately have "Started x c = Started t c" by (metis inj_onD tool_fact.sel(5))
    then show ?thesis by simp
  qed
  have "request_ok ?k q" if "q \<in> set (jn_requests j)" for q
  proof -
    have "rq_status q \<in> {Cf_Pending, Cf_Approved} \<Longrightarrow> rq_corr q \<noteq> c"
      using journey_invD(1)[OF i that] w by (force simp: request_ok_def)
    then show ?thesis using journey_invD(1)[OF i that] fc by (auto simp: request_ok_def)
  qed
  moreover have "working_ok prot ?k w'" if "w' \<in> jn_working j - {(c, t)}" for w'
  proof -
    have wo': "working_ok prot j w'" using journey_invD(4)[OF i] that by blast
    have "fst w' \<noteq> c" using wo' starts[of "snd w'"] that by (auto simp: working_ok_def)
    then show ?thesis using wo' fc by (auto simp: working_ok_def)
  qed
  moreover have "distinct (map fact_corr (filter ends (jn_trace j @ [f])))"
    using journey_invD(6)[OF i] wo fc by (auto simp: working_ok_def ended_def)
  moreover have "\<forall>g\<in>set (jn_trace j @ [f]). \<not> begins g \<longrightarrow>
      Started (fact_tool g) (fact_corr g) \<in> set (jn_trace j @ [f])"
    using journey_invD(7)[OF i] wo fc by (auto simp: working_ok_def)
  moreover have "consent_ordered prot (jn_trace j @ [f])"
    using journey_invD(8)[OF i] wo f by (auto simp: consent_ordered_snoc working_ok_def)
  moreover have "quiet ?k" if "jn_status j \<in> set judged_states"
    using journey_invD(11)[OF i that] fc by (auto simp: quiet_def)
  ultimately show ?thesis
    using journey_invD(2,3,5,9,10)[OF i] fc unfolding journey_inv_def by simp
qed

lemma cancel_pending_simps [simp]:
  "rq_corr (cancel_pending q) = rq_corr q" "rq_id (cancel_pending q) = rq_id q"
  "rq_tool (cancel_pending q) = rq_tool q"
  "rq_status (cancel_pending q) \<noteq> Cf_Pending"
  "rq_corr \<circ> cancel_pending = rq_corr" "rq_id \<circ> cancel_pending = rq_id"
  by (auto simp: cancel_pending_def fun_eq_iff)

lemma inv_reset:
  assumes i: "journey_inv prot j"
  shows "journey_inv prot (j\<lparr>jn_status := cancelled_status (jn_status j),
    jn_requests := map cancel_pending (jn_requests j)\<rparr>)"
    (is "journey_inv prot ?k")
proof (rule journey_invI)
  fix q assume "q \<in> set (jn_requests ?k)"
  then obtain q0 where q: "q0 \<in> set (jn_requests j)" "q = cancel_pending q0" by auto
  show "request_ok ?k q" using journey_invD(1)[OF i q(1)] q(2) by (auto simp: request_ok_def cancel_pending_def)
next
  show "jn_status ?k = Run_AwaitingConfirmation \<longleftrightarrow> (\<exists>q\<in>set (jn_requests ?k). rq_status q = Cf_Pending)"
    by (cases "jn_status j") (auto simp: cancelled_status_def is_terminal_def)
next
  assume "jn_status ?k \<in> set judged_states"
  then show "quiet ?k"
    using journey_invD(11)[OF i]
    by (cases "jn_status j") (simp_all add: cancelled_status_def is_terminal_def judged_states_def quiet_def)
next
  show "length (filter (\<lambda>q. rq_status q = Cf_Pending) (jn_requests ?k)) \<le> 1" by (simp add: filter_map o_def)
next
  fix w assume "w \<in> jn_working ?k"
  then show "working_ok prot ?k w" using journey_invD(4)[OF i, of w] by (simp add: working_ok_def)
next
  fix f assume "f \<in> set (jn_trace ?k)" "\<not> begins f"
  then show "Started (fact_tool f) (fact_corr f) \<in> set (jn_trace ?k)" using journey_invD(7)[OF i, of f] by simp
next
  show "distinct (map rq_corr (jn_requests ?k))" "distinct (map rq_id (jn_requests ?k))"
    using journey_invD(2,3)[OF i] by simp_all
qed (use journey_invD(5,6,8)[OF i] in simp_all)

lemma journey_step_inv:
  assumes "journey_step prot j k" "journey_inv prot j"
  shows "journey_inv prot k"
  using assms
proof (induction rule: journey_step.induct)
  case (start j t c)
  let ?m = "j\<lparr>jn_status := Run_Running\<rparr>"
  have m: "journey_inv prot ?m"
    using start by (intro inv_status) (auto simp: judged_states_def)
  show ?case
    by (rule journey_inv_cong[OF inv_start[OF m, where c = c and t = t and W = "insert (c, t) (jn_working j)"]])
      (use start in simp_all)
next
  case (ask j t c i)
  let ?m = "j\<lparr>jn_status := Run_Running\<rparr>"
  let ?n = "?m\<lparr>jn_trace := jn_trace j @ [Started t c], jn_working := jn_working j\<rparr>"
  let ?q = "\<lparr>rq_id = i, rq_corr = c, rq_tool = t, rq_status = Cf_Pending\<rparr>"
  have m: "journey_inv prot ?m"
    using ask by (intro inv_status) (auto simp: judged_states_def)
  have n: "journey_inv prot ?n" using inv_start[OF m, where c = c and t = t and W = "jn_working j"] ask by simp
  have "c \<notin> ended (jn_trace j)" using ask(3) ended_correlations by blast
  then show ?case using inv_ask[OF n, of ?q] ask by (cases j) simp
next
  case (finish c t j f)
  then show ?case using inv_finish by blast
next
  case (send w j)
  then show ?case by (elim journey_inv_cong) simp_all
next
  case (lose j w)
  show ?case by (rule journey_inv_cong[OF inv_working[OF lose, of "{w}"]]) simp_all
next
  case (approve q j)
  then show ?case using inv_decide[OF approve(3,1,2)] by blast
next
  case (refuse q j st)
  then show ?case using inv_decide[OF refuse(4,1,2)] by blast
next
  case (claim q j)
  have "journey_inv prot (j\<lparr>jn_requests := set_request (rq_id q) Cf_Approved Cf_Consumed (jn_requests j),
      jn_working := insert (rq_corr q, rq_tool q) (jn_working j)\<rparr>)"
    using inv_claim[OF claim(3,1,2)] by blast
  then show ?case by (rule journey_inv_cong) simp_all
next
  case (stale q j)
  then show ?case using inv_claim[OF stale(3,1,2), of Cf_Cancelled "jn_working j"] by simp
next
  case (seal j v)
  then show ?case
    by (intro inv_status) (auto simp: judged_states_def dest: journey_invD(11))
next
  case (begin_verification j)
  then show ?case by (intro inv_status) (auto simp: judged_states_def quiet_def)
next
  case (open_run j)
  then show ?case by (intro inv_status) (auto simp: judged_states_def)
next
  case (trip j)
  then show ?case by (intro inv_status) (auto simp: judged_states_def)
qed (simp_all add: inv_reset)

lemma journey_reach_inv: "journey_reach prot j \<Longrightarrow> journey_inv prot j"
proof (induction rule: journey_reach.induct)
  case initial
  then show ?case by (simp add: journey_inv_def armed_journey_def consent_ordered_def judged_states_def)
next
  case (step j k)
  then show ?case using journey_step_inv by blast
qed

subsection \<open>What the invariant gives\<close>

lemma started_tool_unique:
  assumes "journey_inv prot j" "Started t c \<in> set (jn_trace j)" "Started u c \<in> set (jn_trace j)"
  shows "t = u"
proof -
  have "inj_on fact_corr (set (filter begins (jn_trace j)))"
    using journey_invD(5)[OF assms(1)] by (simp add: distinct_map)
  moreover have "Started t c \<in> set (filter begins (jn_trace j))" "Started u c \<in> set (filter begins (jn_trace j))"
    using assms(2,3) by simp_all
  ultimately have "Started t c = Started u c" by (metis inj_onD tool_fact.sel(5))
  then show ?thesis by simp
qed

lemma working_unique:
  assumes "journey_inv prot j" "v \<in> jn_working j" "w \<in> jn_working j" "fst v = fst w"
  shows "v = w"
proof -
  have "working_ok prot j v" "working_ok prot j w"
    using journey_invD(4)[OF assms(1)] assms(2,3) by blast+
  then have "Started (snd v) (fst v) \<in> set (jn_trace j)" "Started (snd w) (fst v) \<in> set (jn_trace j)"
    using assms(4) by (simp_all add: working_ok_def)
  then show ?thesis using started_tool_unique[OF assms(1)] assms(4) by (simp add: prod_eq_iff)
qed

text \<open>No call is handed to the target twice, and a protected one only after an approval.\<close>

definition sent_inv :: "(pystr \<Rightarrow> bool) \<Rightarrow> journey \<Rightarrow> bool" where
  "sent_inv prot j \<longleftrightarrow>
     distinct (map fst (jn_sent j)) \<and>
     (\<forall>w\<in>jn_ready j. w \<in> jn_working j \<and> fst w \<notin> fst ` set (jn_sent j)) \<and>
     (\<forall>q\<in>set (jn_requests j). rq_status q \<in> {Cf_Pending, Cf_Approved} \<longrightarrow>
        rq_corr q \<notin> fst ` set (jn_sent j)) \<and>
     fst ` set (jn_sent j) \<subseteq> correlations (jn_trace j) \<and>
     (\<forall>w\<in>set (jn_sent j). prot (snd w) \<longrightarrow> Approved (snd w) (fst w) \<in> set (jn_trace j))"

lemma sent_step:
  assumes "journey_step prot j k" "journey_inv prot j" "sent_inv prot j"
  shows "sent_inv prot k"
  using assms
proof (induction rule: journey_step.induct)
  case (send w j)
  then have "working_ok prot j w" using journey_invD(4)[OF send(2)] by (auto simp: sent_inv_def)
  then have a: "Started (snd w) (fst w) \<in> set (jn_trace j)"
    "prot (snd w) \<longrightarrow> Approved (snd w) (fst w) \<in> set (jn_trace j)" by (simp_all add: working_ok_def)
  have u: "fst v \<noteq> fst w" if "v \<in> jn_ready j - {w}" for v
    using working_unique[OF send(2), of v w] send(1,3) that by (auto simp: sent_inv_def)
  have r: "rq_corr q \<noteq> fst w" if "q \<in> set (jn_requests j)" "rq_status q \<in> {Cf_Pending, Cf_Approved}" for q
  proof -
    have "rq_corr q \<notin> fst ` jn_working j"
      using journey_invD(1)[OF send(2) that(1)] that(2) by (auto simp: request_ok_def)
    moreover have "w \<in> jn_working j" using send(1,3) by (simp add: sent_inv_def)
    ultimately show ?thesis by (metis image_eqI)
  qed
  show ?case using send(1,3) a u r in_correlations[OF a(1)] by (auto simp: sent_inv_def)
next
  case (claim q j)
  have mem: "\<And>q'. q' \<in> set (set_request (rq_id q) Cf_Approved Cf_Consumed (jn_requests j)) \<Longrightarrow>
      rq_status q' \<in> {Cf_Pending, Cf_Approved} \<Longrightarrow> q' \<in> set (jn_requests j)"
    by (auto simp: set_request_def split: if_splits)
  then show ?case using claim by (auto simp: sent_inv_def)
next
  case (stale q j)
  have mem: "\<And>q'. q' \<in> set (set_request (rq_id q) Cf_Approved Cf_Cancelled (jn_requests j)) \<Longrightarrow>
      rq_status q' \<in> {Cf_Pending, Cf_Approved} \<Longrightarrow> q' \<in> set (jn_requests j)"
    by (auto simp: set_request_def split: if_splits)
  then show ?case using stale by (auto simp: sent_inv_def)
next
  case (approve q j)
  have "rq_corr q' \<notin> fst ` set (jn_sent j)"
    if "q' \<in> set (set_request (rq_id q) Cf_Pending Cf_Approved (jn_requests j))"
      "rq_status q' \<in> {Cf_Pending, Cf_Approved}" for q'
    using that(1)
  proof (rule set_request_mem)
    fix p assume p: "p \<in> set (jn_requests j)" "rq_corr q' = rq_corr p"
      "rq_status q' = (if rq_id p = rq_id q \<and> rq_status p = Cf_Pending then Cf_Approved else rq_status p)"
    then have "rq_status p \<in> {Cf_Pending, Cf_Approved}" using that(2) by (auto split: if_splits)
    then show ?thesis using p approve by (auto simp: sent_inv_def)
  qed
  then show ?case using approve by (auto simp: sent_inv_def)
next
  case (refuse q j st)
  have mem: "\<And>q'. q' \<in> set (set_request (rq_id q) Cf_Pending st (jn_requests j)) \<Longrightarrow>
      rq_status q' \<in> {Cf_Pending, Cf_Approved} \<Longrightarrow> q' \<in> set (jn_requests j)"
    using refuse(3) by (auto simp: set_request_def split: if_splits)
  then show ?case using refuse by (auto simp: sent_inv_def)
next
  case (start j t c)
  then show ?case by (auto simp: sent_inv_def)
next
  case (ask j t c i)
  then show ?case by (auto simp: sent_inv_def)
next
  case (reset j)
  have "rq_status (cancel_pending q) \<in> {Cf_Pending, Cf_Approved} \<Longrightarrow> rq_status q = Cf_Approved" for q
    by (auto simp: cancel_pending_def split: if_splits)
  then show ?case using reset by (fastforce simp: sent_inv_def)
qed (auto simp: sent_inv_def)

text \<open>The timeline only grows; once verification has begun no tool fact is added.\<close>

lemma trace_grows: "journey_step prot j k \<Longrightarrow> \<exists>fs. jn_trace k = jn_trace j @ fs"
  by (induction rule: journey_step.induct) auto

lemma judged_trace_fixed:
  assumes "journey_step prot j k" "journey_inv prot j" "jn_status j \<in> set judged_states"
  shows "jn_trace k = jn_trace j"
proof -
  have q: "quiet j" using journey_invD(11)[OF assms(2,3)] .
  have n: "jn_working j = {}" using quiet_no_working[OF assms(2) q] .
  have o: "\<And>q. q \<in> set (jn_requests j) \<Longrightarrow> rq_status q \<noteq> Cf_Pending"
    using quiet_no_open_request[OF assms(2) q] by auto
  show ?thesis using assms(1,3) n o
    by (cases rule: journey_step.cases) (auto simp: judged_states_def)
qed

text \<open>Every step follows the run machine, or is a reset that cancels the run.\<close>

lemma run_path_one: "t \<in> set (run_transitions s) \<Longrightarrow> run_path s [t] t"
  by (intro run_path.intros) (simp add: validate_run_transition_iff)

lemma run_path_two:
  "t \<in> set (run_transitions s) \<Longrightarrow> u \<in> set (run_transitions t) \<Longrightarrow> run_path s [t, u] u"
  by (intro run_path.intros) (simp_all add: validate_run_transition_iff)

lemma step_follows_machine:
  assumes "journey_step prot j k" "journey_inv prot j"
  shows "(\<exists>ts. run_path (jn_status j) ts (jn_status k)) \<or>
    (\<not> is_terminal run_transitions (jn_status j) \<and> jn_status k = Run_Cancelled)"
  using assms
proof (induction rule: journey_step.induct)
  case (ask j t c i)
  then show ?case
    using run_path_one[of Run_AwaitingConfirmation Run_Running]
      run_path_two[of Run_Running Run_Armed Run_AwaitingConfirmation] by auto
next
  case (start j t c)
  then show ?case using run_path_one[of Run_Running Run_Armed] run_path.intros(1)[of Run_Running] by auto
next
  case (trip j)
  then show ?case using run_path_one[of Run_Error Run_Armed] run_path_one[of Run_Error Run_Running] by auto
next
  case (reset j)
  then show ?case
    using run_path.intros(1)[of "jn_status j"]
    by (cases "jn_status j") (auto simp: cancelled_status_def is_terminal_def)
next
  case (approve q j)
  then have "jn_status j = Run_AwaitingConfirmation" using journey_invD(9)[OF approve(3)] by blast
  then show ?case using run_path_one[of Run_Running Run_AwaitingConfirmation] by (auto simp: released_def)
next
  case (refuse q j st)
  then have "jn_status j = Run_AwaitingConfirmation" using journey_invD(9)[OF refuse(4)] by blast
  then show ?case using run_path_one[of Run_Running Run_AwaitingConfirmation] by (auto simp: released_def)
next
  case (open_run j)
  then show ?case using run_path_one[of Run_Running Run_Armed] by auto
next
  case (begin_verification j)
  then show ?case using run_path_one[of Run_Verifying Run_Running] by auto
next
  case (seal j v)
  then show ?case using run_path_one[of v Run_Verifying] by auto
qed (auto intro: run_path.intros(1))

text \<open>
  A call whose approval was cancelled stays started and not ended: no request for it is open or
  approved and no client holds it. The run can then never be verified.
\<close>

definition stranded :: "pystr \<Rightarrow> journey \<Rightarrow> bool" where
  "stranded c j \<longleftrightarrow>
     c \<in> begun (jn_trace j) \<and> c \<notin> ended (jn_trace j) \<and> c \<notin> fst ` jn_working j \<and>
     (\<forall>q\<in>set (jn_requests j). rq_corr q = c \<longrightarrow> rq_status q \<notin> {Cf_Pending, Cf_Approved}) \<and>
     jn_status j \<notin> set judged_states"

lemma stranded_step:
  assumes "journey_step prot j k" "stranded c j"
  shows "stranded c k"
  using assms
proof (induction rule: journey_step.induct)
  case (start j t d)
  then have "d \<noteq> c" using begun_correlations by (auto simp: stranded_def)
  then show ?case using start by (auto simp: stranded_def judged_states_def)
next
  case (ask j t d i)
  then have "d \<noteq> c" using begun_correlations by (auto simp: stranded_def)
  then show ?case using ask by (auto simp: stranded_def judged_states_def)
next
  case (approve q j)
  then have "rq_corr q \<noteq> c" by (auto simp: stranded_def)
  moreover have "released (jn_status j) \<notin> set judged_states"
    using approve(3) by (auto simp: stranded_def released_def judged_states_def)
  ultimately show ?case using approve
    by (auto simp: stranded_def elim!: set_request_mem split: if_splits) 
next
  case (refuse q j st)
  then have "rq_corr q \<noteq> c" by (auto simp: stranded_def)
  moreover have "released (jn_status j) \<notin> set judged_states"
    using refuse(4) by (auto simp: stranded_def released_def judged_states_def)
  ultimately show ?case using refuse
    by (auto simp: stranded_def elim!: set_request_mem split: if_splits)
next
  case (claim q j)
  then have "rq_corr q \<noteq> c" by (auto simp: stranded_def)
  then show ?case using claim by (auto simp: stranded_def elim!: set_request_mem split: if_splits)
next
  case (stale q j)
  then show ?case by (auto simp: stranded_def elim!: set_request_mem split: if_splits)
next
  case (finish d t j f)
  then have "d \<noteq> c" by (force simp: stranded_def)
  then show ?case using finish by (auto simp: stranded_def)
next
  case (seal j v)
  then show ?case by (auto simp: stranded_def judged_states_def)
next
  case (reset j)
  then show ?case
    by (cases "jn_status j")
      (auto simp: stranded_def cancel_pending_def cancelled_status_def is_terminal_def judged_states_def)
next
  case (begin_verification j)
  then show ?case by (auto simp: stranded_def)
qed (auto simp: stranded_def judged_states_def)

lemma stale_strands:
  assumes "journey_inv prot j" "q \<in> set (jn_requests j)" "rq_status q = Cf_Approved"
    "jn_status j \<notin> set judged_states"
  shows "stranded (rq_corr q) (j\<lparr>jn_requests := set_request (rq_id q) Cf_Approved Cf_Cancelled (jn_requests j)\<rparr>)"
proof -
  have r: "request_ok j q" using journey_invD(1)[OF assms(1,2)] .
  have "rq_status p \<notin> {Cf_Pending, Cf_Approved}"
    if p: "p \<in> set (set_request (rq_id q) Cf_Approved Cf_Cancelled (jn_requests j))" "rq_corr p = rq_corr q" for p
    using p(1)
  proof (rule set_request_mem)
    fix p0 assume p0: "p0 \<in> set (jn_requests j)" "rq_corr p = rq_corr p0"
      "rq_status p = (if rq_id p0 = rq_id q \<and> rq_status p0 = Cf_Approved then Cf_Cancelled else rq_status p0)"
    then have "p0 = q"
      using journey_invD(2)[OF assms(1)] assms(2) p(2) by (auto simp: distinct_map dest: inj_onD)
    then show ?thesis using p0(3) assms(3) by simp
  qed
  then show ?thesis
    using r assms(3,4) Started_begun[OF request_started[OF r]]
    by (auto simp: stranded_def request_ok_def)
qed

end
