(* ===== verification/Views.thy ===== *)
theory Views
  imports Runs Journey
begin

section \<open>What a transaction does to a run\<close>

text \<open>
  The view of a run in the tables (its status, the tool facts of its timeline, its confirmation
  requests) and, for every transaction, how it changes that view and that it leaves every other
  run alone. \<open>grows S L\<close> is the frame of a transaction that may touch the runs in \<open>S\<close> and opens the
  requests \<open>L\<close>: identities stay, timelines grow at the end, numbering stays consecutive, other runs
  keep their rows.
\<close>

subsection \<open>The view\<close>

fun text_of_option :: "pystr option \<Rightarrow> pystr" where
  "text_of_option None = []"
| "text_of_option (Some s) = s"

definition fact_of :: "event_row \<Rightarrow> tool_fact option" where
  "fact_of e =
     (let t = text_of_option (ev_tool_name e); c = text_of_option (ev_correlation_id e) in
      (case ev_event_type e of
         Ev_ToolInvocationStarted \<Rightarrow> Some (Started t c)
       | Ev_ToolInvocationCompleted \<Rightarrow> Some (Completed t c)
       | Ev_ToolInvocationFailed \<Rightarrow> Some (Aborted t c)
       | Ev_ToolInvocationCancelled \<Rightarrow> Some (Aborted t c)
       | Ev_ConfirmationApproved \<Rightarrow> Some (Approved t c)
       | _ \<Rightarrow> None))"

definition facts :: "event_row list \<Rightarrow> tool_fact list" where
  "facts es = List.map_filter fact_of es"

lemma facts_append [simp]: "facts (xs @ ys) = facts xs @ facts ys"
  by (simp add: facts_def map_filter_def)

lemma facts_Nil [simp]: "facts [] = []"
  by (simp add: facts_def map_filter_def)

lemma facts_Cons: "facts (e # es) = (case fact_of e of None \<Rightarrow> facts es | Some f \<Rightarrow> f # facts es)"
  by (simp add: facts_def map_filter_def split: option.split)

definition trace_of :: "database \<Rightarrow> pystr \<Rightarrow> tool_fact list" where
  "trace_of db rid = facts (events_of db rid)"

definition request_of :: "confirmation_row \<Rightarrow> request" where
  "request_of c = \<lparr>rq_id = cf_id c, rq_corr = cf_correlation_id c, rq_tool = cf_tool_name c,
     rq_status = cf_status c\<rparr>"

definition confirmations_of :: "database \<Rightarrow> pystr \<Rightarrow> confirmation_row list" where
  "confirmations_of db rid = filter (\<lambda>c. cf_run_id c = rid) (db_confirmations db)"

definition requests_of :: "database \<Rightarrow> pystr \<Rightarrow> request list" where
  "requests_of db rid = map request_of (confirmations_of db rid)"

definition rows_of :: "database \<Rightarrow> pystr \<Rightarrow> run_row list" where
  "rows_of db rid = filter (\<lambda>r. rn_id r = rid) (db_runs db)"

definition status_of :: "database \<Rightarrow> pystr \<Rightarrow> run_state option" where
  "status_of db rid = (case rows_of db rid of [] \<Rightarrow> None | r # _ \<Rightarrow> Some (rn_status r))"

definition view :: "database \<Rightarrow> pystr \<Rightarrow> run_state option \<times> tool_fact list \<times> request list" where
  "view db rid = (status_of db rid, trace_of db rid, requests_of db rid)"

definition run_ident :: "run_row \<Rightarrow> pystr \<times> pystr \<times> pystr option" where
  "run_ident r = (rn_id r, rn_workspace_id r, rn_contract_id r)"

subsection \<open>Numbering\<close>

definition consecutive :: "event_row list \<Rightarrow> bool" where
  "consecutive es \<longleftrightarrow> map ev_sequence_number es = [1..<Suc (length es)]"

definition numbered :: "database \<Rightarrow> bool" where
  "numbered db \<longleftrightarrow> (\<forall>rid. consecutive (events_of db rid))"

lemma foldr_max_upt: "foldr max [Suc 0..<Suc n] (0::nat) = n"
proof -
  have "foldr max [Suc 0..<Suc n] a = max n a" for a
    by (induction n arbitrary: a) auto
  then show ?thesis by simp
qed

lemma consecutive_next:
  "consecutive (events_of db rid) \<Longrightarrow> next_sequence db rid = Suc (length (events_of db rid))"
  using foldr_max_upt by (simp add: consecutive_def next_sequence_def)

lemma consecutive_sorted: "consecutive es \<Longrightarrow> sort_key ev_sequence_number es = es"
  by (rule sort_key_id_if_sorted) (simp add: consecutive_def del: upt_Suc)

subsection \<open>The frame\<close>

definition request_ident :: "confirmation_row \<Rightarrow> pystr \<times> pystr \<times> pystr \<times> pystr \<times> pystr" where
  "request_ident c = (cf_id c, cf_workspace_id c, cf_run_id c, cf_correlation_id c, cf_tool_name c)"

definition request_idents :: "database \<Rightarrow> (pystr \<times> pystr \<times> pystr \<times> pystr \<times> pystr) list" where
  "request_idents db = map request_ident (db_confirmations db)"

definition facts_named :: "database \<Rightarrow> bool" where
  "facts_named db \<longleftrightarrow>
     (\<forall>e\<in>set (db_events db). fact_of e \<noteq> None \<longrightarrow> ev_correlation_id e \<noteq> None \<and> ev_tool_name e \<noteq> None)"

definition homed :: "database \<Rightarrow> bool" where
  "homed db \<longleftrightarrow> (\<forall>e\<in>set (db_events db). run_exists db (er_run_id e))"

definition grows ::
  "pystr set \<Rightarrow> (pystr \<times> pystr \<times> pystr \<times> pystr \<times> pystr) list \<Rightarrow> database \<Rightarrow> database \<Rightarrow> bool" where
  "grows S L db db' \<longleftrightarrow>
     map run_ident (db_runs db') = map run_ident (db_runs db) \<and>
     db_contracts db' = db_contracts db \<and>
     request_idents db' = request_idents db @ L \<and>
     (\<forall>r. r \<notin> S \<longrightarrow> events_of db' r = events_of db r \<and> rows_of db' r = rows_of db r \<and>
        confirmations_of db' r = confirmations_of db r) \<and>
     (\<forall>r. prefix (events_of db r) (events_of db' r)) \<and>
     (numbered db \<longrightarrow> numbered db') \<and> (facts_named db \<longrightarrow> facts_named db') \<and>
     (homed db \<longrightarrow> homed db')"

lemma grows_refl [simp, intro]: "grows S [] db db"
  by (simp add: grows_def)

lemma grows_trans:
  assumes "grows S L a b" "grows S M b c"
  shows "grows S (L @ M) a c"
proof -
  have "prefix (events_of a r) (events_of c r)" for r
    using assms prefix_order.trans[of "events_of a r" "events_of b r" "events_of c r"] by (simp add: grows_def)
  then show ?thesis using assms by (simp add: grows_def)
qed

lemma grows_mono: "grows S L a b \<Longrightarrow> S \<subseteq> T \<Longrightarrow> grows T L a b"
  unfolding grows_def by blast

lemma grows_view: "grows S L db db' \<Longrightarrow> r \<notin> S \<Longrightarrow> view db' r = view db r"
  by (simp add: grows_def view_def status_of_def trace_of_def requests_of_def)

lemma grows_run_exists: "grows S L db db' \<Longrightarrow> run_exists db' r = run_exists db r"
proof -
  assume "grows S L db db'"
  then have "map fst (map run_ident (db_runs db')) = map fst (map run_ident (db_runs db))"
    by (simp add: grows_def)
  then have "map rn_id (db_runs db') = map rn_id (db_runs db)" by (simp add: o_def run_ident_def)
  then have "rn_id ` set (db_runs db') = rn_id ` set (db_runs db)" by (metis list.set_map)
  moreover have "run_exists d r \<longleftrightarrow> r \<in> rn_id ` set (db_runs d)" for d by (auto simp: run_exists_def)
  ultimately show ?thesis by simp
qed

text \<open>
  \<open>moves L rid db db' v\<close>: the run \<open>rid\<close> ends up looking like \<open>v\<close>, the requests \<open>L\<close> are new and
  nothing else changes.
\<close>

definition moves ::
  "(pystr \<times> pystr \<times> pystr \<times> pystr \<times> pystr) list \<Rightarrow> pystr \<Rightarrow> database \<Rightarrow> database \<Rightarrow>
   run_state option \<times> tool_fact list \<times> request list \<Rightarrow> bool" where
  "moves L rid db db' v \<longleftrightarrow> grows {rid} L db db' \<and> view db' rid = v"

abbreviation quietly :: "pystr \<Rightarrow> database \<Rightarrow> database \<Rightarrow> bool" where
  "quietly rid db db' \<equiv> moves [] rid db db' (view db rid)"

lemma moves_refl [simp, intro]: "quietly rid db db"
  by (simp add: moves_def)

lemma moves_trans: "moves L rid a b v \<Longrightarrow> moves M rid b c w \<Longrightarrow> moves (L @ M) rid a c w"
  by (auto simp: moves_def intro: grows_trans)

lemma moves_view: "moves L rid a b v \<Longrightarrow> view b rid = v"
  by (simp add: moves_def)

lemma moves_quietly: "moves L rid a b v \<Longrightarrow> quietly rid b c \<Longrightarrow> moves L rid a c v"
  using moves_trans[of L rid a b v "[]" c "view b rid"] by (simp add: moves_def)

lemma quietly_moves: "quietly rid a b \<Longrightarrow> moves L rid b c v \<Longrightarrow> moves L rid a c v"
  using moves_trans[of "[]" rid a b "view a rid" L c v] by simp

lemma moves_status: "moves L rid a b (s, tr, qs) \<Longrightarrow> status_of b rid = s"
  "moves L rid a b (s, tr, qs) \<Longrightarrow> trace_of b rid = tr"
  "moves L rid a b (s, tr, qs) \<Longrightarrow> requests_of b rid = qs"
  by (simp_all add: moves_def view_def)

lemma view_parts: "view db rid = (status_of db rid, trace_of db rid, requests_of db rid)"
  by (simp add: view_def)

subsection \<open>Appending\<close>

definition stamped :: "nat \<Rightarrow> pystr \<Rightarrow> nat \<Rightarrow> event_row \<Rightarrow> event_row" where
  "stamped now rid n e = e\<lparr>ev_sequence_number := n, ev_created_at := int now, er_run_id := rid\<rparr>"

lemma stamped_simps [simp]:
  "er_run_id (stamped now rid n e) = rid" "ev_sequence_number (stamped now rid n e) = n"
  "fact_of (stamped now rid n e) = fact_of e" "ev_event_type (stamped now rid n e) = ev_event_type e"
  "ev_tool_name (stamped now rid n e) = ev_tool_name e"
  "ev_correlation_id (stamped now rid n e) = ev_correlation_id e"
  "ev_redacted_payload (stamped now rid n e) = ev_redacted_payload e"
  by (simp_all add: stamped_def fact_of_def)

lemma append_event_Inr:
  "append_event now rid e db = Inr db' \<longleftrightarrow>
     run_exists db rid \<and> db' = db\<lparr>db_events := db_events db @ [stamped now rid (next_sequence db rid) e]\<rparr>"
  by (auto simp: append_event_def stamped_def)

lemma events_of_append [simp]:
  "events_of (db\<lparr>db_events := db_events db @ es\<rparr>) r = events_of db r @ filter (\<lambda>e. er_run_id e = r) es"
  by (simp add: events_of_def)

lemma events_of_other [simp]:
  "events_of (db\<lparr>db_runs := x1\<rparr>) r = events_of db r" "events_of (db\<lparr>db_confirmations := x2\<rparr>) r = events_of db r"
  "events_of (db\<lparr>db_guidance := x3\<rparr>) r = events_of db r" "events_of (db\<lparr>db_snapshots := x4\<rparr>) r = events_of db r"
  "events_of (db\<lparr>db_findings := x5\<rparr>) r = events_of db r" "events_of (db\<lparr>db_workspaces := x6\<rparr>) r = events_of db r"
  "events_of (db\<lparr>db_artifacts := x7\<rparr>) r = events_of db r"
  by (simp_all add: events_of_def)

lemma append_event_grows:
  assumes "append_event now rid e db = Inr db'"
    and n: "fact_of e \<noteq> None \<longrightarrow> ev_correlation_id e \<noteq> None \<and> ev_tool_name e \<noteq> None"
  shows "grows {rid} [] db db'"
proof -
  have d: "db' = db\<lparr>db_events := db_events db @ [stamped now rid (next_sequence db rid) e]\<rparr>"
    using assms(1) by (simp add: append_event_Inr)
  have "numbered db'" if n: "numbered db"
  proof (unfold numbered_def, rule allI)
    fix r
    show "consecutive (events_of db' r)"
    proof (cases "r = rid")
      case True
      have "next_sequence db rid = Suc (length (events_of db rid))"
        using n by (simp add: consecutive_next numbered_def)
      then show ?thesis using n True by (simp add: d numbered_def consecutive_def)
    next
      case False
      then show ?thesis using n by (simp add: d numbered_def)
    qed
  qed
  moreover have "facts_named db'" if "facts_named db" using that n by (auto simp: facts_named_def d)
  moreover have "homed db'" if "homed db"
    using that assms(1) by (auto simp: homed_def d append_event_Inr run_exists_def)
  ultimately show ?thesis by (auto simp: grows_def d rows_of_def confirmations_of_def request_idents_def)
qed

lemma append_event_trace:
  "append_event now rid e db = Inr db' \<Longrightarrow> trace_of db' rid = trace_of db rid @ facts [e]"
  by (simp add: append_event_Inr trace_of_def facts_Cons)

lemma append_event_rest:
  "append_event now rid e db = Inr db' \<Longrightarrow> db_runs db' = db_runs db \<and> db_confirmations db' = db_confirmations db \<and>
    db_contracts db' = db_contracts db \<and> db_workspaces db' = db_workspaces db \<and> db_guidance db' = db_guidance db"
  by (auto simp: append_event_Inr)

lemma append_event_view:
  "append_event now rid e db = Inr db' \<Longrightarrow>
   fact_of e \<noteq> None \<longrightarrow> ev_correlation_id e \<noteq> None \<and> ev_tool_name e \<noteq> None \<Longrightarrow>
   moves [] rid db db' (status_of db rid, trace_of db rid @ facts [e], requests_of db rid)"
  using append_event_grows append_event_trace append_event_rest
  by (auto simp: moves_def view_def status_of_def rows_of_def requests_of_def confirmations_of_def)

text \<open>An event that is no tool fact leaves the view as it is.\<close>

lemma append_quiet:
  "append_event now rid e db = Inr db' \<Longrightarrow> fact_of e = None \<Longrightarrow> quietly rid db db'"
  using append_event_view by (fastforce simp: facts_Cons view_def)

lemma append_fact:
  "append_event now rid e db = Inr db' \<Longrightarrow> fact_of e = Some f \<Longrightarrow>
   ev_correlation_id e = Some c \<Longrightarrow> ev_tool_name e = Some t \<Longrightarrow>
   moves [] rid db db' (status_of db rid, trace_of db rid @ [f], requests_of db rid)"
  using append_event_view by (fastforce simp: facts_Cons)

lemma append_events_quiet:
  "append_events now rid es db = Inr db' \<Longrightarrow> \<forall>e\<in>set es. fact_of e = None \<Longrightarrow> quietly rid db db'"
proof (induction es arbitrary: db)
  case (Cons e es)
  then obtain db1 where d: "append_event now rid e db = Inr db1" "append_events now rid es db1 = Inr db'"
    by (auto simp: bind_result_Inr)
  have "quietly rid db db1" using append_quiet[OF d(1)] Cons.prems(2) by simp
  moreover have "quietly rid db1 db'" using Cons.IH[OF d(2)] Cons.prems(2) by simp
  ultimately show ?case by (rule moves_quietly)
qed auto

lemma fact_of_draft:
  "fact_of e = None" if "ev_event_type e \<in>
    {Ev_RunArmed, Ev_GuidanceTransitioned, Ev_SnapshotCaptured, Ev_ConfirmationRequested, Ev_ConfirmationDenied,
     Ev_ConfirmationExpired, Ev_ConfirmationCancelled, Ev_VerificationStarted, Ev_AssertionEvaluated,
     Ev_PolicyEvaluated, Ev_VerificationCompleted, Ev_RunCancelled, Ev_ResourceLimitExceeded,
     Ev_ToolSurfaceCaptured, Ev_ToolSurfaceChanged, Ev_ToolIdentityMismatch}"
  using that by (auto simp: fact_of_def)

lemma draft_event_type [simp]: "ev_event_type (draft_event t a) = t"
  by (simp add: draft_event_def)

subsection \<open>Row updates that are no event\<close>

text \<open>Tables the view does not read\<close>

lemma moves_other_tables:
  assumes "db_runs db' = db_runs db" "db_contracts db' = db_contracts db" "db_events db' = db_events db"
    "db_confirmations db' = db_confirmations db"
  shows "quietly rid db db'"
  using assms
  by (auto simp: moves_def grows_def view_def status_of_def rows_of_def trace_of_def requests_of_def
      confirmations_of_def events_of_def numbered_def request_idents_def facts_named_def
      homed_def run_exists_def)

lemma guidance_transition_view:
  assumes "guidance_transition now gid ws g (Some rid) db = Inr db'"
  shows "quietly rid db db'"
proof (cases "db' = db")
  case False
  then have "append_guidance now gid ws g (Some rid) db = Inr db'"
    using assms by (auto simp: guidance_transition_def split: option.splits if_splits)
  then obtain db1 e where d: "append_event now rid e db1 = Inr db'" "fact_of e = None"
    "db_runs db1 = db_runs db" "db_contracts db1 = db_contracts db" "db_events db1 = db_events db"
    "db_confirmations db1 = db_confirmations db"
    by (auto simp: append_guidance_def Let_def fact_of_draft)
  have "quietly rid db db1" using d by (intro moves_other_tables)
  moreover have "quietly rid db1 db'" using append_quiet d by blast
  ultimately show ?thesis by (rule moves_quietly)
qed auto

text \<open>One run's row, by a change that keeps its identity\<close>

lemma rows_of_map:
  assumes "\<And>r. rn_id (f r) = rn_id r"
  shows "rows_of (db\<lparr>db_runs := map f (db_runs db)\<rparr>) rid = map f (rows_of db rid)"
  using assms by (simp add: rows_of_def filter_map o_def)

lemma run_update_view:
  assumes "\<And>r. run_ident (f r) = run_ident r" "\<And>r. rn_id r \<noteq> rid \<Longrightarrow> f r = r"
  shows "moves [] rid db (db\<lparr>db_runs := map f (db_runs db)\<rparr>)
    (status_of (db\<lparr>db_runs := map f (db_runs db)\<rparr>) rid, trace_of db rid, requests_of db rid)"
proof -
  have i: "rn_id (f r) = rn_id r" for r using assms(1)[of r] by (simp add: run_ident_def)
  have "rows_of (db\<lparr>db_runs := map f (db_runs db)\<rparr>) r = rows_of db r" if "r \<noteq> rid" for r
    using assms(2) that unfolding rows_of_map[OF i] by (intro map_idI) (auto simp: rows_of_def)
  moreover have "homed (db\<lparr>db_runs := map f (db_runs db)\<rparr>)" if "homed db"
    using that i by (auto simp: homed_def run_exists_def)
  ultimately show ?thesis
    by (auto simp: moves_def grows_def view_def trace_of_def requests_of_def confirmations_of_def o_def assms(1)
        numbered_def request_idents_def facts_named_def)
qed

definition ids_ok :: "database \<Rightarrow> bool" where
  "ids_ok db \<longleftrightarrow> distinct (map rn_id (db_runs db))"

lemma grows_ids_ok: "grows S L db db' \<Longrightarrow> ids_ok db' = ids_ok db"
proof -
  assume "grows S L db db'"
  then have "map fst (map run_ident (db_runs db')) = map fst (map run_ident (db_runs db))"
    by (simp add: grows_def)
  then show ?thesis by (simp add: ids_ok_def o_def run_ident_def)
qed

lemma ids_ok_unique:
  "ids_ok db \<Longrightarrow> x \<in> set (db_runs db) \<Longrightarrow> y \<in> set (db_runs db) \<Longrightarrow> rn_id x = rn_id y \<Longrightarrow> x = y"
  by (auto simp: ids_ok_def distinct_map dest: inj_onD)

lemma rows_of_single:
  assumes "ids_ok db" "r \<in> set (db_runs db)"
  shows "rows_of db (rn_id r) = [r]"
proof -
  have "distinct (filter (\<lambda>x. rn_id x = rn_id r) (db_runs db))"
    using assms(1) by (simp add: ids_ok_def distinct_map)
  moreover have "set (filter (\<lambda>x. rn_id x = rn_id r) (db_runs db)) = {r}"
    using assms by (auto simp: ids_ok_def distinct_map dest: inj_onD)
  ultimately have "distinct (rows_of db (rn_id r))" "set (rows_of db (rn_id r)) = {r}"
    unfolding rows_of_def by simp_all
  then show ?thesis
    by (cases "rows_of db (rn_id r)"; cases "tl (rows_of db (rn_id r))") auto
qed

lemma find_run_Some:
  assumes "find_run db ws rid = Some r"
  shows "r \<in> set (db_runs db)" "rn_id r = rid" "rn_workspace_id r = ws"
  using assms by (auto simp: find_run_def find_Some_iff)

lemma find_run_rows:
  assumes "ids_ok db" "find_run db ws rid = Some r"
  shows "rows_of db rid = [r]"
  using rows_of_single[OF assms(1) find_run_Some(1)[OF assms(2)]] find_run_Some(2)[OF assms(2)] by simp

lemma find_run_status:
  "ids_ok db \<Longrightarrow> find_run db ws rid = Some r \<Longrightarrow> status_of db rid = Some (rn_status r)"
  by (simp add: status_of_def find_run_rows)

lemma set_run_status_view:
  assumes "ids_ok db" "find_run db ws rid = Some r"
  shows "moves [] rid db (set_run_status ws rid st db) (Some st, trace_of db rid, requests_of db rid)"
proof -
  let ?f = "\<lambda>r. if rn_id r = rid \<and> rn_workspace_id r = ws then r\<lparr>rn_status := st\<rparr> else r"
  have "rows_of (set_run_status ws rid st db) rid = map ?f [r]"
    unfolding set_run_status_def find_run_rows[OF assms, symmetric] by (rule rows_of_map) simp
  then have "status_of (set_run_status ws rid st db) rid = Some st"
    using find_run_Some[OF assms(2)] by (simp add: status_of_def)
  then show ?thesis
    using run_update_view[of ?f rid db] unfolding set_run_status_def by (auto simp: run_ident_def)
qed

lemma complete_run_view:
  assumes "ids_ok db" "find_run db ws rid = Some r"
  shows "moves [] rid db (complete_run now ws rid st db) (Some st, trace_of db rid, requests_of db rid)"
proof -
  let ?f = "\<lambda>r. if rn_id r = rid \<and> rn_workspace_id r = ws
    then r\<lparr>rn_status := st, rn_completed_at := Some (isoformat_z now)\<rparr> else r"
  have "rows_of (complete_run now ws rid st db) rid = map ?f [r]"
    unfolding complete_run_def find_run_rows[OF assms, symmetric] by (rule rows_of_map) simp
  then have "status_of (complete_run now ws rid st db) rid = Some st"
    using find_run_Some[OF assms(2)] by (simp add: status_of_def)
  then show ?thesis
    using run_update_view[of ?f rid db] unfolding complete_run_def by (auto simp: run_ident_def)
qed

lemma finish_run_view:
  assumes "ids_ok db" "find_run db ws rid = Some r" "finish_run now ws rid st res db = Inr db'"
  shows "moves [] rid db db' (Some st, trace_of db rid, requests_of db rid)" "rn_status r = Run_Verifying"
proof -
  let ?f = "\<lambda>r. if rn_id r = rid \<and> rn_workspace_id r = ws \<and> rn_status r = Run_Verifying
    then r\<lparr>rn_status := st, rn_completed_at := Some (isoformat_z now),
       rn_overall_result := (case res of None \<Rightarrow> rn_overall_result r | Some x \<Rightarrow> Some x)\<rparr> else r"
  have d: "db' = db\<lparr>db_runs := map ?f (db_runs db)\<rparr>"
    and "\<exists>r\<in>set (db_runs db). rn_id r = rid \<and> rn_workspace_id r = ws \<and> rn_status r = Run_Verifying"
    using assms(3) by (auto simp: finish_run_def split: if_splits)
  then obtain r' where r': "r' \<in> set (db_runs db)" "rn_id r' = rid" "rn_status r' = Run_Verifying" by blast
  then have "r' = r" using rows_of_single[OF assms(1) r'(1)] find_run_rows[OF assms(1,2)] by simp
  then show v: "rn_status r = Run_Verifying" using r' by simp
  have "rows_of db' rid = map ?f [r]"
    unfolding d find_run_rows[OF assms(1,2), symmetric] by (rule rows_of_map) simp
  then have "status_of db' rid = Some st" using find_run_Some[OF assms(2)] v by (simp add: status_of_def)
  then show "moves [] rid db db' (Some st, trace_of db rid, requests_of db rid)"
    using run_update_view[of ?f rid db] unfolding d by (auto simp: run_ident_def)
qed

text \<open>A run found before is still found after a change that keeps identities.\<close>

lemma grows_find_run:
  assumes "ids_ok db" "grows S L db db'" "find_run db ws rid = Some r"
  shows "\<exists>r'. find_run db' ws rid = Some r' \<and> run_ident r' = run_ident r"
proof -
  have m: "map run_ident (db_runs db') = map run_ident (db_runs db)" using assms(2) by (simp add: grows_def)
  have "run_ident r \<in> set (map run_ident (db_runs db'))"
    unfolding m using find_run_Some[OF assms(3)] by auto
  then obtain r1 where r1: "r1 \<in> set (db_runs db')" "run_ident r1 = run_ident r" by auto
  then have p: "rn_id r1 = rid" "rn_workspace_id r1 = ws" using find_run_Some[OF assms(3)] by (auto simp: run_ident_def)
  then obtain r2 where r2: "find_run db' ws rid = Some r2"
    using r1 by (cases "find_run db' ws rid") (auto simp: find_run_def find_None_iff)
  have "rows_of db' rid = [r1]" "rows_of db' rid = [r2]"
    using rows_of_single[OF _ r1(1)] find_run_rows[OF _ r2] grows_ids_ok[OF assms(2)] assms(1) p by simp_all
  then show ?thesis using r2 r1 by auto
qed

end
