(* ===== verification/Transactions.thy ===== *)
theory Transactions
  imports Views
begin

section \<open>What each transaction does to its run\<close>

text \<open>
  One lemma per transaction of the run services: what it requires of the run it acts on, what the
  run looks like afterwards, and that it stays within its frame. The refinement in the service
  theory reads these facts only, never the definitions.
\<close>

subsection \<open>A run owned by a workspace\<close>

definition owned :: "database \<Rightarrow> pystr \<Rightarrow> pystr \<Rightarrow> bool" where
  "owned db ws rid \<longleftrightarrow> find_run db ws rid \<noteq> None"

lemma owned_ident: "owned db ws rid \<longleftrightarrow> (\<exists>i\<in>set (map run_ident (db_runs db)). fst i = rid \<and> fst (snd i) = ws)"
  by (auto simp: owned_def find_run_def find_None_iff run_ident_def)

lemma owned_exists: "owned db ws rid \<Longrightarrow> run_exists db rid"
  by (auto simp: owned_ident run_exists_def run_ident_def)

lemma owned_grows: "grows S L db db' \<Longrightarrow> owned db' ws rid = owned db ws rid"
  by (simp add: grows_def owned_ident del: set_map)

lemma owned_moves: "moves L rid db db' v \<Longrightarrow> owned db' ws r = owned db ws r"
  by (auto simp: moves_def owned_grows)

lemma ids_ok_moves: "moves L rid db db' v \<Longrightarrow> ids_ok db' = ids_ok db"
  by (auto simp: moves_def grows_ids_ok)

lemma exists_status: "run_exists db rid \<longleftrightarrow> status_of db rid \<noteq> None"
proof -
  have "rows_of db rid = [] \<longleftrightarrow> \<not> run_exists db rid" by (auto simp: run_exists_def rows_of_def filter_empty_conv)
  then show ?thesis by (cases "rows_of db rid") (simp_all add: status_of_def)
qed

lemma scoped_run_Inr: "scoped_run db ws rid = Inr run \<longleftrightarrow> find_run db ws rid = Some run"
  by (auto simp: scoped_run_def split: option.splits)

lemma find_run_owned: "find_run db ws rid = Some run \<Longrightarrow> owned db ws rid"
  by (simp add: owned_def)

lemma status_moves:
  assumes "ids_ok db" "owned db ws rid"
  shows "moves [] rid db (set_run_status ws rid st db) (Some st, trace_of db rid, requests_of db rid)"
    and "moves [] rid db (complete_run now ws rid st db) (Some st, trace_of db rid, requests_of db rid)"
  using assms set_run_status_view complete_run_view unfolding owned_def by blast+

lemma transition_check_Inr: "transition_check s t = Inr u \<longleftrightarrow> t \<in> set (run_transitions s)"
  by (auto simp: transition_check_def validate_run_transition_iff[symmetric] split: sum.splits)

subsection \<open>Starting a call\<close>

lemma invocable_run_Inr:
  "invocable_run db ws rid = Inr run \<longleftrightarrow>
     find_run db ws rid = Some run \<and> rn_status run \<in> {Run_Armed, Run_Running}"
  by (cases "find_run db ws rid") (auto simp: invocable_run_def invocable_run_states_def scoped_run_def)

lemma trip_view:
  assumes "ids_ok db" "owned db ws rid" "trip_if_event_budget_exhausted now ws rid k db = Inr (refusal, db')"
  shows "(refusal = None \<and> db' = db) \<or>
    (refusal = Some Api_EventLimitExceeded \<and>
     moves [] rid db db' (Some Run_Error, trace_of db rid, requests_of db rid))"
proof -
  have m: "moves [] rid db (complete_run now ws rid Run_Error db) (Some Run_Error, trace_of db rid, requests_of db rid)"
    using status_moves(2)[OF assms(1,2)] .
  have "find_run db ws rid \<noteq> None" using assms(2) by (simp add: owned_def)
  then show ?thesis
    using assms(3) moves_quietly[OF m append_quiet]
    by (auto simp: trip_if_event_budget_exhausted_def bind_result_Inr fact_of_draft split: if_splits)
qed

lemma open_run_view:
  assumes "ids_ok db" "find_run db ws rid = Some run" "rn_status run \<in> {Run_Armed, Run_Running}"
    "open_run now gid ws run db = Inr db'"
  shows "moves [] rid db db' (Some Run_Running, trace_of db rid, requests_of db rid)"
proof (cases "rn_status run = Run_Armed")
  case True
  have i: "rn_id run = rid" using find_run_Some[OF assms(2)] by simp
  have m: "moves [] rid db (set_run_status ws rid Run_Running db) (Some Run_Running, trace_of db rid, requests_of db rid)"
    using status_moves(1)[OF assms(1) find_run_owned[OF assms(2)]] .
  show ?thesis using assms(4) True i moves_quietly[OF m guidance_transition_view]
    by (auto simp: open_run_def bind_result_Inr Let_def)
next
  case False
  then have "db' = db" "rn_status run = Run_Running" using assms(3,4) by (auto simp: open_run_def)
  then show ?thesis using find_run_status[OF assms(1,2)] moves_refl[of rid db] by (simp add: view_parts)
qed

text \<open>A new request\<close>

lemma open_confirmation_view:
  "moves [(cid, ws, rid, c, t)] rid db (open_confirmation now cid ws rid c t b a q x db)
     (status_of db rid, trace_of db rid,
      requests_of db rid @ [\<lparr>rq_id = cid, rq_corr = c, rq_tool = t, rq_status = Cf_Pending\<rparr>])"
  by (auto simp: moves_def grows_def view_def open_confirmation_def status_of_def rows_of_def trace_of_def
      requests_of_def confirmations_of_def request_of_def request_idents_def request_ident_def
      numbered_def facts_named_def homed_def run_exists_def)

lemma pause_view:
  assumes "ids_ok db" "owned db (cl_workspace cl) (cl_run cl)"
    "pause_invocation clock now gid cid cl vid request before h need db = Inr db'"
  shows "moves [(cid, cl_workspace cl, cl_run cl, vid, ts_name (cl_spec cl))] (cl_run cl) db db'
    (Some Run_AwaitingConfirmation, trace_of db (cl_run cl), requests_of db (cl_run cl) @
      [\<lparr>rq_id = cid, rq_corr = vid, rq_tool = ts_name (cl_spec cl), rq_status = Cf_Pending\<rparr>])"
proof -
  let ?rid = "cl_run cl"
  obtain ah db1 db3 where
    d1: "db1 = open_confirmation now cid (cl_workspace cl) ?rid vid (ts_name (cl_spec cl)) h ah
       (consequence_summary (ts_name (cl_spec cl)) (redact (Some (cl_policy cl)) (JObj (cl_arguments cl))) before
            (ts_effect_paths (cl_spec cl)) (Some (cl_policy cl))) (expiry_from clock need) db"
    and d3: "append_event now ?rid (requested_event cl vid request cid before h need (expiry_from clock need)
       (consequence_summary (ts_name (cl_spec cl)) (redact (Some (cl_policy cl)) (JObj (cl_arguments cl))) before
            (ts_effect_paths (cl_spec cl)) (Some (cl_policy cl))))
       (set_run_status (cl_workspace cl) ?rid Run_AwaitingConfirmation db1) = Inr db3"
    and d4: "guidance_transition now gid (cl_workspace cl) (current_guidance db3 (cl_workspace cl)) (Some ?rid) db3 = Inr db'"
    using assms(3) by (auto simp: pause_invocation_def bind_result_Inr Let_def)
  note m1 = open_confirmation_view[of cid "cl_workspace cl" ?rid vid "ts_name (cl_spec cl)" db now h ah
      "consequence_summary (ts_name (cl_spec cl)) (redact (Some (cl_policy cl)) (JObj (cl_arguments cl))) before
            (ts_effect_paths (cl_spec cl)) (Some (cl_policy cl))" "expiry_from clock need", folded d1]
  have m2: "moves [] ?rid db1 (set_run_status (cl_workspace cl) ?rid Run_AwaitingConfirmation db1)
    (Some Run_AwaitingConfirmation, trace_of db1 ?rid, requests_of db1 ?rid)"
    using assms(1,2) owned_moves[OF m1] ids_ok_moves[OF m1] by (intro status_moves) simp_all
  have "fact_of (requested_event cl vid request cid before h need (expiry_from clock need)
       (consequence_summary (ts_name (cl_spec cl)) (redact (Some (cl_policy cl)) (JObj (cl_arguments cl))) before
            (ts_effect_paths (cl_spec cl)) (Some (cl_policy cl)))) = None"
    by (simp add: requested_event_def fact_of_draft)
  from moves_quietly[OF moves_quietly[OF moves_trans[OF m1 m2] append_quiet[OF d3 this]] guidance_transition_view[OF d4]]
  show ?thesis using moves_status[OF m1] by simp
qed

text \<open>
  The transaction that starts a call: the run is moved to error by the ceiling, or left running by a
  tool whose definition changed, or the call is started and either dispatched or paused.
\<close>

lemma start_view:
  assumes ids: "ids_ok db"
    and tx: "start_invocation surface_of clock now gid gid' cid cl vid request before db = Inr (out, db')"
  shows "\<exists>s. s \<in> {Run_Armed, Run_Running} \<and> status_of db (cl_run cl) = Some s \<and>
    owned db (cl_workspace cl) (cl_run cl) \<and>
    (case out of
       StartRefused code \<Rightarrow>
         (\<exists>s'\<in>{Run_Error, Run_Running}.
            moves [] (cl_run cl) db db' (Some s', trace_of db (cl_run cl), requests_of db (cl_run cl)))
     | StartedAt n \<Rightarrow> cl_requirement cl = None \<and>
         moves [] (cl_run cl) db db' (Some Run_Running,
           trace_of db (cl_run cl) @ [Started (ts_name (cl_spec cl)) vid], requests_of db (cl_run cl))
     | PausedAt n i \<Rightarrow> cl_requirement cl \<noteq> None \<and> i = cid \<and>
         moves [(cid, cl_workspace cl, cl_run cl, vid, ts_name (cl_spec cl))] (cl_run cl) db db'
           (Some Run_AwaitingConfirmation, trace_of db (cl_run cl) @ [Started (ts_name (cl_spec cl)) vid],
            requests_of db (cl_run cl) @
              [\<lparr>rq_id = cid, rq_corr = vid, rq_tool = ts_name (cl_spec cl), rq_status = Cf_Pending\<rparr>]))"
proof -
  let ?rid = "cl_run cl" and ?ws = "cl_workspace cl" and ?t = "ts_name (cl_spec cl)"
  from tx obtain run where run: "find_run db ?ws ?rid = Some run" "rn_status run \<in> {Run_Armed, Run_Running}"
    by (auto simp: start_invocation_def bind_result_Inr invocable_run_Inr Let_def)
  have own: "owned db ?ws ?rid" using find_run_owned[OF run(1)] .
  have st: "status_of db ?rid = Some (rn_status run)" using find_run_status[OF ids run(1)] .
  from tx run obtain refusal db1 where trip:
      "trip_if_event_budget_exhausted now ?ws ?rid (cl_reservation cl) db = Inr (refusal, db1)"
    by (auto simp: start_invocation_def bind_result_Inr Let_def)
  show ?thesis
  proof (cases refusal)
    case (Some code)
    then have "out = StartRefused code" "db' = db1" using tx trip run
      by (auto simp: start_invocation_def bind_result_Inr Let_def invocable_run_Inr)
    then show ?thesis using trip_view[OF ids own trip] Some run st own by auto
  next
    case None
    then have d1: "db1 = db" using trip_view[OF ids own trip] by auto
    obtain db2 where d2: "open_run now gid ?ws run db = Inr db2"
      using tx trip None d1 run by (auto simp: start_invocation_def bind_result_Inr Let_def invocable_run_Inr)
    have m2: "moves [] ?rid db db2 (Some Run_Running, trace_of db ?rid, requests_of db ?rid)"
      using open_run_view[OF ids run d2] .
    obtain mismatch where mm: "identity_mismatch surface_of db2 ?rid ?t (cl_identity cl) = Inr mismatch"
      using tx trip None d1 d2 run by (auto simp: start_invocation_def bind_result_Inr Let_def invocable_run_Inr)
    show ?thesis
    proof (cases mismatch)
      case (Some payload)
      obtain db3 where d3: "append_event now ?rid (mismatch_event cl vid request payload) db2 = Inr db3"
          "out = StartRefused Api_ToolIdentityMismatch" "db' = db3"
        using tx trip None d1 d2 mm Some run
        by (auto simp: start_invocation_def bind_result_Inr Let_def invocable_run_Inr)
      have "fact_of (mismatch_event cl vid request payload) = None"
        by (simp add: mismatch_event_def fact_of_draft)
      then show ?thesis using moves_quietly[OF m2 append_quiet[OF d3(1)]] d3 run st own by auto
    next
      case none: None
      obtain h db3 where d3: "observation_hash before = Inr h"
          "append_event now ?rid (start_event cl vid request before h) db2 = Inr db3"
        and rest: "case cl_requirement cl of
             None \<Rightarrow> out = StartedAt (next_sequence db2 ?rid) \<and> db' = db3
           | Some need \<Rightarrow> (\<exists>db4. pause_invocation clock now gid' cid cl vid request before h need db3 = Inr db4 \<and>
               out = PausedAt (next_sequence db2 ?rid) cid \<and> db' = db4)"
        using tx trip None d1 d2 mm none run
        by (auto simp: start_invocation_def bind_result_Inr Let_def invocable_run_Inr split: option.splits)
      have "fact_of (start_event cl vid request before h) = Some (Started ?t vid)"
        by (simp add: start_event_def fact_of_def)
      then have "moves [] ?rid db2 db3 (status_of db2 ?rid, trace_of db2 ?rid @ [Started ?t vid], requests_of db2 ?rid)"
        by (intro append_fact[OF d3(2), of _ vid ?t]) (simp_all add: start_event_def)
      then have m3: "moves [] ?rid db db3
          (Some Run_Running, trace_of db ?rid @ [Started ?t vid], requests_of db ?rid)"
        using moves_trans[OF m2] moves_status[OF m2] by simp
      show ?thesis
      proof (cases "cl_requirement cl")
        case None
        then show ?thesis using rest m3 run st own by auto
      next
        case (Some need)
        then obtain db4 where d4: "pause_invocation clock now gid' cid cl vid request before h need db3 = Inr db4"
            "out = PausedAt (next_sequence db2 ?rid) cid" "db' = db4" using rest by auto
        have "moves [(cid, ?ws, ?rid, vid, ?t)] ?rid db3 db4
          (Some Run_AwaitingConfirmation, trace_of db3 ?rid, requests_of db3 ?rid @
            [\<lparr>rq_id = cid, rq_corr = vid, rq_tool = ?t, rq_status = Cf_Pending\<rparr>])"
          using pause_view[OF _ _ d4(1)] ids own owned_moves[OF m3] ids_ok_moves[OF m3] by simp
        then show ?thesis using moves_trans[OF m3] moves_status[OF m3] d4 Some run st own by auto
      qed
    qed
  qed
qed

subsection \<open>Requests are keyed\<close>

text \<open>
  Primary keys and foreign keys of the tables: run and request identifiers are unique, a request
  belongs to the workspace of its run.
\<close>

definition tied :: "database \<Rightarrow> bool" where
  "tied db \<longleftrightarrow> (\<forall>c\<in>set (db_confirmations db). owned db (cf_workspace_id c) (cf_run_id c))"

definition keyed :: "database \<Rightarrow> bool" where
  "keyed db \<longleftrightarrow> ids_ok db \<and> tied db \<and> distinct (map cf_id (db_confirmations db))"

lemma owned_unique: "ids_ok db \<Longrightarrow> owned db ws rid \<Longrightarrow> owned db ws' rid \<Longrightarrow> ws = ws'"
  using find_run_rows[of db ws rid] find_run_rows[of db ws' rid] find_run_Some(3)[of db ws rid]
    find_run_Some(3)[of db ws' rid] by (auto simp: owned_def)

lemma keyed_request:
  assumes "keyed db" "request_ident a \<in> set (request_idents db)"
  obtains c where "c \<in> set (db_confirmations db)" "request_ident c = request_ident a"
    "\<And>d. d \<in> set (db_confirmations db) \<Longrightarrow> cf_id d = cf_id a \<Longrightarrow> d = c"
    "owned db (cf_workspace_id a) (cf_run_id a)"
proof -
  obtain c where c: "c \<in> set (db_confirmations db)" "request_ident c = request_ident a"
    using assms(2) by (auto simp: request_idents_def)
  have "inj_on cf_id (set (db_confirmations db))" using assms(1) by (simp add: keyed_def distinct_map)
  then have "d = c" if "d \<in> set (db_confirmations db)" "cf_id d = cf_id a" for d
    using that c by (auto simp: request_ident_def inj_on_def)
  moreover have "owned db (cf_workspace_id a) (cf_run_id a)"
    using assms(1) c by (auto simp: keyed_def tied_def request_ident_def)
  ultimately show ?thesis using that c by blast
qed

lemma request_ident_iff:
  "request_ident c = request_ident a \<longleftrightarrow> cf_id c = cf_id a \<and> cf_workspace_id c = cf_workspace_id a \<and>
     cf_run_id c = cf_run_id a \<and> cf_correlation_id c = cf_correlation_id a \<and> cf_tool_name c = cf_tool_name a"
  by (auto simp: request_ident_def)

text \<open>The conditional update: it is won by whoever finds the request in the expected status.\<close>

lemma requests_of_map:
  assumes "\<And>c. request_ident (f c) = request_ident c"
  shows "requests_of (db\<lparr>db_confirmations := map f (db_confirmations db)\<rparr>) rid =
    map (\<lambda>c. request_of (f c)) (confirmations_of db rid)"
proof -
  have "cf_run_id (f c) = cf_run_id c" for c using assms[of c] by (simp add: request_ident_iff)
  then show ?thesis by (simp add: requests_of_def confirmations_of_def filter_map o_def)
qed

lemma confirmation_update_grows:
  assumes "\<And>c. request_ident (f c) = request_ident c"
    "\<And>c. c \<in> set (db_confirmations db) \<Longrightarrow> cf_run_id c \<notin> S \<Longrightarrow> f c = c"
  shows "grows S [] db (db\<lparr>db_confirmations := map f (db_confirmations db)\<rparr>)"
proof -
  have rid: "cf_run_id (f c) = cf_run_id c" for c using assms(1)[of c] by (simp add: request_ident_iff)
  have "confirmations_of (db\<lparr>db_confirmations := map f (db_confirmations db)\<rparr>) r = confirmations_of db r"
    if "r \<notin> S" for r
    using assms(2) that by (simp add: confirmations_of_def filter_map o_def rid) (auto intro: map_idI)
  then show ?thesis
    using assms(1) by (simp add: grows_def rows_of_def request_idents_def o_def numbered_def facts_named_def
        homed_def run_exists_def)
qed

lemma won_view:
  assumes k: "keyed db" "request_ident a \<in> set (request_idents db)"
    and change: "\<And>c. request_ident (change c) = request_ident c" "\<And>c. cf_status (change c) = new"
    and tx: "update_confirmation (cf_workspace_id a) (cf_id a) old change db = (True, db')"
  shows "moves [] (cf_run_id a) db db'
      (status_of db (cf_run_id a), trace_of db (cf_run_id a),
       set_request (cf_id a) old new (requests_of db (cf_run_id a)))"
    and "\<lparr>rq_id = cf_id a, rq_corr = cf_correlation_id a, rq_tool = cf_tool_name a, rq_status = old\<rparr>
      \<in> set (requests_of db (cf_run_id a))"
    and "owned db (cf_workspace_id a) (cf_run_id a)"
proof -
  let ?hit = "\<lambda>c. cf_id c = cf_id a \<and> cf_workspace_id c = cf_workspace_id a \<and> cf_status c = old"
  let ?f = "\<lambda>c. if ?hit c then change c else c"
  obtain c where c: "c \<in> set (db_confirmations db)" "request_ident c = request_ident a"
    "\<And>d. d \<in> set (db_confirmations db) \<Longrightarrow> cf_id d = cf_id a \<Longrightarrow> d = c"
    and own: "owned db (cf_workspace_id a) (cf_run_id a)"
    using keyed_request[OF k] by blast
  show "owned db (cf_workspace_id a) (cf_run_id a)" by (rule own)
  have d: "db' = db\<lparr>db_confirmations := map ?f (db_confirmations db)\<rparr>"
    and one: "length (filter ?hit (db_confirmations db)) = 1"
    using tx by (auto simp: update_confirmation_def)
  then have "filter ?hit (db_confirmations db) \<noteq> []" by auto
  then have old: "cf_status c = old" using c(3) by (auto simp: filter_empty_conv)
  have "c \<in> set (confirmations_of db (cf_run_id a))"
    using c(1,2) by (simp add: confirmations_of_def request_ident_iff)
  then have "request_of c \<in> set (requests_of db (cf_run_id a))" by (simp add: requests_of_def)
  then show "\<lparr>rq_id = cf_id a, rq_corr = cf_correlation_id a, rq_tool = cf_tool_name a, rq_status = old\<rparr>
      \<in> set (requests_of db (cf_run_id a))"
    using c(2) old by (simp add: request_of_def request_ident_iff)
  have i: "request_ident (?f c) = request_ident c" for c using change(1) by simp
  have "cf_run_id x = cf_run_id a" if "x \<in> set (db_confirmations db)" "?hit x" for x
    using c(2) c(3)[of x] that by (simp add: request_ident_iff)
  then have g: "grows {cf_run_id a} [] db db'"
    unfolding d by (intro confirmation_update_grows) (use i in auto)
  have ws: "cf_workspace_id x = cf_workspace_id a"
    if "x \<in> set (confirmations_of db (cf_run_id a))" "cf_id x = cf_id a" for x
    using c(2) c(3)[of x] that by (simp add: confirmations_of_def request_ident_iff)
  have "requests_of db' (cf_run_id a) = set_request (cf_id a) old new (requests_of db (cf_run_id a))"
    unfolding d requests_of_map[of ?f, OF i] unfolding set_request_def requests_of_def map_map
    using ws change by (intro map_cong) (auto simp: request_of_def request_ident_iff)
  moreover have "status_of db' (cf_run_id a) = status_of db (cf_run_id a)" "trace_of db' (cf_run_id a) = trace_of db (cf_run_id a)"
    by (simp_all add: d status_of_def rows_of_def trace_of_def)
  ultimately show "moves [] (cf_run_id a) db db'
      (status_of db (cf_run_id a), trace_of db (cf_run_id a),
       set_request (cf_id a) old new (requests_of db (cf_run_id a)))"
    using g by (simp add: moves_def view_def)
qed

lemma claim_view:
  assumes k: "keyed db" "request_ident a \<in> set (request_idents db)"
    and tx: "claim_approval now (cf_workspace_id a) a db = Inr db'"
  shows "moves [] (cf_run_id a) db db'
      (status_of db (cf_run_id a), trace_of db (cf_run_id a),
       set_request (cf_id a) Cf_Approved Cf_Consumed (requests_of db (cf_run_id a)))"
    and "\<lparr>rq_id = cf_id a, rq_corr = cf_correlation_id a, rq_tool = cf_tool_name a, rq_status = Cf_Approved\<rparr>
      \<in> set (requests_of db (cf_run_id a))"
proof -
  have u: "update_confirmation (cf_workspace_id a) (cf_id a) Cf_Approved
      (\<lambda>c. c\<lparr>cf_status := Cf_Consumed, cf_consumed_at := Some (isoformat_z now)\<rparr>) db = (True, db')"
    using tx by (auto simp: claim_approval_def claim_approved_def split: prod.splits if_splits)
  show "moves [] (cf_run_id a) db db'
      (status_of db (cf_run_id a), trace_of db (cf_run_id a),
       set_request (cf_id a) Cf_Approved Cf_Consumed (requests_of db (cf_run_id a)))"
    by (rule won_view(1)[OF k _ _ u]) (simp_all add: request_ident_def)
  show "\<lparr>rq_id = cf_id a, rq_corr = cf_correlation_id a, rq_tool = cf_tool_name a, rq_status = Cf_Approved\<rparr>
      \<in> set (requests_of db (cf_run_id a))"
    by (rule won_view(2)[OF k _ _ u, of Cf_Consumed]) (simp_all add: request_ident_def)
qed

lemma stale_view:
  assumes k: "keyed db" "request_ident a \<in> set (request_idents db)"
    and tx: "stale_approval now (cf_workspace_id a) (cf_run_id a) a before db = Inr db'"
  shows "moves [] (cf_run_id a) db db'
      (status_of db (cf_run_id a), trace_of db (cf_run_id a),
       set_request (cf_id a) Cf_Approved Cf_Cancelled (requests_of db (cf_run_id a)))"
    and "\<lparr>rq_id = cf_id a, rq_corr = cf_correlation_id a, rq_tool = cf_tool_name a, rq_status = Cf_Approved\<rparr>
      \<in> set (requests_of db (cf_run_id a))"
proof -
  let ?ch = "\<lambda>c. c\<lparr>cf_status := Cf_Cancelled, cf_decided_at := Some (isoformat_z now)\<rparr>"
  obtain db1 e where u: "update_confirmation (cf_workspace_id a) (cf_id a) Cf_Approved ?ch db = (True, db1)"
    and e: "append_event now (cf_run_id a) e db1 = Inr db'" "fact_of e = None"
    using tx by (auto simp: stale_approval_def bind_result_Inr fact_of_draft split: prod.splits if_splits)
  have "moves [] (cf_run_id a) db db1
      (status_of db (cf_run_id a), trace_of db (cf_run_id a),
       set_request (cf_id a) Cf_Approved Cf_Cancelled (requests_of db (cf_run_id a)))"
    by (rule won_view(1)[OF k _ _ u]) (simp_all add: request_ident_def)
  then show "moves [] (cf_run_id a) db db'
      (status_of db (cf_run_id a), trace_of db (cf_run_id a),
       set_request (cf_id a) Cf_Approved Cf_Cancelled (requests_of db (cf_run_id a)))"
    by (rule moves_quietly) (rule append_quiet[OF e])
  show "\<lparr>rq_id = cf_id a, rq_corr = cf_correlation_id a, rq_tool = cf_tool_name a, rq_status = Cf_Approved\<rparr>
      \<in> set (requests_of db (cf_run_id a))"
    by (rule won_view(2)[OF k _ _ u, of Cf_Cancelled]) (simp_all add: request_ident_def)
qed

subsection \<open>Decisions\<close>

lemma find_filter: "find P xs = (case filter P xs of [] \<Rightarrow> None | x # _ \<Rightarrow> Some x)"
  by (induction xs) auto

lemma release_view:
  assumes "ids_ok db" "owned db ws rid" "status_of db rid = Some s" "release_run ws rid db = Inr db'"
  shows "moves [] rid db db' (Some (released s), trace_of db rid, requests_of db rid)"
proof -
  obtain run where run: "find_run db ws rid = Some run" using assms(2) by (auto simp: owned_def)
  have "find (\<lambda>r. rn_id r = rid) (db_runs db) = Some run"
    using find_run_rows[OF assms(1) run] unfolding find_filter rows_of_def by simp
  moreover have "s = rn_status run" using find_run_status[OF assms(1) run] assms(3) by simp
  ultimately show ?thesis
    using assms(3,4) status_moves(1)[OF assms(1,2), of Run_Running] moves_refl[of rid db]
    by (auto simp: release_run_def bind_result_Inr released_def view_parts split: if_splits)
qed

lemma record_decision_quiet:
  assumes "record_decision now rid a event st db = Inr db'"
    "event \<in> {Ev_ConfirmationDenied, Ev_ConfirmationCancelled, Ev_ConfirmationExpired}"
  shows "quietly rid db db'"
  using assms append_quiet by (auto simp: record_decision_def fact_of_draft)

lemma record_approval:
  assumes "record_decision now rid a Ev_ConfirmationApproved st db = Inr db'"
  shows "moves [] rid db db' (status_of db rid,
     trace_of db rid @ [Approved (cf_tool_name a) (cf_correlation_id a)], requests_of db rid)"
  by (rule append_fact[OF assms[unfolded record_decision_def]]) (simp_all add: fact_of_def)

lemma refuse_view:
  assumes k: "keyed db" "request_ident a \<in> set (request_idents db)"
    and s: "status_of db (cf_run_id a) = Some s"
    and event: "event \<in> {Ev_ConfirmationDenied, Ev_ConfirmationCancelled, Ev_ConfirmationExpired}"
    and tx: "refuse_request now gid (cf_workspace_id a) (cf_run_id a) a st event db = Inr db'"
  shows "moves [] (cf_run_id a) db db'
      (Some (released s), trace_of db (cf_run_id a) @ [Aborted (cf_tool_name a) (cf_correlation_id a)],
       set_request (cf_id a) Cf_Pending st (requests_of db (cf_run_id a)))"
    and "\<lparr>rq_id = cf_id a, rq_corr = cf_correlation_id a, rq_tool = cf_tool_name a, rq_status = Cf_Pending\<rparr>
      \<in> set (requests_of db (cf_run_id a))"
proof -
  let ?rid = "cf_run_id a" and ?ws = "cf_workspace_id a"
  let ?ch = "\<lambda>c. c\<lparr>cf_status := st, cf_decided_at := Some (isoformat_z now)\<rparr>"
  obtain db1 db2 db3 db4 e where u: "update_confirmation ?ws (cf_id a) Cf_Pending ?ch db = (True, db1)"
    and d2: "record_decision now ?rid a event st db1 = Inr db2"
    and d3: "release_run ?ws ?rid db2 = Inr db3"
    and d4: "append_event now ?rid e db3 = Inr db4" "fact_of e = Some (Aborted (cf_tool_name a) (cf_correlation_id a))"
      "ev_correlation_id e = Some (cf_correlation_id a)" "ev_tool_name e = Some (cf_tool_name a)"
    and d5: "guidance_transition now gid ?ws (current_guidance db4 ?ws) (Some ?rid) db4 = Inr db'"
    using tx by (auto simp: refuse_request_def mark_confirmation_def bind_result_Inr fact_of_def
        split: prod.splits if_splits)
  have m1: "moves [] ?rid db db1 (status_of db ?rid, trace_of db ?rid,
       set_request (cf_id a) Cf_Pending st (requests_of db ?rid))"
    by (rule won_view(1)[OF k _ _ u]) (simp_all add: request_ident_def)
  have own: "owned db ?ws ?rid"
    by (rule won_view(3)[OF k _ _ u, of st]) (simp_all add: request_ident_def)
  have m2: "moves [] ?rid db db2 (status_of db ?rid, trace_of db ?rid,
       set_request (cf_id a) Cf_Pending st (requests_of db ?rid))"
    using moves_quietly[OF m1 record_decision_quiet[OF d2 event]] .
  have "moves [] ?rid db2 db3 (Some (released s), trace_of db2 ?rid, requests_of db2 ?rid)"
    using k(1) own owned_moves[OF m2] ids_ok_moves[OF m2] moves_status(1)[OF m2] s
    by (intro release_view[OF _ _ _ d3]) (simp_all add: keyed_def)
  from moves_trans[OF m2 this] have m3: "moves [] ?rid db db3 (Some (released s), trace_of db ?rid,
       set_request (cf_id a) Cf_Pending st (requests_of db ?rid))"
    using moves_status[OF m2] by simp
  from moves_trans[OF m3 append_fact[OF d4]] moves_quietly[OF _ guidance_transition_view[OF d5]]
  show "moves [] ?rid db db' (Some (released s), trace_of db ?rid @ [Aborted (cf_tool_name a) (cf_correlation_id a)],
       set_request (cf_id a) Cf_Pending st (requests_of db ?rid))"
    using moves_status[OF m3] by simp
  show "\<lparr>rq_id = cf_id a, rq_corr = cf_correlation_id a, rq_tool = cf_tool_name a, rq_status = Cf_Pending\<rparr>
      \<in> set (requests_of db (cf_run_id a))"
    by (rule won_view(2)[OF k _ _ u, of st]) (simp_all add: request_ident_def)
qed

lemma approve_view:
  assumes k: "keyed db" "request_ident a \<in> set (request_idents db)"
    and s: "status_of db (cf_run_id a) = Some s"
    and tx: "approve_request now gid (cf_workspace_id a) (cf_run_id a) a db = Inr db'"
  shows "moves [] (cf_run_id a) db db'
      (Some (released s), trace_of db (cf_run_id a) @ [Approved (cf_tool_name a) (cf_correlation_id a)],
       set_request (cf_id a) Cf_Pending Cf_Approved (requests_of db (cf_run_id a)))"
    and "\<lparr>rq_id = cf_id a, rq_corr = cf_correlation_id a, rq_tool = cf_tool_name a, rq_status = Cf_Pending\<rparr>
      \<in> set (requests_of db (cf_run_id a))"
proof -
  let ?rid = "cf_run_id a" and ?ws = "cf_workspace_id a"
  let ?ch = "\<lambda>c. c\<lparr>cf_status := Cf_Approved, cf_decided_at := Some (isoformat_z now)\<rparr>"
  obtain db1 db2 db3 where u: "update_confirmation ?ws (cf_id a) Cf_Pending ?ch db = (True, db1)"
    and d2: "record_decision now ?rid a Ev_ConfirmationApproved Cf_Approved db1 = Inr db2"
    and d3: "release_run ?ws ?rid db2 = Inr db3"
    and d5: "guidance_transition now gid ?ws (current_guidance db3 ?ws) (Some ?rid) db3 = Inr db'"
    using tx by (auto simp: approve_request_def mark_confirmation_def bind_result_Inr split: prod.splits if_splits)
  have m1: "moves [] ?rid db db1 (status_of db ?rid, trace_of db ?rid,
       set_request (cf_id a) Cf_Pending Cf_Approved (requests_of db ?rid))"
    by (rule won_view(1)[OF k _ _ u]) (simp_all add: request_ident_def)
  have own: "owned db ?ws ?rid"
    by (rule won_view(3)[OF k _ _ u, of Cf_Approved]) (simp_all add: request_ident_def)
  have m2: "moves [] ?rid db db2 (status_of db ?rid,
       trace_of db ?rid @ [Approved (cf_tool_name a) (cf_correlation_id a)],
       set_request (cf_id a) Cf_Pending Cf_Approved (requests_of db ?rid))"
    using moves_trans[OF m1 record_approval[OF d2]] moves_status[OF m1] by simp
  have "moves [] ?rid db2 db3 (Some (released s), trace_of db2 ?rid, requests_of db2 ?rid)"
    using k(1) own owned_moves[OF m2] ids_ok_moves[OF m2] moves_status(1)[OF m2] s
    by (intro release_view[OF _ _ _ d3]) (simp_all add: keyed_def)
  from moves_trans[OF m2 this] moves_quietly[OF _ guidance_transition_view[OF d5]]
  show "moves [] ?rid db db' (Some (released s), trace_of db ?rid @ [Approved (cf_tool_name a) (cf_correlation_id a)],
       set_request (cf_id a) Cf_Pending Cf_Approved (requests_of db ?rid))"
    using moves_status[OF m2] by simp
  show "\<lparr>rq_id = cf_id a, rq_corr = cf_correlation_id a, rq_tool = cf_tool_name a, rq_status = Cf_Pending\<rparr>
      \<in> set (requests_of db (cf_run_id a))"
    by (rule won_view(2)[OF k _ _ u, of Cf_Approved]) (simp_all add: request_ident_def)
qed

subsection \<open>Terminating\<close>

lemma terminal_type_cases:
  assumes "\<forall>r. result = Some r \<longrightarrow> tx_terminal_event r \<in> set terminal_invocation_events"
  shows "terminal_type result \<in> {Ev_ToolInvocationCompleted, Ev_ToolInvocationFailed, Ev_ToolInvocationCancelled}"
  using assms by (cases result) (auto simp: terminal_type_def terminal_invocation_events_def)

lemma terminate_view:
  assumes "\<forall>r. result = Some r \<longrightarrow> tx_terminal_event r \<in> set terminal_invocation_events"
    and "terminate_invocation now cl vid c request n before after result failure duration db = Inr db'"
  shows "\<exists>f\<in>{Completed (ts_name (cl_spec cl)) c, Aborted (ts_name (cl_spec cl)) c}.
    moves [] (cl_run cl) db db' (status_of db (cl_run cl), trace_of db (cl_run cl) @ [f], requests_of db (cl_run cl))"
proof -
  obtain hb ha where a: "append_event now (cl_run cl)
      (terminal_event cl vid c request n before hb after ha result failure duration) db = Inr db'"
    using assms(2) by (auto simp: terminate_invocation_def bind_result_Inr)
  let ?e = "terminal_event cl vid c request n before hb after ha result failure duration"
  obtain f where f: "fact_of ?e = Some f" "f \<in> {Completed (ts_name (cl_spec cl)) c, Aborted (ts_name (cl_spec cl)) c}"
    using terminal_type_cases[OF assms(1)] by (auto simp: terminal_event_def fact_of_def)
  have "ev_correlation_id ?e = Some c" "ev_tool_name ?e = Some (ts_name (cl_spec cl))"
    by (simp_all add: terminal_event_def)
  from append_fact[OF a f(1) this] f(2) show ?thesis by blast
qed

end
