(* ===== verification/Closings.thy ===== *)
theory Closings
  imports Transactions
begin

section \<open>What opening and closing transactions do\<close>

text \<open>
  The remaining transactions of a run: verification's two, reset and purge, surface captures,
  arming and selection. Reset touches every run of its workspace, so its frame is a set; arming and
  purging change which runs exist, so theirs are stated with the new list of runs.
\<close>

subsection \<open>Verification\<close>

text \<open>The gate: what it refuses is exactly an unsettled run.\<close>

lemma not_in_flight_quiet:
  assumes "facts_named db" "\<not> in_flight db rid"
  shows "begun (trace_of db rid) \<subseteq> ended (trace_of db rid)"
proof
  fix c assume "c \<in> begun (trace_of db rid)"
  then obtain s t where s: "s \<in> set (events_of db rid)" "fact_of s = Some (Started t c)"
    by (force simp: begun_def trace_of_def facts_def map_filter_def elim: begins.elims)
  then have type: "ev_event_type s = Ev_ToolInvocationStarted" "text_of_option (ev_correlation_id s) = c"
    by (auto simp: fact_of_def Let_def split: outcome_event_type.splits)
  then obtain d where d: "d \<in> set (events_of db rid)" "ev_correlation_id d \<noteq> None"
      "ev_correlation_id d = ev_correlation_id s" "ev_event_type d \<in> set terminal_invocation_events"
    using assms(2) s(1) by (auto simp: in_flight_def)
  have "\<exists>f. fact_of d = Some f \<and> ends f \<and> fact_corr f = c"
    using d(3,4) type(2) by (auto simp: fact_of_def terminal_invocation_events_def)
  then show "c \<in> ended (trace_of db rid)"
    using d(1) by (force simp: ended_def trace_of_def facts_def map_filter_def)
qed

lemma gate_begin_Inr:
  "gate_begin ws rid db = Inr (run, db') \<longleftrightarrow>
     find_run db ws rid = Some run \<and> rn_status run = Run_Running \<and>
     require_nothing_in_flight db rid = Inr () \<and> require_a_completed_action db rid = Inr () \<and>
     db' = set_run_status ws rid Run_Verifying db"
  by (cases "find_run db ws rid")
    (auto simp: gate_begin_def scoped_run_def bind_result_Inr split: if_splits)

lemma nothing_in_flight_Inr:
  "require_nothing_in_flight db rid = Inr u \<longleftrightarrow>
     \<not> in_flight db rid \<and> (\<forall>q\<in>set (requests_of db rid). rq_status q \<noteq> Cf_Pending)"
  by (auto simp: require_nothing_in_flight_def requests_of_def confirmations_of_def request_of_def)

lemma gate_view:
  assumes "ids_ok db" "facts_named db" "gate_begin ws rid db = Inr (run, db')"
  shows "moves [] rid db db' (Some Run_Verifying, trace_of db rid, requests_of db rid)"
    "status_of db rid = Some Run_Running" "owned db ws rid" "find_run db ws rid = Some run"
    "begun (trace_of db rid) \<subseteq> ended (trace_of db rid)"
    "\<forall>q\<in>set (requests_of db rid). rq_status q \<noteq> Cf_Pending"
  using assms find_run_owned[of db ws rid run] find_run_status[OF assms(1), of ws rid run]
    status_moves(1)[OF assms(1), of ws rid Run_Verifying] not_in_flight_quiet[OF assms(2)]
  by (auto simp: gate_begin_Inr nothing_in_flight_Inr)

lemma begin_view:
  assumes "ids_ok db" "facts_named db" "begin_verification ws rid db = Inr (jd, db')"
  shows "moves [] rid db db' (Some Run_Verifying, trace_of db rid, requests_of db rid)"
    "status_of db rid = Some Run_Running" "owned db ws rid" "find_run db ws rid = Some (jd_run jd)"
    "begun (trace_of db rid) \<subseteq> ended (trace_of db rid)"
    "\<forall>q\<in>set (requests_of db rid). rq_status q \<noteq> Cf_Pending"
    "jd_events jd = timeline db' rid"
    "run_contract db (jd_run jd) = Some (jd_contract jd)"
proof -
  obtain run where g: "gate_begin ws rid db = Inr (run, db')" and r: "jd_run jd = run"
      "jd_events jd = timeline db' rid" "truthy (rn_contract_id run)"
      "stored_contract db' (the (rn_contract_id run)) = Some (jd_contract jd)"
    using assms(3) by (auto simp: begin_verification_def bind_result_Inr split: if_splits option.splits)
  note v = gate_view[OF assms(1,2) g]
  show "moves [] rid db db' (Some Run_Verifying, trace_of db rid, requests_of db rid)"
    "status_of db rid = Some Run_Running" "owned db ws rid" "find_run db ws rid = Some (jd_run jd)"
    "begun (trace_of db rid) \<subseteq> ended (trace_of db rid)"
    "\<forall>q\<in>set (requests_of db rid). rq_status q \<noteq> Cf_Pending"
    "jd_events jd = timeline db' rid"
    using v r by simp_all
  have "db_contracts db' = db_contracts db" using v(1) by (simp add: moves_def grows_def)
  then show "run_contract db (jd_run jd) = Some (jd_contract jd)"
    using r by (simp add: run_contract_def stored_contract_def)
qed

lemma still_legal_Inr:
  "require_transition_still_legal db ws rid t = Inr u \<longleftrightarrow>
     (\<exists>run. find_run db ws rid = Some run \<and> t \<in> set (run_transitions (rn_status run)))"
proof (cases "find_run db ws rid")
  case (Some run)
  then show ?thesis
    by (cases "validate_run_transition (rn_status run) t")
      (auto simp: require_transition_still_legal_def scoped_run_def validate_run_transition_iff[symmetric])
qed (simp add: require_transition_still_legal_def scoped_run_def)

lemma add_snapshot_view:
  assumes "add_snapshot rid ph ob db = Inr db'"
  shows "quietly rid db db'"
  using assms by (intro moves_other_tables) (auto simp: add_snapshot_def bind_result_Inr split: if_splits)

lemma add_findings_view: "quietly rid db (add_findings r fs db)"
  by (intro moves_other_tables) (simp_all add: add_findings_def)

lemma finding_event_quiet: "fact_of (finding_event f) = None"
  by (auto simp: finding_event_def fact_of_def check_event_def)

lemma seal_view:
  assumes "ids_ok db" "seal_run now gid ws rid final fs result terminal db = Inr db'"
  shows "moves [] rid db db' (Some terminal, trace_of db rid, requests_of db rid)"
    "status_of db rid = Some Run_Verifying" "owned db ws rid"
    "terminal \<in> set (run_transitions Run_Verifying)"
proof -
  obtain run where run: "find_run db ws rid = Some run" "terminal \<in> set (run_transitions (rn_status run))"
    using assms(2) by (auto simp: seal_run_def bind_result_Inr still_legal_Inr)
  obtain db1 db2 h db3 db4 db5 db6 where
    d1: "append_event now rid (draft_event Ev_VerificationStarted Ac_Harness) db = Inr db1"
    and d2: "add_snapshot rid Sp_After final db1 = Inr db2"
    and d3: "append_event now rid (snapshot_event Sp_After final h) db2 = Inr db3"
    and d4: "append_events now rid (map finding_event fs) db3 = Inr db4"
    and d5: "finish_run now ws rid terminal (Some result) (add_findings rid fs db4) = Inr db5"
    and d6: "append_event now rid (completed_event result fs) db5 = Inr db6"
    and d7: "guidance_transition now gid ws
        (derive_guidance (phase_for True (Some terminal) False False) (Some rid)) (Some rid) db6 = Inr db'"
    using assms(2) by (auto simp: seal_run_def bind_result_Inr)
  have q1: "quietly rid db db1" using append_quiet[OF d1] by (simp add: fact_of_draft)
  have q2: "quietly rid db db2" using moves_quietly[OF q1 add_snapshot_view[OF d2]] .
  have q3: "quietly rid db db3"
    using moves_quietly[OF q2 append_quiet[OF d3]] by (simp add: snapshot_event_def fact_of_draft)
  have q4: "quietly rid db db4"
    using moves_quietly[OF q3 append_events_quiet[OF d4]] by (simp add: finding_event_quiet)
  have q: "quietly rid db (add_findings rid fs db4)" using moves_quietly[OF q4 add_findings_view] .
  obtain run' where run': "find_run (add_findings rid fs db4) ws rid = Some run'"
    using owned_moves[OF q, of ws rid] find_run_owned[OF run(1)] by (auto simp: owned_def)
  have ids: "ids_ok (add_findings rid fs db4)" using ids_ok_moves[OF q] assms(1) by simp
  note f = finish_run_view[OF ids run' d5]
  have "status_of (add_findings rid fs db4) rid = Some Run_Verifying"
    using find_run_status[OF ids run'] f(2) by simp
  then show v: "status_of db rid = Some Run_Verifying" using q by (simp add: moves_def view_def)
  then have "rn_status run = Run_Verifying" using find_run_status[OF assms(1) run(1)] by simp
  then show "terminal \<in> set (run_transitions Run_Verifying)" using run(2) by simp
  show "owned db ws rid" using find_run_owned[OF run(1)] .
  have m5: "moves [] rid db db5 (Some terminal, trace_of db rid, requests_of db rid)"
    using quietly_moves[OF q f(1)] q by (simp add: moves_def view_def)
  have "fact_of (completed_event result fs) = None" by (simp add: completed_event_def fact_of_draft)
  from moves_quietly[OF moves_quietly[OF m5 append_quiet[OF d6 this]] guidance_transition_view[OF d7]]
  show "moves [] rid db db' (Some terminal, trace_of db rid, requests_of db rid)" .
qed

lemma record_artifact_view: "record_artifact a db = Inr db' \<Longrightarrow> quietly rid db db'"
  by (intro moves_other_tables) (auto simp: record_artifact_def bind_result_Inr)

lemma seal_verdict_view:
  assumes "ids_ok db" "seal_verdict now gid ws rid final e artifact db = Inr db'"
  shows "\<exists>terminal. terminal_state (run_result (evaluation_all e)) = Some terminal \<and>
    moves [] rid db db' (Some terminal, trace_of db rid, requests_of db rid) \<and>
    status_of db rid = Some Run_Verifying \<and> owned db ws rid \<and> terminal \<in> set (run_transitions Run_Verifying)"
proof -
  obtain terminal db1 where t: "terminal_state (run_result (evaluation_all e)) = Some terminal"
      "seal_run now gid ws rid final (evaluation_all e) (run_result (evaluation_all e)) terminal db = Inr db1"
      "record_artifact artifact db1 = Inr db'"
    using assms(2) by (auto simp: seal_verdict_def bind_result_Inr Let_def split: option.splits)
  show ?thesis using t(1) seal_view[OF assms(1) t(2)] moves_quietly record_artifact_view[OF t(3)] by blast
qed

lemma abandon_view:
  assumes "ids_ok db" "abandon_run now gid ws rid db = Inr db'"
  shows "moves [] rid db db' (Some Run_Error, trace_of db rid, requests_of db rid)"
    "status_of db rid = Some Run_Verifying" "owned db ws rid"
proof -
  obtain run where run: "find_run db ws rid = Some run"
    using assms(2) by (auto simp: abandon_run_def bind_result_Inr still_legal_Inr)
  obtain db1 db2 db3 db4 e where
    d1: "append_event now rid (draft_event Ev_VerificationStarted Ac_Harness) db = Inr db1"
    and d2: "append_event now rid (finding_event unobservable_finding) db1 = Inr db2"
    and d3: "finish_run now ws rid Run_Error None (add_findings rid [unobservable_finding] db2) = Inr db3"
    and d4: "append_event now rid e db3 = Inr db4" "fact_of e = None"
    and d5: "guidance_transition now gid ws
        (derive_guidance (phase_for True (Some Run_Error) False False) (Some rid)) (Some rid) db4 = Inr db'"
    using assms(2) by (auto simp: abandon_run_def bind_result_Inr fact_of_draft)
  have q1: "quietly rid db db1" using append_quiet[OF d1] by (simp add: fact_of_draft)
  have q2: "quietly rid db db2" using moves_quietly[OF q1 append_quiet[OF d2 finding_event_quiet]] .
  let ?m = "add_findings rid [unobservable_finding] db2"
  have q: "quietly rid db ?m" using moves_quietly[OF q2 add_findings_view] .
  obtain run' where run': "find_run ?m ws rid = Some run'"
    using owned_moves[OF q, of ws rid] find_run_owned[OF run(1)] by (auto simp: owned_def)
  have ids: "ids_ok ?m" using ids_ok_moves[OF q] assms(1) by simp
  note f = finish_run_view[OF ids run' d3]
  have "status_of ?m rid = Some Run_Verifying" using find_run_status[OF ids run'] f(2) by simp
  then show v: "status_of db rid = Some Run_Verifying" using q by (simp add: moves_def view_def)
  show "owned db ws rid" using find_run_owned[OF run(1)] .
  have m: "moves [] rid db db3 (Some Run_Error, trace_of db rid, requests_of db rid)"
    using quietly_moves[OF q f(1)] q by (simp add: moves_def view_def)
  from moves_quietly[OF moves_quietly[OF m append_quiet[OF d4]] guidance_transition_view[OF d5]]
  show "moves [] rid db db' (Some Run_Error, trace_of db rid, requests_of db rid)" .
qed

subsection \<open>Surface captures and selection\<close>

lemma capture_view:
  assumes "capture_surface surface_of now ws rid surface db = Inr db'"
  shows "quietly rid db db'" "owned db ws rid"
proof -
  obtain run payload db1 where run: "find_run db ws rid = Some run"
    and d1: "append_event now rid
        ((draft_event Ev_ToolSurfaceCaptured Ac_Harness)\<lparr>ev_redacted_payload := payload\<rparr>) db = Inr db1"
    and d2: "db' = db1 \<or> (\<exists>ds es. map_result delta_event ds = Inr es \<and> append_events now rid es db1 = Inr db')"
  proof (cases "latest_surface surface_of db rid")
    case None
    then show ?thesis using assms that by (auto simp: capture_surface_def bind_result_Inr scoped_run_Inr)
  next
    case (Some p)
    then obtain run payload db1 ds es where c: "find_run db ws rid = Some run"
      "append_event now rid
        ((draft_event Ev_ToolSurfaceCaptured Ac_Harness)\<lparr>ev_redacted_payload := payload\<rparr>) db = Inr db1"
      "lift_surface (map_result delta_event ds) = Inr es" "append_events now rid es db1 = Inr db'"
      using assms by (auto simp: capture_surface_def bind_result_Inr scoped_run_Inr)
    then have "map_result delta_event ds = Inr es" by (auto simp: lift_surface_def split: sum.splits)
    then show ?thesis using that[OF c(1,2)] c(4) by blast
  qed
  show "owned db ws rid" using find_run_owned[OF run] .
  have q1: "quietly rid db db1" using append_quiet[OF d1] by (simp add: fact_of_def)
  have "fact_of e = None" if m: "map_result delta_event ds = Inr es" "e \<in> set es" for ds es e
  proof -
    obtain d where "delta_event d = Inr e" using map_result_from[OF m] by blast
    then show ?thesis by (auto simp: delta_event_def bind_result_Inr fact_of_def)
  qed
  then show "quietly rid db db'"
    using d2 q1 moves_quietly[OF q1 append_events_quiet] by blast
qed

lemma guidance_none_rest:
  assumes "guidance_transition now gid ws g None db = Inr db'"
  shows "db_runs db' = db_runs db" "db_contracts db' = db_contracts db" "db_events db' = db_events db"
    "db_confirmations db' = db_confirmations db"
  using assms by (auto simp: guidance_transition_def append_guidance_def Let_def split: option.splits if_splits)

lemma select_views:
  "select_failure_profile ws p db = Inr db' \<Longrightarrow> quietly rid db db'"
  "select_scenario_mode ws m supported db = Inr db' \<Longrightarrow> quietly rid db db'"
  "select_contract now gid serving compatible ws cid db = Inr db' \<Longrightarrow> quietly rid db db'"
proof -
  show "select_failure_profile ws p db = Inr db' \<Longrightarrow> quietly rid db db'"
    by (intro moves_other_tables) (auto simp: select_failure_profile_def bind_result_Inr update_workspace_def)
  show "select_scenario_mode ws m supported db = Inr db' \<Longrightarrow> quietly rid db db'"
    by (intro moves_other_tables)
      (auto simp: select_scenario_mode_def bind_result_Inr update_workspace_def split: if_splits)
  show "select_contract now gid serving compatible ws cid db = Inr db' \<Longrightarrow> quietly rid db db'"
    by (intro moves_other_tables)
      (auto simp: select_contract_def bind_result_Inr update_workspace_def Let_def guidance_none_rest
        split: if_splits option.splits)
qed

subsection \<open>Reset\<close>

text \<open>Cancelling requests and cancelling runs, each a loop of one update and one event\<close>

definition cancelled_row :: "nat \<Rightarrow> confirmation_row \<Rightarrow> confirmation_row" where
  "cancelled_row now c = c\<lparr>cf_status := Cf_Cancelled, cf_decided_at := Some (isoformat_z now)\<rparr>"

lemma cancelled_row_simps [simp]:
  "cf_id (cancelled_row now c) = cf_id c" "cf_workspace_id (cancelled_row now c) = cf_workspace_id c"
  "cf_run_id (cancelled_row now c) = cf_run_id c" "cf_status (cancelled_row now c) = Cf_Cancelled"
  "request_ident (cancelled_row now c) = request_ident c"
  "cf_correlation_id (cancelled_row now c) = cf_correlation_id c"
  "cf_tool_name (cancelled_row now c) = cf_tool_name c"
  "cancelled_row now (cancelled_row now c) = cancelled_row now c"
  "request_of (cancelled_row now c) = (request_of c)\<lparr>rq_status := Cf_Cancelled\<rparr>"
  by (simp_all add: cancelled_row_def request_ident_def request_of_def)

lemma cancel_confirmations_view:
  assumes "cancel_confirmations now ws cs db = Inr db'"
    and "\<forall>c\<in>set cs. \<forall>d\<in>set (db_confirmations db). cf_id d = cf_id c \<longrightarrow> cf_run_id d = cf_run_id c"
  shows "grows (cf_run_id ` set cs) [] db db' \<and> (\<forall>r. trace_of db' r = trace_of db r) \<and>
    db_runs db' = db_runs db \<and>
    db_confirmations db' =
      map (\<lambda>d. if cf_id d \<in> cf_id ` set cs \<and> cf_workspace_id d = ws then cancelled_row now d else d)
        (db_confirmations db)"
  using assms
proof (induction cs arbitrary: db)
  case Nil
  then show ?case by simp
next
  case (Cons c cs)
  let ?f = "\<lambda>d. if cf_id d = cf_id c \<and> cf_workspace_id d = ws then cancelled_row now d else d"
  let ?db1 = "db\<lparr>db_confirmations := map ?f (db_confirmations db)\<rparr>"
  obtain e db2 where e: "append_event now (cf_run_id c) e ?db1 = Inr db2" "fact_of e = None"
    and rest: "cancel_confirmations now ws cs db2 = Inr db'"
    using Cons.prems(1) unfolding cancelled_row_def by (auto simp: bind_result_Inr Let_def fact_of_draft)
  have "cf_run_id d = cf_run_id c" if d: "d \<in> set (db_confirmations db)" "cf_id d = cf_id c" for d
    using Cons.prems(2) d by (meson list.set_intros(1))
  then have g1: "grows {cf_run_id c} [] db ?db1"
    by (intro confirmation_update_grows) auto
  have q2: "quietly (cf_run_id c) ?db1 db2" using append_quiet[OF e] .
  then have g2: "grows {cf_run_id c} [] ?db1 db2" by (simp add: moves_def)
  have same: "db_runs db2 = db_runs db" "db_confirmations db2 = map ?f (db_confirmations db)"
    using append_event_rest[OF e(1)] by simp_all
  have tr: "trace_of db2 r = trace_of db r" for r
  proof -
    have "view db2 r = view ?db1 r" using q2 grows_view[OF g2, of r] by (cases "r = cf_run_id c") (auto simp: moves_def)
    then show ?thesis by (simp add: view_def trace_of_def)
  qed
  have "cf_run_id d = cf_run_id c'"
    if c': "c' \<in> set cs" "d \<in> set (db_confirmations db2)" "cf_id d = cf_id c'" for c' d
  proof -
    obtain d0 where "d0 \<in> set (db_confirmations db)" "cf_id d0 = cf_id d" "cf_run_id d0 = cf_run_id d"
      using c'(2) unfolding same by (auto split: if_splits)
    then show ?thesis using Cons.prems(2) c'(1,3) by (metis list.set_intros(2))
  qed
  then have "\<forall>c'\<in>set cs. \<forall>d\<in>set (db_confirmations db2). cf_id d = cf_id c' \<longrightarrow> cf_run_id d = cf_run_id c'"
    by blast
  note ih = Cons.IH[OF rest this]
  have "grows (cf_run_id ` set (c # cs)) [] db db2"
    using grows_mono[OF grows_trans[OF g1 g2]] by simp
  moreover have "grows (cf_run_id ` set (c # cs)) [] db2 db'"
    using grows_mono[of "cf_run_id ` set cs" "[]" db2 db' "cf_run_id ` set (c # cs)"] ih by auto
  ultimately have "grows (cf_run_id ` set (c # cs)) [] db db'" using grows_trans by fastforce
  moreover have "db_confirmations db' =
      map (\<lambda>d. if cf_id d \<in> cf_id ` set (c # cs) \<and> cf_workspace_id d = ws then cancelled_row now d else d)
        (db_confirmations db)"
    using ih unfolding same by (auto intro: map_cong)
  ultimately show ?case using ih tr same by simp
qed

lemma cancel_runs_view:
  assumes "cancel_runs now ws rs db = Inr db'" "ids_ok db" "\<forall>r\<in>set rs. owned db ws (rn_id r)"
  shows "grows (rn_id ` set rs) [] db db' \<and> (\<forall>r. trace_of db' r = trace_of db r) \<and>
    db_confirmations db' = db_confirmations db \<and>
    (\<forall>r. status_of db' r = (if r \<in> rn_id ` set rs then Some Run_Cancelled else status_of db r))"
  using assms
proof (induction rs arbitrary: db)
  case Nil
  then show ?case by simp
next
  case (Cons r rs)
  obtain e db1 where e: "append_event now (rn_id r) e db = Inr db1" "fact_of e = None"
    and rest: "cancel_runs now ws rs (complete_run now ws (rn_id r) Run_Cancelled db1) = Inr db'"
    using Cons.prems(1) by (auto simp: bind_result_Inr fact_of_draft)
  let ?db2 = "complete_run now ws (rn_id r) Run_Cancelled db1"
  have q1: "quietly (rn_id r) db db1" using append_quiet[OF e] .
  have own: "owned db ws (rn_id r)" using Cons.prems(3) by simp
  have m2: "moves [] (rn_id r) db1 ?db2 (Some Run_Cancelled, trace_of db1 (rn_id r), requests_of db1 (rn_id r))"
    using Cons.prems(2) own owned_moves[OF q1] ids_ok_moves[OF q1] by (intro status_moves) simp_all
  have m: "moves [] (rn_id r) db ?db2 (Some Run_Cancelled, trace_of db (rn_id r), requests_of db (rn_id r))"
    using quietly_moves[OF q1 m2] q1 by (simp add: moves_def view_def)
  have v: "view ?db2 x = (if x = rn_id r then Some Run_Cancelled else status_of db x, trace_of db x, requests_of db x)"
    for x using m grows_view[of "{rn_id r}" "[]" db ?db2 x] by (auto simp: moves_def view_def)
  have c: "db_confirmations ?db2 = db_confirmations db"
    using append_event_rest[OF e(1)] by (simp add: complete_run_def)
  have ids: "ids_ok ?db2" using ids_ok_moves[OF m] Cons.prems(2) by simp
  have "\<forall>x\<in>set rs. owned ?db2 ws (rn_id x)" using Cons.prems(3) owned_moves[OF m] by simp
  note ih = Cons.IH[OF rest ids this]
  have "grows (rn_id ` set (r # rs)) [] db ?db2" "grows (rn_id ` set (r # rs)) [] ?db2 db'"
    using grows_mono[of "{rn_id r}" "[]" db ?db2] grows_mono[of "rn_id ` set rs" "[]" ?db2 db' "rn_id ` set (r # rs)"] m ih
    by (auto simp: moves_def)
  then have "grows (rn_id ` set (r # rs)) [] db db'" using grows_trans by fastforce
  moreover have "trace_of ?db2 x = trace_of db x"
    "status_of ?db2 x = (if x = rn_id r then Some Run_Cancelled else status_of db x)" for x
    using v[of x] by (simp_all add: view_def)
  ultimately show ?case using ih c by auto
qed

text \<open>
  A reset without purge: every run of the workspace is cancelled unless it has ended, its open
  requests are cancelled, timelines get no tool fact, and other workspaces are untouched.
\<close>

definition reset_kept :: "nat \<Rightarrow> pystr \<Rightarrow> database \<Rightarrow> service_error + database" where
  "reset_kept now ws db =
     bind_result (cancel_confirmations now ws
         (filter (\<lambda>c. cf_workspace_id c = ws \<and> cf_status c = Cf_Pending) (db_confirmations db)) db)
       (\<lambda>db1. cancel_runs now ws (active_runs db1 ws) db1)"

lemma reset_workspace_parts:
  "reset_workspace now ws purge db = Inr db' \<longleftrightarrow>
     (\<exists>db2. reset_kept now ws db = Inr db2 \<and>
        db' = update_workspace ws (\<lambda>w. w\<lparr>wk_active_run_id := None\<rparr>) (if purge then purge_completed ws db2 else db2))"
  by (auto simp: reset_workspace_def reset_kept_def bind_result_Inr Let_def)

lemma reset_kept_view:
  assumes k: "keyed db" and tx: "reset_kept now ws db = Inr db'"
  shows "grows {r. owned db ws r} [] db db'"
    and "owned db ws r \<Longrightarrow> view db' r =
      (map_option cancelled_status (status_of db r), trace_of db r, map cancel_pending (requests_of db r))"
proof -
  let ?cs = "filter (\<lambda>c. cf_workspace_id c = ws \<and> cf_status c = Cf_Pending) (db_confirmations db)"
  obtain db1 where d1: "cancel_confirmations now ws ?cs db = Inr db1"
    and d2: "cancel_runs now ws (active_runs db1 ws) db1 = Inr db'"
    using tx by (auto simp: reset_kept_def bind_result_Inr)
  have inj: "inj_on cf_id (set (db_confirmations db))" using k by (simp add: keyed_def distinct_map)
  then have "\<forall>c\<in>set ?cs. \<forall>d\<in>set (db_confirmations db). cf_id d = cf_id c \<longrightarrow> cf_run_id d = cf_run_id c"
    by (auto dest: inj_onD)
  note c = cancel_confirmations_view[OF d1 this]
  have ids: "ids_ok db1" using c k by (simp add: ids_ok_def keyed_def)
  have own: "owned db1 ws x \<longleftrightarrow> owned db ws x" for x using c by (simp add: owned_def find_run_def)
  have "\<forall>r\<in>set (active_runs db1 ws). owned db1 ws (rn_id r)"
    by (auto simp: active_runs_def owned_ident run_ident_def)
  note r = cancel_runs_view[OF d2 ids this]
  have "cf_run_id ` set ?cs \<subseteq> {r. owned db ws r}" using k by (auto simp: keyed_def tied_def)
  moreover have "rn_id ` set (active_runs db1 ws) \<subseteq> {r. owned db ws r}"
    using own by (auto simp: active_runs_def owned_ident run_ident_def)
  ultimately have "grows {r. owned db ws r} [] db db1" "grows {r. owned db ws r} [] db1 db'"
    using grows_mono[of "cf_run_id ` set ?cs" "[]" db db1] grows_mono[of "rn_id ` set (active_runs db1 ws)" "[]" db1 db']
      c r by blast+
  then show "grows {r. owned db ws r} [] db db'" using grows_trans by fastforce
  assume o: "owned db ws r"
  then obtain run where run: "find_run db1 ws r = Some run" using own[of r] by (auto simp: owned_def)
  have st: "status_of db r = Some (rn_status run)"
    using find_run_status[OF ids run] c by (simp add: status_of_def rows_of_def)
  have "x = run" if x: "x \<in> set (db_runs db1)" "rn_id x = r" for x
    using find_run_rows[OF ids run] rows_of_single[OF ids x(1)] x(2) by simp
  then have "x = run" if "x \<in> set (active_runs db1 ws)" "rn_id x = r" for x
    using that by (simp add: active_runs_def)
  then have "r \<in> rn_id ` set (active_runs db1 ws) \<longleftrightarrow> run \<in> set (active_runs db1 ws)"
    using find_run_Some(2)[OF run] by (metis imageE image_eqI)
  then have "r \<in> rn_id ` set (active_runs db1 ws) \<longleftrightarrow> \<not> is_terminal run_transitions (rn_status run)"
    using find_run_Some(1,3)[OF run] by (simp add: active_runs_def unfinished_def)
  then have "status_of db' r = Some (cancelled_status (rn_status run))"
    using r c st by (simp add: cancelled_status_def status_of_def rows_of_def)
  moreover have "requests_of db' r = map cancel_pending (requests_of db r)"
  proof -
    have ws: "cf_workspace_id d = ws" if "d \<in> set (confirmations_of db r)" for d
      using that k o owned_unique[of db ws r "cf_workspace_id d"]
      by (auto simp: confirmations_of_def keyed_def tied_def)
    have "cf_id d \<in> cf_id ` set ?cs \<longleftrightarrow> cf_status d = Cf_Pending" if "d \<in> set (confirmations_of db r)" for d
      using inj that ws[OF that] by (auto simp: confirmations_of_def dest: inj_onD)
    then have eq: "request_of (if cf_id d \<in> cf_id ` set ?cs \<and> cf_workspace_id d = ws then cancelled_row now d else d)
        = cancel_pending (request_of d)" if "d \<in> set (confirmations_of db r)" for d
      using that ws[OF that] by (auto simp: cancel_pending_def request_of_def)
    have "requests_of db' r = requests_of db1 r" using r by (simp add: requests_of_def confirmations_of_def)
    also have "db1 = db1\<lparr>db_confirmations := db_confirmations db1\<rparr>" by simp
    also have "requests_of \<dots> r = requests_of (db\<lparr>db_confirmations := db_confirmations db1\<rparr>) r"
      by (simp add: requests_of_def confirmations_of_def)
    also have "\<dots> = map (\<lambda>d. request_of (if cf_id d \<in> cf_id ` set ?cs \<and> cf_workspace_id d = ws
        then cancelled_row now d else d)) (confirmations_of db r)"
      using c by (simp only:) (rule requests_of_map, simp)
    also have "\<dots> = map cancel_pending (requests_of db r)"
      unfolding requests_of_def map_map using eq by (intro map_cong) simp_all
    finally show ?thesis .
  qed
  ultimately show "view db' r =
      (map_option cancelled_status (status_of db r), trace_of db r, map cancel_pending (requests_of db r))"
    using c r st by (simp add: view_def)
qed

text \<open>
  The purge removes the ended runs of the workspace with everything that hangs off them and
  leaves every other run as it is.
\<close>

definition purged :: "pystr \<Rightarrow> database \<Rightarrow> pystr \<Rightarrow> bool" where
  "purged ws db rid \<longleftrightarrow> (\<exists>r\<in>set (db_runs db). rn_id r = rid \<and> rn_workspace_id r = ws \<and> \<not> unfinished r)"

lemma purge_view:
  assumes k: "keyed db" and h: "homed db"
  shows "run_exists (purge_completed ws db) r \<longleftrightarrow> run_exists db r \<and> \<not> purged ws db r"
    and "\<not> purged ws db r \<Longrightarrow> view (purge_completed ws db) r = view db r \<and>
      events_of (purge_completed ws db) r = events_of db r \<and> rows_of (purge_completed ws db) r = rows_of db r"
    and "db_contracts (purge_completed ws db) = db_contracts db"
    and "db_events (purge_completed ws db) = filter (\<lambda>e. \<not> purged ws db (er_run_id e)) (db_events db)"
    and "db_confirmations (purge_completed ws db) = filter (\<lambda>c. \<not> purged ws db (cf_run_id c)) (db_confirmations db)"
    and "db_runs (purge_completed ws db) = filter (\<lambda>x. \<not> purged ws db (rn_id x)) (db_runs db)"
proof -
  have ids: "ids_ok db" using k by (simp add: keyed_def)
  have runs: "db_runs (purge_completed ws db) = filter (\<lambda>r. \<not> (rn_workspace_id r = ws \<and> \<not> unfinished r)) (db_runs db)"
    by (simp add: purge_completed_def Let_def)
  have row: "purged ws db (rn_id x) \<longleftrightarrow> rn_workspace_id x = ws \<and> \<not> unfinished x" if "x \<in> set (db_runs db)" for x
  proof -
    have "y = x" if y: "y \<in> set (db_runs db)" "rn_id y = rn_id x" for y
      using ids_ok_unique[OF ids y(1) \<open>x \<in> set (db_runs db)\<close> y(2)] .
    then show ?thesis unfolding purged_def using that by blast
  qed
  show runs': "db_runs (purge_completed ws db) = filter (\<lambda>x. \<not> purged ws db (rn_id x)) (db_runs db)"
    unfolding runs using row by (intro filter_cong) simp_all
  show ev: "db_events (purge_completed ws db) = filter (\<lambda>e. \<not> purged ws db (er_run_id e)) (db_events db)"
    by (simp add: purge_completed_def Let_def purged_def)
  show cf: "db_confirmations (purge_completed ws db) = filter (\<lambda>c. \<not> purged ws db (cf_run_id c)) (db_confirmations db)"
    by (simp add: purge_completed_def Let_def purged_def)
  show "db_contracts (purge_completed ws db) = db_contracts db" by (simp add: purge_completed_def Let_def)
  show "run_exists (purge_completed ws db) r \<longleftrightarrow> run_exists db r \<and> \<not> purged ws db r"
    by (auto simp: run_exists_def runs')
  assume n: "\<not> purged ws db r"
  have e: "events_of (purge_completed ws db) r = events_of db r"
    using n by (simp add: events_of_def ev) (auto intro: filter_cong)
  have w: "rows_of (purge_completed ws db) r = rows_of db r"
    using n by (simp add: rows_of_def runs') (auto intro: filter_cong)
  have "confirmations_of (purge_completed ws db) r = confirmations_of db r"
    using n by (simp add: confirmations_of_def cf) (auto intro: filter_cong)
  then show "view (purge_completed ws db) r = view db r \<and>
      events_of (purge_completed ws db) r = events_of db r \<and> rows_of (purge_completed ws db) r = rows_of db r"
    using e w by (simp add: view_def status_of_def trace_of_def requests_of_def)
qed

subsection \<open>Arming\<close>

text \<open>
  Arming refuses a workspace with an unfinished run; otherwise exactly one row is added, with the
  selected contract, and the new run's timeline holds no tool fact.
\<close>

lemma read_configuration_contract:
  assumes "read_configuration serving ws db = Inr c"
  shows "truthy (Some (cg_contract_id c))" "stored_contract db (cg_contract_id c) \<noteq> None"
proof -
  obtain w where ws: "workspace_of db ws = Some w"
    using assms by (cases "workspace_of db ws") (auto simp: read_configuration_def)
  then obtain row where w: "truthy (wk_selected_contract_id w)"
    "scoped_contract db ws (the (wk_selected_contract_id w)) = Inr row"
    "cg_contract_id c = the (wk_selected_contract_id w)"
    using assms
    by (cases "scoped_contract db ws (the (wk_selected_contract_id w))")
      (auto simp: read_configuration_def Let_def split: option.splits if_splits)
  then show "truthy (Some (cg_contract_id c))" by (cases "wk_selected_contract_id w") auto
  have "\<exists>x\<in>set (db_contracts db). ct_id x = cg_contract_id c"
    using w(2,3) by (auto simp: scoped_contract_def find_Some_iff split: option.splits intro: nth_mem)
  then show "stored_contract db (cg_contract_id c) \<noteq> None" by (auto simp: stored_contract_def find_None_iff)
qed

lemma arm_view:
  assumes "arm_run now gid serving rid ws sel ob fault source db = Inr db'" "homed db" "tied db"
  obtains r where "rn_id r = rid" "rn_workspace_id r = ws" "rn_status r = Run_Armed"
    "truthy (rn_contract_id r)" "stored_contract db (the (rn_contract_id r)) \<noteq> None"
    "\<not> run_exists db rid" "active_runs db ws = []"
    "quietly rid (db\<lparr>db_runs := db_runs db @ [r]\<rparr>) db'"
    "view (db\<lparr>db_runs := db_runs db @ [r]\<rparr>) rid = (Some Run_Armed, [], [])"
proof -
  obtain c where c: "read_configuration serving ws db = Inr c" "active_runs db ws = []"
      "write_run now gid rid ws c ob fault source db = Inr db'"
    using assms(1) by (auto simp: arm_run_def bind_result_Inr require_no_active_run_def split: if_splits)
  let ?r = "new_run now rid ws c fault source"
  let ?db0 = "db\<lparr>db_runs := db_runs db @ [?r]\<rparr>"
  let ?db2 = "update_workspace ws (\<lambda>w. w\<lparr>wk_active_run_id := Some rid\<rparr>) ?db0"
  obtain db3 db4 h db5 where new: "\<not> run_exists db rid"
    and d3: "append_event now rid (armed_event c) ?db2 = Inr db3"
    and d4: "add_snapshot rid Sp_Before ob db3 = Inr db4"
    and d5: "append_event now rid (snapshot_event Sp_Before ob h) db4 = Inr db5"
    and d6: "guidance_transition now gid ws (current_guidance db5 ws) (Some rid) db5 = Inr db'"
    using c(3) by (auto simp: write_run_def bind_result_Inr Let_def split: if_splits)
  have q2: "quietly rid ?db0 ?db2" by (intro moves_other_tables) (simp_all add: update_workspace_def)
  have "fact_of (armed_event c) = None" "fact_of (snapshot_event Sp_Before ob h) = None"
    by (simp_all add: armed_event_def snapshot_event_def fact_of_draft)
  then have q: "quietly rid ?db0 db'"
    using moves_quietly[OF q2 append_quiet[OF d3]] moves_quietly[OF _ add_snapshot_view[OF d4]]
      moves_quietly[OF _ append_quiet[OF d5]] moves_quietly[OF _ guidance_transition_view[OF d6]] by blast
  have "rows_of db rid = []" using new by (auto simp: rows_of_def run_exists_def filter_empty_conv)
  moreover have "events_of db rid = []"
    using assms(2) new by (auto simp: events_of_def homed_def filter_empty_conv)
  moreover have "confirmations_of db rid = []"
    using assms(3) new owned_exists by (auto simp: confirmations_of_def tied_def filter_empty_conv)
  ultimately have v: "view ?db0 rid = (Some Run_Armed, [], [])"
    by (simp add: view_def status_of_def rows_of_def trace_of_def requests_of_def confirmations_of_def
        events_of_def new_run_def)
  show ?thesis
    by (rule that[of ?r]) (use new c(2) q v read_configuration_contract[OF c(1)] in \<open>simp_all add: new_run_def\<close>)
qed

end
