(* ===== verification/Service.thy ===== *)
theory Service
  imports Closings
begin

section \<open>The service: clients interleaving transactions\<close>

text \<open>
  The run services as one transition system. The state is the tables, what each request in
  progress has read so far, the identifiers ever drawn and the calls handed to a target. A step is
  one read, one committed transaction, the hand-over of a call, or the loss of a request (an
  exception, a cancellation, a crash). Transactions run one at a time (the workspace lock and the
  database), everything between two of them interleaves freely, as the code awaits there without a
  lock. Clocks, observations, published tools and the adapter's answer are arbitrary at each step.
  Verification of an externally supplied observation and the creation of the observer's own
  workspace are not among the steps.
\<close>

subsection \<open>Requests in progress\<close>

text \<open>
  The local variables that live across an \<open>await\<close>: of \<open>InvocationService.invoke\<close> (the checked
  call, then a fresh identifier or the approval found, the start it resumes, and the call on its
  way to the target and at it), of \<open>DecisionService.decide\<close> and \<open>expire_lapsed\<close>, of
  \<open>RunService.arm\<close> and of \<open>VerificationService.verify\<close>.
\<close>

datatype phase =
    Checked call
  | Fresh call pystr
  | Resuming call pystr confirmation_row
  | Resumed call pystr confirmation_row nat pystr
  | Dispatching call pystr pystr pystr nat observation
  | Executing call pystr pystr pystr nat observation
  | Deciding pystr pystr confirmation_row decision
  | Expiring pystr pystr confirmation_row
  | Arming pystr configuration "pystr option"
  | Judging pystr pystr judging

record service =
  sv_db :: database
  sv_clients :: "nat \<Rightarrow> phase option"
  sv_issued :: "pystr set"
  sv_sent :: "(pystr \<times> pystr \<times> pystr) list"

text \<open>\<open>new_id\<close>: a prefix and a random token, never drawn before\<close>

definition fresh :: "pystr \<Rightarrow> service \<Rightarrow> bool" where
  "fresh i s \<longleftrightarrow> i \<noteq> [] \<and> i \<notin> sv_issued s"

definition at_phase :: "nat \<Rightarrow> phase option \<Rightarrow> service \<Rightarrow> service" where
  "at_phase k p s = s\<lparr>sv_clients := (sv_clients s)(k := p)\<rparr>"

definition committed :: "database \<Rightarrow> service \<Rightarrow> service" where
  "committed db s = s\<lparr>sv_db := db\<rparr>"

definition issuing :: "pystr list \<Rightarrow> service \<Rightarrow> service" where
  "issuing is s = s\<lparr>sv_issued := sv_issued s \<union> set is\<rparr>"

definition handed_over :: "pystr \<times> pystr \<times> pystr \<Rightarrow> service \<Rightarrow> service" where
  "handed_over w s = s\<lparr>sv_sent := sv_sent s @ [w]\<rparr>"

text \<open>Where a start transaction leaves its client\<close>

fun after_start :: "call \<Rightarrow> pystr \<Rightarrow> pystr \<Rightarrow> observation \<Rightarrow> start_outcome \<Rightarrow> phase option" where
  "after_start cl vid request before (StartedAt n) = Some (Dispatching cl vid vid request n before)"
| "after_start cl vid request before (StartRefused code) = None"
| "after_start cl vid request before (PausedAt n i) = None"

text \<open>The final observation an invocation could make: none, or one redacted by the run's policy\<close>

definition observed_by :: "redaction_policy \<Rightarrow> observation \<Rightarrow> bool" where
  "observed_by policy ob \<longleftrightarrow> (\<exists>raw. ob = redacted_observation raw (Some policy))"

text \<open>
  What may change beside the run services: workspaces and contracts are added, artifacts and
  regression evals come and go. A contract's identifier is new.
\<close>

definition aside :: "database \<Rightarrow> database \<Rightarrow> bool" where
  "aside db db' \<longleftrightarrow>
     db_runs db' = db_runs db \<and> db_events db' = db_events db \<and> db_confirmations db' = db_confirmations db \<and>
     db_guidance db' = db_guidance db \<and> db_snapshots db' = db_snapshots db \<and> db_findings db' = db_findings db \<and>
     prefix (db_workspaces db) (db_workspaces db') \<and>
     (\<exists>cs. db_contracts db' = db_contracts db @ cs \<and> ct_id ` set cs \<inter> ct_id ` set (db_contracts db) = {})"

subsection \<open>Steps\<close>

inductive service_step :: "service \<Rightarrow> service \<Rightarrow> bool" where
  read_call: "sv_clients s k = None \<Longrightarrow> read_call published (sv_db s) ws rid tool arguments identity = Inr cl \<Longrightarrow>
    service_step s (at_phase k (Some (Checked cl)) s)"
| draw_call: "sv_clients s k = Some (Checked cl) \<Longrightarrow>
    cl_requirement cl = None \<or>
      live_approval (sv_db s) (cl_workspace cl) (cl_run cl) (ts_name (cl_spec cl)) = None \<Longrightarrow>
    fresh vid s \<Longrightarrow>
    service_step s (issuing [vid] (at_phase k (Some (Fresh cl vid)) s))"
| find_approval: "sv_clients s k = Some (Checked cl) \<Longrightarrow> cl_requirement cl \<noteq> None \<Longrightarrow>
    live_approval (sv_db s) (cl_workspace cl) (cl_run cl) (ts_name (cl_spec cl)) = Some a \<Longrightarrow>
    require_approved_arguments a (cl_arguments cl) = Inr () \<Longrightarrow> fresh vid s \<Longrightarrow>
    service_step s (issuing [vid] (at_phase k (Some (Resuming cl vid a)) s))"
| resume: "sv_clients s k = Some (Resuming cl vid a) \<Longrightarrow>
    resumed_start (sv_db s) (cl_run cl) (cf_correlation_id a) = Inr (n, request) \<Longrightarrow>
    service_step s (at_phase k (Some (Resumed cl vid a n request)) s)"
| start: "sv_clients s k = Some (Fresh cl vid) \<Longrightarrow> observed_by (cl_policy cl) before \<Longrightarrow>
    request = target_request_id (cl_spec cl) (cl_supplied cl) vid \<Longrightarrow>
    fresh gid s \<Longrightarrow> fresh gid' s \<Longrightarrow> fresh cid s \<Longrightarrow>
    start_invocation surface_of clock now gid gid' cid cl vid request before (sv_db s) = Inr (out, db') \<Longrightarrow>
    service_step s (issuing [gid, gid', cid] (at_phase k (after_start cl vid request before out) (committed db' s)))"
| claim: "sv_clients s k = Some (Resumed cl vid a n request) \<Longrightarrow> observed_by (cl_policy cl) before \<Longrightarrow>
    observation_hash before = Inr (cf_state_binding_hash a) \<Longrightarrow>
    claim_approval now (cl_workspace cl) a (sv_db s) = Inr db' \<Longrightarrow>
    service_step s (at_phase k (Some (Dispatching cl vid (cf_correlation_id a) request n before)) (committed db' s))"
| stale: "sv_clients s k = Some (Resumed cl vid a n request) \<Longrightarrow> observed_by (cl_policy cl) before \<Longrightarrow>
    observation_hash before = Inr h \<Longrightarrow> h \<noteq> cf_state_binding_hash a \<Longrightarrow>
    stale_approval now (cl_workspace cl) (cl_run cl) a before (sv_db s) = Inr db' \<Longrightarrow>
    service_step s (at_phase k None (committed db' s))"
| dispatch: "sv_clients s k = Some (Dispatching cl vid c request n before) \<Longrightarrow>
    service_step s (handed_over (cl_run cl, c, ts_name (cl_spec cl))
      (at_phase k (Some (Executing cl vid c request n before)) s))"
| terminate: "sv_clients s k = Some (Executing cl vid c request n before) \<Longrightarrow>
    (\<forall>r. result = Some r \<longrightarrow> check_terminal_shape r = Inr r) \<Longrightarrow> (result = None \<longleftrightarrow> failure \<noteq> None) \<Longrightarrow>
    (\<forall>ob. after = Some ob \<longrightarrow> observed_by (cl_policy cl) ob) \<Longrightarrow>
    terminate_invocation now cl vid c request n before after result failure duration (sv_db s) = Inr db' \<Longrightarrow>
    service_step s (at_phase k None (committed db' s))"
| vanish: "service_step s (at_phase k None s)"
| read_request: "sv_clients s k = None \<Longrightarrow> pending_request (sv_db s) ws rid cid = Inr a \<Longrightarrow>
    service_step s (at_phase k (Some (Deciding ws rid a d)) s)"
| decide: "sv_clients s k = Some (Deciding ws rid a d) \<Longrightarrow> fresh gid s \<Longrightarrow>
    decide_request clock now gid ws rid a d (sv_db s) = Inr db' \<Longrightarrow>
    service_step s (issuing [gid] (at_phase k None (committed db' s)))"
| read_lapsed: "sv_clients s k = None \<Longrightarrow> lapsed_request clock (sv_db s) ws rid = Some a \<Longrightarrow>
    service_step s (at_phase k (Some (Expiring ws rid a)) s)"
| expire: "sv_clients s k = Some (Expiring ws rid a) \<Longrightarrow> fresh gid s \<Longrightarrow>
    refuse_request now gid ws rid a Cf_Expired Ev_ConfirmationExpired (sv_db s) = Inr db' \<Longrightarrow>
    service_step s (issuing [gid] (at_phase k None (committed db' s)))"
| read_selection: "sv_clients s k = None \<Longrightarrow> read_configuration serving ws (sv_db s) = Inr sel \<Longrightarrow>
    service_step s (at_phase k (Some (Arming ws sel source)) s)"
| arm: "sv_clients s k = Some (Arming ws sel source) \<Longrightarrow> fresh rid s \<Longrightarrow> fresh gid s \<Longrightarrow>
    arm_run now gid serving rid ws sel ob fault source (sv_db s) = Inr db' \<Longrightarrow>
    service_step s (issuing [rid, gid] (at_phase k None (committed db' s)))"
| begin_verifying: "sv_clients s k = None \<Longrightarrow> begin_verification ws rid (sv_db s) = Inr (jd, db') \<Longrightarrow>
    service_step s (at_phase k (Some (Judging ws rid jd)) (committed db' s))"
| seal: "sv_clients s k = Some (Judging ws rid jd) \<Longrightarrow> fresh gid s \<Longrightarrow>
    evaluate_run text_of repr_of validate (jd_contract jd) effects (jd_events jd) (jd_initial jd)
      (Some (as_context final)) = Inr e \<Longrightarrow>
    seal_verdict now gid ws rid final e artifact (sv_db s) = Inr db' \<Longrightarrow>
    service_step s (issuing [gid] (at_phase k None (committed db' s)))"
| abandon: "sv_clients s k = Some (Judging ws rid jd) \<Longrightarrow> fresh gid s \<Longrightarrow>
    abandon_run now gid ws rid (sv_db s) = Inr db' \<Longrightarrow>
    service_step s (issuing [gid] (at_phase k None (committed db' s)))"
| reset: "reset_workspace now ws purge (sv_db s) = Inr db' \<Longrightarrow> service_step s (committed db' s)"
| capture: "capture_surface surface_of now ws rid surface (sv_db s) = Inr db' \<Longrightarrow>
    service_step s (committed db' s)"
| select_profile: "select_failure_profile ws profile (sv_db s) = Inr db' \<Longrightarrow> service_step s (committed db' s)"
| select_mode: "select_scenario_mode ws mode supported (sv_db s) = Inr db' \<Longrightarrow> service_step s (committed db' s)"
| select_contract: "fresh gid s \<Longrightarrow>
    select_contract now gid serving compatible ws cid (sv_db s) = Inr db' \<Longrightarrow>
    service_step s (issuing [gid] (committed db' s))"
| aside: "aside (sv_db s) db' \<Longrightarrow> service_step s (committed db' s)"

text \<open>The service starts without runs; workspaces and contracts may already be there.\<close>

definition initial_service :: "service \<Rightarrow> bool" where
  "initial_service s \<longleftrightarrow>
     db_runs (sv_db s) = [] \<and> db_events (sv_db s) = [] \<and> db_confirmations (sv_db s) = [] \<and>
     sv_clients s = (\<lambda>_. None) \<and> sv_issued s = {} \<and> sv_sent s = []"

inductive service_reach :: "service \<Rightarrow> bool" where
  initial: "initial_service s \<Longrightarrow> service_reach s"
| step: "service_reach s \<Longrightarrow> service_step s s' \<Longrightarrow> service_reach s'"

text \<open>A service that keeps running from a state it has reached\<close>

inductive service_runs :: "service \<Rightarrow> service \<Rightarrow> bool" where
  here: "service_runs s s"
| onward: "service_runs s t \<Longrightarrow> service_step t u \<Longrightarrow> service_runs s u"

lemma service_runs_reach: "service_runs s t \<Longrightarrow> service_reach s \<Longrightarrow> service_reach t"
  by (induction rule: service_runs.induct) (auto intro: service_reach.step)

subsection \<open>What a run looks like from outside\<close>

text \<open>The tools the run's contract protects\<close>

definition protected_by :: "database \<Rightarrow> pystr \<Rightarrow> pystr \<Rightarrow> bool" where
  "protected_by db rid tool \<longleftrightarrow>
     (\<exists>r c. rows_of db rid = [r] \<and> run_contract db r = Some c \<and> protects c tool)"

text \<open>The calls that may act on the target, and those still to be handed over\<close>

fun phase_work :: "phase \<Rightarrow> (pystr \<times> pystr \<times> pystr) option" where
  "phase_work (Dispatching cl vid c request n before) = Some (cl_run cl, c, ts_name (cl_spec cl))"
| "phase_work (Executing cl vid c request n before) = Some (cl_run cl, c, ts_name (cl_spec cl))"
| "phase_work _ = None"

fun phase_ready :: "phase \<Rightarrow> (pystr \<times> pystr \<times> pystr) option" where
  "phase_ready (Dispatching cl vid c request n before) = Some (cl_run cl, c, ts_name (cl_spec cl))"
| "phase_ready _ = None"

definition held :: "(phase \<Rightarrow> (pystr \<times> pystr \<times> pystr) option) \<Rightarrow> (nat \<Rightarrow> phase option) \<Rightarrow> pystr \<Rightarrow> (pystr \<times> pystr) set" where
  "held f cs rid = {w. \<exists>k p. cs k = Some p \<and> f p = Some (rid, w)}"

definition sent_of :: "service \<Rightarrow> pystr \<Rightarrow> (pystr \<times> pystr) list" where
  "sent_of s rid = map snd (filter (\<lambda>w. fst w = rid) (sv_sent s))"

definition journey_of :: "service \<Rightarrow> pystr \<Rightarrow> journey" where
  "journey_of s rid =
     \<lparr>jn_status = the (status_of (sv_db s) rid), jn_trace = trace_of (sv_db s) rid,
      jn_requests = requests_of (sv_db s) rid, jn_working = held phase_work (sv_clients s) rid,
      jn_ready = held phase_ready (sv_clients s) rid, jn_sent = sent_of s rid\<rparr>"

lemma service_simps [simp]:
  "sv_db (at_phase k p s) = sv_db s" "sv_db (committed db s) = db" "sv_db (issuing ids s) = sv_db s"
  "sv_db (handed_over w s) = sv_db s"
  "sv_clients (at_phase k p s) = (sv_clients s)(k := p)" "sv_clients (committed db s) = sv_clients s"
  "sv_clients (issuing ids s) = sv_clients s" "sv_clients (handed_over w s) = sv_clients s"
  "sv_issued (at_phase k p s) = sv_issued s" "sv_issued (committed db s) = sv_issued s"
  "sv_issued (issuing ids s) = sv_issued s \<union> set ids" "sv_issued (handed_over w s) = sv_issued s"
  "sv_sent (at_phase k p s) = sv_sent s" "sv_sent (committed db s) = sv_sent s"
  "sv_sent (issuing ids s) = sv_sent s" "sv_sent (handed_over w s) = sv_sent s @ [w]"
  by (simp_all add: at_phase_def committed_def issuing_def handed_over_def)

end
