(* ===== verification/Refinement.thy ===== *)
theory Refinement
  imports Service
begin

section \<open>The service implements the protocol\<close>

text \<open>
  A simulation: whatever clients are in progress and however they interleave, a step of the service
  is, for every run that exists before and after it, a step of the abstract protocol, and a run that
  appears is freshly armed. The invariant that carries it ties what each client has read to the
  tables as they are now.
\<close>

subsection \<open>Facts about the tables alone\<close>

definition known :: "database \<Rightarrow> pystr set" where
  "known db = rn_id ` set (db_runs db) \<union> cf_id ` set (db_confirmations db) \<union>
     cf_correlation_id ` set (db_confirmations db) \<union> (\<Union>r. correlations (trace_of db r))"

definition contracted :: "database \<Rightarrow> bool" where
  "contracted db \<longleftrightarrow> (\<forall>r\<in>set (db_runs db). run_contract db r \<noteq> None)"

definition db_ok :: "pystr set \<Rightarrow> database \<Rightarrow> bool" where
  "db_ok I db \<longleftrightarrow> keyed db \<and> numbered db \<and> facts_named db \<and> homed db \<and> contracted db \<and> known db \<subseteq> I"

lemma run_contract_ident:
  "run_ident r = run_ident r' \<Longrightarrow> db_contracts db = db_contracts db' \<Longrightarrow> run_contract db r = run_contract db' r'"
  by (simp add: run_ident_def run_contract_def stored_contract_def)

lemma rows_of_idents: "map run_ident (rows_of db rid) = filter (\<lambda>i. fst i = rid) (map run_ident (db_runs db))"
  by (simp add: rows_of_def filter_map o_def run_ident_def)

lemma protected_by_idents:
  assumes "map run_ident (rows_of db' rid) = map run_ident (rows_of db rid)" "db_contracts db' = db_contracts db"
  shows "protected_by db' rid = protected_by db rid"
proof -
  have "\<exists>r'. rows_of db' rid = [r'] \<and> run_ident r' = run_ident r" if "rows_of db rid = [r]" for r
    using that assms(1) by auto
  moreover have "\<exists>r. rows_of db rid = [r] \<and> run_ident r' = run_ident r" if "rows_of db' rid = [r']" for r'
    using that assms(1) by (cases "rows_of db rid") auto
  ultimately show ?thesis
    unfolding protected_by_def by (intro ext) (metis run_contract_ident assms(2))
qed

lemma protected_by_grows: "grows S L db db' \<Longrightarrow> protected_by db' rid = protected_by db rid"
  by (intro protected_by_idents) (simp_all add: rows_of_idents grows_def)

lemma grows_idents: "grows S L db db' \<Longrightarrow> request_idents db' = request_idents db @ L"
  by (simp add: grows_def)

lemma request_ident_images:
  "cf_id ` set (db_confirmations db) = fst ` set (request_idents db)"
  "cf_correlation_id ` set (db_confirmations db) = (fst \<circ> snd \<circ> snd \<circ> snd) ` set (request_idents db)"
  "map cf_id (db_confirmations db) = map fst (request_idents db)"
  by (simp_all add: request_idents_def request_ident_def image_image o_def)

lemma tied_idents:
  "tied db \<longleftrightarrow> (\<forall>(i, ws, rid, c, t)\<in>set (request_idents db). owned db ws rid)"
  by (simp add: tied_def request_idents_def request_ident_def)

text \<open>What an open request adds\<close>

fun new_request :: "database \<Rightarrow> pystr set \<Rightarrow> (pystr \<times> pystr \<times> pystr \<times> pystr \<times> pystr) list \<Rightarrow> bool" where
  "new_request db I [] = True"
| "new_request db I [(i, ws, rid, c, t)] = (owned db ws rid \<and> i \<in> I \<and> c \<in> I \<and> i \<notin> known db)"
| "new_request db I _ = False"

lemma new_request_cases:
  assumes "new_request db I L"
  obtains "L = []" | i ws rid c t where "L = [(i, ws, rid, c, t)]" "owned db ws rid" "i \<in> I" "c \<in> I" "i \<notin> known db"
  using assms by (cases "(db, I, L)" rule: new_request.cases) auto

lemma known_confirmation: "cf_id ` set (db_confirmations db) \<subseteq> known db" "cf_correlation_id ` set (db_confirmations db) \<subseteq> known db"
  "rn_id ` set (db_runs db) \<subseteq> known db" "correlations (trace_of db r) \<subseteq> known db"
  by (auto simp: known_def)

lemma db_ok_grows:
  assumes ok: "db_ok I db" and g: "grows S L db db'" and I: "I \<subseteq> I'"
    and tr: "\<And>r. r \<in> S \<Longrightarrow> correlations (trace_of db' r) \<subseteq> I'" and L: "new_request db I' L"
  shows "db_ok I' db'"
proof -
  have ids: "map run_ident (db_runs db') = map run_ident (db_runs db)" and con: "db_contracts db' = db_contracts db"
    and conf: "request_idents db' = request_idents db @ L" using g by (simp_all add: grows_def)
  have own: "owned db' ws r = owned db ws r" for ws r using owned_grows[OF g] .
  have "ids_ok db'" using grows_ids_ok[OF g] ok by (simp add: db_ok_def keyed_def)
  moreover have "tied db'" using ok L own
    by (auto simp: tied_idents conf db_ok_def keyed_def elim!: new_request_cases)
  moreover have "distinct (map cf_id (db_confirmations db'))"
    using ok L known_confirmation(1)[of db]
    unfolding request_ident_images(3) conf
    by (auto simp: db_ok_def keyed_def request_ident_images elim!: new_request_cases)
  ultimately have "keyed db'" by (simp add: keyed_def)
  moreover have "contracted db'"
  proof (unfold contracted_def, rule ballI)
    fix r' assume "r' \<in> set (db_runs db')"
    then have "run_ident r' \<in> set (map run_ident (db_runs db))" unfolding ids[symmetric] by simp
    then obtain r where "r \<in> set (db_runs db)" "run_ident r' = run_ident r" by auto
    then show "run_contract db' r' \<noteq> None"
      using ok run_contract_ident[OF _ con, of r' r] by (auto simp: db_ok_def contracted_def)
  qed
  moreover have "known db' \<subseteq> I'"
  proof -
    have "map fst (map run_ident (db_runs db')) = map fst (map run_ident (db_runs db))" by (simp only: ids)
    then have "map rn_id (db_runs db') = map rn_id (db_runs db)" by (simp add: o_def run_ident_def)
    then have "rn_id ` set (db_runs db') = rn_id ` set (db_runs db)" by (metis list.set_map)
    then have "rn_id ` set (db_runs db') \<subseteq> I'" using ok I known_confirmation(3)[of db] by (auto simp: db_ok_def)
    moreover have "cf_id ` set (db_confirmations db') \<subseteq> I'" "cf_correlation_id ` set (db_confirmations db') \<subseteq> I'"
      using ok I L known_confirmation(1,2)[of db] unfolding request_ident_images conf
      by (auto simp: db_ok_def elim!: new_request_cases)
    moreover have "correlations (trace_of db' r) \<subseteq> I'" for r
    proof (cases "r \<in> S")
      case False
      then have "trace_of db' r = trace_of db r" using g by (simp add: grows_def trace_of_def)
      then show ?thesis using ok I known_confirmation(4)[of db r] by (auto simp: db_ok_def)
    qed (use tr in blast)
    ultimately show ?thesis unfolding known_def by blast
  qed
  ultimately show ?thesis using ok g by (simp add: db_ok_def grows_def)
qed

lemma db_ok_moves:
  assumes "db_ok I db" "moves L rid db db' (st, tr, qs)" "I \<subseteq> I'" "correlations tr \<subseteq> I'" "new_request db I' L"
  shows "db_ok I' db'"
  using db_ok_grows[OF assms(1) _ assms(3) _ assms(5), of "{rid}" db'] assms(2,4) by (auto simp: moves_def view_def)

lemma db_ok_quietly: "db_ok I db \<Longrightarrow> quietly rid db db' \<Longrightarrow> I \<subseteq> I' \<Longrightarrow> db_ok I' db'"
  using known_confirmation(4)[of db rid]
    db_ok_moves[of I db "[]" rid db' "status_of db rid" "trace_of db rid" "requests_of db rid" I']
  by (auto simp: view_def db_ok_def)

subsection \<open>What a client has read stays true\<close>

definition later :: "pystr set \<Rightarrow> database \<Rightarrow> database \<Rightarrow> bool" where
  "later I db db' \<longleftrightarrow>
     (\<forall>r\<in>I. run_exists db' r \<longrightarrow> run_exists db r \<and> (\<forall>ws. owned db ws r \<longrightarrow> owned db' ws r) \<and>
        protected_by db' r = protected_by db r) \<and>
     (\<forall>c\<in>set (db_confirmations db'). cf_id c \<in> I \<longrightarrow>
        (\<exists>c0\<in>set (db_confirmations db). request_ident c0 = request_ident c))"

lemma later_refl [simp]: "later I db db"
  by (auto simp: later_def)

lemma later_grows:
  assumes g: "grows S L db db'" and L: "\<And>x. x \<in> set L \<Longrightarrow> fst x \<notin> I"
  shows "later I db db'"
proof -
  have "\<exists>c0\<in>set (db_confirmations db). request_ident c0 = request_ident c"
    if c: "c \<in> set (db_confirmations db')" "cf_id c \<in> I" for c
  proof -
    have "request_ident c \<in> set (request_idents db @ L)"
      using c(1) unfolding grows_idents[OF g, symmetric] by (simp add: request_idents_def)
    moreover have "request_ident c \<notin> set L" using L[of "request_ident c"] c(2) by (auto simp: request_ident_def)
    ultimately have "request_ident c \<in> set (request_idents db)" by simp
    then show ?thesis by (auto simp: request_idents_def)
  qed
  then show ?thesis
    using grows_run_exists[OF g] owned_grows[OF g] protected_by_grows[OF g] by (simp add: later_def)
qed

definition call_ok :: "pystr set \<Rightarrow> database \<Rightarrow> call \<Rightarrow> bool" where
  "call_ok I db cl \<longleftrightarrow> cl_run cl \<in> I \<and>
     (run_exists db (cl_run cl) \<longrightarrow> owned db (cl_workspace cl) (cl_run cl) \<and>
        (cl_requirement cl \<noteq> None \<longleftrightarrow> protected_by db (cl_run cl) (ts_name (cl_spec cl))))"

definition row_ok :: "pystr set \<Rightarrow> database \<Rightarrow> confirmation_row \<Rightarrow> bool" where
  "row_ok I db a \<longleftrightarrow> cf_id a \<in> I \<and>
     (\<forall>c\<in>set (db_confirmations db). cf_id c = cf_id a \<longrightarrow> request_ident c = request_ident a)"

definition approval_for :: "call \<Rightarrow> confirmation_row \<Rightarrow> bool" where
  "approval_for cl a \<longleftrightarrow> cf_workspace_id a = cl_workspace cl \<and> cf_run_id a = cl_run cl \<and>
     cf_tool_name a = ts_name (cl_spec cl)"

fun phase_ok :: "pystr set \<Rightarrow> database \<Rightarrow> phase \<Rightarrow> bool" where
  "phase_ok I db (Checked cl) = call_ok I db cl"
| "phase_ok I db (Fresh cl vid) = call_ok I db cl"
| "phase_ok I db (Resuming cl vid a) = (call_ok I db cl \<and> row_ok I db a \<and> approval_for cl a)"
| "phase_ok I db (Resumed cl vid a n r) = (call_ok I db cl \<and> row_ok I db a \<and> approval_for cl a)"
| "phase_ok I db (Dispatching cl vid c r n b) = call_ok I db cl"
| "phase_ok I db (Executing cl vid c r n b) = call_ok I db cl"
| "phase_ok I db (Deciding ws rid a d) = (row_ok I db a \<and> cf_workspace_id a = ws \<and> cf_run_id a = rid)"
| "phase_ok I db (Expiring ws rid a) = (row_ok I db a \<and> cf_workspace_id a = ws \<and> cf_run_id a = rid)"
| "phase_ok I db (Arming ws sel source) = True"
| "phase_ok I db (Judging ws rid jd) = (rid \<in> I)"

lemma call_ok_later: "call_ok I db cl \<Longrightarrow> later I db db' \<Longrightarrow> I \<subseteq> I' \<Longrightarrow> call_ok I' db' cl"
  by (auto simp: call_ok_def later_def)

lemma row_ok_later:
  assumes "row_ok I db a" "later I db db'" "I \<subseteq> I'"
  shows "row_ok I' db' a"
proof -
  have "request_ident c = request_ident a" if c: "c \<in> set (db_confirmations db')" "cf_id c = cf_id a" for c
  proof -
    have "cf_id c \<in> I" using assms(1) c(2) by (simp add: row_ok_def)
    then obtain c0 where "c0 \<in> set (db_confirmations db)" "request_ident c0 = request_ident c"
      using assms(2) c(1) by (auto simp: later_def)
    then show ?thesis using assms(1) c(2) by (auto simp: row_ok_def request_ident_iff)
  qed
  then show ?thesis using assms(1,3) by (auto simp: row_ok_def)
qed

lemma phase_ok_later: "phase_ok I db p \<Longrightarrow> later I db db' \<Longrightarrow> I \<subseteq> I' \<Longrightarrow> phase_ok I' db' p"
  using call_ok_later row_ok_later by (cases p) auto

text \<open>A row read under its key is the row, for as long as there is one.\<close>

lemma row_ok_known:
  assumes "row_ok I db a" "c \<in> set (db_confirmations db)" "cf_id c = cf_id a"
  shows "request_ident a \<in> set (request_idents db)"
proof -
  have "request_ident c = request_ident a" using assms by (simp add: row_ok_def)
  then show ?thesis using assms(2) by (metis image_eqI list.set_map request_idents_def)
qed

lemma row_ok_read: "db_ok I db \<Longrightarrow> a \<in> set (db_confirmations db) \<Longrightarrow> row_ok I db a"
  using known_confirmation(1)[of db] keyed_request[of db a]
  by (auto simp: row_ok_def db_ok_def keyed_def distinct_map dest: inj_onD)

subsection \<open>The clients\<close>

text \<open>No two clients work under one correlation; a drawn identifier is nobody's until it starts.\<close>

definition unique_work :: "(nat \<Rightarrow> phase option) \<Rightarrow> bool" where
  "unique_work cs \<longleftrightarrow>
     (\<forall>k k' p p' r c t t'. cs k = Some p \<longrightarrow> cs k' = Some p' \<longrightarrow> phase_work p = Some (r, c, t) \<longrightarrow>
        phase_work p' = Some (r, c, t') \<longrightarrow> k = k')"

fun claims :: "phase \<Rightarrow> pystr option" where
  "claims (Fresh cl vid) = Some vid"
| "claims (Dispatching cl vid c r n b) = Some c"
| "claims (Executing cl vid c r n b) = Some c"
| "claims _ = None"

definition fresh_ok :: "pystr set \<Rightarrow> database \<Rightarrow> (nat \<Rightarrow> phase option) \<Rightarrow> bool" where
  "fresh_ok I db cs \<longleftrightarrow>
     (\<forall>k cl vid. cs k = Some (Fresh cl vid) \<longrightarrow> vid \<in> I \<and> vid \<notin> known db \<and>
        (\<forall>k' p. k' \<noteq> k \<longrightarrow> cs k' = Some p \<longrightarrow> claims p \<noteq> Some vid)) \<and>
     (\<forall>k p c. cs k = Some p \<longrightarrow> claims p = Some c \<longrightarrow> c \<in> I)"

definition base_inv :: "service \<Rightarrow> bool" where
  "base_inv s \<longleftrightarrow>
     db_ok (sv_issued s) (sv_db s) \<and>
     (\<forall>w\<in>set (sv_sent s). fst w \<in> sv_issued s) \<and>
     (\<forall>k p. sv_clients s k = Some p \<longrightarrow> phase_ok (sv_issued s) (sv_db s) p) \<and>
     unique_work (sv_clients s) \<and> fresh_ok (sv_issued s) (sv_db s) (sv_clients s)"

lemma base_invD:
  assumes "base_inv s"
  shows "db_ok (sv_issued s) (sv_db s)" "\<And>w. w \<in> set (sv_sent s) \<Longrightarrow> fst w \<in> sv_issued s"
    "\<And>k p. sv_clients s k = Some p \<Longrightarrow> phase_ok (sv_issued s) (sv_db s) p"
    "unique_work (sv_clients s)" "fresh_ok (sv_issued s) (sv_db s) (sv_clients s)"
    "keyed (sv_db s)" "numbered (sv_db s)" "facts_named (sv_db s)" "homed (sv_db s)" "contracted (sv_db s)"
    "known (sv_db s) \<subseteq> sv_issued s" "ids_ok (sv_db s)" "tied (sv_db s)"
  using assms unfolding base_inv_def db_ok_def keyed_def by blast+

lemma work_claims: "phase_work p = Some (r, c, t) \<Longrightarrow> claims p = Some c"
  by (cases p rule: phase_work.cases) simp_all

lemma ready_work: "phase_ready p = Some w \<Longrightarrow> phase_work p = Some w"
  by (cases p rule: phase_ready.cases) simp_all

text \<open>One client moves: what is held afterwards\<close>

definition held_elsewhere where
  "held_elsewhere f cs k r w \<longleftrightarrow> (\<exists>j p. j \<noteq> k \<and> cs j = Some p \<and> f p = Some (r, w))"

lemma in_held_upd:
  "w \<in> held f (cs(k := x)) r \<longleftrightarrow> held_elsewhere f cs k r w \<or> (\<exists>q. x = Some q \<and> f q = Some (r, w))"
proof
  assume "w \<in> held f (cs(k := x)) r"
  then obtain j p where "(cs(k := x)) j = Some p" "f p = Some (r, w)" by (auto simp: held_def)
  then show "held_elsewhere f cs k r w \<or> (\<exists>q. x = Some q \<and> f q = Some (r, w))"
    unfolding held_elsewhere_def by (cases "j = k") auto
next
  assume "held_elsewhere f cs k r w \<or> (\<exists>q. x = Some q \<and> f q = Some (r, w))"
  then obtain j p where "(cs(k := x)) j = Some p" "f p = Some (r, w)"
    unfolding held_elsewhere_def by (metis fun_upd_other fun_upd_same)
  then show "w \<in> held f (cs(k := x)) r" unfolding held_def by blast
qed

lemma in_held: "w \<in> held f cs r \<longleftrightarrow> held_elsewhere f cs k r w \<or> (\<exists>p. cs k = Some p \<and> f p = Some (r, w))"
  using in_held_upd[of w f cs k "cs k" r] by simp

lemma held_others:
  assumes "\<And>p. cs k = Some p \<Longrightarrow> f p = None" "\<And>q. x = Some q \<Longrightarrow> f q = None"
  shows "held f (cs(k := x)) r = held f cs r"
proof (rule set_eqI)
  fix w
  show "w \<in> held f (cs(k := x)) r \<longleftrightarrow> w \<in> held f cs r"
    unfolding in_held_upd in_held[of w f cs r k] using assms by fastforce
qed

lemma held_insert:
  assumes "\<And>p. cs k = Some p \<Longrightarrow> f p = None" "x = Some q" "f q = Some (r, w)"
  shows "held f (cs(k := x)) r' = (if r' = r then insert w (held f cs r) else held f cs r')"
proof (rule set_eqI)
  fix v
  have "v \<in> held f cs r' \<longleftrightarrow> held_elsewhere f cs k r' v" for r'
    unfolding in_held[of v f cs r' k] using assms(1) by fastforce
  then show "v \<in> held f (cs(k := x)) r' \<longleftrightarrow> v \<in> (if r' = r then insert w (held f cs r) else held f cs r')"
    unfolding in_held_upd using assms(2,3) by auto
qed

lemma held_remove:
  assumes u: "unique_work cs" and f: "\<And>p w. f p = Some w \<Longrightarrow> phase_work p = Some w"
    and k: "cs k = Some p" "phase_work p = Some (r, w)" "\<And>q. x = Some q \<Longrightarrow> f q = None"
  shows "held f (cs(k := x)) r' = (if r' = r then held f cs r - {w} else held f cs r')"
proof -
  have "k' = k" if h: "cs k' = Some p'" "f p' = Some (r, w)" for k' p'
    using u k(1,2) h(1) f[OF h(2)] unfolding unique_work_def by (cases w) blast
  then have e: "\<not> held_elsewhere f cs k r w" by (auto simp: held_elsewhere_def)
  have o: "r'' = r \<and> w'' = w" if "f p = Some (r'', w'')" for r'' w''
    using f[OF that] k(2) by simp
  show ?thesis
  proof (rule set_eqI)
    fix v
    have "v \<in> held f cs r'' \<longleftrightarrow> held_elsewhere f cs k r'' v \<or> f p = Some (r'', v)" for r''
      unfolding in_held[of v f cs r'' k] using k(1) by auto
    moreover have "v \<in> held f (cs(k := x)) r' \<longleftrightarrow> held_elsewhere f cs k r' v"
      unfolding in_held_upd using k(3) by fastforce
    ultimately show "v \<in> held f (cs(k := x)) r' \<longleftrightarrow> v \<in> (if r' = r then held f cs r - {w} else held f cs r')"
      using o[of r' v] e by (cases "r' = r") auto
  qed
qed

lemma unique_work_upd:
  assumes "unique_work cs"
    and "\<And>p r c t. x = Some p \<Longrightarrow> phase_work p = Some (r, c, t) \<Longrightarrow> c \<notin> fst ` held phase_work (cs(k := None)) r"
  shows "unique_work (cs(k := x))"
proof (unfold unique_work_def, intro allI impI)
  fix a b p q r c t t'
  assume h: "(cs(k := x)) a = Some p" "(cs(k := x)) b = Some q" "phase_work p = Some (r, c, t)" "phase_work q = Some (r, c, t')"
  have held: "c \<in> fst ` held phase_work (cs(k := None)) r" if "d \<noteq> k" "(cs(k := x)) d = Some p'" "phase_work p' = Some (r, c, t'')"
    for d p' t''
  proof -
    have "(c, t'') \<in> held phase_work (cs(k := None)) r"
      using that unfolding in_held_upd held_elsewhere_def by auto
    then show ?thesis by force
  qed
  consider "a = k" "b = k" | "a = k" "b \<noteq> k" | "a \<noteq> k" "b = k" | "a \<noteq> k" "b \<noteq> k" by blast
  then show "a = b"
  proof cases
    case 2
    then show ?thesis using held[OF 2(2) h(2,4)] assms(2)[OF _ h(3)] h(1) by simp
  next
    case 3
    then show ?thesis using held[OF 3(1) h(1,3)] assms(2)[OF _ h(4)] h(2) by simp
  next
    case 4
    then show ?thesis using h assms(1) unfolding unique_work_def by (metis fun_upd_other)
  qed simp
qed

lemma unique_work_drop: "unique_work cs \<Longrightarrow> (\<And>p. x = Some p \<Longrightarrow> phase_work p = None) \<Longrightarrow> unique_work (cs(k := x))"
  by (rule unique_work_upd) auto

lemma unique_work_same:
  assumes "unique_work cs" "cs k = Some p" "x = Some q" "phase_work q = phase_work p"
  shows "unique_work (cs(k := x))"
proof (rule unique_work_upd[OF assms(1)])
  fix p' r c t
  assume h: "x = Some p'" "phase_work p' = Some (r, c, t)"
  have "k' = k" if h': "cs k' = Some p''" "phase_work p'' = Some (r, c, t')" for k' p'' t'
    using assms h h' unfolding unique_work_def by (metis option.inject)
  then have "(c, t') \<notin> held phase_work (cs(k := None)) r" for t'
    unfolding in_held_upd held_elsewhere_def by blast
  then show "c \<notin> fst ` held phase_work (cs(k := None)) r" by force
qed

text \<open>The issued identifiers grow, the tables learn only what the acting client brought.\<close>

lemma fresh_ok_upd:
  assumes ok: "fresh_ok I db cs" and I: "I \<subseteq> I'"
    and db: "\<And>c. c \<in> known db' \<Longrightarrow> c \<in> known db \<or> c \<notin> I \<or> (\<exists>p. cs k = Some p \<and> claims p = Some c)"
    and x: "\<And>p c. x = Some p \<Longrightarrow> claims p = Some c \<Longrightarrow>
      c \<in> I' \<and> (c \<in> known db \<or> c \<notin> I \<or> (\<exists>p. cs k = Some p \<and> claims p = Some c))"
    and xf: "\<And>cl vid. x = Some (Fresh cl vid) \<Longrightarrow> vid \<notin> I \<and> vid \<notin> known db'"
  shows "fresh_ok I' db' (cs(k := x))"
proof -
  have old: "vid \<in> I \<and> vid \<notin> known db \<and> (\<forall>p. cs k = Some p \<longrightarrow> claims p \<noteq> Some vid)"
    if "cs j = Some (Fresh cl vid)" "j \<noteq> k" for j cl vid
    using ok that unfolding fresh_ok_def by metis
  have drawn: "c \<in> I'" if "(cs(k := x)) j = Some p" "claims p = Some c" for j p c
    using ok x I that by (cases "j = k") (auto simp: fresh_ok_def)
  have "vid \<in> I' \<and> vid \<notin> known db' \<and> (\<forall>k' p. k' \<noteq> j \<longrightarrow> (cs(k := x)) k' = Some p \<longrightarrow> claims p \<noteq> Some vid)"
    if j: "(cs(k := x)) j = Some (Fresh cl vid)" for j cl vid
  proof (cases "j = k")
    case True
    then have v: "vid \<notin> I" "vid \<notin> known db'" using j xf by auto
    moreover have "claims p \<noteq> Some vid" if "k' \<noteq> j" "(cs(k := x)) k' = Some p" for k' p
      using ok that True v(1) by (auto simp: fresh_ok_def)
    ultimately show ?thesis using drawn[OF j, of vid] by auto
  next
    case False
    then have j': "cs j = Some (Fresh cl vid)" using j by simp
    note o = old[OF j' False]
    have "claims p \<noteq> Some vid" if h: "k' \<noteq> j" "(cs(k := x)) k' = Some p" for k' p
    proof (cases "k' = k")
      case True
      then show ?thesis using x[of p vid] h(2) o by auto
    next
      case False
      then show ?thesis using ok j' h by (auto simp: fresh_ok_def)
    qed
    moreover have "vid \<notin> known db'" using db[of vid] o by auto
    ultimately show ?thesis using o I by blast
  qed
  then show ?thesis using drawn unfolding fresh_ok_def by blast
qed

subsection \<open>One step, one run\<close>

definition acting :: "service \<Rightarrow> nat \<Rightarrow> pystr \<Rightarrow> bool" where
  "acting s k c \<longleftrightarrow> (\<exists>p. sv_clients s k = Some p \<and> claims p = Some c)"

lemma acting_issued: "base_inv s \<Longrightarrow> acting s k c \<Longrightarrow> c \<in> sv_issued s"
  using base_invD(5)[of s] by (auto simp: acting_def fresh_ok_def)

text \<open>
  A run that was there takes a protocol step, keeps its protected tools and its owner, and its
  events are only added to. A run that appears has a new identifier, stands freshly armed, came
  alone, and its workspace had no unfinished run.
\<close>

definition keeps :: "service \<Rightarrow> service \<Rightarrow> pystr \<Rightarrow> bool" where
  "keeps s s' r \<longleftrightarrow>
     journey_step (protected_by (sv_db s) r) (journey_of s r) (journey_of s' r) \<and>
     protected_by (sv_db s') r = protected_by (sv_db s) r \<and>
     prefix (events_of (sv_db s) r) (events_of (sv_db s') r) \<and>
     (\<forall>ws. owned (sv_db s) ws r \<longrightarrow> owned (sv_db s') ws r)"

definition arrives :: "service \<Rightarrow> service \<Rightarrow> pystr \<Rightarrow> bool" where
  "arrives s s' r \<longleftrightarrow>
     journey_of s' r = armed_journey \<and> r \<notin> sv_issued s \<and>
     (\<forall>ws. owned (sv_db s') ws r \<longrightarrow> active_runs (sv_db s) ws = []) \<and>
     (\<forall>r'. run_exists (sv_db s') r' \<longrightarrow> run_exists (sv_db s) r' \<or> r' = r)"

definition evolves :: "service \<Rightarrow> service \<Rightarrow> bool" where
  "evolves s s' \<longleftrightarrow>
     (\<forall>r. run_exists (sv_db s') r \<longrightarrow> (if run_exists (sv_db s) r then keeps s s' r else arrives s s' r))"

lemma evolvesI: "(\<And>r. run_exists (sv_db s') r \<Longrightarrow> run_exists (sv_db s) r \<and> keeps s s' r) \<Longrightarrow> evolves s s'"
  by (simp add: evolves_def)

lemma keeps_grows:
  assumes "grows S L (sv_db s) (sv_db s')"
    "journey_step (protected_by (sv_db s) r) (journey_of s r) (journey_of s' r)"
  shows "keeps s s' r"
  using assms(2) protected_by_grows[OF assms(1)] owned_grows[OF assms(1)] assms(1)
  by (simp add: keeps_def grows_def)

lemma evolves_grows:
  assumes "grows S L (sv_db s) (sv_db s')"
    "\<And>r. run_exists (sv_db s) r \<Longrightarrow> journey_step (protected_by (sv_db s) r) (journey_of s r) (journey_of s' r)"
  shows "evolves s s'"
  using assms keeps_grows[OF assms(1)] grows_run_exists[OF assms(1)] by (intro evolvesI) blast

lemma base_step:
  assumes inv: "base_inv s" and s': "s' = issuing ids (at_phase k x (committed db' s))"
    and db: "db_ok (sv_issued s \<union> set ids) db'" "later (sv_issued s) (sv_db s) db'"
    and learnt: "\<And>c. c \<in> known db' \<Longrightarrow> c \<in> known (sv_db s) \<or> c \<notin> sv_issued s \<or> acting s k c"
    and x: "\<And>p. x = Some p \<Longrightarrow> phase_ok (sv_issued s \<union> set ids) db' p"
    and xc: "\<And>p c. x = Some p \<Longrightarrow> claims p = Some c \<Longrightarrow> c \<in> sv_issued s \<union> set ids \<and>
      (c \<in> known (sv_db s) \<or> c \<notin> sv_issued s \<or> acting s k c)"
    and xf: "\<And>cl vid. x = Some (Fresh cl vid) \<Longrightarrow> vid \<notin> sv_issued s \<and> vid \<notin> known db'"
    and u: "unique_work ((sv_clients s)(k := x))"
  shows "base_inv s'"
proof -
  have "fresh_ok (sv_issued s \<union> set ids) db' ((sv_clients s)(k := x))"
    by (rule fresh_ok_upd[OF base_invD(5)[OF inv]]) (use learnt xc xf in \<open>auto simp: acting_def\<close>)
  moreover have "phase_ok (sv_issued s \<union> set ids) db' p" if "((sv_clients s)(k := x)) j = Some p" for j p
    using that x phase_ok_later[OF base_invD(3)[OF inv] db(2)] by (cases "j = k") auto
  ultimately show ?thesis using db(1) u base_invD(2)[OF inv] unfolding base_inv_def s' by auto
qed

text \<open>A read, a draw, a loss: the tables stay.\<close>

lemma later_issued: "db_ok I db \<Longrightarrow> I \<subseteq> I' \<Longrightarrow> db_ok I' db"
  by (auto simp: db_ok_def)

lemma step_client:
  assumes inv: "base_inv s" and s': "s' = issuing ids (at_phase k x s)"
    and old: "\<And>p. sv_clients s k = Some p \<Longrightarrow> phase_work p = None"
    and x: "\<And>p. x = Some p \<Longrightarrow> phase_ok (sv_issued s \<union> set ids) (sv_db s) p \<and> phase_work p = None"
    and xf: "\<And>cl vid. x = Some (Fresh cl vid) \<Longrightarrow> vid \<notin> sv_issued s \<and> vid \<in> set ids"
  shows "base_inv s' \<and> evolves s s'"
proof
  have new: "c \<notin> sv_issued s \<and> c \<in> set ids" if "x = Some p" "claims p = Some c" for p c
    using that x[OF that(1)] xf by (cases p) auto
  show "base_inv s'"
  proof (rule base_step[OF inv])
    show "s' = issuing ids (at_phase k x (committed (sv_db s) s))" by (simp add: s' committed_def)
    show "unique_work ((sv_clients s)(k := x))" using base_invD(4)[OF inv] x by (intro unique_work_drop) auto
    show "vid \<notin> sv_issued s \<and> vid \<notin> known (sv_db s)" if "x = Some (Fresh cl vid)" for cl vid
      using xf[OF that] base_invD(11)[OF inv] by auto
  qed (use later_issued[OF base_invD(1)[OF inv]] x new in auto)
  have "held f (sv_clients s') r = held f (sv_clients s) r" if "f = phase_work \<or> f = phase_ready" for f r
    using old x that unfolding s' by (auto intro!: held_others) (metis not_None_eq ready_work)+
  then show "evolves s s'"
    using journey_step.stutter
    by (intro evolves_grows[of "{}" "[]"]) (simp_all add: s' journey_of_def sent_of_def)
qed

text \<open>A transaction on one run, by one client\<close>

lemma union_regroup: "T' \<subseteq> X \<union> T \<Longrightarrow> R \<union> (A \<union> a) \<union> (B \<union> b) \<union> T' \<subseteq> R \<union> A \<union> B \<union> T \<union> X \<union> a \<union> b"
  by blast

lemma known_grows:
  assumes "grows S L db db'"
  shows "known db' \<subseteq> known db \<union> (\<Union>r\<in>S. correlations (trace_of db' r)) \<union> fst ` set L \<union> (fst \<circ> snd \<circ> snd \<circ> snd) ` set L"
proof -
  have ids: "map run_ident (db_runs db') = map run_ident (db_runs db)" and conf: "request_idents db' = request_idents db @ L"
    using assms by (simp_all add: grows_def)
  have "map fst (map run_ident (db_runs db')) = map fst (map run_ident (db_runs db))" by (simp only: ids)
  then have "map rn_id (db_runs db') = map rn_id (db_runs db)" by (simp add: o_def run_ident_def)
  then have r: "rn_id ` set (db_runs db') = rn_id ` set (db_runs db)" by (metis list.set_map)
  have t: "trace_of db' r = trace_of db r" if "r \<notin> S" for r using assms that by (simp add: grows_def trace_of_def)
  have "(\<Union>r. correlations (trace_of db' r)) \<subseteq> (\<Union>r\<in>S. correlations (trace_of db' r)) \<union> (\<Union>r. correlations (trace_of db r))"
    using t by fastforce
  then show ?thesis unfolding known_def r request_ident_images conf set_append image_Un by (rule union_regroup)
qed

lemma step_one:
  assumes inv: "base_inv s"
    and tx: "moves L rid (sv_db s) db' (Some st, tr, qs)" and ex: "run_exists (sv_db s) rid"
    and s': "s' = issuing ids (at_phase k x (committed db' s))"
    and tr: "\<And>c. c \<in> correlations tr \<Longrightarrow> c \<in> known (sv_db s) \<or> acting s k c"
    and L: "L = [] \<or> (\<exists>i ws c t. L = [(i, ws, rid, c, t)] \<and> owned (sv_db s) ws rid \<and> i \<in> set ids \<and>
      i \<notin> sv_issued s \<and> acting s k c)"
    and x: "\<And>p. x = Some p \<Longrightarrow> phase_ok (sv_issued s) (sv_db s) p"
    and xc: "\<And>p c. x = Some p \<Longrightarrow> claims p = Some c \<Longrightarrow> c \<in> known (sv_db s) \<or> acting s k c"
    and xf: "\<And>cl vid. x \<noteq> Some (Fresh cl vid)"
    and u: "unique_work ((sv_clients s)(k := x))"
    and others: "\<And>r. r \<noteq> rid \<Longrightarrow> held phase_work ((sv_clients s)(k := x)) r = held phase_work (sv_clients s) r \<and>
      held phase_ready ((sv_clients s)(k := x)) r = held phase_ready (sv_clients s) r"
    and step: "journey_step (protected_by (sv_db s) rid) (journey_of s rid)
      \<lparr>jn_status = st, jn_trace = tr, jn_requests = qs, jn_working = held phase_work ((sv_clients s)(k := x)) rid,
       jn_ready = held phase_ready ((sv_clients s)(k := x)) rid, jn_sent = sent_of s rid\<rparr>"
  shows "base_inv s' \<and> evolves s s'"
proof
  have g: "grows {rid} L (sv_db s) db'" and v: "view db' rid = (Some st, tr, qs)" using tx by (simp_all add: moves_def)
  then have t: "trace_of db' rid = tr" by (simp add: view_def)
  have sub: "c \<in> sv_issued s" if "c \<in> known (sv_db s) \<or> acting s k c" for c
    using that base_invD(11)[OF inv] acting_issued[OF inv] by blast
  have "i \<notin> known (sv_db s)" if "i \<notin> sv_issued s" for i using that base_invD(11)[OF inv] by blast
  then have "new_request (sv_db s) (sv_issued s \<union> set ids) L" using L
  proof (elim disjE exE conjE)
    fix i ws c t
    assume h: "\<And>i. i \<notin> sv_issued s \<Longrightarrow> i \<notin> known (sv_db s)" "L = [(i, ws, rid, c, t)]" "owned (sv_db s) ws rid"
      "i \<in> set ids" "i \<notin> sv_issued s" "acting s k c"
    then show ?thesis using h(1)[OF h(5)] sub[of c] by simp
  qed simp
  then have ok: "db_ok (sv_issued s \<union> set ids) db'"
    using db_ok_moves[OF base_invD(1)[OF inv] tx] tr sub by blast
  have lat: "later (sv_issued s) (sv_db s) db'" by (rule later_grows[OF g]) (use L in auto)
  show "base_inv s'"
  proof (rule base_step[OF inv s' ok lat])
    show "c \<in> known (sv_db s) \<or> c \<notin> sv_issued s \<or> acting s k c" if "c \<in> known db'" for c
    proof -
      have "c \<in> known (sv_db s) \<or> c \<in> correlations tr \<or> c \<in> fst ` set L \<or> c \<in> (fst \<circ> snd \<circ> snd \<circ> snd) ` set L"
        using known_grows[OF g] that unfolding t[symmetric] by blast
      moreover have "c \<notin> sv_issued s" if "c \<in> fst ` set L" using L that by auto
      moreover have "acting s k c" if "c \<in> (fst \<circ> snd \<circ> snd \<circ> snd) ` set L" using L that by auto
      ultimately show ?thesis using tr by blast
    qed
    show "phase_ok (sv_issued s \<union> set ids) db' p" if "x = Some p" for p
      using phase_ok_later[OF x[OF that] lat] by simp
    show "c \<in> sv_issued s \<union> set ids \<and> (c \<in> known (sv_db s) \<or> c \<notin> sv_issued s \<or> acting s k c)"
      if "x = Some p" "claims p = Some c" for p c using xc[OF that] sub by blast
    show "vid \<notin> sv_issued s \<and> vid \<notin> known db'" if "x = Some (Fresh cl vid)" for cl vid using xf that by blast
  qed (rule u)
  have "journey_step (protected_by (sv_db s) r) (journey_of s r) (journey_of s' r)" if "run_exists (sv_db s) r" for r
  proof (cases "r = rid")
    case True
    then show ?thesis using step v by (simp add: journey_of_def s' sent_of_def view_def)
  next
    case False
    then have "view db' r = view (sv_db s) r" using grows_view[OF g] by simp
    then have "journey_of s' r = journey_of s r"
      using others[OF False] by (simp add: journey_of_def s' sent_of_def view_def)
    then show ?thesis by (simp add: journey_step.stutter)
  qed
  then show "evolves s s'"
    using g by (intro evolves_grows[of "{rid}" L]) (simp_all add: s')
qed

end
