(* ===== verification/Simulation.thy ===== *)
theory Simulation
  imports Refinement
begin

section \<open>Every step of the service is a step of the protocol\<close>

text \<open>
  The cases of the simulation, one lemma for each kind of step, and the invariant they add up to:
  every run of a reachable service is a reachable run of the protocol. Last, the facts about
  reachable services that the properties rest on.
\<close>

definition runs_ok :: "service \<Rightarrow> bool" where
  "runs_ok s \<longleftrightarrow> (\<forall>r. run_exists (sv_db s) r \<longrightarrow> journey_reach (protected_by (sv_db s) r) (journey_of s r))"

lemma runs_okD:
  assumes "runs_ok s" "run_exists (sv_db s) r"
  shows "journey_inv (protected_by (sv_db s) r) (journey_of s r)"
  using assms journey_reach_inv by (simp add: runs_ok_def)

lemma journey_of_simps [simp]:
  "jn_trace (journey_of s r) = trace_of (sv_db s) r" "jn_requests (journey_of s r) = requests_of (sv_db s) r"
  "jn_working (journey_of s r) = held phase_work (sv_clients s) r"
  "jn_ready (journey_of s r) = held phase_ready (sv_clients s) r" "jn_sent (journey_of s r) = sent_of s r"
  by (simp_all add: journey_of_def)

lemma journey_status: "status_of (sv_db s) r = Some st \<Longrightarrow> jn_status (journey_of s r) = st"
  by (simp add: journey_of_def)

lemma trace_known: "c \<in> correlations (trace_of db r) \<Longrightarrow> c \<in> known db"
  using known_confirmation(4) by blast

lemma request_known:
  "q \<in> set (requests_of db r) \<Longrightarrow> rq_corr q \<in> known db" "q \<in> set (requests_of db r) \<Longrightarrow> rq_id q \<in> known db"
  using known_confirmation(1,2)[of db] by (auto simp: requests_of_def confirmations_of_def request_of_def)

lemma not_known: "base_inv s \<Longrightarrow> i \<notin> sv_issued s \<Longrightarrow> i \<notin> known (sv_db s)"
  using base_invD(11) by blast

subsection \<open>Reads\<close>

lemma read_call_ok:
  assumes b: "base_inv s" and r: "read_call published (sv_db s) ws rid tool arguments identity = Inr cl"
  shows "call_ok (sv_issued s) (sv_db s) cl"
proof -
  let ?db = "sv_db s"
  have ids: "ids_ok ?db" using base_invD(12)[OF b] .
  obtain run spec where run: "find_run ?db ws rid = Some run" and cl: "cl_workspace cl = ws" "cl_run cl = rid"
      "cl_requirement cl = confirmation_requirement (map_option contract_document (run_contract ?db run)) tool"
      "cl_spec cl = spec" and spec: "ts_name spec = tool"
  proof -
    obtain run where run: "find_run ?db ws rid = Some run"
      using r by (auto simp: read_call_def bind_result_Inr invocable_run_Inr)
    then have inv: "invocable_run ?db ws rid = Inr run"
      using r by (auto simp: read_call_def bind_result_Inr invocable_run_Inr)
    then obtain spec where spec: "require_published (published (rn_target_adapter_id run)) tool = Inr spec"
      using r by (auto simp: read_call_def bind_result_Inr Let_def)
    then have "ts_name spec = tool" by (auto simp: require_published_def find_Some_iff split: option.splits)
    then show ?thesis
      using r inv spec run that by (auto simp: read_call_def bind_result_Inr Let_def split: sum.splits)
  qed
  have i: "rid \<in> sv_issued s"
    using find_run_Some[OF run] known_confirmation(3)[of ?db] base_invD(11)[OF b] by blast
  have "rows_of ?db rid = [run]" using find_run_rows[OF ids run] .
  then have "protected_by ?db rid tool \<longleftrightarrow> (\<exists>c. run_contract ?db run = Some c \<and> protects c tool)"
    by (simp add: protected_by_def)
  also have "\<dots> \<longleftrightarrow> cl_requirement cl \<noteq> None"
  proof (cases "run_contract ?db run")
    case None
    then show ?thesis by (simp add: cl(3) confirmation_requirement_def)
  next
    case (Some c)
    then show ?thesis using confirmation_requirement_protects[of c tool] by (simp add: cl(3))
  qed
  finally show ?thesis using i find_run_owned[OF run] cl spec by (simp add: call_ok_def)
qed

lemma live_approval_row:
  assumes "live_approval db ws rid tool = Some a"
  shows "a \<in> set (db_confirmations db)" "cf_workspace_id a = ws" "cf_run_id a = rid" "cf_tool_name a = tool"
    "cf_status a = Cf_Approved"
  using latest_by_mem[OF assms[unfolded live_approval_def]] by simp_all

lemma pending_request_row:
  assumes "pending_request db ws rid cid = Inr a"
  shows "a \<in> set (db_confirmations db)" "cf_workspace_id a = ws" "cf_run_id a = rid" "cf_status a = Cf_Pending"
proof -
  have f: "find_confirmation db ws cid = Some a \<and> cf_run_id a = rid \<and> cf_status a = Cf_Pending"
    using assms by (auto simp: pending_request_def bind_result_Inr split: option.splits if_splits)
  then show "a \<in> set (db_confirmations db)" "cf_workspace_id a = ws" "cf_run_id a = rid" "cf_status a = Cf_Pending"
    by (auto simp: find_confirmation_def find_Some_iff)
qed

lemma lapsed_request_row:
  assumes "lapsed_request clock db ws rid = Some a"
  shows "a \<in> set (db_confirmations db)" "cf_workspace_id a = ws" "cf_run_id a = rid"
proof -
  have "pending_for_run db ws rid = Some a"
    using assms by (auto simp: lapsed_request_def split: option.splits if_splits)
  from latest_by_mem[OF this[unfolded pending_for_run_def]]
  show "a \<in> set (db_confirmations db)" "cf_workspace_id a = ws" "cf_run_id a = rid" by simp_all
qed

lemma issuing_Nil [simp]: "issuing [] s = s"
  by (simp add: issuing_def)

lemma call_ok_issued: "call_ok I db cl \<Longrightarrow> I \<subseteq> I' \<Longrightarrow> call_ok I' db cl"
  by (auto simp: call_ok_def)

lemma row_ok_issued: "row_ok I db a \<Longrightarrow> I \<subseteq> I' \<Longrightarrow> row_ok I' db a"
  by (auto simp: row_ok_def)

lemma reading_steps:
  assumes b: "base_inv s"
  shows "sv_clients s k = None \<Longrightarrow> read_call published (sv_db s) ws rid tool arguments identity = Inr cl \<Longrightarrow>
      base_inv (at_phase k (Some (Checked cl)) s) \<and> evolves s (at_phase k (Some (Checked cl)) s)"
    and "sv_clients s k = Some (Checked cl) \<Longrightarrow> fresh vid s \<Longrightarrow>
      base_inv (issuing [vid] (at_phase k (Some (Fresh cl vid)) s)) \<and>
      evolves s (issuing [vid] (at_phase k (Some (Fresh cl vid)) s))"
    and "sv_clients s k = Some (Checked cl) \<Longrightarrow>
      live_approval (sv_db s) (cl_workspace cl) (cl_run cl) (ts_name (cl_spec cl)) = Some a \<Longrightarrow>
      base_inv (issuing [vid] (at_phase k (Some (Resuming cl vid a)) s)) \<and>
      evolves s (issuing [vid] (at_phase k (Some (Resuming cl vid a)) s))"
    and "sv_clients s k = Some (Resuming cl vid a) \<Longrightarrow>
      base_inv (at_phase k (Some (Resumed cl vid a n request)) s) \<and>
      evolves s (at_phase k (Some (Resumed cl vid a n request)) s)"
    and "sv_clients s k = None \<Longrightarrow> pending_request (sv_db s) ws rid cid = Inr a \<Longrightarrow>
      base_inv (at_phase k (Some (Deciding ws rid a d)) s) \<and> evolves s (at_phase k (Some (Deciding ws rid a d)) s)"
    and "sv_clients s k = None \<Longrightarrow> lapsed_request clock (sv_db s) ws rid = Some a \<Longrightarrow>
      base_inv (at_phase k (Some (Expiring ws rid a)) s) \<and> evolves s (at_phase k (Some (Expiring ws rid a)) s)"
    and "sv_clients s k = None \<Longrightarrow>
      base_inv (at_phase k (Some (Arming ws sel source)) s) \<and> evolves s (at_phase k (Some (Arming ws sel source)) s)"
proof -
  note ph = base_invD(3)[OF b, of k] and ok = base_invD(1)[OF b]
  show "base_inv (at_phase k (Some (Checked cl)) s) \<and> evolves s (at_phase k (Some (Checked cl)) s)"
    if "sv_clients s k = None" "read_call published (sv_db s) ws rid tool arguments identity = Inr cl"
    by (rule step_client[OF b, of _ "[]"]) (use that read_call_ok[OF b that(2)] in auto)
  show "base_inv (issuing [vid] (at_phase k (Some (Fresh cl vid)) s)) \<and>
      evolves s (issuing [vid] (at_phase k (Some (Fresh cl vid)) s))"
    if "sv_clients s k = Some (Checked cl)" "fresh vid s"
    by (rule step_client[OF b]) (use that ph in \<open>auto simp: fresh_def intro: call_ok_issued\<close>)
  show "base_inv (issuing [vid] (at_phase k (Some (Resuming cl vid a)) s)) \<and>
      evolves s (issuing [vid] (at_phase k (Some (Resuming cl vid a)) s))"
    if "sv_clients s k = Some (Checked cl)"
      "live_approval (sv_db s) (cl_workspace cl) (cl_run cl) (ts_name (cl_spec cl)) = Some a"
  proof (rule step_client[OF b])
    have "call_ok (sv_issued s \<union> set [vid]) (sv_db s) cl" using ph[OF that(1)] by (auto intro: call_ok_issued)
    moreover have "row_ok (sv_issued s \<union> set [vid]) (sv_db s) a"
      using row_ok_issued[OF row_ok_read[OF ok live_approval_row(1)[OF that(2)]]] by blast
    ultimately show "phase_ok (sv_issued s \<union> set [vid]) (sv_db s) p \<and> phase_work p = None"
      if "Some (Resuming cl vid a) = Some p" for p
      using that live_approval_row[OF \<open>live_approval _ _ _ _ = _\<close>] by (auto simp: approval_for_def)
  qed (use that in auto)
  show "base_inv (at_phase k (Some (Resumed cl vid a n request)) s) \<and>
      evolves s (at_phase k (Some (Resumed cl vid a n request)) s)"
    if "sv_clients s k = Some (Resuming cl vid a)"
    by (rule step_client[OF b, of _ "[]"]) (use that ph in auto)
  show "base_inv (at_phase k (Some (Deciding ws rid a d)) s) \<and> evolves s (at_phase k (Some (Deciding ws rid a d)) s)"
    if "sv_clients s k = None" "pending_request (sv_db s) ws rid cid = Inr a"
    by (rule step_client[OF b, of _ "[]"]) (use that pending_request_row[OF that(2)] row_ok_read[OF ok] in auto)
  show "base_inv (at_phase k (Some (Expiring ws rid a)) s) \<and> evolves s (at_phase k (Some (Expiring ws rid a)) s)"
    if "sv_clients s k = None" "lapsed_request clock (sv_db s) ws rid = Some a"
    by (rule step_client[OF b, of _ "[]"]) (use that lapsed_request_row[OF that(2)] row_ok_read[OF ok] in auto)
  show "base_inv (at_phase k (Some (Arming ws sel source)) s) \<and> evolves s (at_phase k (Some (Arming ws sel source)) s)"
    if "sv_clients s k = None"
    by (rule step_client[OF b, of _ "[]"]) (use that in auto)
qed

subsection \<open>Starting, claiming, handing over, ending a call\<close>

lemma start_step:
  assumes b: "base_inv s" and k: "sv_clients s k = Some (Fresh cl vid)"
    and f: "fresh gid s" "fresh gid' s" "fresh cid s"
    and tx: "start_invocation surface_of clock now gid gid' cid cl vid request before (sv_db s) = Inr (out, db')"
    and s': "s' = issuing [gid, gid', cid] (at_phase k (after_start cl vid request before out) (committed db' s))"
  shows "base_inv s' \<and> evolves s s'"
proof -
  let ?db = "sv_db s" and ?cs = "sv_clients s" and ?rid = "cl_run cl" and ?t = "ts_name (cl_spec cl)"
  let ?j = "journey_of s ?rid"
  have ids: "ids_ok ?db" using base_invD(12)[OF b] .
  obtain st where st: "st \<in> {Run_Armed, Run_Running}" "status_of ?db ?rid = Some st" "owned ?db (cl_workspace cl) ?rid"
    and v: "case out of
       StartRefused code \<Rightarrow>
         (\<exists>s'\<in>{Run_Error, Run_Running}. moves [] ?rid ?db db' (Some s', trace_of ?db ?rid, requests_of ?db ?rid))
     | StartedAt n \<Rightarrow> cl_requirement cl = None \<and>
         moves [] ?rid ?db db' (Some Run_Running, trace_of ?db ?rid @ [Started ?t vid], requests_of ?db ?rid)
     | PausedAt n i \<Rightarrow> cl_requirement cl \<noteq> None \<and> i = cid \<and>
         moves [(cid, cl_workspace cl, ?rid, vid, ?t)] ?rid ?db db'
           (Some Run_AwaitingConfirmation, trace_of ?db ?rid @ [Started ?t vid],
            requests_of ?db ?rid @ [\<lparr>rq_id = cid, rq_corr = vid, rq_tool = ?t, rq_status = Cf_Pending\<rparr>])"
    using start_view[OF ids tx] by blast
  have ex: "run_exists ?db ?rid" using owned_exists[OF st(3)] .
  have call: "call_ok (sv_issued s) ?db cl" using base_invD(3)[OF b k] by simp
  then have prot: "cl_requirement cl \<noteq> None \<longleftrightarrow> protected_by ?db ?rid ?t" using ex by (simp add: call_ok_def)
  have act: "acting s k vid" using k by (simp add: acting_def)
  have new: "vid \<notin> known ?db" using base_invD(5)[OF b] k by (simp add: fresh_ok_def)
  have nt: "vid \<notin> correlations (trace_of ?db ?rid)" using new trace_known by blast
  have nr: "vid \<notin> rq_corr ` set (requests_of ?db ?rid)" using new request_known(1) by blast
  have nw: "vid \<notin> fst ` held phase_work ?cs r" for r
  proof
    assume "vid \<in> fst ` held phase_work ?cs r"
    then obtain j p t where j: "?cs j = Some p" "phase_work p = Some (r, vid, t)" by (auto simp: held_def)
    then have "claims p = Some vid" by (simp add: work_claims)
    moreover have "j \<noteq> k" using j k by auto
    ultimately show False using base_invD(5)[OF b] k j(1) unfolding fresh_ok_def by metis
  qed
  have js: "jn_status ?j = st" using journey_status[OF st(2)] .
  have old: "\<And>p. ?cs k = Some p \<Longrightarrow> phase_work p = None" "\<And>p. ?cs k = Some p \<Longrightarrow> phase_ready p = None" using k by simp_all
  have tk: "c \<in> known ?db \<or> acting s k c" if "c \<in> correlations (trace_of ?db ?rid @ [Started ?t vid])" for c
    using that trace_known act by auto
  show ?thesis
  proof (cases out)
    case (StartRefused code)
    then obtain e where e: "e \<in> {Run_Error, Run_Running}"
      "moves [] ?rid ?db db' (Some e, trace_of ?db ?rid, requests_of ?db ?rid)" using v by auto
    have "journey_step (protected_by ?db ?rid) ?j (?j\<lparr>jn_status := e\<rparr>)"
    proof (cases "e = st")
      case True
      then have "?j\<lparr>jn_status := e\<rparr> = ?j" using js by simp
      then show ?thesis by (simp add: journey_step.stutter)
    next
      case False
      then show ?thesis using e(1) st(1) js journey_step.trip[of ?j] journey_step.open_run[of ?j] by auto
    qed
    moreover have h: "held phase_work (?cs(k := None)) r = held phase_work ?cs r"
      "held phase_ready (?cs(k := None)) r = held phase_ready ?cs r" for r
      using held_others[of ?cs k phase_work None r] held_others[of ?cs k phase_ready None r] old by simp_all
    ultimately show ?thesis
      using StartRefused trace_known base_invD(4)[OF b]
      by (intro step_one[OF b e(2) ex s']) (auto intro: unique_work_drop simp: journey_of_def)
  next
    case (StartedAt n)
    then have m: "moves [] ?rid ?db db' (Some Run_Running, trace_of ?db ?rid @ [Started ?t vid], requests_of ?db ?rid)"
      and np: "\<not> protected_by ?db ?rid ?t" using v prot by simp_all
    let ?x = "Some (Dispatching cl vid vid request n before)"
    have h: "held phase_work (?cs(k := ?x)) r = (if r = ?rid then insert (vid, ?t) (held phase_work ?cs r) else held phase_work ?cs r)"
      "held phase_ready (?cs(k := ?x)) r = (if r = ?rid then insert (vid, ?t) (held phase_ready ?cs r) else held phase_ready ?cs r)" for r
      using held_insert[of ?cs k phase_work ?x _ ?rid "(vid, ?t)" r] held_insert[of ?cs k phase_ready ?x _ ?rid "(vid, ?t)" r] old
      by simp_all
    have nw': "(vid, t) \<notin> held phase_work ?cs r" for t r using nw[of r] by force
    have "journey_step (protected_by ?db ?rid) ?j (?j\<lparr>jn_status := Run_Running, jn_trace := jn_trace ?j @ [Started ?t vid],
        jn_working := insert (vid, ?t) (jn_working ?j), jn_ready := insert (vid, ?t) (jn_ready ?j)\<rparr>)"
      by (rule journey_step.start) (use js st(1) np nt nr nw in simp_all)
    moreover have "unique_work (?cs(k := ?x))"
      by (rule unique_work_upd[OF base_invD(4)[OF b]])
        (use nw' held_others[of ?cs k phase_work None] old in auto)
    ultimately show ?thesis
      using StartedAt s' tk act call h
      by (intro step_one[OF b m ex]) (auto simp: journey_of_def)
  next
    case (PausedAt n i)
    then have m: "moves [(cid, cl_workspace cl, ?rid, vid, ?t)] ?rid ?db db'
           (Some Run_AwaitingConfirmation, trace_of ?db ?rid @ [Started ?t vid],
            requests_of ?db ?rid @ [\<lparr>rq_id = cid, rq_corr = vid, rq_tool = ?t, rq_status = Cf_Pending\<rparr>])"
      and p: "protected_by ?db ?rid ?t" using v prot by simp_all
    have ni: "cid \<notin> rq_id ` set (requests_of ?db ?rid)"
      using not_known[OF b] f(3) request_known(2)[of _ ?db ?rid] by (auto simp: fresh_def)
    have h: "held phase_work (?cs(k := None)) r = held phase_work ?cs r"
      "held phase_ready (?cs(k := None)) r = held phase_ready ?cs r" for r
      using held_others[of ?cs k phase_work None r] held_others[of ?cs k phase_ready None r] old by simp_all
    have "journey_step (protected_by ?db ?rid) ?j (?j\<lparr>jn_status := Run_AwaitingConfirmation,
        jn_trace := jn_trace ?j @ [Started ?t vid],
        jn_requests := jn_requests ?j @ [\<lparr>rq_id = cid, rq_corr = vid, rq_tool = ?t, rq_status = Cf_Pending\<rparr>]\<rparr>)"
      by (rule journey_step.ask) (use js st(1) p nt nr nw ni in simp_all)
    then show ?thesis
      using PausedAt s' tk act st(3) f(3) h base_invD(4)[OF b]
      by (intro step_one[OF b m ex]) (auto simp: journey_of_def fresh_def intro: unique_work_drop)
  qed
qed

lemma claimed_row:
  assumes "row_ok I db a" "update_confirmation (cf_workspace_id a) (cf_id a) old change db = (True, db')"
  shows "request_ident a \<in> set (request_idents db)"
proof -
  have "filter (\<lambda>c. cf_id c = cf_id a \<and> cf_workspace_id c = cf_workspace_id a \<and> cf_status c = old)
      (db_confirmations db) \<noteq> []" using assms(2) by (auto simp: update_confirmation_def)
  then obtain c where "c \<in> set (db_confirmations db)" "cf_id c = cf_id a" by (auto simp: filter_empty_conv)
  then show ?thesis using row_ok_known[OF assms(1)] by blast
qed

lemma claim_approval_won:
  "claim_approval now ws a db = Inr db' \<Longrightarrow> \<exists>ch. update_confirmation ws (cf_id a) Cf_Approved ch db = (True, db')"
  by (auto simp: claim_approval_def claim_approved_def split: prod.splits if_splits)

lemma stale_approval_won:
  "stale_approval now ws rid a before db = Inr db' \<Longrightarrow>
   \<exists>ch db1. update_confirmation ws (cf_id a) Cf_Approved ch db = (True, db1)"
  by (auto simp: stale_approval_def split: prod.splits if_splits)

lemma decide_won:
  "refuse_request now gid ws rid a st event db = Inr db' \<Longrightarrow>
   \<exists>ch db1. update_confirmation ws (cf_id a) Cf_Pending ch db = (True, db1)"
  "approve_request now gid ws rid a db = Inr db' \<Longrightarrow>
   \<exists>ch db1. update_confirmation ws (cf_id a) Cf_Pending ch db = (True, db1)"
  by (auto simp: refuse_request_def approve_request_def mark_confirmation_def split: prod.splits if_splits)

lemma status_exists: "run_exists db r \<Longrightarrow> \<exists>st. status_of db r = Some st"
  by (simp add: exists_status)

lemma claim_step:
  assumes b: "base_inv s" and ok: "runs_ok s" and k: "sv_clients s k = Some (Resumed cl vid a n request)"
    and tx: "claim_approval now (cl_workspace cl) a (sv_db s) = Inr db'"
    and s': "s' = at_phase k (Some (Dispatching cl vid (cf_correlation_id a) request n before)) (committed db' s)"
  shows "base_inv s' \<and> evolves s s'"
proof -
  let ?db = "sv_db s" and ?cs = "sv_clients s" and ?rid = "cl_run cl" and ?t = "ts_name (cl_spec cl)" and ?c = "cf_correlation_id a"
  let ?j = "journey_of s ?rid"
  have ph: "call_ok (sv_issued s) ?db cl" "row_ok (sv_issued s) ?db a" "approval_for cl a"
    using base_invD(3)[OF b k] by simp_all
  then have a: "cf_workspace_id a = cl_workspace cl" "cf_run_id a = ?rid" "cf_tool_name a = ?t" by (simp_all add: approval_for_def)
  have tx': "claim_approval now (cf_workspace_id a) a ?db = Inr db'" using tx a by simp
  obtain ch where "update_confirmation (cf_workspace_id a) (cf_id a) Cf_Approved ch ?db = (True, db')"
    using claim_approval_won[OF tx'] by blast
  note row = claimed_row[OF ph(2) this]
  note v = claim_view[OF base_invD(6)[OF b] row tx', unfolded a]
  let ?q = "\<lparr>rq_id = cf_id a, rq_corr = ?c, rq_tool = ?t, rq_status = Cf_Approved\<rparr>"
  have own: "owned ?db (cl_workspace cl) ?rid"
    using keyed_request[OF base_invD(6)[OF b] row] a by metis
  have ex: "run_exists ?db ?rid" using owned_exists[OF own] .
  obtain st where st: "status_of ?db ?rid = Some st" using status_exists[OF ex] by blast
  have known: "?c \<in> known ?db" using request_known(1)[OF v(2)] by simp
  have j: "journey_inv (protected_by ?db ?rid) ?j" using runs_okD[OF ok ex] .
  have "request_ok ?j ?q" using journey_invD(1)[OF j] v(2) by simp
  then have nw: "?c \<notin> fst ` held phase_work ?cs ?rid" by (simp add: request_ok_def)
  then have nw': "(?c, t) \<notin> held phase_work ?cs ?rid" for t by force
  have old: "\<And>p. ?cs k = Some p \<Longrightarrow> phase_work p = None" "\<And>p. ?cs k = Some p \<Longrightarrow> phase_ready p = None" using k by simp_all
  let ?x = "Some (Dispatching cl vid ?c request n before)"
  have h: "held phase_work (?cs(k := ?x)) r = (if r = ?rid then insert (?c, ?t) (held phase_work ?cs r) else held phase_work ?cs r)"
    "held phase_ready (?cs(k := ?x)) r = (if r = ?rid then insert (?c, ?t) (held phase_ready ?cs r) else held phase_ready ?cs r)" for r
    using held_insert[of ?cs k phase_work ?x _ ?rid "(?c, ?t)" r] held_insert[of ?cs k phase_ready ?x _ ?rid "(?c, ?t)" r] old
    by simp_all
  have "journey_step (protected_by ?db ?rid) ?j (?j\<lparr>
      jn_requests := set_request (rq_id ?q) Cf_Approved Cf_Consumed (jn_requests ?j),
      jn_working := insert (rq_corr ?q, rq_tool ?q) (jn_working ?j),
      jn_ready := insert (rq_corr ?q, rq_tool ?q) (jn_ready ?j)\<rparr>)"
    by (rule journey_step.claim) (use v(2) in simp_all)
  moreover have "unique_work (?cs(k := ?x))"
    by (rule unique_work_upd[OF base_invD(4)[OF b]]) (use nw' held_others[of ?cs k phase_work None] old in auto)
  moreover have s2: "s' = issuing [] (at_phase k ?x (committed db' s))" using s' by simp
  ultimately show ?thesis
    using known trace_known ph(1) h st
    by (intro step_one[OF b v(1)[unfolded st] ex s2]) (auto simp: journey_of_def)
qed

lemma stale_step:
  assumes b: "base_inv s" and k: "sv_clients s k = Some (Resumed cl vid a n request)"
    and tx: "stale_approval now (cl_workspace cl) (cl_run cl) a before (sv_db s) = Inr db'"
    and s': "s' = at_phase k None (committed db' s)"
  shows "base_inv s' \<and> evolves s s'"
proof -
  let ?db = "sv_db s" and ?cs = "sv_clients s" and ?rid = "cl_run cl" and ?t = "ts_name (cl_spec cl)"
  let ?j = "journey_of s ?rid"
  have ph: "row_ok (sv_issued s) ?db a" "approval_for cl a" using base_invD(3)[OF b k] by simp_all
  then have a: "cf_workspace_id a = cl_workspace cl" "cf_run_id a = ?rid" "cf_tool_name a = ?t" by (simp_all add: approval_for_def)
  have tx': "stale_approval now (cf_workspace_id a) (cf_run_id a) a before ?db = Inr db'" using tx a by simp
  obtain ch db1 where "update_confirmation (cf_workspace_id a) (cf_id a) Cf_Approved ch ?db = (True, db1)"
    using stale_approval_won[OF tx'] by blast
  note row = claimed_row[OF ph(1) this]
  note v = stale_view[OF base_invD(6)[OF b] row tx', unfolded a]
  have ex: "run_exists ?db ?rid"
    using keyed_request[OF base_invD(6)[OF b] row] a owned_exists by metis
  obtain st where st: "status_of ?db ?rid = Some st" using status_exists[OF ex] by blast
  let ?q = "\<lparr>rq_id = cf_id a, rq_corr = cf_correlation_id a, rq_tool = ?t, rq_status = Cf_Approved\<rparr>"
  have old: "\<And>p. ?cs k = Some p \<Longrightarrow> phase_work p = None" "\<And>p. ?cs k = Some p \<Longrightarrow> phase_ready p = None" using k by simp_all
  have h: "held phase_work (?cs(k := None)) r = held phase_work ?cs r"
      "held phase_ready (?cs(k := None)) r = held phase_ready ?cs r" for r
    using held_others[of ?cs k phase_work None r] held_others[of ?cs k phase_ready None r] old by simp_all
  have "journey_step (protected_by ?db ?rid) ?j
      (?j\<lparr>jn_requests := set_request (rq_id ?q) Cf_Approved Cf_Cancelled (jn_requests ?j)\<rparr>)"
    by (rule journey_step.stale) (use v(2) in simp_all)
  moreover have s2: "s' = issuing [] (at_phase k None (committed db' s))" using s' by simp
  ultimately show ?thesis
    using trace_known h st base_invD(4)[OF b]
    by (intro step_one[OF b v(1)[unfolded st] ex s2]) (auto simp: journey_of_def intro: unique_work_drop)
qed

lemma terminate_step:
  assumes b: "base_inv s" and k: "sv_clients s k = Some (Executing cl vid c request n before)"
    and shape: "\<forall>r. result = Some r \<longrightarrow> check_terminal_shape r = Inr r"
    and tx: "terminate_invocation now cl vid c request n before after result failure duration (sv_db s) = Inr db'"
    and s': "s' = at_phase k None (committed db' s)"
  shows "base_inv s' \<and> evolves s s'"
proof -
  let ?db = "sv_db s" and ?cs = "sv_clients s" and ?rid = "cl_run cl" and ?t = "ts_name (cl_spec cl)"
  let ?j = "journey_of s ?rid"
  have "\<forall>r. result = Some r \<longrightarrow> tx_terminal_event r \<in> set terminal_invocation_events"
    using shape by (simp add: check_terminal_shape_Inr)
  from terminate_view[OF this tx] obtain f where f: "f \<in> {Completed ?t c, Aborted ?t c}"
    and m: "moves [] ?rid ?db db' (status_of ?db ?rid, trace_of ?db ?rid @ [f], requests_of ?db ?rid)" by blast
  have ex: "run_exists ?db ?rid"
    using tx by (auto simp: terminate_invocation_def bind_result_Inr append_event_Inr)
  obtain st where st: "status_of ?db ?rid = Some st" using status_exists[OF ex] by blast
  have work: "phase_work (Executing cl vid c request n before) = Some (?rid, (c, ?t))" by simp
  have h: "held phase_work (?cs(k := None)) r = (if r = ?rid then held phase_work ?cs ?rid - {(c, ?t)} else held phase_work ?cs r)"
    for r using held_remove[OF base_invD(4)[OF b] _ k work, of phase_work None r] by simp
  have h': "held phase_ready (?cs(k := None)) r = held phase_ready ?cs r" for r
    using held_others[of ?cs k phase_ready None r] k by simp
  have "(c, ?t) \<in> held phase_work ?cs ?rid" using k by (force simp: held_def)
  moreover have "(c, ?t) \<notin> held phase_ready ?cs ?rid"
  proof
    assume "(c, ?t) \<in> held phase_ready ?cs ?rid"
    then obtain i p where p: "?cs i = Some p" "phase_ready p = Some (?rid, c, ?t)" by (auto simp: held_def)
    then have "i = k" using base_invD(4)[OF b] k work ready_work[OF p(2)] unfolding unique_work_def by blast
    then have "p = Executing cl vid c request n before" using p(1) k by simp
    then show False using p(2) by simp
  qed
  ultimately have "journey_step (protected_by ?db ?rid) ?j
      (?j\<lparr>jn_trace := jn_trace ?j @ [f], jn_working := jn_working ?j - {(c, ?t)}\<rparr>)"
    by (intro journey_step.finish) (use f in simp_all)
  moreover have s2: "s' = issuing [] (at_phase k None (committed db' s))" using s' by simp
  moreover have "fact_corr f = c" using f by auto
  moreover have "acting s k c" using k by (simp add: acting_def)
  ultimately show ?thesis
    using trace_known h h' st base_invD(4)[OF b]
    by (intro step_one[OF b m[unfolded st] ex s2]) (auto simp: journey_of_def intro: unique_work_drop)
qed

text \<open>The hand-over itself, and the loss of a client: the tables stay as they are.\<close>

lemma base_inv_sent: "base_inv s \<Longrightarrow> fst w \<in> sv_issued s \<Longrightarrow> base_inv (handed_over w s)"
  by (auto simp: base_inv_def)

lemma sent_of_handed [simp]:
  "sent_of (handed_over w s) r = sent_of s r @ (if fst w = r then [snd w] else [])"
  "sent_of (at_phase k x s) r = sent_of s r" "sent_of (committed db s) r = sent_of s r"
  "sent_of (issuing ids s) r = sent_of s r"
  by (simp_all add: sent_of_def)

lemma dispatch_step:
  assumes b: "base_inv s" and k: "sv_clients s k = Some (Dispatching cl vid c request n before)"
    and s': "s' = handed_over (cl_run cl, c, ts_name (cl_spec cl))
      (at_phase k (Some (Executing cl vid c request n before)) s)"
  shows "base_inv s' \<and> evolves s s'"
proof
  let ?db = "sv_db s" and ?cs = "sv_clients s" and ?rid = "cl_run cl" and ?t = "ts_name (cl_spec cl)"
  let ?x = "Some (Executing cl vid c request n before)"
  have call: "call_ok (sv_issued s) ?db cl" using base_invD(3)[OF b k] by simp
  have u: "unique_work (?cs(k := ?x))" using unique_work_same[OF base_invD(4)[OF b] k] by simp
  have "base_inv (at_phase k ?x s)"
  proof (rule base_step[OF b])
    show "at_phase k ?x s = issuing [] (at_phase k ?x (committed ?db s))" by (simp add: committed_def)
  qed (use base_invD(1)[OF b] call k u base_invD(5)[OF b] in \<open>auto simp: acting_def fresh_ok_def\<close>)
  then show "base_inv s'" unfolding s' using call by (intro base_inv_sent) (simp_all add: call_ok_def)
  have hw: "held phase_work (?cs(k := ?x)) r = held phase_work ?cs r" for r
  proof -
    have "w \<in> held phase_work (?cs(k := ?x)) r \<longleftrightarrow> w \<in> held phase_work ?cs r" for w
      unfolding in_held_upd in_held[of w phase_work ?cs r k] using k by simp
    then show ?thesis by blast
  qed
  have hr: "held phase_ready (?cs(k := ?x)) r = (if r = ?rid then held phase_ready ?cs ?rid - {(c, ?t)} else held phase_ready ?cs r)" for r
    using held_remove[OF base_invD(4)[OF b] _ k, of phase_ready ?rid "(c, ?t)" ?x r] by (simp add: ready_work)
  have "(c, ?t) \<in> held phase_ready ?cs ?rid" using k by (force simp: held_def)
  then have "journey_step (protected_by ?db ?rid) (journey_of s ?rid)
      ((journey_of s ?rid)\<lparr>jn_ready := jn_ready (journey_of s ?rid) - {(c, ?t)}, jn_sent := jn_sent (journey_of s ?rid) @ [(c, ?t)]\<rparr>)"
    by (intro journey_step.send) simp
  then have "journey_step (protected_by ?db r) (journey_of s r) (journey_of s' r)" for r
    using hw hr by (cases "r = ?rid") (simp_all add: journey_of_def s' journey_step.stutter)
  then show "evolves s s'" by (intro evolves_grows[of "{}" "[]"]) (simp_all add: s')
qed

lemma vanish_step:
  assumes b: "base_inv s" and s': "s' = at_phase k None s"
  shows "base_inv s' \<and> evolves s s'"
proof (cases "\<exists>p r w. sv_clients s k = Some p \<and> phase_work p = Some (r, w)")
  case False
  have "base_inv (issuing [] (at_phase k None s)) \<and> evolves s (issuing [] (at_phase k None s))"
    by (rule step_client[OF b, of _ "[]"]) (use False in \<open>auto, metis option.exhaust prod.exhaust\<close>)
  then show ?thesis by (simp add: s')
next
  case True
  let ?db = "sv_db s" and ?cs = "sv_clients s"
  obtain p r w where p: "?cs k = Some p" "phase_work p = Some (r, w)" using True by blast
  have base: "base_inv s'"
  proof (rule base_step[OF b])
    show "s' = issuing [] (at_phase k None (committed ?db s))" by (simp add: s' committed_def)
  qed (use base_invD(1)[OF b] unique_work_drop[OF base_invD(4)[OF b]] in auto)
  have hw: "held phase_work (?cs(k := None)) r' = (if r' = r then held phase_work ?cs r - {w} else held phase_work ?cs r')" for r'
    using held_remove[OF base_invD(4)[OF b] _ p, of phase_work None r'] by simp
  have hr: "held phase_ready (?cs(k := None)) r' = (if r' = r then held phase_ready ?cs r - {w} else held phase_ready ?cs r')" for r'
    using held_remove[OF base_invD(4)[OF b] _ p, of phase_ready None r'] by (simp add: ready_work)
  have "journey_step (protected_by ?db r') (journey_of s r') (journey_of s' r')" for r'
    using hw hr journey_step.lose[of _ "journey_of s r" w]
    by (cases "r' = r") (simp_all add: journey_of_def s' journey_step.stutter)
  then have "evolves s s'" by (intro evolves_grows[of "{}" "[]"]) (simp_all add: s')
  then show ?thesis using base by blast
qed

subsection \<open>Decisions\<close>

lemma refuse_step:
  assumes b: "base_inv s" and k: "\<And>p. sv_clients s k = Some p \<Longrightarrow> phase_work p = None"
    and row: "row_ok (sv_issued s) (sv_db s) a"
    and st: "st \<in> {Cf_Denied, Cf_Cancelled, Cf_Expired}"
      "event \<in> {Ev_ConfirmationDenied, Ev_ConfirmationCancelled, Ev_ConfirmationExpired}"
    and tx: "refuse_request now gid (cf_workspace_id a) (cf_run_id a) a st event (sv_db s) = Inr db'"
    and s': "s' = issuing [gid] (at_phase k None (committed db' s))"
  shows "base_inv s' \<and> evolves s s'"
proof -
  let ?db = "sv_db s" and ?cs = "sv_clients s" and ?rid = "cf_run_id a"
  let ?j = "journey_of s ?rid"
  let ?q = "\<lparr>rq_id = cf_id a, rq_corr = cf_correlation_id a, rq_tool = cf_tool_name a, rq_status = Cf_Pending\<rparr>"
  obtain ch db1 where "update_confirmation (cf_workspace_id a) (cf_id a) Cf_Pending ch ?db = (True, db1)"
    using decide_won(1)[OF tx] by blast
  note known_row = claimed_row[OF row this]
  have ex: "run_exists ?db ?rid"
    using keyed_request[OF base_invD(6)[OF b] known_row] owned_exists by metis
  obtain x where x: "status_of ?db ?rid = Some x" using status_exists[OF ex] by blast
  note v = refuse_view[OF base_invD(6)[OF b] known_row x st(2) tx]
  have h: "held phase_work (?cs(k := None)) r = held phase_work ?cs r"
      "held phase_ready (?cs(k := None)) r = held phase_ready ?cs r" for r
    using held_others[of ?cs k phase_work None r] held_others[of ?cs k phase_ready None r] k ready_work
    by (simp_all, metis not_None_eq option.distinct(1))
  have "journey_step (protected_by ?db ?rid) ?j (?j\<lparr>jn_status := released (jn_status ?j),
      jn_trace := jn_trace ?j @ [Aborted (rq_tool ?q) (rq_corr ?q)],
      jn_requests := set_request (rq_id ?q) Cf_Pending st (jn_requests ?j)\<rparr>)"
    by (rule journey_step.refuse) (use v(2) st(1) in auto)
  moreover have "cf_correlation_id a \<in> known ?db" using request_known(1)[OF v(2)] by simp
  ultimately show ?thesis
    using trace_known h x base_invD(4)[OF b]
    by (intro step_one[OF b v(1) ex s']) (auto simp: journey_of_def intro: unique_work_drop)
qed

lemma approve_step:
  assumes b: "base_inv s" and k: "\<And>p. sv_clients s k = Some p \<Longrightarrow> phase_work p = None"
    and row: "row_ok (sv_issued s) (sv_db s) a"
    and tx: "approve_request now gid (cf_workspace_id a) (cf_run_id a) a (sv_db s) = Inr db'"
    and s': "s' = issuing [gid] (at_phase k None (committed db' s))"
  shows "base_inv s' \<and> evolves s s'"
proof -
  let ?db = "sv_db s" and ?cs = "sv_clients s" and ?rid = "cf_run_id a"
  let ?j = "journey_of s ?rid"
  let ?q = "\<lparr>rq_id = cf_id a, rq_corr = cf_correlation_id a, rq_tool = cf_tool_name a, rq_status = Cf_Pending\<rparr>"
  obtain ch db1 where "update_confirmation (cf_workspace_id a) (cf_id a) Cf_Pending ch ?db = (True, db1)"
    using decide_won(2)[OF tx] by blast
  note known_row = claimed_row[OF row this]
  have ex: "run_exists ?db ?rid"
    using keyed_request[OF base_invD(6)[OF b] known_row] owned_exists by metis
  obtain x where x: "status_of ?db ?rid = Some x" using status_exists[OF ex] by blast
  note v = approve_view[OF base_invD(6)[OF b] known_row x tx]
  have h: "held phase_work (?cs(k := None)) r = held phase_work ?cs r"
      "held phase_ready (?cs(k := None)) r = held phase_ready ?cs r" for r
    using held_others[of ?cs k phase_work None r] held_others[of ?cs k phase_ready None r] k ready_work
    by (simp_all, metis not_None_eq option.distinct(1))
  have "journey_step (protected_by ?db ?rid) ?j (?j\<lparr>jn_status := released (jn_status ?j),
      jn_trace := jn_trace ?j @ [Approved (rq_tool ?q) (rq_corr ?q)],
      jn_requests := set_request (rq_id ?q) Cf_Pending Cf_Approved (jn_requests ?j)\<rparr>)"
    by (rule journey_step.approve) (use v(2) in auto)
  moreover have "cf_correlation_id a \<in> known ?db" using request_known(1)[OF v(2)] by simp
  ultimately show ?thesis
    using trace_known h x base_invD(4)[OF b]
    by (intro step_one[OF b v(1) ex s']) (auto simp: journey_of_def intro: unique_work_drop)
qed

lemma effective_refusal_cases:
  "effective_refusal clock a d = Some (st, event) \<Longrightarrow>
   st \<in> {Cf_Denied, Cf_Cancelled, Cf_Expired} \<and>
   event \<in> {Ev_ConfirmationDenied, Ev_ConfirmationCancelled, Ev_ConfirmationExpired}"
  by (cases d) (auto simp: effective_refusal_def split: if_splits)

lemma decide_step:
  assumes b: "base_inv s" and k: "sv_clients s k = Some (Deciding ws rid a d)"
    and tx: "decide_request clock now gid ws rid a d (sv_db s) = Inr db'"
    and s': "s' = issuing [gid] (at_phase k None (committed db' s))"
  shows "base_inv s' \<and> evolves s s'"
proof -
  have ph: "row_ok (sv_issued s) (sv_db s) a" "cf_workspace_id a = ws" "cf_run_id a = rid"
    using base_invD(3)[OF b k] by simp_all
  have w: "\<And>p. sv_clients s k = Some p \<Longrightarrow> phase_work p = None" using k by simp
  show ?thesis
  proof (cases "effective_refusal clock a d")
    case None
    then show ?thesis using approve_step[OF b w ph(1) _ s'] tx ph(2,3) by (simp add: decide_request_def)
  next
    case (Some p)
    then obtain st event where e: "effective_refusal clock a d = Some (st, event)" by (cases p) simp
    note c = effective_refusal_cases[OF e]
    show ?thesis
      by (rule refuse_step[OF b w ph(1) _ _ _ s', of st event]) (use c tx e ph(2,3) in \<open>auto simp: decide_request_def\<close>)
  qed
qed

lemma expire_step:
  assumes b: "base_inv s" and k: "sv_clients s k = Some (Expiring ws rid a)"
    and tx: "refuse_request now gid ws rid a Cf_Expired Ev_ConfirmationExpired (sv_db s) = Inr db'"
    and s': "s' = issuing [gid] (at_phase k None (committed db' s))"
  shows "base_inv s' \<and> evolves s s'"
  using refuse_step[OF b _ _ _ _ _ s', of a Cf_Expired Ev_ConfirmationExpired now] base_invD(3)[OF b k] k tx by auto

subsection \<open>Opening and closing a run\<close>

lemma begin_step:
  assumes b: "base_inv s" and k: "sv_clients s k = None"
    and tx: "begin_verification ws rid (sv_db s) = Inr (jd, db')"
    and s': "s' = at_phase k (Some (Judging ws rid jd)) (committed db' s)"
  shows "base_inv s' \<and> evolves s s'"
proof -
  let ?db = "sv_db s" and ?cs = "sv_clients s" and ?x = "Some (Judging ws rid jd)"
  let ?j = "journey_of s rid"
  note v = begin_view[OF base_invD(12)[OF b] base_invD(8)[OF b] tx]
  have ex: "run_exists ?db rid" using owned_exists[OF v(3)] .
  have i: "rid \<in> sv_issued s"
    using find_run_Some[OF v(4)] known_confirmation(3)[of ?db] base_invD(11)[OF b] by blast
  have js: "jn_status ?j = Run_Running" using journey_status[OF v(2)] .
  have h: "held phase_work (?cs(k := ?x)) r = held phase_work ?cs r"
      "held phase_ready (?cs(k := ?x)) r = held phase_ready ?cs r" for r
    using held_others[of ?cs k phase_work ?x r] held_others[of ?cs k phase_ready ?x r] k by simp_all
  have "journey_step (protected_by ?db rid) ?j (?j\<lparr>jn_status := Run_Verifying\<rparr>)"
    by (rule journey_step.begin_verification) (use js v(5,6) in simp_all)
  moreover have s2: "s' = issuing [] (at_phase k ?x (committed db' s))" using s' by simp
  ultimately show ?thesis
    using trace_known h i base_invD(4)[OF b]
    by (intro step_one[OF b v(1) ex s2]) (auto simp: journey_of_def intro: unique_work_drop)
qed

lemma closing_step:
  assumes b: "base_inv s" and k: "sv_clients s k = Some (Judging ws rid jd)"
    and m: "moves [] rid (sv_db s) db' (Some terminal, trace_of (sv_db s) rid, requests_of (sv_db s) rid)"
    and st: "status_of (sv_db s) rid = Some Run_Verifying" "owned (sv_db s) ws rid"
      "terminal \<in> set (run_transitions Run_Verifying)"
    and s': "s' = issuing [gid] (at_phase k None (committed db' s))"
  shows "base_inv s' \<and> evolves s s'"
proof -
  let ?db = "sv_db s" and ?cs = "sv_clients s"
  let ?j = "journey_of s rid"
  have ex: "run_exists ?db rid" using owned_exists[OF st(2)] .
  have h: "held phase_work (?cs(k := None)) r = held phase_work ?cs r"
      "held phase_ready (?cs(k := None)) r = held phase_ready ?cs r" for r
    using held_others[of ?cs k phase_work None r] held_others[of ?cs k phase_ready None r] k by simp_all
  have "journey_step (protected_by ?db rid) ?j (?j\<lparr>jn_status := terminal\<rparr>)"
    by (rule journey_step.seal) (use journey_status[OF st(1)] st(3) in simp_all)
  then show ?thesis
    using trace_known h base_invD(4)[OF b]
    by (intro step_one[OF b m ex s']) (auto simp: journey_of_def intro: unique_work_drop)
qed

text \<open>Transactions of no client that change no run's view\<close>

lemma base_step_db:
  assumes inv: "base_inv s" and db: "db_ok (sv_issued s \<union> set ids) db'" "later (sv_issued s) (sv_db s) db'"
    and learnt: "known db' \<subseteq> known (sv_db s) \<union> - sv_issued s"
  shows "base_inv (issuing ids (committed db' s))"
proof -
  have "fresh_ok (sv_issued s \<union> set ids) db' (sv_clients s)"
    using base_invD(5)[OF inv] learnt unfolding fresh_ok_def by blast
  moreover have "phase_ok (sv_issued s \<union> set ids) db' p" if "sv_clients s j = Some p" for j p
    using phase_ok_later[OF base_invD(3)[OF inv that] db(2)] by simp
  ultimately show ?thesis
    using db(1) base_invD(2)[OF inv] base_invD(4)[OF inv] unfolding base_inv_def by auto
qed

lemma quiet_step:
  assumes b: "base_inv s" and q: "quietly rid (sv_db s) db'" and s': "s' = issuing ids (committed db' s)"
  shows "base_inv s' \<and> evolves s s'"
proof
  have g: "grows {rid} [] (sv_db s) db'" using q by (simp add: moves_def)
  have v: "view db' r = view (sv_db s) r" for r
    using q grows_view[OF g, of r] by (cases "r = rid") (auto simp: moves_def)
  then have t: "trace_of db' r = trace_of (sv_db s) r" for r by (simp add: view_def)
  show "base_inv s'" unfolding s'
  proof (rule base_step_db[OF b])
    show "db_ok (sv_issued s \<union> set ids) db'" using db_ok_quietly[OF base_invD(1)[OF b] q] by blast
    show "later (sv_issued s) (sv_db s) db'" by (rule later_grows[OF g]) simp
    show "known db' \<subseteq> known (sv_db s) \<union> - sv_issued s" using known_grows[OF g] trace_known unfolding t by fastforce
  qed
  have "journey_of s' r = journey_of s r" for r using v[of r] by (simp add: journey_of_def s' view_def)
  then show "evolves s s'"
    using g by (intro evolves_grows[of "{rid}" "[]"]) (simp_all add: s' journey_step.stutter)
qed

subsection \<open>Reset and purge\<close>

lemma later_trans: "later I a b \<Longrightarrow> later I b c \<Longrightarrow> later I a c"
proof -
  assume ab: "later I a b" and bc: "later I b c"
  have "\<exists>c0\<in>set (db_confirmations a). request_ident c0 = request_ident d"
    if d: "d \<in> set (db_confirmations c)" "cf_id d \<in> I" for d
  proof -
    obtain d1 where d1: "d1 \<in> set (db_confirmations b)" "request_ident d1 = request_ident d"
      using bc d by (auto simp: later_def)
    then have "cf_id d1 \<in> I" using d(2) by (simp add: request_ident_iff)
    then obtain c0 where "c0 \<in> set (db_confirmations a)" "request_ident c0 = request_ident d1"
      using ab d1(1) by (auto simp: later_def)
    then show ?thesis using d1(2) by metis
  qed
  then show ?thesis using ab bc by (auto simp: later_def)
qed

lemma purge_owned:
  assumes "keyed db" "homed db" "\<not> purged ws db r"
  shows "owned (purge_completed ws db) w r \<longleftrightarrow> owned db w r"
  unfolding owned_ident purge_view(6)[OF assms(1,2)] using assms(3) by (auto simp: run_ident_def)

lemma protected_by_rows:
  "rows_of db' r = rows_of db r \<Longrightarrow> db_contracts db' = db_contracts db \<Longrightarrow> protected_by db' r = protected_by db r"
  by (rule protected_by_idents) simp_all

lemma purge_ok:
  assumes ok: "db_ok I db"
  shows "db_ok I (purge_completed ws db)" "later I db (purge_completed ws db)"
    "known (purge_completed ws db) \<subseteq> known db"
proof -
  let ?d = "purge_completed ws db"
  have k: "keyed db" and n: "numbered db" and f: "facts_named db" and h: "homed db" and c: "contracted db"
    and i: "known db \<subseteq> I" using ok by (simp_all add: db_ok_def)
  note p = purge_view[OF k h, of ws]
  have own: "owned ?d w r \<longleftrightarrow> owned db w r" if "\<not> purged ws db r" for w r using purge_owned[OF k h that] .
  have ids: "ids_ok ?d" using k unfolding keyed_def ids_ok_def p(6) by (auto intro: distinct_map_filter)
  have "distinct (map cf_id (db_confirmations ?d))"
    using k unfolding keyed_def p(5) by (auto intro: distinct_map_filter)
  moreover have "tied ?d" using k own unfolding keyed_def tied_def p(5) by simp
  ultimately have k': "keyed ?d" using ids by (simp add: keyed_def)
  have e: "events_of ?d r = (if purged ws db r then [] else events_of db r)" for r
  proof (cases "purged ws db r")
    case True
    then show ?thesis by (auto simp: events_of_def p(4) filter_empty_conv)
  next
    case False
    then show ?thesis using p(2) by simp
  qed
  have t: "correlations (trace_of ?d r) \<subseteq> correlations (trace_of db r)" for r
    unfolding trace_of_def e by (auto simp: correlations_def facts_def map_filter_def)
  have "rn_id ` set (db_runs ?d) \<subseteq> rn_id ` set (db_runs db)" "cf_id ` set (db_confirmations ?d) \<subseteq> cf_id ` set (db_confirmations db)"
    "cf_correlation_id ` set (db_confirmations ?d) \<subseteq> cf_correlation_id ` set (db_confirmations db)"
    unfolding p(5,6) by auto
  then show kn: "known ?d \<subseteq> known db" unfolding known_def by (intro Un_mono UN_mono t) simp_all
  have "numbered ?d" using n unfolding numbered_def e by (simp add: consecutive_def del: upt_Suc)
  moreover have "facts_named ?d" using f unfolding facts_named_def p(4) by simp
  moreover have "homed ?d" using h unfolding homed_def p(4) p(1) by simp
  moreover have "contracted ?d"
    using c run_contract_ident[OF refl p(3)] unfolding contracted_def p(6) by simp
  ultimately show "db_ok I ?d" using k' subset_trans[OF kn i] by (simp add: db_ok_def)
  have "run_exists db r \<and> (\<forall>w. owned db w r \<longrightarrow> owned ?d w r) \<and> protected_by ?d r = protected_by db r"
    if "run_exists ?d r" for r
  proof -
    have r: "run_exists db r" "\<not> purged ws db r" using that p(1) by simp_all
    have "protected_by ?d r = protected_by db r" by (rule protected_by_rows) (use p(2)[OF r(2)] p(3) in blast)+
    then show ?thesis using r own[OF r(2)] by simp
  qed
  then show "later I db ?d" unfolding later_def p(5) by auto
qed

lemma other_tables_ok:
  assumes "db_runs db' = db_runs db" "db_contracts db' = db_contracts db" "db_events db' = db_events db"
    "db_confirmations db' = db_confirmations db" "db_ok I db"
  shows "db_ok I db'" "later I db db'" "known db' = known db" "view db' r = view db r" "protected_by db' r = protected_by db r"
proof -
  have q: "quietly r db db'" for r by (rule moves_other_tables[OF assms(1-4)])
  have g: "grows {r} [] db db'" for r using q by (simp add: moves_def)
  show "db_ok I db'" using db_ok_quietly[OF assms(5) q] by blast
  show "later I db db'" by (rule later_grows[OF g]) simp
  show "view db' r = view db r" using q by (simp add: moves_def)
  show "protected_by db' r = protected_by db r" using protected_by_grows[OF g] .
  show "known db' = known db" using assms by (simp add: known_def trace_of_def events_of_def)
qed

lemma reset_step:
  assumes b: "base_inv s" and tx: "reset_workspace now ws purge (sv_db s) = Inr db'" and s': "s' = committed db' s"
  shows "base_inv s' \<and> evolves s s'"
proof
  let ?db = "sv_db s"
  obtain db2 where d2: "reset_kept now ws ?db = Inr db2"
    and d': "db' = update_workspace ws (\<lambda>w. w\<lparr>wk_active_run_id := None\<rparr>) (if purge then purge_completed ws db2 else db2)"
    using tx by (auto simp: reset_workspace_parts)
  let ?d3 = "if purge then purge_completed ws db2 else db2"
  note r = reset_kept_view[OF base_invD(6)[OF b] d2]
  have t2: "trace_of db2 x = trace_of ?db x" for x
    using r(2)[of x] grows_view[OF r(1), of x] by (cases "owned ?db ws x") (simp_all add: view_def)
  have ok2: "db_ok (sv_issued s) db2"
    by (rule db_ok_grows[OF base_invD(1)[OF b] r(1)]) (use t2 trace_known base_invD(11)[OF b] in auto)
  have l2: "later (sv_issued s) ?db db2" by (rule later_grows[OF r(1)]) simp
  have k2: "known db2 \<subseteq> known ?db" using known_grows[OF r(1)] trace_known unfolding t2 by fastforce
  have ok3: "db_ok (sv_issued s) ?d3" and l3: "later (sv_issued s) db2 ?d3" and k3: "known ?d3 \<subseteq> known db2"
    using purge_ok[OF ok2, of ws] ok2 by auto
  have o: "db_runs db' = db_runs ?d3" "db_contracts db' = db_contracts ?d3" "db_events db' = db_events ?d3"
    "db_confirmations db' = db_confirmations ?d3" unfolding d' by (simp_all add: update_workspace_def)
  note f = other_tables_ok[OF o ok3]
  have "base_inv (issuing [] (committed db' s))"
  proof (rule base_step_db[OF b])
    show "later (sv_issued s) ?db db'" using later_trans[OF later_trans[OF l2 l3] f(2)] .
    show "known db' \<subseteq> known ?db \<union> - sv_issued s" using k2 k3 f(3) by blast
  qed (use f(1) in simp)
  then show "base_inv s'" by (simp add: s')
  have kept: "run_exists ?db x \<and> protected_by db' x = protected_by ?db x \<and> view db' x = view db2 x \<and>
      events_of db' x = events_of db2 x \<and> (\<forall>w. owned ?db w x \<longrightarrow> owned db' w x)"
    if x: "run_exists db' x" for x
  proof -
    have d: "run_exists ?d3 x" using x o(1) by (simp add: run_exists_def)
    have "run_exists db2 x \<and> view ?d3 x = view db2 x \<and> protected_by ?d3 x = protected_by db2 x \<and>
        events_of ?d3 x = events_of db2 x \<and> (\<forall>w. owned db2 w x \<longrightarrow> owned ?d3 w x)"
    proof (cases purge)
      case True
      have k: "keyed db2" "homed db2" using ok2 by (simp_all add: db_ok_def)
      have n: "run_exists db2 x" "\<not> purged ws db2 x" using d True purge_view(1)[OF k] by simp_all
      have "protected_by (purge_completed ws db2) x = protected_by db2 x"
        by (rule protected_by_rows) (use purge_view(2)[OF k n(2)] purge_view(3)[OF k] in blast)+
      then show ?thesis using True n(1) purge_view(2)[OF k n(2)] purge_owned[OF k n(2)] by simp
    qed (use d in simp)
    moreover have "events_of db' x = events_of ?d3 x" using o(3) by (simp add: events_of_def)
    moreover have "owned db' w x = owned ?d3 w x" for w using o(1) by (simp add: owned_ident)
    ultimately show ?thesis
      using grows_run_exists[OF r(1)] protected_by_grows[OF r(1)] owned_grows[OF r(1)] f(4,5) by simp
  qed
  have step: "journey_step (protected_by ?db x) (journey_of s x) (journey_of s' x)"
    if e: "run_exists ?db x" and v: "view db' x = view db2 x" for x
  proof (cases "owned ?db ws x")
    case True
    obtain st where "status_of ?db x = Some st" using status_exists[OF e] by blast
    then have "journey_of s' x = (journey_of s x)\<lparr>jn_status := cancelled_status (jn_status (journey_of s x)),
        jn_requests := map cancel_pending (jn_requests (journey_of s x))\<rparr>"
      using r(2)[OF True] v by (simp add: journey_of_def s' view_def)
    then show ?thesis using journey_step.reset by metis
  next
    case False
    then have "journey_of s' x = journey_of s x"
      using grows_view[OF r(1), of x] v by (simp add: journey_of_def s' view_def)
    then show ?thesis by (simp add: journey_step.stutter)
  qed
  have "prefix (events_of ?db x) (events_of db2 x)" for x using r(1) by (simp add: grows_def)
  then show "evolves s s'"
    using kept step by (intro evolvesI) (simp add: keeps_def s')
qed

subsection \<open>Arming, and what changes beside the runs\<close>

lemma one_more_run:
  assumes ok: "db_ok I db" and new: "rn_id r \<notin> I" "\<not> run_exists db (rn_id r)" and con: "run_contract db r \<noteq> None"
    and I': "insert (rn_id r) I \<subseteq> I'"
  defines "d \<equiv> db\<lparr>db_runs := db_runs db @ [r]\<rparr>"
  shows "db_ok I' d" "later I db d" "known d \<subseteq> insert (rn_id r) (known db)"
    "run_exists d x \<longleftrightarrow> run_exists db x \<or> x = rn_id r"
    "x \<noteq> rn_id r \<Longrightarrow> view d x = view db x \<and> protected_by d x = protected_by db x"
proof -
  have e: "events_of d = events_of db" and c: "db_confirmations d = db_confirmations db" "db_events d = db_events db"
    "db_contracts d = db_contracts db" "db_runs d = db_runs db @ [r]"
    by (auto simp: d_def events_of_def)
  have t: "trace_of d x = trace_of db x" for x by (simp add: trace_of_def e)
  show ex: "run_exists d x \<longleftrightarrow> run_exists db x \<or> x = rn_id r" for x by (auto simp: run_exists_def c)
  have own: "owned db w x \<Longrightarrow> owned d w x" for w x unfolding owned_ident c(4) by auto
  have rows: "rows_of d x = rows_of db x" if "x \<noteq> rn_id r" for x using that by (simp add: rows_of_def c)
  then show frame: "view d x = view db x \<and> protected_by d x = protected_by db x" if "x \<noteq> rn_id r" for x
    using that protected_by_rows[of d x db]
    by (simp add: view_def status_of_def t requests_of_def confirmations_of_def c)
  have "run_exists db x \<and> protected_by d x = protected_by db x" if "x \<in> I" "run_exists d x" for x
  proof -
    have "x \<noteq> rn_id r" using that(1) new(1) by blast
    then show ?thesis using frame ex that(2) by blast
  qed
  then show "later I db d" using own unfolding later_def c by blast
  show k: "known d \<subseteq> insert (rn_id r) (known db)" unfolding known_def c t by auto
  have "keyed d" using ok new(2) own
    by (auto simp: db_ok_def keyed_def ids_ok_def tied_def c run_exists_def)
  moreover have "contracted d"
    using ok con run_contract_ident[OF refl c(3)] by (auto simp: db_ok_def contracted_def c(4))
  moreover have "known d \<subseteq> I'" using k ok I' by (auto simp: db_ok_def)
  ultimately show "db_ok I' d" using ok ex by (simp add: db_ok_def numbered_def e facts_named_def c homed_def)
qed

lemma held_issued:
  assumes "base_inv s" "rid \<notin> sv_issued s"
  shows "held phase_work (sv_clients s) rid = {}" "held phase_ready (sv_clients s) rid = {}" "sent_of s rid = []"
proof -
  have n: "phase_work p \<noteq> Some (rid, w)" if "sv_clients s k = Some p" for k p w
    using base_invD(3)[OF assms(1) that] assms(2) by (cases p rule: phase_work.cases) (auto simp: call_ok_def)
  then show "held phase_work (sv_clients s) rid = {}" by (auto simp: held_def)
  have "phase_ready p \<noteq> Some (rid, w)" if "sv_clients s k = Some p" for k p w using n[OF that] ready_work by blast
  then show "held phase_ready (sv_clients s) rid = {}" by (auto simp: held_def)
  show "sent_of s rid = []" using base_invD(2)[OF assms(1)] assms(2) by (auto simp: sent_of_def filter_empty_conv)
qed

lemma arm_step:
  assumes b: "base_inv s" and k: "sv_clients s k = Some (Arming ws sel source)" and f: "fresh rid s"
    and tx: "arm_run now gid serving rid ws sel ob fault source (sv_db s) = Inr db'"
    and s': "s' = issuing [rid, gid] (at_phase k None (committed db' s))"
  shows "base_inv s' \<and> evolves s s'"
proof
  let ?db = "sv_db s" and ?I = "sv_issued s \<union> set [rid, gid]"
  obtain r where r: "rn_id r = rid" "\<not> run_exists ?db rid" "run_contract ?db r \<noteq> None"
      "rn_workspace_id r = ws" "active_runs ?db ws = []"
    and q: "quietly rid (?db\<lparr>db_runs := db_runs ?db @ [r]\<rparr>) db'"
    and v: "view (?db\<lparr>db_runs := db_runs ?db @ [r]\<rparr>) rid = (Some Run_Armed, [], [])"
    using arm_view[OF tx base_invD(9)[OF b] base_invD(13)[OF b]] unfolding run_contract_def by metis
  let ?d = "?db\<lparr>db_runs := db_runs ?db @ [r]\<rparr>"
  have fr: "rid \<notin> sv_issued s" using f by (simp add: fresh_def)
  have n: "rn_id r \<notin> sv_issued s" "\<not> run_exists ?db (rn_id r)" "insert (rn_id r) (sv_issued s) \<subseteq> ?I"
    using fr r(1,2) by auto
  note m = one_more_run[OF base_invD(1)[OF b] n(1,2) r(3) n(3)]
  have g: "grows {rid} [] ?d db'" using q by (simp add: moves_def)
  have w: "view db' x = view ?d x" for x
    using q grows_view[OF g, of x] by (cases "x = rid") (auto simp: moves_def)
  then have t: "trace_of db' x = trace_of ?d x" for x by (simp add: view_def)
  have kn: "known db' \<subseteq> insert rid (known ?db)" using known_grows[OF g] trace_known m(3) unfolding t r(1) by fastforce
  show "base_inv s'"
  proof (rule base_step[OF b s'])
    show "db_ok ?I db'" using db_ok_quietly[OF m(1) q] by blast
    show "later (sv_issued s) ?db db'" by (rule later_trans[OF m(2) later_grows[OF g]]) simp
    show "c \<in> known ?db \<or> c \<notin> sv_issued s \<or> acting s k c" if "c \<in> known db'" for c using kn that fr by blast
    show "unique_work ((sv_clients s)(k := None))" by (rule unique_work_drop[OF base_invD(4)[OF b]]) simp
  qed simp_all
  have h: "held phase_work ((sv_clients s)(k := None)) x = held phase_work (sv_clients s) x"
    "held phase_ready ((sv_clients s)(k := None)) x = held phase_ready (sv_clients s) x" for x
    using held_others[of "sv_clients s" k phase_work None x] held_others[of "sv_clients s" k phase_ready None x] k
    by simp_all
  have same: "journey_of s' x = journey_of s x" if "x \<noteq> rid" for x
    using w[of x] m(5)[of x] that r(1) h by (simp add: journey_of_def s' view_def)
  have new: "journey_of s' rid = armed_journey"
    using w[of rid] v h held_issued[OF b fr] by (simp add: journey_of_def s' view_def armed_journey_def)
  have old: "keeps s s' x" if "x \<noteq> rid" for x
  proof -
    have "protected_by db' x = protected_by ?db x" using protected_by_grows[OF g] m(5)[of x] that r(1) by simp
    moreover have "prefix (events_of ?db x) (events_of db' x)" using g by (simp add: grows_def events_of_def)
    moreover have "owned ?db w x \<longrightarrow> owned db' w x" for w
      by (simp only: owned_grows[OF g]) (auto simp: owned_ident)
    ultimately show ?thesis using same[OF that] by (simp add: keeps_def s' journey_step.stutter)
  qed
  have "active_runs ?db w = []" if "owned db' w rid" for w
  proof -
    have "owned ?d w rid" using that by (simp only: owned_grows[OF g])
    then have "w = ws" using r(1,2,4) by (auto simp: owned_ident run_ident_def run_exists_def)
    then show ?thesis using r(5) by simp
  qed
  moreover have "run_exists db' x \<longleftrightarrow> run_exists ?db x \<or> x = rid" for x
    using grows_run_exists[OF g] m(4) r(1) by simp
  ultimately have "arrives s s' rid" using new fr by (simp add: arrives_def s')
  moreover have "run_exists ?db x \<or> x = rid" if "run_exists db' x" for x
    using that grows_run_exists[OF g] m(4) r(1) by simp
  moreover have "x \<noteq> rid" if "run_exists ?db x" for x using that r(2) by blast
  ultimately show "evolves s s'" using old unfolding evolves_def by (metis s' service_simps(1,2,3))
qed

lemma stored_contract_append:
  assumes "ct_id ` set cs \<inter> ct_id ` set (db_contracts db) = {}" "db_contracts db' = db_contracts db @ cs"
    "stored_contract db i \<noteq> None"
  shows "stored_contract db' i = stored_contract db i"
  using assms by (auto simp: stored_contract_def find_filter split: option.splits list.splits)

lemma aside_step:
  assumes b: "base_inv s" and a: "aside (sv_db s) db'" and s': "s' = committed db' s"
  shows "base_inv s' \<and> evolves s s'"
proof
  let ?db = "sv_db s"
  obtain cs where c: "db_contracts db' = db_contracts ?db @ cs" "ct_id ` set cs \<inter> ct_id ` set (db_contracts ?db) = {}"
    and o: "db_runs db' = db_runs ?db" "db_events db' = db_events ?db" "db_confirmations db' = db_confirmations ?db"
    using a by (auto simp: aside_def)
  have con: "run_contract db' r = run_contract ?db r" if "r \<in> set (db_runs ?db)" for r
  proof -
    have "run_contract ?db r \<noteq> None" using base_invD(10)[OF b] that by (simp add: contracted_def)
    then show ?thesis using stored_contract_append[OF c(2,1)] by (auto simp: run_contract_def split: if_splits)
  qed
  have p: "protected_by db' x = protected_by ?db x" for x
  proof -
    have "set (rows_of ?db x) \<subseteq> set (db_runs ?db)" by (simp add: rows_of_def)
    then have c': "run_contract db' r = run_contract ?db r" if "rows_of ?db x = [r]" for r
      by (intro con) (use that in auto)
    have "rows_of db' x = rows_of ?db x" by (simp add: rows_of_def o)
    then have "protected_by db' x tool = protected_by ?db x tool" for tool
      unfolding protected_by_def by (metis c')
    then show ?thesis by blast
  qed
  have own: "owned db' w x = owned ?db w x" for w x unfolding owned_ident o ..
  have e: "events_of db' x = events_of ?db x" for x by (simp add: events_of_def o)
  have v: "view db' x = view ?db x" for x
    by (simp add: view_def status_of_def rows_of_def trace_of_def e requests_of_def confirmations_of_def o)
  have k: "known db' = known ?db" by (simp add: known_def trace_of_def e o)
  have ex: "run_exists db' x = run_exists ?db x" for x by (simp add: run_exists_def o)
  have "db_ok (sv_issued s) db'"
    using base_invD(1)[OF b] con
    by (simp add: db_ok_def keyed_def ids_ok_def tied_def own o numbered_def e facts_named_def homed_def ex contracted_def k)
  moreover have "later (sv_issued s) ?db db'" by (auto simp: later_def ex own p o)
  ultimately have "base_inv (issuing [] (committed db' s))" using base_step_db[OF b, of "[]" db'] k by simp
  then show "base_inv s'" by (simp add: s')
  have "journey_of s' x = journey_of s x" for x using v[of x] by (simp add: journey_of_def s' view_def)
  then show "evolves s s'" by (intro evolvesI) (simp add: keeps_def s' ex p e own journey_step.stutter)
qed

subsection \<open>The simulation\<close>

lemma service_base_step:
  assumes "service_step s s'" "base_inv s" "runs_ok s"
  shows "base_inv s' \<and> evolves s s'"
  using assms
proof (induction rule: service_step.induct)
  case read_call
  then show ?case using reading_steps(1) by blast
next
  case draw_call
  then show ?case using reading_steps(2) by blast
next
  case find_approval
  then show ?case using reading_steps(3) by blast
next
  case resume
  then show ?case using reading_steps(4) by blast
next
  case start
  then show ?case using start_step by blast
next
  case claim
  then show ?case using claim_step by blast
next
  case stale
  then show ?case using stale_step by blast
next
  case dispatch
  then show ?case using dispatch_step by blast
next
  case terminate
  then show ?case using terminate_step by blast
next
  case vanish
  then show ?case using vanish_step by blast
next
  case read_request
  then show ?case using reading_steps(5) by blast
next
  case decide
  then show ?case using decide_step by blast
next
  case read_lapsed
  then show ?case using reading_steps(6) by blast
next
  case expire
  then show ?case using expire_step by blast
next
  case read_selection
  then show ?case using reading_steps(7) by blast
next
  case arm
  then show ?case using arm_step by blast
next
  case begin_verifying
  then show ?case using begin_step by blast
next
  case seal
  from seal_verdict_view[OF base_invD(12)[OF seal(5)] seal(4)] closing_step[OF seal(5,1)] show ?case by blast
next
  case abandon
  have "Run_Error \<in> set (run_transitions Run_Verifying)" by simp
  with abandon_view[OF base_invD(12)[OF abandon(4)] abandon(3)] closing_step[OF abandon(4,1)] show ?case by blast
next
  case reset
  then show ?case using reset_step by blast
next
  case capture
  from quiet_step[OF capture(2) capture_view(1)[OF capture(1)], of _ "[]"] show ?case by simp
next
  case select_profile
  from quiet_step[OF select_profile(2) select_views(1)[OF select_profile(1)], of _ "[]"] show ?case by simp
next
  case select_mode
  from quiet_step[OF select_mode(2) select_views(2)[OF select_mode(1)], of _ "[]"] show ?case by simp
next
  case select_contract
  from quiet_step[OF select_contract(3) select_views(3)[OF select_contract(2)]] show ?case by blast
next
  case aside
  then show ?case using aside_step by blast
qed

lemma evolves_runs_ok: "evolves s s' \<Longrightarrow> runs_ok s \<Longrightarrow> runs_ok s'"
  unfolding evolves_def runs_ok_def keeps_def arrives_def by (metis journey_reach.initial journey_reach.step)

lemma initial_base:
  assumes "initial_service s"
  shows "base_inv s" "runs_ok s"
proof -
  have "db_ok {} (sv_db s)"
    using assms
    by (simp add: initial_service_def db_ok_def keyed_def ids_ok_def tied_def numbered_def consecutive_def events_of_def
        facts_named_def homed_def contracted_def known_def trace_of_def correlations_def)
  then show "base_inv s"
    using assms by (simp add: base_inv_def initial_service_def unique_work_def fresh_ok_def)
  show "runs_ok s" using assms by (simp add: runs_ok_def initial_service_def run_exists_def)
qed

lemma reachable_ok: "service_reach s \<Longrightarrow> base_inv s \<and> runs_ok s"
proof (induction rule: service_reach.induct)
  case (initial s)
  then show ?case using initial_base by blast
next
  case (step s s')
  then show ?case using service_base_step evolves_runs_ok by blast
qed

lemmas reachable_base = reachable_ok[THEN conjunct1] and reachable_runs = reachable_ok[THEN conjunct2]

lemma reachable_evolves: "service_reach s \<Longrightarrow> service_step s s' \<Longrightarrow> evolves s s'"
  using reachable_ok service_base_step by blast

lemma reachable_journey:
  "service_reach s \<Longrightarrow> run_exists (sv_db s) r \<Longrightarrow> journey_inv (protected_by (sv_db s) r) (journey_of s r)"
  using reachable_runs runs_okD by blast

end
