(* ===== verification/Reachable.thy ===== *)
theory Reachable
  imports Simulation
begin

section \<open>What holds of every reachable service\<close>

text \<open>
  What the properties of the run services rest on, read off the simulation: facts and events of one
  timeline, what a verification works on, the one unfinished run of a workspace, and why a reset is
  never refused.
\<close>

subsection \<open>Helpers over steps and executions\<close>

lemma evolves_cases:
  assumes "evolves s s'" "run_exists (sv_db s') r"
  shows "run_exists (sv_db s) r \<and> keeps s s' r \<or> \<not> run_exists (sv_db s) r \<and> arrives s s' r"
  using assms unfolding evolves_def by meson

lemma step_issued: "service_step s s' \<Longrightarrow> sv_issued s \<subseteq> sv_issued s'"
  by (induction rule: service_step.induct) auto

lemma run_issued: "service_reach s \<Longrightarrow> run_exists (sv_db s) r \<Longrightarrow> r \<in> sv_issued s"
  using known_confirmation(3)[of "sv_db s"] base_invD(11)[OF reachable_base, of s] by (auto simp: run_exists_def)

lemma issued_stays_gone:
  assumes "service_reach s" "service_step s s'" "r \<in> sv_issued s" "run_exists (sv_db s') r"
  shows "run_exists (sv_db s) r \<and> keeps s s' r"
  using evolves_cases[OF reachable_evolves[OF assms(1,2)] assms(4)] assms(3) by (auto simp: arrives_def)

lemma runs_issued: "service_runs s t \<Longrightarrow> sv_issued s \<subseteq> sv_issued t"
  by (induction rule: service_runs.induct) (use step_issued in blast)+

text \<open>A property of a run's state that protocol steps keep survives as long as the run does.\<close>

lemma runs_keep:
  assumes run: "service_runs s t" and reach: "service_reach s" and r: "run_exists (sv_db s) r"
    and t: "run_exists (sv_db t) r" and p: "P s"
    and step: "\<And>u v. service_reach u \<Longrightarrow> service_step u v \<Longrightarrow> run_exists (sv_db u) r \<Longrightarrow> keeps u v r \<Longrightarrow> P u \<Longrightarrow> P v"
  shows "P t"
  using run reach r t p
proof (induction rule: service_runs.induct)
  case (onward s t u)
  have t: "service_reach t" using service_runs_reach[OF onward(1,4)] .
  have "r \<in> sv_issued t" using run_issued[OF onward(4,5)] runs_issued[OF onward(1)] by blast
  then have k: "run_exists (sv_db t) r \<and> keeps t u r" using issued_stays_gone[OF t onward(2)] onward(6) by blast
  then show ?case using step[OF t onward(2)] onward(3)[OF onward(4,5)] onward(7) by blast
qed

subsection \<open>Events and facts\<close>

lemma reachable_numbered: "service_reach s \<Longrightarrow> consecutive (events_of (sv_db s) r)"
  using base_invD(7)[OF reachable_base] by (simp add: numbered_def)

lemma timeline_events: "consecutive (events_of db r) \<Longrightarrow> timeline db r = map run_event_of (events_of db r)"
  by (simp add: timeline_def consecutive_sorted)

lemma facts_Nil_iff: "facts es = [] \<longleftrightarrow> (\<forall>e\<in>set es. fact_of e = None)"
  by (auto simp: facts_def map_filter_def filter_empty_conv)

lemma facts_member: "f \<in> set (facts es) \<longleftrightarrow> (\<exists>e\<in>set es. fact_of e = Some f)"
  by (force simp: facts_def map_filter_def image_iff)

lemma consecutive_before:
  assumes "consecutive (us @ e # vs)" "a \<in> set us"
  shows "ev_sequence_number a < ev_sequence_number e"
proof -
  have "sorted_wrt (<) (map ev_sequence_number (us @ e # vs))" using assms(1) by (simp only: consecutive_def sorted_wrt_upt)
  then show ?thesis using assms(2) by (auto simp: sorted_wrt_append)
qed

text \<open>An ordering of facts is an ordering of events by sequence number.\<close>

lemma approval_before_completion:
  assumes c: "consent_ordered prot (facts es)" and n: "consecutive es"
    and named: "\<forall>e\<in>set es. fact_of e \<noteq> None \<longrightarrow> ev_correlation_id e \<noteq> None \<and> ev_tool_name e \<noteq> None"
    and e: "e \<in> set es" "ev_event_type e = Ev_ToolInvocationCompleted" "ev_tool_name e = Some tool" "prot tool"
  shows "\<exists>a\<in>set es. ev_event_type a = Ev_ConfirmationApproved \<and> ev_tool_name a = Some tool \<and>
    ev_correlation_id a \<noteq> None \<and> ev_correlation_id a = ev_correlation_id e \<and>
    ev_sequence_number a < ev_sequence_number e"
proof -
  obtain us vs where es: "es = us @ e # vs" using split_list[OF e(1)] by blast
  have f: "fact_of e = Some (Completed tool (text_of_option (ev_correlation_id e)))"
    using e(2,3) by (simp add: fact_of_def)
  then have "facts es = facts us @ Completed tool (text_of_option (ev_correlation_id e)) # facts vs"
    by (simp add: es facts_Cons)
  then have "Approved tool (text_of_option (ev_correlation_id e)) \<in> set (facts us)"
    using c e(4) unfolding consent_ordered_def by blast
  then obtain a where a: "a \<in> set us" "fact_of a = Some (Approved tool (text_of_option (ev_correlation_id e)))"
    by (auto simp: facts_member)
  have "ev_correlation_id a \<noteq> None \<and> ev_tool_name a \<noteq> None" using named a by (simp add: es)
  moreover have "ev_correlation_id e \<noteq> None" using named e(1) f by simp
  moreover have "ev_event_type a = Ev_ConfirmationApproved \<and>
      text_of_option (ev_tool_name a) = tool \<and> text_of_option (ev_correlation_id a) = text_of_option (ev_correlation_id e)"
    using a(2) by (auto simp: fact_of_def Let_def split: outcome_event_type.splits)
  ultimately show ?thesis using a(1) consecutive_before n unfolding es by fastforce
qed

subsection \<open>Closed runs\<close>

text \<open>Once its verification has begun, a run's tool facts are final, whatever happens to it after.\<close>

definition concluded :: "journey \<Rightarrow> bool" where
  "concluded j \<longleftrightarrow> quiet j \<and> jn_status j \<notin> {Run_Armed, Run_Running, Run_AwaitingConfirmation}"

lemma concluded_step:
  assumes "journey_step prot j k" "journey_inv prot j" "concluded j"
  shows "jn_trace k = jn_trace j \<and> concluded k"
proof -
  have q: "quiet j" using assms(3) by (simp add: concluded_def)
  have n: "jn_working j = {}" using quiet_no_working[OF assms(2) q] .
  have o: "\<And>q. q \<in> set (jn_requests j) \<Longrightarrow> rq_status q \<noteq> Cf_Pending"
    using quiet_no_open_request[OF assms(2) q] by auto
  show ?thesis using assms(1,3) n o
  proof (cases rule: journey_step.cases)
    case reset
    then show ?thesis using assms(3) by (cases "jn_status j") (auto simp: concluded_def quiet_def cancelled_status_def)
  qed (auto simp: concluded_def quiet_def)
qed

lemma terminal_step:
  assumes "journey_step prot j k" "journey_inv prot j" "is_terminal run_transitions (jn_status j)"
  shows "jn_status k = jn_status j"
  using assms
proof (induction rule: journey_step.induct)
  case (approve q j)
  then have "jn_status j = Run_AwaitingConfirmation" using journey_invD(9)[OF approve(3)] by blast
  then show ?case using approve by (simp add: is_terminal_def)
next
  case (refuse q j st)
  then have "jn_status j = Run_AwaitingConfirmation" using journey_invD(9)[OF refuse(4)] by blast
  then show ?case using refuse by (simp add: is_terminal_def)
next
  case (reset j)
  then show ?case by (simp add: cancelled_status_def)
qed (auto simp: is_terminal_def)

text \<open>
  What verification works on: the events it read are a beginning of the timeline, what was added
  since holds no tool fact, and no call is open.
\<close>

definition judges :: "service \<Rightarrow> pystr \<Rightarrow> judging \<Rightarrow> bool" where
  "judges s rid jd \<longleftrightarrow>
     concluded (journey_of s rid) \<and>
     (\<exists>es rest. events_of (sv_db s) rid = es @ rest \<and> jd_events jd = map run_event_of es \<and>
        (\<forall>e\<in>set rest. fact_of e = None))"

lemma judges_step:
  assumes r: "service_reach s" and k: "keeps s s' rid" and x: "run_exists (sv_db s) rid" and j: "judges s rid jd"
  shows "judges s' rid jd"
proof -
  have "journey_step (protected_by (sv_db s) rid) (journey_of s rid) (journey_of s' rid)" "concluded (journey_of s rid)"
    using k j by (simp_all add: keeps_def judges_def)
  from concluded_step[OF this(1) reachable_journey[OF r x] this(2)]
  have c: "trace_of (sv_db s') rid = trace_of (sv_db s) rid" "concluded (journey_of s' rid)" by simp_all
  obtain es rest where e: "events_of (sv_db s) rid = es @ rest" "jd_events jd = map run_event_of es"
    "\<forall>e\<in>set rest. fact_of e = None" using j by (auto simp: judges_def)
  obtain more where m: "events_of (sv_db s') rid = events_of (sv_db s) rid @ more"
    using k by (auto simp: keeps_def prefix_def)
  then have "facts more = []" using c(1) by (simp add: trace_of_def)
  then have "\<forall>e\<in>set (rest @ more). fact_of e = None" using e(3) facts_Nil_iff by auto
  moreover have "events_of (sv_db s') rid = es @ (rest @ more)" using e(1) m by simp
  ultimately show ?thesis using c(2) e(2) unfolding judges_def by blast
qed

lemma judging_client:
  assumes "service_step s s'" "sv_clients s' j = Some (Judging ws rid jd)"
  shows "sv_clients s j = Some (Judging ws rid jd) \<or> begin_verification ws rid (sv_db s) = Inr (jd, sv_db s')"
  using assms
proof (induction rule: service_step.induct)
  case (start s k cl vid before request gid gid' cid surface_of clock now out db')
  then show ?case by (cases out) (auto split: if_splits)
qed (auto split: if_splits)

lemma begun_judges:
  assumes r: "service_reach s" "service_reach s'" and b: "begin_verification ws rid (sv_db s) = Inr (jd, sv_db s')"
  shows "judges s' rid jd"
proof -
  have o: "base_inv s" using reachable_base[OF r(1)] .
  note v = begin_view[OF base_invD(12)[OF o] base_invD(8)[OF o] b]
  have w: "view (sv_db s') rid = (Some Run_Verifying, trace_of (sv_db s) rid, requests_of (sv_db s) rid)"
    using v(1) by (simp add: moves_def)
  then have "concluded (journey_of s' rid)"
    using v(5) by (simp add: concluded_def quiet_def journey_of_def view_def)
  moreover have "jd_events jd = map run_event_of (events_of (sv_db s') rid)"
    using v(7) timeline_events[OF reachable_numbered[OF r(2)]] by simp
  ultimately show ?thesis unfolding judges_def by (metis append.right_neutral empty_iff list.set(1))
qed

lemma judging_reachable:
  assumes "service_reach s" "sv_clients s k = Some (Judging ws rid jd)" "run_exists (sv_db s) rid"
  shows "judges s rid jd"
  using assms
proof (induction arbitrary: k rule: service_reach.induct)
  case (initial s)
  then show ?case by (simp add: initial_service_def)
next
  case (step s s')
  have r: "service_reach s'" using service_reach.step[OF step(1,2)] .
  show ?case
  proof (cases "sv_clients s k = Some (Judging ws rid jd)")
    case True
    then have "rid \<in> sv_issued s" using base_invD(3)[OF reachable_base[OF step(1)] True] by simp
    then have "run_exists (sv_db s) rid \<and> keeps s s' rid" using issued_stays_gone[OF step(1,2) _ step(5)] by blast
    then show ?thesis using judges_step[OF step(1)] step(3)[OF True] by blast
  next
    case False
    then show ?thesis using begun_judges[OF step(1) r] judging_client[OF step(2,4)] by blast
  qed
qed

subsection \<open>One unfinished run\<close>

lemma unfinished_owned:
  assumes "ids_ok db"
  shows "r \<in> set (active_runs db ws) \<Longrightarrow> owned db ws (rn_id r) \<and> run_exists db (rn_id r) \<and>
    (\<exists>st. status_of db (rn_id r) = Some st \<and> \<not> is_terminal run_transitions st)"
    and "owned db ws rid \<Longrightarrow> status_of db rid = Some st \<Longrightarrow> \<not> is_terminal run_transitions st \<Longrightarrow> active_runs db ws \<noteq> []"
proof -
  assume "r \<in> set (active_runs db ws)"
  then have r: "r \<in> set (db_runs db)" "rn_workspace_id r = ws" "\<not> is_terminal run_transitions (rn_status r)"
    by (simp_all add: active_runs_def unfinished_def)
  have "status_of db (rn_id r) = Some (rn_status r)" using rows_of_single[OF assms r(1)] by (simp add: status_of_def)
  then show "owned db ws (rn_id r) \<and> run_exists db (rn_id r) \<and>
      (\<exists>st. status_of db (rn_id r) = Some st \<and> \<not> is_terminal run_transitions st)"
    using r by (force simp: owned_ident run_ident_def run_exists_def)
next
  assume o: "owned db ws rid" "status_of db rid = Some st" "\<not> is_terminal run_transitions st"
  then obtain run where run: "find_run db ws rid = Some run" by (auto simp: owned_def)
  then have "run \<in> set (active_runs db ws)"
    using find_run_Some[OF run] find_run_status[OF assms run] o by (simp add: active_runs_def unfinished_def)
  then show "active_runs db ws \<noteq> []" by auto
qed

lemma single_list:
  assumes "distinct (map f xs)" "\<And>x y. x \<in> set xs \<Longrightarrow> y \<in> set xs \<Longrightarrow> f x = f y"
  shows "length xs \<le> 1"
proof (cases xs)
  case (Cons x ys)
  show ?thesis
  proof (cases ys)
    case (Cons y zs)
    then have "f x = f y" by (intro assms(2)) (simp_all add: \<open>xs = x # ys\<close>)
    then show ?thesis using assms(1) Cons \<open>xs = x # ys\<close> by simp
  qed (simp add: \<open>xs = x # ys\<close>)
qed simp

definition sole_runs :: "service \<Rightarrow> bool" where
  "sole_runs s \<longleftrightarrow> (\<forall>ws. length (active_runs (sv_db s) ws) \<le> 1)"

lemma sole_runs_step:
  assumes r: "service_reach s" and st: "service_step s s'" and i: "sole_runs s"
  shows "sole_runs s'"
proof (unfold sole_runs_def, rule allI, rule single_list)
  fix ws
  have ids: "ids_ok (sv_db s)" "ids_ok (sv_db s')"
    using base_invD(12)[OF reachable_base] r service_reach.step[OF r st] by blast+
  have ev: "evolves s s'" using reachable_evolves[OF r st] .
  show "distinct (map rn_id (active_runs (sv_db s') ws))"
    using ids(2) by (auto simp: active_runs_def ids_ok_def intro: distinct_map_filter)
  have old: "\<exists>y\<in>set (active_runs (sv_db s) ws). rn_id y = rn_id x"
    if x: "x \<in> set (active_runs (sv_db s') ws)" "run_exists (sv_db s) (rn_id x)" for x
  proof -
    obtain u where u: "owned (sv_db s') ws (rn_id x)" "run_exists (sv_db s') (rn_id x)"
        "status_of (sv_db s') (rn_id x) = Some u" "\<not> is_terminal run_transitions u"
      using unfinished_owned(1)[OF ids(2) x(1)] by blast
    have k: "keeps s s' (rn_id x)" using evolves_cases[OF ev u(2)] x(2) by blast
    obtain y where y: "y \<in> set (db_runs (sv_db s))" "rn_id y = rn_id x" using x(2) by (auto simp: run_exists_def)
    have o: "owned (sv_db s) (rn_workspace_id y) (rn_id x)" using y by (auto simp: owned_ident run_ident_def)
    then have "rn_workspace_id y = ws" using k u(1) owned_unique[OF ids(2)] by (auto simp: keeps_def)
    moreover have "status_of (sv_db s) (rn_id x) = Some (rn_status y)"
      using rows_of_single[OF ids(1) y(1)] y(2) by (simp add: status_of_def)
    then have "\<not> is_terminal run_transitions (rn_status y)"
      using terminal_step[OF _ reachable_journey[OF r x(2)]] k journey_status[of s "rn_id x"] journey_status[OF u(3)] u(4)
      by (metis keeps_def)
    ultimately show ?thesis using y by (auto simp: active_runs_def unfinished_def)
  qed
  show "rn_id x = rn_id y" if xy: "x \<in> set (active_runs (sv_db s') ws)" "y \<in> set (active_runs (sv_db s') ws)" for x y
  proof -
    have ex: "run_exists (sv_db s') (rn_id x)" "owned (sv_db s') ws (rn_id x)"
      "run_exists (sv_db s') (rn_id y)" "owned (sv_db s') ws (rn_id y)"
      using unfinished_owned(1)[OF ids(2)] xy by blast+
    show ?thesis
    proof (cases "run_exists (sv_db s) (rn_id x) \<and> run_exists (sv_db s) (rn_id y)")
      case True
      then obtain a b where ab: "a \<in> set (active_runs (sv_db s) ws)" "rn_id a = rn_id x"
        "b \<in> set (active_runs (sv_db s) ws)" "rn_id b = rn_id y" using old xy by metis
      moreover have "length (active_runs (sv_db s) ws) \<le> 1" using i by (simp add: sole_runs_def)
      ultimately have "a = b" by (cases "active_runs (sv_db s) ws") auto
      then show ?thesis using ab by simp
    next
      case False
      then obtain z where z: "z \<in> {x, y}" "arrives s s' (rn_id z)"
        using evolves_cases[OF ev ex(1)] evolves_cases[OF ev ex(3)] by blast
      then have none: "active_runs (sv_db s) ws = []" using ex by (auto simp: arrives_def)
      then have "\<not> run_exists (sv_db s) (rn_id v)" if "v \<in> {x, y}" for v using old[of v] xy that by auto
      then show ?thesis using z ex(1,3) by (auto simp: arrives_def)
    qed
  qed
qed

lemma sole_runs_reachable: "service_reach s \<Longrightarrow> sole_runs s"
proof (induction rule: service_reach.induct)
  case (initial s)
  then show ?case by (simp add: sole_runs_def initial_service_def active_runs_def)
next
  case (step s s')
  then show ?case using sole_runs_step by blast
qed

subsection \<open>A reset is never refused\<close>

lemma append_event_ok: "run_exists db rid \<Longrightarrow> \<exists>db'. append_event now rid e db = Inr db' \<and>
    db_runs db' = db_runs db \<and> db_confirmations db' = db_confirmations db \<and>
    db_contracts db' = db_contracts db \<and> db_snapshots db' = db_snapshots db \<and>
    length (db_events db') = Suc (length (db_events db))"
  by (simp add: append_event_def)

lemma cancel_confirmations_ok:
  assumes "\<forall>c\<in>set cs. run_exists db (cf_run_id c)"
  shows "\<exists>db'. cancel_confirmations now ws cs db = Inr db'"
  using assms
proof (induction cs arbitrary: db)
  case (Cons c cs)
  let ?db1 = "db\<lparr>db_confirmations := map (\<lambda>d. if cf_id d = cf_id c \<and> cf_workspace_id d = ws
      then d\<lparr>cf_status := Cf_Cancelled, cf_decided_at := Some (isoformat_z now)\<rparr> else d) (db_confirmations db)\<rparr>"
  let ?e = "(draft_event Ev_ConfirmationCancelled Ac_Human)
      \<lparr>ev_correlation_id := Some (cf_correlation_id c), ev_redacted_payload := reset_payload\<rparr>"
  have "run_exists ?db1 (cf_run_id c)" using Cons.prems by (simp add: run_exists_def)
  then obtain db2 where d: "append_event now (cf_run_id c) ?e ?db1 = Inr db2" "db_runs db2 = db_runs db"
    using append_event_ok[of ?db1 "cf_run_id c" now ?e] by auto
  have "\<forall>c\<in>set cs. run_exists db2 (cf_run_id c)" using Cons.prems d(2) by (simp add: run_exists_def)
  then show ?case using Cons.IH[of db2] d(1) by (simp add: Let_def)
qed simp

lemma cancel_runs_ok:
  assumes "\<forall>r\<in>set rs. run_exists db (rn_id r)"
  shows "\<exists>db'. cancel_runs now ws rs db = Inr db'"
  using assms
proof (induction rs arbitrary: db)
  case (Cons r rs)
  let ?e = "(draft_event Ev_RunCancelled Ac_Human)\<lparr>ev_redacted_payload := reset_payload\<rparr>"
  obtain db1 where d: "append_event now (rn_id r) ?e db = Inr db1" "db_runs db1 = db_runs db"
    using append_event_ok[of db "rn_id r" now ?e] Cons.prems by auto
  have "run_exists (complete_run now ws i Run_Cancelled db1) x \<longleftrightarrow> run_exists db x" for i x
  proof -
    have "map rn_id (db_runs (complete_run now ws i Run_Cancelled db1)) = map rn_id (db_runs db)"
      using d(2) by (simp add: complete_run_def)
    then have "rn_id ` set (db_runs (complete_run now ws i Run_Cancelled db1)) = rn_id ` set (db_runs db)"
      by (metis list.set_map)
    moreover have "run_exists y x \<longleftrightarrow> x \<in> rn_id ` set (db_runs y)" for y by (auto simp: run_exists_def)
    ultimately show ?thesis by simp
  qed
  then show ?case using Cons d(1) by simp
qed simp

lemma reset_kept_ok:
  assumes "tied db"
  shows "\<exists>db'. reset_kept now ws db = Inr db'"
proof -
  let ?cs = "filter (\<lambda>c. cf_workspace_id c = ws \<and> cf_status c = Cf_Pending) (db_confirmations db)"
  have "\<forall>c\<in>set ?cs. run_exists db (cf_run_id c)" using assms owned_exists by (auto simp: tied_def)
  then obtain db1 where d: "cancel_confirmations now ws ?cs db = Inr db1" using cancel_confirmations_ok by blast
  have "\<forall>r\<in>set (active_runs db1 ws). run_exists db1 (rn_id r)" by (auto simp: active_runs_def run_exists_def)
  then show ?thesis using cancel_runs_ok d by (simp add: reset_kept_def)
qed

lemma reset_ends_runs:
  assumes k: "keyed db" "homed db" and tx: "reset_workspace now ws purge db = Inr db'"
  shows "active_runs db' ws = []"
proof -
  obtain db2 where d2: "reset_kept now ws db = Inr db2"
    and d': "db' = update_workspace ws (\<lambda>w. w\<lparr>wk_active_run_id := None\<rparr>) (if purge then purge_completed ws db2 else db2)"
    using tx by (auto simp: reset_workspace_parts)
  note v = reset_kept_view[OF k(1) d2]
  have ids: "ids_ok db2" using grows_ids_ok[OF v(1)] k(1) by (simp add: keyed_def)
  have none: "active_runs db2 ws = []"
  proof (rule ccontr)
    assume "active_runs db2 ws \<noteq> []"
    then obtain r where "r \<in> set (active_runs db2 ws)" by (cases "active_runs db2 ws") auto
    then obtain st where st: "owned db2 ws (rn_id r)" "status_of db2 (rn_id r) = Some st" "\<not> is_terminal run_transitions st"
      using unfinished_owned(1)[OF ids] by blast
    then have "owned db ws (rn_id r)" using owned_grows[OF v(1)] by simp
    then have "map_option cancelled_status (status_of db (rn_id r)) = Some st" using v(2) st(2) by (simp add: view_def)
    then show False using st(3) by (auto simp: cancelled_status_def is_terminal_def split: if_splits)
  qed
  have "set (db_runs db') \<subseteq> set (db_runs db2)"
    by (auto simp: d' update_workspace_def purge_completed_def Let_def)
  then show ?thesis using none by (auto simp: active_runs_def filter_empty_conv)
qed

subsection \<open>Calls at the target\<close>

lemma sent_reachable: "journey_reach prot j \<Longrightarrow> sent_inv prot j"
proof (induction rule: journey_reach.induct)
  case initial
  show ?case by (simp add: sent_inv_def armed_journey_def)
next
  case (step j k)
  then show ?case using sent_step journey_reach_inv by blast
qed

lemma purged_owned: "purged ws db r \<Longrightarrow> owned db ws r"
  by (auto simp: purged_def owned_ident run_ident_def)

lemma reset_leaves_others:
  assumes k: "keyed db" "homed db" and tx: "reset_workspace now ws purge db = Inr db'"
    and r: "run_exists db r" "\<not> owned db ws r"
  shows "run_exists db' r \<and> view db' r = view db r"
proof -
  obtain db2 where d2: "reset_kept now ws db = Inr db2"
    and d': "db' = update_workspace ws (\<lambda>w. w\<lparr>wk_active_run_id := None\<rparr>) (if purge then purge_completed ws db2 else db2)"
    using tx by (auto simp: reset_workspace_parts)
  note g = reset_kept_view(1)[OF k(1) d2]
  have v: "view db2 r = view db r" using grows_view[OF g] r(2) by simp
  have e: "run_exists db2 r" using grows_run_exists[OF g] r(1) by simp
  have n: "\<not> purged ws db2 r" using purged_owned owned_grows[OF g] r(2) by blast
  have "ids_ok db2" using grows_ids_ok[OF g] k(1) by (simp add: keyed_def)
  moreover have i: "request_idents db2 = request_idents db" using g by (simp add: grows_def)
  then have "map cf_id (db_confirmations db2) = map cf_id (db_confirmations db)" by (simp only: request_ident_images)
  moreover have "tied db2" using k(1) owned_grows[OF g] unfolding tied_idents i by (simp add: keyed_def tied_idents)
  ultimately have k2: "keyed db2" "homed db2" using k g by (simp_all add: keyed_def grows_def)
  have p: "run_exists (purge_completed ws db2) r \<and> view (purge_completed ws db2) r = view db2 r"
    using purge_view(1,2)[OF k2, of ws r] e n by blast
  have o: "view (update_workspace ws f d) r = view d r" "run_exists (update_workspace ws f d) r = run_exists d r" for f d
    using moves_view[OF moves_other_tables[of "update_workspace ws f d" d r]]
    by (simp_all add: update_workspace_def run_exists_def)
  show ?thesis unfolding d' o using p v e by (cases purge) simp_all
qed

lemma consented_prior: "ev_correlation_id e \<noteq> None \<Longrightarrow> consented ev e \<longleftrightarrow> prior_approval (pe_events ev) e"
  by (auto simp: consented_def approvals_before_def approvals_def prior_approval_def)

end
