(* ===== verification/Execution.thy ===== *)
theory Execution
  imports Reachable
begin

section \<open>A concrete execution\<close>

text \<open>
  A service that arms a run, has a tool called on it and begins to verify it: the witness that the
  properties of reachable services speak about something. The hashes are left as they are; that they
  exist is enough.
\<close>

subsection \<open>A concrete service\<close>

text \<open>
  A workspace with a selected contract that protects \<open>pay\<close> and asks for nothing else; a client has
  read its selection and arms the first run.
\<close>

definition paying_contract :: outcome_contract where
  "paying_contract =
     \<lparr>oc_schema_version = lit ''1.0'', oc_name = lit ''Pay'', oc_target_id = lit ''store'', oc_intent = lit ''pay'',
      oc_description = [], oc_preconditions = [], oc_expected_tools = None, oc_assertions = [],
      oc_policies = [RequiresConfirmation (lit ''pay'') 60], oc_redaction = None\<rparr>"

definition paying_selection :: configuration where
  "paying_selection =
     \<lparr>cg_contract_id = lit ''c1'', cg_contract_content_hash = lit ''h'', cg_target_id = lit ''store'',
      cg_adapter_id = lit ''store'', cg_scenario_mode = None, cg_failure_profile = None,
      cg_contract = paying_contract\<rparr>"

definition empty_store :: observation where
  "empty_store = \<lparr>ob_namespace = lit ''store'', ob_provider_id = lit ''store'', ob_provenance = lit ''adapter'',
     ob_schema_version = lit ''1'', ob_payload = [], ob_state_version = None, ob_captured_at = 0\<rparr>"

definition paying_tables :: database where
  "paying_tables =
     \<lparr>db_workspaces = [\<lparr>wk_id = lit ''w1'', wk_selected_contract_id = Some (lit ''c1''),
        wk_selected_target_id = Some (lit ''store''), wk_active_run_id = None, wk_scenario_mode = None,
        wk_failure_profile = None\<rparr>],
      db_contracts = [\<lparr>ct_id = lit ''c1'', ct_workspace_id = None, ct_content_hash = lit ''h'',
        ct_contract = paying_contract\<rparr>],
      db_runs = [], db_events = [], db_confirmations = [], db_guidance = [], db_snapshots = [], db_findings = [],
      db_artifacts = [], db_evaluation_cases = [], db_evaluation_runs = []\<rparr>"

definition paying_service :: service where
  "paying_service = \<lparr>sv_db = paying_tables,
     sv_clients = (\<lambda>k. if k = 0 then Some (Arming (lit ''w1'') paying_selection None) else None),
     sv_issued = {}, sv_sent = []\<rparr>"

lemma paying_reads: "read_configuration Some (lit ''w1'') paying_tables = Inr paying_selection"
  by (simp add: read_configuration_def workspace_of_def paying_tables_def scoped_contract_def
      paying_selection_def paying_contract_def Let_def lit_def)

lemma paying_reach: "service_reach paying_service"
proof -
  let ?s = "\<lparr>sv_db = paying_tables, sv_clients = \<lambda>_. None, sv_issued = {}, sv_sent = []\<rparr>"
  have "service_reach ?s" by (rule service_reach.initial) (simp add: initial_service_def paying_tables_def)
  moreover have "service_step ?s (at_phase 0 (Some (Arming (lit ''w1'') paying_selection None)) ?s)"
    using paying_reads by (intro service_step.read_selection) simp_all
  moreover have "at_phase 0 (Some (Arming (lit ''w1'') paying_selection None)) ?s = paying_service"
    by (auto simp: at_phase_def paying_service_def)
  ultimately show ?thesis using service_reach.step by metis
qed

lemma empty_hash: "\<exists>h. observation_hash empty_store = Inr h"
  by (simp add: observation_hash_def state_hash_def content_hash_def empty_store_def canonicalize_def
      canonical_text_def max_canonical_depth_def)

lemma intent_hash: "\<exists>h. state_hash [(lit ''intent'', JStr (oc_intent paying_contract))] = Inr h"
  by (simp add: state_hash_def content_hash_def paying_contract_def canonicalize_def canonical_text_def
      max_canonical_depth_def encode_string_def is_surrogate_def lit_def)

lemma paying_arms:
  "\<exists>db'. arm_run 0 (lit ''g1'') Some (lit ''r1'') (lit ''w1'') paying_selection empty_store False None paying_tables = Inr db' \<and>
     db_contracts db' = db_contracts paying_tables \<and>
     db_runs db' = [new_run 0 (lit ''r1'') (lit ''w1'') paying_selection False None] \<and>
     length (db_events db') \<le> 3 \<and> (\<forall>sn\<in>set (db_snapshots db'). observation_hash (sn_observation sn) = Inr (sn_content_hash sn))"
proof -
  obtain h where h: "observation_hash empty_store = Inr h" using empty_hash by blast
  obtain i where i: "state_hash [(lit ''intent'', JStr (oc_intent paying_contract))] = Inr i" using intent_hash by blast
  have c: "cg_contract paying_selection = paying_contract" by (simp add: paying_selection_def)
  let ?r = "new_run 0 (lit ''r1'') (lit ''w1'') paying_selection False None"
  have id: "rn_id ?r = lit ''r1''" by (simp add: new_run_def)
  have g: "\<exists>db''. guidance_transition 0 (lit ''g1'') (lit ''w1'') g (Some (lit ''r1'')) db = Inr db'' \<and>
      db_runs db'' = db_runs db \<and> db_contracts db'' = db_contracts db \<and> db_snapshots db'' = db_snapshots db \<and>
      length (db_events db'') \<le> Suc (length (db_events db))"
    if "db_runs db = [?r]" for g db
    using that id by (auto simp: guidance_transition_def append_guidance_def append_event_def run_exists_def Let_def
        split: option.splits)
  let ?r1 = "lit ''r1''" and ?w1 = "lit ''w1''" and ?g1 = "lit ''g1''"
  let ?d2 = "update_workspace ?w1 (\<lambda>w. w\<lparr>wk_active_run_id := Some ?r1\<rparr>) (paying_tables\<lparr>db_runs := db_runs paying_tables @ [?r]\<rparr>)"
  have d2: "db_runs ?d2 = [?r]" "db_contracts ?d2 = db_contracts paying_tables" "db_snapshots ?d2 = []" "db_events ?d2 = []"
    by (simp_all add: update_workspace_def paying_tables_def)
  have ex: "run_exists db ?r1" if "db_runs db = [?r]" for db using that id by (simp add: run_exists_def)
  obtain d3 where d3: "append_event 0 ?r1 (armed_event paying_selection) ?d2 = Inr d3" "db_runs d3 = [?r]"
    "db_contracts d3 = db_contracts paying_tables" "db_snapshots d3 = []" "length (db_events d3) = 1"
    using append_event_ok[OF ex[OF d2(1)], of 0 "armed_event paying_selection"] d2 by auto
  obtain d4 where d4: "add_snapshot ?r1 Sp_Before empty_store d3 = Inr d4" "db_runs d4 = [?r]"
    "db_contracts d4 = db_contracts paying_tables" "length (db_events d4) = 1"
    "\<forall>sn\<in>set (db_snapshots d4). observation_hash (sn_observation sn) = Inr (sn_content_hash sn)"
    using d3 by (simp add: add_snapshot_def h)
  obtain d5 where d5: "append_event 0 ?r1 (snapshot_event Sp_Before empty_store h) d4 = Inr d5" "db_runs d5 = [?r]"
    "db_contracts d5 = db_contracts paying_tables" "length (db_events d5) = 2" "db_snapshots d5 = db_snapshots d4"
    using append_event_ok[OF ex[OF d4(2)], of 0 "snapshot_event Sp_Before empty_store h"] d4 by auto
  have "\<not> run_exists paying_tables ?r1" by (simp add: run_exists_def paying_tables_def)
  then have "write_run 0 ?g1 ?r1 ?w1 paying_selection empty_store False None paying_tables =
      guidance_transition 0 ?g1 ?w1 (current_guidance d5 ?w1) (Some ?r1) d5"
    using d3(1) d4(1) d5(1) by (simp add: write_run_def c i h Let_def)
  then have "\<exists>db'. write_run 0 (lit ''g1'') (lit ''r1'') (lit ''w1'') paying_selection empty_store False None paying_tables = Inr db' \<and>
      db_contracts db' = db_contracts paying_tables \<and> db_runs db' = [?r] \<and> length (db_events db') \<le> 3 \<and>
      (\<forall>sn\<in>set (db_snapshots db'). observation_hash (sn_observation sn) = Inr (sn_content_hash sn))"
  proof -
    obtain e where e: "guidance_transition 0 ?g1 ?w1 (current_guidance d5 ?w1) (Some ?r1) d5 = Inr e"
      "db_runs e = db_runs d5" "db_contracts e = db_contracts d5" "db_snapshots e = db_snapshots d5"
      "length (db_events e) \<le> Suc (length (db_events d5))" using g[OF d5(2)] by blast
    then show ?thesis using d5 d4(5) \<open>write_run _ _ _ _ _ _ _ _ _ = _\<close> by simp
  qed
  moreover have "active_runs paying_tables (lit ''w1'') = []" by (simp add: active_runs_def paying_tables_def)
  moreover have "guard_new_run paying_tables (lit ''w1'') = Inr ()"
    by (simp add: guard_new_run_def paying_tables_def outcome_runs_per_workspace_def)
  moreover have "validate_preconditions paying_selection empty_store = Inr ()"
    by (simp add: validate_preconditions_def evaluate_preconditions_def c paying_contract_def)
  ultimately show ?thesis
    using paying_reads by (simp add: arm_run_def require_no_active_run_def require_eligible_source_def)
qed

text \<open>The service after that run was armed\<close>

definition armed_service :: "database \<Rightarrow> service" where
  "armed_service db = issuing [lit ''r1'', lit ''g1''] (at_phase 0 None (committed db paying_service))"

lemma armed_service:
  "\<exists>db. service_step paying_service (armed_service db) \<and> service_reach (armed_service db) \<and>
     run_exists db (lit ''r1'') \<and> \<not> run_exists (sv_db paying_service) (lit ''r1'') \<and>
     find_run db (lit ''w1'') (lit ''r1'') = Some (new_run 0 (lit ''r1'') (lit ''w1'') paying_selection False None) \<and>
     run_contract db (new_run 0 (lit ''r1'') (lit ''w1'') paying_selection False None) = Some paying_contract \<and>
     length (db_events db) \<le> 3 \<and> (\<forall>sn\<in>set (db_snapshots db). observation_hash (sn_observation sn) = Inr (sn_content_hash sn)) \<and>
     journey_of (armed_service db) (lit ''r1'') = armed_journey"
proof -
  let ?r = "new_run 0 (lit ''r1'') (lit ''w1'') paying_selection False None"
  obtain db where db: "arm_run 0 (lit ''g1'') Some (lit ''r1'') (lit ''w1'') paying_selection empty_store False None paying_tables = Inr db"
    "db_contracts db = db_contracts paying_tables" "db_runs db = [?r]" "length (db_events db) \<le> 3"
    "\<forall>sn\<in>set (db_snapshots db). observation_hash (sn_observation sn) = Inr (sn_content_hash sn)" using paying_arms by blast
  have s: "sv_db paying_service = paying_tables" "sv_clients paying_service 0 = Some (Arming (lit ''w1'') paying_selection None)"
    "sv_issued paying_service = {}" by (simp_all add: paying_service_def)
  have f: "fresh (lit ''r1'') paying_service" "fresh (lit ''g1'') paying_service" by (simp_all add: fresh_def s lit_def)
  have step: "service_step paying_service (armed_service db)"
    unfolding armed_service_def by (rule service_step.arm[OF s(2) f]) (unfold s(1), rule db(1))
  have "run_exists db (lit ''r1'')" by (simp add: run_exists_def db new_run_def)
  moreover have "find_run db (lit ''w1'') (lit ''r1'') = Some ?r" by (simp add: find_run_def db new_run_def)
  moreover have "run_contract db ?r = Some paying_contract"
    by (simp add: run_contract_def stored_contract_def db paying_tables_def new_run_def paying_selection_def lit_def)
  moreover have "\<not> run_exists (sv_db paying_service) (lit ''r1'')" by (simp add: s run_exists_def paying_tables_def)
  moreover have "journey_of (armed_service db) (lit ''r1'') = armed_journey"
    using evolves_cases[OF reachable_evolves[OF paying_reach step], of "lit ''r1''"] calculation
    by (auto simp: arrives_def armed_service_def)
  ultimately show ?thesis using step service_reach.step[OF paying_reach step] db(4,5) by blast
qed

text \<open>
  One unprotected call of \<open>look\<close> on that run, from the read to its end, and the start of the
  run's verification.
\<close>

definition look_spec :: target_tool_spec where
  "look_spec = \<lparr>ts_name = lit ''look'', ts_description = lit ''look'', ts_input_schema = [(lit ''type'', JStr (lit ''object''))],
     ts_side_effect = Se_ReadOnly, ts_retry = Rt_ReadOnlySafe, ts_effect_paths = []\<rparr>"

definition look_call :: call where
  "look_call = \<lparr>cl_workspace = lit ''w1'', cl_run = lit ''r1'', cl_spec = look_spec, cl_supplied = [], cl_arguments = [],
     cl_identity = None, cl_requirement = None, cl_reservation = 4,
     cl_policy = contract_redaction_policy paying_contract\<rparr>"

lemma look_reads:
  assumes "find_run db (lit ''w1'') (lit ''r1'') = Some run" "rn_status run = Run_Armed"
    "run_contract db run = Some paying_contract"
  shows "read_call (\<lambda>_. [look_spec]) db (lit ''w1'') (lit ''r1'') (lit ''look'') [] None = Inr look_call"
proof -
  have "\<not> protects paying_contract (lit ''look'')" by (simp add: protects_def paying_contract_def lit_def)
  then have r: "confirmation_requirement (Some (contract_document paying_contract)) (lit ''look'') = None"
    using confirmation_requirement_protects by blast
  have "validate_arguments (ts_input_schema look_spec) [] = Inr []"
    by (simp add: look_spec_def validate_arguments_def validate_schema.simps supported_keywords_def declared_type_def supported_types_def
      properties_of_def required_of_def lit_def)
  moreover have "verification_reservation (Some (contract_document paying_contract)) = 4"
    by (simp add: verification_reservation_def verification_fixed_events_def doc_items_policies doc_items_def
        paying_contract_def contract_document_def lit_def)
  ultimately show ?thesis
    using assms r by (simp add: read_call_def invocable_run_def scoped_run_def invocable_run_states_def Let_def
        require_published_def look_spec_def look_call_def run_redaction_policy_def)
qed

lemma guidance_ok:
  assumes "run_exists db rid"
  shows "\<exists>db'. guidance_transition now gid ws g (Some rid) db = Inr db' \<and> db_runs db' = db_runs db \<and>
    db_contracts db' = db_contracts db \<and> db_snapshots db' = db_snapshots db \<and> db_confirmations db' = db_confirmations db \<and>
    length (db_events db') \<le> Suc (length (db_events db))"
  using assms by (auto simp: guidance_transition_def append_guidance_def append_event_def run_exists_def Let_def
      split: option.splits)

text \<open>An unprotected call on an armed run starts when the budget allows it.\<close>

lemma start_ok:
  assumes run: "find_run db (cl_workspace cl) (cl_run cl) = Some run" "rn_status run = Run_Armed"
    and cl: "cl_identity cl = None" "cl_requirement cl = None" "0 < event_budget_remaining db (cl_run cl) (cl_reservation cl)"
    and h: "observation_hash before = Inr h"
  shows "\<exists>n db'. start_invocation surface_of clock now gid gid' cid cl vid request before db = Inr (StartedAt n, db') \<and>
    db_contracts db' = db_contracts db \<and> db_snapshots db' = db_snapshots db"
proof -
  let ?d1 = "set_run_status (cl_workspace cl) (rn_id run) Run_Running db"
  have r: "rn_id run = cl_run cl" "run_exists db (cl_run cl)"
    using find_run_Some[OF run(1)] by (auto simp: run_exists_def)
  have "map rn_id (db_runs ?d1) = map rn_id (db_runs db)" by (simp add: set_run_status_def)
  then have "rn_id ` set (db_runs ?d1) = rn_id ` set (db_runs db)" by (metis list.set_map)
  then have ex1: "run_exists ?d1 (cl_run cl)" using r(2) by (auto simp: run_exists_def) (metis imageE image_eqI)
  obtain d2 where d2: "guidance_transition now gid (cl_workspace cl) (current_guidance ?d1 (cl_workspace cl)) (Some (cl_run cl)) ?d1 = Inr d2"
    "db_runs d2 = db_runs ?d1" "db_contracts d2 = db_contracts ?d1" "db_snapshots d2 = db_snapshots ?d1"
    using guidance_ok[OF ex1] by blast
  have "run_exists d2 (cl_run cl)" using ex1 d2(2) by (simp add: run_exists_def)
  then obtain d3 where d3: "append_event now (cl_run cl) (start_event cl vid request before h) d2 = Inr d3"
    "db_contracts d3 = db_contracts d2" "db_snapshots d3 = db_snapshots d2" using append_event_ok by blast
  have "open_run now gid (cl_workspace cl) run db = Inr d2"
    using d2(1) r(1) run(2) by (simp add: open_run_def transition_check_Inr Let_def bind_result_Inr)
  then have "start_invocation surface_of clock now gid gid' cid cl vid request before db =
      Inr (StartedAt (next_sequence d2 (cl_run cl)), d3)"
    using run cl d3(1) h by (simp add: start_invocation_def invocable_run_def scoped_run_def invocable_run_states_def
        trip_if_event_budget_exhausted_def identity_mismatch_def Let_def)
  then show ?thesis using d2 d3 by (simp add: set_run_status_def)
qed

lemma quiet_not_in_flight:
  assumes "facts_named db" "begun (trace_of db rid) \<subseteq> ended (trace_of db rid)"
  shows "\<not> in_flight db rid"
proof
  assume "in_flight db rid"
  then obtain e where e: "e \<in> set (events_of db rid)" "ev_event_type e = Ev_ToolInvocationStarted"
    and none: "\<And>d. d \<in> set (events_of db rid) \<Longrightarrow> ev_correlation_id d \<noteq> None \<Longrightarrow>
      ev_correlation_id d = ev_correlation_id e \<Longrightarrow> ev_event_type d \<notin> set terminal_invocation_events"
    unfolding in_flight_def by blast
  let ?c = "text_of_option (ev_correlation_id e)"
  have named: "ev_correlation_id x \<noteq> None" if "x \<in> set (events_of db rid)" "fact_of x \<noteq> None" for x
    using assms(1) that by (auto simp: facts_named_def events_of_def)
  have "fact_of e = Some (Started (text_of_option (ev_tool_name e)) ?c)" using e(2) by (simp add: fact_of_def)
  then have "?c \<in> begun (trace_of db rid)"
    using e(1) by (intro Started_begun[of "text_of_option (ev_tool_name e)"]) (auto simp: trace_of_def facts_member)
  then have "?c \<in> ended (trace_of db rid)" using assms(2) by blast
  then obtain f where f: "f \<in> set (trace_of db rid)" "ends f" "fact_corr f = ?c" by (auto simp: ended_def)
  then obtain d where d: "d \<in> set (events_of db rid)" "fact_of d = Some f" by (auto simp: trace_of_def facts_member)
  have "ev_event_type d \<in> set terminal_invocation_events \<and> text_of_option (ev_correlation_id d) = ?c"
    using d(2) f(2,3) by (auto simp: fact_of_def Let_def terminal_invocation_events_def split: outcome_event_type.splits)
  moreover have "ev_correlation_id d \<noteq> None" "ev_correlation_id e \<noteq> None"
    using named d e \<open>fact_of e = _\<close> by auto
  ultimately show False using none[OF d(1)] by auto
qed

lemma service_runs_trans: "service_runs t u \<Longrightarrow> service_runs s t \<Longrightarrow> service_runs s u"
  by (induction rule: service_runs.induct) (auto intro: service_runs.intros)

lemma moved_run:
  assumes "find_run db ws rid = Some run" "moves L rid db db' (Some st, tr, qs)" "ids_ok db"
  obtains run' where "find_run db' ws rid = Some run'" "rn_status run' = st" "run_ident run' = run_ident run"
proof -
  have g: "grows {rid} L db db'" using assms(2) by (simp add: moves_def)
  have ids: "ids_ok db'" using grows_ids_ok[OF g] assms(3) by simp
  obtain run' where run': "find_run db' ws rid = Some run'"
    using owned_grows[OF g, of ws rid] assms(1) by (auto simp: owned_def)
  have "rn_status run' = st" using find_run_status[OF ids run'] moves_status(1)[OF assms(2)] by simp
  moreover have "map run_ident (rows_of db' rid) = map run_ident (rows_of db rid)"
    using g by (simp add: rows_of_idents grows_def)
  then have "run_ident run' = run_ident run"
    using find_run_rows[OF assms(3,1)] find_run_rows[OF ids run'] by simp
  ultimately show ?thesis using that run' by blast
qed

lemma empty_observed: "observed_by policy empty_store"
  unfolding observed_by_def
  by (rule exI[of _ empty_store]) (simp add: redacted_observation_def redact_def empty_store_def)

lemma judged_service:
  "\<exists>s0 s jd. service_reach s0 \<and> service_runs s0 s \<and> sv_clients s 1 = Some (Judging (lit ''w1'') (lit ''r1'') jd) \<and>
     run_exists (sv_db s0) (lit ''r1'') \<and> run_exists (sv_db s) (lit ''r1'') \<and>
     trace_of (sv_db s) (lit ''r1'') = [Started (lit ''look'') (lit ''v1''), Aborted (lit ''look'') (lit ''v1'')] \<and>
     sent_of s (lit ''r1'') = [(lit ''v1'', lit ''look'')]"
proof -
  let ?run = "new_run 0 (lit ''r1'') (lit ''w1'') paying_selection False None"
  let ?r = "lit ''r1''" and ?w = "lit ''w1''" and ?v = "lit ''v1''" and ?t = "lit ''look''" and ?q = "lit ''req_v1''"
  obtain db where d: "service_reach (armed_service db)" "run_exists db ?r" "find_run db ?w ?r = Some ?run"
    "run_contract db ?run = Some paying_contract" "length (db_events db) \<le> 3"
    "\<forall>sn\<in>set (db_snapshots db). observation_hash (sn_observation sn) = Inr (sn_content_hash sn)"
    "journey_of (armed_service db) ?r = armed_journey"
    using armed_service by blast
  obtain h where h: "observation_hash empty_store = Inr h" using empty_hash by blast
  let ?s0 = "armed_service db"
  have s0: "sv_db ?s0 = db" "sv_clients ?s0 1 = None" "sv_sent ?s0 = []" "sv_issued ?s0 = {?r, lit ''g1''}"
    by (auto simp: armed_service_def paying_service_def)
  have call: "cl_workspace look_call = ?w" "cl_run look_call = ?r" "ts_name (cl_spec look_call) = ?t"
    "cl_requirement look_call = None" "cl_identity look_call = None" by (simp_all add: look_call_def look_spec_def)
  have armed: "rn_status ?run = Run_Armed" by (simp add: new_run_def)
  have base: "base_inv ?s0" using reachable_base[OF d(1)] .
  have ids: "ids_ok db" "facts_named db" using base_invD(8,12)[OF base] by (simp_all add: s0)
  have j: "trace_of db ?r = []" "requests_of db ?r = []"
    using d(7) by (simp_all add: journey_of_def armed_journey_def s0)
  obtain n db1 where st: "start_invocation (\<lambda>_. None) 0 0 (lit ''g2'') (lit ''g3'') (lit ''g4'') look_call ?v ?q empty_store db =
      Inr (StartedAt n, db1)" "db_contracts db1 = db_contracts db" "db_snapshots db1 = db_snapshots db"
  proof -
    have "length (events_of db ?r) \<le> 3" using d(5) by (metis events_of_def le_trans length_filter_le)
    then have "0 < event_budget_remaining db (cl_run look_call) (cl_reservation look_call)"
      by (simp add: event_budget_remaining_def ordinary_events_per_run_def events_per_run_def event_count_def look_call_def)
    then have "\<exists>n db'. start_invocation (\<lambda>_. None) 0 0 (lit ''g2'') (lit ''g3'') (lit ''g4'') look_call ?v ?q empty_store db =
        Inr (StartedAt n, db') \<and> db_contracts db' = db_contracts db \<and> db_snapshots db' = db_snapshots db"
      by (intro start_ok[OF _ armed _ _ _ h]) (use call d(3) in simp_all)
    then show ?thesis using that by blast
  qed
  have m1: "moves [] ?r db db1 (Some Run_Running, [Started ?t ?v], [])"
    using start_view[OF ids(1) st(1)] call j by auto
  obtain run1 where r1: "find_run db1 ?w ?r = Some run1" "rn_status run1 = Run_Running" "run_ident run1 = run_ident ?run"
    using moved_run[OF d(3) m1 ids(1)] by blast
  have ids1: "ids_ok db1" using ids_ok_moves[OF m1] ids(1) by simp
  have ex1: "run_exists db1 ?r" using find_run_owned[OF r1(1)] owned_exists by blast
  obtain db2 where t: "terminate_invocation 0 look_call ?v ?v ?q n empty_store (Some empty_store) None (Some (lit ''E'')) 0 db1 = Inr db2"
    "db_contracts db2 = db_contracts db1" "db_snapshots db2 = db_snapshots db1"
    using append_event_ok[OF ex1] call by (fastforce simp: terminate_invocation_def h optional_hash_def)
  obtain db2' where "append_event 0 ?r (terminal_event look_call ?v ?v ?q n empty_store h (Some empty_store) (Some h) None (Some (lit ''E'')) 0) db1 = Inr db2'"
    using append_event_ok[OF ex1] by blast
  then have "append_event 0 ?r (terminal_event look_call ?v ?v ?q n empty_store h (Some empty_store) (Some h) None (Some (lit ''E'')) 0) db1 = Inr db2"
    using t(1) call by (simp add: terminate_invocation_def h optional_hash_def)
  from append_event_view[OF this]
  have m2: "moves [] ?r db1 db2 (Some Run_Running, [Started ?t ?v, Aborted ?t ?v], [])"
    using moves_status[OF m1] call
    by (simp add: terminal_event_def terminal_type_def fact_of_def facts_Cons)
  obtain run2 where r2: "find_run db2 ?w ?r = Some run2" "rn_status run2 = Run_Running" "run_ident run2 = run_ident run1"
    using moved_run[OF r1(1) m2 ids1] by blast
  have ids2: "ids_ok db2" using ids_ok_moves[OF m2] ids1 by simp
  have named2: "facts_named db2" using m1 m2 ids(2) by (simp add: moves_def grows_def)
  have tr2: "trace_of db2 ?r = [Started ?t ?v, Aborted ?t ?v]" "requests_of db2 ?r = []"
    using moves_status[OF m2] by simp_all
  obtain jd db3 where b: "begin_verification ?w ?r db2 = Inr (jd, db3)"
  proof -
    have "begun (trace_of db2 ?r) \<subseteq> ended (trace_of db2 ?r)" by (force simp: tr2 begun_def ended_def image_iff)
    then have quiet: "require_nothing_in_flight db2 ?r = Inr ()"
      using quiet_not_in_flight[OF named2] by (simp add: nothing_in_flight_Inr tr2)
    have "Aborted ?t ?v \<in> set (trace_of db2 ?r)" by (simp add: tr2)
    then obtain e where "e \<in> set (events_of db2 ?r)" "fact_of e = Some (Aborted ?t ?v)"
      by (auto simp: trace_of_def facts_member)
    then have "require_a_completed_action db2 ?r = Inr ()"
      by (auto simp: require_a_completed_action_def completed_actions_def terminal_invocation_events_def fact_of_def
          Let_def split: outcome_event_type.splits)
    then have g: "gate_begin ?w ?r db2 = Inr (run2, set_run_status ?w ?r Run_Verifying db2)"
      using r2 quiet by (simp add: gate_begin_Inr)
    have id: "run_ident run2 = run_ident ?run" using r2(3) r1(3) by simp
    then have "truthy (rn_contract_id run2)"
      by (simp add: run_ident_def new_run_def paying_selection_def lit_def)
    moreover have "run_contract db2 run2 = Some paying_contract"
      using run_contract_ident[OF id] d(4) st(2) t(2) by simp
    moreover have "\<exists>c. snapshot_context (set_run_status ?w ?r Run_Verifying db2) ?r Sp_Before = Inr c"
      using d(6) st(3) t(3)
      by (auto simp: snapshot_context_def set_run_status_def find_Some_iff split: option.splits intro: nth_mem)
    ultimately show ?thesis
      using g that by (auto simp: begin_verification_def run_contract_def stored_contract_def set_run_status_def)
  qed
  have m3: "view db3 ?r = (Some Run_Verifying, trace_of db2 ?r, requests_of db2 ?r)"
    and g3: "grows {?r} [] db2 db3"
    using begin_view(1)[OF ids2 named2 b] by (simp_all add: moves_def)
  let ?s1 = "at_phase 1 (Some (Checked look_call)) ?s0"
  let ?s2 = "issuing [?v] (at_phase 1 (Some (Fresh look_call ?v)) ?s1)"
  let ?s3 = "issuing [lit ''g2'', lit ''g3'', lit ''g4'']
    (at_phase 1 (after_start look_call ?v ?q empty_store (StartedAt n)) (committed db1 ?s2))"
  let ?s4 = "handed_over (cl_run look_call, ?v, ts_name (cl_spec look_call))
    (at_phase 1 (Some (Executing look_call ?v ?v ?q n empty_store)) ?s3)"
  let ?s5 = "at_phase 1 None (committed db2 ?s4)"
  let ?s6 = "at_phase 1 (Some (Judging ?w ?r jd)) (committed db3 ?s5)"
  have "service_step ?s0 ?s1"
    by (rule service_step.read_call[OF s0(2), where published = "\<lambda>_. [look_spec]" and arguments = "[]" and identity = None])
      (use look_reads[OF d(3) armed d(4)] in \<open>simp add: s0\<close>)
  moreover have "service_step ?s1 ?s2"
    by (rule service_step.draw_call) (use call s0(4) in \<open>auto simp: fresh_def lit_def\<close>)
  moreover have "service_step ?s2 ?s3"
  proof (rule service_step.start[OF _ empty_observed])
    show "?q = target_request_id (cl_spec look_call) (cl_supplied look_call) ?v"
      by (simp add: target_request_id_def look_call_def look_spec_def lit_def)
    show "start_invocation (\<lambda>_. None) 0 0 (lit ''g2'') (lit ''g3'') (lit ''g4'') look_call ?v ?q empty_store (sv_db ?s2) =
        Inr (StartedAt n, db1)" using st(1) s0 by simp
  qed (use s0(4) in \<open>auto simp: fresh_def lit_def\<close>)
  moreover have "service_step ?s3 ?s4" by (rule service_step.dispatch) simp
  moreover have "service_step ?s4 ?s5"
    by (rule service_step.terminate[where after = "Some empty_store" and result = None and failure = "Some (lit ''E'')" and duration = 0 and now = 0])
      (use t(1) empty_observed in auto)
  moreover have "service_step ?s5 ?s6" by (rule service_step.begin_verifying) (use b in auto)
  ultimately have "service_runs ?s0 ?s6" by (meson service_runs.intros)
  moreover have "sent_of ?s6 ?r = [(?v, ?t)]" using s0(3) call by (simp add: sent_of_def)
  moreover have "run_exists db3 ?r" using grows_run_exists[OF g3] find_run_owned[OF r2(1)] owned_exists by blast
  moreover have "trace_of db3 ?r = [Started ?t ?v, Aborted ?t ?v]" using m3 tr2 by (simp add: view_def)
  moreover have "sv_db ?s6 = db3" "sv_clients ?s6 1 = Some (Judging ?w ?r jd)" by simp_all
  ultimately show ?thesis using d(1,2) s0(1) by metis
qed

end
