(* ===== verification/Guarantees.thy ===== *)
theory Guarantees
  imports Execution
begin

section \<open>The guarantees of the run services\<close>

text \<open>
  What any interleaving of clients can and cannot do to a run, with each property instantiated on
  the concrete execution.
\<close>

subsection \<open>The properties\<close>

text \<open>
  C1. Refinement. Whatever clients do and however their reads, transactions and calls interleave,
  every run of a reachable service takes, in each step, a step of the one-run protocol, whose status
  changes follow the run machine or cancel an unfinished run; a run that appears is freshly armed.
\<close>

theorem runs_follow_protocol:
  assumes "service_reach s" "service_step s s'" "run_exists (sv_db s') r"
  shows "if run_exists (sv_db s) r
    then journey_step (protected_by (sv_db s) r) (journey_of s r) (journey_of s' r) \<and>
      ((\<exists>ts. run_path (jn_status (journey_of s r)) ts (jn_status (journey_of s' r))) \<or>
       (\<not> is_terminal run_transitions (jn_status (journey_of s r)) \<and> jn_status (journey_of s' r) = Run_Cancelled))
    else journey_of s' r = armed_journey"
proof (cases "run_exists (sv_db s) r")
  case True
  then have j: "journey_step (protected_by (sv_db s) r) (journey_of s r) (journey_of s' r)"
    using evolves_cases[OF reachable_evolves[OF assms(1,2)] assms(3)] by (auto simp: keeps_def)
  show ?thesis using True j step_follows_machine[OF j reachable_journey[OF assms(1) True]] by simp
next
  case False
  then show ?thesis
    using evolves_cases[OF reachable_evolves[OF assms(1,2)] assms(3)] by (simp add: arrives_def)
qed

lemma runs_follow_protocol_witness: "\<exists>db. journey_of (armed_service db) (lit ''r1'') = armed_journey"
proof -
  obtain db where d: "service_step paying_service (armed_service db)" "run_exists db (lit ''r1'')"
    "\<not> run_exists (sv_db paying_service) (lit ''r1'')" using armed_service by blast
  have "run_exists (sv_db (armed_service db)) (lit ''r1'')" using d(2) by (simp add: armed_service_def)
  from runs_follow_protocol[OF paying_reach d(1) this] show ?thesis using d(3) by auto
qed

text \<open>
  C2. Consent holds by construction. On the timeline of any run of a reachable service, a completed
  call of a tool the run's contract protects is preceded by the approval of that very call, so the
  contract's own confirmation policy, evaluated over that timeline, passes.
\<close>

theorem consent_by_construction:
  assumes s: "service_reach s" and run: "find_run (sv_db s) ws rid = Some run"
    and c: "run_contract (sv_db s) run = Some c" "RequiresConfirmation tool n \<in> set (oc_policies c)"
    and ev: "pe_events ev = timeline (sv_db s) rid"
    and f: "evaluate_policy repr_of (RequiresConfirmation tool n) ev = Inr f"
  shows "fi_status f = Cs_Passed \<and>
    (\<forall>e\<in>set (timeline (sv_db s) rid). ev_event_type e = Ev_ToolInvocationCompleted \<longrightarrow> ev_tool_name e = Some tool \<longrightarrow>
      prior_approval (timeline (sv_db s) rid) e)"
proof -
  let ?db = "sv_db s" and ?es = "events_of (sv_db s) rid"
  have b: "base_inv s" using reachable_base[OF s] .
  have ex: "run_exists ?db rid" using find_run_owned[OF run] owned_exists by blast
  have "protected_by ?db rid tool"
    using find_run_rows[OF base_invD(12)[OF b] run] c by (auto simp: protected_by_def protects_def)
  moreover have "consent_ordered (protected_by ?db rid) (facts ?es)"
    using journey_invD(8)[OF reachable_journey[OF s ex]] by (simp add: trace_of_def)
  moreover have "\<forall>e\<in>set ?es. fact_of e \<noteq> None \<longrightarrow> ev_correlation_id e \<noteq> None \<and> ev_tool_name e \<noteq> None"
    using base_invD(8)[OF b] by (simp add: facts_named_def events_of_def)
  ultimately have ok: "\<exists>a\<in>set ?es. ev_event_type a = Ev_ConfirmationApproved \<and> ev_correlation_id a \<noteq> None \<and>
      ev_correlation_id a = ev_correlation_id e \<and> ev_sequence_number a < ev_sequence_number e"
    if "e \<in> set ?es" "ev_event_type e = Ev_ToolInvocationCompleted" "ev_tool_name e = Some tool" for e
    using approval_before_completion[of "protected_by ?db rid" ?es e tool] that reachable_numbered[OF s] by blast
  have t: "timeline ?db rid = map run_event_of ?es" using timeline_events[OF reachable_numbered[OF s]] .
  have prior: "prior_approval (timeline ?db rid) e \<and> ev_correlation_id e \<noteq> None"
    if e: "e \<in> set (timeline ?db rid)" "ev_event_type e = Ev_ToolInvocationCompleted" "ev_tool_name e = Some tool" for e
  proof -
    obtain x where x: "x \<in> set ?es" "e = run_event_of x" using e(1) by (auto simp: t)
    then obtain a where "a \<in> set ?es" "ev_event_type a = Ev_ConfirmationApproved" "ev_correlation_id a \<noteq> None"
      "ev_correlation_id a = ev_correlation_id x" "ev_sequence_number a < ev_sequence_number x"
      using ok[of x] e(2,3) by (auto simp: run_event_of_def)
    then show ?thesis unfolding t prior_approval_def x(2) by (auto simp: run_event_of_def)
  qed
  have "unconsented ev tool = []"
    unfolding unconsented_def filter_empty_conv
    using prior by (auto simp: in_completions_for ev consented_prior)
  then show ?thesis using f prior by (auto simp: requires_confirmation_status)
qed

lemma consent_by_construction_witness:
  "\<exists>db f. run_exists db (lit ''r1'') \<and>
     evaluate_policy id (RequiresConfirmation (lit ''pay'') 60)
       (no_evidence\<lparr>pe_events := timeline db (lit ''r1'')\<rparr>) = Inr f \<and> fi_status f = Cs_Passed"
proof -
  let ?run = "new_run 0 (lit ''r1'') (lit ''w1'') paying_selection False None"
  obtain db where d: "service_reach (armed_service db)" "run_exists db (lit ''r1'')"
    "find_run db (lit ''w1'') (lit ''r1'') = Some ?run" "run_contract db ?run = Some paying_contract"
    using armed_service by blast
  have db: "sv_db (armed_service db) = db" by (simp add: armed_service_def)
  let ?ev = "no_evidence\<lparr>pe_events := timeline db (lit ''r1'')\<rparr>"
  obtain f where f: "evaluate_policy id (RequiresConfirmation (lit ''pay'') 60) ?ev = Inr f" by simp
  have "fi_status f = Cs_Passed \<and> (\<forall>e\<in>set (timeline (sv_db (armed_service db)) (lit ''r1'')).
      ev_event_type e = Ev_ToolInvocationCompleted \<longrightarrow> ev_tool_name e = Some (lit ''pay'') \<longrightarrow>
      prior_approval (timeline (sv_db (armed_service db)) (lit ''r1'')) e)"
    by (rule consent_by_construction[OF d(1) _ _ _ _ f, of "lit ''w1''" _ ?run paying_contract])
      (use d in \<open>simp_all add: db paying_contract_def\<close>)
  then show ?thesis using f d(2) by blast
qed

text \<open>
  C3. Dispatch. No correlation of a run is handed to the target twice, whatever clients were lost or
  resumed in between; each one handed over is on the timeline, and a protected one only with its
  approval.
\<close>

theorem handed_over_once:
  assumes "service_reach s" "run_exists (sv_db s) r"
  shows "distinct (map fst (sent_of s r)) \<and>
    (\<forall>(c, t)\<in>set (sent_of s r). c \<in> correlations (trace_of (sv_db s) r) \<and>
       (protected_by (sv_db s) r t \<longrightarrow> Approved t c \<in> set (trace_of (sv_db s) r)))"
proof -
  have "journey_reach (protected_by (sv_db s) r) (journey_of s r)"
    using reachable_runs[OF assms(1)] assms(2) by (simp add: runs_ok_def)
  then have "sent_inv (protected_by (sv_db s) r) (journey_of s r)" by (rule sent_reachable)
  then show ?thesis by (force simp: sent_inv_def)
qed

lemma handed_over_once_witness:
  "\<exists>s::service. sent_of s (lit ''r1'') = [(lit ''v1'', lit ''look'')] \<and> lit ''v1'' \<in> correlations (trace_of (sv_db s) (lit ''r1''))"
proof -
  obtain s0 s where s: "service_reach s0" "service_runs s0 s" "run_exists (sv_db s) (lit ''r1'')"
    "sent_of s (lit ''r1'') = [(lit ''v1'', lit ''look'')]" using judged_service by blast
  from handed_over_once[OF service_runs_reach[OF s(2,1)] s(3)] show ?thesis using s(4) by auto
qed

text \<open>
  C4. Timelines only grow. As a reachable service runs on, the events of a run that stays are the
  events it had followed by new ones, numbered 1, 2, 3 and so on without a gap.
\<close>

theorem timelines_only_grow:
  assumes "service_reach s" "service_runs s t" "run_exists (sv_db s) r" "run_exists (sv_db t) r"
  shows "prefix (events_of (sv_db s) r) (events_of (sv_db t) r) \<and>
    map ev_sequence_number (timeline (sv_db t) r) = [1..<Suc (length (events_of (sv_db t) r))]"
proof
  show "prefix (events_of (sv_db s) r) (events_of (sv_db t) r)"
    by (rule runs_keep[OF assms(2,1,3,4), where P = "\<lambda>u. prefix (events_of (sv_db s) r) (events_of (sv_db u) r)"])
      (auto simp: keeps_def intro: prefix_order.trans)
  have c: "consecutive (events_of (sv_db t) r)"
    using reachable_numbered[OF service_runs_reach[OF assms(2,1)]] .
  then show "map ev_sequence_number (timeline (sv_db t) r) = [1..<Suc (length (events_of (sv_db t) r))]"
    unfolding timeline_events[OF c] by (simp add: consecutive_def run_event_of_def o_def del: upt_Suc)
qed

lemma timelines_only_grow_witness:
  "\<exists>s::service. trace_of (sv_db s) (lit ''r1'') \<noteq> [] \<and>
     map ev_sequence_number (timeline (sv_db s) (lit ''r1'')) = [1..<Suc (length (events_of (sv_db s) (lit ''r1'')))]"
proof -
  obtain s0 s where s: "service_reach s0" "service_runs s0 s" "run_exists (sv_db s0) (lit ''r1'')"
    "run_exists (sv_db s) (lit ''r1'')" "trace_of (sv_db s) (lit ''r1'') \<noteq> []" using judged_service by auto
  from timelines_only_grow[OF s(1-4)] show ?thesis using s(5) by blast
qed

text \<open>
  C5. One journey at a time. However many clients arm, a workspace of a reachable service never has
  two runs that have not ended.
\<close>

theorem one_unfinished_run:
  assumes "service_reach s"
  shows "length (active_runs (sv_db s) ws) \<le> 1"
  using sole_runs_reachable[OF assms] by (simp add: sole_runs_def)

lemma one_unfinished_run_witness:
  "\<exists>db. active_runs db (lit ''w1'') = [new_run 0 (lit ''r1'') (lit ''w1'') paying_selection False None]"
proof -
  let ?run = "new_run 0 (lit ''r1'') (lit ''w1'') paying_selection False None"
  obtain db where d: "service_reach (armed_service db)" "find_run db (lit ''w1'') (lit ''r1'') = Some ?run"
    using armed_service by blast
  have "?run \<in> set (active_runs db (lit ''w1''))"
    using find_run_Some[OF d(2)] by (simp add: active_runs_def unfinished_def is_terminal_def new_run_def)
  moreover have "length (active_runs db (lit ''w1'')) \<le> 1"
    using one_unfinished_run[OF d(1), of "lit ''w1''"] by (simp add: armed_service_def)
  ultimately have "active_runs db (lit ''w1'') = [?run]" by (cases "active_runs db (lit ''w1'')") auto
  then show ?thesis by blast
qed

text \<open>
  C6. Waiting means asking. A run of a reachable service awaits confirmation exactly when it has an
  open request, it never has two, and an open or approved request is for a call that was started
  and has not ended.
\<close>

theorem waiting_means_asking:
  assumes "service_reach s" "run_exists (sv_db s) r"
  shows "(status_of (sv_db s) r = Some Run_AwaitingConfirmation \<longleftrightarrow>
      length (filter (\<lambda>q. rq_status q = Cf_Pending) (requests_of (sv_db s) r)) = 1) \<and>
    length (filter (\<lambda>q. rq_status q = Cf_Pending) (requests_of (sv_db s) r)) \<le> 1 \<and>
    (\<forall>q\<in>set (requests_of (sv_db s) r). rq_status q \<in> {Cf_Pending, Cf_Approved} \<longrightarrow>
       Started (rq_tool q) (rq_corr q) \<in> set (trace_of (sv_db s) r) \<and> rq_corr q \<notin> ended (trace_of (sv_db s) r))"
proof -
  note i = reachable_journey[OF assms]
  obtain st where st: "status_of (sv_db s) r = Some st" using status_exists[OF assms(2)] by blast
  let ?open = "filter (\<lambda>q. rq_status q = Cf_Pending) (requests_of (sv_db s) r)"
  have one: "length ?open \<le> 1" using journey_invD(10)[OF i] by simp
  have "st = Run_AwaitingConfirmation \<longleftrightarrow> length ?open \<noteq> 0"
    using journey_invD(9)[OF i] journey_status[OF st] by (simp add: ex_length_filter)
  then have "st = Run_AwaitingConfirmation \<longleftrightarrow> length ?open = 1" using one by linarith
  moreover have "Started (rq_tool q) (rq_corr q) \<in> set (trace_of (sv_db s) r) \<and> rq_corr q \<notin> ended (trace_of (sv_db s) r)"
    if "q \<in> set (requests_of (sv_db s) r)" "rq_status q \<in> {Cf_Pending, Cf_Approved}" for q
    using journey_invD(1)[OF i, of q] that by (auto simp: request_ok_def)
  ultimately show ?thesis using one st by auto
qed

lemma waiting_means_asking_witness:
  "\<exists>db. run_exists db (lit ''r1'') \<and>
     filter (\<lambda>q. rq_status q = Cf_Pending) (requests_of db (lit ''r1'')) = []"
proof -
  let ?run = "new_run 0 (lit ''r1'') (lit ''w1'') paying_selection False None"
  obtain db where d: "service_reach (armed_service db)" "run_exists db (lit ''r1'')"
    "find_run db (lit ''w1'') (lit ''r1'') = Some ?run" using armed_service by blast
  have db: "sv_db (armed_service db) = db" by (simp add: armed_service_def)
  have "ids_ok db" using base_invD(12)[OF reachable_base[OF d(1)]] by (simp add: db)
  then have "status_of db (lit ''r1'') = Some Run_Armed" using find_run_status[OF _ d(3)] by (simp add: new_run_def)
  then show ?thesis using waiting_means_asking[OF d(1), of "lit ''r1''"] d(2) by (auto simp: db le_Suc_eq)
qed

text \<open>
  C7. A verdict judges the whole timeline. The events a verification works on are the beginning of
  its run's timeline, everything added since is no tool event and no approval, every started call
  has ended in them, and no call is left at the target.
\<close>

theorem verdict_judges_whole_timeline:
  assumes "service_reach s" "sv_clients s k = Some (Judging ws rid jd)" "run_exists (sv_db s) rid"
  shows "\<exists>later. timeline (sv_db s) rid = jd_events jd @ later \<and>
    (\<forall>e\<in>set later. ev_event_type e \<notin> set terminal_invocation_events \<union> {Ev_ToolInvocationStarted, Ev_ConfirmationApproved}) \<and>
    begun (trace_of (sv_db s) rid) \<subseteq> ended (trace_of (sv_db s) rid) \<and> held phase_work (sv_clients s) rid = {}"
proof -
  have j: "judges s rid jd" using judging_reachable[OF assms] .
  then obtain es rest where e: "events_of (sv_db s) rid = es @ rest" "jd_events jd = map run_event_of es"
    "\<forall>e\<in>set rest. fact_of e = None" by (auto simp: judges_def)
  have q: "quiet (journey_of s rid)" using j by (simp add: judges_def concluded_def)
  show ?thesis
  proof (intro exI conjI ballI)
    show "timeline (sv_db s) rid = jd_events jd @ map run_event_of rest"
      using timeline_events[OF reachable_numbered[OF assms(1)]] e by simp
    show "begun (trace_of (sv_db s) rid) \<subseteq> ended (trace_of (sv_db s) rid)" using q by (simp add: quiet_def)
    show "held phase_work (sv_clients s) rid = {}"
      using quiet_no_working[OF reachable_journey[OF assms(1,3)] q] by simp
    fix e assume "e \<in> set (map run_event_of rest)"
    then obtain x where "x \<in> set rest" "e = run_event_of x" by auto
    then have x: "fact_of x = None" "ev_event_type e = ev_event_type x" using e(3) by (simp_all add: run_event_of_def)
    have "fact_of x \<noteq> None"
      if "ev_event_type x \<in> set terminal_invocation_events \<union> {Ev_ToolInvocationStarted, Ev_ConfirmationApproved}"
      using that by (auto simp: fact_of_def terminal_invocation_events_def)
    then show "ev_event_type e \<notin> set terminal_invocation_events \<union> {Ev_ToolInvocationStarted, Ev_ConfirmationApproved}"
      unfolding x(2) using x(1) by blast
  qed
qed

lemma verdict_judges_whole_timeline_witness:
  "\<exists>(s::service) (jd::judging) later. timeline (sv_db s) (lit ''r1'') = jd_events jd @ later \<and>
     Started (lit ''look'') (lit ''v1'') \<in> set (trace_of (sv_db s) (lit ''r1''))"
proof -
  obtain s0 s jd where s: "service_reach s0" "service_runs s0 s" "run_exists (sv_db s) (lit ''r1'')"
    "sv_clients s 1 = Some (Judging (lit ''w1'') (lit ''r1'') jd)"
    "trace_of (sv_db s) (lit ''r1'') = [Started (lit ''look'') (lit ''v1''), Aborted (lit ''look'') (lit ''v1'')]"
    using judged_service by blast
  obtain later where "timeline (sv_db s) (lit ''r1'') = jd_events jd @ later"
    using verdict_judges_whole_timeline[OF service_runs_reach[OF s(2,1)] s(4,3)] by blast
  moreover have "Started (lit ''look'') (lit ''v1'') \<in> set (trace_of (sv_db s) (lit ''r1''))" by (simp add: s(5))
  ultimately show ?thesis by blast
qed


definition asked :: journey where
  "asked = armed_journey\<lparr>jn_status := Run_AwaitingConfirmation, jn_trace := [Started (lit ''pay'') (lit ''v1'')],
     jn_requests := [\<lparr>rq_id = lit ''c1'', rq_corr = lit ''v1'', rq_tool = lit ''pay'', rq_status = Cf_Pending\<rparr>]\<rparr>"

definition approved :: journey where
  "approved = asked\<lparr>jn_status := Run_Running, jn_trace := [Started (lit ''pay'') (lit ''v1''), Approved (lit ''pay'') (lit ''v1'')],
     jn_requests := [\<lparr>rq_id = lit ''c1'', rq_corr = lit ''v1'', rq_tool = lit ''pay'', rq_status = Cf_Approved\<rparr>]\<rparr>"

lemma approved_reach: "journey_reach (\<lambda>_. True) approved"
proof -
  have "journey_step (\<lambda>_. True) armed_journey asked"
    using journey_step.ask[of armed_journey "\<lambda>_. True" "lit ''pay''" "lit ''v1''" "lit ''c1''"]
    by (simp add: asked_def armed_journey_def correlations_def)
  moreover have "journey_step (\<lambda>_. True) asked approved"
    using journey_step.approve[of "hd (jn_requests asked)" asked "\<lambda>_. True"]
    by (simp add: asked_def approved_def set_request_def released_def)
  ultimately show ?thesis by (meson journey_reach.intros)
qed


text \<open>
  C9. A reset is always possible. In every reachable service the reset of any workspace, with or
  without purge, commits; afterwards the workspace has no unfinished run, and every run of another
  workspace is still there with the same status, tool facts and requests.
\<close>

theorem reset_always_possible:
  assumes "service_reach s"
  shows "\<exists>db'. reset_workspace now ws purge (sv_db s) = Inr db' \<and> active_runs db' ws = [] \<and>
    (\<forall>r. run_exists (sv_db s) r \<longrightarrow> \<not> owned (sv_db s) ws r \<longrightarrow> run_exists db' r \<and> view db' r = view (sv_db s) r)"
proof -
  have b: "keyed (sv_db s)" "homed (sv_db s)" "tied (sv_db s)" using base_invD(6,9,13)[OF reachable_base[OF assms]] .
  obtain db2 where "reset_kept now ws (sv_db s) = Inr db2" using reset_kept_ok[OF b(3)] by blast
  then obtain db' where d: "reset_workspace now ws purge (sv_db s) = Inr db'" by (auto simp: reset_workspace_parts)
  show ?thesis using d reset_ends_runs[OF b(1,2) d] reset_leaves_others[OF b(1,2) d] by blast
qed

lemma reset_always_possible_witness:
  "\<exists>(s::service) db'. run_exists (sv_db s) (lit ''r1'') \<and> reset_workspace 1 (lit ''w1'') True (sv_db s) = Inr db' \<and>
     active_runs db' (lit ''w1'') = []"
proof -
  obtain s0 s where s: "service_reach s0" "service_runs s0 s" "run_exists (sv_db s) (lit ''r1'')"
    using judged_service by blast
  from reset_always_possible[OF service_runs_reach[OF s(2,1)]] show ?thesis using s(3) by blast
qed

end
