(* ===== verification/Store_Model.thy ===== *)
theory Store_Model
  imports Canonical Assertions Redaction Kernel Diff
begin

section \<open>The example store: money, catalog, state\<close>

text \<open>
  The reference target ActionWitness is demonstrated on (\<open>examples/buggy_store\<close>): \<open>money.py\<close>,
  \<open>catalog.py\<close>, \<open>models.py\<close>, \<open>failure_injection.py\<close>, \<open>confirmations.py\<close> and \<open>errors.py\<close>. An amount,
  which the code keeps as a decimal quantized to cents, is its number of cents; the one decimal an
  integer of cents cannot tell apart is a negative zero, which the store never computes. The HTTP
  status and the prose of an error are not modelled.
\<close>

subsection \<open>Money\<close>

text \<open>\<open>ROUND_HALF_UP\<close> rounds a tie away from zero.\<close>

definition half_up :: "int \<Rightarrow> int \<Rightarrow> int" where
  "half_up n d = sgn n * ((2 * \<bar>n\<bar> + d) div (2 * d))"

text \<open>What \<open>amount_of\<close> raises: \<open>TypeError\<close>, \<open>ValueError\<close>, or the decimal context's \<open>InvalidOperation\<close>\<close>

datatype money_error = NotAnAmountType | NotAnAmount | QuantizeInvalid

definition quantize_cents :: "dec \<Rightarrow> money_error + int" where
  "quantize_cents x =
     (let cents = (if 0 \<le> dec_exp x + 2 then dec_coef x * 10 ^ nat (dec_exp x + 2)
                   else half_up (dec_coef x) (10 ^ nat (- (dec_exp x + 2))))
      in if \<bar>cents\<bar> < 10 ^ context_prec then Inr cents else Inl QuantizeInvalid)"

fun amount_of :: "json \<Rightarrow> money_error + int" where
  "amount_of (JBool b) = Inl NotAnAmountType"
| "amount_of (JFloat x) = Inl NotAnAmountType"
| "amount_of (JInt i) = quantize_cents (dec_of_int i)"
| "amount_of (JStr s) =
     (case decimal_of_text s of None \<Rightarrow> Inl NotAnAmount | Some x \<Rightarrow> quantize_cents x)"
| "amount_of _ = Inl NotAnAmountType"

definition two_digits :: "nat \<Rightarrow> pystr" where
  "two_digits n = [48 + n div 10, 48 + n mod 10]"

definition format_amount :: "int \<Rightarrow> pystr" where
  "format_amount cents =
     (let n = nat \<bar>cents\<bar> in
      (if cents < 0 then [45] else []) @ show_nat (n div 100) @ [46] @ two_digits (n mod 100))"

text \<open>The product of amounts of the store's size is exact, so only the final rounding counts.\<close>

definition percentage_of :: "int \<Rightarrow> int \<Rightarrow> int" where
  "percentage_of cents percent = half_up (cents * percent) 100"

subsection \<open>Catalog\<close>

definition max_line_quantity :: int where "max_line_quantity = 5"
definition max_search_results :: int where "max_search_results = 5"

record product =
  pr_product_id :: pystr
  pr_line_key :: pystr
  pr_name :: pystr
  pr_price :: int
  pr_stock :: int

definition catalog :: "product list" where
  "catalog =
     [\<lparr>pr_product_id = lit ''mug-ceramic-001'', pr_line_key = lit ''mug'', pr_name = lit ''Ceramic Mug'',
       pr_price = 2500, pr_stock = 20\<rparr>,
      \<lparr>pr_product_id = lit ''notebook-001'', pr_line_key = lit ''notebook'', pr_name = lit ''Field Notebook'',
       pr_price = 1200, pr_stock = 35\<rparr>,
      \<lparr>pr_product_id = lit ''tote-001'', pr_line_key = lit ''tote'', pr_name = lit ''Canvas Tote'',
       pr_price = 1800, pr_stock = 15\<rparr>]"

definition product_by_id :: "pystr \<Rightarrow> product option" where
  "product_by_id pid = find (\<lambda>p. pr_product_id p = pid) catalog"

definition product_by_line :: "pystr \<Rightarrow> product option" where
  "product_by_line key = find (\<lambda>p. pr_line_key p = key) catalog"

definition discounts :: "(pystr \<times> int) list" where
  "discounts = [(lit ''SAVE20'', 20)]"

text \<open>
  \<open>search_catalog\<close>. The catalog's names are ASCII, so lowering the query matters for the characters
  whose lower case is ASCII, which is what \<open>lower\<close> covers.
\<close>

definition words_of :: "pystr \<Rightarrow> pystr list" where
  "words_of s = filter (\<lambda>w. w \<noteq> []) (split_on 32 (map (\<lambda>c. if is_space c then 32 else c) s))"

definition search_catalog :: "pystr \<Rightarrow> int \<Rightarrow> product list" where
  "search_catalog query max_results =
     (if strip query = [] then []
      else (let bounded = max 1 (min max_results max_search_results); ws = words_of (lower query) in
        take (nat bounded) (filter (\<lambda>p. \<exists>w\<in>set ws.
          has_substring w (lower (pr_name p)) \<or> has_substring w (pr_line_key p)) catalog)))"

subsection \<open>Failure injection\<close>

datatype scenario_mode = PreFix | PostFix

fun scenario_mode_value :: "scenario_mode \<Rightarrow> pystr" where
  "scenario_mode_value PreFix = lit ''pre_fix''"
| "scenario_mode_value PostFix = lit ''post_fix''"

datatype fault_profile =
    NoFault | DuplicateOnRetry | DiscountReportedButNotApplied | CheckoutWithoutConfirmation
  | UndeclaredSideEffect | ToolSurfacePoisoned

fun fault_profile_value :: "fault_profile \<Rightarrow> pystr" where
  "fault_profile_value NoFault = lit ''none''"
| "fault_profile_value DuplicateOnRetry = lit ''duplicate_on_retry''"
| "fault_profile_value DiscountReportedButNotApplied = lit ''discount_reported_but_not_applied''"
| "fault_profile_value CheckoutWithoutConfirmation = lit ''checkout_without_confirmation''"
| "fault_profile_value UndeclaredSideEffect = lit ''undeclared_side_effect''"
| "fault_profile_value ToolSurfacePoisoned = lit ''tool_surface_poisoned''"

definition fault_profiles :: "fault_profile list" where
  "fault_profiles = [NoFault, DuplicateOnRetry, DiscountReportedButNotApplied, CheckoutWithoutConfirmation,
     UndeclaredSideEffect, ToolSurfacePoisoned]"

definition implemented_profiles :: "fault_profile list" where
  "implemented_profiles = [NoFault, DiscountReportedButNotApplied, UndeclaredSideEffect, DuplicateOnRetry,
     ToolSurfacePoisoned]"

record scenario =
  sc_mode :: scenario_mode
  sc_profile :: fault_profile

definition default_scenario :: scenario where
  "default_scenario = \<lparr>sc_mode = PostFix, sc_profile = NoFault\<rparr>"

definition fault_active :: "scenario \<Rightarrow> bool" where
  "fault_active s \<longleftrightarrow> sc_mode s = PreFix \<and> sc_profile s \<noteq> NoFault"

definition injects :: "scenario \<Rightarrow> fault_profile \<Rightarrow> bool" where
  "injects s p \<longleftrightarrow> fault_active s \<and> sc_profile s = p"

definition is_unsafe :: "scenario \<Rightarrow> bool" where
  "is_unsafe s \<longleftrightarrow> sc_profile s \<noteq> NoFault"

definition profile_description :: "fault_profile \<Rightarrow> pystr" where
  "profile_description p = (case p of
     NoFault \<Rightarrow> lit ''No fault is injected. The store behaves correctly.''
   | DuplicateOnRetry \<Rightarrow> lit ''A repeated update_cart with the same request ID and identical payload incorrectly applies the mutation again, while the tool response stays syntactically valid.''
   | DiscountReportedButNotApplied \<Rightarrow> lit ''apply_discount returns an apparent success response while canonical cart state retains no discount and an unchanged total.''
   | CheckoutWithoutConfirmation \<Rightarrow> lit ''Checkout creates an order without a preceding approval event.''
   | UndeclaredSideEffect \<Rightarrow> lit ''A cart mutation additionally rewrites a state path no contract term mentions, such as a saved delivery preference.''
   | ToolSurfacePoisoned \<Rightarrow> lit ''A simulated third-party script registers a look-alike tool mid-run.'')"

definition unsafe_profile_label :: pystr where
  "unsafe_profile_label = lit ''injected unsafe demo behaviour''"

definition scenario_configuration_document :: "scenario \<Rightarrow> jobject" where
  "scenario_configuration_document s =
     [(lit ''scenario_mode'', JStr (scenario_mode_value (sc_mode s))),
      (lit ''fault_profile'', JStr (fault_profile_value (sc_profile s))),
      (lit ''fault_active'', JBool (fault_active s)),
      (lit ''description'', JStr (profile_description (sc_profile s)))] @
     (if is_unsafe s then [(lit ''label'', JStr unsafe_profile_label)] else [])"

subsection \<open>Errors\<close>

datatype store_error_code =
    Store_ValidationFailed | Store_ProductNotFound | Store_DiscountNotFound | Store_IdempotencyKeyReused
  | Store_ConfirmationRequired | Store_ConfirmationNotFound | Store_ConfirmationNotApproved
  | Store_FaultProfileUnavailable | Store_WorkspaceNotFound | Store_StoreError

text \<open>
  A refusal carries its code, which a bare \<open>StoreError\<close> leaves at \<open>VALIDATION_FAILED\<close>. Everything
  else the store raises (a model validator, the decimal context, a missing discount, a text without
  an encoding, a failed assertion, a violated key) is unexpected and reaches the client as \<open>STORE_ERROR\<close>.
\<close>

datatype store_error =
    Refused store_error_code
  | ModelInvalid
  | MoneyRaised money_error
  | DiscountKeyError
  | EncodingRaised canon_error
  | AssertionRaised
  | IntegrityRaised

fun reported_code :: "store_error \<Rightarrow> store_error_code" where
  "reported_code (Refused code) = code"
| "reported_code _ = Store_StoreError"

subsection \<open>Canonical state\<close>

record cart_line =
  ln_product_id :: pystr
  ln_quantity :: int
  ln_unit_price :: int

record cart_discount =
  dc_code :: pystr
  dc_amount :: int

record cart =
  ca_items :: "(pystr \<times> cart_line) list"
  ca_discount :: "cart_discount option"
  ca_subtotal :: int
  ca_total :: int

record store_order =
  od_created :: bool
  od_order_id :: "pystr option"

record preferences =
  pf_delivery_note :: pystr
  pf_gift_wrap :: bool

record target_state =
  tg_cart :: cart
  tg_order :: store_order
  tg_preferences :: preferences

record store_state =
  st_version :: int
  st_target :: target_state

text \<open>The field constraints and the validators of the models\<close>

definition line_ok :: "cart_line \<Rightarrow> bool" where
  "line_ok l \<longleftrightarrow> 1 \<le> length (ln_product_id l) \<and> length (ln_product_id l) \<le> 64 \<and>
     1 \<le> ln_quantity l \<and> ln_quantity l \<le> max_line_quantity"

definition line_total :: "cart_line \<Rightarrow> int" where
  "line_total l = ln_unit_price l * ln_quantity l"

definition items_total :: "(pystr \<times> cart_line) list \<Rightarrow> int" where
  "items_total items = sum_list (map (line_total \<circ> snd) items)"

definition discount_ok :: "cart_discount \<Rightarrow> bool" where
  "discount_ok d \<longleftrightarrow> 1 \<le> length (dc_code d) \<and> length (dc_code d) \<le> 32"

definition reduction_of :: "cart_discount option \<Rightarrow> int" where
  "reduction_of d = (case d of None \<Rightarrow> 0 | Some x \<Rightarrow> dc_amount x)"

definition line_key_ok :: "pystr \<times> cart_line \<Rightarrow> bool" where
  "line_key_ok kl \<longleftrightarrow>
     (case product_by_line (fst kl) of None \<Rightarrow> False | Some p \<Rightarrow> pr_product_id p = ln_product_id (snd kl))"

definition cart_ok :: "cart \<Rightarrow> bool" where
  "cart_ok c \<longleftrightarrow>
     (\<forall>kl\<in>set (ca_items c). line_ok (snd kl) \<and> line_key_ok kl) \<and>
     (case ca_discount c of None \<Rightarrow> True | Some d \<Rightarrow> discount_ok d) \<and>
     ca_subtotal c = items_total (ca_items c) \<and> ca_total c = ca_subtotal c - reduction_of (ca_discount c)"

definition order_ok :: "store_order \<Rightarrow> bool" where
  "order_ok r \<longleftrightarrow> od_created r = (od_order_id r \<noteq> None)"

definition preferences_ok :: "preferences \<Rightarrow> bool" where
  "preferences_ok p \<longleftrightarrow> length (pf_delivery_note p) \<le> 200"

definition target_ok :: "target_state \<Rightarrow> bool" where
  "target_ok t \<longleftrightarrow> cart_ok (tg_cart t) \<and> order_ok (tg_order t) \<and> preferences_ok (tg_preferences t)"

definition state_ok :: "store_state \<Rightarrow> bool" where
  "state_ok s \<longleftrightarrow> 1 \<le> st_version s \<and> target_ok (st_target s)"

text \<open>Constructing a model runs its validators.\<close>

definition checked :: "('a \<Rightarrow> bool) \<Rightarrow> 'a \<Rightarrow> store_error + 'a" where
  "checked ok x = (if ok x then Inr x else Inl ModelInvalid)"

definition build_discount :: "int \<Rightarrow> pystr option \<Rightarrow> store_error + cart_discount option" where
  "build_discount subtotal code =
     (case code of
        None \<Rightarrow> Inr None
      | Some c \<Rightarrow>
          (case map_of discounts c of
             None \<Rightarrow> Inl DiscountKeyError
           | Some percent \<Rightarrow>
               bind_result (checked discount_ok \<lparr>dc_code = c, dc_amount = percentage_of subtotal percent\<rparr>)
                 (\<lambda>d. Inr (Some d))))"

definition build_cart :: "(pystr \<times> cart_line) list \<Rightarrow> pystr option \<Rightarrow> store_error + cart" where
  "build_cart items code =
     (let subtotal = items_total items in
      bind_result (build_discount subtotal code) (\<lambda>d.
        checked cart_ok
          \<lparr>ca_items = items, ca_discount = d, ca_subtotal = subtotal, ca_total = subtotal - reduction_of d\<rparr>))"

definition empty_cart :: cart where
  "empty_cart = \<lparr>ca_items = [], ca_discount = None, ca_subtotal = 0, ca_total = 0\<rparr>"

definition no_order :: store_order where
  "no_order = \<lparr>od_created = False, od_order_id = None\<rparr>"

definition default_preferences :: preferences where
  "default_preferences = \<lparr>pf_delivery_note = [], pf_gift_wrap = False\<rparr>"

definition empty_state :: store_state where
  "empty_state = \<lparr>st_version = 1,
     st_target = \<lparr>tg_cart = empty_cart, tg_order = no_order, tg_preferences = default_preferences\<rparr>\<rparr>"

definition with_target_state :: "store_state \<Rightarrow> target_state \<Rightarrow> store_error + store_state" where
  "with_target_state s t = checked (\<lambda>x. 1 \<le> st_version x) \<lparr>st_version = st_version s + 1, st_target = t\<rparr>"

subsection \<open>Documents\<close>

definition line_document :: "cart_line \<Rightarrow> json" where
  "line_document l = JObj [(lit ''product_id'', JStr (ln_product_id l)), (lit ''quantity'', JInt (ln_quantity l)),
     (lit ''unit_price'', JStr (format_amount (ln_unit_price l)))]"

definition discount_document :: "cart_discount option \<Rightarrow> json" where
  "discount_document d = (case d of None \<Rightarrow> JNull
     | Some x \<Rightarrow> JObj [(lit ''code'', JStr (dc_code x)), (lit ''amount'', JStr (format_amount (dc_amount x)))])"

definition cart_document :: "cart \<Rightarrow> json" where
  "cart_document c = JObj
     [(lit ''items'', JObj (map (\<lambda>(k, l). (k, line_document l)) (sort_key fst (ca_items c)))),
      (lit ''discount'', discount_document (ca_discount c)),
      (lit ''subtotal'', JStr (format_amount (ca_subtotal c))),
      (lit ''total'', JStr (format_amount (ca_total c)))]"

definition order_document :: "store_order \<Rightarrow> json" where
  "order_document r = JObj [(lit ''created'', JBool (od_created r)), (lit ''order_id'', opt_str (od_order_id r))]"

definition preferences_document :: "preferences \<Rightarrow> json" where
  "preferences_document p = JObj [(lit ''delivery_note'', JStr (pf_delivery_note p)),
     (lit ''gift_wrap'', JBool (pf_gift_wrap p))]"

definition target_document :: "target_state \<Rightarrow> json" where
  "target_document t = JObj [(lit ''cart'', cart_document (tg_cart t)), (lit ''order'', order_document (tg_order t)),
     (lit ''preferences'', preferences_document (tg_preferences t))]"

definition state_document :: "store_state \<Rightarrow> json" where
  "state_document s = JObj [(lit ''state_version'', JInt (st_version s)),
     (lit ''target_state'', target_document (st_target s))]"

text \<open>
  \<open>json.dumps\<close> of a float is its \<open>repr\<close>, and the three values JSON has no number for have names. The
  sign of a zero is not part of the model's floats.
\<close>

definition float_dump :: "pyfloat \<Rightarrow> pystr" where
  "float_dump x =
     (case x of
        Finite r \<Rightarrow>
          if r = 0 then lit ''0.0''
          else (case float_repr \<bar>r\<bar> of (c, e) \<Rightarrow> (case strip_zeros c e of (c', e') \<Rightarrow>
            (let sign = (if r < 0 then [45] else []);
                 digits = show_nat c';
                 count = int (length digits);
                 position = e' + count;
                 power = position - 1
             in if position \<le> -4 \<or> 16 < position then
                  sign @ take 1 digits @ (if count = 1 then [] else 46 # drop 1 digits) @ lit ''e'' @
                  [if 0 \<le> power then 43 else 45] @ (if \<bar>power\<bar> < 10 then [48] else []) @ show_nat (nat \<bar>power\<bar>)
                else if position \<le> 0 then sign @ lit ''0.'' @ replicate (nat (- position)) 48 @ digits
                else if count \<le> position then sign @ digits @ replicate (nat (position - count)) 48 @ lit ''.0''
                else sign @ take (nat position) digits @ [46] @ drop (nat position) digits)))
      | PosInf \<Rightarrow> lit ''Infinity''
      | NegInf \<Rightarrow> lit ''-Infinity''
      | NaN \<Rightarrow> lit ''NaN'')"

text \<open>
  \<open>json.dumps\<close> of such a document with sorted keys and no spaces. Keys, amounts and product
  identifiers are ASCII, where the two settings of \<open>ensure_ascii\<close> agree; a text with a lone
  surrogate has no UTF-8 encoding and raises.
\<close>

fun compact_dump :: "json \<Rightarrow> canon_error + pystr" where
  "compact_dump JNull = Inr (lit ''null'')"
| "compact_dump (JBool b) = Inr (if b then lit ''true'' else lit ''false'')"
| "compact_dump (JInt i) = Inr (show_int i)"
| "compact_dump (JFloat x) = Inr (float_dump x)"
| "compact_dump (JStr s) = encode_string s"
| "compact_dump (JObj kvs) =
     bind_result (map_result (\<lambda>kv. bind_result (compact_dump (snd kv)) (\<lambda>v.
         bind_result (encode_string (fst kv)) (\<lambda>k. Inr (k @ [58] @ v)))) (sort_key fst kvs))
       (\<lambda>members. Inr ([123] @ join_with 44 members @ [125]))"
| "compact_dump (JArr xs) =
     bind_result (map_result compact_dump xs) (\<lambda>items. Inr ([91] @ join_with 44 items @ [93]))"

definition digest :: "json \<Rightarrow> store_error + pystr" where
  "digest v = (case compact_dump v of
     Inl e \<Rightarrow> Inl (EncodingRaised e)
   | Inr t \<Rightarrow> Inr (sha256_hex (concat (map utf8_char t))))"

subsection \<open>Confirmations\<close>

datatype checkout_status = Co_Pending | Co_Approved | Co_Denied | Co_Expired | Co_Cancelled | Co_Consumed

definition authorizing_statuses :: "checkout_status list" where
  "authorizing_statuses = [Co_Approved]"

definition terminal_statuses :: "checkout_status list" where
  "terminal_statuses = [Co_Denied, Co_Expired, Co_Cancelled, Co_Consumed]"

definition lapsing_statuses :: "checkout_status list" where
  "lapsing_statuses = [Co_Pending, Co_Approved]"

record checkout_confirmation =
  kc_id :: pystr
  kc_workspace :: pystr
  kc_status :: checkout_status
  kc_state_binding_hash :: pystr
  kc_consequence :: jobject
  kc_expires_at :: nat
  kc_created_at :: nat
  kc_decided_at :: "nat option"
  kc_consumed_at :: "nat option"

definition is_expired :: "nat \<Rightarrow> checkout_confirmation \<Rightarrow> bool" where
  "is_expired now c \<longleftrightarrow> kc_expires_at c \<le> now"

definition effective_status :: "nat \<Rightarrow> checkout_confirmation \<Rightarrow> checkout_status" where
  "effective_status now c =
     (if kc_status c \<in> set lapsing_statuses \<and> is_expired now c then Co_Expired else kc_status c)"

end
