(* ===== verification/Store.thy ===== *)
theory Store
  imports Store_Model "HOL-Library.AList"
begin

section \<open>The example store: tables and operations\<close>

text \<open>
  \<open>repository.py\<close> and \<open>service.py\<close> of the example store. The tables are maps from their primary keys.
  A row of \<open>buggy_store_state\<close> holds the state its document is read back as: the state that was
  written, its cart lines in the order of their keys, because the document sorts them. The order of
  the keys of a stored response is not modelled. An operation runs under the lock of its workspace
  and in one immediate transaction, so it is one step; what it raises rolls the transaction back and
  keeps what was committed before it (the created workspace, a reset).
\<close>

subsection \<open>Tables\<close>

record store_row =
  rw_state :: store_state
  rw_scenario :: scenario

record store_record =
  ir_request_hash :: pystr
  ir_response :: jobject
  ir_state_version_after :: int

record store_tables =
  tb_rows :: "pystr \<rightharpoonup> store_row"
  tb_records :: "pystr \<times> pystr \<times> pystr \<rightharpoonup> store_record"
  tb_confirmations :: "pystr \<rightharpoonup> checkout_confirmation"

definition empty_store_tables :: store_tables where
  "empty_store_tables = \<lparr>tb_rows = Map.empty, tb_records = Map.empty, tb_confirmations = Map.empty\<rparr>"

definition in_key_order :: "store_state \<Rightarrow> store_state" where
  "in_key_order s = s\<lparr>st_target := (st_target s)\<lparr>tg_cart := (tg_cart (st_target s))
     \<lparr>ca_items := sort_key fst (ca_items (tg_cart (st_target s)))\<rparr>\<rparr>\<rparr>"

definition in_transaction ::
    "store_tables \<Rightarrow> store_error + store_tables \<times> 'a \<Rightarrow> store_tables \<times> (store_error + 'a)" where
  "in_transaction T r = (case r of Inl e \<Rightarrow> (T, Inl e) | Inr (T', x) \<Rightarrow> (T', Inr x))"

definition read_state :: "store_tables \<Rightarrow> pystr \<Rightarrow> store_state option" where
  "read_state T ws = map_option rw_state (tb_rows T ws)"

definition ensure_workspace :: "store_tables \<Rightarrow> pystr \<Rightarrow> store_tables" where
  "ensure_workspace T ws =
     (case read_state T ws of
        Some s \<Rightarrow> T
      | None \<Rightarrow> T\<lparr>tb_rows := (tb_rows T)(ws \<mapsto> \<lparr>rw_state = empty_state, rw_scenario = default_scenario\<rparr>)\<rparr>)"

definition write_state :: "store_tables \<Rightarrow> pystr \<Rightarrow> store_state \<Rightarrow> store_tables" where
  "write_state T ws s =
     (case tb_rows T ws of
        None \<Rightarrow> T
      | Some r \<Rightarrow>
          if st_version (rw_state r) < st_version s
          then T\<lparr>tb_rows := (tb_rows T)(ws \<mapsto> r\<lparr>rw_state := in_key_order s\<rparr>)\<rparr> else T)"

definition request_hash :: "jobject \<Rightarrow> store_error + pystr" where
  "request_hash payload = digest (JObj payload)"

definition find_record :: "store_tables \<Rightarrow> pystr \<Rightarrow> pystr \<Rightarrow> pystr \<Rightarrow> store_record option" where
  "find_record T ws tool rid = tb_records T (ws, tool, rid)"

definition replay_or_claim ::
    "store_tables \<Rightarrow> pystr \<Rightarrow> pystr \<Rightarrow> pystr \<Rightarrow> jobject \<Rightarrow> store_error + store_record option" where
  "replay_or_claim T ws tool rid payload =
     (case find_record T ws tool rid of
        None \<Rightarrow> Inr None
      | Some r \<Rightarrow> bind_result (request_hash payload) (\<lambda>h.
          if ir_request_hash r \<noteq> h then Inl (Refused Store_IdempotencyKeyReused) else Inr (Some r)))"

definition record_result ::
    "store_tables \<Rightarrow> pystr \<Rightarrow> pystr \<Rightarrow> pystr \<Rightarrow> jobject \<Rightarrow> jobject \<Rightarrow> int \<Rightarrow> store_error + store_tables" where
  "record_result T ws tool rid payload response version =
     bind_result (request_hash payload) (\<lambda>h.
       if tb_records T (ws, tool, rid) \<noteq> None then Inl IntegrityRaised
       else Inr (T\<lparr>tb_records := (tb_records T)((ws, tool, rid) \<mapsto>
         \<lparr>ir_request_hash = h, ir_response = response, ir_state_version_after = version\<rparr>)\<rparr>))"

definition read_scenario :: "store_tables \<Rightarrow> pystr \<Rightarrow> scenario option" where
  "read_scenario T ws = map_option rw_scenario (tb_rows T ws)"

definition write_scenario :: "store_tables \<Rightarrow> pystr \<Rightarrow> scenario \<Rightarrow> store_tables" where
  "write_scenario T ws s =
     (case tb_rows T ws of
        None \<Rightarrow> T
      | Some r \<Rightarrow> T\<lparr>tb_rows := (tb_rows T)(ws \<mapsto> r\<lparr>rw_scenario := s\<rparr>)\<rparr>)"

definition insert_confirmation :: "store_tables \<Rightarrow> checkout_confirmation \<Rightarrow> store_error + store_tables" where
  "insert_confirmation T c =
     (if tb_confirmations T (kc_id c) \<noteq> None then Inl IntegrityRaised
      else Inr (T\<lparr>tb_confirmations := (tb_confirmations T)(kc_id c \<mapsto>
        c\<lparr>kc_decided_at := None, kc_consumed_at := None\<rparr>)\<rparr>))"

definition find_checkout_confirmation :: "store_tables \<Rightarrow> pystr \<Rightarrow> pystr \<Rightarrow> checkout_confirmation option" where
  "find_checkout_confirmation T ws cid =
     (case tb_confirmations T cid of
        None \<Rightarrow> None
      | Some c \<Rightarrow> if kc_workspace c = ws then Some c else None)"

definition set_confirmation_status ::
    "store_tables \<Rightarrow> pystr \<Rightarrow> pystr \<Rightarrow> checkout_status \<Rightarrow> checkout_status \<Rightarrow> bool \<Rightarrow> nat
     \<Rightarrow> store_tables \<times> bool" where
  "set_confirmation_status T ws cid status expected consumed now =
     (case find_checkout_confirmation T ws cid of
        None \<Rightarrow> (T, False)
      | Some c \<Rightarrow>
          if kc_status c \<noteq> expected then (T, False)
          else (T\<lparr>tb_confirmations := (tb_confirmations T)(cid \<mapsto> c\<lparr>kc_status := status,
                  kc_decided_at := Some (case kc_decided_at c of None \<Rightarrow> now | Some t \<Rightarrow> t),
                  kc_consumed_at := if consumed then Some now else None\<rparr>)\<rparr>, True))"

definition reset_store_workspace :: "store_tables \<Rightarrow> pystr \<Rightarrow> store_tables" where
  "reset_store_workspace T ws =
     \<lparr>tb_rows = (case tb_rows T ws of
         None \<Rightarrow> tb_rows T
       | Some r \<Rightarrow> (tb_rows T)(ws \<mapsto> r\<lparr>rw_state := empty_state\<rparr>)),
      tb_records = (\<lambda>k. if fst k = ws then None else tb_records T k),
      tb_confirmations = (\<lambda>k. case tb_confirmations T k of
         None \<Rightarrow> None | Some c \<Rightarrow> if kc_workspace c = ws then None else Some c)\<rparr>"

subsection \<open>Input checks\<close>

definition update_cart_tool :: pystr where "update_cart_tool = lit ''update_cart''"
definition checkout_tool :: pystr where "checkout_tool = lit ''proceed_to_checkout''"

definition min_expiry_seconds :: int where "min_expiry_seconds = 10"
definition max_expiry_seconds :: int where "max_expiry_seconds = 300"
definition min_request_id :: nat where "min_request_id = 8"
definition max_request_id :: nat where "max_request_id = 80"

definition undeclared_side_effect_note :: pystr where
  "undeclared_side_effect_note = lit ''leave with the neighbour''"

definition require_product :: "json \<Rightarrow> store_error + product" where
  "require_product v = (case v of
     JStr s \<Rightarrow> (case product_by_id s of None \<Rightarrow> Inl (Refused Store_ProductNotFound) | Some p \<Rightarrow> Inr p)
   | _ \<Rightarrow> Inl (Refused Store_ValidationFailed))"

definition validate_quantity :: "json \<Rightarrow> store_error + int" where
  "validate_quantity v = (case v of
     JInt q \<Rightarrow> if 0 \<le> q \<and> q \<le> max_line_quantity then Inr q else Inl (Refused Store_ValidationFailed)
   | _ \<Rightarrow> Inl (Refused Store_ValidationFailed))"

definition validate_request_id :: "json \<Rightarrow> store_error + pystr" where
  "validate_request_id v = (case v of
     JStr s \<Rightarrow> if min_request_id \<le> length s \<and> length s \<le> max_request_id then Inr s
               else Inl (Refused Store_ValidationFailed)
   | _ \<Rightarrow> Inl (Refused Store_ValidationFailed))"

definition validate_expiry :: "json \<Rightarrow> store_error + int" where
  "validate_expiry v = (case v of
     JInt n \<Rightarrow> if min_expiry_seconds \<le> n \<and> n \<le> max_expiry_seconds then Inr n
               else Inl (Refused Store_ValidationFailed)
   | _ \<Rightarrow> Inl (Refused Store_ValidationFailed))"

definition require_discount :: "json \<Rightarrow> store_error + pystr" where
  "require_discount v = (case v of
     JStr s \<Rightarrow> (case map_of discounts s of None \<Rightarrow> Inl (Refused Store_DiscountNotFound) | Some n \<Rightarrow> Inr s)
   | _ \<Rightarrow> Inl (Refused Store_ValidationFailed))"

definition require_mode :: "json \<Rightarrow> store_error + scenario_mode" where
  "require_mode v = (case v of
     JStr s \<Rightarrow> (case find (\<lambda>m. scenario_mode_value m = s) [PreFix, PostFix] of
        None \<Rightarrow> Inl (Refused Store_ValidationFailed) | Some m \<Rightarrow> Inr m)
   | _ \<Rightarrow> Inl (Refused Store_ValidationFailed))"

definition require_profile :: "json \<Rightarrow> store_error + fault_profile" where
  "require_profile v = (case v of
     JStr s \<Rightarrow> (case find (\<lambda>p. fault_profile_value p = s) fault_profiles of
        None \<Rightarrow> Inl (Refused Store_ValidationFailed)
      | Some p \<Rightarrow> if p \<in> set implemented_profiles then Inr p
                  else Inl (Refused Store_FaultProfileUnavailable))
   | _ \<Rightarrow> Inl (Refused Store_ValidationFailed))"

definition search :: "pystr \<Rightarrow> json \<Rightarrow> store_error + product list" where
  "search query v = (case v of
     JInt n \<Rightarrow> if 1 \<le> n \<and> n \<le> max_search_results then Inr (search_catalog query n)
               else Inl (Refused Store_ValidationFailed)
   | _ \<Rightarrow> Inl (Refused Store_ValidationFailed))"

definition require_confirmation ::
    "store_tables \<Rightarrow> pystr \<Rightarrow> json \<Rightarrow> store_error + checkout_confirmation" where
  "require_confirmation T ws v = (case v of
     JStr s \<Rightarrow>
       if s = [] then Inl (Refused Store_ValidationFailed)
       else (case find_checkout_confirmation T ws s of None \<Rightarrow> Inl (Refused Store_ValidationFailed) | Some c \<Rightarrow> Inr c)
   | _ \<Rightarrow> Inl (Refused Store_ValidationFailed))"

subsection \<open>Cart operations\<close>

record mutation_outcome =
  mo_response :: jobject
  mo_state :: store_state
  mo_replayed :: bool

definition cart_response :: "store_state \<Rightarrow> pystr \<Rightarrow> jobject" where
  "cart_response s status = [(lit ''status'', JStr status), (lit ''state_version'', JInt (st_version s)),
     (lit ''cart'', cart_document (tg_cart (st_target s)))]"

definition preferences_after :: "store_state \<Rightarrow> scenario \<Rightarrow> store_error + preferences" where
  "preferences_after current scenario =
     (if \<not> injects scenario UndeclaredSideEffect then Inr (tg_preferences (st_target current))
      else checked preferences_ok \<lparr>pf_delivery_note = undeclared_side_effect_note,
        pf_gift_wrap = pf_gift_wrap (tg_preferences (st_target current))\<rparr>)"

definition items_after ::
    "(pystr \<times> cart_line) list \<Rightarrow> product \<Rightarrow> int \<Rightarrow> bool \<Rightarrow> store_error + (pystr \<times> cart_line) list" where
  "items_after items p quantity duplicating =
     (if quantity = 0 then Inr (AList.delete (pr_line_key p) items)
      else
        let applied = (case map_of items (pr_line_key p) of
              None \<Rightarrow> quantity
            | Some l \<Rightarrow> if duplicating then min (ln_quantity l + quantity) max_line_quantity else quantity)
        in bind_result (checked line_ok \<lparr>ln_product_id = pr_product_id p, ln_quantity = applied,
             ln_unit_price = pr_price p\<rparr>) (\<lambda>l. Inr (AList.update (pr_line_key p) l items)))"

text \<open>\<open>None\<close> is the state it was given, the object itself: nothing is to be written.\<close>

definition apply_quantity ::
    "store_state \<Rightarrow> product \<Rightarrow> int \<Rightarrow> scenario \<Rightarrow> bool \<Rightarrow> store_error + store_state option" where
  "apply_quantity current p quantity scenario duplicating =
     bind_result (items_after (ca_items (tg_cart (st_target current))) p quantity duplicating) (\<lambda>items.
     bind_result (build_cart items (map_option dc_code (ca_discount (tg_cart (st_target current))))) (\<lambda>c.
     bind_result (preferences_after current scenario) (\<lambda>prefs.
       let rebuilt = \<lparr>tg_cart = c, tg_order = tg_order (st_target current), tg_preferences = prefs\<rparr> in
       if target_document rebuilt = target_document (st_target current) then Inr None
       else bind_result (with_target_state current rebuilt) (\<lambda>s. Inr (Some s)))))"

definition current_state :: "store_tables \<Rightarrow> pystr \<Rightarrow> store_error + store_state" where
  "current_state T ws = (case read_state T ws of None \<Rightarrow> Inl AssertionRaised | Some s \<Rightarrow> Inr s)"

definition current_scenario :: "store_tables \<Rightarrow> pystr \<Rightarrow> scenario" where
  "current_scenario T ws = (case read_scenario T ws of None \<Rightarrow> default_scenario | Some s \<Rightarrow> s)"

definition update_payload :: "product \<Rightarrow> int \<Rightarrow> jobject" where
  "update_payload p quantity = [(lit ''product_id'', JStr (pr_product_id p)), (lit ''quantity'', JInt quantity)]"

definition update_cart_transaction ::
    "store_tables \<Rightarrow> pystr \<Rightarrow> pystr \<Rightarrow> product \<Rightarrow> int \<Rightarrow> store_error + store_tables \<times> mutation_outcome" where
  "update_cart_transaction T ws rid p quantity =
     bind_result (replay_or_claim T ws update_cart_tool rid (update_payload p quantity)) (\<lambda>replayed.
     bind_result (current_state T ws) (\<lambda>current.
       let scenario = current_scenario T ws in
       case replayed of
         Some r \<Rightarrow>
           if \<not> injects scenario DuplicateOnRetry
           then Inr (T, \<lparr>mo_response = ir_response r, mo_state = current, mo_replayed = True\<rparr>)
           else bind_result (apply_quantity current p quantity scenario True) (\<lambda>changed.
             let next = (case changed of None \<Rightarrow> current | Some s \<Rightarrow> s);
                 T1 = (case changed of None \<Rightarrow> T | Some s \<Rightarrow> write_state T ws s)
             in Inr (T1, \<lparr>mo_response = cart_response next (lit ''success''), mo_state = next,
                  mo_replayed = False\<rparr>))
       | None \<Rightarrow>
           bind_result (apply_quantity current p quantity scenario False) (\<lambda>changed.
             let next = (case changed of None \<Rightarrow> current | Some s \<Rightarrow> s);
                 T1 = (case changed of None \<Rightarrow> T | Some s \<Rightarrow> write_state T ws s);
                 response = cart_response next (lit ''success'')
             in bind_result (record_result T1 ws update_cart_tool rid (update_payload p quantity) response
                  (st_version next)) (\<lambda>T2.
                Inr (T2, \<lparr>mo_response = response, mo_state = next, mo_replayed = False\<rparr>)))))"

definition update_cart ::
    "store_tables \<Rightarrow> pystr \<Rightarrow> json \<Rightarrow> json \<Rightarrow> json \<Rightarrow> store_tables \<times> (store_error + mutation_outcome)" where
  "update_cart T ws product_id quantity request_id =
     (case bind_result (validate_request_id request_id) (\<lambda>rid.
           bind_result (require_product product_id) (\<lambda>p.
           bind_result (validate_quantity quantity) (\<lambda>q. Inr (rid, p, q)))) of
        Inl e \<Rightarrow> (T, Inl e)
      | Inr (rid, p, q) \<Rightarrow>
          let T0 = ensure_workspace T ws in in_transaction T0 (update_cart_transaction T0 ws rid p q))"

definition apply_discount_transaction ::
    "store_tables \<Rightarrow> pystr \<Rightarrow> pystr \<Rightarrow> store_error + store_tables \<times> mutation_outcome" where
  "apply_discount_transaction T ws code =
     bind_result (current_state T ws) (\<lambda>current.
       let now_cart = tg_cart (st_target current) in
       if injects (current_scenario T ws) DiscountReportedButNotApplied then
         bind_result (build_cart (ca_items now_cart) (Some code)) (\<lambda>optimistic.
           Inr (T, \<lparr>mo_response = [(lit ''status'', JStr (lit ''success'')),
                (lit ''state_version'', JInt (st_version current)), (lit ''cart'', cart_document optimistic)],
              mo_state = current, mo_replayed = False\<rparr>))
       else if map_option dc_code (ca_discount now_cart) = Some code then
         Inr (T, \<lparr>mo_response = cart_response current (lit ''already_applied''), mo_state = current,
              mo_replayed = False\<rparr>)
       else
         bind_result (build_cart (ca_items now_cart) (Some code)) (\<lambda>c.
         bind_result (with_target_state current
             \<lparr>tg_cart = c, tg_order = tg_order (st_target current),
              tg_preferences = tg_preferences (st_target current)\<rparr>) (\<lambda>next.
           Inr (write_state T ws next, \<lparr>mo_response = cart_response next (lit ''success''), mo_state = next,
              mo_replayed = False\<rparr>))))"

definition apply_discount ::
    "store_tables \<Rightarrow> pystr \<Rightarrow> json \<Rightarrow> store_tables \<times> (store_error + mutation_outcome)" where
  "apply_discount T ws code =
     (case require_discount code of
        Inl e \<Rightarrow> (T, Inl e)
      | Inr c \<Rightarrow> let T0 = ensure_workspace T ws in in_transaction T0 (apply_discount_transaction T0 ws c))"

definition select_scenario ::
    "store_tables \<Rightarrow> pystr \<Rightarrow> json \<Rightarrow> json \<Rightarrow> store_tables \<times> (store_error + scenario)" where
  "select_scenario T ws mode profile =
     (case bind_result (require_mode mode) (\<lambda>m. bind_result (require_profile profile) (\<lambda>p.
           Inr \<lparr>sc_mode = m, sc_profile = p\<rparr>)) of
        Inl e \<Rightarrow> (T, Inl e)
      | Inr s \<Rightarrow> (write_scenario (reset_store_workspace (ensure_workspace T ws) ws) ws s, Inr s))"

subsection \<open>Confirmations and checkout\<close>

definition state_binding_hash :: "store_state \<Rightarrow> store_error + pystr" where
  "state_binding_hash s = digest (cart_document (tg_cart (st_target s)))"

definition new_confirmation ::
    "pystr \<Rightarrow> pystr \<Rightarrow> store_state \<Rightarrow> pystr \<Rightarrow> int \<Rightarrow> nat \<Rightarrow> checkout_confirmation" where
  "new_confirmation cid ws s h seconds now =
     \<lparr>kc_id = cid, kc_workspace = ws, kc_status = Co_Pending, kc_state_binding_hash = h,
      kc_consequence =
        [(lit ''action'', JStr checkout_tool), (lit ''state_version'', JInt (st_version s)),
         (lit ''cart_total'', JStr (format_amount (ca_total (tg_cart (st_target s))))),
         (lit ''item_count'', JInt (int (length (ca_items (tg_cart (st_target s))))))],
      kc_expires_at = now + nat seconds * micros_per_second, kc_created_at = now,
      kc_decided_at = None, kc_consumed_at = None\<rparr>"

definition request_confirmation ::
    "store_tables \<Rightarrow> pystr \<Rightarrow> json \<Rightarrow> nat \<Rightarrow> pystr \<Rightarrow> store_tables \<times> (store_error + checkout_confirmation)" where
  "request_confirmation T ws expires now cid =
     (case validate_expiry expires of
        Inl e \<Rightarrow> (T, Inl e)
      | Inr seconds \<Rightarrow>
          let T0 = ensure_workspace T ws in
          in_transaction T0
            (bind_result (current_state T0 ws) (\<lambda>s.
             bind_result (state_binding_hash s) (\<lambda>h.
               let c = new_confirmation cid ws s h seconds now in
               bind_result (insert_confirmation T0 c) (\<lambda>T1. Inr (T1, c))))))"

definition transition ::
    "store_tables \<Rightarrow> pystr \<Rightarrow> json \<Rightarrow> checkout_status \<Rightarrow> checkout_status \<Rightarrow> nat \<Rightarrow> nat
     \<Rightarrow> store_tables \<times> (store_error + checkout_confirmation)" where
  "transition T ws cid target allowed_from now stamp =
     in_transaction T
       (bind_result (require_confirmation T ws cid) (\<lambda>c.
          if effective_status now c \<noteq> allowed_from then Inl (Refused Store_ValidationFailed)
          else (case set_confirmation_status T ws (kc_id c) target allowed_from False stamp of
                  (T1, moved) \<Rightarrow>
                    if \<not> moved then Inl (Refused Store_ValidationFailed)
                    else bind_result (require_confirmation T1 ws cid) (\<lambda>c'. Inr (T1, c')))))"

definition decide_confirmation ::
    "store_tables \<Rightarrow> pystr \<Rightarrow> json \<Rightarrow> bool \<Rightarrow> nat \<Rightarrow> nat
     \<Rightarrow> store_tables \<times> (store_error + checkout_confirmation)" where
  "decide_confirmation T ws cid approved now stamp =
     transition T ws cid (if approved then Co_Approved else Co_Denied) Co_Pending now stamp"

definition cancel_confirmation ::
    "store_tables \<Rightarrow> pystr \<Rightarrow> json \<Rightarrow> nat \<Rightarrow> nat \<Rightarrow> store_tables \<times> (store_error + checkout_confirmation)" where
  "cancel_confirmation T ws cid now stamp = transition T ws cid Co_Cancelled Co_Pending now stamp"

definition require_authorization :: "checkout_confirmation \<Rightarrow> store_state \<Rightarrow> nat \<Rightarrow> store_error + unit" where
  "require_authorization c s now =
     (if effective_status now c \<notin> set authorizing_statuses then Inl (Refused Store_ConfirmationRequired)
      else bind_result (state_binding_hash s) (\<lambda>h.
        if kc_state_binding_hash c \<noteq> h then Inl (Refused Store_ConfirmationRequired) else Inr ()))"

definition checkout_response :: "store_state \<Rightarrow> jobject" where
  "checkout_response s = [(lit ''status'', JStr (lit ''success'')), (lit ''state_version'', JInt (st_version s)),
     (lit ''order_id'', opt_str (od_order_id (tg_order (st_target s)))),
     (lit ''cart'', cart_document (tg_cart (st_target s)))]"

definition checkout_payload :: "json \<Rightarrow> jobject" where
  "checkout_payload cid = [(lit ''confirmation_id'', cid)]"

definition checkout_transaction ::
    "store_tables \<Rightarrow> pystr \<Rightarrow> json \<Rightarrow> pystr \<Rightarrow> nat \<Rightarrow> nat \<Rightarrow> pystr
     \<Rightarrow> store_error + store_tables \<times> mutation_outcome" where
  "checkout_transaction T ws cid rid now stamp order_id =
     bind_result (replay_or_claim T ws checkout_tool rid (checkout_payload cid)) (\<lambda>replayed.
     bind_result (current_state T ws) (\<lambda>current.
       case replayed of
         Some r \<Rightarrow> Inr (T, \<lparr>mo_response = ir_response r, mo_state = current, mo_replayed = True\<rparr>)
       | None \<Rightarrow>
           bind_result (require_confirmation T ws cid) (\<lambda>c.
           bind_result (require_authorization c current now) (\<lambda>_.
             case set_confirmation_status T ws (kc_id c) Co_Consumed Co_Approved True stamp of
               (T1, consumed) \<Rightarrow>
                 if \<not> consumed then Inl (Refused Store_ConfirmationRequired)
                 else
                   bind_result (checked order_ok \<lparr>od_created = True, od_order_id = Some order_id\<rparr>) (\<lambda>ord.
                   bind_result (with_target_state current
                       \<lparr>tg_cart = tg_cart (st_target current), tg_order = ord,
                        tg_preferences = tg_preferences (st_target current)\<rparr>) (\<lambda>next.
                   bind_result (record_result (write_state T1 ws next) ws checkout_tool rid
                       (checkout_payload cid) (checkout_response next) (st_version next)) (\<lambda>T2.
                     Inr (T2, \<lparr>mo_response = checkout_response next, mo_state = next,
                       mo_replayed = False\<rparr>))))))))"

definition checkout ::
    "store_tables \<Rightarrow> pystr \<Rightarrow> json \<Rightarrow> json \<Rightarrow> nat \<Rightarrow> nat \<Rightarrow> pystr
     \<Rightarrow> store_tables \<times> (store_error + mutation_outcome)" where
  "checkout T ws cid request_id now stamp order_id =
     (case validate_request_id request_id of
        Inl e \<Rightarrow> (T, Inl e)
      | Inr rid \<Rightarrow>
          let T0 = ensure_workspace T ws in
          in_transaction T0 (checkout_transaction T0 ws cid rid now stamp order_id))"

subsection \<open>One call\<close>

text \<open>What the environment supplies to a call: the service's clock, the repository's, and a new identifier\<close>

record call_env =
  ce_now :: nat
  ce_stamp :: nat
  ce_fresh :: pystr

datatype store_call =
    CallReadState
  | CallUpdateCart json json json
  | CallApplyDiscount json
  | CallReadScenario
  | CallSelectScenario json json
  | CallRequestConfirmation json
  | CallDecide json bool
  | CallCancel json
  | CallReadConfirmation json
  | CallCheckout json json

datatype store_reply =
    ReplyState store_state
  | ReplyMutation mutation_outcome
  | ReplyScenario scenario
  | ReplyConfirmation checkout_confirmation

definition reply_as :: "('a \<Rightarrow> store_reply) \<Rightarrow> store_tables \<times> (store_error + 'a) \<Rightarrow> store_tables \<times> (store_error + store_reply)"
  where "reply_as f r = (fst r, bind_result (snd r) (\<lambda>x. Inr (f x)))"

fun serve :: "call_env \<Rightarrow> pystr \<Rightarrow> store_call \<Rightarrow> store_tables \<Rightarrow> store_tables \<times> (store_error + store_reply)" where
  "serve e ws CallReadState T =
     (let T0 = ensure_workspace T ws in reply_as ReplyState (T0, current_state T0 ws))"
| "serve e ws (CallUpdateCart p q r) T = reply_as ReplyMutation (update_cart T ws p q r)"
| "serve e ws (CallApplyDiscount c) T = reply_as ReplyMutation (apply_discount T ws c)"
| "serve e ws CallReadScenario T =
     (let T0 = ensure_workspace T ws in (T0, Inr (ReplyScenario (current_scenario T0 ws))))"
| "serve e ws (CallSelectScenario m p) T = reply_as ReplyScenario (select_scenario T ws m p)"
| "serve e ws (CallRequestConfirmation n) T =
     reply_as ReplyConfirmation (request_confirmation T ws n (ce_now e) (ce_fresh e))"
| "serve e ws (CallDecide c b) T =
     reply_as ReplyConfirmation (decide_confirmation T ws c b (ce_now e) (ce_stamp e))"
| "serve e ws (CallCancel c) T = reply_as ReplyConfirmation (cancel_confirmation T ws c (ce_now e) (ce_stamp e))"
| "serve e ws (CallReadConfirmation c) T = reply_as ReplyConfirmation (T, require_confirmation T ws c)"
| "serve e ws (CallCheckout c r) T =
     reply_as ReplyMutation (checkout T ws c r (ce_now e) (ce_stamp e) (ce_fresh e))"

inductive serves :: "store_tables \<Rightarrow> bool" where
  opened: "serves empty_store_tables"
| served: "serves T \<Longrightarrow> serves (fst (serve e ws c T))"

end
