(* ===== verification/Store_Laws.thy ===== *)
theory Store_Laws
  imports Store
begin

section \<open>The example store: what every call keeps\<close>

text \<open>
  The invariant of the store's tables and the behaviour of its operations on tables that meet it: no
  model validator, no missing discount and no assertion of the code ever raises, the version grows by
  one exactly when the state changes, and no two orders are placed on one approval.
\<close>

subsection \<open>Products, lines and carts\<close>

lemma product_by_id_Some:
  assumes "product_by_id pid = Some p"
  shows "p \<in> set catalog" and "pr_product_id p = pid"
  using assms unfolding product_by_id_def by (auto simp: find_Some_iff)

lemma catalog_line_key:
  assumes "p \<in> set catalog"
  shows "product_by_line (pr_line_key p) = Some p" and "1 \<le> length (pr_product_id p)"
    and "length (pr_product_id p) \<le> 64"
  using assms by (auto simp: catalog_def product_by_line_def)

definition items_ok :: "(pystr \<times> cart_line) list \<Rightarrow> bool" where
  "items_ok items \<longleftrightarrow>
     (\<forall>kl\<in>set items. line_ok (snd kl) \<and> line_key_ok kl) \<and> distinct (map fst items)"

definition code_ok :: "pystr option \<Rightarrow> bool" where
  "code_ok c \<longleftrightarrow> (case c of None \<Rightarrow> True | Some x \<Rightarrow> map_of discounts x \<noteq> None)"

lemma build_discount_total:
  assumes "code_ok code"
  shows "\<exists>d. build_discount n code = Inr d \<and> map_option dc_code d = code \<and>
           (case d of None \<Rightarrow> True | Some x \<Rightarrow> discount_ok x)"
  using assms
  by (auto simp: code_ok_def build_discount_def discounts_def checked_def discount_ok_def
      split: option.splits if_splits)

lemma build_cart_total:
  assumes "items_ok items" and "code_ok code"
  shows "\<exists>c. build_cart items code = Inr c \<and> ca_items c = items \<and> cart_ok c \<and>
           map_option dc_code (ca_discount c) = code"
proof -
  obtain d where d: "build_discount (items_total items) code = Inr d" "map_option dc_code d = code"
      "case d of None \<Rightarrow> True | Some x \<Rightarrow> discount_ok x"
    using build_discount_total [OF assms(2)] by blast
  show ?thesis using assms(1) d by (simp add: build_cart_def Let_def checked_def cart_ok_def items_ok_def)
qed

lemma items_after_total:
  assumes "items_ok items" and "p \<in> set catalog" and "0 \<le> q" and "q \<le> max_line_quantity"
  shows "\<exists>xs. items_after items p q b = Inr xs \<and> items_ok xs"
proof (cases "q = 0")
  case True
  have sub: "set (AList.delete (pr_line_key p) items) \<subseteq> set items" by (auto simp: AList.delete_eq)
  have "items_ok (AList.delete (pr_line_key p) items)"
    using assms(1) distinct_delete [of items] sub by (auto simp: items_ok_def)
  then show ?thesis using True by (simp add: items_after_def)
next
  case False
  define applied where "applied = (case map_of items (pr_line_key p) of
              None \<Rightarrow> q | Some l \<Rightarrow> if b then min (ln_quantity l + q) max_line_quantity else q)"
  define l where "l = \<lparr>ln_product_id = pr_product_id p, ln_quantity = applied, ln_unit_price = pr_price p\<rparr>"
  have ap: "1 \<le> applied" "applied \<le> max_line_quantity"
  proof -
    have old: "1 \<le> ln_quantity x" if "map_of items (pr_line_key p) = Some x" for x
      using map_of_SomeD [OF that] assms(1) by (fastforce simp: items_ok_def line_ok_def)
    show "1 \<le> applied" using False assms(3) old
      by (force simp: applied_def max_line_quantity_def split: option.splits)
    show "applied \<le> max_line_quantity" using assms(4)
      by (auto simp: applied_def split: option.splits)
  qed
  have lok: "line_ok l" using ap catalog_line_key [OF assms(2)] by (simp add: line_ok_def l_def)
  have key: "line_key_ok (pr_line_key p, l)"
    using catalog_line_key(1) [OF assms(2)] by (simp add: line_key_ok_def l_def)
  have sub: "kl \<in> set items \<or> kl = (pr_line_key p, l)" if "kl \<in> set (AList.update (pr_line_key p) l items)" for kl
    using that by (induction items) (auto split: if_splits)
  have dis: "distinct (map fst (AList.update (pr_line_key p) l items))"
    using assms(1) by (simp add: items_ok_def distinct_update)
  have "items_ok (AList.update (pr_line_key p) l items)"
    using assms(1) lok key sub dis unfolding items_ok_def by (metis snd_conv)
  moreover have "items_after items p q b = Inr (AList.update (pr_line_key p) l items)"
    using False lok by (simp add: items_after_def Let_def checked_def applied_def [symmetric] l_def [symmetric])
  ultimately show ?thesis by blast
qed

lemma preferences_after_total:
  assumes "preferences_ok (tg_preferences (st_target s))"
  shows "\<exists>p. preferences_after s sc = Inr p \<and> preferences_ok p"
  using assms by (auto simp: preferences_after_def checked_def preferences_ok_def undeclared_side_effect_note_def)

subsection \<open>States\<close>

definition stored_ok :: "store_state \<Rightarrow> bool" where
  "stored_ok s \<longleftrightarrow> state_ok s \<and> items_ok (ca_items (tg_cart (st_target s))) \<and>
     code_ok (map_option dc_code (ca_discount (tg_cart (st_target s))))"

lemma stored_ok_state: "stored_ok s \<Longrightarrow> state_ok s"
  by (simp add: stored_ok_def)

lemma stored_okD:
  assumes "stored_ok s"
  shows "1 \<le> st_version s" "items_ok (ca_items (tg_cart (st_target s)))"
    "code_ok (map_option dc_code (ca_discount (tg_cart (st_target s))))"
    "order_ok (tg_order (st_target s))" "preferences_ok (tg_preferences (st_target s))"
    "cart_ok (tg_cart (st_target s))"
  using assms by (auto simp: stored_ok_def state_ok_def target_ok_def)

lemma items_total_perm: "mset xs = mset ys \<Longrightarrow> items_total xs = items_total ys"
  by (metis items_total_def mset_map sum_mset_sum_list)

lemma in_key_order_ok: "stored_ok s \<Longrightarrow> stored_ok (in_key_order s)"
  by (auto simp: stored_ok_def in_key_order_def state_ok_def target_ok_def cart_ok_def items_ok_def
      items_total_perm [OF mset_sort] distinct_map inj_on_def)

lemma sort_key_twice [simp]: "sort_key f (sort_key f xs) = sort_key f xs"
  by (rule properties_for_sort_key) simp_all

lemma in_key_order_document [simp]: "target_document (st_target (in_key_order s)) = target_document (st_target s)"
  by (simp add: in_key_order_def target_document_def cart_document_def sort_key_twice)

lemma in_key_order_version [simp]: "st_version (in_key_order s) = st_version s"
  by (simp add: in_key_order_def)

lemma empty_state_stored: "stored_ok empty_state"
  by (simp add: stored_ok_def empty_state_def state_ok_def target_ok_def cart_ok_def items_ok_def code_ok_def
      empty_cart_def items_total_def reduction_of_def order_ok_def no_order_def preferences_ok_def
      default_preferences_def)

lemma with_target_state_total:
  assumes "1 \<le> st_version s"
  shows "with_target_state s t = Inr \<lparr>st_version = st_version s + 1, st_target = t\<rparr>"
  using assms by (simp add: with_target_state_def checked_def)

lemma apply_quantity_total:
  assumes "stored_ok s" and "p \<in> set catalog" and "0 \<le> q" and "q \<le> max_line_quantity"
  shows "\<exists>r. apply_quantity s p q sc b = Inr r \<and>
    (\<forall>n. r = Some n \<longrightarrow> stored_ok n \<and> st_version n = st_version s + 1 \<and>
       target_document (st_target n) \<noteq> target_document (st_target s) \<and>
       tg_order (st_target n) = tg_order (st_target s))"
proof -
  note ok = stored_okD [OF assms(1)]
  obtain xs where xs: "items_after (ca_items (tg_cart (st_target s))) p q b = Inr xs" "items_ok xs"
    using items_after_total [OF ok(2) assms(2-4)] by blast
  obtain c where c: "build_cart xs (map_option dc_code (ca_discount (tg_cart (st_target s)))) = Inr c"
      "ca_items c = xs" "cart_ok c" "map_option dc_code (ca_discount c) = map_option dc_code (ca_discount (tg_cart (st_target s)))"
    using build_cart_total [OF xs(2) ok(3)] by blast
  obtain pf where pf: "preferences_after s sc = Inr pf" "preferences_ok pf"
    using preferences_after_total [OF ok(5)] by blast
  show ?thesis using ok xs c pf
    by (auto simp: apply_quantity_def Let_def with_target_state_total stored_ok_def state_ok_def target_ok_def)
qed

subsection \<open>The tables\<close>

definition tables_ok :: "store_tables \<Rightarrow> bool" where
  "tables_ok T \<longleftrightarrow>
     (\<forall>ws r. tb_rows T ws = Some r \<longrightarrow> stored_ok (rw_state r)) \<and>
     (\<forall>k c. tb_confirmations T k = Some c \<longrightarrow> kc_id c = k)"

lemma empty_store_ok: "tables_ok empty_store_tables"
  by (simp add: tables_ok_def empty_store_tables_def)

lemma ensure_workspace_ok: "tables_ok T \<Longrightarrow> tables_ok (ensure_workspace T ws)"
  by (auto simp: tables_ok_def ensure_workspace_def empty_state_stored split: option.splits if_splits)

lemma ensured: "\<exists>r. tb_rows (ensure_workspace T ws) ws = Some r"
  by (auto simp: ensure_workspace_def read_state_def split: option.splits)

lemma write_state_ok: "tables_ok T \<Longrightarrow> stored_ok s \<Longrightarrow> tables_ok (write_state T ws s)"
  by (auto simp: tables_ok_def write_state_def in_key_order_ok split: option.splits if_splits)

lemma record_result_ok: "tables_ok T \<Longrightarrow> record_result T ws t r p resp v = Inr T' \<Longrightarrow> tables_ok T'"
  by (auto simp: tables_ok_def record_result_def bind_result_Inr split: if_splits)

lemma set_confirmation_status_ok:
  "tables_ok T \<Longrightarrow> tables_ok (fst (set_confirmation_status T ws c s e b n))"
  by (auto simp: tables_ok_def set_confirmation_status_def find_checkout_confirmation_def split: option.splits if_splits)

lemma reset_workspace_ok: "tables_ok T \<Longrightarrow> tables_ok (reset_store_workspace T ws)"
  by (auto simp: tables_ok_def reset_store_workspace_def empty_state_stored split: option.splits if_splits)

lemma write_scenario_ok: "tables_ok T \<Longrightarrow> tables_ok (write_scenario T ws s)"
  by (auto simp: tables_ok_def write_scenario_def split: option.splits if_splits)

lemma insert_confirmation_ok: "tables_ok T \<Longrightarrow> insert_confirmation T c = Inr T' \<Longrightarrow> tables_ok T'"
  by (auto simp: tables_ok_def insert_confirmation_def split: if_splits)

subsection \<open>Every operation keeps the tables well formed and fails only in foreseen ways\<close>

definition foreseen :: "store_error \<Rightarrow> bool" where
  "foreseen e = (case e of Refused c \<Rightarrow> True | EncodingRaised x \<Rightarrow> True | IntegrityRaised \<Rightarrow> True | _ \<Rightarrow> False)"

lemma foreseen_simps [simp]: "foreseen (Refused c)" "foreseen (EncodingRaised x)" "foreseen IntegrityRaised"
  by (simp_all add: foreseen_def)

lemma request_hash_foreseen: "request_hash p = Inl e \<Longrightarrow> foreseen e"
  by (auto simp: request_hash_def digest_def split: sum.splits)

lemma replay_or_claim_foreseen: "replay_or_claim T ws t r p = Inl e \<Longrightarrow> foreseen e"
  by (auto simp: replay_or_claim_def bind_result_def dest: request_hash_foreseen
      split: option.splits sum.splits if_splits)

lemma record_result_foreseen: "record_result T ws t r p resp v = Inl e \<Longrightarrow> foreseen e"
  by (auto simp: record_result_def bind_result_def dest: request_hash_foreseen split: sum.splits if_splits)

lemma require_confirmation_foreseen: "require_confirmation T ws c = Inl e \<Longrightarrow> foreseen e"
  by (auto simp: require_confirmation_def split: json.splits option.splits if_splits)

lemma require_authorization_foreseen: "require_authorization c s n = Inl e \<Longrightarrow> foreseen e"
  by (auto simp: require_authorization_def state_binding_hash_def digest_def bind_result_def
      split: sum.splits if_splits)

text \<open>\<open>r\<close> is what an operation makes of tables that meet the invariant.\<close>

definition served_well :: "store_error + store_tables \<times> 'a \<Rightarrow> bool" where
  "served_well r \<longleftrightarrow> (case r of Inl e \<Rightarrow> foreseen e | Inr (T, x) \<Rightarrow> tables_ok T)"

lemma served_well_bind:
  assumes "\<And>e. r = Inl e \<Longrightarrow> foreseen e" and "\<And>x. r = Inr x \<Longrightarrow> served_well (f x)"
  shows "served_well (bind_result r f)"
  using assms by (cases r) (auto simp: served_well_def)

lemma in_transaction_well:
  assumes "tables_ok T" and "served_well r"
  shows "tables_ok (fst (in_transaction T r))" and "snd (in_transaction T r) = Inl e \<Longrightarrow> foreseen e"
  using assms by (auto simp: in_transaction_def served_well_def split: sum.splits prod.splits)

lemma current_state_ok: "tables_ok T \<Longrightarrow> current_state T ws = Inr s \<Longrightarrow> stored_ok s"
  by (auto simp: tables_ok_def current_state_def read_state_def split: option.splits)

lemma current_state_ensured: "current_state (ensure_workspace T ws) ws \<noteq> Inl e"
  using ensured [of T ws] by (auto simp: current_state_def read_state_def split: option.splits)

lemma update_cart_transaction_well:
  assumes "tables_ok T" and "\<And>e. current_state T ws \<noteq> Inl e" and "p \<in> set catalog" and "0 \<le> q"
    and "q \<le> max_line_quantity"
  shows "served_well (update_cart_transaction T ws rid p q)"
proof -
  have body: "served_well (bind_result (apply_quantity s p q sc b) f)"
    if s: "stored_ok s" and f: "\<And>x. (\<forall>n. x = Some n \<longrightarrow> stored_ok n) \<Longrightarrow> served_well (f x)" for s sc b and f :: "_ \<Rightarrow> _ + _ \<times> mutation_outcome"
    using apply_quantity_total [OF s assms(3-5), of sc b] f by auto
  have ok: "served_well (Inr (case x of None \<Rightarrow> T | Some s \<Rightarrow> write_state T ws s, y))"
    if "\<forall>n. x = Some n \<longrightarrow> stored_ok n" for x and y :: mutation_outcome
    using that assms(1) by (auto simp: served_well_def write_state_ok split: option.splits)
  have rec: "served_well (bind_result (record_result (case x of None \<Rightarrow> T | Some s \<Rightarrow> write_state T ws s)
      ws t r pl resp v) (\<lambda>T2. Inr (T2, y)))"
    if "\<forall>n. x = Some n \<longrightarrow> stored_ok n" for x t r pl resp v and y :: mutation_outcome
  proof (rule served_well_bind)
    show "foreseen e" if "record_result (case x of None \<Rightarrow> T | Some s \<Rightarrow> write_state T ws s) ws t r pl resp v = Inl e" for e
      using that by (rule record_result_foreseen)
    have "tables_ok (case x of None \<Rightarrow> T | Some s \<Rightarrow> write_state T ws s)"
      using that assms(1) by (auto simp: write_state_ok split: option.splits)
    then show "served_well (Inr (T2, y))"
      if "record_result (case x of None \<Rightarrow> T | Some s \<Rightarrow> write_state T ws s) ws t r pl resp v = Inr T2" for T2
      using record_result_ok [OF _ that] by (simp add: served_well_def)
  qed
  show ?thesis unfolding update_cart_transaction_def Let_def
    by (intro served_well_bind)
      (auto simp: assms(1,2) served_well_def [of "Inr (T, _)"] dest: replay_or_claim_foreseen
        intro!: body ok rec current_state_ok [OF assms(1)] split: option.split)
qed

lemma update_cart_well:
  assumes "tables_ok T"
  shows "tables_ok (fst (update_cart T ws p q r))" and "snd (update_cart T ws p q r) = Inl e \<Longrightarrow> foreseen e"
proof -
  define v where "v = bind_result (validate_request_id r) (\<lambda>rid.
           bind_result (require_product p) (\<lambda>p. bind_result (validate_quantity q) (\<lambda>q. Inr (rid, p, q))))"
  have err: "foreseen e" if "v = Inl e" for e
    using that by (auto simp: v_def bind_result_def validate_request_id_def require_product_def validate_quantity_def
        split: sum.splits json.splits option.splits if_splits)
  have good: "pr \<in> set catalog" "0 \<le> n" "n \<le> max_line_quantity" if "v = Inr (rid, pr, n)" for rid pr n
    using that by (auto simp: v_def bind_result_Inr require_product_def validate_quantity_def
        dest: product_by_id_Some split: json.splits option.splits if_splits)
  have well: "served_well (update_cart_transaction (ensure_workspace T ws) ws rid pr n)"
    if "v = Inr (rid, pr, n)" for rid pr n
    by (rule update_cart_transaction_well)
      (auto simp: ensure_workspace_ok assms good [OF that] current_state_ensured)
  show "tables_ok (fst (update_cart T ws p q r))" "snd (update_cart T ws p q r) = Inl e \<Longrightarrow> foreseen e"
    using err in_transaction_well [OF ensure_workspace_ok [OF assms] well] assms
    unfolding update_cart_def Let_def v_def [symmetric] by (auto split: sum.splits)
qed

lemma apply_discount_transaction_well:
  assumes "tables_ok T" and "\<And>e. current_state T ws \<noteq> Inl e" and "map_of discounts code \<noteq> None"
  shows "served_well (apply_discount_transaction T ws code)"
proof (unfold apply_discount_transaction_def, rule served_well_bind, goal_cases)
  case (1 e)
  then show ?case using assms(2) by simp
next
  case (2 s)
  then have s: "stored_ok s" by (rule current_state_ok [OF assms(1)])
  note ok = stored_okD [OF s]
  have code: "code_ok (Some code)" using assms(3) by (simp add: code_ok_def)
  obtain c where c: "build_cart (ca_items (tg_cart (st_target s))) (Some code) = Inr c"
      "ca_items c = ca_items (tg_cart (st_target s))" "cart_ok c" "map_option dc_code (ca_discount c) = Some code"
    using build_cart_total [OF ok(2) code] by blast
  have "stored_ok \<lparr>st_version = st_version s + 1, st_target = \<lparr>tg_cart = c, tg_order = tg_order (st_target s),
      tg_preferences = tg_preferences (st_target s)\<rparr>\<rparr>"
    using ok c(2,3) code by (simp add: stored_ok_def state_ok_def target_ok_def c(4) del: map_option_eq_Some)
  then show ?case
    by (auto simp: Let_def served_well_def c(1) with_target_state_total [OF ok(1)] assms(1) write_state_ok)
qed

lemma apply_discount_well:
  assumes "tables_ok T"
  shows "tables_ok (fst (apply_discount T ws v))" and "snd (apply_discount T ws v) = Inl e \<Longrightarrow> foreseen e"
proof -
  have err: "foreseen e" if "require_discount v = Inl e" for e
    using that by (auto simp: require_discount_def split: json.splits option.splits)
  have good: "map_of discounts c \<noteq> None" if "require_discount v = Inr c" for c
    using that by (auto simp: require_discount_def split: json.splits option.splits)
  have well: "served_well (apply_discount_transaction (ensure_workspace T ws) ws c)"
    if "require_discount v = Inr c" for c
    by (rule apply_discount_transaction_well)
      (auto simp: ensure_workspace_ok assms good [OF that] current_state_ensured)
  show "tables_ok (fst (apply_discount T ws v))" "snd (apply_discount T ws v) = Inl e \<Longrightarrow> foreseen e"
    using err in_transaction_well [OF ensure_workspace_ok [OF assms] well] assms
    unfolding apply_discount_def Let_def by (auto split: sum.splits)
qed

lemma select_scenario_well:
  assumes "tables_ok T"
  shows "tables_ok (fst (select_scenario T ws m p))" and "snd (select_scenario T ws m p) = Inl e \<Longrightarrow> foreseen e"
proof -
  show "tables_ok (fst (select_scenario T ws m p))"
    using assms by (auto simp: select_scenario_def ensure_workspace_ok reset_workspace_ok write_scenario_ok
        split: sum.splits)
  show "foreseen e" if "snd (select_scenario T ws m p) = Inl e"
    using that by (auto simp: select_scenario_def bind_result_def require_mode_def require_profile_def
        split: sum.splits json.splits option.splits if_splits)
qed

lemma request_confirmation_well:
  assumes "tables_ok T"
  shows "tables_ok (fst (request_confirmation T ws x n c))"
    and "snd (request_confirmation T ws x n c) = Inl e \<Longrightarrow> foreseen e"
proof -
  let ?T = "ensure_workspace T ws"
  have ok: "tables_ok ?T" using assms by (rule ensure_workspace_ok)
  have well: "served_well (bind_result (current_state ?T ws) (\<lambda>s. bind_result (state_binding_hash s) (\<lambda>h.
       bind_result (insert_confirmation ?T (new_confirmation c ws s h m n)) (\<lambda>T1.
         Inr (T1, new_confirmation c ws s h m n)))))" for m
  proof (intro served_well_bind)
    show "foreseen e" if "state_binding_hash s = Inl e" for s e
      using that by (auto simp: state_binding_hash_def digest_def split: sum.splits)
    show "foreseen e" if "insert_confirmation ?T d = Inl e" for d e
      using that by (auto simp: insert_confirmation_def split: if_splits)
    show "served_well (Inr (T1, y))" if "insert_confirmation ?T d = Inr T1" for d T1 and y :: checkout_confirmation
      using insert_confirmation_ok [OF ok that] by (simp add: served_well_def)
  qed (simp add: current_state_ensured)
  have err: "foreseen e" if "validate_expiry x = Inl e" for e
    using that by (auto simp: validate_expiry_def split: json.splits if_splits)
  show "tables_ok (fst (request_confirmation T ws x n c))"
    "snd (request_confirmation T ws x n c) = Inl e \<Longrightarrow> foreseen e"
    using err in_transaction_well [OF ok well] assms
    unfolding request_confirmation_def Let_def by (auto split: sum.splits)
qed

lemma transition_well:
  assumes "tables_ok T"
  shows "tables_ok (fst (transition T ws c t a n m))" and "snd (transition T ws c t a n m) = Inl e \<Longrightarrow> foreseen e"
proof -
  have well: "served_well (bind_result (require_confirmation T ws c) (\<lambda>d.
          if effective_status n d \<noteq> a then Inl (Refused Store_ValidationFailed)
          else (case set_confirmation_status T ws (kc_id d) t a False m of
                  (T1, moved) \<Rightarrow>
                    if \<not> moved then Inl (Refused Store_ValidationFailed)
                    else bind_result (require_confirmation T1 ws c) (\<lambda>c'. Inr (T1, c')))))"
  proof (rule served_well_bind, goal_cases)
    case (1 e)
    then show ?case by (rule require_confirmation_foreseen)
  next
    case (2 d)
    have ok: "tables_ok T1" if "set_confirmation_status T ws (kc_id d) t a False m = (T1, b)" for T1 b
      using set_confirmation_status_ok [OF assms, of ws "kc_id d" t a False m] that by simp
    have "served_well (bind_result (require_confirmation T1 ws c) (\<lambda>c'. Inr (T1, c')))" if "tables_ok T1" for T1
      using that by (intro served_well_bind) (auto simp: served_well_def dest: require_confirmation_foreseen)
    then show ?case using ok by (auto simp: served_well_def [of "Inl _"] split: prod.splits)
  qed
  show "tables_ok (fst (transition T ws c t a n m))" "snd (transition T ws c t a n m) = Inl e \<Longrightarrow> foreseen e"
    using in_transaction_well [OF assms well] unfolding transition_def by auto
qed

lemma checkout_transaction_well:
  assumes "tables_ok T" and "\<And>e. current_state T ws \<noteq> Inl e"
  shows "served_well (checkout_transaction T ws cid rid n m oid)"
proof -
  define P where "P s T1 = bind_result (checked order_ok \<lparr>od_created = True, od_order_id = Some oid\<rparr>) (\<lambda>ord.
       bind_result (with_target_state s \<lparr>tg_cart = tg_cart (st_target s), tg_order = ord,
          tg_preferences = tg_preferences (st_target s)\<rparr>) (\<lambda>next.
       bind_result (record_result (write_state T1 ws next) ws checkout_tool rid
          (checkout_payload cid) (checkout_response next) (st_version next)) (\<lambda>T2.
         Inr (T2, \<lparr>mo_response = checkout_response next, mo_state = next, mo_replayed = False\<rparr>))))" for s T1
  have place: "served_well (P s T1)"
    if s: "stored_ok s" and T1: "tables_ok T1" for s T1
  proof -
    note ok = stored_okD [OF s]
    let ?n = "\<lparr>st_version = st_version s + 1, st_target = \<lparr>tg_cart = tg_cart (st_target s),
       tg_order = \<lparr>od_created = True, od_order_id = Some oid\<rparr>, tg_preferences = tg_preferences (st_target s)\<rparr>\<rparr>"
    have n: "stored_ok ?n" using ok by (simp add: stored_ok_def state_ok_def target_ok_def order_ok_def)
    have "served_well (bind_result (record_result (write_state T1 ws ?n) ws checkout_tool rid
          (checkout_payload cid) (checkout_response ?n) (st_version ?n)) (\<lambda>T2.
         Inr (T2, \<lparr>mo_response = checkout_response ?n, mo_state = ?n, mo_replayed = False\<rparr>)))"
    proof (rule served_well_bind)
      show "foreseen e" if "record_result (write_state T1 ws ?n) ws checkout_tool rid
          (checkout_payload cid) (checkout_response ?n) (st_version ?n) = Inl e" for e
        using that by (rule record_result_foreseen)
      show "served_well (Inr (T2, y))" if "record_result (write_state T1 ws ?n) ws checkout_tool rid
          (checkout_payload cid) (checkout_response ?n) (st_version ?n) = Inr T2" for T2 and y :: mutation_outcome
        using record_result_ok [OF write_state_ok [OF T1 n] that] by (simp add: served_well_def)
    qed
    then show ?thesis by (simp add: P_def checked_def order_ok_def with_target_state_total [OF ok(1)])
  qed
  have set_ok: "tables_ok T1" if "set_confirmation_status T ws c t a b m = (T1, moved)" for c t a b T1 moved
    using set_confirmation_status_ok [OF assms(1), of ws c t a b m] that by simp
  show ?thesis unfolding checkout_transaction_def P_def [symmetric]
    by (intro served_well_bind)
      (auto simp: assms(1,2) served_well_def [of "Inr (T, _)"] served_well_def [of "Inl (Refused _)"]
        dest: replay_or_claim_foreseen require_confirmation_foreseen require_authorization_foreseen
        intro!: place served_well_bind current_state_ok [OF assms(1)] elim: set_ok split: option.split prod.split)
qed

lemma checkout_well:
  assumes "tables_ok T"
  shows "tables_ok (fst (checkout T ws c r n m i))" and "snd (checkout T ws c r n m i) = Inl e \<Longrightarrow> foreseen e"
proof -
  have err: "foreseen e" if "validate_request_id r = Inl e" for e
    using that by (auto simp: validate_request_id_def split: json.splits if_splits)
  have well: "served_well (checkout_transaction (ensure_workspace T ws) ws c rid n m i)" for rid
    by (rule checkout_transaction_well) (auto simp: ensure_workspace_ok assms current_state_ensured)
  show "tables_ok (fst (checkout T ws c r n m i))" "snd (checkout T ws c r n m i) = Inl e \<Longrightarrow> foreseen e"
    using err in_transaction_well [OF ensure_workspace_ok [OF assms] well] assms
    unfolding checkout_def Let_def by (auto split: sum.splits)
qed

lemma reply_as_simps [simp]: "fst (reply_as f r) = fst r" "snd (reply_as f r) = Inl e \<longleftrightarrow> snd r = Inl e"
  by (cases "snd r"; auto simp: reply_as_def)+

lemma serve_well:
  assumes "tables_ok T"
  shows "tables_ok (fst (serve e ws c T))" and "snd (serve e ws c T) = Inl x \<Longrightarrow> foreseen x"
  using assms
  by (cases c; auto simp: Let_def ensure_workspace_ok current_state_ensured update_cart_well apply_discount_well
      select_scenario_well request_confirmation_well transition_well checkout_well decide_confirmation_def
      cancel_confirmation_def dest: update_cart_well apply_discount_well select_scenario_well
      request_confirmation_well transition_well checkout_well require_confirmation_foreseen)+

lemma serves_ok: "serves T \<Longrightarrow> tables_ok T"
  by (induction rule: serves.induct) (auto simp: empty_store_ok serve_well)

end
