(* ===== verification/Store_Run.thy ===== *)
theory Store_Run
  imports Store_Laws
begin

section \<open>The example store: one run\<close>

text \<open>
  A concrete run: two mugs are put in the cart, a checkout is asked for, approved and placed. The
  digests stay the applications of SHA-256 they are.
\<close>

subsection \<open>Documents whose texts have an encoding can be hashed\<close>

fun texts_of :: "json \<Rightarrow> pystr list" where
  "texts_of (JStr s) = [s]"
| "texts_of (JObj kvs) = concat (map (\<lambda>kv. fst kv # texts_of (snd kv)) kvs)"
| "texts_of (JArr xs) = concat (map texts_of xs)"
| "texts_of _ = []"

lemma encode_string_total: "\<not> (\<exists>c\<in>set s. is_surrogate c) \<Longrightarrow> \<exists>t. encode_string s = Inr t"
  by (simp add: encode_string_def)

lemma compact_dump_total:
  "\<forall>s\<in>set (texts_of v). \<not> (\<exists>c\<in>set s. is_surrogate c) \<Longrightarrow> \<exists>t. compact_dump v = Inr t"
proof (induction v rule: compact_dump.induct)
  case (6 kvs)
  have step: "\<exists>y. bind_result (compact_dump (snd kv)) (\<lambda>v. bind_result (encode_string (fst kv)) (\<lambda>k. Inr (k @ [58] @ v))) = Inr y"
    if kv: "kv \<in> set (sort_key fst kvs)" for kv
  proof -
    have t: "\<forall>s\<in>set (texts_of (snd kv)). \<not> (\<exists>c\<in>set s. is_surrogate c)"
      "\<not> (\<exists>c\<in>set (fst kv). is_surrogate c)"
      using 6(2) kv by auto
    obtain v where v: "compact_dump (snd kv) = Inr v" using 6(1) [OF kv t(1)] by auto
    obtain k where k: "encode_string (fst kv) = Inr k" using encode_string_total [OF t(2)] by auto
    show ?thesis using v k by simp
  qed
  have "\<exists>ms. map_result (\<lambda>kv. bind_result (compact_dump (snd kv)) (\<lambda>v.
      bind_result (encode_string (fst kv)) (\<lambda>k. Inr (k @ [58] @ v)))) (sort_key fst kvs) = Inr ms"
    by (rule map_result_exists) (rule step)
  then show ?case by auto
next
  case (7 xs)
  have "\<exists>y. compact_dump x = Inr y" if x: "x \<in> set xs" for x
    by (rule 7(1) [OF x]) (use 7(2) x in auto)
  then have "\<exists>ys. map_result compact_dump xs = Inr ys" by (rule map_result_exists)
  then show ?case by auto
qed (use encode_string_total in auto)

definition plain :: "pystr \<Rightarrow> bool" where
  "plain s \<longleftrightarrow> (\<forall>c\<in>set s. c < 0xD800)"

lemma plain_lit [simp]: "plain (lit s)"
proof -
  have "of_char c < (0xD800::nat)" for c :: char
  proof -
    have "of_char c mod 256 = (of_char c :: nat)" by (rule of_char_mod_256)
    then have "of_char c < (256::nat)" by (metis mod_less_divisor zero_less_numeral)
    then show ?thesis by (rule less_le_trans) simp
  qed
  then show ?thesis by (simp add: plain_def lit_def)
qed

lemma plain_append [simp]: "plain (s @ t) \<longleftrightarrow> plain s \<and> plain t"
  by (auto simp: plain_def)

lemma plain_Cons [simp]: "plain (c # s) \<longleftrightarrow> c < 0xD800 \<and> plain s"
  by (auto simp: plain_def)

lemma plain_Nil [simp]: "plain []"
  by (simp add: plain_def)

lemma plain_show_nat [simp]: "plain (show_nat n)"
  using show_nat_digits by (fastforce simp: plain_def)

lemma plain_format_amount [simp]: "plain (format_amount a)"
proof -
  have "n mod 100 div 10 < 10" "n mod 100 mod 10 < 10" for n :: nat by (auto simp: div_less_iff_less_mult)
  then have "48 + n mod 100 div 10 < 0xD800" "48 + n mod 100 mod 10 < 0xD800" for n :: nat
    using order.strict_trans by (auto simp: add.commute [of 48] intro: less_trans [of _ 58])
  then show ?thesis by (simp add: format_amount_def two_digits_def Let_def)
qed

definition hashable :: "json \<Rightarrow> bool" where
  "hashable v \<longleftrightarrow> (\<forall>s\<in>set (texts_of v). plain s)"

lemma digest_total: "hashable v \<Longrightarrow> \<exists>h. digest v = Inr h"
  using compact_dump_total [of v] by (fastforce simp: hashable_def digest_def plain_def is_surrogate_def)

text \<open>The cart of a state that can be stored can always be bound to a confirmation.\<close>

lemma cart_hashable:
  assumes "items_ok (ca_items c)" and "code_ok (map_option dc_code (ca_discount c))"
  shows "hashable (cart_document c)"
proof -
  have line: "plain k \<and> plain (ln_product_id l)" if "(k, l) \<in> set (ca_items c)" for k l
  proof -
    have "line_key_ok (k, l)" using assms(1) that by (auto simp: items_ok_def)
    then obtain p where p: "product_by_line k = Some p" "pr_product_id p = ln_product_id l"
      by (auto simp: line_key_ok_def split: option.splits)
    then have "p \<in> set catalog" "k = pr_line_key p" by (auto simp: product_by_line_def find_Some_iff)
    moreover have "\<forall>p\<in>set catalog. plain (pr_line_key p) \<and> plain (pr_product_id p)"
      by (simp add: catalog_def)
    ultimately show ?thesis using p(2) by metis
  qed
  have disc: "plain s" if "s \<in> set (texts_of (discount_document (ca_discount c)))" for s
    using assms(2) that by (auto simp: discount_document_def code_ok_def discounts_def split: option.splits if_splits)
  show ?thesis using line disc
    by (auto simp: hashable_def cart_document_def line_document_def)
qed

lemma state_binding_total: "stored_ok s \<Longrightarrow> \<exists>h. state_binding_hash s = Inr h"
  unfolding state_binding_hash_def by (intro digest_total cart_hashable stored_okD)

subsection \<open>The run\<close>

definition demo_env :: call_env where
  "demo_env = \<lparr>ce_now = 0, ce_stamp = 7, ce_fresh = lit ''c1''\<rparr>"

definition demo_ws :: pystr where "demo_ws = lit ''ws''"
definition demo_request :: pystr where "demo_request = lit ''request-1''"
definition demo_product :: json where "demo_product = JStr (lit ''mug-ceramic-001'')"

definition mug :: product where
  "mug = \<lparr>pr_product_id = lit ''mug-ceramic-001'', pr_line_key = lit ''mug'', pr_name = lit ''Ceramic Mug'',
     pr_price = 2500, pr_stock = 20\<rparr>"

definition demo_cart :: cart where
  "demo_cart = \<lparr>ca_items = [(lit ''mug'', \<lparr>ln_product_id = lit ''mug-ceramic-001'', ln_quantity = 2,
     ln_unit_price = 2500\<rparr>)], ca_discount = None, ca_subtotal = 5000, ca_total = 5000\<rparr>"

definition demo_state :: store_state where
  "demo_state = \<lparr>st_version = 2, st_target = \<lparr>tg_cart = demo_cart, tg_order = no_order,
     tg_preferences = default_preferences\<rparr>\<rparr>"

definition demo_payload_hash :: pystr where
  "demo_payload_hash = (case request_hash (update_payload mug 2) of Inl e \<Rightarrow> [] | Inr h \<Rightarrow> h)"

definition demo_cart_hash :: pystr where
  "demo_cart_hash = (case digest (cart_document demo_cart) of Inl e \<Rightarrow> [] | Inr h \<Rightarrow> h)"

definition demo_updated :: store_tables where
  "demo_updated = \<lparr>tb_rows = [demo_ws \<mapsto> \<lparr>rw_state = demo_state, rw_scenario = default_scenario\<rparr>],
     tb_records = [(demo_ws, update_cart_tool, demo_request) \<mapsto>
       \<lparr>ir_request_hash = demo_payload_hash, ir_response = cart_response demo_state (lit ''success''),
        ir_state_version_after = 2\<rparr>],
     tb_confirmations = Map.empty\<rparr>"

lemma demo_hashes:
  "request_hash (update_payload mug 2) = Inr demo_payload_hash"
  "state_binding_hash demo_state = Inr demo_cart_hash"
proof -
  have "hashable (JObj (update_payload mug 2))" "hashable (cart_document demo_cart)"
    by (simp_all add: hashable_def update_payload_def mug_def cart_document_def line_document_def
        discount_document_def demo_cart_def)
  then show "request_hash (update_payload mug 2) = Inr demo_payload_hash"
    "state_binding_hash demo_state = Inr demo_cart_hash"
    using digest_total [of "JObj (update_payload mug 2)"] digest_total [of "cart_document demo_cart"]
    by (auto simp: demo_payload_hash_def demo_cart_hash_def request_hash_def state_binding_hash_def demo_state_def)
qed

lemma demo_inputs:
  "require_product demo_product = Inr mug" "validate_quantity (JInt 2) = Inr 2"
  "validate_request_id (JStr demo_request) = Inr demo_request" "validate_expiry (JInt 60) = Inr 60"
  by code_simp+

lemma demo_apply: "apply_quantity empty_state mug 2 default_scenario False = Inr (Some demo_state)"
  by code_simp

lemma demo_update:
  "update_cart empty_store_tables demo_ws demo_product (JInt 2) (JStr demo_request) =
     (demo_updated, Inr \<lparr>mo_response = cart_response demo_state (lit ''success''), mo_state = demo_state,
        mo_replayed = False\<rparr>)"
proof -
  have order: "in_key_order demo_state = demo_state" by (simp add: in_key_order_def demo_state_def demo_cart_def)
  have "st_version empty_state < st_version demo_state" "st_version demo_state = 2"
    by (simp_all add: empty_state_def demo_state_def)
  then show ?thesis
    by (simp add: update_cart_def demo_inputs in_transaction_def update_cart_transaction_def replay_or_claim_def
        find_record_def empty_store_tables_def ensure_workspace_def read_state_def current_state_def current_scenario_def
        read_scenario_def demo_apply write_state_def order record_result_def demo_hashes demo_updated_def Let_def)
qed

definition demo_confirmation :: checkout_confirmation where
  "demo_confirmation = \<lparr>kc_id = lit ''c1'', kc_workspace = demo_ws, kc_status = Co_Approved,
     kc_state_binding_hash = demo_cart_hash,
     kc_consequence = kc_consequence (new_confirmation (lit ''c1'') demo_ws demo_state demo_cart_hash 60 0),
     kc_expires_at = 60000000, kc_created_at = 0, kc_decided_at = Some 7, kc_consumed_at = None\<rparr>"

definition demo_asked :: store_tables where
  "demo_asked = demo_updated\<lparr>tb_confirmations :=
     [lit ''c1'' \<mapsto> demo_confirmation\<lparr>kc_status := Co_Pending, kc_decided_at := None\<rparr>]\<rparr>"

definition demo_approved :: store_tables where
  "demo_approved = demo_updated\<lparr>tb_confirmations := [lit ''c1'' \<mapsto> demo_confirmation]\<rparr>"

lemma demo_ask: "fst (request_confirmation demo_updated demo_ws (JInt 60) 0 (lit ''c1'')) = demo_asked"
proof -
  have e: "ensure_workspace demo_updated demo_ws = demo_updated"
    by (simp add: ensure_workspace_def read_state_def demo_updated_def)
  have c: "current_state demo_updated demo_ws = Inr demo_state"
    by (simp add: current_state_def read_state_def demo_updated_def)
  show ?thesis
    by (simp add: request_confirmation_def demo_inputs e c in_transaction_def demo_hashes insert_confirmation_def
        Let_def demo_asked_def new_confirmation_def demo_confirmation_def micros_per_second_def)
      (simp add: demo_updated_def)
qed

lemma demo_decide: "fst (decide_confirmation demo_asked demo_ws (JStr (lit ''c1'')) True 0 7) = demo_approved"
  by (simp add: decide_confirmation_def transition_def in_transaction_def require_confirmation_def
      find_checkout_confirmation_def demo_asked_def demo_confirmation_def effective_status_def lapsing_statuses_def
      is_expired_def set_confirmation_status_def demo_approved_def)

lemma demo_serves: "serves demo_updated" "serves demo_approved"
proof -
  have "serves (fst (serve demo_env demo_ws (CallUpdateCart demo_product (JInt 2) (JStr demo_request)) empty_store_tables))"
    by (intro served opened)
  then show u: "serves demo_updated" by (simp add: demo_update reply_as_def)
  have "serves (fst (serve demo_env demo_ws (CallRequestConfirmation (JInt 60)) demo_updated))"
    by (intro served u)
  then have a: "serves demo_asked" by (simp add: demo_env_def demo_ask reply_as_def)
  have "serves (fst (serve demo_env demo_ws (CallDecide (JStr (lit ''c1'')) True) demo_asked))"
    by (intro served a)
  then show "serves demo_approved" by (simp add: demo_env_def demo_decide reply_as_def)
qed

lemma demo_checkout:
  "\<exists>T' out. checkout demo_approved demo_ws (JStr (lit ''c1'')) (JStr demo_request) 0 7 (lit ''o1'') = (T', Inr out) \<and>
     \<not> mo_replayed out"
proof -
  have e: "ensure_workspace demo_approved demo_ws = demo_approved"
    by (simp add: ensure_workspace_def read_state_def demo_approved_def demo_updated_def)
  have c: "current_state demo_approved demo_ws = Inr demo_state"
    by (simp add: current_state_def read_state_def demo_approved_def demo_updated_def)
  have r: "replay_or_claim demo_approved demo_ws checkout_tool demo_request p = Inr None" for p
    by (simp add: replay_or_claim_def find_record_def demo_approved_def demo_updated_def checkout_tool_def
        update_cart_tool_def)
  have q: "require_confirmation demo_approved demo_ws (JStr (lit ''c1'')) = Inr demo_confirmation"
    by (simp add: require_confirmation_def find_checkout_confirmation_def demo_approved_def demo_confirmation_def)
  have a: "require_authorization demo_confirmation demo_state 0 = Inr ()"
    by (simp add: require_authorization_def effective_status_def demo_confirmation_def lapsing_statuses_def
        is_expired_def authorizing_statuses_def demo_hashes)
  obtain T1 where s: "set_confirmation_status demo_approved demo_ws (kc_id demo_confirmation) Co_Consumed Co_Approved
      True 7 = (T1, True)" and t: "tb_records T1 = tb_records demo_approved"
    by (simp add: set_confirmation_status_def find_checkout_confirmation_def demo_approved_def demo_confirmation_def)
  obtain h where h: "request_hash (checkout_payload (JStr (lit ''c1''))) = Inr h"
  proof -
    have "hashable (JObj (checkout_payload (JStr (lit ''c1''))))"
      by (simp add: hashable_def checkout_payload_def)
    then show thesis using digest_total that by (auto simp: request_hash_def)
  qed
  have w: "tb_records (write_state T1 demo_ws x) = tb_records demo_approved" for x
    by (simp add: write_state_def t split: option.split)
  have free: "tb_records demo_approved (demo_ws, checkout_tool, demo_request) = None"
    by (simp add: demo_approved_def demo_updated_def checkout_tool_def update_cart_tool_def)
  show ?thesis
    by (simp add: checkout_def demo_inputs e in_transaction_def checkout_transaction_def r c q a s checked_def
        order_ok_def with_target_state_def record_result_def h w free) (simp add: demo_state_def)
qed

end
