(* ===== verification/Store_Claims.thy ===== *)
theory Store_Claims
  imports Store_Run
begin

section \<open>The example store: what it promises\<close>

text \<open>
  The properties of the example store over every table it can reach by its own calls
  (\<open>serves\<close>): carts that add up, errors that are the store's own, approvals that are spent once,
  retries that are replayed, and versions that move with the state. Two injected faults are shown to
  do what their description says.
\<close>

subsection \<open>What the calls do to confirmations\<close>

text \<open>The confirmations \<open>T'\<close> has are those of \<open>T\<close>, except for new ones and lapsing ones.\<close>

definition keeps_terminal :: "store_tables \<Rightarrow> store_tables \<Rightarrow> bool" where
  "keeps_terminal T T' \<longleftrightarrow> (\<forall>k c. tb_confirmations T k = Some c \<and> kc_status c \<in> set terminal_statuses \<longrightarrow>
     tb_confirmations T' k = Some c)"

lemma keeps_terminal_same: "tb_confirmations T' = tb_confirmations T \<Longrightarrow> keeps_terminal T T'"
  by (simp add: keeps_terminal_def)

lemma keeps_terminal_trans: "keeps_terminal T U \<Longrightarrow> keeps_terminal U V \<Longrightarrow> keeps_terminal T V"
  by (simp add: keeps_terminal_def)

lemma ensure_workspace_confirmations [simp]: "tb_confirmations (ensure_workspace T ws) = tb_confirmations T"
  by (simp add: ensure_workspace_def split: option.split)

lemma write_state_confirmations [simp]: "tb_confirmations (write_state T ws s) = tb_confirmations T"
  by (simp add: write_state_def split: option.split)

lemma record_result_confirmations:
  "record_result T ws t r p resp v = Inr T' \<Longrightarrow> tb_confirmations T' = tb_confirmations T"
  by (auto simp: record_result_def bind_result_Inr split: if_splits)

lemma set_confirmation_status_terminal:
  assumes "set_confirmation_status T ws k s e b n = (T', m)" and "e \<notin> set terminal_statuses"
  shows "keeps_terminal T T'"
  using assms by (auto simp: set_confirmation_status_def keeps_terminal_def find_checkout_confirmation_def
      split: option.splits if_splits)

lemma insert_confirmation_terminal: "insert_confirmation T c = Inr T' \<Longrightarrow> keeps_terminal T T'"
  by (auto simp: insert_confirmation_def keeps_terminal_def split: if_splits)

lemma update_cart_confirmations: "tb_confirmations (fst (update_cart T ws p q r)) = tb_confirmations T"
  by (auto simp: update_cart_def Let_def in_transaction_def update_cart_transaction_def bind_result_Inr
      dest!: record_result_confirmations split: sum.split option.splits if_splits)

lemma apply_discount_confirmations: "tb_confirmations (fst (apply_discount T ws v)) = tb_confirmations T"
  by (auto simp: apply_discount_def Let_def in_transaction_def apply_discount_transaction_def bind_result_Inr
      split: sum.split if_splits)

lemma request_confirmation_terminal: "keeps_terminal T (fst (request_confirmation T ws x n k))"
  by (auto simp: request_confirmation_def Let_def in_transaction_def bind_result_Inr keeps_terminal_def
      insert_confirmation_def split: sum.split if_splits)

lemma transition_cases:
  assumes "transition T ws k t a n m = (T', Inr d)"
  obtains c where "require_confirmation T ws k = Inr c" and "effective_status n c = a"
    and "set_confirmation_status T ws (kc_id c) t a False m = (T', True)"
    and "require_confirmation T' ws k = Inr d"
  using assms
  by (auto simp: transition_def in_transaction_def bind_result_Inr case_prod_beta prod_eq_iff
      split: sum.split_asm if_split_asm)

lemma transition_refused: "snd (transition T ws k t a n m) = Inl e \<Longrightarrow> fst (transition T ws k t a n m) = T"
  by (auto simp: transition_def in_transaction_def split: sum.splits prod.splits)

lemma transition_terminal:
  assumes "a \<notin> set terminal_statuses"
  shows "keeps_terminal T (fst (transition T ws k t a n m))"
proof (cases "snd (transition T ws k t a n m)")
  case (Inl e)
  then show ?thesis using transition_refused by (metis keeps_terminal_same)
next
  case (Inr d)
  then have "transition T ws k t a n m = (fst (transition T ws k t a n m), Inr d)" by (metis prod.collapse)
  then show ?thesis by (rule transition_cases) (rule set_confirmation_status_terminal [OF _ assms])
qed

text \<open>What a checkout that did not merely replay has done\<close>

definition ordered_state :: "store_state \<Rightarrow> pystr \<Rightarrow> store_state" where
  "ordered_state s i = \<lparr>st_version = st_version s + 1, st_target = \<lparr>tg_cart = tg_cart (st_target s),
     tg_order = \<lparr>od_created = True, od_order_id = Some i\<rparr>, tg_preferences = tg_preferences (st_target s)\<rparr>\<rparr>"

lemma checkout_transaction_cases:
  assumes "checkout_transaction T ws k rid n m i = Inr (T', out)"
  obtains (replay) r s where "replay_or_claim T ws checkout_tool rid (checkout_payload k) = Inr (Some r)"
      and "T' = T" and "current_state T ws = Inr s"
      and "out = \<lparr>mo_response = ir_response r, mo_state = s, mo_replayed = True\<rparr>"
  | (ordered) c s T1 where "current_state T ws = Inr s" and "require_confirmation T ws k = Inr c"
      and "require_authorization c s n = Inr ()"
      and "set_confirmation_status T ws (kc_id c) Co_Consumed Co_Approved True m = (T1, True)"
      and "record_result (write_state T1 ws (ordered_state s i)) ws checkout_tool rid (checkout_payload k)
             (checkout_response (ordered_state s i)) (st_version s + 1) = Inr T'"
      and "out = \<lparr>mo_response = checkout_response (ordered_state s i), mo_state = ordered_state s i,
             mo_replayed = False\<rparr>"
proof -
  obtain replayed s where a: "replay_or_claim T ws checkout_tool rid (checkout_payload k) = Inr replayed"
      "current_state T ws = Inr s"
    using assms by (auto simp: checkout_transaction_def bind_result_Inr)
  show thesis
  proof (cases replayed)
    case (Some r)
    with assms a show thesis by (intro replay [of r s]) (simp_all add: checkout_transaction_def)
  next
    case None
    with assms a obtain c where c: "require_confirmation T ws k = Inr c" "require_authorization c s n = Inr ()"
      by (auto simp: checkout_transaction_def bind_result_Inr)
    obtain T1 moved where m: "set_confirmation_status T ws (kc_id c) Co_Consumed Co_Approved True m = (T1, moved)"
      by (metis prod.collapse)
    show thesis
      by (rule ordered [OF a(2) c])
        (use assms a None c m in \<open>auto simp: checkout_transaction_def bind_result_Inr checked_def order_ok_def
          with_target_state_def ordered_state_def split: if_split_asm\<close>)
  qed
qed

lemma checkout_terminal: "keeps_terminal T (fst (checkout T ws k r n m i))"
proof -
  have "keeps_terminal U T2" if "checkout_transaction U ws k rid n m i = Inr (T2, out)" for U T2 rid out
    using that
  proof (cases rule: checkout_transaction_cases)
    case replay
    then show ?thesis by (simp add: keeps_terminal_same)
  next
    case (ordered c s T1)
    have "keeps_terminal U T1"
      by (rule set_confirmation_status_terminal [OF ordered(4)]) (simp add: terminal_statuses_def)
    then show ?thesis using record_result_confirmations [OF ordered(5)] by (simp add: keeps_terminal_def)
  qed
  then show ?thesis
    by (auto simp: checkout_def Let_def in_transaction_def keeps_terminal_same keeps_terminal_def
        split: sum.split)
qed

subsection \<open>What the calls do to a state\<close>

text \<open>A state stays, or the next version replaces it.\<close>

definition moves_on :: "store_tables \<Rightarrow> store_tables \<Rightarrow> bool" where
  "moves_on T T' \<longleftrightarrow> (\<forall>ws s. read_state T ws = Some s \<longrightarrow>
     (\<exists>s'. read_state T' ws = Some s' \<and> (s' = s \<or> st_version s' = st_version s + 1)))"

lemma moves_on_same: "tb_rows T' = tb_rows T \<Longrightarrow> moves_on T T'"
  by (auto simp: moves_on_def read_state_def)

lemma ensure_workspace_state: "read_state T ws = Some s \<Longrightarrow> read_state (ensure_workspace T v) ws = Some s"
  by (auto simp: ensure_workspace_def read_state_def split: option.splits)

lemma moves_on_ensure: "moves_on T (ensure_workspace T ws)"
  by (simp add: moves_on_def ensure_workspace_state)

lemma moves_on_ensured: "moves_on (ensure_workspace T ws) V \<Longrightarrow> moves_on T V"
  using ensure_workspace_state unfolding moves_on_def by blast

lemma write_next_state:
  assumes "current_state T ws = Inr s" and "st_version n = st_version s + 1"
  shows "moves_on T (write_state T ws n)" and "read_state (write_state T ws n) ws = Some (in_key_order n)"
  using assms by (auto simp: moves_on_def write_state_def read_state_def current_state_def split: option.splits)

lemma record_result_rows: "record_result T ws t r p resp v = Inr T' \<Longrightarrow> tb_rows T' = tb_rows T"
  by (auto simp: record_result_def bind_result_Inr split: if_splits)

lemma set_confirmation_status_rows [simp]: "tb_rows (fst (set_confirmation_status T ws k s e b n)) = tb_rows T"
  by (simp add: set_confirmation_status_def split: option.split)

lemma apply_quantity_version: "apply_quantity s p q sc b = Inr (Some n) \<Longrightarrow> st_version n = st_version s + 1"
  by (auto simp: apply_quantity_def Let_def bind_result_Inr with_target_state_def checked_def split: if_splits)

lemma moves_on_rows: "moves_on T U \<Longrightarrow> tb_rows V = tb_rows U \<Longrightarrow> moves_on T V"
  by (simp add: moves_on_def read_state_def)

lemma update_cart_transaction_moves:
  assumes "update_cart_transaction T ws rid p q = Inr (T', out)"
  shows "moves_on T T'"
proof -
  have step: "moves_on T (case x of None \<Rightarrow> T | Some n \<Rightarrow> write_state T ws n)"
    if "current_state T ws = Inr s" "apply_quantity s p q sc b = Inr x" for s sc b x
    using that apply_quantity_version write_next_state(1) by (auto simp: moves_on_same split: option.split)
  show ?thesis using assms
    by (auto simp: update_cart_transaction_def Let_def bind_result_Inr moves_on_same
        intro: step moves_on_rows [OF step] dest!: record_result_rows split: option.splits if_splits)
qed

lemma update_cart_moves: "moves_on T (fst (update_cart T ws p q r))"
  by (auto simp: update_cart_def Let_def in_transaction_def moves_on_same moves_on_ensure
      dest!: update_cart_transaction_moves intro: moves_on_ensured split: sum.split)

lemma apply_discount_moves: "moves_on T (fst (apply_discount T ws v))"
proof -
  have tx: "moves_on U T'" if d: "apply_discount_transaction U ws c = Inr (T', out)" for U T' c out
  proof -
    obtain s where s: "current_state U ws = Inr s"
      using d by (auto simp: apply_discount_transaction_def bind_result_Inr)
    have "T' = U \<or> (\<exists>t. T' = write_state U ws \<lparr>st_version = st_version s + 1, st_target = t\<rparr>)"
      using d s by (auto simp: apply_discount_transaction_def Let_def bind_result_Inr with_target_state_def
          checked_def split: if_split_asm)
    then show ?thesis using write_next_state(1) [OF s] by (auto simp: moves_on_same)
  qed
  show ?thesis
    by (auto simp: apply_discount_def Let_def in_transaction_def moves_on_same moves_on_ensure
        dest!: tx intro: moves_on_ensured split: sum.split)
qed

lemma request_confirmation_rows:
  "tb_rows (fst (request_confirmation T ws x n k)) = tb_rows T \<or>
   tb_rows (fst (request_confirmation T ws x n k)) = tb_rows (ensure_workspace T ws)"
  by (auto simp: request_confirmation_def Let_def in_transaction_def bind_result_Inr insert_confirmation_def
      split: sum.split if_splits)

lemma transition_rows: "tb_rows (fst (transition T ws k t a n m)) = tb_rows T"
proof (cases "snd (transition T ws k t a n m)")
  case (Inl e)
  then show ?thesis using transition_refused by metis
next
  case (Inr d)
  then have "transition T ws k t a n m = (fst (transition T ws k t a n m), Inr d)" by (metis prod.collapse)
  then show ?thesis by (rule transition_cases) (metis fst_conv set_confirmation_status_rows)
qed

lemma current_state_rows: "tb_rows T' = tb_rows T \<Longrightarrow> current_state T' ws = current_state T ws"
  by (simp add: current_state_def read_state_def)

lemma checkout_moves: "moves_on T (fst (checkout T ws k r n m i))"
proof -
  have tx: "moves_on U T2" if "checkout_transaction U ws k rid n m i = Inr (T2, out)" for U T2 rid out
    using that
  proof (cases rule: checkout_transaction_cases)
    case replay
    then show ?thesis by (simp add: moves_on_same)
  next
    case (ordered c s T1)
    have rows: "tb_rows T1 = tb_rows U"
      using set_confirmation_status_rows [of U ws "kc_id c" Co_Consumed Co_Approved True m] ordered(4) by simp
    have "current_state T1 ws = Inr s" using current_state_rows [OF rows] ordered(1) by simp
    then have "moves_on T1 (write_state T1 ws (ordered_state s i))"
      by (rule write_next_state(1)) (simp add: ordered_state_def)
    then have "moves_on T1 T2" using record_result_rows [OF ordered(5)] by (rule moves_on_rows)
    then show ?thesis using rows by (simp add: moves_on_def read_state_def)
  qed
  show ?thesis
    by (auto simp: checkout_def Let_def in_transaction_def moves_on_same moves_on_ensure
        dest!: tx intro: moves_on_ensured split: sum.split)
qed

subsection \<open>Every call\<close>

definition selects_scenario :: "store_call \<Rightarrow> bool" where
  "selects_scenario c \<longleftrightarrow> (case c of CallSelectScenario m p \<Rightarrow> True | _ \<Rightarrow> False)"

lemma serve_terminal: "\<not> selects_scenario c \<Longrightarrow> keeps_terminal T (fst (serve e ws c T))"
  by (cases c) (auto simp: selects_scenario_def Let_def keeps_terminal_same update_cart_confirmations
      apply_discount_confirmations request_confirmation_terminal checkout_terminal decide_confirmation_def
      cancel_confirmation_def terminal_statuses_def intro!: transition_terminal)

lemma serve_moves: "\<not> selects_scenario c \<Longrightarrow> moves_on T (fst (serve e ws c T))"
proof (cases c)
  case (CallRequestConfirmation n)
  then show ?thesis
    using request_confirmation_rows [of T ws n "ce_now e" "ce_fresh e"] moves_on_rows [OF moves_on_ensure]
    by (auto simp: moves_on_same)
qed (auto simp: selects_scenario_def Let_def moves_on_same moves_on_ensure update_cart_moves apply_discount_moves
    checkout_moves transition_rows decide_confirmation_def cancel_confirmation_def)

text \<open>Selecting a scenario touches only its own workspace.\<close>

lemma select_scenario_elsewhere:
  assumes "kc_workspace c \<noteq> ws" and "tb_confirmations T k = Some c"
  shows "tb_confirmations (fst (select_scenario T ws m p)) k = Some c"
  using assms by (auto simp: select_scenario_def write_scenario_def reset_store_workspace_def split: sum.split option.split)

lemma select_scenario_state_elsewhere:
  assumes "v \<noteq> ws"
  shows "read_state (fst (select_scenario T ws m p)) v = read_state T v"
  using assms by (auto simp: select_scenario_def write_scenario_def reset_store_workspace_def read_state_def
      ensure_workspace_def split: sum.split option.split)

subsection \<open>Retries\<close>

definition written :: "store_tables \<Rightarrow> pystr \<Rightarrow> store_state option \<Rightarrow> store_tables" where
  "written T ws x = (case x of None \<Rightarrow> T | Some n \<Rightarrow> write_state T ws n)"

definition updated_outcome :: "store_state \<Rightarrow> store_state option \<Rightarrow> mutation_outcome" where
  "updated_outcome s x = (let n = (case x of None \<Rightarrow> s | Some m \<Rightarrow> m) in
     \<lparr>mo_response = cart_response n (lit ''success''), mo_state = n, mo_replayed = False\<rparr>)"

lemma update_cart_transaction_cases:
  assumes "update_cart_transaction T ws rid p q = Inr (T', out)"
  obtains (replay) r s where "replay_or_claim T ws update_cart_tool rid (update_payload p q) = Inr (Some r)"
      and "current_state T ws = Inr s" and "\<not> injects (current_scenario T ws) DuplicateOnRetry"
      and "T' = T" and "out = \<lparr>mo_response = ir_response r, mo_state = s, mo_replayed = True\<rparr>"
  | (again) r s x where "replay_or_claim T ws update_cart_tool rid (update_payload p q) = Inr (Some r)"
      and "current_state T ws = Inr s" and "injects (current_scenario T ws) DuplicateOnRetry"
      and "apply_quantity s p q (current_scenario T ws) True = Inr x" and "T' = written T ws x"
      and "out = updated_outcome s x"
  | (first) s x where "replay_or_claim T ws update_cart_tool rid (update_payload p q) = Inr None"
      and "current_state T ws = Inr s" and "apply_quantity s p q (current_scenario T ws) False = Inr x"
      and "record_result (written T ws x) ws update_cart_tool rid (update_payload p q)
             (mo_response (updated_outcome s x)) (st_version (mo_state (updated_outcome s x))) = Inr T'"
      and "out = updated_outcome s x"
proof -
  obtain replayed where a: "replay_or_claim T ws update_cart_tool rid (update_payload p q) = Inr replayed"
    using assms unfolding update_cart_transaction_def bind_result_Inr by blast
  obtain s where b: "current_state T ws = Inr s"
    using assms unfolding update_cart_transaction_def a bind_result_simps bind_result_Inr by blast
  note u = assms [unfolded update_cart_transaction_def a b bind_result_simps Let_def]
  show thesis
  proof (cases replayed)
    case None
    obtain x where x: "apply_quantity s p q (current_scenario T ws) False = Inr x"
      using u [unfolded None option.case bind_result_Inr] by blast
    show thesis
      using u [unfolded None option.case x bind_result_simps bind_result_Inr]
      by (intro first [OF a [unfolded None] b x]) (auto simp: written_def updated_outcome_def Let_def)
  next
    case (Some r)
    show thesis
    proof (cases "injects (current_scenario T ws) DuplicateOnRetry")
      case False
      show thesis
        using u False by (intro replay [OF a [unfolded Some] b False]) (simp_all add: Some)
    next
      case True
      obtain x where x: "apply_quantity s p q (current_scenario T ws) True = Inr x"
        using u True by (auto simp: Some bind_result_Inr)
      show thesis
        using u True x
        by (intro again [OF a [unfolded Some] b True x]) (auto simp: Some written_def updated_outcome_def Let_def)
    qed
  qed
qed

lemma replay_or_claim_Some:
  "replay_or_claim T ws t rid p = Inr (Some r) \<longleftrightarrow>
     tb_records T (ws, t, rid) = Some r \<and> request_hash p = Inr (ir_request_hash r)"
  by (auto simp: replay_or_claim_def find_record_def bind_result_Inr split: option.splits if_splits)

lemma written_simps [simp]: "tb_records (written T ws x) = tb_records T"
  by (auto simp: written_def write_state_def split: option.splits)

lemma written_scenario [simp]: "current_scenario (written T ws x) ws = current_scenario T ws"
  by (auto simp: written_def write_state_def current_scenario_def read_scenario_def split: option.splits)

lemma update_cart_transaction_records:
  assumes "update_cart_transaction T ws rid p q = Inr (T', out)"
  obtains r where "tb_records T' (ws, update_cart_tool, rid) = Some r"
    and "request_hash (update_payload p q) = Inr (ir_request_hash r)"
    and "injects (current_scenario T ws) DuplicateOnRetry \<or> ir_response r = mo_response out"
    and "current_scenario T' ws = current_scenario T ws"
  using assms
proof (cases rule: update_cart_transaction_cases)
  case (replay r s)
  then show thesis by (intro that [of r]) (simp_all add: replay_or_claim_Some)
next
  case (again r s x)
  then show thesis by (intro that [of r]) (simp_all add: replay_or_claim_Some)
next
  case (first s x)
  then have rows: "tb_rows T' = tb_rows (written T ws x)" by (intro record_result_rows)
  have sc: "current_scenario T' ws = current_scenario T ws"
    using written_scenario [of T ws x] rows by (simp add: current_scenario_def read_scenario_def)
  from first(4) obtain h where "request_hash (update_payload p q) = Inr h"
    "tb_records T' (ws, update_cart_tool, rid) = Some \<lparr>ir_request_hash = h,
       ir_response = mo_response (updated_outcome s x), ir_state_version_after = st_version (mo_state (updated_outcome s x))\<rparr>"
    by (auto simp: record_result_def bind_result_Inr split: if_splits)
  then show thesis using sc first(5) by (intro that) auto
qed

lemma update_cart_transaction_replays:
  assumes "tb_records T (ws, update_cart_tool, rid) = Some r" and "request_hash (update_payload p q) = Inr (ir_request_hash r)"
    and "current_state T ws = Inr s" and "\<not> injects (current_scenario T ws) DuplicateOnRetry"
  shows "update_cart_transaction T ws rid p q =
     Inr (T, \<lparr>mo_response = ir_response r, mo_state = s, mo_replayed = True\<rparr>)"
  using assms by (simp add: update_cart_transaction_def replay_or_claim_Some [THEN iffD2])

lemma update_cart_transaction_refuses:
  assumes "tb_records T (ws, update_cart_tool, rid) = Some r"
    and "request_hash (update_payload p q) = Inr h" and "h \<noteq> ir_request_hash r"
  shows "update_cart_transaction T ws rid p q = Inl (Refused Store_IdempotencyKeyReused)"
  using assms by (simp add: update_cart_transaction_def replay_or_claim_def find_record_def)

lemma ensure_workspace_done: "tb_rows T ws = Some r \<Longrightarrow> ensure_workspace T ws = T"
  by (simp add: ensure_workspace_def read_state_def)

lemma transaction_row_kept:
  assumes "update_cart_transaction (ensure_workspace T ws) ws rid p q = Inr (T', out)"
  shows "\<exists>r. tb_rows T' ws = Some r"
proof -
  obtain r where "read_state (ensure_workspace T ws) ws = Some r"
    using ensured [of T ws] by (auto simp: read_state_def)
  then show ?thesis using update_cart_transaction_moves [OF assms] by (auto simp: moves_on_def read_state_def)
qed

subsection \<open>Runs\<close>

fun serve_all :: "(call_env \<times> pystr \<times> store_call) list \<Rightarrow> store_tables \<Rightarrow> store_tables" where
  "serve_all [] T = T"
| "serve_all ((e, ws, c) # cs) T = serve_all cs (fst (serve e ws c T))"

lemma serve_all_serves: "serves T \<Longrightarrow> serves (serve_all cs T)"
  by (induction cs T rule: serve_all.induct) (auto intro: served)

lemma serve_keeps_settled:
  assumes "tb_confirmations T k = Some c" and "kc_status c \<in> set terminal_statuses"
    and "selects_scenario x \<Longrightarrow> kc_workspace c \<noteq> ws"
  shows "tb_confirmations (fst (serve e ws x T)) k = Some c"
proof (cases "selects_scenario x")
  case True
  then obtain m p where "x = CallSelectScenario m p" by (cases x) (auto simp: selects_scenario_def)
  then show ?thesis using select_scenario_elsewhere [OF assms(3) [OF True] assms(1)] by simp
next
  case False
  then show ?thesis using serve_terminal [OF False] assms(1,2) by (simp add: keeps_terminal_def)
qed

lemma checkout_cases:
  assumes "checkout T ws v r n m i = (T', Inr out)"
  obtains rid where "validate_request_id r = Inr rid"
    and "checkout_transaction (ensure_workspace T ws) ws v rid n m i = Inr (T', out)"
  using assms by (auto simp: checkout_def Let_def in_transaction_def split: sum.splits prod.splits)

lemma update_cart_cases:
  assumes "update_cart T ws pid q r = (T', Inr out)"
  obtains rid p n where "validate_request_id r = Inr rid" and "require_product pid = Inr p"
    and "validate_quantity q = Inr n"
    and "update_cart_transaction (ensure_workspace T ws) ws rid p n = Inr (T', out)"
  using assms by (auto simp: update_cart_def Let_def in_transaction_def bind_result_Inr bind_result_def
      split: sum.splits prod.splits)

lemma update_cart_valid:
  assumes "validate_request_id r = Inr rid" and "require_product pid = Inr p" and "validate_quantity q = Inr n"
  shows "update_cart T ws pid q r =
     in_transaction (ensure_workspace T ws) (update_cart_transaction (ensure_workspace T ws) ws rid p n)"
  using assms by (simp add: update_cart_def Let_def)

lemma authorized:
  assumes "require_authorization c s n = Inr u"
  shows "kc_status c = Co_Approved" and "n < kc_expires_at c" and "state_binding_hash s = Inr (kc_state_binding_hash c)"
  using assms by (auto simp: require_authorization_def effective_status_def lapsing_statuses_def
      authorizing_statuses_def is_expired_def bind_result_Inr split: if_splits)

lemma find_confirmation_Some:
  "find_checkout_confirmation T ws k = Some c \<longleftrightarrow> tb_confirmations T k = Some c \<and> kc_workspace c = ws"
  by (auto simp: find_checkout_confirmation_def split: option.splits if_splits)

lemma required_confirmation:
  assumes "require_confirmation T ws v = Inr c"
  obtains k where "v = JStr k" and "tb_confirmations T k = Some c" and "kc_workspace c = ws"
  using assms by (auto simp: require_confirmation_def find_confirmation_Some split: json.splits option.splits if_splits)

lemma set_confirmation_status_done:
  assumes "set_confirmation_status T ws k s e b n = (T', True)"
  shows "\<exists>c. tb_confirmations T' k = Some c \<and> kc_status c = s"
  using assms by (auto simp: set_confirmation_status_def split: option.splits if_splits)

subsection \<open>Properties\<close>

text \<open>
  C36. In every state the store can reach the cart adds up: its lines are lines of the catalog with a
  quantity between 1 and 5, the subtotal is what the lines cost, the total is the subtotal less the
  discount, and an order is created exactly when it has an identifier.
\<close>

theorem store_state_adds_up:
  assumes "serves T" and "read_state T ws = Some s"
  shows "1 \<le> st_version s \<and>
    (\<forall>(key, l)\<in>set (ca_items (tg_cart (st_target s))).
       1 \<le> ln_quantity l \<and> ln_quantity l \<le> 5 \<and>
       (\<exists>p\<in>set catalog. pr_line_key p = key \<and> pr_product_id p = ln_product_id l)) \<and>
    distinct (map fst (ca_items (tg_cart (st_target s)))) \<and>
    ca_subtotal (tg_cart (st_target s)) = items_total (ca_items (tg_cart (st_target s))) \<and>
    ca_total (tg_cart (st_target s)) =
      ca_subtotal (tg_cart (st_target s)) - reduction_of (ca_discount (tg_cart (st_target s))) \<and>
    (od_created (tg_order (st_target s)) \<longleftrightarrow> od_order_id (tg_order (st_target s)) \<noteq> None)"
proof -
  have "stored_ok s" using serves_ok [OF assms(1)] assms(2) by (auto simp: tables_ok_def read_state_def)
  note ok = stored_okD [OF this]
  have lines: "1 \<le> ln_quantity l \<and> ln_quantity l \<le> 5 \<and>
       (\<exists>p\<in>set catalog. pr_line_key p = key \<and> pr_product_id p = ln_product_id l)"
    if "(key, l) \<in> set (ca_items (tg_cart (st_target s)))" for key l
  proof -
    have "line_ok l" "line_key_ok (key, l)" using that ok(2) by (auto simp: items_ok_def)
    then show ?thesis
      by (auto simp: line_ok_def line_key_ok_def max_line_quantity_def product_by_line_def find_Some_iff
          split: option.splits)
  qed
  have d: "distinct (map fst (ca_items (tg_cart (st_target s))))" using ok(2) by (simp add: items_ok_def)
  show ?thesis using lines d ok(1,4,6) by (auto simp: cart_ok_def order_ok_def)
qed

theorem store_state_adds_up_witness:
  "\<exists>s. read_state demo_updated demo_ws = Some s \<and> ca_items (tg_cart (st_target s)) \<noteq> [] \<and>
    ca_subtotal (tg_cart (st_target s)) = items_total (ca_items (tg_cart (st_target s)))"
proof -
  have "read_state demo_updated demo_ws = Some demo_state" by (simp add: read_state_def demo_updated_def)
  moreover have "ca_items (tg_cart (st_target demo_state)) \<noteq> []" by (simp add: demo_state_def demo_cart_def)
  ultimately show ?thesis using store_state_adds_up [OF demo_serves(1), of demo_ws demo_state] by blast
qed

text \<open>
  C37. On reachable tables every call that fails is refused by one of the store's own checks, is given
  a text that has no encoding, or is given an identifier that is already taken: no model validator, no
  missing discount, no amount and no assertion of the code ever raises.
\<close>

theorem store_errors_are_its_own:
  assumes "serves T" and "snd (serve e ws c T) = Inl x"
  shows "(\<exists>code. x = Refused code) \<or> (\<exists>y. x = EncodingRaised y) \<or> x = IntegrityRaised"
  using serve_well(2) [OF serves_ok [OF assms(1)] assms(2)] by (cases x) (auto simp: foreseen_def)

theorem store_errors_are_its_own_witness:
  "\<exists>x. snd (serve demo_env demo_ws (CallUpdateCart demo_product (JInt 9) (JStr demo_request)) demo_updated) = Inl x \<and>
     ((\<exists>code. x = Refused code) \<or> (\<exists>y. x = EncodingRaised y) \<or> x = IntegrityRaised)"
proof -
  have "snd (serve demo_env demo_ws (CallUpdateCart demo_product (JInt 9) (JStr demo_request)) demo_updated) =
      Inl (Refused Store_ValidationFailed)"
    by (simp add: reply_as_def update_cart_def demo_inputs validate_quantity_def max_line_quantity_def)
  then show ?thesis using store_errors_are_its_own [OF demo_serves(1)] by blast
qed

text \<open>
  C38. A checkout that answers with a new order has spent an approval: the confirmation was approved,
  of this workspace, not yet lapsed and bound to the hash of the very cart that is ordered; it is
  consumed now, and the state is the next version with the order and the same cart.
\<close>

theorem checkout_spends_one_approval:
  assumes "serves T" and "checkout T ws v r now stamp i = (T', Inr out)" and "\<not> mo_replayed out"
  shows "\<exists>k c s. v = JStr k \<and> tb_confirmations T k = Some c \<and> kc_workspace c = ws \<and>
    kc_status c = Co_Approved \<and> now < kc_expires_at c \<and>
    read_state (ensure_workspace T ws) ws = Some s \<and> state_binding_hash s = Inr (kc_state_binding_hash c) \<and>
    (\<exists>c'. tb_confirmations T' k = Some c' \<and> kc_status c' = Co_Consumed) \<and>
    (\<exists>s'. read_state T' ws = Some s' \<and> st_version s' = st_version s + 1 \<and>
       od_order_id (tg_order (st_target s')) = Some i \<and>
       cart_document (tg_cart (st_target s')) = cart_document (tg_cart (st_target s)))"
proof -
  obtain rid where tx: "checkout_transaction (ensure_workspace T ws) ws v rid now stamp i = Inr (T', out)"
    using checkout_cases [OF assms(2)] by blast
  from tx show ?thesis
  proof (cases rule: checkout_transaction_cases)
    case replay
    then show ?thesis using assms(3) by simp
  next
    case (ordered c s T1)
    obtain k where k: "v = JStr k" "tb_confirmations T k = Some c" "kc_workspace c = ws"
      using required_confirmation [OF ordered(2)] by auto
    have id: "kc_id c = k" using serves_ok [OF assms(1)] k(2) by (simp add: tables_ok_def)
    note a = authorized [OF ordered(3)]
    have s: "read_state (ensure_workspace T ws) ws = Some s"
      using ordered(1) by (simp add: current_state_def split: option.splits)
    have spent: "\<exists>c'. tb_confirmations T' k = Some c' \<and> kc_status c' = Co_Consumed"
      using set_confirmation_status_done [OF ordered(4)] record_result_confirmations [OF ordered(5)] id by auto
    have rows: "tb_rows T1 = tb_rows (ensure_workspace T ws)"
      using set_confirmation_status_rows [of "ensure_workspace T ws" ws "kc_id c" Co_Consumed Co_Approved True stamp]
        ordered(4) by simp
    have "current_state T1 ws = Inr s" using current_state_rows [OF rows] ordered(1) by simp
    then have "read_state (write_state T1 ws (ordered_state s i)) ws = Some (in_key_order (ordered_state s i))"
      by (rule write_next_state(2)) (simp add: ordered_state_def)
    then have "read_state T' ws = Some (in_key_order (ordered_state s i))"
      using record_result_rows [OF ordered(5)] by (simp add: read_state_def)
    then show ?thesis using k a s spent
      by (auto simp: in_key_order_def ordered_state_def cart_document_def)
  qed
qed

theorem checkout_spends_one_approval_witness:
  "\<exists>T' out c'. checkout demo_approved demo_ws (JStr (lit ''c1'')) (JStr demo_request) 0 7 (lit ''o1'') = (T', Inr out) \<and>
     tb_confirmations T' (lit ''c1'') = Some c' \<and> kc_status c' = Co_Consumed"
proof -
  obtain T' out where "checkout demo_approved demo_ws (JStr (lit ''c1'')) (JStr demo_request) 0 7 (lit ''o1'') = (T', Inr out)"
    "\<not> mo_replayed out"
    using demo_checkout by blast
  then show ?thesis using checkout_spends_one_approval [OF demo_serves(2)] by blast
qed

text \<open>
  C39. A confirmation that was denied, cancelled, expired or consumed stays so through any calls that
  do not reset its workspace, and no checkout with it then answers with a new order.
\<close>

theorem settled_confirmations_stay:
  assumes "tb_confirmations T k = Some c" and "kc_status c \<in> set terminal_statuses"
    and "\<forall>(e, ws, x)\<in>set cs. selects_scenario x \<longrightarrow> ws \<noteq> kc_workspace c"
  shows "tb_confirmations (serve_all cs T) k = Some c \<and>
    (\<forall>ws r now stamp i T' out. checkout (serve_all cs T) ws (JStr k) r now stamp i = (T', Inr out) \<longrightarrow>
       mo_replayed out)"
proof -
  have kept: "tb_confirmations (serve_all cs T) k = Some c"
    using assms
  proof (induction cs T rule: serve_all.induct)
    case (2 e ws x cs T)
    then have "tb_confirmations (fst (serve e ws x T)) k = Some c" by (intro serve_keeps_settled) auto
    then show ?case using 2 by simp
  qed simp
  have "mo_replayed out"
    if co: "checkout (serve_all cs T) ws (JStr k) r now stamp i = (T', Inr out)" for ws r now stamp i T' out
  proof -
    obtain rid where "checkout_transaction (ensure_workspace (serve_all cs T) ws) ws (JStr k) rid now stamp i = Inr (T', out)"
      using checkout_cases [OF co] by blast
    then show ?thesis
    proof (cases rule: checkout_transaction_cases)
      case (ordered d s T1)
      have "tb_confirmations (serve_all cs T) k = Some d" using required_confirmation [OF ordered(2)] by auto
      then have "kc_status c = Co_Approved" using kept authorized(1) [OF ordered(3)] by simp
      then show ?thesis using assms(2) by (simp add: terminal_statuses_def)
    qed simp
  qed
  then show ?thesis using kept by blast
qed

theorem settled_confirmations_stay_witness:
  "tb_confirmations (serve_all [(demo_env, demo_ws, CallUpdateCart demo_product (JInt 2) (JStr demo_request)),
       (demo_env, lit ''other'', CallSelectScenario (JStr (lit ''pre_fix'')) (JStr (lit ''none'')))]
     (demo_approved\<lparr>tb_confirmations := [lit ''c1'' \<mapsto> demo_confirmation\<lparr>kc_status := Co_Denied\<rparr>]\<rparr>)) (lit ''c1'') =
   Some (demo_confirmation\<lparr>kc_status := Co_Denied\<rparr>)"
  by (rule settled_confirmations_stay [THEN conjunct1])
    (simp_all add: terminal_statuses_def selects_scenario_def demo_confirmation_def demo_ws_def)

text \<open>
  A call leaves the state of a workspace alone or replaces it by the state of the next version,
  unless it selects_scenario a scenario for that workspace.
\<close>

theorem versions_move_with_the_state:
  assumes "read_state T v = Some s" and "selects_scenario c \<longrightarrow> v \<noteq> ws"
  shows "\<exists>s'. read_state (fst (serve e ws c T)) v = Some s' \<and> (s' = s \<or> st_version s' = st_version s + 1)"
proof (cases "selects_scenario c")
  case True
  then obtain m p where "c = CallSelectScenario m p" by (cases c) (auto simp: selects_scenario_def)
  then show ?thesis using select_scenario_state_elsewhere [of v ws T m p] assms True by simp
next
  case False
  then show ?thesis using serve_moves [OF False, of T e ws] assms(1) by (simp add: moves_on_def)
qed

theorem versions_move_with_the_state_witness:
  "\<exists>s'. read_state (fst (serve demo_env demo_ws (CallCancel (JStr (lit ''c1''))) demo_asked)) demo_ws = Some s' \<and>
     (s' = demo_state \<or> st_version s' = st_version demo_state + 1)"
  by (rule versions_move_with_the_state)
    (simp_all add: read_state_def demo_asked_def demo_updated_def selects_scenario_def)



text \<open>
  With the fault \<open>discount_reported_but_not_applied\<close> injected, applying an allowlisted code changes
  no table and yet answers with a cart that carries the discount.
\<close>

theorem discount_fault_lies:
  assumes "serves T" and "injects (current_scenario T ws) DiscountReportedButNotApplied"
    and "require_discount v = Inr code"
  shows "\<exists>s c. read_state T ws = Some s \<and> ca_items c = ca_items (tg_cart (st_target s)) \<and>
    map_option dc_code (ca_discount c) = Some code \<and>
    apply_discount T ws v = (T, Inr \<lparr>mo_response = [(lit ''status'', JStr (lit ''success'')),
        (lit ''state_version'', JInt (st_version s)), (lit ''cart'', cart_document c)],
      mo_state = s, mo_replayed = False\<rparr>)"
proof -
  obtain row where row: "tb_rows T ws = Some row"
    using assms(2) by (auto simp: current_scenario_def read_scenario_def injects_def fault_active_def
        default_scenario_def split: option.splits)
  let ?s = "rw_state row"
  have ok: "stored_ok ?s" using serves_ok [OF assms(1)] row by (simp add: tables_ok_def)
  have "code_ok (Some code)"
    using assms(3) by (auto simp: require_discount_def code_ok_def split: json.splits option.splits)
  then obtain c where c: "build_cart (ca_items (tg_cart (st_target ?s))) (Some code) = Inr c"
      "ca_items c = ca_items (tg_cart (st_target ?s))" "map_option dc_code (ca_discount c) = Some code"
    using build_cart_total [OF stored_okD(2) [OF ok]] by blast
  have "current_state T ws = Inr ?s" using row by (simp add: current_state_def read_state_def)
  then have "apply_discount_transaction T ws code = Inr (T, \<lparr>mo_response = [(lit ''status'', JStr (lit ''success'')),
        (lit ''state_version'', JInt (st_version ?s)), (lit ''cart'', cart_document c)],
      mo_state = ?s, mo_replayed = False\<rparr>)"
    using assms(2) c(1) by (simp add: apply_discount_transaction_def)
  then show ?thesis using row c ensure_workspace_done [OF row] assms(3)
    by (auto simp: apply_discount_def in_transaction_def read_state_def)
qed

theorem discount_fault_lies_witness:
  "\<exists>T out. serves T \<and> apply_discount T demo_ws (JStr (lit ''SAVE20'')) = (T, Inr out)"
proof -
  let ?c = "CallSelectScenario (JStr (lit ''pre_fix'')) (JStr (lit ''discount_reported_but_not_applied''))"
  let ?s = "\<lparr>sc_mode = PreFix, sc_profile = DiscountReportedButNotApplied\<rparr>"
  have inputs: "require_mode (JStr (lit ''pre_fix'')) = Inr PreFix"
    "require_profile (JStr (lit ''discount_reported_but_not_applied'')) = Inr DiscountReportedButNotApplied"
    "require_discount (JStr (lit ''SAVE20'')) = Inr (lit ''SAVE20'')"
    by code_simp+
  have T: "fst (serve demo_env demo_ws ?c empty_store_tables) =
      empty_store_tables\<lparr>tb_rows := [demo_ws \<mapsto> \<lparr>rw_state = empty_state, rw_scenario = ?s\<rparr>]\<rparr>" (is "_ = ?T")
    by (auto simp: select_scenario_def inputs reset_store_workspace_def ensure_workspace_def read_state_def
        write_scenario_def empty_store_tables_def intro!: ext)
  have "serves (fst (serve demo_env demo_ws ?c empty_store_tables))" by (intro served opened)
  then have s: "serves ?T" by (simp only: T)
  have "injects (current_scenario ?T demo_ws) DiscountReportedButNotApplied"
    by (simp add: current_scenario_def read_scenario_def injects_def fault_active_def)
  then show ?thesis using discount_fault_lies [OF s _ inputs(3)] s by blast
qed

end
