(* ===== verification/Comparison.thy ===== *)
theory Comparison
  imports Lifecycle Canonical Vocabulary Diff
begin

section \<open>Comparison of two runs\<close>

text \<open>
  \<open>reports/comparison.py\<close>: when two terminated runs are one experiment with one thing varied, and what
  the comparison then says of their critical failures. The prose of a reason is a parameter of the
  document; a reason is the condition that produced it.
\<close>

record comparable_run =
  cp_run_id :: pystr
  cp_status :: run_state
  cp_scenario_mode :: pystr
  cp_fault_active :: bool
  cp_target_id :: pystr
  cp_adapter_id :: pystr
  cp_contract_content_hash :: "pystr option"
  cp_fixture_content_hash :: "pystr option"
  cp_intent_content_hash :: "pystr option"
  cp_failure_profile :: "pystr option"
  cp_implementation_version :: pystr
  cp_build_commit :: "pystr option"
  cp_trajectory :: "pystr list"
  cp_overall_result :: "layer_result option"
  cp_critical_classifications :: "failure_classification list"

definition comparison_key_fields :: "pystr list" where
  "comparison_key_fields =
     [lit ''target_id'', lit ''adapter_id'', lit ''contract_content_hash'', lit ''fixture_content_hash'',
      lit ''intent_content_hash'', lit ''failure_profile'', lit ''implementation_version'', lit ''build_commit'']"

definition compared_inputs :: "comparable_run \<Rightarrow> jobject" where
  "compared_inputs r =
     [(lit ''target_id'', JStr (cp_target_id r)), (lit ''adapter_id'', JStr (cp_adapter_id r)),
      (lit ''contract_content_hash'', opt_str (cp_contract_content_hash r)),
      (lit ''fixture_content_hash'', opt_str (cp_fixture_content_hash r)),
      (lit ''intent_content_hash'', opt_str (cp_intent_content_hash r)),
      (lit ''failure_profile'', opt_str (cp_failure_profile r)),
      (lit ''implementation_version'', JStr (cp_implementation_version r)),
      (lit ''build_commit'', opt_str (cp_build_commit r))]"

definition comparison_key :: "comparable_run \<Rightarrow> canon_error + pystr" where
  "comparison_key r = content_hash (JObj (compared_inputs r))"

definition run_summary :: "comparable_run \<Rightarrow> canon_error + jobject" where
  "run_summary r = bind_result (comparison_key r) (\<lambda>key. Inr
     [(lit ''run_id'', JStr (cp_run_id r)), (lit ''status'', JStr (run_state_value (cp_status r))),
      (lit ''scenario_mode'', JStr (cp_scenario_mode r)), (lit ''fault_active'', JBool (cp_fault_active r)),
      (lit ''implementation_version'', JStr (cp_implementation_version r)),
      (lit ''build_commit'', opt_str (cp_build_commit r)),
      (lit ''overall_result'', opt_str (map_option layer_result_value (cp_overall_result r))),
      (lit ''critical_classifications'',
         JArr (map (JStr \<circ> failure_classification_value) (cp_critical_classifications r))),
      (lit ''comparison_key_hash'', JStr key)])"

datatype incomparable_reason =
    SourceRunning | CandidateRunning | NothingVaried | ControlledInputDiffers | TrajectoryDiffers

record comparison_result =
  cr_comparable :: bool
  cr_differing_fields :: "pystr list"
  cr_reason :: "incomparable_reason list"
  cr_source :: jobject
  cr_candidate :: jobject
  cr_resolved :: "pystr list option"
  cr_introduced :: "pystr list option"

definition comparison_document :: "(incomparable_reason list \<Rightarrow> pystr) \<Rightarrow> comparison_result \<Rightarrow> jobject" where
  "comparison_document prose r =
     [(lit ''comparable'', JBool (cr_comparable r)), (lit ''source'', JObj (cr_source r)),
      (lit ''candidate'', JObj (cr_candidate r))] @
     (if cr_comparable r then
        [(lit ''resolved_classifications'', JArr (map JStr (case cr_resolved r of None \<Rightarrow> [] | Some xs \<Rightarrow> xs))),
         (lit ''introduced_classifications'', JArr (map JStr (case cr_introduced r of None \<Rightarrow> [] | Some xs \<Rightarrow> xs)))]
      else [(lit ''differing_fields'', JArr (map JStr (cr_differing_fields r))),
            (lit ''reason'', JStr (prose (cr_reason r)))])"

definition differing_inputs :: "comparable_run \<Rightarrow> comparable_run \<Rightarrow> pystr list" where
  "differing_inputs s c =
     filter (\<lambda>f. map_of (compared_inputs s) f \<noteq> map_of (compared_inputs c) f) comparison_key_fields"

definition differing_fields :: "comparable_run \<Rightarrow> comparable_run \<Rightarrow> pystr list" where
  "differing_fields s c =
     (if \<not> is_terminal run_transitions (cp_status s) then [lit ''source.status''] else []) @
     (if \<not> is_terminal run_transitions (cp_status c) then [lit ''candidate.status''] else []) @
     (if cp_scenario_mode s = cp_scenario_mode c then [lit ''scenario_mode''] else []) @
     differing_inputs s c @
     (if cp_trajectory s \<noteq> cp_trajectory c then [lit ''trajectory''] else [])"

definition incomparable_reasons :: "comparable_run \<Rightarrow> comparable_run \<Rightarrow> incomparable_reason list" where
  "incomparable_reasons s c =
     (if \<not> is_terminal run_transitions (cp_status s) then [SourceRunning] else []) @
     (if \<not> is_terminal run_transitions (cp_status c) then [CandidateRunning] else []) @
     (if cp_scenario_mode s = cp_scenario_mode c then [NothingVaried] else []) @
     (if differing_inputs s c \<noteq> [] then [ControlledInputDiffers] else []) @
     (if cp_trajectory s \<noteq> cp_trajectory c then [TrajectoryDiffers] else [])"

text \<open>No name and no reason appears twice in what \<open>dict.fromkeys\<close> is given, so it changes nothing.\<close>

definition only_in :: "comparable_run \<Rightarrow> comparable_run \<Rightarrow> pystr list" where
  "only_in a b = map failure_classification_value
     (filter (\<lambda>x. x \<notin> set (cp_critical_classifications b)) (cp_critical_classifications a))"

definition compare_runs :: "comparable_run \<Rightarrow> comparable_run \<Rightarrow> canon_error + comparison_result" where
  "compare_runs s c =
     bind_result (run_summary s) (\<lambda>source. bind_result (run_summary c) (\<lambda>candidate. Inr
       (if differing_fields s c \<noteq> [] then
          \<lparr>cr_comparable = False, cr_differing_fields = differing_fields s c,
           cr_reason = incomparable_reasons s c, cr_source = source, cr_candidate = candidate,
           cr_resolved = None, cr_introduced = None\<rparr>
        else
          \<lparr>cr_comparable = True, cr_differing_fields = [], cr_reason = [], cr_source = source,
           cr_candidate = candidate, cr_resolved = Some (only_in s c), cr_introduced = Some (only_in c s)\<rparr>)))"

lemma differing_names_distinct: "distinct (differing_fields s c)"
proof -
  have "distinct comparison_key_fields" by (simp add: comparison_key_fields_def)
  then have "distinct (differing_inputs s c)" by (simp add: differing_inputs_def)
  moreover have "set (differing_inputs s c) \<subseteq> set comparison_key_fields" by (auto simp: differing_inputs_def)
  moreover have "lit ''source.status'' \<notin> set comparison_key_fields" "lit ''candidate.status'' \<notin> set comparison_key_fields"
    "lit ''scenario_mode'' \<notin> set comparison_key_fields" "lit ''trajectory'' \<notin> set comparison_key_fields"
    by (simp_all add: comparison_key_fields_def)
  ultimately show ?thesis by (auto simp: differing_fields_def)
qed

lemma differing_reasons_distinct: "distinct (incomparable_reasons s c)"
  by (auto simp: incomparable_reasons_def)

lemma opt_str_inject [simp]: "opt_str a = opt_str b \<longleftrightarrow> a = b"
  by (auto simp: opt_str_def split: option.splits)

lemma differing_inputs_Nil: "differing_inputs s c = [] \<longleftrightarrow> compared_inputs s = compared_inputs c"
  by (simp add: differing_inputs_def comparison_key_fields_def compared_inputs_def)

text \<open>
  C24. Two runs are compared exactly when both have terminated, in different scenario modes, over equal
  controlled inputs and with equal tool calls. A comparable pair shares its comparison key, and the
  comparison lists exactly the critical failures of the one that the other does not have; an
  incomparable pair names at least one difference and gives a reason.
\<close>

theorem comparison_verdict:
  assumes "compare_runs s c = Inr r"
  shows "(cr_comparable r \<longleftrightarrow>
      is_terminal run_transitions (cp_status s) \<and> is_terminal run_transitions (cp_status c) \<and>
      cp_scenario_mode s \<noteq> cp_scenario_mode c \<and> compared_inputs s = compared_inputs c \<and>
      cp_trajectory s = cp_trajectory c) \<and>
    (if cr_comparable r then
       comparison_key s = comparison_key c \<and>
       (\<exists>fixed broken. cr_resolved r = Some fixed \<and> cr_introduced r = Some broken \<and>
          set fixed = failure_classification_value `
            (set (cp_critical_classifications s) - set (cp_critical_classifications c)) \<and>
          set broken = failure_classification_value `
            (set (cp_critical_classifications c) - set (cp_critical_classifications s)) \<and>
          set fixed \<inter> set broken = {})
     else cr_differing_fields r \<noteq> [] \<and> cr_reason r \<noteq> [] \<and> distinct (cr_differing_fields r))"
proof -
  have none: "differing_fields s c = [] \<longleftrightarrow>
      is_terminal run_transitions (cp_status s) \<and> is_terminal run_transitions (cp_status c) \<and>
      cp_scenario_mode s \<noteq> cp_scenario_mode c \<and> compared_inputs s = compared_inputs c \<and>
      cp_trajectory s = cp_trajectory c"
    using differing_inputs_Nil by (auto simp: differing_fields_def)
  have reasons: "incomparable_reasons s c = [] \<longleftrightarrow> differing_fields s c = []"
    by (simp add: incomparable_reasons_def differing_fields_def)
  have sets: "set (only_in a b) = failure_classification_value `
      (set (cp_critical_classifications a) - set (cp_critical_classifications b))" for a b
    by (auto simp: only_in_def)
  have disjoint: "set (only_in s c) \<inter> set (only_in c s) = {}"
    unfolding sets by (auto simp: failure_classification_value_inject)
  show ?thesis
  proof (cases "differing_fields s c = []")
    case True
    then have r: "cr_comparable r" "cr_resolved r = Some (only_in s c)" "cr_introduced r = Some (only_in c s)"
      using assms by (auto simp: compare_runs_def bind_result_Inr)
    have "comparison_key s = comparison_key c" using True none by (simp add: comparison_key_def)
    then show ?thesis using r sets disjoint True none by simp
  next
    case False
    then have r: "\<not> cr_comparable r" "cr_differing_fields r = differing_fields s c"
        "cr_reason r = incomparable_reasons s c"
      using assms by (auto simp: compare_runs_def bind_result_Inr)
    then show ?thesis using False none reasons differing_names_distinct by simp
  qed
qed

definition demo_run :: "pystr \<Rightarrow> failure_classification list \<Rightarrow> comparable_run" where
  "demo_run mode critical =
     \<lparr>cp_run_id = mode, cp_status = (if critical = [] then Run_Passed else Run_Failed), cp_scenario_mode = mode,
      cp_fault_active = (critical \<noteq> []), cp_target_id = lit ''store'', cp_adapter_id = lit ''demo'',
      cp_contract_content_hash = None, cp_fixture_content_hash = None, cp_intent_content_hash = None,
      cp_failure_profile = None, cp_implementation_version = lit ''1'', cp_build_commit = None,
      cp_trajectory = [lit ''update_cart''], cp_overall_result = None,
      cp_critical_classifications = critical\<rparr>"

definition encodable :: "pystr \<Rightarrow> bool" where
  "encodable s \<longleftrightarrow> (\<forall>c\<in>set s. \<not> is_surrogate c)"

definition flat_value :: "json \<Rightarrow> bool" where
  "flat_value v \<longleftrightarrow> v = JNull \<or> (\<exists>s. v = JStr s \<and> encodable s)"

text \<open>An object of texts that have an encoding has a content hash.\<close>

lemma flat_hash_total:
  assumes "\<forall>kv\<in>set kvs. encodable (fst kv) \<and> flat_value (snd kv)"
  shows "\<exists>h. content_hash (JObj kvs) = Inr h"
proof -
  have "\<exists>y. bind_result (encode_json 1 (snd kv)) (\<lambda>v. bind_result (encode_string (fst kv)) (\<lambda>k. Inr (k @ [58] @ v))) = Inr y"
    if "kv \<in> set (sort_key member_key kvs)" for kv
    using that assms by (auto simp: flat_value_def encodable_def encode_string_def max_canonical_depth_def)
  then obtain ms where "map_result (\<lambda>kv. bind_result (encode_json 1 (snd kv)) (\<lambda>v.
      bind_result (encode_string (fst kv)) (\<lambda>k. Inr (k @ [58] @ v)))) (sort_key member_key kvs) = Inr ms"
    using map_result_exists by (metis (no_types, lifting))
  then show ?thesis by (simp add: content_hash_def canonicalize_def canonical_text_def max_canonical_depth_def)
qed

theorem comparison_verdict_witness:
  "\<exists>r. compare_runs (demo_run (lit ''pre_fix'') [Fc_IdempotencyViolation]) (demo_run (lit ''post_fix'') []) = Inr r \<and>
     cr_comparable r"
proof -
  let ?s = "demo_run (lit ''pre_fix'') [Fc_IdempotencyViolation]" and ?c = "demo_run (lit ''post_fix'') []"
  have "\<exists>k. comparison_key (demo_run m x) = Inr k" for m x
  proof -
    have "\<forall>kv\<in>set (compared_inputs (demo_run m x)). encodable (fst kv) \<and> flat_value (snd kv)"
      by (simp add: compared_inputs_def demo_run_def flat_value_def encodable_def opt_str_def lit_def is_surrogate_def)
    then show ?thesis unfolding comparison_key_def by (rule flat_hash_total)
  qed
  then obtain k l where "comparison_key ?s = Inr k" "comparison_key ?c = Inr l" by blast
  then obtain r where r: "compare_runs ?s ?c = Inr r" by (simp add: compare_runs_def run_summary_def)
  have "is_terminal run_transitions (cp_status ?s)" "is_terminal run_transitions (cp_status ?c)"
    "cp_scenario_mode ?s \<noteq> cp_scenario_mode ?c" "compared_inputs ?s = compared_inputs ?c"
    "cp_trajectory ?s = cp_trajectory ?c"
    by (simp_all add: demo_run_def is_terminal_def compared_inputs_def)
  then show ?thesis using comparison_verdict [OF r] r by blast
qed

end
