(* ===== verification/Evals.thy ===== *)
theory Evals
  imports Contracts Redaction
begin

section \<open>Regression evals: fixtures, trajectories, decisions\<close>

text \<open>
  What a failed run is cut down to when it becomes a regression case: \<open>evals/minimize.py\<close>,
  \<open>evals/interaction.py\<close> and \<open>evals/substitution.py\<close>.
\<close>

subsection \<open>The fixture\<close>

definition target_prefix :: pystr where "target_prefix = lit ''target.''"

definition requires_complete_state :: "outcome_contract \<Rightarrow> bool" where
  "requires_complete_state c \<longleftrightarrow> (\<exists>p\<in>set (oc_policies c). policy_kind p = Pt_NoUndeclaredChanges)"

definition contract_paths :: "outcome_contract \<Rightarrow> observation_path list" where
  "contract_paths c = map as_path (oc_assertions c) @ map pc_path (oc_preconditions c)"

definition root_of :: "pystr \<Rightarrow> pystr option" where
  "root_of t =
     (if starts_with target_prefix t then
        (let remainder = drop (length target_prefix) t; root = hd (split_on 91 (hd (split_on 46 remainder)))
         in if root = [] then None else Some root)
      else None)"

definition referenced_roots :: "outcome_contract \<Rightarrow> pystr list" where
  "referenced_roots c = List.map_filter (\<lambda>p. root_of (path_str p)) (contract_paths c)"

definition minimize_fixture :: "jobject \<Rightarrow> outcome_contract \<Rightarrow> jobject \<times> bool" where
  "minimize_fixture state c =
     (if requires_complete_state c then (state, True)
      else
        let roots = referenced_roots c in
        if roots = [] then (state, True)
        else
          let kept = filter (\<lambda>kv. fst kv \<in> set roots) state in
          if kept = [] then (state, True)
          else (kept, set (map fst kept) = set (map fst state)))"

lemma starts_with_append: "starts_with xs (xs @ ys)"
  by (simp add: starts_with_prefix)

lemma root_of_path:
  assumes "segments p = lit ''target'' # s # rest" and "\<forall>x\<in>set (segments p). segment_body x"
  shows "root_of (path_str p) = Some s"
proof -
  have no_dot: "46 \<notin> set x" and no_bracket: "91 \<notin> set x" if "segment_body x" for x
    using segment_body_chars [OF that, of 46] segment_body_chars [OF that, of 91]
    by (auto simp: is_letter_def is_digit_def)
  have str: "path_str p = target_prefix @ join_with 46 (s # rest)"
    using assms(1) by (simp add: path_str_def target_prefix_def lit_def)
  have ok: "\<forall>x\<in>set (s # rest). 46 \<notin> set x" using assms no_dot by auto
  have "split_on 46 (join_with 46 (s # rest)) = s # rest" by (rule split_join_with [OF _ ok]) simp
  moreover have "split_on 91 s = [s]" using assms no_bracket by (intro split_on_no_sep) auto
  moreover have "s \<noteq> []" using assms by auto
  ultimately show ?thesis
    using starts_with_append [of target_prefix] by (simp add: root_of_def str)
qed

lemma map_of_filter_keys: "k \<in> S \<Longrightarrow> map_of (filter (\<lambda>kv. fst kv \<in> S) xs) k = map_of xs k"
  by (induction xs) auto

text \<open>
  C25. The fixture a regression case keeps answers every assertion and precondition of the contract as
  the full state did, except one on the whole target, and it is part of that state; it is called
  complete exactly when no top-level key was dropped.
\<close>

theorem minimized_fixture_answers:
  assumes "minimize_fixture state c = (kept, whole)"
    and "p \<in> as_path ` set (oc_assertions c) \<union> pc_path ` set (oc_preconditions c)"
    and "wf_path p" and "segments p \<noteq> [lit ''target'']"
  shows "resolve p ((lit ''target'', JObj kept) # ctx) = resolve p ((lit ''target'', JObj state) # ctx) \<and>
    set kept \<subseteq> set state \<and> (whole \<longleftrightarrow> set (map fst kept) = set (map fst state))"
proof -
  have p: "p \<in> set (contract_paths c)" using assms(2) by (auto simp: contract_paths_def)
  have body: "\<forall>x\<in>set (segments p). segment_body x" and nonempty: "segments p \<noteq> []"
    using assms(3) by (simp_all add: wf_path_def)
  have same: "map_of kept s = map_of state s" if "segments p = lit ''target'' # s # rest" for s rest
  proof -
    have "s \<in> set (referenced_roots c)"
      using root_of_path [OF that body] p
      by (auto simp: referenced_roots_def map_filter_def intro!: image_eqI [of _ _ p])
    then show ?thesis using assms(1)
      by (auto simp: minimize_fixture_def Let_def map_of_filter_keys split: if_splits)
  qed
  have "resolve p ((lit ''target'', JObj kept) # ctx) = resolve p ((lit ''target'', JObj state) # ctx)"
  proof (cases "segments p")
    case (Cons a as)
    show ?thesis
    proof (cases "a = lit ''target''")
      case True
      then obtain s rest where "as = s # rest" using Cons assms(4) by (cases as) auto
      then show ?thesis using True Cons same by (simp add: resolve_def)
    qed (simp add: Cons resolve_def)
  qed (use nonempty in simp)
  moreover have "set kept \<subseteq> set state \<and> (whole \<longleftrightarrow> set (map fst kept) = set (map fst state))"
    using assms(1) unfolding minimize_fixture_def Let_def by (auto simp del: set_map split: if_split_asm)
  ultimately show ?thesis by blast
qed

theorem minimized_fixture_answers_witness:
  "\<exists>c. resolve (Path [lit ''target'', lit ''cart'']) [(lit ''target'', JObj [(lit ''cart'', JInt 1)])] =
     resolve (Path [lit ''target'', lit ''cart''])
       [(lit ''target'', JObj [(lit ''cart'', JInt 1), (lit ''order'', JNull)])] \<and>
     minimize_fixture [(lit ''cart'', JInt 1), (lit ''order'', JNull)] c = ([(lit ''cart'', JInt 1)], False)"
proof -
  let ?p = "Path [lit ''target'', lit ''cart'']"
  define c :: outcome_contract where "c = \<lparr>oc_schema_version = [], oc_name = [], oc_target_id = [], oc_intent = [],
    oc_description = [], oc_preconditions = [\<lparr>pc_path = ?p, pc_operator = Op_Equals, pc_value = Some (JInt 1)\<rparr>],
    oc_expected_tools = None, oc_assertions = [], oc_policies = [], oc_redaction = None\<rparr>"
  have body: "\<forall>x\<in>set (segments ?p). segment_body x" by (simp add: lit_def is_letter_def)
  have "referenced_roots c = [lit ''cart'']"
    using root_of_path [OF _ body] by (simp add: referenced_roots_def contract_paths_def c_def List.map_filter_def)
  then have m: "minimize_fixture [(lit ''cart'', JInt 1), (lit ''order'', JNull)] c = ([(lit ''cart'', JInt 1)], False)"
    by (simp add: minimize_fixture_def Let_def requires_complete_state_def c_def)
  have "?p \<in> as_path ` set (oc_assertions c) \<union> pc_path ` set (oc_preconditions c)" by (simp add: c_def)
  moreover have "wf_path ?p" using body by (simp add: wf_path_def path_str_def max_observation_path_length_def)
  ultimately have "resolve ?p [(lit ''target'', JObj [(lit ''cart'', JInt 1)])] =
      resolve ?p [(lit ''target'', JObj [(lit ''cart'', JInt 1), (lit ''order'', JNull)])]"
    using minimized_fixture_answers [OF m, of ?p "[]"] by simp
  then show ?thesis using m by blast
qed

text \<open>A path that is only \<open>target\<close> has no root, so it keeps nothing of the state in the fixture.\<close>

lemma whole_target_has_no_root: "root_of (path_str (Path [lit ''target''])) = None"
  by (simp add: root_of_def path_str_def target_prefix_def lit_def)

subsection \<open>The trajectory\<close>

text \<open>A step is its sequence number, its tool and its arguments; only some policies have a tool.\<close>

type_synonym replay_step = "nat \<times> pystr \<times> jobject"

fun policed_tool :: "policy \<Rightarrow> pystr" where
  "policed_tool (RequiresConfirmation t n) = t"
| "policed_tool (Idempotency t) = t"
| "policed_tool (ForbiddenTool t) = t"
| "policed_tool p = []"

definition expected_calls :: "outcome_contract \<Rightarrow> pystr list" where
  "expected_calls c = (case oc_expected_tools c of None \<Rightarrow> [] | Some e \<Rightarrow> et_calls e)"

definition policed_tools :: "outcome_contract \<Rightarrow> pystr list" where
  "policed_tools c = filter (\<lambda>t. t \<noteq> []) (map policed_tool (oc_policies c))"

definition last_mutation :: "replay_step list \<Rightarrow> pystr list \<Rightarrow> int" where
  "last_mutation steps read_only =
     (let positions = map fst (filter (\<lambda>(i, _, tool, _). tool \<notin> set read_only) (enumerate 0 steps))
      in if positions = [] then - 1 else int (Max (set positions)))"

definition droppable :: "replay_step list \<Rightarrow> outcome_contract \<Rightarrow> pystr list \<Rightarrow> nat \<Rightarrow> pystr \<Rightarrow> bool" where
  "droppable steps c read_only i tool \<longleftrightarrow>
     tool \<in> set read_only \<and> tool \<notin> set (expected_calls c) \<and> tool \<notin> set (policed_tools c) \<and>
     last_mutation steps read_only < int i"

definition kept_steps :: "replay_step list \<Rightarrow> outcome_contract \<Rightarrow> pystr list \<Rightarrow> (nat \<times> replay_step) list" where
  "kept_steps steps c read_only =
     filter (\<lambda>(i, _, tool, _). \<not> droppable steps c read_only i tool) (enumerate 0 steps)"

definition prune_trajectory :: "replay_step list \<Rightarrow> outcome_contract \<Rightarrow> pystr list \<Rightarrow> replay_step list" where
  "prune_trajectory steps c read_only =
     map (\<lambda>(n, _, _, call). (n, call)) (enumerate 1 (kept_steps steps c read_only))"

lemma prune_calls: "map snd (prune_trajectory steps c ro) = map (snd \<circ> snd) (kept_steps steps c ro)"
proof -
  have "map snd (map (\<lambda>(n, _, _, call). (n, call)) (enumerate k xs)) = map (snd \<circ> snd) xs"
    for k and xs :: "(nat \<times> replay_step) list"
    by (induction xs arbitrary: k) auto
  then show ?thesis by (simp add: prune_trajectory_def)
qed

lemma prune_numbers: "map fst (prune_trajectory steps c ro) = [1..<Suc (length (prune_trajectory steps c ro))]"
proof -
  have "map fst (map (\<lambda>(n, _, _, call). (n, call)) (enumerate k xs)) = [k..<k + length xs]"
    for k and xs :: "(nat \<times> replay_step) list"
    by (induction xs arbitrary: k) (auto simp: upt_conv_Cons simp del: upt_Suc)
  then show ?thesis by (simp add: prune_trajectory_def)
qed

lemma calls_of_enumerate: "map (snd \<circ> snd) (enumerate k steps) = map snd (steps :: replay_step list)"
  by (induction steps arbitrary: k) auto

lemma kept_subseq: "subseq (map (snd \<circ> snd) (kept_steps steps c ro)) (map snd steps)"
  using subseq_map [OF subseq_filter_left] calls_of_enumerate [of 0 steps] by (metis kept_steps_def)

lemma after_last_mutation:
  assumes "i < length steps" and "last_mutation steps ro < int i"
  shows "fst (snd (steps ! i)) \<in> set ro"
proof (rule ccontr)
  assume a: "fst (snd (steps ! i)) \<notin> set ro"
  let ?P = "map fst (filter (\<lambda>(i, _, tool, _). tool \<notin> set ro) (enumerate 0 steps))"
  have "(i, steps ! i) \<in> set (enumerate 0 steps)" using assms(1) by (simp add: in_set_enumerate_eq)
  then have i: "i \<in> set ?P" using a by (force simp: case_prod_beta)
  then have "i \<le> Max (set ?P)" by simp
  moreover have "?P \<noteq> []" using i by (cases ?P) auto
  ultimately show False using assms(2) unfolding last_mutation_def Let_def by (simp split: if_splits)
qed

text \<open>A pruned trajectory is a part of the recorded one, numbered from 1, that keeps every relevant call.\<close>

lemma pruned_trajectory_keeps:
  shows "subseq (map snd (prune_trajectory steps c ro)) (map snd steps)"
    and "filter (\<lambda>(tool, _). tool \<notin> set ro \<or> tool \<in> set (expected_calls c) \<or> tool \<in> set (policed_tools c))
           (map snd (prune_trajectory steps c ro)) =
         filter (\<lambda>(tool, _). tool \<notin> set ro \<or> tool \<in> set (expected_calls c) \<or> tool \<in> set (policed_tools c))
           (map snd steps)"
proof -
  show "subseq (map snd (prune_trajectory steps c ro)) (map snd steps)"
    unfolding prune_calls by (rule kept_subseq)
  let ?Q = "\<lambda>(tool, _). tool \<notin> set ro \<or> tool \<in> set (expected_calls c) \<or> tool \<in> set (policed_tools c)"
  have "filter ?Q (map (snd \<circ> snd) (filter (\<lambda>(i, _, tool, _). \<not> droppable steps c ro i tool) xs)) =
      filter ?Q (map (snd \<circ> snd) xs)" for xs
    by (induction xs) (auto simp: droppable_def)
  then show "filter ?Q (map snd (prune_trajectory steps c ro)) = filter ?Q (map snd steps)"
    unfolding prune_calls kept_steps_def calls_of_enumerate [of 0 steps, symmetric] .
qed

subsection \<open>Recorded decisions\<close>

datatype confirmation_strategy = RecordedApproval | RecordedDenial | NoConfirmation

record recorded_decision =
  rd_tool :: pystr
  rd_approved :: bool

definition grant_for :: "confirmation_strategy \<Rightarrow> recorded_decision list \<Rightarrow> pystr \<Rightarrow> bool" where
  "grant_for strategy decisions tool =
     (if strategy = NoConfirmation then False
      else (case find (\<lambda>d. rd_tool d = tool) decisions of
          None \<Rightarrow> False
        | Some d \<Rightarrow> if strategy = RecordedDenial then False else rd_approved d))"

lemma grants_are_recorded:
  "grant_for s ds tool \<Longrightarrow> s = RecordedApproval \<and> (\<exists>d\<in>set ds. rd_tool d = tool \<and> rd_approved d)"
  by (cases s) (auto simp: grant_for_def find_Some_iff split: option.splits)

subsection \<open>Substitutes for redacted values\<close>

definition substitutes :: "(pystr \<times> pystr) list" where
  "substitutes =
     [(lit ''email'', lit ''eval-user@example.invalid''), (lit ''mail'', lit ''eval-user@example.invalid''),
      (lit ''token'', lit ''eval-token-000000000000''), (lit ''secret'', lit ''eval-secret-000000000000''),
      (lit ''password'', lit ''eval-password-000000''), (lit ''authorization'', lit ''eval-authorization-0000''),
      (lit ''key'', lit ''eval-key-000000000000''), (lit ''phone'', lit ''+10000000000''),
      (lit ''address'', lit ''1 Example Street''), (lit ''name'', lit ''Eval Example''), (lit ''ip'', lit ''192.0.2.1'')]"

definition fallback_substitute :: pystr where "fallback_substitute = lit ''eval-value-000000''"

definition split_field :: "pystr \<Rightarrow> pystr list" where
  "split_field f = split_on 95 (map (\<lambda>c. if c = 45 \<or> c = 46 then 95 else c) (lower f))"

definition substitute_for :: "pystr \<Rightarrow> pystr" where
  "substitute_for f =
     (let ws = filter (\<lambda>w. w \<noteq> []) (split_field f) in
      case find (\<lambda>(hint, _). hint \<in> set ws) substitutes of
        None \<Rightarrow> fallback_substitute | Some (_, r) \<Rightarrow> r)"

fun substitute_redacted :: "json \<Rightarrow> pystr \<Rightarrow> json" where
  "substitute_redacted (JObj kvs) f = JObj (map (\<lambda>(k, v). (k, substitute_redacted v k)) kvs)"
| "substitute_redacted (JArr xs) f = JArr (map (\<lambda>x. substitute_redacted x f) xs)"
| "substitute_redacted (JStr s) f = (if s = redacted_marker then JStr (substitute_for f) else JStr s)"
| "substitute_redacted v f = v"

fun has_marker :: "json \<Rightarrow> bool" where
  "has_marker (JObj kvs) \<longleftrightarrow> (\<exists>kv\<in>set kvs. has_marker (snd kv))"
| "has_marker (JArr xs) \<longleftrightarrow> (\<exists>x\<in>set xs. has_marker x)"
| "has_marker (JStr s) \<longleftrightarrow> s = redacted_marker"
| "has_marker v \<longleftrightarrow> False"

lemma substitute_for_plain: "substitute_for f \<noteq> redacted_marker"
proof (cases "find (\<lambda>(hint, _). hint \<in> set (filter (\<lambda>w. w \<noteq> []) (split_field f))) substitutes")
  case None
  then show ?thesis by (simp add: substitute_for_def fallback_substitute_def redacted_marker_def)
next
  case (Some kr)
  then have "kr \<in> set substitutes" by (auto simp: find_Some_iff in_set_conv_nth)
  moreover have "\<forall>kr\<in>set substitutes. snd kr \<noteq> redacted_marker"
    by (simp add: substitutes_def redacted_marker_def)
  ultimately show ?thesis using Some by (simp add: substitute_for_def case_prod_beta)
qed

text \<open>A substituted value holds no marker, and substituting again changes nothing.\<close>

lemma substitution_clears: "\<not> has_marker (substitute_redacted v f)"
  by (induction v f rule: substitute_redacted.induct) (auto simp: substitute_for_plain)

lemma nothing_to_substitute: "\<not> has_marker v \<Longrightarrow> substitute_redacted v f = v"
  by (induction v f rule: substitute_redacted.induct) (auto intro!: map_idI)

end
