(* ===== verification/Benchmarks.thy ===== *)
theory Benchmarks
  imports Lifecycle Json
begin

section \<open>Benchmarks: the outcome matrix and the life of a suite\<close>

text \<open>
  \<open>benchmarks/matrix.py\<close>, \<open>benchmarks/states.py\<close> and the vocabulary and count models they use
  (\<open>benchmarks/enums.py\<close>, \<open>benchmarks/models.py\<close>): which trials count, the two-by-two matrix of call
  level against outcome, its rates, and the transitions of a suite. Of a trial the fields the matrix
  reads are modelled.
\<close>

subsection \<open>Vocabulary\<close>

datatype call_level_result = Call_Passed | Call_Failed | Call_Error

definition excluded_call_level_results :: "call_level_result list" where
  "excluded_call_level_results = [Call_Error]"

datatype outcome_trial_result =
    Outcome_Passed | Outcome_PassedWithWarnings | Outcome_Failed | Outcome_Error | Outcome_NotReached

definition outcome_pass_results :: "outcome_trial_result list" where
  "outcome_pass_results = [Outcome_Passed, Outcome_PassedWithWarnings]"

definition excluded_outcome_results :: "outcome_trial_result list" where
  "excluded_outcome_results = [Outcome_Error, Outcome_NotReached]"

fun outcome_from_layer_result :: "layer_result option \<Rightarrow> outcome_trial_result" where
  "outcome_from_layer_result None = Outcome_NotReached"
| "outcome_from_layer_result (Some Lr_Passed) = Outcome_Passed"
| "outcome_from_layer_result (Some Lr_PassedWithWarnings) = Outcome_PassedWithWarnings"
| "outcome_from_layer_result (Some Lr_Failed) = Outcome_Failed"
| "outcome_from_layer_result (Some Lr_Error) = Outcome_Error"
| "outcome_from_layer_result (Some Lr_BlockedSafely) = Outcome_NotReached"
| "outcome_from_layer_result (Some Lr_NotEvaluated) = Outcome_NotReached"

datatype trial_eligibility = Trial_Eligible | Trial_Excluded

datatype exclusion_reason =
    Excl_EvaluatorError | Excl_Unbound | Excl_MissingTrajectory | Excl_OutcomeNotReached
  | Excl_OutcomeError | Excl_HarnessError

datatype correlation_mode = ExecutedBrowser | ImportedTrajectoryReplay

subsection \<open>Trials\<close>

record normalized_trial =
  nt_external_trial_id :: pystr
  nt_scenario_id :: pystr
  nt_correlation_mode :: correlation_mode
  nt_call_level_result :: call_level_result
  nt_outcome_result :: outcome_trial_result
  nt_eligibility :: trial_eligibility
  nt_exclusion_reason :: "exclusion_reason option"
  nt_scenario_mode :: "pystr option"
  nt_failure_profile :: "pystr option"

definition trial_ok :: "normalized_trial \<Rightarrow> bool" where
  "trial_ok t \<longleftrightarrow> (nt_eligibility t = Trial_Excluded) = (nt_exclusion_reason t \<noteq> None)"

definition exclusion_for :: "normalized_trial \<Rightarrow> exclusion_reason option" where
  "exclusion_for t =
     (if nt_call_level_result t \<in> set excluded_call_level_results then Some Excl_EvaluatorError
      else if nt_outcome_result t \<in> set excluded_outcome_results then
        Some (if nt_outcome_result t = Outcome_Error then Excl_OutcomeError else Excl_OutcomeNotReached)
      else None)"

definition classify :: "normalized_trial \<Rightarrow> trial_eligibility \<times> exclusion_reason option" where
  "classify t =
     (if nt_eligibility t = Trial_Excluded then (Trial_Excluded, nt_exclusion_reason t)
      else case exclusion_for t of
          Some r \<Rightarrow> (Trial_Excluded, Some r)
        | None \<Rightarrow> (Trial_Eligible, None))"

record matrix_counts =
  mc_pass_pass :: nat
  mc_pass_fail :: nat
  mc_fail_pass :: nat
  mc_fail_fail :: nat
  mc_excluded :: nat
  mc_errors :: nat

definition eligible_trials :: "matrix_counts \<Rightarrow> nat" where
  "eligible_trials m = mc_pass_pass m + mc_pass_fail m + mc_fail_pass m + mc_fail_fail m"

definition total_trials :: "matrix_counts \<Rightarrow> nat" where
  "total_trials m = eligible_trials m + mc_excluded m"

definition call_level_passes :: "matrix_counts \<Rightarrow> nat" where
  "call_level_passes m = mc_pass_pass m + mc_pass_fail m"

definition outcome_passes :: "matrix_counts \<Rightarrow> nat" where
  "outcome_passes m = mc_pass_pass m + mc_fail_pass m"

definition counts_ok :: "matrix_counts \<Rightarrow> bool" where
  "counts_ok m \<longleftrightarrow> mc_errors m \<le> mc_excluded m"

definition error_reasons :: "exclusion_reason list" where
  "error_reasons = [Excl_EvaluatorError, Excl_OutcomeError, Excl_HarnessError]"

definition no_counts :: matrix_counts where
  "no_counts = \<lparr>mc_pass_pass = 0, mc_pass_fail = 0, mc_fail_pass = 0, mc_fail_fail = 0, mc_excluded = 0, mc_errors = 0\<rparr>"

definition count_trial :: "normalized_trial \<Rightarrow> matrix_counts \<Rightarrow> matrix_counts" where
  "count_trial t m =
     (case classify t of
        (Trial_Excluded, r) \<Rightarrow>
          m\<lparr>mc_excluded := mc_excluded m + 1,
            mc_errors := (if r \<in> Some ` set error_reasons then mc_errors m + 1 else mc_errors m)\<rparr>
      | (Trial_Eligible, _) \<Rightarrow>
          let call_pass = nt_call_level_result t = Call_Passed;
              outcome_pass = nt_outcome_result t \<in> set outcome_pass_results
          in if call_pass then
               (if outcome_pass then m\<lparr>mc_pass_pass := mc_pass_pass m + 1\<rparr>
                else m\<lparr>mc_pass_fail := mc_pass_fail m + 1\<rparr>)
             else
               (if outcome_pass then m\<lparr>mc_fail_pass := mc_fail_pass m + 1\<rparr>
                else m\<lparr>mc_fail_fail := mc_fail_fail m + 1\<rparr>))"

text \<open>The counts and, as \<open>None\<close>, the refusal of their validator\<close>

definition tally :: "normalized_trial list \<Rightarrow> matrix_counts option" where
  "tally ts = (let m = fold count_trial ts no_counts in if counts_ok m then Some m else None)"

subsection \<open>Rates\<close>

text \<open>
  A rate is printed with four decimals: its value is a number of ten-thousandths, rounded half to even
  as the default context rounds. The context's 28 digits are enough to leave that rounding alone for
  every population below \<open>10 ^ 20\<close> trials.
\<close>

record rate =
  rt_numerator :: nat
  rt_denominator :: nat
  rt_value :: "nat option"

definition rate_of :: "nat \<Rightarrow> nat \<Rightarrow> rate" where
  "rate_of n d =
     (if d = 0 then \<lparr>rt_numerator = n, rt_denominator = 0, rt_value = None\<rparr>
      else \<lparr>rt_numerator = n, rt_denominator = d, rt_value = Some (div_half_even (10000 * n) d)\<rparr>)"

record benchmark_metrics =
  bm_call_level_pass_rate :: rate
  bm_outcome_pass_rate :: rate
  bm_end_to_end_success_rate :: rate
  bm_silent_outcome_failure_rate :: rate
  bm_incremental_outcome_failure_trials :: nat

definition metrics_for :: "matrix_counts \<Rightarrow> benchmark_metrics" where
  "metrics_for m =
     \<lparr>bm_call_level_pass_rate = rate_of (call_level_passes m) (eligible_trials m),
      bm_outcome_pass_rate = rate_of (outcome_passes m) (eligible_trials m),
      bm_end_to_end_success_rate = rate_of (mc_pass_pass m) (eligible_trials m),
      bm_silent_outcome_failure_rate = rate_of (mc_pass_fail m) (call_level_passes m),
      bm_incremental_outcome_failure_trials = mc_pass_fail m\<rparr>"

subsection \<open>Groups\<close>

record population =
  po_label :: pystr
  po_counts :: matrix_counts
  po_metrics :: benchmark_metrics

definition group_labels :: "(normalized_trial \<Rightarrow> pystr option) \<Rightarrow> normalized_trial list \<Rightarrow> pystr list" where
  "group_labels key ts = sort (remdups (List.map_filter key ts))"

definition break_down :: "normalized_trial list \<Rightarrow> (normalized_trial \<Rightarrow> pystr option) \<Rightarrow> population list option" where
  "break_down ts key =
     those (map (\<lambda>label. map_option (\<lambda>m. \<lparr>po_label = label, po_counts = m, po_metrics = metrics_for m\<rparr>)
       (tally (filter (\<lambda>t. key t = Some label) ts))) (group_labels key ts))"

subsection \<open>The life of a suite\<close>

datatype suite_status =
  Suite_Draft | Suite_Ready | Suite_Running | Suite_Completed | Suite_Cancelled | Suite_Error

fun permitted_transitions :: "suite_status \<Rightarrow> suite_status list" where
  "permitted_transitions Suite_Draft = [Suite_Ready, Suite_Cancelled, Suite_Error]"
| "permitted_transitions Suite_Ready = [Suite_Running, Suite_Completed, Suite_Cancelled, Suite_Error]"
| "permitted_transitions Suite_Running = [Suite_Completed, Suite_Cancelled, Suite_Error]"
| "permitted_transitions _ = []"

definition can_transition :: "suite_status \<Rightarrow> suite_status \<Rightarrow> bool" where
  "can_transition s t \<longleftrightarrow> t \<in> set (permitted_transitions s)"

text \<open>\<open>None\<close> is the refusal.\<close>

definition require_transition :: "suite_status \<Rightarrow> suite_status \<Rightarrow> correlation_mode option \<Rightarrow> suite_status option" where
  "require_transition s t mode =
     (if \<not> can_transition s t then None
      else if s = Suite_Ready \<and> t = Suite_Completed \<and> mode = Some ImportedTrajectoryReplay then None
      else Some t)"

lemma replay_passes_through_running:
  "require_transition s Suite_Completed (Some ImportedTrajectoryReplay) = Some t \<Longrightarrow> s = Suite_Running"
  by (cases s) (auto simp: require_transition_def can_transition_def split: if_splits)

text \<open>The suite's own table and the journey's (\<open>journeys/transitions.py\<close>) are the same.\<close>

fun suite_state_of :: "suite_status \<Rightarrow> benchmark_suite_state" where
  "suite_state_of Suite_Draft = Bs_Draft"
| "suite_state_of Suite_Ready = Bs_Ready"
| "suite_state_of Suite_Running = Bs_Running"
| "suite_state_of Suite_Completed = Bs_Completed"
| "suite_state_of Suite_Cancelled = Bs_Cancelled"
| "suite_state_of Suite_Error = Bs_Error"

lemma tables_agree: "can_transition s t \<longleftrightarrow> suite_state_of t \<in> set (benchmark_suite_transitions (suite_state_of s))"
  by (cases s; cases t) (simp_all add: can_transition_def)

text \<open>How many moves a suite has left at most\<close>

fun suite_rank :: "suite_status \<Rightarrow> nat" where
  "suite_rank Suite_Draft = 3"
| "suite_rank Suite_Ready = 2"
| "suite_rank Suite_Running = 1"
| "suite_rank _ = 0"

lemma transition_descends: "can_transition s t \<Longrightarrow> suite_rank t < suite_rank s"
  by (cases s) (auto simp: can_transition_def)

lemma path_length: "successively can_transition (s # p) \<Longrightarrow> length p \<le> suite_rank s"
proof (induction p arbitrary: s)
  case (Cons t p)
  then have "length p \<le> suite_rank t" "suite_rank t < suite_rank s" by (auto intro: transition_descends)
  then show ?case by simp
qed simp

text \<open>
  C35. A suite always ends: no sequence of permitted transitions has more than three moves, whatever
  the suite's mode.
\<close>

theorem suite_life_ends:
  assumes "successively (\<lambda>s t. \<exists>mode. require_transition s t mode = Some t) (s # path)"
  shows "length path \<le> suite_rank s \<and> length path \<le> 3"
proof -
  have "successively can_transition (s # path)"
    by (rule successively_mono [OF assms]) (auto simp: require_transition_def split: if_splits)
  then have "length path \<le> suite_rank s" by (rule path_length)
  moreover have "suite_rank s \<le> 3" by (cases s) auto
  ultimately show ?thesis by simp
qed

theorem suite_life_ends_witness:
  "length [Suite_Ready, Suite_Running, Suite_Completed] \<le> suite_rank Suite_Draft"
  by (rule suite_life_ends [THEN conjunct1]) (auto simp: require_transition_def can_transition_def)

subsection \<open>Nothing is counted twice or lost\<close>

definition in_cell :: "bool \<Rightarrow> bool \<Rightarrow> normalized_trial \<Rightarrow> bool" where
  "in_cell c p t \<longleftrightarrow> nt_eligibility t = Trial_Eligible \<and> exclusion_for t = None \<and>
     (nt_call_level_result t = Call_Passed) = c \<and> (nt_outcome_result t \<in> set outcome_pass_results) = p"

lemma count_trial_adds:
  "mc_pass_pass (count_trial t m) = mc_pass_pass m + (if in_cell True True t then 1 else 0)"
  "mc_pass_fail (count_trial t m) = mc_pass_fail m + (if in_cell True False t then 1 else 0)"
  "mc_fail_pass (count_trial t m) = mc_fail_pass m + (if in_cell False True t then 1 else 0)"
  "mc_fail_fail (count_trial t m) = mc_fail_fail m + (if in_cell False False t then 1 else 0)"
  "total_trials (count_trial t m) = Suc (total_trials m)"
  "counts_ok m \<Longrightarrow> counts_ok (count_trial t m)"
  by (cases "nt_eligibility t";
      auto simp: count_trial_def classify_def in_cell_def total_trials_def eligible_trials_def counts_ok_def Let_def
        split: option.split)+

lemma fold_counts:
  "mc_pass_pass (fold count_trial ts m) = mc_pass_pass m + length (filter (in_cell True True) ts)"
  "mc_pass_fail (fold count_trial ts m) = mc_pass_fail m + length (filter (in_cell True False) ts)"
  "mc_fail_pass (fold count_trial ts m) = mc_fail_pass m + length (filter (in_cell False True) ts)"
  "mc_fail_fail (fold count_trial ts m) = mc_fail_fail m + length (filter (in_cell False False) ts)"
  "total_trials (fold count_trial ts m) = total_trials m + length ts"
  "counts_ok m \<Longrightarrow> counts_ok (fold count_trial ts m)"
  by (induction ts arbitrary: m) (auto simp: count_trial_adds)

lemma div_half_even_bound: "n \<le> k * d \<Longrightarrow> 0 < d \<Longrightarrow> div_half_even n d \<le> k"
proof -
  assume a: "n \<le> k * d" and d: "0 < d"
  show ?thesis
  proof (cases "n div d = k")
    case True
    then have "n = k * d" using a div_mult_mod_eq [of n d] by (metis add_cancel_right_right le_antisym le_add1)
    then show ?thesis using d by (simp add: div_half_even_def)
  next
    case False
    moreover have "n div d \<le> k" using a d by (metis div_le_mono nonzero_mult_div_cancel_right not_gr0)
    ultimately have "n div d < k" by simp
    then show ?thesis by (auto simp: div_half_even_def Let_def)
  qed
qed

definition rate_bounded :: "rate \<Rightarrow> bool" where
  "rate_bounded r \<longleftrightarrow> rt_numerator r \<le> rt_denominator r \<and>
     (case rt_value r of None \<Rightarrow> rt_denominator r = 0 | Some v \<Rightarrow> 0 < rt_denominator r \<and> v \<le> 10000)"

lemma rate_of_bounded: "n \<le> d \<Longrightarrow> rate_bounded (rate_of n d)"
  by (auto simp: rate_bounded_def rate_of_def div_half_even_bound)

text \<open>
  C34. The matrix accounts for every trial: it is never refused, every trial is excluded or in exactly
  one of the four cells, the errors are among the excluded, and every rate is a part of its population,
  at most 1 and absent exactly when the population is empty.
\<close>

theorem matrix_accounts_for_every_trial:
  shows "\<exists>m. tally ts = Some m \<and> total_trials m = length ts \<and> mc_errors m \<le> mc_excluded m \<and>
    mc_pass_pass m = length (filter (in_cell True True) ts) \<and>
    mc_pass_fail m = length (filter (in_cell True False) ts) \<and>
    mc_fail_pass m = length (filter (in_cell False True) ts) \<and>
    mc_fail_fail m = length (filter (in_cell False False) ts) \<and>
    rate_bounded (bm_call_level_pass_rate (metrics_for m)) \<and>
    rate_bounded (bm_outcome_pass_rate (metrics_for m)) \<and>
    rate_bounded (bm_end_to_end_success_rate (metrics_for m)) \<and>
    rate_bounded (bm_silent_outcome_failure_rate (metrics_for m))"
proof -
  let ?m = "fold count_trial ts no_counts"
  have ok: "counts_ok ?m" by (rule fold_counts(6)) (simp add: counts_ok_def no_counts_def)
  have rates: "rate_bounded (bm_call_level_pass_rate (metrics_for ?m)) \<and>
    rate_bounded (bm_outcome_pass_rate (metrics_for ?m)) \<and>
    rate_bounded (bm_end_to_end_success_rate (metrics_for ?m)) \<and>
    rate_bounded (bm_silent_outcome_failure_rate (metrics_for ?m))"
    by (simp add: metrics_for_def rate_of_bounded call_level_passes_def outcome_passes_def eligible_trials_def)
  show ?thesis
    using ok rates fold_counts [where ts = ts and m = no_counts]
    by (simp add: tally_def Let_def counts_ok_def) (simp add: no_counts_def total_trials_def eligible_trials_def)
qed

end
