(* ===== verification/Canonical_Laws.thy ===== *)
theory Canonical_Laws
  imports Canonical
begin

section \<open>What has a canonical form\<close>

text \<open>
  \<open>canonicalize\<close> refuses a value for four reasons only: a text with a lone surrogate, a number that is no
  finite double, an integer no double represents, and nesting beyond the limit. \<open>representable\<close> says
  that none of them is anywhere in a value.
\<close>

fun representable :: "nat \<Rightarrow> json \<Rightarrow> bool" where
  "representable depth JNull \<longleftrightarrow> depth \<le> max_canonical_depth"
| "representable depth (JBool b) \<longleftrightarrow> depth \<le> max_canonical_depth"
| "representable depth (JInt i) \<longleftrightarrow> depth \<le> max_canonical_depth \<and> (case int_to_double i of None \<Rightarrow> False | Some d \<Rightarrow> \<lfloor>d\<rfloor> = i)"
| "representable depth (JFloat x) \<longleftrightarrow> depth \<le> max_canonical_depth \<and> (case x of Finite r \<Rightarrow> True | _ \<Rightarrow> False)"
| "representable depth (JStr s) \<longleftrightarrow> depth \<le> max_canonical_depth \<and> (\<forall>c\<in>set s. \<not> is_surrogate c)"
| "representable depth (JObj kvs) \<longleftrightarrow> depth \<le> max_canonical_depth \<and>
     (\<forall>kv\<in>set kvs. (\<forall>c\<in>set (fst kv). \<not> is_surrogate c) \<and> representable (Suc depth) (snd kv))"
| "representable depth (JArr xs) \<longleftrightarrow> depth \<le> max_canonical_depth \<and> (\<forall>x\<in>set xs. representable (Suc depth) x)"

lemma encode_string_Inr_iff: "(\<exists>t. encode_string s = Inr t) \<longleftrightarrow> (\<forall>c\<in>set s. \<not> is_surrogate c)"
  by (auto simp: encode_string_def)

lemma encode_number_Inr_iff: "(\<exists>t. encode_number x = Inr t) \<longleftrightarrow> (\<exists>r. x = Finite r)"
  by (cases x) (auto simp: encode_number_def case_prod_beta)

lemma map_result_Inr_iff: "(\<exists>ys. map_result f xs = Inr ys) \<longleftrightarrow> (\<forall>x\<in>set xs. \<exists>y. f x = Inr y)"
  by (meson map_result_each map_result_exists)

lemma canonical_form_iff:
  "(\<exists>t. encode_json depth v = Inr t) \<longleftrightarrow> representable depth v"
proof (induction depth v rule: encode_json.induct)
  case (3 depth i)
  then show ?case
    using encode_number_Inr_iff by (auto simp: check_integer_def split: option.splits)
next
  case (4 depth x)
  then show ?case using encode_number_Inr_iff [of x] by (auto split: pyfloat.splits)
next
  case (5 depth s)
  then show ?case using encode_string_Inr_iff [of s] by auto
next
  case (6 depth kvs)
  show ?case
  proof (cases "max_canonical_depth < depth")
    case False
    have member: "(\<exists>y. bind_result (encode_json (Suc depth) (snd kv)) (\<lambda>v. bind_result (encode_string (fst kv))
          (\<lambda>k. Inr (k @ [58] @ v))) = Inr y) \<longleftrightarrow>
        (\<forall>c\<in>set (fst kv). \<not> is_surrogate c) \<and> representable (Suc depth) (snd kv)" if "kv \<in> set kvs" for kv
      using 6 [OF False, of kv] that encode_string_Inr_iff [of "fst kv"]
      by (fastforce simp: bind_result_Inr)
    have "(\<exists>t. encode_json depth (JObj kvs) = Inr t) \<longleftrightarrow>
        (\<exists>ms. map_result (\<lambda>kv. bind_result (encode_json (Suc depth) (snd kv)) (\<lambda>v. bind_result (encode_string (fst kv))
          (\<lambda>k. Inr (k @ [58] @ v)))) (sort_key member_key kvs) = Inr ms)"
      using False by (auto simp: bind_result_Inr)
    also have "\<dots> \<longleftrightarrow> representable depth (JObj kvs)"
      using False member by (simp add: map_result_Inr_iff)
    finally show ?thesis .
  qed simp
next
  case (7 depth xs)
  show ?case
  proof (cases "max_canonical_depth < depth")
    case False
    have "(\<exists>t. encode_json depth (JArr xs) = Inr t) \<longleftrightarrow>
        (\<exists>ys. map_result (encode_json (Suc depth)) xs = Inr ys)"
      using False by (auto simp: bind_result_Inr)
    also have "\<dots> \<longleftrightarrow> representable depth (JArr xs)"
      using False 7 by (simp add: map_result_Inr_iff)
    finally show ?thesis .
  qed simp
qed auto

lemma hash_exists: "representable 0 v \<Longrightarrow> \<exists>h. content_hash v = Inr h"
  using canonical_form_iff [of 0 v] by (auto simp: content_hash_def canonicalize_def canonical_text_def)

lemma document_hash_exists: "representable 0 (JObj doc) \<Longrightarrow> \<exists>h. document_content_hash doc = Inr h"
  unfolding document_content_hash_def by (rule hash_exists) auto

lemma no_surrogate_lit [simp]: "c \<in> set (lit s) \<Longrightarrow> \<not> is_surrogate c"
proof -
  have "of_char c = (of_char c mod 256 :: nat)" for c :: char by simp
  then have "of_char c < (256::nat)" for c :: char by (metis mod_less_divisor zero_less_numeral)
  then have "of_char c < (0xD800::nat)" for c :: char by (rule less_le_trans) simp
  then show "c \<in> set (lit s) \<Longrightarrow> ?thesis" by (auto simp: lit_def is_surrogate_def not_le)
qed

lemma hex_digit_plain: "d < 16 \<Longrightarrow> \<not> is_surrogate (hex_digit d)"
  by (simp add: hex_digit_def is_surrogate_def)

lemma hash_text: "content_hash v = Inr h \<Longrightarrow> c \<in> set h \<Longrightarrow> \<not> is_surrogate c"
  by (auto simp: content_hash_def bind_result_Inr sha256_hex_def hex_word_def hex_digit_plain)

lemma zero_encodes [simp]: "int_to_double 0 = Some 0"
  by (simp add: int_to_double_def)

lemma one_encodes [simp]: "int_to_double 1 = Some 1"
proof -
  have "ndigits_base 2 1 = 1" by (simp add: ndigits_base.simps)
  then have "floor_log 2 1 = 0" by (simp add: floor_log_def rpow_def)
  moreover have "1 / rpow 2 (- 52) = 4503599627370496" "4503599627370496 * rpow 2 (- 52) = 1"
    by (simp_all add: rpow_def)
  moreover have "round_half_even 4503599627370496 = 4503599627370496"
    by (simp add: round_half_even_def div_half_even_def)
  ultimately have "nearest_double 1 = 1" by (simp add: nearest_double_def)
  then show ?thesis by (simp add: int_to_double_def)
qed

text \<open>
  C26. A value has a content hash exactly when it is representable: every other value is refused, and
  none of the checks can be reached in an order that lets one through.
\<close>

theorem content_hash_defined:
  "(\<exists>h. content_hash v = Inr h) \<longleftrightarrow> representable 0 v"
  using canonical_form_iff [of 0 v]
  by (auto simp: content_hash_def canonicalize_def canonical_text_def bind_result_Inr)

end
