(* ===== verification/Eval_Cases.thy ===== *)
theory Eval_Cases
  imports Evals Findings Canonical Diff
begin

section \<open>Regression cases\<close>

text \<open>
  \<open>evals/models.py\<close>, \<open>evals/factory.py\<close>, \<open>evals/schema.py\<close> and \<open>evals/enums.py\<close>: the self-contained
  document a failed run is turned into, how it is built from recorded evidence, and how a replay is
  compared with what it expects. The order of a tuple made from a set is not modelled: it is sorted
  wherever it is printed.
\<close>

subsection \<open>Vocabulary\<close>

datatype eval_environment = Env_Current | Env_ReproduceSource

fun eval_environment_value :: "eval_environment \<Rightarrow> pystr" where
  "eval_environment_value Env_Current = lit ''current''"
| "eval_environment_value Env_ReproduceSource = lit ''reproduce_source''"

fun confirmation_strategy_value :: "confirmation_strategy \<Rightarrow> pystr" where
  "confirmation_strategy_value RecordedApproval = lit ''recorded_approval''"
| "confirmation_strategy_value RecordedDenial = lit ''recorded_denial''"
| "confirmation_strategy_value NoConfirmation = lit ''no_confirmation''"

datatype eval_status = Eval_Passed | Eval_Failed | Eval_Error

fun eval_status_value :: "eval_status \<Rightarrow> pystr" where
  "eval_status_value Eval_Passed = lit ''passed''"
| "eval_status_value Eval_Failed = lit ''failed''"
| "eval_status_value Eval_Error = lit ''error''"

definition webmcp_protocol :: pystr where "webmcp_protocol = lit ''webmcp''"

definition case_schema_version :: pystr where "case_schema_version = lit ''1.0''"

subsection \<open>The parts of a case\<close>

record eval_source =
  es_run_id :: pystr
  es_implementation_version :: pystr
  es_build_commit :: "pystr option"
  es_scenario_mode :: "pystr option"
  es_failure_profile :: "pystr option"
  es_overall_result :: layer_result
  es_critical_classifications :: "failure_classification list"

record eval_target =
  eg_type :: pystr
  eg_id :: pystr
  eg_adapter :: pystr

record eval_fixture =
  ex_state_version :: int
  ex_content_hash :: pystr
  ex_target_state :: jobject
  ex_complete :: bool

record trajectory_step =
  tj_sequence :: nat
  tj_tool :: pystr
  tj_arguments :: jobject

record embedded_contract =
  em_content_hash :: pystr
  em_document :: outcome_contract

record source_finding =
  sf_check_id :: pystr
  sf_classification :: "failure_classification option"
  sf_severity :: assertion_severity
  sf_status :: check_status
  sf_path :: "pystr option"
  sf_expected :: json
  sf_actual :: json

record recorded_delta =
  rd_sequence :: int
  rd_kind :: pystr
  rd_partition :: pystr
  rd_delta_tool :: "pystr option"

record surface_record =
  su_baseline :: "pystr list"
  su_deltas :: "recorded_delta list"

record replay_configuration =
  rp_default_environment :: eval_environment
  rp_confirmation_strategy :: confirmation_strategy
  rp_recorded_decisions :: "recorded_decision list"

record environment_expectation =
  xp_overall_result :: layer_result
  xp_required_classifications :: "failure_classification list"

record eval_expectations =
  xs_current :: environment_expectation
  xs_reproduce_source :: environment_expectation

definition for_environment :: "eval_expectations \<Rightarrow> eval_environment \<Rightarrow> environment_expectation" where
  "for_environment x env = (if env = Env_Current then xs_current x else xs_reproduce_source x)"

record regression_case =
  rc_schema_version :: pystr
  rc_id :: pystr
  rc_name :: pystr
  rc_source :: eval_source
  rc_target :: eval_target
  rc_fixture :: eval_fixture
  rc_trajectory :: "trajectory_step list"
  rc_contract :: embedded_contract
  rc_source_findings :: "source_finding list"
  rc_surface :: "surface_record option"
  rc_non_replayable_policies :: "pystr list"
  rc_replay :: replay_configuration
  rc_expected :: eval_expectations

subsection \<open>What the models accept\<close>

definition within_length :: "nat \<Rightarrow> nat \<Rightarrow> pystr \<Rightarrow> bool" where
  "within_length low high s \<longleftrightarrow> low \<le> length s \<and> length s \<le> high"

definition within_length_opt :: "nat \<Rightarrow> nat \<Rightarrow> pystr option \<Rightarrow> bool" where
  "within_length_opt low high s \<longleftrightarrow> (case s of None \<Rightarrow> True | Some t \<Rightarrow> within_length low high t)"

definition is_content_hash :: "pystr \<Rightarrow> bool" where
  "is_content_hash s \<longleftrightarrow> take 7 s = lit ''sha256:'' \<and> length s = 71 \<and>
     (\<forall>c\<in>set (drop 7 s). (48 \<le> c \<and> c \<le> 57) \<or> (97 \<le> c \<and> c \<le> 102))"

definition source_ok :: "eval_source \<Rightarrow> bool" where
  "source_ok s \<longleftrightarrow> within_length 1 128 (es_run_id s) \<and> within_length 1 64 (es_implementation_version s) \<and>
     within_length_opt 1 64 (es_build_commit s) \<and> within_length_opt 1 64 (es_scenario_mode s) \<and>
     within_length_opt 1 64 (es_failure_profile s)"

definition eval_target_ok :: "eval_target \<Rightarrow> bool" where
  "eval_target_ok t \<longleftrightarrow> within_length 1 64 (eg_type t) \<and> within_length 1 128 (eg_id t) \<and> within_length 1 128 (eg_adapter t)"

definition fixture_ok :: "eval_fixture \<Rightarrow> bool" where
  "fixture_ok f \<longleftrightarrow> 0 \<le> ex_state_version f \<and> is_content_hash (ex_content_hash f)"

definition step_ok :: "trajectory_step \<Rightarrow> bool" where
  "step_ok s \<longleftrightarrow> 1 \<le> tj_sequence s \<and> within_length 1 64 (tj_tool s)"

definition source_finding_ok :: "source_finding \<Rightarrow> bool" where
  "source_finding_ok f \<longleftrightarrow> within_length 1 128 (sf_check_id f) \<and> within_length_opt 1 256 (sf_path f)"

definition delta_ok :: "recorded_delta \<Rightarrow> bool" where
  "delta_ok d \<longleftrightarrow> 1 \<le> rd_sequence d \<and> within_length 1 64 (rd_kind d) \<and> within_length 1 64 (rd_partition d) \<and>
     within_length_opt 1 64 (rd_delta_tool d)"

definition decision_ok :: "recorded_decision \<Rightarrow> bool" where
  "decision_ok d \<longleftrightarrow> within_length 1 64 (rd_tool d)"

definition trajectory_dense :: "trajectory_step list \<Rightarrow> bool" where
  "trajectory_dense steps \<longleftrightarrow> map tj_sequence steps = [1..<Suc (length steps)]"

definition case_ok :: "regression_case \<Rightarrow> bool" where
  "case_ok c \<longleftrightarrow> within_length 1 128 (rc_id c) \<and> within_length 1 128 (rc_name c) \<and> source_ok (rc_source c) \<and>
     eval_target_ok (rc_target c) \<and> fixture_ok (rc_fixture c) \<and> (\<forall>s\<in>set (rc_trajectory c). step_ok s) \<and>
     is_content_hash (em_content_hash (rc_contract c)) \<and>
     (\<forall>f\<in>set (rc_source_findings c). source_finding_ok f) \<and>
     (case rc_surface c of None \<Rightarrow> True | Some s \<Rightarrow> \<forall>d\<in>set (su_deltas s). delta_ok d) \<and>
     (\<forall>d\<in>set (rp_recorded_decisions (rc_replay c)). decision_ok d) \<and> trajectory_dense (rc_trajectory c)"

subsection \<open>Documents\<close>

definition sorted_values :: "failure_classification list \<Rightarrow> json" where
  "sorted_values cs = JArr (map JStr (sorted_set (map failure_classification_value cs)))"

definition source_document :: "eval_source \<Rightarrow> json" where
  "source_document s = JObj
     [(lit ''protocol'', JStr webmcp_protocol), (lit ''run_id'', JStr (es_run_id s)),
      (lit ''implementation_version'', JStr (es_implementation_version s)),
      (lit ''build_commit'', opt_str (es_build_commit s)), (lit ''scenario_mode'', opt_str (es_scenario_mode s)),
      (lit ''failure_profile'', opt_str (es_failure_profile s)),
      (lit ''overall_result'', JStr (layer_result_value (es_overall_result s))),
      (lit ''critical_classifications'', sorted_values (es_critical_classifications s))]"

definition eval_target_document :: "eval_target \<Rightarrow> json" where
  "eval_target_document t = JObj [(lit ''type'', JStr (eg_type t)), (lit ''id'', JStr (eg_id t)),
     (lit ''adapter'', JStr (eg_adapter t))]"

definition fixture_document :: "eval_fixture \<Rightarrow> json" where
  "fixture_document f = JObj [(lit ''state_version'', JInt (ex_state_version f)),
     (lit ''content_hash'', JStr (ex_content_hash f)), (lit ''target_state'', JObj (ex_target_state f)),
     (lit ''complete'', JBool (ex_complete f))]"

definition step_document :: "trajectory_step \<Rightarrow> json" where
  "step_document s = JObj [(lit ''sequence'', JInt (int (tj_sequence s))), (lit ''tool'', JStr (tj_tool s)),
     (lit ''arguments'', JObj (tj_arguments s))]"

definition embedded_document :: "embedded_contract \<Rightarrow> json" where
  "embedded_document c = JObj [(lit ''content_hash'', JStr (em_content_hash c)),
     (lit ''document'', JObj (contract_document (em_document c)))]"

definition source_finding_document :: "source_finding \<Rightarrow> json" where
  "source_finding_document f = JObj [(lit ''check_id'', JStr (sf_check_id f)),
     (lit ''classification'', opt_str (map_option failure_classification_value (sf_classification f))),
     (lit ''severity'', JStr (assertion_severity_value (sf_severity f))),
     (lit ''status'', JStr (check_status_value (sf_status f))), (lit ''path'', opt_str (sf_path f)),
     (lit ''expected'', sf_expected f), (lit ''actual'', sf_actual f)]"

definition recorded_delta_document :: "recorded_delta \<Rightarrow> json" where
  "recorded_delta_document d = JObj [(lit ''sequence'', JInt (rd_sequence d)), (lit ''kind'', JStr (rd_kind d)),
     (lit ''partition'', JStr (rd_partition d)), (lit ''tool'', opt_str (rd_delta_tool d))]"

definition surface_record_document :: "surface_record \<Rightarrow> json" where
  "surface_record_document s = JObj [(lit ''baseline'', JArr (map JStr (su_baseline s))),
     (lit ''deltas'', JArr (map recorded_delta_document (su_deltas s)))]"

definition decision_document :: "recorded_decision \<Rightarrow> json" where
  "decision_document d = JObj [(lit ''tool'', JStr (rd_tool d)), (lit ''approved'', JBool (rd_approved d))]"

definition replay_document :: "replay_configuration \<Rightarrow> json" where
  "replay_document r = JObj
     [(lit ''default_environment'', JStr (eval_environment_value (rp_default_environment r))),
      (lit ''confirmation_strategy'', JStr (confirmation_strategy_value (rp_confirmation_strategy r))),
      (lit ''recorded_decisions'', JArr (map decision_document (sort_key rd_tool (rp_recorded_decisions r))))]"

definition expectation_document :: "environment_expectation \<Rightarrow> json" where
  "expectation_document x = JObj [(lit ''overall_result'', JStr (layer_result_value (xp_overall_result x))),
     (lit ''required_classifications'', sorted_values (xp_required_classifications x))]"

definition expectations_document :: "eval_expectations \<Rightarrow> json" where
  "expectations_document x = JObj [(lit ''current'', expectation_document (xs_current x)),
     (lit ''reproduce_source'', expectation_document (xs_reproduce_source x))]"

definition case_document :: "regression_case \<Rightarrow> jobject" where
  "case_document c =
     [(lit ''schema_version'', JStr (rc_schema_version c)), (lit ''id'', JStr (rc_id c)),
      (lit ''name'', JStr (rc_name c)), (lit ''source'', source_document (rc_source c)),
      (lit ''target'', eval_target_document (rc_target c)), (lit ''fixture'', fixture_document (rc_fixture c)),
      (lit ''trajectory'', JArr (map step_document (rc_trajectory c))),
      (lit ''contract'', embedded_document (rc_contract c)),
      (lit ''source_findings'', JArr (map source_finding_document (rc_source_findings c))),
      (lit ''surface'', (case rc_surface c of None \<Rightarrow> JNull | Some s \<Rightarrow> surface_record_document s)),
      (lit ''non_replayable_policies'', JArr (map JStr (sorted_set (rc_non_replayable_policies c)))),
      (lit ''replay'', replay_document (rc_replay c)),
      (lit ''expected'', expectations_document (rc_expected c))]"

definition case_hash :: "regression_case \<Rightarrow> canon_error + pystr" where
  "case_hash c = document_content_hash (case_document c)"

definition stored_case_document :: "regression_case \<Rightarrow> canon_error + jobject" where
  "stored_case_document c =
     bind_result (case_hash c) (\<lambda>h. Inr (case_document c @ [(lit ''content_hash'', JStr h)]))"

subsection \<open>Building a case\<close>

text \<open>
  \<open>InvalidCase\<close> is what the models' own validation raises; it is not one of the core's refusals, so
  no caller turns it into a structured one.
\<close>

datatype case_error =
    IneligibleSource
  | ContractHashMismatch
  | UnhashableCase canon_error
  | InvalidCase
  | EditedCase

definition eligible_source_results :: "layer_result list" where
  "eligible_source_results = [Lr_Failed, Lr_PassedWithWarnings]"

definition case_identifier :: "pystr \<Rightarrow> pystr \<Rightarrow> pystr \<Rightarrow> canon_error + pystr" where
  "case_identifier run_id chash version =
     bind_result (content_hash (JObj [(lit ''source_run_id'', JStr run_id),
         (lit ''contract_content_hash'', JStr chash), (lit ''generator_schema_version'', JStr version)]))
       (\<lambda>h. Inr (lit ''eval_'' @ take 32 (drop 7 h)))"

text \<open>The keyword arguments of \<open>build_case\<close>\<close>

record case_inputs =
  ci_name :: pystr
  ci_source :: eval_source
  ci_target :: eval_target
  ci_contract :: outcome_contract
  ci_stored_contract_hash :: pystr
  ci_fixture_state :: jobject
  ci_fixture_state_version :: int
  ci_fixture_is_complete :: bool
  ci_trajectory :: "replay_step list"
  ci_source_findings :: "source_finding list"
  ci_surface :: "surface_record option"
  ci_non_replayable_policies :: "pystr list"
  ci_confirmation_strategy :: confirmation_strategy
  ci_recorded_decisions :: "recorded_decision list"
  ci_generator_version :: pystr

definition hashed :: "canon_error + 'a \<Rightarrow> case_error + 'a" where
  "hashed r = (case r of Inl e \<Rightarrow> Inl (UnhashableCase e) | Inr x \<Rightarrow> Inr x)"

definition case_steps :: "replay_step list \<Rightarrow> trajectory_step list" where
  "case_steps steps = map (\<lambda>(n, tool, args). \<lparr>tj_sequence = n, tj_tool = tool, tj_arguments = args\<rparr>) steps"

definition assembled_case :: "case_inputs \<Rightarrow> pystr \<Rightarrow> pystr \<Rightarrow> regression_case" where
  "assembled_case i cid state_hash =
     \<lparr>rc_schema_version = case_schema_version, rc_id = cid, rc_name = ci_name i, rc_source = ci_source i,
      rc_target = ci_target i,
      rc_fixture = \<lparr>ex_state_version = ci_fixture_state_version i, ex_content_hash = state_hash,
        ex_target_state = ci_fixture_state i, ex_complete = ci_fixture_is_complete i\<rparr>,
      rc_trajectory = case_steps (ci_trajectory i),
      rc_contract = \<lparr>em_content_hash = ci_stored_contract_hash i, em_document = ci_contract i\<rparr>,
      rc_source_findings = ci_source_findings i, rc_surface = ci_surface i,
      rc_non_replayable_policies = ci_non_replayable_policies i,
      rc_replay = \<lparr>rp_default_environment = Env_Current,
        rp_confirmation_strategy = ci_confirmation_strategy i,
        rp_recorded_decisions = ci_recorded_decisions i\<rparr>,
      rc_expected =
        \<lparr>xs_current = \<lparr>xp_overall_result = Lr_Passed, xp_required_classifications = []\<rparr>,
         xs_reproduce_source = \<lparr>xp_overall_result = es_overall_result (ci_source i),
           xp_required_classifications = es_critical_classifications (ci_source i)\<rparr>\<rparr>\<rparr>"

definition build_case :: "case_inputs \<Rightarrow> case_error + regression_case" where
  "build_case i =
     (if es_overall_result (ci_source i) \<notin> set eligible_source_results then Inl IneligibleSource
      else bind_result (hashed (contract_hash (ci_contract i))) (\<lambda>recomputed.
        if recomputed \<noteq> ci_stored_contract_hash i then Inl ContractHashMismatch
        else if \<not> (\<forall>s\<in>set (case_steps (ci_trajectory i)). step_ok s) then Inl InvalidCase
        else bind_result (hashed (case_identifier (es_run_id (ci_source i)) (ci_stored_contract_hash i)
            (ci_generator_version i))) (\<lambda>cid.
          if \<not> source_ok (ci_source i) \<or> \<not> eval_target_ok (ci_target i) then Inl InvalidCase
          else bind_result (hashed (content_hash (JObj (ci_fixture_state i)))) (\<lambda>state_hash.
            let c = assembled_case i cid state_hash
            in if case_ok c then Inr c else Inl InvalidCase))))"

text \<open>\<open>validate_case_document\<close>: pydantic's reading of the payload is a parameter.\<close>

definition validate_case_document ::
    "(jobject \<Rightarrow> regression_case option) \<Rightarrow> jobject \<Rightarrow> case_error + regression_case" where
  "validate_case_document validate document =
     (case validate (filter (\<lambda>kv. fst kv \<noteq> lit ''content_hash'') document) of
        None \<Rightarrow> Inl InvalidCase
      | Some c \<Rightarrow>
          (case map_of document (lit ''content_hash'') of
             None \<Rightarrow> Inr c
           | Some JNull \<Rightarrow> Inr c
           | Some declared \<Rightarrow> bind_result (hashed (case_hash c)) (\<lambda>h.
               if declared \<noteq> JStr h then Inl EditedCase else Inr c)))"

subsection \<open>Comparing a replay with its expectation\<close>

fun policy_critical_classifications :: "policy_type \<Rightarrow> failure_classification list" where
  "policy_critical_classifications Pt_RequiresConfirmation = [Fc_MissingConfirmation]"
| "policy_critical_classifications Pt_IdempotentByRequestId = [Fc_IdempotencyViolation]"
| "policy_critical_classifications Pt_MaximumMutations = [Fc_IdempotencyViolation]"
| "policy_critical_classifications Pt_ForbiddenTool = [Fc_UnexpectedTool]"
| "policy_critical_classifications Pt_NoUndeclaredChanges = [Fc_UndeclaredStateChange]"
| "policy_critical_classifications Pt_StableToolSurface = [Fc_ToolSurfaceMutation]"

definition all_policy_types :: "policy_type list" where
  "all_policy_types = [Pt_RequiresConfirmation, Pt_IdempotentByRequestId, Pt_MaximumMutations, Pt_ForbiddenTool,
     Pt_NoUndeclaredChanges, Pt_StableToolSurface]"

definition policy_type_of_text :: "pystr \<Rightarrow> policy_type option" where
  "policy_type_of_text s = find (\<lambda>t. policy_type_value t = s) all_policy_types"

record replay_comparison =
  cmp_matched :: bool
  cmp_actual :: "failure_classification list"
  cmp_expected :: "failure_classification list"
  cmp_excluded_policies :: "pystr list"
  cmp_excluded_classifications :: "failure_classification list"

definition excluded_classifications :: "pystr list \<Rightarrow> failure_classification list" where
  "excluded_classifications names =
     concat (map policy_critical_classifications (List.map_filter policy_type_of_text names))"

definition expectation_matches ::
    "environment_expectation \<Rightarrow> layer_result \<Rightarrow> failure_classification list \<Rightarrow> bool" where
  "expectation_matches x result actual \<longleftrightarrow>
     result = xp_overall_result x \<and> set actual = set (xp_required_classifications x)"

definition compare_replay_to_expectation ::
    "environment_expectation \<Rightarrow> layer_result \<Rightarrow> failure_classification list \<Rightarrow> pystr list \<Rightarrow> replay_comparison" where
  "compare_replay_to_expectation x result actual names =
     (let excluded = excluded_classifications names;
          kept = filter (\<lambda>c. c \<notin> set excluded) actual;
          expected = filter (\<lambda>c. c \<notin> set excluded) (xp_required_classifications x)
      in \<lparr>cmp_matched = expectation_matches (x\<lparr>xp_required_classifications := expected\<rparr>) result kept,
          cmp_actual = kept, cmp_expected = expected, cmp_excluded_policies = sorted_set names,
          cmp_excluded_classifications = sorted_set excluded\<rparr>)"

subsection \<open>The report of a replay\<close>

record eval_report =
  vp_eval_case_id :: pystr
  vp_eval_case_hash :: pystr
  vp_implementation_version :: pystr
  vp_build_commit :: "pystr option"
  vp_environment :: eval_environment
  vp_status :: eval_status
  vp_overall_result :: "layer_result option"
  vp_actual_classifications :: "failure_classification list"
  vp_expected_classifications :: "failure_classification list"
  vp_classification_match :: bool
  vp_replayed_trajectory :: "trajectory_step list"
  vp_final_state :: "jobject option"
  vp_non_replayable_policies :: "pystr list"
  vp_detail :: pystr

definition eval_report_document :: "eval_report \<Rightarrow> jobject" where
  "eval_report_document r =
     [(lit ''schema_version'', JStr case_schema_version), (lit ''eval_case_id'', JStr (vp_eval_case_id r)),
      (lit ''eval_case_hash'', JStr (vp_eval_case_hash r)),
      (lit ''implementation_version'', JStr (vp_implementation_version r)),
      (lit ''build_commit'', opt_str (vp_build_commit r)),
      (lit ''environment'', JStr (eval_environment_value (vp_environment r))),
      (lit ''status'', JStr (eval_status_value (vp_status r))),
      (lit ''overall_result'', opt_str (map_option layer_result_value (vp_overall_result r))),
      (lit ''actual_classifications'', sorted_values (vp_actual_classifications r)),
      (lit ''expected_classifications'', sorted_values (vp_expected_classifications r)),
      (lit ''classification_match'', JBool (vp_classification_match r)),
      (lit ''replayed_trajectory'', JArr (map step_document (vp_replayed_trajectory r))),
      (lit ''final_state'', (case vp_final_state r of None \<Rightarrow> JNull | Some s \<Rightarrow> JObj s)),
      (lit ''non_replayable_policies'', JArr (map JStr (sorted_set (vp_non_replayable_policies r)))),
      (lit ''detail'', JStr (vp_detail r))]"

definition eval_report_hash :: "eval_report \<Rightarrow> canon_error + pystr" where
  "eval_report_hash r = document_content_hash (eval_report_document r)"

definition stored_report_document :: "eval_report \<Rightarrow> canon_error + jobject" where
  "stored_report_document r =
     bind_result (eval_report_hash r) (\<lambda>h. Inr (eval_report_document r @ [(lit ''content_hash'', JStr h)]))"

subsection \<open>What a built case says\<close>

lemma hashed_Inr [simp]: "hashed r = Inr x \<longleftrightarrow> r = Inr x"
  by (cases r) (auto simp: hashed_def)

lemma build_case_cases:
  assumes "build_case i = Inr c"
  obtains cid h where "es_overall_result (ci_source i) \<in> set eligible_source_results"
    and "contract_hash (ci_contract i) = Inr (ci_stored_contract_hash i)"
    and "case_identifier (es_run_id (ci_source i)) (ci_stored_contract_hash i) (ci_generator_version i) = Inr cid"
    and "content_hash (JObj (ci_fixture_state i)) = Inr h" and "c = assembled_case i cid h" and "case_ok c"
  using assms by (auto simp: build_case_def bind_result_Inr Let_def split: if_splits)

text \<open>Which classification each excluded policy accounts for, and which no exclusion reaches\<close>

lemma excluded_only_policies:
  "c \<in> set (excluded_classifications names) \<Longrightarrow>
     c \<in> {Fc_MissingConfirmation, Fc_IdempotencyViolation, Fc_UnexpectedTool, Fc_UndeclaredStateChange,
       Fc_ToolSurfaceMutation}"
proof -
  have "set (policy_critical_classifications t) \<subseteq> {Fc_MissingConfirmation, Fc_IdempotencyViolation,
      Fc_UnexpectedTool, Fc_UndeclaredStateChange, Fc_ToolSurfaceMutation}" for t
    by (cases t) auto
  then show "c \<in> set (excluded_classifications names) \<Longrightarrow> ?thesis"
    unfolding excluded_classifications_def by fastforce
qed

lemma compare_matched_iff:
  "cmp_matched (compare_replay_to_expectation x result actual names) \<longleftrightarrow>
     result = xp_overall_result x \<and>
     set actual - set (excluded_classifications names) =
       set (xp_required_classifications x) - set (excluded_classifications names)"
  by (auto simp: compare_replay_to_expectation_def Let_def expectation_matches_def)

end
