(* ===== verification/Eval_Replay.thy ===== *)
theory Eval_Replay
  imports Eval_Cases Database
begin

section \<open>Replaying a regression case\<close>

text \<open>
  \<open>application/eval_runner.py\<close> and \<open>application/eval_run_service.py\<close>: a case's fixture restored into a
  workspace of its own, its steps executed one after another through the adapter, the outcome judged by
  the engine and compared with the expectation, and the rows each replay leaves. The target is a state
  of any type; the adapter, whose side effects it is, is a record of functions on it. Whether an
  exception is one of the service's refusals (which carries its message) or another (of which only the
  class name is used) is kept apart. What a replay measures of time is a parameter.
\<close>

subsection \<open>Scenarios\<close>

record scenario_selection =
  sc_scenario_mode :: pystr
  sc_fault_profile :: "pystr option"

definition current_mode :: pystr where "current_mode = lit ''post_fix''"
definition source_mode :: pystr where "source_mode = lit ''pre_fix''"

definition scenario_for :: "eval_environment \<Rightarrow> pystr option \<Rightarrow> pystr option \<Rightarrow> scenario_selection" where
  "scenario_for env mode fault =
     (if env = Env_Current then \<lparr>sc_scenario_mode = current_mode, sc_fault_profile = None\<rparr>
      else \<lparr>sc_scenario_mode = (case mode of None \<Rightarrow> source_mode | Some m \<Rightarrow> if m = [] then source_mode else m),
        sc_fault_profile = fault\<rparr>)"

subsection \<open>The adapter\<close>

datatype raised = Refused api_error_code pystr | Raised pystr

record execution_context =
  xc_workspace_id :: pystr
  xc_run_id :: pystr
  xc_invocation_id :: pystr
  xc_request_id :: pystr
  xc_correlation_id :: pystr
  xc_idempotency_key :: pystr
  xc_actor :: event_actor
  xc_human_consent_granted :: bool

text \<open>An exception of \<open>execute\<close> is caught whatever it is, so only its class name is kept.\<close>

record 's target_adapter =
  ad_specs :: "target_tool_spec list"
  ad_prepare :: "pystr \<Rightarrow> scenario_selection \<Rightarrow> 's \<Rightarrow> pystr + 's"
  ad_capture :: "pystr \<Rightarrow> 's \<Rightarrow> raised + observation"
  ad_execute :: "pystr \<Rightarrow> pystr \<Rightarrow> jobject \<Rightarrow> execution_context \<Rightarrow> 's \<Rightarrow> 's \<times> (pystr + tool_execution_result)"

definition published_names :: "'s target_adapter \<Rightarrow> pystr list" where
  "published_names ad = map ts_name (ad_specs ad)"

definition adapter_effect_map :: "'s target_adapter \<Rightarrow> effect_map" where
  "adapter_effect_map ad = foldl (\<lambda>m spec. obj_set (ts_name spec) (ts_effect_paths spec) m) [] (ad_specs ad)"

subsection \<open>Restoring the fixture\<close>

definition fixture_mismatch :: "jobject \<Rightarrow> observation \<Rightarrow> (pystr \<times> json) option" where
  "fixture_mismatch fixture ob =
     find (\<lambda>(k, v). \<not> py_eq (case map_of (ob_payload ob) k of None \<Rightarrow> JNull | Some w \<Rightarrow> w) v) fixture"

definition restore_case ::
    "(pystr \<Rightarrow> pystr) \<Rightarrow> 's target_adapter \<Rightarrow> pystr \<Rightarrow> regression_case \<Rightarrow> scenario_selection \<Rightarrow> 's \<Rightarrow>
     (raised + observation) \<times> 's" where
  "restore_case repr_of ad ws c scenario target =
     (case ad_prepare ad ws scenario target of
        Inl name \<Rightarrow> (Inl (Refused Api_PreconditionFailed
          (lit ''the target adapter could not restore this case's fixture: '' @ name)), target)
      | Inr prepared \<Rightarrow>
          (case ad_capture ad ws prepared of
             Inl r \<Rightarrow> (Inl r, prepared)
           | Inr ob \<Rightarrow>
               (case fixture_mismatch (ex_target_state (rc_fixture c)) ob of
                  None \<Rightarrow> (Inr ob, prepared)
                | Some (k, _) \<Rightarrow> (Inl (Refused Api_PreconditionFailed
                    (lit ''the restored target state does not match this case's fixture at '' @ repr_of k @
                     lit ''; the replay would start from a journey the case does not describe'')), prepared))))"

subsection \<open>One step\<close>

definition step_request_id :: "trajectory_step \<Rightarrow> pystr \<Rightarrow> pystr" where
  "step_request_id st identity =
     (let drawn = lit ''req_'' @ take 20 identity @ [95] @ show_nat (tj_sequence st) in
      case map_of (tj_arguments st) (lit ''request_id'') of
        Some (JStr r) \<Rightarrow> if r \<noteq> [] then r else drawn
      | _ \<Rightarrow> drawn)"

definition step_correlation :: "trajectory_step \<Rightarrow> pystr \<Rightarrow> pystr" where
  "step_correlation st identity = identity @ [45] @ show_nat (tj_sequence st)"

text \<open>The run's clock and identifiers, by the step they are read in\<close>

record replay_measures =
  rm_event_at :: "nat \<Rightarrow> int"
  rm_surface_at :: int
  rm_duration_ms :: "nat \<Rightarrow> nat"
  rm_invocation_id :: "nat \<Rightarrow> pystr"
  rm_row_id :: "nat \<Rightarrow> pystr"
  rm_row_at :: "nat \<Rightarrow> pystr"

definition step_context :: "replay_measures \<Rightarrow> pystr \<Rightarrow> pystr \<Rightarrow> trajectory_step \<Rightarrow> bool \<Rightarrow> execution_context" where
  "step_context m ws identity st granted =
     \<lparr>xc_workspace_id = ws, xc_run_id = identity, xc_invocation_id = rm_invocation_id m (tj_sequence st),
      xc_request_id = step_request_id st identity, xc_correlation_id = step_correlation st identity,
      xc_idempotency_key = step_request_id st identity, xc_actor = Ac_Eval,
      xc_human_consent_granted = granted\<rparr>"

definition replayed_event ::
    "trajectory_step \<Rightarrow> pystr \<Rightarrow> tool_execution_result \<Rightarrow> observation \<Rightarrow> observation option \<Rightarrow>
     observation_path list \<Rightarrow> int \<Rightarrow> service_error + run_event" where
  "replayed_event st correlation r before after paths now =
     bind_result (observation_hash before) (\<lambda>hb.
     bind_result (case after of None \<Rightarrow> Inr None | Some a \<Rightarrow> bind_result (observation_hash a) (\<lambda>h. Inr (Some h))) (\<lambda>ha.
       Inr \<lparr>ev_sequence_number = tj_sequence st, ev_event_type = Ev_ToolInvocationCompleted,
            ev_actor = Ac_Eval, ev_created_at = now, ev_tool_name = Some (tj_tool st),
            ev_correlation_id = Some correlation, ev_request_id = Some (tx_request_id r),
            ev_reported_status = tx_reported_status r, ev_state_version_before = ob_state_version before,
            ev_state_version_after = (case after of None \<Rightarrow> None | Some a \<Rightarrow> ob_state_version a),
            ev_state_hash_before = Some hb, ev_state_hash_after = ha, ev_duration_ms = None,
            ev_redacted_payload = [(lit ''arguments'', JObj (tj_arguments st))],
            ev_post_call_effect_state = effect_context paths (context_of after) None\<rparr>))"

record evaluation_event_row =
  vn_id :: pystr
  vn_evaluation_run_id :: pystr
  vn_sequence_number :: nat
  vn_event_type :: outcome_event_type
  vn_actor :: event_actor
  vn_tool_name :: "pystr option"
  vn_correlation_id :: "pystr option"
  vn_payload :: jobject
  vn_duration_ms :: "nat option"
  vn_created_at :: pystr

definition evaluation_event ::
    "replay_measures \<Rightarrow> pystr \<Rightarrow> trajectory_step \<Rightarrow> pystr \<Rightarrow> tool_execution_result \<Rightarrow> evaluation_event_row" where
  "evaluation_event m run_id st correlation r =
     \<lparr>vn_id = rm_row_id m (tj_sequence st), vn_evaluation_run_id = run_id,
      vn_sequence_number = tj_sequence st, vn_event_type = Ev_ToolInvocationCompleted, vn_actor = Ac_Eval,
      vn_tool_name = Some (tj_tool st), vn_correlation_id = Some correlation,
      vn_payload = [(lit ''arguments'', JObj (tj_arguments st)),
        (lit ''reported'', JObj
          [(lit ''status'', opt_str (map_option tool_reported_status_value (tx_reported_status r))),
           (lit ''summary'', JStr (tx_reported_summary r))])],
      vn_duration_ms = Some (rm_duration_ms m (tj_sequence st)),
      vn_created_at = rm_row_at m (tj_sequence st)\<rparr>"

subsection \<open>The loop over the steps\<close>

record 's replaying =
  ry_target :: 's
  ry_before :: observation
  ry_events :: "run_event list"
  ry_steps :: "trajectory_step list"
  ry_rows :: "evaluation_event_row list"

datatype loop_end = Ran | StoppedAt nat pystr | Threw raised

definition observe_or_none :: "'s target_adapter \<Rightarrow> pystr \<Rightarrow> 's \<Rightarrow> observation option" where
  "observe_or_none ad ws target = (case ad_capture ad ws target of Inl _ \<Rightarrow> None | Inr ob \<Rightarrow> Some ob)"

text \<open>Who replays, where, and under which recorded consent\<close>

record 's replay_setting =
  rs_adapter :: "'s target_adapter"
  rs_workspace :: pystr
  rs_identity :: pystr
  rs_eval_run_id :: pystr
  rs_strategy :: confirmation_strategy
  rs_decisions :: "recorded_decision list"
  rs_measures :: replay_measures

definition record_step ::
    "'s replay_setting \<Rightarrow> trajectory_step \<Rightarrow> tool_execution_result \<Rightarrow> 's \<Rightarrow> 's replaying \<Rightarrow>
     service_error + 's replaying" where
  "record_step x st r target y =
     (let correlation = step_correlation st (rs_identity x);
          paths = (case map_of (adapter_effect_map (rs_adapter x)) (tj_tool st) of None \<Rightarrow> [] | Some ps \<Rightarrow> ps);
          after = observe_or_none (rs_adapter x) (rs_workspace x) target
      in bind_result (replayed_event st correlation r (ry_before y) after paths
           (rm_event_at (rs_measures x) (tj_sequence st))) (\<lambda>e.
           Inr (y\<lparr>ry_target := target,
             ry_before := (case after of None \<Rightarrow> ry_before y | Some a \<Rightarrow> a),
             ry_events := ry_events y @ [e], ry_steps := ry_steps y @ [st],
             ry_rows := ry_rows y @ [evaluation_event (rs_measures x) (rs_eval_run_id x) st correlation r]\<rparr>)))"

fun replay_loop :: "(pystr \<Rightarrow> pystr) \<Rightarrow> 's replay_setting \<Rightarrow> trajectory_step list \<Rightarrow> 's replaying \<Rightarrow>
    's replaying \<times> loop_end" where
  "replay_loop repr_of x [] y = (y, Ran)"
| "replay_loop repr_of x (st # rest) y =
     (if tj_tool st \<notin> set (published_names (rs_adapter x)) then
        (y, Threw (Refused Api_ContractValidationFailed
          (lit ''step '' @ show_nat (tj_sequence st) @ lit '' names '' @ repr_of (tj_tool st) @
           lit '', which this adapter does not publish; the case cannot be replayed as written'')))
      else
        (let granted = grant_for (rs_strategy x) (rs_decisions x) (tj_tool st);
             ctx = step_context (rs_measures x) (rs_workspace x) (rs_identity x) st granted
         in case ad_execute (rs_adapter x) (rs_workspace x) (tj_tool st) (tj_arguments st) ctx (ry_target y) of
              (target, Inl name) \<Rightarrow>
                (y\<lparr>ry_target := target\<rparr>, StoppedAt (tj_sequence st)
                  (lit ''step '' @ show_nat (tj_sequence st) @ lit '' ('' @ tj_tool st @ lit '') failed: '' @ name))
            | (target, Inr r) \<Rightarrow>
                (case record_step x st r target y of
                   Inl _ \<Rightarrow> (y\<lparr>ry_target := target\<rparr>, Threw (Raised (lit ''CanonicalizationError'')))
                 | Inr z \<Rightarrow> replay_loop repr_of x rest z)))"

text \<open>The recorded tool surface, replayed as the events it was recorded from\<close>

definition surface_event ::
    "outcome_event_type \<Rightarrow> nat \<Rightarrow> pystr option \<Rightarrow> int \<Rightarrow> jobject \<Rightarrow> run_event" where
  "surface_event t n tool now payload =
     \<lparr>ev_sequence_number = n, ev_event_type = t, ev_actor = Ac_Eval, ev_created_at = now,
      ev_tool_name = tool, ev_correlation_id = None, ev_request_id = None, ev_reported_status = None,
      ev_state_version_before = None, ev_state_version_after = None, ev_state_hash_before = None,
      ev_state_hash_after = None, ev_duration_ms = None, ev_redacted_payload = payload,
      ev_post_call_effect_state = None\<rparr>"

definition surface_events :: "surface_record option \<Rightarrow> nat \<Rightarrow> int \<Rightarrow> run_event list" where
  "surface_events surface step_count now =
     (case surface of
        None \<Rightarrow> []
      | Some s \<Rightarrow>
          surface_event Ev_ToolSurfaceCaptured 0 None now [(lit ''tools'', JArr (map JStr (su_baseline s)))] #
          map (\<lambda>(i, d). surface_event Ev_ToolSurfaceChanged (step_count + Suc i) (rd_delta_tool d) now
              [(lit ''kind'', JStr (rd_kind d)), (lit ''namespace'', JStr (rd_partition d)),
               (lit ''tool_name'', JStr (case rd_delta_tool d of None \<Rightarrow> [] | Some t \<Rightarrow> t)),
               (lit ''before'', JNull), (lit ''after'', JNull),
               (lit ''recorded_sequence'', JInt (rd_sequence d))])
            (enumerate 0 (su_deltas s)))"

record replay_outcome =
  rx_before :: observation
  rx_after :: "observation option"
  rx_steps :: "trajectory_step list"
  rx_events :: "run_event list"
  rx_stopped_at :: "nat option"
  rx_detail :: pystr

definition replay_steps ::
    "(pystr \<Rightarrow> pystr) \<Rightarrow> 's replay_setting \<Rightarrow> trajectory_step list \<Rightarrow> surface_record option \<Rightarrow> observation \<Rightarrow> 's \<Rightarrow>
     (raised + replay_outcome) \<times> 's \<times> evaluation_event_row list" where
  "replay_steps repr_of x steps surface before target =
     (let (y, finish) = replay_loop repr_of x steps
            \<lparr>ry_target = target, ry_before = before, ry_events = [], ry_steps = [], ry_rows = []\<rparr>;
          outcome = (\<lambda>stopped detail.
            \<lparr>rx_before = before, rx_after = observe_or_none (rs_adapter x) (rs_workspace x) (ry_target y),
             rx_steps = ry_steps y,
             rx_events = ry_events y @ surface_events surface (length steps) (rm_surface_at (rs_measures x)),
             rx_stopped_at = stopped, rx_detail = detail\<rparr>)
      in (case finish of
            Ran \<Rightarrow> Inr (outcome None [])
          | StoppedAt n detail \<Rightarrow> Inr (outcome (Some n) detail)
          | Threw r \<Rightarrow> Inl r, ry_target y, ry_rows y))"

end
