(* ===== verification/Eval_Judge.thy ===== *)
theory Eval_Judge
  imports Eval_Replay
begin

section \<open>Judging a replay\<close>

text \<open>
  \<open>application/eval_run_service.py\<close>: the engine's verdict about the replayed target, its comparison
  with the case's expectation, the report, and the rows of one evaluation run from the moment it is
  opened until its workspace is cleaned.
\<close>

subsection \<open>What the engine says\<close>

record replay_verdict =
  rv_assertions :: "finding list"
  rv_policies :: "finding list"

definition verdict_findings :: "replay_verdict \<Rightarrow> finding list" where
  "verdict_findings v = rv_assertions v @ rv_policies v"

definition replay_policy_evidence ::
    "(json \<Rightarrow> pystr) \<Rightarrow> (jobject \<Rightarrow> tool_definition option) \<Rightarrow> outcome_contract \<Rightarrow> effect_map \<Rightarrow>
     run_event list \<Rightarrow> state_change list \<Rightarrow> policy_evidence" where
  "replay_policy_evidence text_of validate c em events changes =
     (let surface = surface_evidence text_of validate events in
      \<lparr>pe_events = events, pe_effect_map = em, pe_contract_paths = declared_contract_paths c,
       pe_changed_paths = Some (changed_paths_of changes), pe_changes = Some changes,
       pe_surface_baseline_recorded = fst surface, pe_identity_mismatches = [],
       pe_observed_surface_deltas = snd surface\<rparr>)"

definition evaluate_replay ::
    "(json \<Rightarrow> pystr) \<Rightarrow> (pystr \<Rightarrow> pystr) \<Rightarrow> (jobject \<Rightarrow> tool_definition option) \<Rightarrow> effect_map \<Rightarrow>
     outcome_contract \<Rightarrow> run_event list \<Rightarrow> observation \<Rightarrow> observation \<Rightarrow> evaluation_error + replay_verdict" where
  "evaluate_replay text_of repr_of validate em c events before after =
     bind_result (lift_error ArithmeticRaised
       (judged_assertions c em events (Some (as_context before)) (Some (as_context after)))) (\<lambda>assertions.
     bind_result (lift_error DiffRefused (diff_states (as_context before) (as_context after))) (\<lambda>changes.
     bind_result (lift_error EvidenceRefused
       (check_policy_evidence (replay_policy_evidence text_of validate c em events changes))) (\<lambda>evidence.
     bind_result (lift_error SurfaceRefused (evaluate_policies repr_of (oc_policies c) evidence)) (\<lambda>policies.
       Inr \<lparr>rv_assertions = assertions, rv_policies = policies\<rparr>))))"

definition verdict_classifications :: "replay_verdict \<Rightarrow> failure_classification list" where
  "verdict_classifications v =
     List.map_filter fi_classification (filter (\<lambda>f. fi_status f = Cs_Failed) (verdict_findings v))"

definition unevaluated_policies :: "replay_verdict \<Rightarrow> pystr list" where
  "unevaluated_policies v = map fi_check_id (filter (\<lambda>f. fi_status f = Cs_NotEvaluated) (rv_policies v))"

subsection \<open>The report\<close>

datatype judging_error = EngineRaised evaluation_error | CaseUnhashable canon_error

record implementation =
  im_version :: pystr
  im_build_commit :: "pystr option"

definition hashed_case :: "regression_case \<Rightarrow> judging_error + pystr" where
  "hashed_case c = lift_error CaseUnhashable (case_hash c)"

definition error_report ::
    "implementation \<Rightarrow> regression_case \<Rightarrow> eval_environment \<Rightarrow> pystr \<Rightarrow> judging_error + eval_report" where
  "error_report im c env detail =
     bind_result (hashed_case c) (\<lambda>h. Inr
       \<lparr>vp_eval_case_id = rc_id c, vp_eval_case_hash = h, vp_implementation_version = im_version im,
        vp_build_commit = im_build_commit im, vp_environment = env, vp_status = Eval_Error,
        vp_overall_result = None, vp_actual_classifications = [],
        vp_expected_classifications = xp_required_classifications (for_environment (rc_expected c) env),
        vp_classification_match = False, vp_replayed_trajectory = [], vp_final_state = None,
        vp_non_replayable_policies = rc_non_replayable_policies c, vp_detail = take 1024 detail\<rparr>)"

definition verdict_comparison :: "regression_case \<Rightarrow> eval_environment \<Rightarrow> replay_verdict \<Rightarrow> replay_comparison" where
  "verdict_comparison c env v =
     compare_replay_to_expectation (for_environment (rc_expected c) env) (aggregate (verdict_findings v))
       (verdict_classifications v) (rc_non_replayable_policies c @ unevaluated_policies v)"

definition judge_replay ::
    "(json \<Rightarrow> pystr) \<Rightarrow> (pystr \<Rightarrow> pystr) \<Rightarrow> (jobject \<Rightarrow> tool_definition option) \<Rightarrow> effect_map \<Rightarrow>
     implementation \<Rightarrow> regression_case \<Rightarrow> eval_environment \<Rightarrow> replay_outcome \<Rightarrow> judging_error + eval_report" where
  "judge_replay text_of repr_of validate em im c env x =
     (case rx_after x of
        None \<Rightarrow> error_report im c env (lit ''the target could not be observed after replay'')
      | Some after \<Rightarrow>
          if rx_stopped_at x \<noteq> None then error_report im c env (rx_detail x)
          else bind_result (lift_error EngineRaised (evaluate_replay text_of repr_of validate em
              (em_document (rc_contract c)) (rx_events x) (rx_before x) after)) (\<lambda>v.
            let result = aggregate (verdict_findings v); comparison = verdict_comparison c env v
            in bind_result (hashed_case c) (\<lambda>h. Inr
              \<lparr>vp_eval_case_id = rc_id c, vp_eval_case_hash = h, vp_implementation_version = im_version im,
               vp_build_commit = im_build_commit im, vp_environment = env,
               vp_status = (if cmp_matched comparison then Eval_Passed else Eval_Failed),
               vp_overall_result = Some result, vp_actual_classifications = cmp_actual comparison,
               vp_expected_classifications = cmp_expected comparison,
               vp_classification_match = (set (cmp_actual comparison) = set (cmp_expected comparison)),
               vp_replayed_trajectory = rx_steps x, vp_final_state = Some (ob_payload after),
               vp_non_replayable_policies = cmp_excluded_policies comparison,
               vp_detail = (if cmp_matched comparison \<and> result \<noteq> Lr_Passed
                            then lit ''reproduced the recorded outcome'' else [])\<rparr>)))"

subsection \<open>The tables of evaluation runs\<close>

record eval_run_record =
  vw_id :: pystr
  vw_owner_workspace_id :: pystr
  vw_execution_workspace_id :: pystr
  vw_evaluation_case_id :: pystr
  vw_case_content_hash :: pystr
  vw_environment :: eval_environment
  vw_version :: pystr
  vw_commit :: "pystr option"
  vw_status :: eval_status
  vw_overall_result :: "layer_result option"
  vw_started_at :: pystr
  vw_completed_at :: "pystr option"
  vw_report :: "jobject option"

record eval_workspace =
  wv_id :: pystr
  wv_owner :: pystr
  wv_created_at :: pystr
  wv_cleaned_at :: "pystr option"

record eval_tables =
  et_runs :: "eval_run_record list"
  et_events :: "evaluation_event_row list"
  et_workspaces :: "eval_workspace list"

definition open_eval_run ::
    "implementation \<Rightarrow> regression_case \<Rightarrow> eval_environment \<Rightarrow> pystr \<Rightarrow> pystr \<Rightarrow> pystr \<Rightarrow> pystr \<Rightarrow> eval_tables \<Rightarrow>
     judging_error + eval_tables" where
  "open_eval_run im c env run_id owner execution started db =
     bind_result (hashed_case c) (\<lambda>h. Inr (db\<lparr>et_runs := et_runs db @
       [\<lparr>vw_id = run_id, vw_owner_workspace_id = owner,
         vw_execution_workspace_id = (if execution = [] then owner else execution),
         vw_evaluation_case_id = rc_id c, vw_case_content_hash = h, vw_environment = env,
         vw_version = im_version im, vw_commit = im_build_commit im, vw_status = Eval_Error,
         vw_overall_result = None, vw_started_at = started, vw_completed_at = None, vw_report = None\<rparr>]\<rparr>))"

definition create_eval_workspace :: "pystr \<Rightarrow> pystr \<Rightarrow> pystr \<Rightarrow> eval_tables \<Rightarrow> eval_tables" where
  "create_eval_workspace ws owner now db =
     db\<lparr>et_workspaces := et_workspaces db @
       [\<lparr>wv_id = ws, wv_owner = owner, wv_created_at = now, wv_cleaned_at = None\<rparr>]\<rparr>"

definition purge_eval_workspace_state :: "pystr \<Rightarrow> pystr \<Rightarrow> eval_tables \<Rightarrow> eval_tables" where
  "purge_eval_workspace_state ws now db =
     db\<lparr>et_workspaces := map (\<lambda>w. if wv_id w = ws then w\<lparr>wv_cleaned_at := Some now\<rparr> else w) (et_workspaces db)\<rparr>"

definition complete_eval_run :: "pystr \<Rightarrow> pystr \<Rightarrow> eval_report \<Rightarrow> jobject \<Rightarrow> eval_run_record \<Rightarrow> eval_run_record" where
  "complete_eval_run run_id now r document row =
     (if vw_id row = run_id
      then row\<lparr>vw_status := vp_status r, vw_overall_result := vp_overall_result r,
        vw_completed_at := Some now, vw_report := Some document\<rparr>
      else row)"

definition finish_eval_run ::
    "pystr \<Rightarrow> pystr \<Rightarrow> pystr \<Rightarrow> eval_report \<Rightarrow> eval_tables \<Rightarrow> judging_error + eval_tables" where
  "finish_eval_run run_id execution now r db =
     bind_result (lift_error CaseUnhashable (stored_report_document r)) (\<lambda>document.
       let db' = db\<lparr>et_runs := map (complete_eval_run run_id now r document) (et_runs db)\<rparr>
       in Inr (if execution \<noteq> [] then purge_eval_workspace_state execution now db' else db'))"

subsection \<open>One evaluation run\<close>

text \<open>A registry slot: its name, and the adapter its factory makes when it has one.\<close>

record 's adapter_slot =
  sl_name :: pystr
  sl_adapter :: "'s target_adapter option"
  sl_target_id :: pystr

definition resolve_slot :: "'s adapter_slot list \<Rightarrow> pystr \<Rightarrow> 's adapter_slot option" where
  "resolve_slot slots identifier =
     (case find (\<lambda>s. sl_name s = identifier) slots of
        Some s \<Rightarrow> Some s
      | None \<Rightarrow> find (\<lambda>s. sl_adapter s \<noteq> None \<and> sl_target_id s = identifier) slots)"

definition names_the_same_adapter :: "'s adapter_slot \<Rightarrow> pystr \<Rightarrow> bool" where
  "names_the_same_adapter s declared \<longleftrightarrow>
     declared = sl_name s \<or> (\<exists>pre. declared = pre @ [46] @ sl_name s)"

definition slot_for :: "'s adapter_slot list \<Rightarrow> eval_target \<Rightarrow> 's target_adapter option" where
  "slot_for slots t =
     (case (case resolve_slot slots (eg_adapter t) of None \<Rightarrow> resolve_slot slots (eg_id t) | Some s \<Rightarrow> Some s) of
        None \<Rightarrow> None
      | Some s \<Rightarrow> if names_the_same_adapter s (eg_adapter t) then sl_adapter s else None)"

text \<open>How a call of \<open>run\<close> ends: with the report it returns, or with an exception that leaves it\<close>

datatype eval_end = Reported eval_report | EscapedReplay pystr | EscapedJudging judging_error

record eval_call =
  cl_run_id :: pystr
  cl_workspace :: pystr
  cl_owner :: pystr
  cl_environment :: eval_environment
  cl_started :: pystr
  cl_finished :: pystr
  cl_implementation :: implementation
  cl_measures :: replay_measures

definition replay_setting_of :: "'s target_adapter \<Rightarrow> regression_case \<Rightarrow> eval_call \<Rightarrow> 's replay_setting" where
  "replay_setting_of ad c k =
     \<lparr>rs_adapter = ad, rs_workspace = cl_workspace k, rs_identity = rc_id c, rs_eval_run_id = cl_run_id k,
      rs_strategy = rp_confirmation_strategy (rc_replay c), rs_decisions = rp_recorded_decisions (rc_replay c),
      rs_measures = cl_measures k\<rparr>"

definition replay_case ::
    "(pystr \<Rightarrow> pystr) \<Rightarrow> 's target_adapter \<Rightarrow> regression_case \<Rightarrow> eval_call \<Rightarrow> 's \<Rightarrow>
     (raised + replay_outcome) \<times> 's \<times> evaluation_event_row list" where
  "replay_case repr_of ad c k target =
     (case restore_case repr_of ad (cl_workspace k) c
         (scenario_for (cl_environment k) (es_scenario_mode (rc_source c)) (es_failure_profile (rc_source c))) target of
        (Inl r, reached) \<Rightarrow> (Inl r, reached, [])
      | (Inr before, reached) \<Rightarrow>
          replay_steps repr_of (replay_setting_of ad c k) (rc_trajectory c) (rc_surface c) before reached)"

definition finish_with ::
    "regression_case \<Rightarrow> eval_call \<Rightarrow> pystr \<Rightarrow> judging_error + eval_report \<Rightarrow> eval_tables \<Rightarrow> eval_end \<times> eval_tables" where
  "finish_with c k execution report db =
     (case report of
        Inl e \<Rightarrow> (EscapedJudging e, db)
      | Inr r \<Rightarrow>
          (case finish_eval_run (cl_run_id k) execution (cl_finished k) r db of
             Inl e \<Rightarrow> (EscapedJudging e, db)
           | Inr db' \<Rightarrow> (Reported r, db')))"

definition run_eval ::
    "(json \<Rightarrow> pystr) \<Rightarrow> (pystr \<Rightarrow> pystr) \<Rightarrow> (jobject \<Rightarrow> tool_definition option) \<Rightarrow> 's adapter_slot list \<Rightarrow>
     regression_case \<Rightarrow> eval_call \<Rightarrow> eval_tables \<Rightarrow> 's \<Rightarrow> eval_end \<times> eval_tables \<times> 's" where
  "run_eval text_of repr_of validate slots c k db target =
     (case slot_for slots (rc_target c) of
        None \<Rightarrow>
          (case open_eval_run (cl_implementation k) c (cl_environment k) (cl_run_id k) (cl_owner k) [] (cl_started k) db of
             Inl e \<Rightarrow> (EscapedJudging e, db, target)
           | Inr opened \<Rightarrow>
               (case finish_with c k [] (error_report (cl_implementation k) c (cl_environment k)
                   (lit ''no registered adapter for '' @ repr_of (eg_adapter (rc_target c)))) opened of
                  (e, db') \<Rightarrow> (e, db', target)))
      | Some ad \<Rightarrow>
          (let prepared = create_eval_workspace (cl_workspace k) (cl_owner k) (cl_started k) db in
           case open_eval_run (cl_implementation k) c (cl_environment k) (cl_run_id k) (cl_owner k) (cl_workspace k)
               (cl_started k) prepared of
             Inl e \<Rightarrow> (EscapedJudging e, prepared, target)
           | Inr opened \<Rightarrow>
               (case replay_case repr_of ad c k target of
                  (Inl (Raised name), reached, rows) \<Rightarrow>
                    (EscapedReplay name, opened\<lparr>et_events := et_events opened @ rows\<rparr>, reached)
                | (Inl (Refused code message), reached, rows) \<Rightarrow>
                    (case finish_with c k (cl_workspace k)
                        (error_report (cl_implementation k) c (cl_environment k) message)
                        (opened\<lparr>et_events := et_events opened @ rows\<rparr>) of
                       (e, db') \<Rightarrow> (e, db', reached))
                | (Inr outcome, reached, rows) \<Rightarrow>
                    (case finish_with c k (cl_workspace k)
                        (judge_replay text_of repr_of validate (adapter_effect_map ad) (cl_implementation k) c
                          (cl_environment k) outcome)
                        (opened\<lparr>et_events := et_events opened @ rows\<rparr>) of
                       (e, db') \<Rightarrow> (e, db', reached)))))"

subsection \<open>What a replayed timeline holds\<close>

lemma replayed_event_fields:
  assumes "replayed_event st correlation r before after paths now = Inr e"
  shows "ev_event_type e = Ev_ToolInvocationCompleted \<and> ev_actor e = Ac_Eval \<and> ev_sequence_number e = tj_sequence st \<and>
    ev_tool_name e = Some (tj_tool st) \<and> ev_correlation_id e = Some correlation"
  using assms by (auto simp: replayed_event_def bind_result_Inr)

lemma record_step_cases:
  assumes "record_step x st r target y = Inr z"
  obtains e where "replayed_event st (step_correlation st (rs_identity x)) r (ry_before y)
       (observe_or_none (rs_adapter x) (rs_workspace x) target)
       (case map_of (adapter_effect_map (rs_adapter x)) (tj_tool st) of None \<Rightarrow> [] | Some ps \<Rightarrow> ps)
       (rm_event_at (rs_measures x) (tj_sequence st)) = Inr e"
    and "ry_events z = ry_events y @ [e]" and "ry_steps z = ry_steps y @ [st]"
    and "ry_rows z = ry_rows y @ [evaluation_event (rs_measures x) (rs_eval_run_id x) st
       (step_correlation st (rs_identity x)) r]"
  using assms by (auto simp: record_step_def Let_def bind_result_Inr)

lemma replay_loop_Cons_cases:
  assumes "replay_loop repr_of x (st # rest) y = (z, finish)"
  obtains (stops) "ry_events z = ry_events y" "ry_steps z = ry_steps y" "ry_rows z = ry_rows y" "finish \<noteq> Ran"
  | (runs) r target y' where "record_step x st r target y = Inr y'" "replay_loop repr_of x rest y' = (z, finish)"
      "tj_tool st \<in> set (published_names (rs_adapter x))"
  using assms
  by (auto simp: Let_def split: if_splits prod.splits sum.splits)

text \<open>The loop records one completion per step it replayed, in the trajectory's order.\<close>

lemma replay_loop_prefix:
  assumes "replay_loop repr_of x steps y = (z, finish)"
  shows "\<exists>n es. ry_steps z = ry_steps y @ take n steps \<and> ry_events z = ry_events y @ es \<and>
    map ev_tool_name es = map (\<lambda>s. Some (tj_tool s)) (take n steps) \<and>
    map ev_sequence_number es = map tj_sequence (take n steps) \<and>
    (\<forall>e\<in>set es. ev_event_type e = Ev_ToolInvocationCompleted) \<and>
    (finish = Ran \<longrightarrow> take n steps = steps)"
  using assms
proof (induction steps arbitrary: y)
  case (Cons st rest)
  from Cons.prems show ?case
  proof (cases rule: replay_loop_Cons_cases)
    case stops
    then show ?thesis by (intro exI[of _ 0] exI[of _ "[]"]) simp
  next
    case (runs r target y')
    obtain e where e: "ev_event_type e = Ev_ToolInvocationCompleted" "ev_sequence_number e = tj_sequence st"
        "ev_tool_name e = Some (tj_tool st)" "ry_events y' = ry_events y @ [e]" "ry_steps y' = ry_steps y @ [st]"
      using runs(1) by (elim record_step_cases) (use replayed_event_fields in blast)
    obtain n es where "ry_steps z = ry_steps y' @ take n rest \<and> ry_events z = ry_events y' @ es \<and>
        map ev_tool_name es = map (\<lambda>s. Some (tj_tool s)) (take n rest) \<and>
        map ev_sequence_number es = map tj_sequence (take n rest) \<and>
        (\<forall>e\<in>set es. ev_event_type e = Ev_ToolInvocationCompleted) \<and> (finish = Ran \<longrightarrow> take n rest = rest)"
      using Cons.IH[OF runs(2)] by blast
    then show ?thesis using e by (intro exI[of _ "Suc n"] exI[of _ "e # es"]) simp
  qed
qed (auto intro!: exI[of _ "[]"])

definition replay_event_types :: "outcome_event_type list" where
  "replay_event_types = [Ev_ToolInvocationCompleted, Ev_ToolSurfaceCaptured, Ev_ToolSurfaceChanged]"

lemma surface_events_types:
  "e \<in> set (surface_events surface n now) \<Longrightarrow> ev_event_type e \<in> set replay_event_types"
  by (auto simp: surface_events_def surface_event_def replay_event_types_def split: option.splits)

lemma replay_steps_cases:
  assumes "replay_steps repr_of x steps surface before target = (Inr o', reached, rows)"
  obtains y finish where "replay_loop repr_of x steps
       \<lparr>ry_target = target, ry_before = before, ry_events = [], ry_steps = [], ry_rows = []\<rparr> = (y, finish)"
    and "rx_steps o' = ry_steps y"
    and "rx_events o' = ry_events y @ surface_events surface (length steps) (rm_surface_at (rs_measures x))"
    and "rx_stopped_at o' = None \<longleftrightarrow> finish = Ran" and "rx_before o' = before"
  using assms
  by (auto simp: replay_steps_def Let_def case_prod_beta split: loop_end.splits)
     (metis loop_end.distinct(1) prod.collapse)+

lemma replay_steps_events:
  assumes "replay_steps repr_of x steps surface before target = (Inr o', reached, rows)"
  shows "\<forall>e\<in>set (rx_events o'). ev_event_type e \<in> set replay_event_types"
    and "\<exists>n. rx_steps o' = take n steps \<and> (rx_stopped_at o' = None \<longrightarrow> rx_steps o' = steps)"
proof -
  obtain y finish where y: "replay_loop repr_of x steps
       \<lparr>ry_target = target, ry_before = before, ry_events = [], ry_steps = [], ry_rows = []\<rparr> = (y, finish)"
    and f: "rx_steps o' = ry_steps y" "rx_stopped_at o' = None \<longleftrightarrow> finish = Ran"
      "rx_events o' = ry_events y @ surface_events surface (length steps) (rm_surface_at (rs_measures x))"
    using assms by (rule replay_steps_cases)
  from replay_loop_prefix[OF y] obtain n es where
    "ry_steps y = take n steps" "ry_events y = es" "\<forall>e\<in>set es. ev_event_type e = Ev_ToolInvocationCompleted"
    "finish = Ran \<longrightarrow> take n steps = steps" by auto
  then show "\<forall>e\<in>set (rx_events o'). ev_event_type e \<in> set replay_event_types"
    and "\<exists>n. rx_steps o' = take n steps \<and> (rx_stopped_at o' = None \<longrightarrow> rx_steps o' = steps)"
    using f surface_events_types[of _ surface "length steps" "rm_surface_at (rs_measures x)"]
    by (auto simp: replay_event_types_def)
qed

lemma replay_case_cases:
  assumes "replay_case repr_of ad c k target = (Inr o', reached, rows)"
  obtains before start where "replay_steps repr_of (replay_setting_of ad c k) (rc_trajectory c) (rc_surface c)
      before start = (Inr o', reached, rows)"
  using assms by (auto simp: replay_case_def split: prod.splits sum.splits)

end
