(* ===== verification/Eval_Laws.thy ===== *)
theory Eval_Laws
  imports Eval_Judge Canonical_Laws
begin

section \<open>What a replay can and cannot reproduce\<close>

text \<open>
  The classifications each evaluator gives, and what follows for the comparison of a replay with its
  case: which cases no replay can match, and when a replay of the current implementation passes.
\<close>

subsection \<open>Which classification comes from where\<close>

lemma assertion_classification:
  assumes "evaluate_assertion a (initial, final) = Inr f"
  shows "fi_classification f \<in> {None, Some Fc_AssertionMismatch, Some Fc_ObservationUnavailable}"
  using assms
  by (auto simp: evaluate_assertion_def Let_def bind_result_Inr split: if_splits option.splits)

lemma classify_one_classification:
  assumes "classify_one f a evs em initial = Inr g"
  shows "fi_classification g \<in> {fi_classification f, Some Fc_FalseSuccessOrStateMismatch}"
  using assms by (rule classify_one_cases) (use blame_kept in force)+

lemma judged_assertion_classification:
  assumes "judged_assertions c em events initial final = Inr fs" and "g \<in> set fs"
  shows "fi_classification g \<in> {None, Some Fc_AssertionMismatch, Some Fc_ObservationUnavailable,
    Some Fc_FalseSuccessOrStateMismatch}"
proof -
  obtain raw where raw: "evaluate_assertions (oc_assertions c) (initial, final) = Inr raw"
    and "classify_assertion_failures raw (oc_assertions c) events (Some em) initial = Inr fs"
    using assms(1) by (auto simp: judged_assertions_def bind_result_Inr)
  then obtain f where "f \<in> set raw"
      "classify_one f (assertion_by_id (oc_assertions c) (fi_check_id f)) events em initial = Inr g"
    using assms(2) map_result_from by (fastforce simp: classify_assertion_failures_def)
  moreover then obtain a where "evaluate_assertion a (initial, final) = Inr f"
    using raw map_result_from by (fastforce simp: evaluate_assertions_def)
  ultimately show ?thesis
    using assertion_classification classify_one_classification by fastforce
qed

lemma judge_requests_classification:
  "judge_requests p cs rs = Some f \<Longrightarrow>
     fi_classification f = Some Fc_IdempotencyViolation \<or> fi_classification f = Some Fc_ObservationUnavailable"
  by (induction rs) (auto simp: Let_def split: if_splits)

text \<open>A policy gives the classifications its exclusion removes, or says it could not observe.\<close>

lemma policy_classification:
  assumes "evaluate_policy repr_of p ev = Inr f"
  shows "fi_classification f \<in> {None, Some Fc_ObservationUnavailable} \<union>
    Some ` set (policy_critical_classifications (policy_kind p))"
proof (cases p)
  case (RequiresConfirmation tool n)
  then show ?thesis using assms
    by (auto simp: evaluate_requires_confirmation_def Let_def split: list.splits if_splits)
next
  case (Idempotency tool)
  have "fi_classification f \<in> {Some Fc_IdempotencyViolation, Some Fc_ObservationUnavailable}"
    if "judge_requests (Idempotency tool) cs rs = Some f" for cs rs
    using judge_requests_classification [OF that] by simp
  then show ?thesis using assms Idempotency
    by (auto simp: evaluate_idempotency_def Let_def split: option.splits if_splits)
next
  case (MaximumMutations n)
  then show ?thesis using assms
    by (auto simp: evaluate_maximum_mutations_def Let_def split: list.splits if_splits)
next
  case (ForbiddenTool tool)
  then show ?thesis using assms
    by (auto simp: evaluate_forbidden_tool_def Let_def split: list.splits if_splits)
next
  case (NoUndeclaredChanges allowed)
  then show ?thesis using assms
    by (auto simp: evaluate_no_undeclared_changes_def Let_def split: option.splits prod.splits if_splits)
next
  case (StableToolSurface kinds)
  then show ?thesis using assms
    by (auto simp: evaluate_stable_tool_surface_def Let_def bind_result_Inr split: if_splits)
qed

subsection \<open>The replayed timeline holds no start\<close>

definition start_free :: "run_event list \<Rightarrow> bool" where
  "start_free events \<longleftrightarrow> (\<forall>e\<in>set events. ev_event_type e \<noteq> Ev_ToolInvocationStarted)"

lemma replayed_start_free:
  assumes "replay_case repr_of ad c k target = (Inr o', reached, rows)"
  shows "start_free (rx_events o')"
proof -
  obtain before start where "replay_steps repr_of (replay_setting_of ad c k) (rc_trajectory c) (rc_surface c)
      before start = (Inr o', reached, rows)"
    using assms by (rule replay_case_cases)
  then show ?thesis
    using replay_steps_events(1) by (fastforce simp: start_free_def replay_event_types_def)
qed

definition start_policies :: "policy_type list" where
  "start_policies = [Pt_RequiresConfirmation, Pt_ForbiddenTool]"

lemma start_policy_passes:
  assumes "evaluate_policy repr_of p ev = Inr f" and "start_free (pe_events ev)"
    and "policy_kind p \<in> set start_policies"
  shows "fi_status f = Cs_Passed"
proof -
  have none: "starts_for ev tool = []" for tool
    using assms(2) in_starts_for [of _ ev tool] by (auto simp: start_free_def filter_empty_conv starts_for_def is_invocation_start_def invocation_start_events_def)
  show ?thesis
    using assms(1,3) none
    by (cases p) (auto simp: start_policies_def requires_confirmation_status forbidden_tool_status)
qed

definition reproducible_classifications :: "failure_classification list" where
  "reproducible_classifications =
     [Fc_AssertionMismatch, Fc_FalseSuccessOrStateMismatch, Fc_ObservationUnavailable, Fc_IdempotencyViolation,
      Fc_UndeclaredStateChange, Fc_ToolSurfaceMutation]"

lemma replay_evidence_simps [simp]:
  "pe_events (replay_policy_evidence text_of validate c em events changes) = events"
  "pe_changes (replay_policy_evidence text_of validate c em events changes) = Some changes"
  "pe_changed_paths (replay_policy_evidence text_of validate c em events changes) = Some (changed_paths_of changes)"
  by (simp_all add: replay_policy_evidence_def Let_def)

lemma replay_evidence_consistent [simp]:
  "check_policy_evidence (replay_policy_evidence text_of validate c em events changes) =
     Inr (replay_policy_evidence text_of validate c em events changes)"
  by (simp add: check_policy_evidence_def)

lemma evaluate_replay_cases:
  assumes "evaluate_replay text_of repr_of validate em c events before after = Inr v"
  obtains changes evidence where
    "judged_assertions c em events (Some (as_context before)) (Some (as_context after)) = Inr (rv_assertions v)"
    "diff_states (as_context before) (as_context after) = Inr changes"
    "evidence = replay_policy_evidence text_of validate c em events changes"
    "evaluate_policies repr_of (oc_policies c) evidence = Inr (rv_policies v)"
  using assms
  by (auto simp: evaluate_replay_def bind_result_Inr)

lemma replay_policy_finding:
  assumes "evaluate_replay text_of repr_of validate em c events before after = Inr v" and "f \<in> set (rv_policies v)"
  obtains p changes where "p \<in> set (oc_policies c)"
    "evaluate_policy repr_of p (replay_policy_evidence text_of validate c em events changes) = Inr f"
proof -
  obtain changes where
    "evaluate_policies repr_of (oc_policies c) (replay_policy_evidence text_of validate c em events changes) =
       Inr (rv_policies v)"
    using assms(1) by (rule evaluate_replay_cases) simp
  then show thesis
    using assms(2) map_result_from that unfolding evaluate_policies_def by metis
qed

lemma set_verdict_classifications:
  "set (verdict_classifications v) =
     {y. \<exists>f\<in>set (verdict_findings v). fi_status f = Cs_Failed \<and> fi_classification f = Some y}"
  by (auto simp: verdict_classifications_def List.map_filter_def image_iff) force

lemma verdict_classifications_reproducible:
  assumes v: "evaluate_replay text_of repr_of validate em c events before after = Inr v"
    and "start_free events"
  shows "set (verdict_classifications v) \<subseteq> set reproducible_classifications"
proof
  fix x assume "x \<in> set (verdict_classifications v)"
  then obtain f where f: "f \<in> set (verdict_findings v)" "fi_status f = Cs_Failed" "fi_classification f = Some x"
    by (auto simp: set_verdict_classifications)
  then consider "f \<in> set (rv_assertions v)" | "f \<in> set (rv_policies v)" by (auto simp: verdict_findings_def)
  then show "x \<in> set reproducible_classifications"
  proof cases
    case 1
    then show ?thesis
      using v f(3) judged_assertion_classification
      by (elim evaluate_replay_cases) (fastforce simp: reproducible_classifications_def)
  next
    case 2
    then obtain p changes where p: "evaluate_policy repr_of p
        (replay_policy_evidence text_of validate c em events changes) = Inr f"
      using v by (elim replay_policy_finding)
    have "policy_kind p \<notin> set start_policies"
      using start_policy_passes [OF p] assms(2) f(2) by auto
    then show ?thesis
      using policy_classification [OF p] f(3)
      by (cases "policy_kind p") (auto simp: start_policies_def reproducible_classifications_def)
  qed
qed


text \<open>A policy is not evaluated only without a diff, and a replay always has one.\<close>

lemma policy_not_evaluated:
  assumes "evaluate_policy repr_of p ev = Inr f" and "fi_status f = Cs_NotEvaluated"
  shows "pe_changes ev = None \<or> pe_changed_paths ev = None"
  using assms
  by (cases p) (auto simp: requires_confirmation_status forbidden_tool_status maximum_mutations_status
      evaluate_idempotency_def evaluate_no_undeclared_changes_def diffed_paths_def Let_def
      dest: judge_requests_failing dest!: stable_tool_surface_status
      split: option.splits prod.splits if_splits)

lemma all_policies_evaluated:
  assumes "evaluate_replay text_of repr_of validate em c events before after = Inr v"
  shows "unevaluated_policies v = []"
proof -
  have "fi_status f \<noteq> Cs_NotEvaluated" if "f \<in> set (rv_policies v)" for f
    using assms that by (rule replay_policy_finding) (use policy_not_evaluated in force)
  then show ?thesis by (auto simp: unevaluated_policies_def filter_empty_conv)
qed

text \<open>With the final state observed, every failing assertion failed, it was not unobservable.\<close>

lemma judged_assertion_status:
  assumes "judged_assertions c em events (Some i) (Some x) = Inr fs" and "g \<in> set fs"
  shows "fi_status g \<in> {Cs_Passed, Cs_Failed} \<and> (fi_status g = Cs_Failed \<longrightarrow> fi_classification g \<noteq> None)"
proof -
  obtain raw where raw: "evaluate_assertions (oc_assertions c) (Some i, Some x) = Inr raw"
    and "classify_assertion_failures raw (oc_assertions c) events (Some em) (Some i) = Inr fs"
    using assms(1) by (auto simp: judged_assertions_def bind_result_Inr)
  then obtain f where "f \<in> set raw"
      and g: "classify_one f (assertion_by_id (oc_assertions c) (fi_check_id f)) events em (Some i) = Inr g"
    using assms(2) map_result_from by (fastforce simp: classify_assertion_failures_def)
  then obtain a where a: "evaluate_assertion a (Some i, Some x) = Inr f"
    using raw map_result_from by (fastforce simp: evaluate_assertions_def)
  obtain verdict where "f = verdict_finding (as_id a) Ct_Assertion (as_severity a) (as_path a)
       (supplied_value (as_value a)) verdict"
    using a by (rule evaluate_assertion_available) auto
  then have "fi_status f \<in> {Cs_Passed, Cs_Failed}" "classified f"
    by (auto simp: classified_def)
  then show ?thesis using classify_one_kept [OF g] by (auto simp: classified_def failed_iff)
qed

text \<open>Published names have no lone surrogate, so documents made of them have a hash.\<close>

lemma classification_text [simp]: "x \<in> set (failure_classification_value c) \<Longrightarrow> \<not> is_surrogate x"
  by (cases c) auto

lemma layer_text [simp]: "x \<in> set (layer_result_value c) \<Longrightarrow> \<not> is_surrogate x"
  by (cases c) auto

end
