(* ===== verification/Eval_Claims.thy ===== *)
theory Eval_Claims
  imports Eval_Laws
begin

section \<open>Properties of evaluation runs\<close>

text \<open>
  What the report of an evaluation run says about the target, which cases no run can reproduce, and
  what a run leaves in the tables.
\<close>

subsection \<open>How a report passes\<close>

lemma error_report_status: "error_report im c env detail = Inr r \<Longrightarrow> vp_status r = Eval_Error"
  by (auto simp: error_report_def bind_result_Inr)

lemma judge_replay_cases:
  assumes "judge_replay text_of repr_of validate em im c env x = Inr r"
  obtains (refused) "vp_status r = Eval_Error" "rx_after x = None \<or> rx_stopped_at x \<noteq> None"
  | (judged) after v where "rx_after x = Some after" "rx_stopped_at x = None"
      "evaluate_replay text_of repr_of validate em (em_document (rc_contract c)) (rx_events x) (rx_before x) after = Inr v"
      "vp_status r = (if cmp_matched (verdict_comparison c env v) then Eval_Passed else Eval_Failed)"
      "vp_overall_result r = Some (aggregate (verdict_findings v))"
  using assms error_report_status
  by (auto simp: judge_replay_def bind_result_Inr Let_def split: option.splits if_splits)

lemma verdict_matched_iff:
  assumes "evaluate_replay text_of repr_of validate em d events before after = Inr v"
  shows "cmp_matched (verdict_comparison c env v) \<longleftrightarrow>
    aggregate (verdict_findings v) = xp_overall_result (for_environment (rc_expected c) env) \<and>
    set (verdict_classifications v) - set (excluded_classifications (rc_non_replayable_policies c)) =
      set (xp_required_classifications (for_environment (rc_expected c) env)) -
      set (excluded_classifications (rc_non_replayable_policies c))"
  using all_policies_evaluated [OF assms] by (simp add: verdict_comparison_def compare_matched_iff)

lemma run_eval_cases:
  assumes "run_eval text_of repr_of validate slots c k db target = (Reported r, db', reached)"
  obtains (refused) "vp_status r = Eval_Error"
  | (replayed) ad x rows where "slot_for slots (rc_target c) = Some ad"
      "replay_case repr_of ad c k target = (Inr x, reached, rows)"
      "judge_replay text_of repr_of validate (adapter_effect_map ad) (cl_implementation k) c (cl_environment k) x = Inr r"
  using assms error_report_status
  by (auto simp: run_eval_def finish_with_def Let_def split: option.splits sum.splits prod.splits raised.splits)

lemma run_eval_passed_cases:
  assumes "run_eval text_of repr_of validate slots c k db target = (Reported r, db', reached)"
    and "vp_status r = Eval_Passed"
  obtains em events before after v where
      "evaluate_replay text_of repr_of validate em (em_document (rc_contract c)) events before after = Inr v"
      "start_free events" "cmp_matched (verdict_comparison c (cl_environment k) v)"
  using assms(1)
proof (cases rule: run_eval_cases)
  case refused
  then show thesis using assms(2) by simp
next
  case (replayed ad x rows)
  from replayed(3) show thesis
  proof (cases rule: judge_replay_cases)
    case refused
    then show thesis using assms(2) by simp
  next
    case (judged after v)
    then show thesis
      using that assms(2) replayed_start_free [OF replayed(2)] by (metis eval_status.distinct(1))
  qed
qed

subsection \<open>A replay that cannot fail the way its source did\<close>


text \<open>
  C30. A case cut from a run that passed with warnings is never reproduced either: the source keeps only
  its critical classifications, and has none, while the replay counts the failed warning itself.
\<close>

theorem warning_case_cannot_be_reproduced:
  assumes "run_eval text_of repr_of validate slots c k db target = (Reported r, db', reached)"
    and "for_environment (rc_expected c) (cl_environment k) =
      \<lparr>xp_overall_result = Lr_PassedWithWarnings, xp_required_classifications = []\<rparr>"
  shows "vp_status r \<noteq> Eval_Passed"
proof
  assume passed: "vp_status r = Eval_Passed"
  obtain em events before after v where
      v: "evaluate_replay text_of repr_of validate em (em_document (rc_contract c)) events before after = Inr v"
      "cmp_matched (verdict_comparison c (cl_environment k) v)"
    using assms(1) passed by (rule run_eval_passed_cases)
  let ?excluded = "excluded_classifications (rc_non_replayable_policies c)"
  have warned: "aggregate (verdict_findings v) = Lr_PassedWithWarnings"
    and none: "set (verdict_classifications v) \<subseteq> set ?excluded"
    using v(2) assms(2) by (auto simp: verdict_matched_iff [OF v(1)])
  from warned obtain f where f: "f \<in> set (verdict_findings v)" "failed f" "fi_severity f = Sev_Warning"
    by (auto simp: aggregate_def Let_def split: if_splits)
  moreover have "f \<notin> set (rv_policies v)"
    using v(1) f(3) evaluate_policies_critical by (elim evaluate_replay_cases) fastforce
  ultimately have a: "f \<in> set (rv_assertions v)" by (auto simp: verdict_findings_def)
  from v(1) obtain changes where judged: "judged_assertions (em_document (rc_contract c)) em events
      (Some (as_context before)) (Some (as_context after)) = Inr (rv_assertions v)"
    by (rule evaluate_replay_cases)
  have "fi_status f = Cs_Failed" "fi_classification f \<noteq> None"
    using judged_assertion_status [OF judged a] f(2) by (auto simp: failed_iff)
  then obtain y where y: "fi_classification f = Some y" "y \<in> set (verdict_classifications v)"
    using f(1) by (auto simp: set_verdict_classifications)
  then have "y \<in> {Fc_AssertionMismatch, Fc_ObservationUnavailable, Fc_FalseSuccessOrStateMismatch}"
    using judged_assertion_classification [OF judged a] by auto
  moreover have "y \<in> set ?excluded" using y none by auto
  ultimately show False using excluded_only_policies by fastforce
qed

text \<open>
  C31. Against the current implementation an evaluation passes exactly when no assertion and no policy of
  the case's contract fails on the replayed state: policies a case declares unevaluable excuse nothing.
\<close>

theorem current_evaluation_passes_iff:
  assumes "judge_replay text_of repr_of validate em im c env x = Inr r"
    and "rx_after x = Some after" and "rx_stopped_at x = None"
    and "evaluate_replay text_of repr_of validate em (em_document (rc_contract c)) (rx_events x) (rx_before x) after = Inr v"
    and "for_environment (rc_expected c) env = \<lparr>xp_overall_result = Lr_Passed, xp_required_classifications = []\<rparr>"
  shows "vp_status r = Eval_Passed \<longleftrightarrow> (\<forall>f\<in>set (verdict_findings v). \<not> failed f)"
proof -
  let ?excluded = "excluded_classifications (rc_non_replayable_policies c)"
  have status: "vp_status r = Eval_Passed \<longleftrightarrow> aggregate (verdict_findings v) = Lr_Passed \<and>
      set (verdict_classifications v) \<subseteq> set ?excluded"
    using assms(1)
  proof (cases rule: judge_replay_cases)
    case refused
    then show ?thesis using assms(2,3) by simp
  next
    case (judged after' v')
    then show ?thesis using assms(2,4,5) by (auto simp: verdict_matched_iff [OF assms(4)])
  qed
  have judged: "judged_assertions (em_document (rc_contract c)) em (rx_events x)
      (Some (as_context (rx_before x))) (Some (as_context after)) = Inr (rv_assertions v)"
    using assms(4) by (rule evaluate_replay_cases)
  have unfailed: "\<not> failed f" if "aggregate (verdict_findings v) = Lr_Passed"
      "set (verdict_classifications v) \<subseteq> set ?excluded" "f \<in> set (verdict_findings v)" for f
  proof (cases "f \<in> set (rv_assertions v)")
    case True
    have "y \<notin> set ?excluded" if "fi_classification f = Some y" for y
      using judged_assertion_classification [OF judged True] that excluded_only_policies by fastforce
    then show ?thesis
      using that(2,3) judged_assertion_status [OF judged True]
      by (fastforce simp: failed_iff set_verdict_classifications)
  next
    case False
    then have "f \<in> set (rv_policies v)" using that(3) by (auto simp: verdict_findings_def)
    then have "fi_severity f = Sev_Critical"
      using assms(4) evaluate_policies_critical by (elim evaluate_replay_cases) fastforce
    then show ?thesis using that(1,3) by (auto simp: aggregate_def Let_def split: if_splits)
  qed
  have "aggregate (verdict_findings v) = Lr_Passed \<and> set (verdict_classifications v) = {}"
    if "\<forall>f\<in>set (verdict_findings v). \<not> failed f"
    using that by (auto simp: aggregate_def Let_def set_verdict_classifications failed_iff)
  then show ?thesis using status unfailed by fastforce
qed


subsection \<open>What a run leaves\<close>

lemma finish_with_cases:
  assumes "finish_with c k execution report db = (Reported r, db')"
  obtains document where "stored_report_document r = Inr document"
    and "et_runs db' = map (complete_eval_run (cl_run_id k) (cl_finished k) r document) (et_runs db)"
    and "execution \<noteq> [] \<Longrightarrow> et_workspaces db' =
      map (\<lambda>w. if wv_id w = execution then w\<lparr>wv_cleaned_at := Some (cl_finished k)\<rparr> else w) (et_workspaces db)"
  using assms
  by (auto simp: finish_with_def finish_eval_run_def bind_result_Inr Let_def purge_eval_workspace_state_def
      split: sum.splits if_splits)

lemma open_eval_run_cases:
  assumes "open_eval_run im c env run_id owner execution started db = Inr opened"
  obtains row where "et_runs opened = et_runs db @ [row]" and "vw_id row = run_id"
    and "et_workspaces opened = et_workspaces db"
  using assms by (auto simp: open_eval_run_def bind_result_Inr)

lemma run_eval_finishes:
  assumes "run_eval text_of repr_of validate slots c k db target = (Reported r, db', reached)"
  obtains execution base opened report events where
    "open_eval_run (cl_implementation k) c (cl_environment k) (cl_run_id k) (cl_owner k) execution (cl_started k) base =
       Inr opened"
    "finish_with c k execution report (opened\<lparr>et_events := events\<rparr>) = (Reported r, db')"
    "et_runs base = et_runs db"
    "slot_for slots (rc_target c) \<noteq> None \<longrightarrow>
       execution = cl_workspace k \<and> base = create_eval_workspace (cl_workspace k) (cl_owner k) (cl_started k) db"
proof (cases "slot_for slots (rc_target c)")
  case None
  then obtain opened report where
    "open_eval_run (cl_implementation k) c (cl_environment k) (cl_run_id k) (cl_owner k) [] (cl_started k) db = Inr opened"
    "finish_with c k [] report opened = (Reported r, db')"
    using assms by (auto simp: run_eval_def Let_def split: sum.splits prod.splits)
  then show thesis using that [of "[]" db opened report "et_events opened"] None by simp
next
  case (Some ad)
  let ?base = "create_eval_workspace (cl_workspace k) (cl_owner k) (cl_started k) db"
  obtain opened report rows where
    "open_eval_run (cl_implementation k) c (cl_environment k) (cl_run_id k) (cl_owner k) (cl_workspace k)
       (cl_started k) ?base = Inr opened"
    "finish_with c k (cl_workspace k) report (opened\<lparr>et_events := et_events opened @ rows\<rparr>) = (Reported r, db')"
    using assms Some by (auto simp: run_eval_def Let_def split: sum.splits prod.splits raised.splits)
  then show thesis
    using that [of "cl_workspace k" ?base] by (simp add: create_eval_workspace_def)
qed

text \<open>
  C32. A reported evaluation leaves its row finished with the report's own status and verdict, and no
  other run's row changes; when the case's adapter is registered, its workspace has been cleaned.
\<close>

theorem evaluation_accounted_for:
  assumes "run_eval text_of repr_of validate slots c k db target = (Reported r, db', reached)"
    and "cl_run_id k \<notin> vw_id ` set (et_runs db)" and "cl_workspace k \<noteq> []"
  shows "(\<exists>row. et_runs db' = et_runs db @ [row] \<and> vw_id row = cl_run_id k \<and> vw_status row = vp_status r \<and>
      vw_overall_result row = vp_overall_result r \<and> vw_completed_at row = Some (cl_finished k) \<and> vw_report row \<noteq> None) \<and>
    (slot_for slots (rc_target c) \<noteq> None \<longrightarrow>
      (\<exists>w\<in>set (et_workspaces db'). wv_id w = cl_workspace k \<and> wv_cleaned_at w = Some (cl_finished k)))"
proof -
  obtain execution base opened report events where o:
    "open_eval_run (cl_implementation k) c (cl_environment k) (cl_run_id k) (cl_owner k) execution (cl_started k) base =
       Inr opened"
    "finish_with c k execution report (opened\<lparr>et_events := events\<rparr>) = (Reported r, db')"
    "et_runs base = et_runs db"
    "slot_for slots (rc_target c) \<noteq> None \<longrightarrow>
       execution = cl_workspace k \<and> base = create_eval_workspace (cl_workspace k) (cl_owner k) (cl_started k) db"
    using assms(1) by (rule run_eval_finishes)
  obtain row where row: "et_runs opened = et_runs db @ [row]" "vw_id row = cl_run_id k"
    and ws: "et_workspaces opened = et_workspaces base"
    using o(1,3) by (elim open_eval_run_cases) simp
  obtain document where
    runs: "et_runs db' = map (complete_eval_run (cl_run_id k) (cl_finished k) r document) (et_runs opened)"
    and cleaned: "execution \<noteq> [] \<Longrightarrow> et_workspaces db' =
      map (\<lambda>w. if wv_id w = execution then w\<lparr>wv_cleaned_at := Some (cl_finished k)\<rparr> else w) (et_workspaces opened)"
    using o(2) by (elim finish_with_cases) auto
  have "map (complete_eval_run (cl_run_id k) (cl_finished k) r document) (et_runs db) = et_runs db"
  proof (rule map_idI)
    fix x assume "x \<in> set (et_runs db)"
    then have "vw_id x \<noteq> cl_run_id k" using assms(2) by (metis imageI)
    then show "complete_eval_run (cl_run_id k) (cl_finished k) r document x = x" by (simp add: complete_eval_run_def)
  qed
  then have "et_runs db' = et_runs db @ [complete_eval_run (cl_run_id k) (cl_finished k) r document row]"
    using runs row(1) by simp
  then show ?thesis
    using row(2) cleaned ws o(4) assms(3)
    by (auto simp: complete_eval_run_def create_eval_workspace_def)
qed

subsection \<open>An evaluation of its own\<close>

text \<open>A store that is observed empty, and a case cut from a run that left out a tool it had to call\<close>

definition demo_observation :: observation where
  "demo_observation =
     \<lparr>ob_namespace = lit ''target'', ob_provider_id = lit ''p'', ob_provenance = lit ''a'', ob_schema_version = lit ''1'',
      ob_payload = [], ob_state_version = None, ob_captured_at = 0\<rparr>"

definition demo_adapter :: "unit target_adapter" where
  "demo_adapter =
     \<lparr>ad_specs = [], ad_prepare = (\<lambda>ws scenario target. Inr target),
      ad_capture = (\<lambda>ws target. Inr demo_observation),
      ad_execute = (\<lambda>ws tool arguments ctx target. (target, Inl (lit ''RuntimeError'')))\<rparr>"

definition demo_slots :: "unit adapter_slot list" where
  "demo_slots = [\<lparr>sl_name = lit ''demo'', sl_adapter = Some demo_adapter, sl_target_id = lit ''t''\<rparr>]"

definition demo_case :: "layer_result \<Rightarrow> failure_classification list \<Rightarrow> regression_case" where
  "demo_case verdict critical =
     \<lparr>rc_schema_version = case_schema_version, rc_id = lit ''eval_1'', rc_name = lit ''c'',
      rc_source = \<lparr>es_run_id = lit ''run_1'', es_implementation_version = lit ''1'', es_build_commit = None,
        es_scenario_mode = None, es_failure_profile = None, es_overall_result = verdict,
        es_critical_classifications = critical\<rparr>,
      rc_target = \<lparr>eg_type = lit ''managed_application'', eg_id = lit ''t'', eg_adapter = lit ''demo''\<rparr>,
      rc_fixture = \<lparr>ex_state_version = 0, ex_content_hash = lit ''h'', ex_target_state = [], ex_complete = True\<rparr>,
      rc_trajectory = [], rc_contract = \<lparr>em_content_hash = lit ''h'', em_document = empty_contract\<rparr>,
      rc_source_findings = [], rc_surface = None, rc_non_replayable_policies = [],
      rc_replay = \<lparr>rp_default_environment = Env_Current, rp_confirmation_strategy = NoConfirmation,
        rp_recorded_decisions = []\<rparr>,
      rc_expected = \<lparr>xs_current = \<lparr>xp_overall_result = Lr_Passed, xp_required_classifications = []\<rparr>,
        xs_reproduce_source = \<lparr>xp_overall_result = verdict, xp_required_classifications = critical\<rparr>\<rparr>\<rparr>"

definition demo_call :: "eval_environment \<Rightarrow> eval_call" where
  "demo_call env =
     \<lparr>cl_run_id = lit ''evr_1'', cl_workspace = lit ''w2'', cl_owner = lit ''w1'', cl_environment = env,
      cl_started = lit ''a'', cl_finished = lit ''b'',
      cl_implementation = \<lparr>im_version = lit ''1'', im_build_commit = None\<rparr>,
      cl_measures = \<lparr>rm_event_at = int, rm_surface_at = 0, rm_duration_ms = id, rm_invocation_id = show_nat,
        rm_row_id = show_nat, rm_row_at = show_nat\<rparr>\<rparr>"

definition no_evaluations :: eval_tables where
  "no_evaluations = \<lparr>et_runs = [], et_events = [], et_workspaces = []\<rparr>"

lemma demo_case_hash: "\<exists>h. case_hash (demo_case verdict critical) = Inr h"
  unfolding case_hash_def
  by (rule document_hash_exists)
    (auto simp: case_document_def demo_case_def source_document_def eval_target_document_def fixture_document_def
      embedded_document_def replay_document_def expectations_document_def expectation_document_def
      sorted_values_def opt_str_def empty_contract_def contract_document_def case_schema_version_def
      webmcp_protocol_def max_canonical_depth_def)

definition demo_outcome :: replay_outcome where
  "demo_outcome =
     \<lparr>rx_before = demo_observation, rx_after = Some demo_observation, rx_steps = [], rx_events = [],
      rx_stopped_at = None, rx_detail = []\<rparr>"

lemma demo_replay:
  "replay_case id demo_adapter (demo_case verdict critical) (demo_call env) () = (Inr demo_outcome, (), [])"
  by (simp add: replay_case_def restore_case_def demo_adapter_def demo_case_def fixture_mismatch_def demo_call_def
      replay_steps_def replay_setting_of_def observe_or_none_def surface_events_def demo_outcome_def Let_def)

lemma demo_diff: "diff_states (as_context demo_observation) (as_context demo_observation) = Inr []"
  by (simp add: as_context_def demo_observation_def) code_simp

lemma demo_verdict:
  "evaluate_replay (\<lambda>_. []) id (\<lambda>_. None) em empty_contract [] demo_observation demo_observation =
     Inr \<lparr>rv_assertions = [], rv_policies = []\<rparr>"
  by (simp add: evaluate_replay_def judged_assertions_def empty_contract_def evaluate_assertions_def
      classify_assertion_failures_def evaluate_policies_def demo_diff)

lemma judge_replay_fields:
  assumes "judge_replay text_of repr_of validate em im c env x = Inr r"
    and "rx_after x = Some after" and "rx_stopped_at x = None"
    and "evaluate_replay text_of repr_of validate em (em_document (rc_contract c)) (rx_events x) (rx_before x) after = Inr v"
    and "case_hash c = Inr h"
  shows "vp_eval_case_hash r = h" "vp_eval_case_id r = rc_id c" "vp_implementation_version r = im_version im"
    "vp_build_commit r = im_build_commit im" "vp_replayed_trajectory r = rx_steps x"
    "vp_final_state r = Some (ob_payload after)"
    "vp_non_replayable_policies r = cmp_excluded_policies (verdict_comparison c env v)"
    "vp_detail r = [] \<or> vp_detail r = lit ''reproduced the recorded outcome''"
  using assms by (auto simp: judge_replay_def hashed_case_def Let_def split: if_splits)

lemma demo_excluded:
  "cmp_excluded_policies (verdict_comparison (demo_case verdict critical) env \<lparr>rv_assertions = [], rv_policies = []\<rparr>) = []"
  by (simp add: verdict_comparison_def compare_replay_to_expectation_def unevaluated_policies_def sorted_set_def
      demo_case_def Let_def)

lemma demo_judged:
  "\<exists>r. judge_replay (\<lambda>_. []) id (\<lambda>_. None) em \<lparr>im_version = lit ''1'', im_build_commit = None\<rparr>
     (demo_case verdict critical) env demo_outcome = Inr r \<and>
     (\<exists>document. stored_report_document r = Inr document)"
proof -
  let ?c = "demo_case verdict critical" and ?v = "\<lparr>rv_assertions = [], rv_policies = []\<rparr>"
    and ?im = "\<lparr>im_version = lit ''1'', im_build_commit = None\<rparr>"
  obtain h where h: "case_hash ?c = Inr h" using demo_case_hash by blast
  then have plain: "\<not> is_surrogate x" if "x \<in> set h" for x
    using hash_text that by (auto simp: case_hash_def document_content_hash_def)
  have o: "rx_after demo_outcome = Some demo_observation" "rx_stopped_at demo_outcome = None"
    "rx_events demo_outcome = []" "rx_before demo_outcome = demo_observation" "rx_steps demo_outcome = []"
    by (simp_all add: demo_outcome_def)
  have v: "evaluate_replay (\<lambda>_. []) id (\<lambda>_. None) em (em_document (rc_contract ?c)) (rx_events demo_outcome)
      (rx_before demo_outcome) demo_observation = Inr ?v"
    using demo_verdict by (simp add: demo_case_def o)
  obtain r where r: "judge_replay (\<lambda>_. []) id (\<lambda>_. None) em ?im ?c env demo_outcome = Inr r"
    by (simp add: judge_replay_def o(1,2) v hashed_case_def h Let_def)
  note fields = judge_replay_fields [OF r o(1,2) v h]
  have [simp]: "rc_id ?c = lit ''eval_1''" by (simp add: demo_case_def)
  have "representable 0 (JObj (eval_report_document r))"
    using plain fields(8)
    by (cases "vp_environment r"; cases "vp_status r")
      (auto simp: eval_report_document_def fields(1-7) o(5) demo_excluded demo_observation_def case_schema_version_def
        opt_str_def sorted_values_def max_canonical_depth_def sorted_set_def split: option.splits)
  then have "\<exists>h. eval_report_hash r = Inr h" unfolding eval_report_hash_def by (rule document_hash_exists)
  then show ?thesis using r by (auto simp: stored_report_document_def)
qed

lemma demo_slot: "slot_for demo_slots (rc_target (demo_case verdict critical)) = Some demo_adapter"
  by (simp add: slot_for_def demo_slots_def demo_case_def resolve_slot_def names_the_same_adapter_def)

lemma demo_reports:
  "\<exists>r db'. run_eval (\<lambda>_. []) id (\<lambda>_. None) demo_slots (demo_case verdict critical) (demo_call env) no_evaluations () =
     (Reported r, db', ())"
proof -
  obtain h where h: "case_hash (demo_case verdict critical) = Inr h" using demo_case_hash by blast
  obtain r document where r: "judge_replay (\<lambda>_. []) id (\<lambda>_. None) (adapter_effect_map demo_adapter)
      \<lparr>im_version = lit ''1'', im_build_commit = None\<rparr> (demo_case verdict critical) env demo_outcome = Inr r"
    "stored_report_document r = Inr document"
    using demo_judged by blast
  have k: "cl_implementation (demo_call env) = \<lparr>im_version = lit ''1'', im_build_commit = None\<rparr>"
    "cl_environment (demo_call env) = env"
    by (simp_all add: demo_call_def)
  show ?thesis
    by (simp add: run_eval_def demo_slot Let_def open_eval_run_def hashed_case_def h demo_replay finish_with_def k r
        finish_eval_run_def)
qed


theorem warning_case_cannot_be_reproduced_witness:
  "\<exists>r db'. run_eval (\<lambda>_. []) id (\<lambda>_. None) demo_slots (demo_case Lr_PassedWithWarnings [])
     (demo_call Env_ReproduceSource) no_evaluations () = (Reported r, db', ()) \<and> vp_status r \<noteq> Eval_Passed"
proof -
  obtain r db' where r: "run_eval (\<lambda>_. []) id (\<lambda>_. None) demo_slots (demo_case Lr_PassedWithWarnings [])
     (demo_call Env_ReproduceSource) no_evaluations () = (Reported r, db', ())"
    using demo_reports by blast
  moreover have "vp_status r \<noteq> Eval_Passed"
    by (rule warning_case_cannot_be_reproduced [OF r])
      (simp add: demo_case_def demo_call_def for_environment_def)
  ultimately show ?thesis by blast
qed

theorem current_evaluation_passes_iff_witness:
  "\<exists>r. judge_replay (\<lambda>_. []) id (\<lambda>_. None) [] \<lparr>im_version = lit ''1'', im_build_commit = None\<rparr>
     (demo_case Lr_Failed []) Env_Current demo_outcome = Inr r \<and> vp_status r = Eval_Passed"
proof -
  obtain r where r: "judge_replay (\<lambda>_. []) id (\<lambda>_. None) [] \<lparr>im_version = lit ''1'', im_build_commit = None\<rparr>
     (demo_case Lr_Failed []) Env_Current demo_outcome = Inr r"
    using demo_judged by blast
  have "vp_status r = Eval_Passed \<longleftrightarrow>
      (\<forall>f\<in>set (verdict_findings \<lparr>rv_assertions = [], rv_policies = []\<rparr>). \<not> failed f)"
    by (rule current_evaluation_passes_iff [OF r, of demo_observation])
      (simp_all add: demo_outcome_def demo_verdict demo_case_def for_environment_def)
  then show ?thesis using r by (simp add: verdict_findings_def)
qed

theorem evaluation_accounted_for_witness:
  "\<exists>r db' row. run_eval (\<lambda>_. []) id (\<lambda>_. None) demo_slots (demo_case Lr_Failed [Fc_MissingExpectedTool])
     (demo_call Env_Current) no_evaluations () = (Reported r, db', ()) \<and> et_runs db' = [row] \<and> vw_status row = vp_status r"
proof -
  obtain r db' where r: "run_eval (\<lambda>_. []) id (\<lambda>_. None) demo_slots (demo_case Lr_Failed [Fc_MissingExpectedTool])
     (demo_call Env_Current) no_evaluations () = (Reported r, db', ())"
    using demo_reports by blast
  show ?thesis using evaluation_accounted_for [OF r] r by (auto simp: no_evaluations_def demo_call_def lit_def)
qed

end
