(* ===== verification/Eval_Generation.thy ===== *)
theory Eval_Generation
  imports Eval_Judge Eval_Laws
begin

section \<open>Generating a regression case\<close>

text \<open>
  \<open>application/eval_case_service.py\<close>: what is read from a finished run's rows, how a case is assembled
  from it and stored once, and the reads of stored cases and their evaluations. \<open>text_of\<close> is \<open>str\<close>
  of a recorded value that is no string, \<open>int_of\<close> is \<open>int\<close> of one that is no integer (\<open>None\<close> when it
  raises), \<open>validate\<close> is pydantic's reading of a stored document, and \<open>provenance\<close> gives the
  implementation columns of a run's row. A version is read when all its characters are ASCII digits.
\<close>

subsection \<open>The run\<close>

definition eligible_run_states :: "run_state list" where
  "eligible_run_states = [Run_Failed, Run_PassedWithWarnings]"

definition proposing_run_states :: "run_state list" where
  "proposing_run_states = [Run_Proposing, Run_Capturing, Run_Proposed]"

text \<open>
  \<open>GenerationEscaped\<close>: an exception no caller turns into a refusal, such as a validation error of the
  models.
\<close>

datatype generation_error = ProposalNotEligible | GenerationRefused api_error_code | GenerationEscaped

definition eligible_run :: "database \<Rightarrow> pystr \<Rightarrow> pystr \<Rightarrow> generation_error + run_row" where
  "eligible_run db ws rid =
     (case find_run db ws rid of
        None \<Rightarrow> Inl (GenerationRefused Api_ResourceNotFound)
      | Some r \<Rightarrow>
          if rn_status r \<in> set proposing_run_states then Inl ProposalNotEligible
          else if rn_status r \<notin> set eligible_run_states then Inl (GenerationRefused Api_PreconditionFailed)
          else Inr r)"

definition contract_of :: "database \<Rightarrow> run_row \<Rightarrow> generation_error + outcome_contract \<times> pystr" where
  "contract_of db r =
     (case rn_contract_id r of
        None \<Rightarrow> Inl (GenerationRefused Api_PreconditionFailed)
      | Some cid \<Rightarrow>
          if cid = [] then Inl (GenerationRefused Api_PreconditionFailed)
          else (case find (\<lambda>c. ct_id c = cid) (db_contracts db) of
              None \<Rightarrow> Inl (GenerationRefused Api_HarnessError)
            | Some c \<Rightarrow> Inr (ct_contract c, ct_content_hash c)))"

definition fixture_version :: "pystr option \<Rightarrow> int" where
  "fixture_version v =
     (case v of None \<Rightarrow> 0 | Some s \<Rightarrow> if s \<noteq> [] \<and> all_digits s then int (read_nat s 0) else 0)"

definition initial_fixture :: "database \<Rightarrow> pystr \<Rightarrow> generation_error + jobject \<times> int" where
  "initial_fixture db rid =
     (case find (\<lambda>s. sn_run_id s = rid \<and> sn_phase s = Sp_Before) (db_snapshots db) of
        None \<Rightarrow> Inl (GenerationRefused Api_PreconditionFailed)
      | Some s \<Rightarrow> Inr (ob_payload (sn_observation s), fixture_version (ob_state_version (sn_observation s))))"

subsection \<open>The evidence\<close>

definition recorded_events :: "database \<Rightarrow> pystr \<Rightarrow> (event_row \<Rightarrow> bool) \<Rightarrow> event_row list" where
  "recorded_events db rid p = filter p (sort_key ev_sequence_number (events_of db rid))"

definition named :: "pystr option \<Rightarrow> pystr" where
  "named t = (case t of None \<Rightarrow> lit ''None'' | Some s \<Rightarrow> s)"

text \<open>\<open>payload.get(k) or default\<close>\<close>

definition get_or :: "jobject \<Rightarrow> pystr \<Rightarrow> json \<Rightarrow> json" where
  "get_or payload k d =
     (case map_of payload k of None \<Rightarrow> d | Some v \<Rightarrow> if is_falsy v then d else v)"

definition replayable_step :: "nat \<Rightarrow> event_row \<Rightarrow> generation_error + replay_step" where
  "replayable_step n e =
     (case substitute_redacted (get_or (ev_redacted_payload e) (lit ''arguments'') (JObj [])) [] of
        JObj arguments \<Rightarrow> Inr (n, named (ev_tool_name e), arguments)
      | _ \<Rightarrow> Inl GenerationEscaped)"

definition trajectory_of :: "database \<Rightarrow> pystr \<Rightarrow> generation_error + replay_step list" where
  "trajectory_of db rid =
     map_result (\<lambda>(n, e). replayable_step n e)
       (enumerate 1 (recorded_events db rid
         (\<lambda>e. ev_event_type e = Ev_ToolInvocationStarted \<and> ev_actor e = Ac_Agent)))"

definition source_finding_of :: "finding \<Rightarrow> source_finding" where
  "source_finding_of f =
     \<lparr>sf_check_id = fi_check_id f, sf_classification = fi_classification f, sf_severity = fi_severity f,
      sf_status = fi_status f, sf_path = map_option path_str (fi_path f), sf_expected = fi_expected f,
      sf_actual = fi_actual f\<rparr>"

definition source_findings_of :: "database \<Rightarrow> pystr \<Rightarrow> source_finding list" where
  "source_findings_of db rid =
     map source_finding_of (sort_key fi_check_id (map snd (filter (\<lambda>rf. fst rf = rid) (db_findings db))))"

definition read_only_tools :: "'s adapter_slot list \<Rightarrow> run_row \<Rightarrow> pystr list" where
  "read_only_tools slots r =
     (case resolve_slot slots (rn_target_adapter_id r) of
        None \<Rightarrow> []
      | Some s \<Rightarrow>
          (case sl_adapter s of
             None \<Rightarrow> []
           | Some ad \<Rightarrow> map ts_name (filter (\<lambda>t. ts_side_effect t = Se_ReadOnly) (ad_specs ad))))"

definition captured_names :: "(json \<Rightarrow> pystr) \<Rightarrow> jobject \<Rightarrow> pystr list" where
  "captured_names text_of payload =
     (case get_or payload (lit ''surface'') (JObj []) of
        JObj captured \<Rightarrow>
          (case map_of captured (lit ''tools'') of
             Some (JArr tools) \<Rightarrow>
               List.map_filter (\<lambda>t. case t of
                   JObj tool \<Rightarrow> Some (case map_of tool (lit ''name'') of
                       None \<Rightarrow> [] | Some (JStr s) \<Rightarrow> s | Some v \<Rightarrow> text_of v)
                 | _ \<Rightarrow> None) tools
           | _ \<Rightarrow> [])
      | _ \<Rightarrow> [])"

definition text_or :: "(json \<Rightarrow> pystr) \<Rightarrow> jobject \<Rightarrow> pystr \<Rightarrow> pystr \<Rightarrow> pystr" where
  "text_or text_of payload k d = (case get_or payload k (JStr d) of JStr s \<Rightarrow> s | v \<Rightarrow> text_of v)"

definition recorded_sequence :: "(json \<Rightarrow> int option) \<Rightarrow> event_row \<Rightarrow> generation_error + int" where
  "recorded_sequence int_of e =
     (let own = (if ev_sequence_number e = 0 then 1 else int (ev_sequence_number e)) in
      case get_or (ev_redacted_payload e) (lit ''recorded_sequence'') (JInt own) of
        JInt n \<Rightarrow> Inr n
      | v \<Rightarrow> (case int_of v of None \<Rightarrow> Inl GenerationEscaped | Some n \<Rightarrow> Inr n))"

definition recorded_delta_of ::
    "(json \<Rightarrow> pystr) \<Rightarrow> (json \<Rightarrow> int option) \<Rightarrow> event_row \<Rightarrow> generation_error + recorded_delta" where
  "recorded_delta_of text_of int_of e =
     bind_result (recorded_sequence int_of e) (\<lambda>n.
       let d = \<lparr>rd_sequence = n, rd_kind = text_or text_of (ev_redacted_payload e) (lit ''kind'') (lit ''unknown''),
            rd_partition = text_or text_of (ev_redacted_payload e) (lit ''namespace'') (lit ''target''),
            rd_delta_tool = ev_tool_name e\<rparr>
       in if delta_ok d then Inr d else Inl GenerationEscaped)"

text \<open>A later capture replaces the baseline; without one there is no section.\<close>

definition recorded_surface ::
    "(json \<Rightarrow> pystr) \<Rightarrow> (json \<Rightarrow> int option) \<Rightarrow> database \<Rightarrow> pystr \<Rightarrow> generation_error + surface_record option" where
  "recorded_surface text_of int_of db rid =
     (let captures = recorded_events db rid (\<lambda>e. ev_event_type e = Ev_ToolSurfaceCaptured);
          changes = recorded_events db rid (\<lambda>e. ev_event_type e = Ev_ToolSurfaceChanged)
      in bind_result (map_result (recorded_delta_of text_of int_of) changes) (\<lambda>deltas.
           Inr (if captures = [] then None
             else Some \<lparr>su_baseline = captured_names text_of (ev_redacted_payload (last captures)),
                   su_deltas = deltas\<rparr>)))"

definition recorded_decisions :: "database \<Rightarrow> pystr \<Rightarrow> recorded_decision list" where
  "recorded_decisions db rid =
     map (\<lambda>e. \<lparr>rd_tool = named (ev_tool_name e), rd_approved = (ev_event_type e = Ev_ConfirmationApproved)\<rparr>)
       (filter (\<lambda>e. truthy (ev_tool_name e))
         (recorded_events db rid (\<lambda>e. ev_event_type e \<in> {Ev_ConfirmationApproved, Ev_ConfirmationDenied})))"

definition critical_of :: "source_finding list \<Rightarrow> failure_classification list" where
  "critical_of fs = remdups (List.map_filter sf_classification
     (filter (\<lambda>f. sf_status f = Cs_Failed \<and> sf_severity f = Sev_Critical) fs))"

definition strategy_for :: "recorded_decision list \<Rightarrow> confirmation_strategy" where
  "strategy_for ds =
     (if \<exists>d\<in>set ds. rd_approved d then RecordedApproval
      else if ds \<noteq> [] then RecordedDenial else NoConfirmation)"

subsection \<open>Assembly\<close>

definition gathered_inputs ::
    "(run_row \<Rightarrow> implementation) \<Rightarrow> run_row \<Rightarrow> outcome_contract \<Rightarrow> pystr \<Rightarrow> jobject \<Rightarrow> int \<Rightarrow> replay_step list \<Rightarrow>
     pystr list \<Rightarrow> source_finding list \<Rightarrow> surface_record option \<Rightarrow> recorded_decision list \<Rightarrow> layer_result \<Rightarrow> case_inputs" where
  "gathered_inputs provenance r c chash fixture version steps read_only findings surface decided verdict =
     (let (minimized, whole) = minimize_fixture fixture c in
      \<lparr>ci_name = oc_name c,
       ci_source = \<lparr>es_run_id = rn_id r, es_implementation_version = im_version (provenance r),
         es_build_commit = im_build_commit (provenance r), es_scenario_mode = rn_scenario_mode r,
         es_failure_profile = rn_failure_profile r, es_overall_result = verdict,
         es_critical_classifications = critical_of findings\<rparr>,
       ci_target = \<lparr>eg_type = lit ''managed_application'', eg_id = rn_target_id r, eg_adapter = rn_target_adapter_id r\<rparr>,
       ci_contract = c, ci_stored_contract_hash = chash, ci_fixture_state = minimized,
       ci_fixture_state_version = version, ci_fixture_is_complete = whole,
       ci_trajectory = prune_trajectory steps c read_only, ci_source_findings = findings, ci_surface = surface,
       ci_non_replayable_policies = [], ci_confirmation_strategy = strategy_for decided,
       ci_recorded_decisions = decided, ci_generator_version = case_schema_version\<rparr>)"

fun generation_of_case_error :: "case_error \<Rightarrow> generation_error" where
  "generation_of_case_error InvalidCase = GenerationEscaped"
| "generation_of_case_error _ = GenerationRefused Api_PreconditionFailed"

definition assemble_from_run ::
    "(json \<Rightarrow> pystr) \<Rightarrow> (json \<Rightarrow> int option) \<Rightarrow> (run_row \<Rightarrow> implementation) \<Rightarrow> 's adapter_slot list \<Rightarrow> database \<Rightarrow>
     pystr \<Rightarrow> pystr \<Rightarrow> generation_error + regression_case \<times> pystr" where
  "assemble_from_run text_of int_of provenance slots db ws rid =
     bind_result (eligible_run db ws rid) (\<lambda>r.
     bind_result (contract_of db r) (\<lambda>(c, chash).
     bind_result (initial_fixture db rid) (\<lambda>(fixture, version).
     bind_result (trajectory_of db rid) (\<lambda>steps.
     let findings = source_findings_of db rid; decided = recorded_decisions db rid in
     if \<not> (\<forall>f\<in>set findings. source_finding_ok f) \<or> \<not> (\<forall>d\<in>set decided. decision_ok d) then Inl GenerationEscaped
     else (case rn_overall_result r of
        None \<Rightarrow> Inl GenerationEscaped
      | Some verdict \<Rightarrow>
          bind_result (recorded_surface text_of int_of db rid) (\<lambda>surface.
            bind_result (lift_error generation_of_case_error (build_case (gathered_inputs provenance r c chash
                fixture version steps (read_only_tools slots r) findings surface decided verdict)))
              (\<lambda>built. Inr (built, chash))))))))"

subsection \<open>Stored cases\<close>

record stored_case = evaluation_case_row +
  st_contract_content_hash :: pystr
  st_generator_schema_version :: pystr
  st_schema_version :: pystr
  st_name :: pystr
  st_content_hash :: pystr
  st_document :: jobject
  st_created_at :: pystr

record generated_case =
  gn_case :: regression_case
  gn_case_id :: pystr
  gn_created :: bool

definition without_hash :: "jobject \<Rightarrow> jobject" where
  "without_hash doc = filter (\<lambda>kv. fst kv \<noteq> lit ''content_hash'') doc"

definition find_existing :: "stored_case list \<Rightarrow> pystr \<Rightarrow> pystr \<Rightarrow> stored_case option" where
  "find_existing cases rid chash =
     find (\<lambda>s. ec_source_run_id s = rid \<and> st_contract_content_hash s = chash \<and>
        st_generator_schema_version s = case_schema_version) cases"

text \<open>
  The row's text is the canonical form of its document, so a document without one is refused; the
  primary key is the case's own identifier.
\<close>

definition persist_case ::
    "(jobject \<Rightarrow> regression_case option) \<Rightarrow> pystr \<Rightarrow> pystr \<Rightarrow> pystr \<Rightarrow> regression_case \<Rightarrow> pystr \<Rightarrow> stored_case list \<Rightarrow>
     generation_error + generated_case \<times> stored_case list" where
  "persist_case validate ws now rid c chash cases =
     (case find_existing cases rid chash of
        Some s \<Rightarrow>
          (case validate (without_hash (st_document s)) of
             None \<Rightarrow> Inl GenerationEscaped
           | Some old \<Rightarrow> Inr (\<lparr>gn_case = old, gn_case_id = ec_id s, gn_created = False\<rparr>, cases))
      | None \<Rightarrow>
          (case (case_hash c, stored_case_document c) of
             (Inr h, Inr document) \<Rightarrow>
               (case canonical_text (JObj document) of
                  Inl _ \<Rightarrow> Inl GenerationEscaped
                | Inr _ \<Rightarrow>
                    if rc_id c \<in> ec_id ` set cases then Inl GenerationEscaped
                    else Inr (\<lparr>gn_case = c, gn_case_id = rc_id c, gn_created = True\<rparr>, cases @
                      [\<lparr>ec_id = rc_id c, ec_workspace_id = ws, ec_source_run_id = rid,
                        st_contract_content_hash = chash, st_generator_schema_version = case_schema_version,
                        st_schema_version = rc_schema_version c, st_name = rc_name c, st_content_hash = h,
                        st_document = document, st_created_at = now\<rparr>]))
           | _ \<Rightarrow> Inl GenerationEscaped))"

definition generate_case ::
    "(json \<Rightarrow> pystr) \<Rightarrow> (json \<Rightarrow> int option) \<Rightarrow> (jobject \<Rightarrow> regression_case option) \<Rightarrow> (run_row \<Rightarrow> implementation) \<Rightarrow>
     's adapter_slot list \<Rightarrow> database \<Rightarrow> pystr \<Rightarrow> pystr \<Rightarrow> pystr \<Rightarrow> stored_case list \<Rightarrow>
     generation_error + generated_case \<times> stored_case list" where
  "generate_case text_of int_of validate provenance slots db ws now rid cases =
     bind_result (assemble_from_run text_of int_of provenance slots db ws rid) (\<lambda>(c, chash).
       persist_case validate ws now rid c chash cases)"

subsection \<open>Reads\<close>

definition get_case ::
    "(jobject \<Rightarrow> regression_case option) \<Rightarrow> stored_case list \<Rightarrow> pystr \<Rightarrow> pystr \<Rightarrow>
     generation_error + regression_case \<times> stored_case" where
  "get_case validate cases ws cid =
     (case find (\<lambda>s. ec_id s = cid \<and> ec_workspace_id s = ws) cases of
        None \<Rightarrow> Inl (GenerationRefused Api_ResourceNotFound)
      | Some s \<Rightarrow>
          (case validate (without_hash (st_document s)) of
             None \<Rightarrow> Inl GenerationEscaped
           | Some c \<Rightarrow> Inr (c, s)))"

definition stored_document_text :: "stored_case list \<Rightarrow> pystr \<Rightarrow> pystr \<Rightarrow> jobject option" where
  "stored_document_text cases ws cid =
     map_option st_document (find (\<lambda>s. ec_id s = cid \<and> ec_workspace_id s = ws) cases)"

definition latest_eval_run :: "eval_run_record list \<Rightarrow> pystr \<Rightarrow> pystr \<Rightarrow> eval_run_record option" where
  "latest_eval_run runs ws cid =
     latest_by (\<lambda>r. (vw_started_at r, vw_id r))
       (filter (\<lambda>r. vw_evaluation_case_id r = cid \<and> vw_owner_workspace_id r = ws) runs)"

definition eval_run_of :: "eval_run_record list \<Rightarrow> pystr \<Rightarrow> pystr \<Rightarrow> pystr \<Rightarrow> eval_run_record option" where
  "eval_run_of runs ws cid rid =
     find (\<lambda>r. vw_id r = rid \<and> vw_evaluation_case_id r = cid \<and> vw_owner_workspace_id r = ws) runs"

definition list_cases :: "stored_case list \<Rightarrow> pystr \<Rightarrow> stored_case list" where
  "list_cases cases ws =
     rev (sort_key (\<lambda>s. (st_created_at s, ec_id s)) (filter (\<lambda>s. ec_workspace_id s = ws) cases))"

end
