(* ===== verification/Hash_Shape.thy ===== *)
theory Hash_Shape
  imports Canonical_Laws Eval_Cases
begin

section \<open>The shape of a content hash\<close>

text \<open>Every content hash is accepted by the pattern the models of \<open>evals/models.py\<close> put on one.\<close>

lemma length_sha_round: "length st = 8 \<Longrightarrow> length (sha_round st kw) = 8"
  by (auto simp: sha_round_def Let_def split: list.splits)

lemma length_sha_rounds: "length st = 8 \<Longrightarrow> length (foldl sha_round st kws) = 8"
  by (induction kws arbitrary: st) (simp_all add: length_sha_round)

lemma length_sha_block: "length st = 8 \<Longrightarrow> length (sha_block st block) = 8"
  by (simp add: sha_block_def Let_def length_sha_rounds)

lemma length_sha_blocks: "length st = 8 \<Longrightarrow> length (foldl sha_block st blocks) = 8"
  by (induction blocks arbitrary: st) (simp_all add: length_sha_block)

lemma length_sha_initial: "length sha_initial = 8"
proof -
  have "\<forall>n\<in>set [2, 3, 5, 7, 11, 13, 17, 19]. n \<in> {2..<312} \<and> (\<forall>d\<in>set [2..<n]. n mod d \<noteq> (0 :: nat))"
    by code_simp
  then have "set [2, 3, 5, 7, 11, 13, 17, 19] \<subseteq> set sha_primes"
    unfolding sha_primes_def set_filter set_upt by blast
  then have "card (set [2, 3, 5, 7, 11, 13, 17, 19 :: nat]) \<le> card (set sha_primes)" by (rule card_mono [rotated]) simp
  then have "8 \<le> length sha_primes" using card_length [of sha_primes] by simp
  then show ?thesis by (simp add: sha_initial_def)
qed

lemma length_sha256: "length (sha256 msg) = 8"
  by (simp add: sha256_def Let_def length_sha_blocks length_sha_initial)

lemma hex_digit_hex: "d < 16 \<Longrightarrow> 48 \<le> hex_digit d \<and> hex_digit d \<le> 57 \<or> 97 \<le> hex_digit d \<and> hex_digit d \<le> 102"
  by (auto simp: hex_digit_def)

lemma sha256_hex_shape:
  "length (sha256_hex msg) = 64 \<and> (\<forall>c\<in>set (sha256_hex msg). 48 \<le> c \<and> c \<le> 57 \<or> 97 \<le> c \<and> c \<le> 102)"
proof -
  have "length (concat (map hex_word ws)) = 8 * length ws" for ws :: "word32 list"
    by (induction ws) (simp_all add: hex_word_def)
  then show ?thesis using hex_digit_hex by (auto simp: sha256_hex_def length_sha256 hex_word_def)
qed

lemma content_hash_shape: "content_hash v = Inr h \<Longrightarrow> is_content_hash h"
proof -
  assume "content_hash v = Inr h"
  then obtain bs where h: "h = lit ''sha256:'' @ sha256_hex bs" by (auto simp: content_hash_def bind_result_Inr)
  have "length (lit ''sha256:'') = 7" by (simp add: lit_def)
  then show ?thesis using sha256_hex_shape [of bs] by (simp add: h is_content_hash_def)
qed

end
