(* ===== verification/Generation_Claims.thy ===== *)
theory Generation_Claims
  imports Eval_Generation Hash_Shape "HOL-Library.Sublist"
begin

section \<open>Properties of generated cases\<close>

text \<open>
  A generated case says what the run's rows say, and generating it again changes nothing.
\<close>

subsection \<open>What was read\<close>

lemma assemble_cases:
  assumes "assemble_from_run text_of int_of provenance slots db ws rid = Inr (c, chash)"
  obtains r contract fixture version steps surface verdict where
    "eligible_run db ws rid = Inr r" "contract_of db r = Inr (contract, chash)"
    "initial_fixture db rid = Inr (fixture, version)" "trajectory_of db rid = Inr steps"
    "rn_overall_result r = Some verdict"
    "build_case (gathered_inputs provenance r contract chash fixture version steps (read_only_tools slots r)
       (source_findings_of db rid) surface (recorded_decisions db rid) verdict) = Inr c"
  using assms
  by (auto simp: assemble_from_run_def bind_result_Inr Let_def split: if_splits option.splits sum.splits)

lemma eligible_run_id:
  assumes "eligible_run db ws rid = Inr r"
  shows "rn_id r = rid" "rn_workspace_id r = ws" "rn_status r \<in> {Run_Failed, Run_PassedWithWarnings}"
  using assms
  by (auto simp: eligible_run_def eligible_run_states_def find_run_def find_Some_iff split: option.splits if_splits)

lemma gathered_simps [simp]:
  "ci_contract (gathered_inputs prov r c h fx ver st ro fs su ds v) = c"
  "ci_stored_contract_hash (gathered_inputs prov r c h fx ver st ro fs su ds v) = h"
  "ci_trajectory (gathered_inputs prov r c h fx ver st ro fs su ds v) = prune_trajectory st c ro"
  "ci_source_findings (gathered_inputs prov r c h fx ver st ro fs su ds v) = fs"
  "es_overall_result (ci_source (gathered_inputs prov r c h fx ver st ro fs su ds v)) = v"
  "es_critical_classifications (ci_source (gathered_inputs prov r c h fx ver st ro fs su ds v)) = critical_of fs"
  "es_run_id (ci_source (gathered_inputs prov r c h fx ver st ro fs su ds v)) = rn_id r"
  "ci_non_replayable_policies (gathered_inputs prov r c h fx ver st ro fs su ds v) = []"
  "ci_fixture_state (gathered_inputs prov r c h fx ver st ro fs su ds v) = fst (minimize_fixture fx c)"
  "ci_generator_version (gathered_inputs prov r c h fx ver st ro fs su ds v) = case_schema_version"
  by (simp_all add: gathered_inputs_def case_prod_beta)

lemma set_critical_of:
  "set (critical_of fs) =
     {x. \<exists>f\<in>set fs. sf_status f = Cs_Failed \<and> sf_severity f = Sev_Critical \<and> sf_classification f = Some x}"
  by (auto simp: critical_of_def List.map_filter_def image_iff) force

lemma set_source_findings:
  "set (source_findings_of db rid) = source_finding_of ` {f. (rid, f) \<in> set (db_findings db)}"
  by (auto simp: source_findings_of_def image_iff)

subsection \<open>The replayed steps\<close>

lemma pruned_calls_subseq: "subseq (map snd (prune_trajectory steps c ro)) (map snd steps)"
  unfolding prune_calls by (rule kept_subseq)

lemma replayable_step_cases:
  assumes "replayable_step n e = Inr s"
  obtains arguments where "s = (n, named (ev_tool_name e), arguments)"
    "substitute_redacted (get_or (ev_redacted_payload e) (lit ''arguments'') (JObj [])) [] = JObj arguments"
  using assms unfolding replayable_step_def
  by (cases "substitute_redacted (get_or (ev_redacted_payload e) (lit ''arguments'') (JObj [])) []") auto

lemma trajectory_calls:
  assumes "trajectory_of db rid = Inr steps" and "(tool, arguments) \<in> set (map snd steps)"
  obtains e where "e \<in> set (db_events db)" "er_run_id e = rid" "ev_event_type e = Ev_ToolInvocationStarted"
    "ev_actor e = Ac_Agent" "tool = named (ev_tool_name e)"
    "substitute_redacted (get_or (ev_redacted_payload e) (lit ''arguments'') (JObj [])) [] = JObj arguments"
proof -
  obtain s where s: "s \<in> set steps" "snd s = (tool, arguments)" using assms(2) unfolding set_map by (metis imageE)
  let ?starts = "recorded_events db rid (\<lambda>e. ev_event_type e = Ev_ToolInvocationStarted \<and> ev_actor e = Ac_Agent)"
  have m: "map_result (\<lambda>ne. replayable_step (fst ne) (snd ne)) (enumerate 1 ?starts) = Inr steps"
    using assms(1) by (simp add: trajectory_of_def case_prod_beta')
  obtain ne where ne: "ne \<in> set (enumerate 1 ?starts)" "replayable_step (fst ne) (snd ne) = Inr s"
    using map_result_from [OF m s(1)] by blast
  have "snd ne \<in> set (map snd (enumerate 1 ?starts))" unfolding set_map using ne(1) by (rule imageI)
  then have "snd ne \<in> set ?starts" by (simp only: map_snd_enumerate)
  then have "snd ne \<in> set (db_events db)" "er_run_id (snd ne) = rid"
      "ev_event_type (snd ne) = Ev_ToolInvocationStarted" "ev_actor (snd ne) = Ac_Agent"
    by (auto simp: recorded_events_def events_of_def)
  moreover obtain args where args: "s = (fst ne, named (ev_tool_name (snd ne)), args)"
      "substitute_redacted (get_or (ev_redacted_payload (snd ne)) (lit ''arguments'') (JObj [])) [] = JObj args"
    using ne(2) by (rule replayable_step_cases)
  moreover have "tool = named (ev_tool_name (snd ne))" "arguments = args" using args(1) s(2) by simp_all
  ultimately show thesis using that by simp
qed


subsection \<open>Generating again\<close>

lemma case_document_hashless: "without_hash (case_document c) = case_document c"
  by (simp add: without_hash_def case_document_def)

lemma stored_document_hashless: "stored_case_document c = Inr d \<Longrightarrow> without_hash d = case_document c"
  using case_document_hashless [of c] by (auto simp: stored_case_document_def bind_result_Inr without_hash_def)

lemma find_snoc: "find P xs = None \<Longrightarrow> P x \<Longrightarrow> find P (xs @ [x]) = Some x"
  by (induction xs) (auto split: if_splits)

lemma persist_cases:
  assumes "persist_case validate ws now rid c chash cases = Inr (g, cases')"
  obtains (existing) s where "find_existing cases rid chash = Some s" "cases' = cases" "gn_created g = False"
      "validate (without_hash (st_document s)) = Some (gn_case g)" "gn_case_id g = ec_id s"
  | (fresh) d row where "find_existing cases rid chash = None" "cases' = cases @ [row]"
      "g = \<lparr>gn_case = c, gn_case_id = rc_id c, gn_created = True\<rparr>" "stored_case_document c = Inr d"
      "ec_id row = rc_id c" "ec_source_run_id row = rid" "st_contract_content_hash row = chash"
      "st_generator_schema_version row = case_schema_version" "st_document row = d"
  using assms
  by (auto simp: persist_case_def split: option.splits sum.splits if_splits)

text \<open>
  C28. Generating a case is idempotent: a second generation from the same rows, at any time, returns the
  stored case and leaves the stored cases as they are. The hypothesis is that reading a case's own
  document gives the case back.
\<close>

theorem generate_twice:
  assumes "generate_case text_of int_of validate provenance slots db ws now rid cases = Inr (g, cases')"
    and "validate (case_document (gn_case g)) = Some (gn_case g)"
  shows "generate_case text_of int_of validate provenance slots db ws later rid cases' =
    Inr (g\<lparr>gn_created := False\<rparr>, cases')"
proof -
  obtain c chash where a: "assemble_from_run text_of int_of provenance slots db ws rid = Inr (c, chash)"
    and p: "persist_case validate ws now rid c chash cases = Inr (g, cases')"
    using assms(1) by (auto simp: generate_case_def bind_result_Inr)
  from p have "persist_case validate ws later rid c chash cases' = Inr (g\<lparr>gn_created := False\<rparr>, cases')"
  proof (cases rule: persist_cases)
    case (existing s)
    then show ?thesis by (cases g) (simp add: persist_case_def)
  next
    case (fresh d row)
    have "find_existing cases' rid chash = Some row"
      using fresh(1,2,6-8) by (simp add: find_existing_def find_snoc)
    then show ?thesis
      using assms(2) fresh(3,5,9) stored_document_hashless [OF fresh(4)] by (simp add: persist_case_def)
  qed
  then show ?thesis by (simp add: generate_case_def a)
qed


subsection \<open>A case of its own\<close>

text \<open>A failed run whose agent called one tool and left out another\<close>

definition source_run :: run_row where
  "source_run =
     \<lparr>rn_id = lit ''run_1'', rn_workspace_id = lit ''w1'', rn_contract_id = Some (lit ''c''),
      rn_contract_content_hash = lit ''h'', rn_target_id = lit ''t'', rn_target_adapter_id = lit ''demo'',
      rn_scenario_mode = None, rn_failure_profile = None, rn_fault_active = False, rn_status = Run_Failed,
      rn_overall_result = Some Lr_Failed, rn_started_at = lit ''a'', rn_completed_at = Some (lit ''b''),
      rn_comparison_source_run_id = None\<rparr>"

definition source_tables :: "pystr \<Rightarrow> database" where
  "source_tables chash =
     \<lparr>db_workspaces = [],
      db_contracts = [\<lparr>ct_id = lit ''c'', ct_workspace_id = None, ct_content_hash = chash, ct_contract = empty_contract\<rparr>],
      db_runs = [source_run],
      db_events = [(draft_event Ev_ToolInvocationStarted Ac_Agent)\<lparr>ev_sequence_number := 1,
        ev_tool_name := Some (lit ''update_cart''), er_run_id := lit ''run_1''\<rparr>],
      db_confirmations = [], db_guidance = [],
      db_snapshots = [\<lparr>sn_run_id = lit ''run_1'', sn_phase = Sp_Before,
        sn_observation = \<lparr>ob_namespace = lit ''target'', ob_provider_id = lit ''p'', ob_provenance = lit ''a'',
          ob_schema_version = lit ''1'', ob_payload = [], ob_state_version = None, ob_captured_at = 0\<rparr>,
        sn_content_hash = lit ''h''\<rparr>],
      db_findings = [(lit ''run_1'', (basic_finding expected_tools_check_id Ct_Policy Cs_Failed Sev_Critical)
        \<lparr>fi_classification := Some Fc_MissingExpectedTool\<rparr>)],
      db_artifacts = [], db_evaluation_cases = [], db_evaluation_runs = []\<rparr>"

lemma source_contract_hash: "\<exists>h. contract_hash empty_contract = Inr h \<and> is_content_hash h"
proof -
  have "\<exists>h. contract_hash empty_contract = Inr h"
    unfolding contract_hash_def
    by (rule hash_exists) (simp add: contract_document_def empty_contract_def max_canonical_depth_def)
  then show ?thesis using content_hash_shape by (auto simp: contract_hash_def)
qed

definition source_provenance :: "run_row \<Rightarrow> implementation" where
  "source_provenance r = \<lparr>im_version = lit ''1'', im_build_commit = None\<rparr>"

lemma source_assembles:
  assumes "contract_hash empty_contract = Inr chash" and "is_content_hash chash"
  shows "\<exists>c. assemble_from_run (\<lambda>_. []) (\<lambda>_. None) source_provenance ([] :: unit adapter_slot list)
    (source_tables chash) (lit ''w1'') (lit ''run_1'') = Inr (c, chash) \<and>
    representable 0 (JObj (case_document c)) \<and> (\<forall>x\<in>set (rc_id c). \<not> is_surrogate x)"
proof -
  have [simp]: "eligible_run (source_tables chash) (lit ''w1'') (lit ''run_1'') = Inr source_run"
    by (simp add: eligible_run_def find_run_def source_tables_def source_run_def proposing_run_states_def
        eligible_run_states_def)
  have [simp]: "contract_of (source_tables chash) source_run = Inr (empty_contract, chash)"
    by (simp add: contract_of_def source_tables_def source_run_def lit_def)
  have [simp]: "initial_fixture (source_tables chash) (lit ''run_1'') = Inr ([], 0)"
    by (simp add: initial_fixture_def source_tables_def fixture_version_def)
  have [simp]: "trajectory_of (source_tables chash) (lit ''run_1'') = Inr [(1, lit ''update_cart'', [])]"
    by (simp add: trajectory_of_def recorded_events_def events_of_def source_tables_def draft_event_def
        replayable_step_def get_or_def named_def)
  have [simp]: "source_findings_of (source_tables chash) (lit ''run_1'') =
      [\<lparr>sf_check_id = expected_tools_check_id, sf_classification = Some Fc_MissingExpectedTool, sf_severity = Sev_Critical,
        sf_status = Cs_Failed, sf_path = None, sf_expected = JNull, sf_actual = JNull\<rparr>]"
    by (simp add: source_findings_of_def source_tables_def source_finding_of_def basic_finding_def)
  have [simp]: "recorded_decisions (source_tables chash) (lit ''run_1'') = []"
    "recorded_surface (\<lambda>_. []) (\<lambda>_. None) (source_tables chash) (lit ''run_1'') = Inr None"
    by (simp_all add: recorded_decisions_def recorded_surface_def recorded_events_def events_of_def source_tables_def
        draft_event_def)
  have [simp]: "read_only_tools ([] :: unit adapter_slot list) source_run = []"
    by (simp add: read_only_tools_def resolve_slot_def)
  have ok: "source_finding_ok \<lparr>sf_check_id = expected_tools_check_id, sf_classification = Some Fc_MissingExpectedTool,
      sf_severity = Sev_Critical, sf_status = Cs_Failed, sf_path = None, sf_expected = JNull, sf_actual = JNull\<rparr>"
    by (simp add: source_finding_ok_def within_length_def within_length_opt_def expected_tools_check_id_def lit_def)
  obtain v where v: "contract_document empty_contract = v" by blast
  have plain: "\<not> is_surrogate x" if "x \<in> set chash" for x
    using assms(1) hash_text that by (auto simp: contract_hash_def)
  have "\<exists>cid. case_identifier (lit ''run_1'') chash case_schema_version = Inr cid \<and> length cid = 37 \<and>
      (\<forall>x\<in>set cid. \<not> is_surrogate x)"
  proof -
    obtain h where h: "content_hash (JObj [(lit ''source_run_id'', JStr (lit ''run_1'')),
         (lit ''contract_content_hash'', JStr chash), (lit ''generator_schema_version'', JStr case_schema_version)]) = Inr h"
      using hash_exists [of "JObj [(lit ''source_run_id'', JStr (lit ''run_1'')),
         (lit ''contract_content_hash'', JStr chash), (lit ''generator_schema_version'', JStr case_schema_version)]"] plain
      by (auto simp: max_canonical_depth_def case_schema_version_def)
    then have "length h = 71" using content_hash_shape by (simp add: is_content_hash_def)
    moreover have "\<not> is_surrogate x" if "x \<in> set (take 32 (drop 7 h))" for x
      using hash_text [OF h] that by (meson in_set_dropD in_set_takeD)
    ultimately show ?thesis using h by (auto simp: case_identifier_def)
  qed
  then obtain cid where cid: "case_identifier (lit ''run_1'') chash case_schema_version = Inr cid" "length cid = 37"
    and cid_plain: "\<forall>x\<in>set cid. \<not> is_surrogate x"
    by blast
  obtain fh where fh: "content_hash (JObj []) = Inr fh"
    using hash_exists [of "JObj []"] by (auto simp: max_canonical_depth_def)
  have small: "minimize_fixture [] empty_contract = ([], True)"
    by (simp add: minimize_fixture_def empty_contract_def requires_complete_state_def referenced_roots_def contract_paths_def)
  have one: "prune_trajectory [(Suc 0, lit ''update_cart'', [])] empty_contract [] = [(Suc 0, lit ''update_cart'', [])]"
    by (simp add: prune_trajectory_def kept_steps_def droppable_def)
  have fields: "rn_id source_run = lit ''run_1''" "rn_overall_result source_run = Some Lr_Failed"
    "rn_scenario_mode source_run = None" "rn_failure_profile source_run = None" "rn_target_id source_run = lit ''t''"
    "rn_target_adapter_id source_run = lit ''demo''" "oc_name empty_contract = lit ''c''"
    by (simp_all add: source_run_def empty_contract_def)
  define i where "i = gathered_inputs source_provenance source_run empty_contract chash [] 0
      [(Suc 0, lit ''update_cart'', [])] [] (source_findings_of (source_tables chash) (lit ''run_1'')) None [] Lr_Failed"
  note parts = i_def gathered_inputs_def small one fields source_provenance_def strategy_for_def assembled_case_def
    case_steps_def
  have assembled: "assemble_from_run (\<lambda>_. []) (\<lambda>_. None) source_provenance ([] :: unit adapter_slot list)
      (source_tables chash) (lit ''w1'') (lit ''run_1'') = Inr (assembled_case i cid fh, chash)"
    using content_hash_shape [OF fh] assms cid(2)
    by (simp add: assemble_from_run_def Let_def ok parts build_case_def cid fh eligible_source_results_def step_ok_def
        source_ok_def eval_target_ok_def case_ok_def fixture_ok_def trajectory_dense_def within_length_def within_length_opt_def
        hashed_def)
  have hashes: "representable 0 (JObj (case_document (assembled_case i cid fh)))"
  proof -
    have c: "rc_schema_version (assembled_case i cid fh) = lit ''1.0''" "rc_id (assembled_case i cid fh) = cid"
      "rc_name (assembled_case i cid fh) = lit ''c''"
      "rc_target (assembled_case i cid fh) = \<lparr>eg_type = lit ''managed_application'', eg_id = lit ''t'', eg_adapter = lit ''demo''\<rparr>"
      "rc_fixture (assembled_case i cid fh) =
        \<lparr>ex_state_version = 0, ex_content_hash = fh, ex_target_state = [], ex_complete = True\<rparr>"
      "rc_trajectory (assembled_case i cid fh) = [\<lparr>tj_sequence = 1, tj_tool = lit ''update_cart'', tj_arguments = []\<rparr>]"
      "rc_contract (assembled_case i cid fh) = \<lparr>em_content_hash = chash, em_document = empty_contract\<rparr>"
      "rc_surface (assembled_case i cid fh) = None" "rc_non_replayable_policies (assembled_case i cid fh) = []"
      "rc_replay (assembled_case i cid fh) = \<lparr>rp_default_environment = Env_Current,
        rp_confirmation_strategy = NoConfirmation, rp_recorded_decisions = []\<rparr>"
      by (simp_all add: parts case_schema_version_def)
    have e: "\<exists>v cs. rc_source (assembled_case i cid fh) =
        \<lparr>es_run_id = lit ''run_1'', es_implementation_version = lit ''1'', es_build_commit = None, es_scenario_mode = None,
         es_failure_profile = None, es_overall_result = v, es_critical_classifications = cs\<rparr>"
      "\<exists>v cs. rc_expected (assembled_case i cid fh) =
        \<lparr>xs_current = \<lparr>xp_overall_result = Lr_Passed, xp_required_classifications = []\<rparr>,
         xs_reproduce_source = \<lparr>xp_overall_result = v, xp_required_classifications = cs\<rparr>\<rparr>"
      "rc_source_findings (assembled_case i cid fh) = source_findings_of (source_tables chash) (lit ''run_1'')"
      by (simp_all add: parts)
    have "representable 1 (source_document (rc_source (assembled_case i cid fh)))"
      using e(1) by (auto simp: source_document_def sorted_values_def opt_str_def webmcp_protocol_def max_canonical_depth_def)
    moreover have "representable 1 (expectations_document (rc_expected (assembled_case i cid fh)))"
      using e(2) by (auto simp: expectations_document_def expectation_document_def sorted_values_def max_canonical_depth_def)
    moreover have "\<forall>f\<in>set (rc_source_findings (assembled_case i cid fh)). representable 2 (source_finding_document f)"
      unfolding e(3) by (simp add: source_finding_document_def opt_str_def max_canonical_depth_def expected_tools_check_id_def)
    moreover have "representable 1 (embedded_document \<lparr>em_content_hash = chash, em_document = empty_contract\<rparr>)"
      using plain by (simp add: embedded_document_def contract_document_def empty_contract_def max_canonical_depth_def)
    moreover have "representable 2 (step_document \<lparr>tj_sequence = 1, tj_tool = lit ''update_cart'', tj_arguments = []\<rparr>)"
      by (simp add: step_document_def max_canonical_depth_def)
    moreover have "representable 1 (fixture_document
        \<lparr>ex_state_version = 0, ex_content_hash = fh, ex_target_state = [], ex_complete = True\<rparr>)"
      using hash_text [OF fh] by (simp add: fixture_document_def max_canonical_depth_def)
    ultimately show ?thesis
      using cid_plain
      by (simp add: case_document_def c eval_target_document_def replay_document_def max_canonical_depth_def
          numeral_2_eq_2 sorted_set_def)
  qed
  have named: "rc_id (assembled_case i cid fh) = cid" by (simp add: assembled_case_def)
  show ?thesis
    by (rule exI [of _ "assembled_case i cid fh"], intro conjI, rule assembled, rule hashes, unfold named, rule cid_plain)
qed


theorem generate_twice_witness:
  "\<exists>chash c g cases. let validate = (\<lambda>_. Some c);
      generate = (\<lambda>now. generate_case (\<lambda>_. []) (\<lambda>_. None) validate source_provenance ([] :: unit adapter_slot list)
        (source_tables chash) (lit ''w1'') now (lit ''run_1''))
    in generate (lit ''a'') [] = Inr (g, cases) \<and> gn_created g \<and> generate (lit ''b'') cases = Inr (g\<lparr>gn_created := False\<rparr>, cases)"
proof -
  obtain chash where h: "contract_hash empty_contract = Inr chash" "is_content_hash chash"
    using source_contract_hash by blast
  obtain c where c: "assemble_from_run (\<lambda>_. []) (\<lambda>_. None) source_provenance ([] :: unit adapter_slot list)
      (source_tables chash) (lit ''w1'') (lit ''run_1'') = Inr (c, chash)" "representable 0 (JObj (case_document c))"
    using source_assembles [OF h] by blast
  obtain ch where ch: "case_hash c = Inr ch" using document_hash_exists [OF c(2)] by (auto simp: case_hash_def)
  then have "\<not> is_surrogate x" if "x \<in> set ch" for x
    using hash_text that by (auto simp: case_hash_def document_content_hash_def)
  then have "representable 0 (JObj (case_document c @ [(lit ''content_hash'', JStr ch)]))"
    using c(2) by (auto simp: max_canonical_depth_def)
  then obtain t where t: "canonical_text (JObj (case_document c @ [(lit ''content_hash'', JStr ch)])) = Inr t"
    using canonical_form_iff [of 0] unfolding canonical_text_def by blast
  obtain g cases where g: "generate_case (\<lambda>_. []) (\<lambda>_. None) (\<lambda>_. Some c) source_provenance
      ([] :: unit adapter_slot list) (source_tables chash) (lit ''w1'') (lit ''a'') (lit ''run_1'') [] = Inr (g, cases)"
      and "gn_case g = c" "gn_created g"
    by (simp add: generate_case_def c(1) persist_case_def find_existing_def ch stored_case_document_def t)
  moreover have "generate_case (\<lambda>_. []) (\<lambda>_. None) (\<lambda>_. Some c) source_provenance ([] :: unit adapter_slot list)
      (source_tables chash) (lit ''w1'') (lit ''b'') (lit ''run_1'') cases = Inr (g\<lparr>gn_created := False\<rparr>, cases)"
    using generate_twice [OF g] \<open>gn_case g = c\<close> by simp
  ultimately show ?thesis unfolding Let_def by blast
qed

end
