(* ===== verification/Benchmark_Reports.thy ===== *)
theory Benchmark_Reports
  imports Benchmarks Canonical_Laws "HOL-Library.Sublist"
begin

section \<open>Approved variants and benchmark reports\<close>

text \<open>
  \<open>benchmarks/intents.py\<close>, \<open>benchmarks/approval.py\<close> and the documents of \<open>benchmarks/models.py\<close>: which
  variants of an intent may be benchmarked and how a person's approval is bound to them, and the manifest
  and report of a benchmark. Python's Unicode tables are parameters: \<open>forbidden\<close> tells whether the
  category of a character is one an intent may not hold, \<open>trim\<close> and \<open>casefold\<close> are the methods \<open>strip\<close> and \<open>casefold\<close> of
  \<open>str\<close>. An instant is its printed text.
\<close>

subsection \<open>Candidates\<close>

datatype variant_kind = Vk_Paraphrased | Vk_Ambiguous | Vk_Adversarial

fun variant_kind_value :: "variant_kind \<Rightarrow> pystr" where
  "variant_kind_value Vk_Paraphrased = lit ''paraphrased''"
| "variant_kind_value Vk_Ambiguous = lit ''ambiguous''"
| "variant_kind_value Vk_Adversarial = lit ''adversarial''"

definition max_intent_variants :: nat where "max_intent_variants = 6"
definition max_intent_variant_chars :: nat where "max_intent_variant_chars = 500"
definition min_intent_variant_chars :: nat where "min_intent_variant_chars = 8"

record intent_variant =
  iv_kind :: variant_kind
  iv_text :: pystr

definition offending_characters :: "(nat \<Rightarrow> bool) \<Rightarrow> pystr \<Rightarrow> pystr" where
  "offending_characters forbidden s = filter forbidden s"

definition intent_length_ok :: "pystr \<Rightarrow> bool" where
  "intent_length_ok s \<longleftrightarrow> min_intent_variant_chars \<le> length s \<and> length s \<le> max_intent_variant_chars"

definition variant_ok :: "(nat \<Rightarrow> bool) \<Rightarrow> (pystr \<Rightarrow> pystr) \<Rightarrow> intent_variant \<Rightarrow> bool" where
  "variant_ok forbidden trim v \<longleftrightarrow>
     intent_length_ok (iv_text v) \<and> offending_characters forbidden (iv_text v) = [] \<and> trim (iv_text v) \<noteq> []"

definition variant_document :: "intent_variant \<Rightarrow> json" where
  "variant_document v = JObj [(lit ''kind'', JStr (variant_kind_value (iv_kind v))), (lit ''text'', JStr (iv_text v))]"

record candidate_variants =
  cv_canonical_intent :: pystr
  cv_variants :: "intent_variant list"

datatype variant_error =
    VariantRefused
  | TooManyVariants
  | DuplicateVariant
  | RepeatsIntent
  | NotHuman
  | RepeatedDecision
  | DecisionsOutOfOrder
  | OtherSet
  | NoSuchVariant
  | MetadataRefused
  | SetUnhashable canon_error

definition normal_text :: "(pystr \<Rightarrow> pystr) \<Rightarrow> (pystr \<Rightarrow> pystr) \<Rightarrow> pystr \<Rightarrow> pystr" where
  "normal_text trim casefold s = casefold (trim s)"

definition check_candidates ::
    "(pystr \<Rightarrow> pystr) \<Rightarrow> (pystr \<Rightarrow> pystr) \<Rightarrow> candidate_variants \<Rightarrow> variant_error + candidate_variants" where
  "check_candidates trim casefold c =
     (let seen = map (\<lambda>v. normal_text trim casefold (iv_text v)) (cv_variants c) in
      if \<not> intent_length_ok (cv_canonical_intent c) then Inl VariantRefused
      else if max_intent_variants < length (cv_variants c) then Inl TooManyVariants
      else if \<not> distinct seen then Inl DuplicateVariant
      else if normal_text trim casefold (cv_canonical_intent c) \<in> set seen then Inl RepeatsIntent
      else Inr c)"

definition validate_candidates ::
    "(nat \<Rightarrow> bool) \<Rightarrow> (pystr \<Rightarrow> pystr) \<Rightarrow> (pystr \<Rightarrow> pystr) \<Rightarrow> pystr \<Rightarrow> intent_variant list \<Rightarrow>
     variant_error + candidate_variants" where
  "validate_candidates forbidden trim casefold intent vs =
     (if \<not> (\<forall>v\<in>set vs. variant_ok forbidden trim v) then Inl VariantRefused
      else check_candidates trim casefold \<lparr>cv_canonical_intent = intent, cv_variants = vs\<rparr>)"

definition candidates_document :: "candidate_variants \<Rightarrow> json" where
  "candidates_document c = JObj [(lit ''canonical_intent'', JStr (cv_canonical_intent c)),
     (lit ''variants'', JArr (map variant_document (cv_variants c)))]"

definition variants_fingerprint :: "candidate_variants \<Rightarrow> canon_error + pystr" where
  "variants_fingerprint c = content_hash (candidates_document c)"

subsection \<open>Approval\<close>

record variant_approval =
  va_candidates_fingerprint :: pystr
  va_approved_indices :: "nat list"
  va_actor :: event_actor
  va_reviewer :: pystr
  va_approved_at :: pystr
  va_note :: pystr

definition check_approval :: "variant_approval \<Rightarrow> variant_error + variant_approval" where
  "check_approval a =
     (if va_reviewer a = [] \<or> 128 < length (va_reviewer a) \<or> 500 < length (va_note a) then Inl MetadataRefused
      else if va_actor a \<noteq> Ac_Human then Inl NotHuman
      else if \<not> distinct (va_approved_indices a) then Inl RepeatedDecision
      else if va_approved_indices a \<noteq> sort (va_approved_indices a) then Inl DecisionsOutOfOrder
      else Inr a)"

definition approval_document :: "variant_approval \<Rightarrow> json" where
  "approval_document a = JObj
     [(lit ''candidates_fingerprint'', JStr (va_candidates_fingerprint a)),
      (lit ''approved_indices'', JArr (map (\<lambda>i. JInt (int i)) (va_approved_indices a))),
      (lit ''actor'', JStr (event_actor_value (va_actor a))), (lit ''reviewer'', JStr (va_reviewer a)),
      (lit ''approved_at'', JStr (va_approved_at a)), (lit ''note'', JStr (va_note a))]"

record approved_variants =
  av_candidates :: candidate_variants
  av_approval :: variant_approval

definition check_approved :: "candidate_variants \<Rightarrow> variant_approval \<Rightarrow> variant_error + approved_variants" where
  "check_approved c a =
     (case variants_fingerprint c of
        Inl e \<Rightarrow> Inl (SetUnhashable e)
      | Inr expected \<Rightarrow>
          if va_candidates_fingerprint a \<noteq> expected then Inl OtherSet
          else if \<exists>i\<in>set (va_approved_indices a). length (cv_variants c) \<le> i then Inl NoSuchVariant
          else Inr \<lparr>av_candidates = c, av_approval = a\<rparr>)"

definition approved_of :: "approved_variants \<Rightarrow> intent_variant list" where
  "approved_of a = map (\<lambda>i. cv_variants (av_candidates a) ! i) (va_approved_indices (av_approval a))"

definition rejected_of :: "approved_variants \<Rightarrow> intent_variant list" where
  "rejected_of a = map snd (filter (\<lambda>(i, _). i \<notin> set (va_approved_indices (av_approval a)))
     (enumerate 0 (cv_variants (av_candidates a))))"

definition approved_document :: "approved_variants \<Rightarrow> json" where
  "approved_document a = JObj [(lit ''canonical_intent'', JStr (cv_canonical_intent (av_candidates a))),
     (lit ''approved'', JArr (map variant_document (approved_of a))),
     (lit ''approval'', approval_document (av_approval a))]"

definition approve_variants ::
    "candidate_variants \<Rightarrow> nat list \<Rightarrow> pystr \<Rightarrow> pystr \<Rightarrow> pystr \<Rightarrow> event_actor \<Rightarrow> variant_error + approved_variants" where
  "approve_variants c indices reviewer at_time note actor =
     (case variants_fingerprint c of
        Inl e \<Rightarrow> Inl (SetUnhashable e)
      | Inr fp \<Rightarrow> bind_result (check_approval
          \<lparr>va_candidates_fingerprint = fp, va_approved_indices = indices, va_actor = actor, va_reviewer = reviewer,
           va_approved_at = at_time, va_note = note\<rparr>) (\<lambda>a. check_approved c a))"

record frozen_variant_set =
  fv_canonical_intent :: pystr
  fv_variants :: "intent_variant list"
  fv_approval :: variant_approval

definition freeze_variants :: "approved_variants \<Rightarrow> frozen_variant_set" where
  "freeze_variants a =
     \<lparr>fv_canonical_intent = cv_canonical_intent (av_candidates a), fv_variants = approved_of a,
      fv_approval = av_approval a\<rparr>"

definition frozen_document :: "frozen_variant_set \<Rightarrow> json" where
  "frozen_document f = JObj [(lit ''canonical_intent'', JStr (fv_canonical_intent f)),
     (lit ''variants'', JArr (map variant_document (fv_variants f))),
     (lit ''approval'', approval_document (fv_approval f))]"

definition frozen_hash :: "frozen_variant_set \<Rightarrow> canon_error + pystr" where
  "frozen_hash f = content_hash (frozen_document f)"

subsection \<open>What a person approved\<close>

lemma strictly_sorted: "distinct xs \<Longrightarrow> xs = sort xs \<Longrightarrow> sorted_wrt (<) (xs :: nat list)"
  by (metis sorted_sort strict_sorted_iff)

lemma nth_subseq:
  "sorted_wrt (<) is \<Longrightarrow> \<forall>i\<in>set is. i < length xs \<Longrightarrow> subseq (map (\<lambda>i. xs ! i) is) xs"
proof (induction xs arbitrary: "is")
  case (Cons x xs)
  let ?down = "\<lambda>js. map (\<lambda>j. j - 1) js"
  have rest: "subseq (map (\<lambda>i. (x # xs) ! i) js) xs" if js: "sorted_wrt (<) js" "\<forall>i\<in>set js. 0 < i \<and> i < Suc (length xs)" for js
  proof -
    have "sorted_wrt (<) (?down js)"
      using js by (auto simp: sorted_wrt_map intro!: sorted_wrt_mono_rel [of js "(<)"])
    moreover have "\<forall>i\<in>set (?down js). i < length xs" using js(2) by fastforce
    ultimately have down: "subseq (map (\<lambda>i. xs ! i) (?down js)) xs" by (rule Cons.IH)
    have same: "map (\<lambda>i. xs ! i) (?down js) = map (\<lambda>i. (x # xs) ! i) js"
      unfolding map_map by (rule map_cong) (use js(2) in \<open>auto simp: nth_Cons split: nat.splits\<close>)
    show ?thesis using down unfolding same .
  qed
  show ?case
  proof (cases "is")
    case (Cons i js)
    have js: "sorted_wrt (<) js" "\<forall>j\<in>set js. 0 < j \<and> j < Suc (length xs)"
      using Cons.prems Cons by (auto intro: le_less_trans)
    show ?thesis
    proof (cases i)
      case 0
      then show ?thesis using rest [OF js] Cons by simp
    next
      case (Suc k)
      then have "subseq (map (\<lambda>i. (x # xs) ! i) is) xs" using Cons.prems Cons js by (intro rest) auto
      then show ?thesis by (rule list_emb_Cons)
    qed
  qed simp
qed simp

lemma enumerate_as_map: "enumerate 0 xs = map (\<lambda>i. (i, xs ! i)) [0..<length xs]"
  by (rule nth_equalityI) (auto simp: nth_enumerate_eq)




subsection \<open>Documents of a benchmark\<close>

datatype source_kind = Sk_ExternalImport | Sk_LiveModelRun | Sk_RecordedFixture

fun source_kind_value :: "source_kind \<Rightarrow> pystr" where
  "source_kind_value Sk_ExternalImport = lit ''external_import''"
| "source_kind_value Sk_LiveModelRun = lit ''live_model_run''"
| "source_kind_value Sk_RecordedFixture = lit ''recorded_fixture''"

fun correlation_mode_value :: "correlation_mode \<Rightarrow> pystr" where
  "correlation_mode_value ExecutedBrowser = lit ''executed_browser''"
| "correlation_mode_value ImportedTrajectoryReplay = lit ''imported_trajectory_replay''"

fun call_level_result_value :: "call_level_result \<Rightarrow> pystr" where
  "call_level_result_value Call_Passed = lit ''passed''"
| "call_level_result_value Call_Failed = lit ''failed''"
| "call_level_result_value Call_Error = lit ''error''"

fun outcome_trial_result_value :: "outcome_trial_result \<Rightarrow> pystr" where
  "outcome_trial_result_value Outcome_Passed = lit ''passed''"
| "outcome_trial_result_value Outcome_PassedWithWarnings = lit ''passed_with_warnings''"
| "outcome_trial_result_value Outcome_Failed = lit ''failed''"
| "outcome_trial_result_value Outcome_Error = lit ''error''"
| "outcome_trial_result_value Outcome_NotReached = lit ''not_reached''"

fun trial_eligibility_value :: "trial_eligibility \<Rightarrow> pystr" where
  "trial_eligibility_value Trial_Eligible = lit ''eligible''"
| "trial_eligibility_value Trial_Excluded = lit ''excluded''"

fun exclusion_reason_value :: "exclusion_reason \<Rightarrow> pystr" where
  "exclusion_reason_value Excl_EvaluatorError = lit ''evaluator_error''"
| "exclusion_reason_value Excl_Unbound = lit ''unbound''"
| "exclusion_reason_value Excl_MissingTrajectory = lit ''missing_trajectory''"
| "exclusion_reason_value Excl_OutcomeNotReached = lit ''outcome_not_reached''"
| "exclusion_reason_value Excl_OutcomeError = lit ''outcome_error''"
| "exclusion_reason_value Excl_HarnessError = lit ''harness_error''"

record trial_binding =
  tb_external_trial_id :: pystr
  tb_correlation_mode :: correlation_mode
  tb_outcome_run_id :: "pystr option"
  tb_evaluation_run_id :: "pystr option"

definition binding_ok :: "trial_binding \<Rightarrow> bool" where
  "binding_ok b \<longleftrightarrow>
     (if tb_correlation_mode b = ExecutedBrowser
      then tb_outcome_run_id b \<noteq> None \<and> tb_evaluation_run_id b = None
      else tb_outcome_run_id b = None)"

text \<open>The columns of a trial the matrix does not read\<close>

record recorded_trial = normalized_trial +
  nt_contract_content_hash :: "pystr option"
  nt_outcome_run_id :: "pystr option"
  nt_evaluation_run_id :: "pystr option"
  nt_trajectory :: "jobject list"
  nt_metadata :: jobject
  nt_addressable :: bool

definition opt_text :: "pystr option \<Rightarrow> json" where
  "opt_text s = (case s of None \<Rightarrow> JNull | Some t \<Rightarrow> JStr t)"

definition trial_document :: "recorded_trial \<Rightarrow> json" where
  "trial_document t = JObj
     [(lit ''external_trial_id'', JStr (nt_external_trial_id t)), (lit ''scenario_id'', JStr (nt_scenario_id t)),
      (lit ''correlation_mode'', JStr (correlation_mode_value (nt_correlation_mode t))),
      (lit ''call_level_result'', JStr (call_level_result_value (nt_call_level_result t))),
      (lit ''outcome_result'', JStr (outcome_trial_result_value (nt_outcome_result t))),
      (lit ''eligibility'', JStr (trial_eligibility_value (nt_eligibility t))),
      (lit ''exclusion_reason'', opt_text (map_option exclusion_reason_value (nt_exclusion_reason t))),
      (lit ''contract_content_hash'', opt_text (nt_contract_content_hash t)),
      (lit ''scenario_mode'', opt_text (nt_scenario_mode t)), (lit ''failure_profile'', opt_text (nt_failure_profile t)),
      (lit ''outcome_run_id'', opt_text (nt_outcome_run_id t)),
      (lit ''evaluation_run_id'', opt_text (nt_evaluation_run_id t)),
      (lit ''trajectory'', JArr (map JObj (nt_trajectory t))), (lit ''metadata'', JObj (nt_metadata t)),
      (lit ''addressable'', JBool (nt_addressable t))]"

text \<open>A rate is printed with four decimals.\<close>

definition four_digits :: "nat \<Rightarrow> pystr" where
  "four_digits n = map (\<lambda>k. 48 + n div 10 ^ k mod 10) [3, 2, 1, 0]"

definition rate_display :: "nat \<Rightarrow> pystr" where
  "rate_display v = show_nat (v div 10000) @ [46] @ four_digits v"

definition rate_document :: "rate \<Rightarrow> json" where
  "rate_document r = JObj [(lit ''numerator'', JInt (int (rt_numerator r))),
     (lit ''denominator'', JInt (int (rt_denominator r))),
     (lit ''value'', opt_text (map_option rate_display (rt_value r)))]"

definition matrix_counts_document :: "matrix_counts \<Rightarrow> json" where
  "matrix_counts_document m = JObj (map (\<lambda>(k, n). (k, JInt (int n)))
     [(lit ''call_level_pass_outcome_pass'', mc_pass_pass m), (lit ''call_level_pass_outcome_fail'', mc_pass_fail m),
      (lit ''call_level_fail_outcome_pass'', mc_fail_pass m), (lit ''call_level_fail_outcome_fail'', mc_fail_fail m),
      (lit ''eligible_trials'', eligible_trials m), (lit ''excluded_trials'', mc_excluded m),
      (lit ''error_trials'', mc_errors m), (lit ''total_trials'', total_trials m)])"

definition metrics_document :: "benchmark_metrics \<Rightarrow> json" where
  "metrics_document m = JObj
     [(lit ''call_level_pass_rate'', rate_document (bm_call_level_pass_rate m)),
      (lit ''outcome_pass_rate'', rate_document (bm_outcome_pass_rate m)),
      (lit ''end_to_end_success_rate'', rate_document (bm_end_to_end_success_rate m)),
      (lit ''silent_outcome_failure_rate'', rate_document (bm_silent_outcome_failure_rate m)),
      (lit ''incremental_outcome_failure_trials'', JInt (int (bm_incremental_outcome_failure_trials m)))]"

definition population_document :: "population \<Rightarrow> json" where
  "population_document p = JObj [(lit ''label'', JStr (po_label p)), (lit ''counts'', matrix_counts_document (po_counts p)),
     (lit ''metrics'', metrics_document (po_metrics p))]"

record scenario_definition =
  sdn_scenario_id :: pystr
  sdn_scenario_mode :: "pystr option"
  sdn_failure_profile :: "pystr option"
  sdn_contract_content_hash :: "pystr option"

definition scenario_definition_document :: "scenario_definition \<Rightarrow> json" where
  "scenario_definition_document s = JObj [(lit ''scenario_id'', JStr (sdn_scenario_id s)),
     (lit ''scenario_mode'', opt_text (sdn_scenario_mode s)),
     (lit ''failure_profile'', opt_text (sdn_failure_profile s)),
     (lit ''contract_content_hash'', opt_text (sdn_contract_content_hash s))]"

record benchmark_manifest =
  mf_schema_version :: pystr
  mf_source_kind :: source_kind
  mf_correlation_mode :: correlation_mode
  mf_benchmark_id :: pystr
  mf_scenario_ids :: "pystr list"
  mf_scenarios :: "scenario_definition list"
  mf_frozen_variants :: "jobject option"
  mf_target_fixture :: "pystr option"
  mf_target_build_commit :: "pystr option"
  mf_evaluator_name :: "pystr option"
  mf_evaluator_package :: "pystr option"
  mf_evaluator_version :: "pystr option"
  mf_evaluator_command_mode :: "pystr option"
  mf_model_provider :: "pystr option"
  mf_model_name :: "pystr option"
  mf_model_parameters :: "jobject option"
  mf_run_count :: nat
  mf_reporter_schema :: "pystr option"
  mf_normalized_adapter_version :: "pystr option"
  mf_source_artifact_hashes :: "pystr list"

definition opt_object :: "jobject option \<Rightarrow> json" where
  "opt_object m = (case m of None \<Rightarrow> JNull | Some kvs \<Rightarrow> JObj kvs)"

definition manifest_document :: "benchmark_manifest \<Rightarrow> jobject" where
  "manifest_document m =
     [(lit ''schema_version'', JStr (mf_schema_version m)),
      (lit ''source_kind'', JStr (source_kind_value (mf_source_kind m))),
      (lit ''correlation_mode'', JStr (correlation_mode_value (mf_correlation_mode m))),
      (lit ''benchmark_id'', JStr (mf_benchmark_id m)),
      (lit ''scenario_ids'', JArr (map JStr (mf_scenario_ids m))),
      (lit ''scenarios'', JArr (map scenario_definition_document (mf_scenarios m))),
      (lit ''frozen_variants'', opt_object (mf_frozen_variants m)),
      (lit ''target_fixture'', opt_text (mf_target_fixture m)),
      (lit ''target_build_commit'', opt_text (mf_target_build_commit m)),
      (lit ''evaluator_name'', opt_text (mf_evaluator_name m)),
      (lit ''evaluator_package'', opt_text (mf_evaluator_package m)),
      (lit ''evaluator_version'', opt_text (mf_evaluator_version m)),
      (lit ''evaluator_command_mode'', opt_text (mf_evaluator_command_mode m)),
      (lit ''model_provider'', opt_text (mf_model_provider m)), (lit ''model_name'', opt_text (mf_model_name m)),
      (lit ''model_parameters'', opt_object (mf_model_parameters m)),
      (lit ''run_count'', JInt (int (mf_run_count m))), (lit ''reporter_schema'', opt_text (mf_reporter_schema m)),
      (lit ''normalized_adapter_version'', opt_text (mf_normalized_adapter_version m)),
      (lit ''source_artifact_hashes'', JArr (map JStr (mf_source_artifact_hashes m)))]"

definition manifest_hash :: "benchmark_manifest \<Rightarrow> canon_error + pystr" where
  "manifest_hash m = document_content_hash (manifest_document m)"

record benchmark_report =
  bp_schema_version :: pystr
  bp_benchmark_id :: pystr
  bp_manifest :: benchmark_manifest
  bp_counts :: matrix_counts
  bp_metrics :: benchmark_metrics
  bp_by_scenario :: "population list"
  bp_by_failure_profile :: "population list"
  bp_trials :: "recorded_trial list"

text \<open>One source kind and one correlation mode throughout\<close>

definition benchmark_report_ok :: "benchmark_report \<Rightarrow> bool" where
  "benchmark_report_ok r \<longleftrightarrow>
     (let modes = remdups (map nt_correlation_mode (bp_trials r)) in
      length modes \<le> 1 \<and> (modes \<noteq> [] \<longrightarrow> mf_correlation_mode (bp_manifest r) \<in> set modes))"

definition benchmark_report_document :: "benchmark_report \<Rightarrow> jobject" where
  "benchmark_report_document r =
     [(lit ''schema_version'', JStr (bp_schema_version r)), (lit ''benchmark_id'', JStr (bp_benchmark_id r)),
      (lit ''manifest'', JObj (manifest_document (bp_manifest r))), (lit ''counts'', matrix_counts_document (bp_counts r)),
      (lit ''metrics'', metrics_document (bp_metrics r)),
      (lit ''by_scenario'', JArr (map population_document (bp_by_scenario r))),
      (lit ''by_failure_profile'', JArr (map population_document (bp_by_failure_profile r))),
      (lit ''trials'', JArr (map trial_document (bp_trials r)))]"

definition benchmark_report_hash :: "benchmark_report \<Rightarrow> canon_error + pystr" where
  "benchmark_report_hash r = document_content_hash (benchmark_report_document r)"

definition stored_benchmark_report :: "benchmark_report \<Rightarrow> canon_error + jobject" where
  "stored_benchmark_report r = bind_result (benchmark_report_hash r)
     (\<lambda>h. Inr (benchmark_report_document r @ [(lit ''content_hash'', JStr h)]))"

lemma all_equal_to:
  "(\<forall>x\<in>S. \<forall>y\<in>S. x = y) \<and> (S \<noteq> {} \<longrightarrow> m \<in> S) \<longleftrightarrow> (\<forall>x\<in>S. x = m)"
proof
  assume A: "(\<forall>x\<in>S. \<forall>y\<in>S. x = y) \<and> (S \<noteq> {} \<longrightarrow> m \<in> S)"
  show "\<forall>x\<in>S. x = m"
  proof
    fix x assume x: "x \<in> S"
    then have "m \<in> S" using A by blast
    then show "x = m" using A x by blast
  qed
next
  assume A: "\<forall>x\<in>S. x = m"
  have "m \<in> S" if "z \<in> S" for z using A that by fastforce
  moreover have "x = y" if "x \<in> S" "y \<in> S" for x y using A that by metis
  ultimately show "(\<forall>x\<in>S. \<forall>y\<in>S. x = y) \<and> (S \<noteq> {} \<longrightarrow> m \<in> S)" by (metis all_not_in_conv)
qed

lemma report_has_one_mode:
  "benchmark_report_ok r \<longleftrightarrow> (\<forall>t\<in>set (bp_trials r). nt_correlation_mode t = mf_correlation_mode (bp_manifest r))"
proof -
  let ?ms = "map nt_correlation_mode (bp_trials r)" and ?m = "mf_correlation_mode (bp_manifest r)"
  have one: "length (remdups ?ms) \<le> 1 \<longleftrightarrow> (\<forall>x\<in>set ?ms. \<forall>y\<in>set ?ms. x = y)"
    unfolding length_remdups_card_conv One_nat_def by (rule card_le_Suc0_iff_eq) simp
  have ok: "benchmark_report_ok r \<longleftrightarrow> (\<forall>x\<in>set ?ms. \<forall>y\<in>set ?ms. x = y) \<and> (set ?ms \<noteq> {} \<longrightarrow> ?m \<in> set ?ms)"
    unfolding benchmark_report_ok_def Let_def one set_remdups remdups_eq_nil_iff set_empty ..
  show ?thesis unfolding ok all_equal_to set_map by blast
qed

end
