(* ===== verification/Findings_View.thy ===== *)
theory Findings_View
  imports Database
begin

section \<open>The findings an agent reads\<close>

text \<open>
  \<open>application/findings_service.py\<close>: the bounded projection of a run's findings. \<open>text_of\<close> is \<open>str\<close> of a
  value that is no string and \<open>dump_of\<close> is \<open>json.dumps\<close> of a tool definition.
\<close>

subsection \<open>The order\<close>

definition default_finding_limit :: nat where "default_finding_limit = 3"
definition max_finding_limit :: nat where "max_finding_limit = 10"

definition status_case :: "pystr \<Rightarrow> nat" where
  "status_case s = (if s = lit ''failed'' then 0 else if s = lit ''warning'' then 1 else 2)"

definition severity_case :: "pystr \<Rightarrow> nat" where
  "severity_case s = (if s = lit ''critical'' then 0 else if s = lit ''major'' then 1 else 2)"

definition view_key :: "finding \<Rightarrow> nat \<times> nat \<times> pystr" where
  "view_key f = (status_case (check_status_value (fi_status f)),
     severity_case (assertion_severity_value (fi_severity f)), fi_check_id f)"

definition run_findings :: "database \<Rightarrow> pystr \<Rightarrow> finding list" where
  "run_findings db rid = map snd (filter (\<lambda>rf. fst rf = rid) (db_findings db))"

subsection \<open>One finding\<close>

record projected_delta =
  pd_tool_name :: pystr
  pd_kind :: pystr
  pd_before :: "pystr option"
  pd_after :: "pystr option"

record projected_finding =
  pf_check_id :: pystr
  pf_check_type :: check_type
  pf_status :: check_status
  pf_severity :: assertion_severity
  pf_classification :: "failure_classification option"
  pf_path :: "pystr option"
  pf_paths :: "pystr list"
  pf_applied_exemptions :: "pystr list"
  pf_surface_deltas :: "projected_delta list"
  pf_identity_mismatches :: "pystr list"
  pf_expected :: json
  pf_actual :: json

definition shown_text :: "(json \<Rightarrow> pystr) \<Rightarrow> json \<Rightarrow> pystr" where
  "shown_text text_of v = (case v of JStr s \<Rightarrow> s | _ \<Rightarrow> text_of v)"

text \<open>A text is a sequence too: its items are its characters.\<close>

definition evidence_list :: "(json \<Rightarrow> pystr) \<Rightarrow> jobject \<Rightarrow> pystr \<Rightarrow> pystr list" where
  "evidence_list text_of evidence k =
     (case map_of evidence k of
        Some (JArr xs) \<Rightarrow> map (shown_text text_of) xs
      | Some (JStr s) \<Rightarrow> map (\<lambda>c. [c]) s
      | _ \<Rightarrow> [])"

definition rendered_definition :: "(jobject \<Rightarrow> pystr) \<Rightarrow> json option \<Rightarrow> pystr option" where
  "rendered_definition dump_of v = (case v of Some (JObj d) \<Rightarrow> Some (dump_of d) | _ \<Rightarrow> None)"

definition shown_member :: "(json \<Rightarrow> pystr) \<Rightarrow> jobject \<Rightarrow> pystr \<Rightarrow> pystr" where
  "shown_member text_of entry k = (case map_of entry k of None \<Rightarrow> [] | Some v \<Rightarrow> shown_text text_of v)"

definition projected_deltas :: "(json \<Rightarrow> pystr) \<Rightarrow> (jobject \<Rightarrow> pystr) \<Rightarrow> jobject \<Rightarrow> projected_delta list" where
  "projected_deltas text_of dump_of evidence =
     (case map_of evidence (lit ''deltas'') of
        Some (JArr xs) \<Rightarrow> List.map_filter (\<lambda>x. case x of
            JObj entry \<Rightarrow> Some \<lparr>pd_tool_name = shown_member text_of entry (lit ''tool_name''),
              pd_kind = shown_member text_of entry (lit ''kind''),
              pd_before = rendered_definition dump_of (map_of entry (lit ''before'')),
              pd_after = rendered_definition dump_of (map_of entry (lit ''after''))\<rparr>
          | _ \<Rightarrow> None) xs
      | _ \<Rightarrow> [])"

definition shown_path :: "finding \<Rightarrow> pystr option" where
  "shown_path f =
     (case map_option path_str (fi_path f) of
        Some s \<Rightarrow> if s \<noteq> [] then Some s else map_option path_str (case fi_paths f of [] \<Rightarrow> None | p # _ \<Rightarrow> Some p)
      | None \<Rightarrow> map_option path_str (case fi_paths f of [] \<Rightarrow> None | p # _ \<Rightarrow> Some p))"

definition projected :: "(json \<Rightarrow> pystr) \<Rightarrow> (jobject \<Rightarrow> pystr) \<Rightarrow> finding \<Rightarrow> projected_finding" where
  "projected text_of dump_of f =
     \<lparr>pf_check_id = fi_check_id f, pf_check_type = fi_check_type f, pf_status = fi_status f,
      pf_severity = fi_severity f, pf_classification = fi_classification f, pf_path = shown_path f,
      pf_paths = map path_str (fi_paths f), pf_applied_exemptions = map path_str (fi_applied_exemptions f),
      pf_surface_deltas = projected_deltas text_of dump_of (fi_evidence f),
      pf_identity_mismatches = evidence_list text_of (fi_evidence f) (lit ''identity_mismatches''),
      pf_expected = bounded max_finding_value_chars (fi_expected f),
      pf_actual = bounded max_finding_value_chars (fi_actual f)\<rparr>"

subsection \<open>The projection\<close>

record findings_view =
  fw_run_id :: pystr
  fw_status :: run_state
  fw_overall_result :: "layer_result option"
  fw_findings :: "projected_finding list"
  fw_returned :: nat
  fw_total :: nat
  fw_failed :: nat
  fw_warnings :: nat
  fw_elided :: nat
  fw_report :: pystr

datatype view_error = LimitOutOfRange | NoSuchRun

definition count_status :: "pystr \<Rightarrow> finding list \<Rightarrow> nat" where
  "count_status s fs = length (filter (\<lambda>f. check_status_value (fi_status f) = s) fs)"

definition read_findings ::
    "(json \<Rightarrow> pystr) \<Rightarrow> (jobject \<Rightarrow> pystr) \<Rightarrow> database \<Rightarrow> pystr \<Rightarrow> pystr \<Rightarrow> int \<Rightarrow> pystr \<Rightarrow> view_error + findings_view" where
  "read_findings text_of dump_of db ws rid limit report =
     (if \<not> (1 \<le> limit \<and> limit \<le> int max_finding_limit) then Inl LimitOutOfRange
      else (case find_run db ws rid of
          None \<Rightarrow> Inl NoSuchRun
        | Some r \<Rightarrow>
            (let fs = run_findings db rid; rows = take (nat limit) (sort_key view_key fs) in
             Inr \<lparr>fw_run_id = rn_id r, fw_status = rn_status r, fw_overall_result = rn_overall_result r,
               fw_findings = map (projected text_of dump_of) rows, fw_returned = length rows, fw_total = length fs,
               fw_failed = count_status (lit ''failed'') fs, fw_warnings = count_status (lit ''warning'') fs,
               fw_elided = length fs - length rows,
               fw_report = (if report \<noteq> [] then report else lit ''/api/v1/runs/'' @ rid @ lit ''/report'')\<rparr>)))"

subsection \<open>What it shows\<close>

lemma no_status_is_warning: "check_status_value s \<noteq> lit ''warning''"
  by (cases s) (simp_all add: lit_def)

lemma status_case_failed: "status_case (check_status_value s) = (if s = Cs_Failed then 0 else 2)"
  by (cases s) (simp_all add: status_case_def lit_def)

lemma prefix_of_sorted:
  assumes "x \<in> set (take n (sort_key k xs))" and "y \<in> set xs" and "k y < k x"
  shows "y \<in> set (take n (sort_key k xs))"
proof -
  let ?s = "sort_key k xs"
  have "y \<in> set ?s" using assms(2) by simp
  then obtain j where j: "j < length ?s" "?s ! j = y" unfolding in_set_conv_nth by blast
  obtain i where i: "i < n" "i < length ?s" "?s ! i = x" using assms(1) by (auto simp: in_set_conv_nth)
  have "\<not> i \<le> j"
  proof
    assume "i \<le> j"
    then have "map k ?s ! i \<le> map k ?s ! j" using j(1) by (intro sorted_nth_mono) simp_all
    then show False using assms(3) i j by simp
  qed
  then have "j < n" using i(1) by simp
  then show ?thesis using j by (auto simp: in_set_conv_nth intro!: exI [of _ j])
qed

text \<open>
  The projection is honest about what it leaves out: it shows at most the limit, says how many
  findings there are and how many it elides, and shows no finding of another status while a failed one
  is elided.
\<close>

theorem findings_view_honest:
  assumes "read_findings text_of dump_of db ws rid limit report = Inr v"
  shows "fw_returned v = length (fw_findings v) \<and> fw_returned v \<le> nat limit \<and>
    fw_returned v + fw_elided v = fw_total v \<and> fw_total v = length (run_findings db rid) \<and>
    (\<forall>p\<in>set (fw_findings v). \<exists>f\<in>set (run_findings db rid). p = projected text_of dump_of f) \<and>
    ((\<exists>p\<in>set (fw_findings v). pf_status p \<noteq> Cs_Failed) \<longrightarrow>
      (\<forall>f\<in>set (run_findings db rid). fi_status f = Cs_Failed \<longrightarrow> projected text_of dump_of f \<in> set (fw_findings v)))"
proof -
  let ?fs = "run_findings db rid"
  let ?rows = "take (nat limit) (sort_key view_key ?fs)"
  have v: "fw_returned v = length ?rows" "fw_findings v = map (projected text_of dump_of) ?rows"
      "fw_total v = length ?fs" "fw_elided v = length ?fs - length ?rows"
    using assms by (auto simp: read_findings_def Let_def split: if_splits option.splits)
  have rows: "f \<in> set ?fs" if "f \<in> set ?rows" for f using that by (auto dest: in_set_takeD)
  have first: "g \<in> set ?rows" if "f \<in> set ?rows" "fi_status f \<noteq> Cs_Failed" "g \<in> set ?fs" "fi_status g = Cs_Failed" for f g
  proof -
    have "view_key g < view_key f"
      unfolding view_key_def status_case_failed using that(2,4) by simp
    with that(1,3) show ?thesis by (rule prefix_of_sorted)
  qed
  have le: "length ?rows \<le> nat limit" "length ?rows \<le> length ?fs" by simp_all
  have st: "pf_status (projected text_of dump_of f) = fi_status f" for f by (simp add: projected_def)
  have shown: "\<forall>p\<in>set (fw_findings v). \<exists>f\<in>set ?fs. p = projected text_of dump_of f"
    unfolding v(2) using rows by auto
  have failed: "\<forall>g\<in>set ?fs. fi_status g = Cs_Failed \<longrightarrow> projected text_of dump_of g \<in> set (fw_findings v)"
    if "p \<in> set (fw_findings v)" "pf_status p \<noteq> Cs_Failed" for p
  proof -
    from that(1) obtain f where f: "f \<in> set ?rows" and p: "p = projected text_of dump_of f"
      unfolding v(2) list.set_map by blast
    have other: "fi_status f \<noteq> Cs_Failed" using that(2) unfolding p st .
    show ?thesis unfolding v(2) list.set_map using first [OF f other] by (blast intro: imageI)
  qed
  have "fw_returned v = length (fw_findings v)" unfolding v(1,2) by simp
  moreover have "fw_returned v \<le> nat limit" "fw_returned v + fw_elided v = fw_total v"
    unfolding v using le by simp_all
  ultimately show ?thesis using v(3) shown failed by blast
qed

text \<open>
  The projection counts warnings by a status no finding has, and ranks a check that could not be
  observed with the passed ones: an unresolved critical check, a failure that fails the run, can be
  elided while only passed checks are shown.
\<close>

definition seen_check :: "char list \<Rightarrow> check_status \<Rightarrow> finding" where
  "seen_check name st = (basic_finding (lit name) Ct_Assertion st Sev_Critical)
     \<lparr>fi_classification := (if st = Cs_Passed then None else Some Fc_ObservationUnavailable)\<rparr>"

definition unresolved_findings :: "finding list" where
  "unresolved_findings = [seen_check ''a'' Cs_Passed, seen_check ''b'' Cs_Passed, seen_check ''c'' Cs_Passed,
     seen_check ''d'' Cs_ObservationUnavailable]"

theorem unresolved_check_is_elided:
  "(\<forall>fs. count_status (lit ''warning'') fs = 0) \<and>
   primary_failure unresolved_findings = Some (seen_check ''d'' Cs_ObservationUnavailable) \<and>
   aggregate unresolved_findings = Lr_Failed \<and>
   (\<forall>f\<in>set (take default_finding_limit (sort_key view_key unresolved_findings)). fi_status f = Cs_Passed)"
proof -
  have k: "view_key (seen_check n st) = (if st = Cs_Failed then 0 else 2, 0, lit n)" for n st
    unfolding view_key_def status_case_failed by (simp add: seen_check_def basic_finding_def severity_case_def)
  have "sort_key view_key unresolved_findings = unresolved_findings"
    by (simp add: unresolved_findings_def k lit_def less_eq_prod_def)
  then have "take default_finding_limit (sort_key view_key unresolved_findings) =
      [seen_check ''a'' Cs_Passed, seen_check ''b'' Cs_Passed, seen_check ''c'' Cs_Passed]"
    by (simp add: unresolved_findings_def default_finding_limit_def)
  moreover have "fi_status (seen_check n st) = st" "fi_severity (seen_check n st) = Sev_Critical" for n st
    by (simp_all add: seen_check_def basic_finding_def)
  ultimately show ?thesis
    by (simp add: count_status_def no_status_is_warning primary_failure_def order_failures_def failed_iff
        aggregate_def unresolved_findings_def Let_def)
qed

end
