(* ===== verification/Shopify_Cart.thy ===== *)
theory Shopify_Cart
  imports Assertions "HOL-Library.AList"
begin

section \<open>The observed cart of an external shop\<close>

text \<open>
  \<open>integrations/shopify/audit.py\<close> and \<open>observation.py\<close>: a submitted \<open>cart.js\<close> body becomes an
  observation, or is refused. Amounts are integer minor units in the submission and decimals of two places
  in the observation; the model keeps an amount as the number of hundredths and \<open>money\<close> is its decimal.
  \<open>py_str\<close> is \<open>str\<close> of a value that is neither a text nor an integer, \<open>is_alpha\<close> and \<open>upper\<close> are
  \<open>str.isalpha\<close> and \<open>str.upper\<close>, which read the Unicode tables.
\<close>

subsection \<open>Constants and errors\<close>

definition shopify_target_id :: pystr where "shopify_target_id = lit ''external-audit''"
definition shopify_provider_id :: pystr where "shopify_provider_id = lit ''shopify_cart_state''"
definition shopify_provenance :: pystr where "shopify_provenance = lit ''platform_session_api''"
definition shopify_schema_version :: pystr where "shopify_schema_version = lit ''1.0''"
definition max_cart_payload_bytes :: nat where "max_cart_payload_bytes = 256 * 1024"
definition shopify_namespace :: pystr where "shopify_namespace = lit ''target''"

definition required_cart_keys :: "pystr list" where
  "required_cart_keys = [lit ''item_count'', lit ''items'']"

definition self_report_markers :: "pystr list" where
  "self_report_markers = [lit ''content'', lit ''isError'', lit ''is_error'', lit ''reported_status'',
     lit ''result'', lit ''status'']"

text \<open>
  Every refusal is an \<open>AuditObservationError\<close>, a \<open>ValueError\<close> its callers handle, but for the two errors of
  the decimal arithmetic, which are not.
\<close>

datatype cart_error =
    Ce_Missing "pystr list"
  | Ce_SelfReport "pystr list"
  | Ce_ItemsNotAList
  | Ce_LineNotAnObject
  | Ce_NoVariant
  | Ce_NotMinorUnits
  | Ce_NotACount
  | Ce_NotACurrency
  | Ce_NoPage
  | Ce_NotABoolean
  | Ce_OriginNotText
  | Ce_OtherOrigin
  | Ce_TooLarge nat
  | Ce_WrongProvenance pystr
  | Ce_InvalidOperation
  | Ce_Arithmetic arith_error

definition is_observation_error :: "cart_error \<Rightarrow> bool" where
  "is_observation_error e = (case e of Ce_InvalidOperation \<Rightarrow> False | Ce_Arithmetic _ \<Rightarrow> False | _ \<Rightarrow> True)"

subsection \<open>Amounts, counts and texts\<close>

text \<open>
  The quotient by 100 has at most the digits of the amount, so below \<open>10 ^ 28\<close> it is exact and \<open>quantize\<close>
  keeps it. From there on its two places need more than 28 digits and \<open>quantize\<close> raises
  \<open>InvalidOperation\<close>.
\<close>

definition money :: "int \<Rightarrow> dec" where
  "money c = Dec c (-2)"

definition cart_amount :: "json \<Rightarrow> cart_error + int" where
  "cart_amount v =
     (case v of
        JInt c \<Rightarrow> if \<bar>c\<bar> < 10 ^ context_prec then Inr c else Inl Ce_InvalidOperation
      | _ \<Rightarrow> Inl Ce_NotMinorUnits)"

definition money_text :: "int \<Rightarrow> pystr" where
  "money_text c =
     (let n = nat \<bar>c\<bar>; p = n mod 100
      in (if c < 0 then [45] else []) @ show_nat (n div 100) @ [46, 48 + p div 10, 48 + p mod 10])"

definition cart_count :: "json \<Rightarrow> cart_error + int" where
  "cart_count v = (case v of JInt n \<Rightarrow> if n < 0 then Inl Ce_NotACount else Inr n | _ \<Rightarrow> Inl Ce_NotACount)"

definition cart_currency :: "(pystr \<Rightarrow> bool) \<Rightarrow> (pystr \<Rightarrow> pystr) \<Rightarrow> json \<Rightarrow> cart_error + pystr" where
  "cart_currency is_alpha upper v =
     (case v of
        JStr s \<Rightarrow> if length s \<noteq> 3 \<or> \<not> is_alpha s then Inl Ce_NotACurrency else Inr (upper s)
      | _ \<Rightarrow> Inl Ce_NotACurrency)"

definition variant_text :: "(json \<Rightarrow> pystr) \<Rightarrow> json \<Rightarrow> pystr" where
  "variant_text py_str v = (case v of JStr s \<Rightarrow> s | JInt i \<Rightarrow> show_int i | _ \<Rightarrow> py_str v)"

text \<open>\<open>d.get(k, default)\<close>; without a default it is \<open>None\<close>, as a JSON null is.\<close>

definition cart_get :: "jobject \<Rightarrow> char list \<Rightarrow> json \<Rightarrow> json" where
  "cart_get d k v = (case map_of d (lit k) of None \<Rightarrow> v | Some x \<Rightarrow> x)"

definition require_exact_origin :: "pystr \<Rightarrow> pystr \<Rightarrow> cart_error + unit" where
  "require_exact_origin origin authorized = (if origin \<noteq> authorized then Inl Ce_OtherOrigin else Inr ())"

definition require_within_payload_bound :: "nat list \<Rightarrow> cart_error + unit" where
  "require_within_payload_bound raw =
     (if length raw > max_cart_payload_bytes then Inl (Ce_TooLarge (length raw)) else Inr ())"

subsection \<open>\<open>normalize_cart\<close>\<close>

record shop_line =
  cl_variant_id :: pystr
  cl_quantity :: int
  cl_unit_price :: int
  cl_line_price :: int

record normalized_cart =
  nc_items :: "(pystr \<times> shop_line) list"
  nc_item_count :: int
  nc_subtotal :: int
  nc_total :: int
  nc_currency :: pystr

definition normalize_line :: "(json \<Rightarrow> pystr) \<Rightarrow> json \<Rightarrow> cart_error + shop_line" where
  "normalize_line py_str entry =
     (case entry of
        JObj d \<Rightarrow>
          (let variant = cart_get d ''variant_id'' (cart_get d ''id'' JNull) in
           if variant = JNull then Inl Ce_NoVariant
           else bind_result (cart_count (cart_get d ''quantity'' JNull)) (\<lambda>q.
             bind_result (cart_amount (cart_get d ''price'' JNull)) (\<lambda>u.
               bind_result (cart_amount (cart_get d ''line_price'' (cart_get d ''price'' JNull))) (\<lambda>t.
                 Inr \<lparr>cl_variant_id = variant_text py_str variant, cl_quantity = q, cl_unit_price = u,
                   cl_line_price = t\<rparr>))))
      | _ \<Rightarrow> Inl Ce_LineNotAnObject)"

text \<open>\<open>items[key] = line\<close> on a dict: a key that is there keeps its place and loses its line.\<close>

definition put_line :: "('l \<Rightarrow> pystr) \<Rightarrow> 'l \<Rightarrow> (pystr \<times> 'l) list \<Rightarrow> (pystr \<times> 'l) list" where
  "put_line key l items = AList.update (key l) l items"

definition normalize_cart ::
    "(json \<Rightarrow> pystr) \<Rightarrow> (pystr \<Rightarrow> bool) \<Rightarrow> (pystr \<Rightarrow> pystr) \<Rightarrow> jobject \<Rightarrow> cart_error + normalized_cart" where
  "normalize_cart py_str is_alpha upper payload =
     (let missing = filter (\<lambda>k. \<not> has_key payload k) required_cart_keys;
          present = filter (has_key payload) self_report_markers
      in if missing \<noteq> [] then Inl (Ce_Missing missing)
         else if present \<noteq> [] then Inl (Ce_SelfReport present)
         else (case cart_get payload ''items'' JNull of
             JArr entries \<Rightarrow>
               bind_result (map_result (normalize_line py_str) entries) (\<lambda>ls.
                 bind_result (cart_amount (cart_get payload ''total_price'' (JInt 0))) (\<lambda>total.
                   bind_result (cart_count (cart_get payload ''item_count'' JNull)) (\<lambda>n.
                     bind_result (cart_amount (cart_get payload ''items_subtotal_price''
                         (cart_get payload ''total_price'' (JInt 0)))) (\<lambda>subtotal.
                       bind_result (cart_currency is_alpha upper (cart_get payload ''currency'' JNull)) (\<lambda>cur.
                         Inr \<lparr>nc_items = fold (put_line cl_variant_id) ls [], nc_item_count = n,
                           nc_subtotal = subtotal, nc_total = total, nc_currency = cur\<rparr>)))))
           | _ \<Rightarrow> Inl Ce_ItemsNotAList))"

definition normalized_document :: "normalized_cart \<Rightarrow> jobject" where
  "normalized_document c =
     [(lit ''cart'', JObj
        [(lit ''items'', JObj (map (\<lambda>(k, l). (k, JObj
            [(lit ''variant_id'', JStr (cl_variant_id l)), (lit ''quantity'', JInt (cl_quantity l)),
             (lit ''unit_price'', JStr (money_text (cl_unit_price l))),
             (lit ''line_price'', JStr (money_text (cl_line_price l)))])) (nc_items c))),
         (lit ''item_count'', JInt (nc_item_count c)), (lit ''subtotal'', JStr (money_text (nc_subtotal c))),
         (lit ''total'', JStr (money_text (nc_total c))), (lit ''currency'', JStr (nc_currency c))]),
      (lit ''order'', JObj [(lit ''created'', JBool False), (lit ''order_id'', JNull)])]"

text \<open>\<open>ExternalAuditAdapter.normalize\<close>\<close>

definition audit_observation ::
    "(json \<Rightarrow> pystr) \<Rightarrow> (pystr \<Rightarrow> bool) \<Rightarrow> (pystr \<Rightarrow> pystr) \<Rightarrow> int \<Rightarrow> jobject \<Rightarrow> pystr \<Rightarrow>
     cart_error + observation" where
  "audit_observation py_str is_alpha upper now payload provenance =
     (if provenance \<noteq> shopify_provenance then Inl (Ce_WrongProvenance provenance)
      else bind_result (normalize_cart py_str is_alpha upper payload) (\<lambda>c.
        Inr \<lparr>ob_namespace = shopify_namespace, ob_provider_id = shopify_provider_id,
          ob_provenance = shopify_provenance, ob_schema_version = shopify_schema_version,
          ob_payload = normalized_document c, ob_state_version = None, ob_captured_at = now\<rparr>))"

subsection \<open>\<open>project_cart\<close>\<close>

definition test_variant_key :: pystr where "test_variant_key = lit ''test_variant''"

record projected_cart =
  pc_items :: "(pystr \<times> shop_line) list"
  pc_item_count :: int
  pc_subtotal :: int
  pc_discount_total :: int
  pc_total :: int
  pc_currency :: pystr
  pc_totals_consistent :: bool
  pc_store_origin :: pystr
  pc_checkout_navigation_observed :: bool

definition dec_mul :: "dec \<Rightarrow> dec \<Rightarrow> arith_error + dec" where
  "dec_mul a b = dec_round (dec_coef a * dec_coef b) (dec_exp a + dec_exp b)"

definition dec_add :: "dec \<Rightarrow> dec \<Rightarrow> arith_error + dec" where
  "dec_add a b = (case dec_align a b of (x, y, e) \<Rightarrow> dec_round (x + y) e)"

text \<open>The loop of \<open>_totals_agree\<close>: \<open>None\<close> is its early \<open>return False\<close>.\<close>

fun running_total :: "dec \<Rightarrow> shop_line list \<Rightarrow> arith_error + dec option" where
  "running_total r [] = Inr (Some r)"
| "running_total r (l # ls) =
     bind_result (dec_mul (money (cl_unit_price l)) (dec_of_int (cl_quantity l))) (\<lambda>p.
       if \<not> dec_eq (money (cl_line_price l)) p then Inr None
       else bind_result (dec_add r (money (cl_line_price l))) (\<lambda>r'. running_total r' ls))"

definition totals_agree :: "shop_line list \<Rightarrow> int \<Rightarrow> int \<Rightarrow> int \<Rightarrow> arith_error + bool" where
  "totals_agree ls subtotal discount grand =
     bind_result (running_total (money 0) ls) (\<lambda>r. case r of
         None \<Rightarrow> Inr False
       | Some r \<Rightarrow> if \<not> dec_eq r (money subtotal) then Inr False
           else bind_result (dec_sub (money subtotal) (money discount)) (\<lambda>d. Inr (dec_eq d (money grand))))"

definition checkout_navigation :: "jobject \<Rightarrow> cart_error + bool" where
  "checkout_navigation payload =
     (case cart_get payload ''page'' JNull of
        JObj page \<Rightarrow> (case cart_get page ''checkout_navigation_observed'' JNull of
            JBool b \<Rightarrow> Inr b
          | _ \<Rightarrow> Inl Ce_NotABoolean)
      | _ \<Rightarrow> Inl Ce_NoPage)"

definition confirmed_origin :: "jobject \<Rightarrow> pystr \<Rightarrow> cart_error + pystr" where
  "confirmed_origin payload store_origin =
     (case (case cart_get payload ''page'' JNull of JObj page \<Rightarrow> cart_get page ''store_origin'' JNull | _ \<Rightarrow> JNull) of
        JNull \<Rightarrow> Inr store_origin
      | JStr claimed \<Rightarrow> bind_result (require_exact_origin claimed store_origin) (\<lambda>_. Inr store_origin)
      | _ \<Rightarrow> Inl Ce_OriginNotText)"

definition lift_arith :: "arith_error + 'a \<Rightarrow> cart_error + 'a" where
  "lift_arith r = (case r of Inl e \<Rightarrow> Inl (Ce_Arithmetic e) | Inr x \<Rightarrow> Inr x)"

definition line_key :: "pystr \<Rightarrow> pystr \<Rightarrow> pystr" where
  "line_key test_variant_id k = (if k = test_variant_id then test_variant_key else k)"

definition project_cart ::
    "(json \<Rightarrow> pystr) \<Rightarrow> (pystr \<Rightarrow> bool) \<Rightarrow> (pystr \<Rightarrow> pystr) \<Rightarrow> pystr \<Rightarrow> pystr \<Rightarrow> jobject \<Rightarrow>
     cart_error + projected_cart" where
  "project_cart py_str is_alpha upper test_variant_id store_origin payload =
     bind_result (normalize_cart py_str is_alpha upper payload) (\<lambda>c.
       bind_result (cart_amount (cart_get payload ''total_discount'' (JInt 0))) (\<lambda>discount.
         let items = fold (\<lambda>(k, l). AList.update (line_key test_variant_id k) l) (nc_items c) [] in
         bind_result (lift_arith (totals_agree (map snd items) (nc_subtotal c) discount (nc_total c))) (\<lambda>ok.
           bind_result (confirmed_origin payload store_origin) (\<lambda>origin.
             bind_result (checkout_navigation payload) (\<lambda>nav.
               Inr \<lparr>pc_items = items, pc_item_count = nc_item_count c, pc_subtotal = nc_subtotal c,
                 pc_discount_total = discount, pc_total = nc_total c, pc_currency = nc_currency c,
                 pc_totals_consistent = ok, pc_store_origin = origin,
                 pc_checkout_navigation_observed = nav\<rparr>)))))"

definition projected_document :: "projected_cart \<Rightarrow> jobject" where
  "projected_document c =
     [(lit ''cart'', JObj
        [(lit ''items'', JObj (map (\<lambda>(k, l). (k, JObj
            [(lit ''variant_id'', JStr (cl_variant_id l)), (lit ''quantity'', JInt (cl_quantity l)),
             (lit ''unit_price'', JStr (money_text (cl_unit_price l))),
             (lit ''line_total'', JStr (money_text (cl_line_price l)))])) (pc_items c))),
         (lit ''item_count'', JInt (pc_item_count c)), (lit ''subtotal'', JStr (money_text (pc_subtotal c))),
         (lit ''discount_total'', JStr (money_text (pc_discount_total c))),
         (lit ''total'', JStr (money_text (pc_total c))), (lit ''currency'', JStr (pc_currency c)),
         (lit ''totals_consistent'', JBool (pc_totals_consistent c))]),
      (lit ''page'', JObj
        [(lit ''store_origin'', JStr (pc_store_origin c)),
         (lit ''checkout_navigation_observed'', JBool (pc_checkout_navigation_observed c))])]"

text \<open>\<open>ShopifyCartObservationProvider.normalize\<close>\<close>

definition cart_observation ::
    "(json \<Rightarrow> pystr) \<Rightarrow> (pystr \<Rightarrow> bool) \<Rightarrow> (pystr \<Rightarrow> pystr) \<Rightarrow> int \<Rightarrow> pystr \<Rightarrow> pystr \<Rightarrow> jobject \<Rightarrow> pystr \<Rightarrow>
     cart_error + observation" where
  "cart_observation py_str is_alpha upper now test_variant_id store_origin payload provenance =
     (if provenance \<noteq> shopify_provenance then Inl (Ce_WrongProvenance provenance)
      else bind_result (project_cart py_str is_alpha upper test_variant_id store_origin payload) (\<lambda>c.
        Inr \<lparr>ob_namespace = shopify_namespace, ob_provider_id = shopify_provider_id,
          ob_provenance = shopify_provenance, ob_schema_version = shopify_schema_version,
          ob_payload = projected_document c, ob_state_version = None, ob_captured_at = now\<rparr>))"

subsection \<open>What the arithmetic check decides\<close>

lemma round_small:
  assumes "\<bar>c\<bar> < 10 ^ context_prec"
  shows "dec_round c (-2) = Inr (Dec c (-2))"
proof -
  have "nat \<bar>c\<bar> < 10 ^ context_prec" using assms by (simp add: nat_less_iff)
  then have "ndigits (nat \<bar>c\<bar>) \<le> context_prec" by (rule ndigits_le) (simp add: context_prec_def)
  then show ?thesis by (simp add: dec_round_def Let_def context_prec_def context_etiny_def context_emax_def)
qed

lemma money_eq [simp]: "dec_eq (money a) (money b) \<longleftrightarrow> a = b"
  by (simp add: dec_eq_def dec_align_def money_def)

lemma money_times [simp]: "\<bar>c * q\<bar> < 10 ^ context_prec \<Longrightarrow> dec_mul (money c) (dec_of_int q) = Inr (money (c * q))"
  by (simp add: dec_mul_def money_def dec_of_int_def round_small)

lemma money_plus [simp]: "\<bar>a + b\<bar> < 10 ^ context_prec \<Longrightarrow> dec_add (money a) (money b) = Inr (money (a + b))"
  by (simp add: dec_add_def dec_align_def money_def round_small)

lemma money_minus [simp]: "\<bar>a - b\<bar> < 10 ^ context_prec \<Longrightarrow> dec_sub (money a) (money b) = Inr (money (a - b))"
  by (simp add: dec_sub_def dec_align_def money_def round_small)

lemma running_total_exact:
  assumes "\<forall>l\<in>set ls. \<bar>cl_unit_price l * cl_quantity l\<bar> < 10 ^ context_prec"
    and "\<bar>r\<bar> + sum_list (map (\<lambda>l. \<bar>cl_line_price l\<bar>) ls) < 10 ^ context_prec"
  shows "running_total (money r) ls =
    Inr (if \<forall>l\<in>set ls. cl_line_price l = cl_unit_price l * cl_quantity l
      then Some (money (r + sum_list (map cl_line_price ls))) else None)"
  using assms
proof (induction ls arbitrary: r)
  case (Cons l ls)
  let ?rest = "sum_list (map (\<lambda>l. \<bar>cl_line_price l\<bar>) ls)"
  have rest: "0 \<le> ?rest" by (rule sum_list_nonneg) auto
  have small: "\<bar>r + cl_line_price l\<bar> + ?rest < 10 ^ context_prec" using Cons.prems(2) by simp
  then have "\<bar>r + cl_line_price l\<bar> < 10 ^ context_prec" using rest by linarith
  then have add: "dec_add (money r) (money (cl_line_price l)) = Inr (money (r + cl_line_price l))" by simp
  have mul: "dec_mul (money (cl_unit_price l)) (dec_of_int (cl_quantity l)) = Inr (money (cl_unit_price l * cl_quantity l))"
    using Cons.prems(1) by simp
  have first: "running_total (money r) (l # ls) = (if cl_line_price l = cl_unit_price l * cl_quantity l
      then running_total (money (r + cl_line_price l)) ls else Inr None)"
    by (simp only: running_total.simps mul add bind_result_simps money_eq if_not_P split: if_split) simp
  have step: "running_total (money (r + cl_line_price l)) ls = Inr (if \<forall>l\<in>set ls. cl_line_price l =
      cl_unit_price l * cl_quantity l then Some (money (r + cl_line_price l + sum_list (map cl_line_price ls))) else None)"
    using Cons.prems(1) by (intro Cons.IH [OF _ small]) simp
  show ?case unfolding first step by (simp add: add.assoc)
qed simp

text \<open>Within 28 digits the check is exact: it is the three identities over the integers.\<close>

lemma totals_agree_exact:
  assumes "\<forall>l\<in>set ls. \<bar>cl_unit_price l * cl_quantity l\<bar> < 10 ^ context_prec"
    and "sum_list (map (\<lambda>l. \<bar>cl_line_price l\<bar>) ls) < 10 ^ context_prec"
    and "\<bar>subtotal - discount\<bar> < 10 ^ context_prec"
  shows "totals_agree ls subtotal discount grand = Inr
    ((\<forall>l\<in>set ls. cl_line_price l = cl_unit_price l * cl_quantity l) \<and>
     sum_list (map cl_line_price ls) = subtotal \<and> subtotal - discount = grand)"
  using running_total_exact [of ls 0] assms by (simp add: totals_agree_def)

subsection \<open>What an observation holds\<close>

lemma update_new: "k \<notin> fst ` set xs \<Longrightarrow> AList.update k v xs = xs @ [(k, v)]"
  by (induction xs) auto

lemma fold_update_new:
  assumes "distinct (map fst ys @ map (f \<circ> fst) xs)"
  shows "fold (\<lambda>(k, l). AList.update (f k) l) xs ys = ys @ map (\<lambda>(k, l). (f k, l)) xs"
  using assms
proof (induction xs arbitrary: ys)
  case (Cons x xs)
  obtain k l where x: "x = (k, l)" by (cases x)
  have "AList.update (f k) l ys = ys @ [(f k, l)]" using Cons.prems x by (intro update_new) auto
  then show ?case using Cons.IH [of "ys @ [(f k, l)]"] Cons.prems by (simp add: x)
qed simp

lemma fold_update_from:
  "(k', l) \<in> set (fold (\<lambda>(k, l). AList.update (f k) l) xs ys) \<Longrightarrow>
   (k', l) \<in> set ys \<or> (\<exists>k. (k, l) \<in> set xs \<and> k' = f k)"
proof (induction xs arbitrary: ys)
  case (Cons x xs)
  obtain k m where x: "x = (k, m)" by (cases x)
  have "p \<in> set ys \<or> p = (f k, m)" if "p \<in> set (AList.update (f k) m ys)" for p
    using that by (induction ys) (auto split: if_splits)
  then show ?case using Cons.IH [of "AList.update (f k) m ys"] Cons.prems x by fastforce
qed simp

lemma fold_put_line: "fold (put_line key) ls items = fold (\<lambda>(k, l). AList.update (id k) l) (map (\<lambda>l. (key l, l)) ls) items"
  by (induction ls arbitrary: items) (simp_all add: put_line_def)

lemma normalized_from:
  assumes "normalize_cart py_str is_alpha upper payload = Inr c"
  obtains entries ls where "cart_get payload ''items'' JNull = JArr entries"
    and "map_result (normalize_line py_str) entries = Inr ls"
    and "nc_items c = fold (put_line cl_variant_id) ls []"
    and "\<forall>k\<in>set self_report_markers. \<not> has_key payload k"
  using assms
  by (auto simp: normalize_cart_def Let_def bind_result_Inr filter_empty_conv
      split: if_splits json.splits)

lemma lift_arith_Inr: "lift_arith r = Inr x \<longleftrightarrow> r = Inr x"
  by (cases r) (simp_all add: lift_arith_def)

lemma confirmed_origin_Inr: "confirmed_origin payload origin = Inr x \<Longrightarrow> x = origin"
  by (auto simp: confirmed_origin_def bind_result_Inr split: json.splits)

lemma projected_from:
  assumes "project_cart py_str is_alpha upper tv origin payload = Inr p"
  obtains c where "normalize_cart py_str is_alpha upper payload = Inr c"
    and "pc_items p = fold (\<lambda>(k, l). AList.update (line_key tv k) l) (nc_items c) []"
    and "totals_agree (map snd (pc_items p)) (pc_subtotal p) (pc_discount_total p) (pc_total p) =
      Inr (pc_totals_consistent p)"
    and "pc_store_origin p = origin"
    and "checkout_navigation payload = Inr (pc_checkout_navigation_observed p)"
  using assms unfolding project_cart_def Let_def bind_result_Inr lift_arith_Inr
  by (elim exE conjE) (auto dest: confirmed_origin_Inr)

text \<open>
  A cart observation says only what the submission said: it names the configured shop whatever the
  submission claims, its checkout fact is a boolean the submission states, no field of a tool result was in
  the submission, and every line is one of the submitted lines under its variant or the test variant's key.
\<close>

theorem cart_observation_invents_nothing:
  assumes "project_cart py_str is_alpha upper tv origin payload = Inr p"
  shows "pc_store_origin p = origin \<and>
    (\<exists>page. cart_get payload ''page'' JNull = JObj page \<and>
      cart_get page ''checkout_navigation_observed'' JNull = JBool (pc_checkout_navigation_observed p)) \<and>
    (\<forall>k\<in>set self_report_markers. \<not> has_key payload k) \<and>
    (\<exists>entries. cart_get payload ''items'' JNull = JArr entries \<and>
      (\<forall>(k, l)\<in>set (pc_items p). k = line_key tv (cl_variant_id l) \<and>
        (\<exists>e\<in>set entries. normalize_line py_str e = Inr l)))"
proof -
  obtain c where c: "normalize_cart py_str is_alpha upper payload = Inr c"
      "pc_items p = fold (\<lambda>(k, l). AList.update (line_key tv k) l) (nc_items c) []"
      "pc_store_origin p = origin" "checkout_navigation payload = Inr (pc_checkout_navigation_observed p)"
    using assms by (rule projected_from)
  obtain entries ls where n: "cart_get payload ''items'' JNull = JArr entries"
      "map_result (normalize_line py_str) entries = Inr ls"
      "nc_items c = fold (put_line cl_variant_id) ls []" "\<forall>k\<in>set self_report_markers. \<not> has_key payload k"
    using c(1) by (rule normalized_from)
  have line: "k = line_key tv (cl_variant_id l) \<and> (\<exists>e\<in>set entries. normalize_line py_str e = Inr l)"
    if kl: "(k, l) \<in> set (pc_items p)" for k l
  proof -
    obtain k' where k': "(k', l) \<in> set (nc_items c)" "k = line_key tv k'"
      using fold_update_from [OF kl [unfolded c(2)]] by auto
    have "l \<in> set ls \<and> k' = cl_variant_id l"
      using fold_update_from [OF k'(1) [unfolded n(3) fold_put_line]] by auto
    then show ?thesis using k'(2) map_result_from [OF n(2)] by blast
  qed
  have "\<exists>page. cart_get payload ''page'' JNull = JObj page \<and>
      cart_get page ''checkout_navigation_observed'' JNull = JBool (pc_checkout_navigation_observed p)"
    using c(4) by (auto simp: checkout_navigation_def split: json.splits)
  then show ?thesis using c(3) n(1,4) line by blast
qed

text \<open>
  C13. When no two submitted lines share a key and the amounts fit 28 digits, the observation has exactly
  the submitted lines, in order, and calls the totals consistent exactly when each line is its price times
  its quantity, the lines sum to the subtotal and the subtotal less the discount is the total.
\<close>

theorem cart_totals_verdict:
  assumes "project_cart py_str is_alpha upper tv origin payload = Inr p"
    and "cart_get payload ''items'' JNull = JArr entries"
    and "map_result (normalize_line py_str) entries = Inr ls"
    and "distinct (map (\<lambda>l. line_key tv (cl_variant_id l)) ls)"
    and "\<forall>l\<in>set ls. \<bar>cl_unit_price l * cl_quantity l\<bar> < 10 ^ context_prec"
    and "sum_list (map (\<lambda>l. \<bar>cl_line_price l\<bar>) ls) < 10 ^ context_prec"
    and "\<bar>pc_subtotal p - pc_discount_total p\<bar> < 10 ^ context_prec"
  shows "pc_items p = map (\<lambda>l. (line_key tv (cl_variant_id l), l)) ls \<and>
    (pc_totals_consistent p \<longleftrightarrow>
      (\<forall>l\<in>set ls. cl_line_price l = cl_unit_price l * cl_quantity l) \<and>
      sum_list (map cl_line_price ls) = pc_subtotal p \<and> pc_subtotal p - pc_discount_total p = pc_total p)"
proof -
  obtain c where c: "normalize_cart py_str is_alpha upper payload = Inr c"
      "pc_items p = fold (\<lambda>(k, l). AList.update (line_key tv k) l) (nc_items c) []"
      "totals_agree (map snd (pc_items p)) (pc_subtotal p) (pc_discount_total p) (pc_total p) =
        Inr (pc_totals_consistent p)"
    using assms(1) by (rule projected_from)
  have nc: "nc_items c = fold (put_line cl_variant_id) ls []"
    using c(1) by (rule normalized_from) (use assms(2,3) in simp)
  have d: "distinct (map cl_variant_id ls)"
    using assms(4) by (auto simp: distinct_map comp_inj_on_iff inj_on_def)
  have "nc_items c = map (\<lambda>l. (cl_variant_id l, l)) ls"
    unfolding nc fold_put_line by (subst fold_update_new) (simp_all add: d comp_def)
  then have items: "pc_items p = map (\<lambda>l. (line_key tv (cl_variant_id l), l)) ls"
    unfolding c(2) by (subst fold_update_new) (simp_all add: assms(4) comp_def)
  then have "map snd (pc_items p) = ls" by (simp add: comp_def)
  then show ?thesis using items c(3) totals_agree_exact [OF assms(5-7)] by simp
qed

subsection \<open>Two lines of one variant\<close>

definition js_line :: "int \<Rightarrow> int \<Rightarrow> json" where
  "js_line variant price = JObj [(lit ''variant_id'', JInt variant), (lit ''quantity'', JInt 1),
     (lit ''price'', JInt price), (lit ''line_price'', JInt price)]"

definition js_cart :: "json list \<Rightarrow> int \<Rightarrow> jobject" where
  "js_cart ls grand = [(lit ''items'', JArr ls), (lit ''item_count'', JInt (int (length ls))),
     (lit ''total_price'', JInt grand), (lit ''currency'', JStr (lit ''USD'')),
     (lit ''page'', JObj [(lit ''checkout_navigation_observed'', JBool False)])]"

definition observe_cart :: "json list \<Rightarrow> int \<Rightarrow> cart_error + projected_cart" where
  "observe_cart ls grand =
     project_cart (\<lambda>_. []) (\<lambda>_. True) (\<lambda>s. s) (lit ''42'') (lit ''https://shop.test'') (js_cart ls grand)"

text \<open>
  A cart with two lines of one variant, as a shop keeps them when their options differ, loses the first
  line: a cart whose numbers add up is called inconsistent, and one whose subtotal leaves a line out is
  called consistent.
\<close>

theorem second_line_replaces_first:
  "(\<exists>p. observe_cart [js_line 7 100, js_line 7 250] 350 = Inr p \<and>
     map (cl_line_price \<circ> snd) (pc_items p) = [250] \<and> pc_item_count p = 2 \<and> \<not> pc_totals_consistent p) \<and>
   (\<exists>p. observe_cart [js_line 7 100, js_line 7 250] 250 = Inr p \<and> pc_totals_consistent p)"
proof -
  let ?items = "[(show_int 7, \<lparr>cl_variant_id = show_int 7, cl_quantity = 1, cl_unit_price = 250, cl_line_price = 250\<rparr>)]"
  have "observe_cart [js_line 7 100, js_line 7 250] 350 = Inr
      \<lparr>pc_items = ?items, pc_item_count = 2, pc_subtotal = 350, pc_discount_total = 0, pc_total = 350,
       pc_currency = lit ''USD'', pc_totals_consistent = False, pc_store_origin = lit ''https://shop.test'',
       pc_checkout_navigation_observed = False\<rparr>"
    by code_simp
  moreover have "observe_cart [js_line 7 100, js_line 7 250] 250 = Inr
      \<lparr>pc_items = ?items, pc_item_count = 2, pc_subtotal = 250, pc_discount_total = 0, pc_total = 250,
       pc_currency = lit ''USD'', pc_totals_consistent = True, pc_store_origin = lit ''https://shop.test'',
       pc_checkout_navigation_observed = False\<rparr>"
    by code_simp
  ultimately show ?thesis by simp
qed

text \<open>A cart of two variants that adds up.\<close>

theorem cart_totals_verdict_witness:
  "\<exists>p. observe_cart [js_line 7 100, js_line 42 250] 350 = Inr p \<and>
     map fst (pc_items p) = [show_int 7, test_variant_key] \<and> pc_totals_consistent p"
proof -
  let ?l = "\<lparr>cl_variant_id = show_int 7, cl_quantity = 1, cl_unit_price = 100, cl_line_price = 100\<rparr>"
  let ?m = "\<lparr>cl_variant_id = show_int 42, cl_quantity = 1, cl_unit_price = 250, cl_line_price = 250\<rparr>"
  let ?p = "\<lparr>pc_items = [(show_int 7, ?l), (test_variant_key, ?m)], pc_item_count = 2, pc_subtotal = 350,
     pc_discount_total = 0, pc_total = 350, pc_currency = lit ''USD'', pc_totals_consistent = True,
     pc_store_origin = lit ''https://shop.test'', pc_checkout_navigation_observed = False\<rparr>"
  let ?es = "[js_line 7 100, js_line 42 250]"
  have p: "project_cart (\<lambda>_. []) (\<lambda>_. True) (\<lambda>s. s) (lit ''42'') (lit ''https://shop.test'') (js_cart ?es 350) =
      Inr ?p"
    by code_simp
  have es: "cart_get (js_cart ?es 350) ''items'' JNull = JArr ?es" by code_simp
  have ls: "map_result (normalize_line (\<lambda>_. [])) ?es = Inr [?l, ?m]" by code_simp
  have d: "distinct (map (\<lambda>l. line_key (lit ''42'') (cl_variant_id l)) [?l, ?m])" by code_simp
  have k: "line_key (lit ''42'') (show_int 7) = show_int 7" "line_key (lit ''42'') (show_int 42) = test_variant_key"
    by code_simp+
  have "pc_items ?p = map (\<lambda>l. (line_key (lit ''42'') (cl_variant_id l), l)) [?l, ?m] \<and>
    (pc_totals_consistent ?p \<longleftrightarrow> (\<forall>l\<in>set [?l, ?m]. cl_line_price l = cl_unit_price l * cl_quantity l) \<and>
      sum_list (map cl_line_price [?l, ?m]) = pc_subtotal ?p \<and> pc_subtotal ?p - pc_discount_total ?p = pc_total ?p)"
    by (rule cart_totals_verdict [OF p es ls d]) (simp_all add: context_prec_def)
  then have "map fst (pc_items ?p) = [show_int 7, test_variant_key]" "pc_totals_consistent ?p" by (simp_all add: k)
  with p show ?thesis unfolding observe_cart_def by (intro exI [of _ ?p] conjI)
qed

end
