(* ===== verification/Audits.thy ===== *)
theory Audits
  imports Shopify_Cart Redaction
begin

section \<open>The audit of an external surface\<close>

text \<open>
  \<open>integrations/shopify/pack.py\<close> (the packs), \<open>application/audit_evidence.py\<close> (what each tool turned out
  to do), \<open>application/audit_report.py\<close> (the report to the owner) and \<open>run_audit_pass\<close> of
  \<open>application/audit_workflow.py\<close>, which composes them with the normaliser of \<open>Shopify_Cart\<close>. A mapping of
  tool reports is an association list with distinct keys.
\<close>

subsection \<open>Packs\<close>

definition never_invoked_tools :: "pystr list" where
  "never_invoked_tools = [lit ''manage_orders'', lit ''proceed_to_checkout'']"

record contract_pack =
  cp_pack_id :: pystr
  cp_title :: pystr
  cp_summary :: pystr
  cp_signature :: "pystr list"
  cp_document :: jobject
  cp_never_invoked :: "pystr list"

definition read_only_audit :: jobject where
  "read_only_audit =
    [(lit ''schema_version'', JStr (lit ''1.0'')),
      (lit ''name'', JStr (lit ''shopify-read-only-audit'')),
      (lit ''description'', JStr (lit ''Exercise the documented read tools and change nothing.'')),
      (lit ''target_id'', JStr (lit ''external-audit'')),
      (lit ''intent'', JStr (lit ''Confirm the storefront's agent-facing read tools answer, and that nothing about the shopper's cart changes while they do.'')),
      (lit ''expected_tools'', JObj [(lit ''ordered'', JBool False),
        (lit ''calls'', JArr [JStr (lit ''get_cart''),
          JStr (lit ''search_catalog'')])]),
      (lit ''assertions'', JArr [JObj [(lit ''id'', JStr (lit ''cart-unchanged-by-reads'')),
          (lit ''path'', JStr (lit ''target.cart.item_count'')),
          (lit ''operator'', JStr (lit ''unchanged'')),
          (lit ''severity'', JStr (lit ''critical''))],
        JObj [(lit ''id'', JStr (lit ''no-order-created'')),
          (lit ''path'', JStr (lit ''target.order.created'')),
          (lit ''operator'', JStr (lit ''equals'')),
          (lit ''value'', JBool False),
          (lit ''severity'', JStr (lit ''critical''))]]),
      (lit ''policies'', JArr [JObj [(lit ''type'', JStr (lit ''forbidden_tool'')),
          (lit ''tool'', JStr (lit ''manage_orders''))],
        JObj [(lit ''type'', JStr (lit ''forbidden_tool'')),
          (lit ''tool'', JStr (lit ''proceed_to_checkout''))]]),
      (lit ''redaction'', JObj [(lit ''paths'', JArr [JStr (lit ''**.email''),
          JStr (lit ''**.payment_token''),
          JStr (lit ''**.token'')])])]"

definition cart_audit :: jobject where
  "cart_audit =
    [(lit ''schema_version'', JStr (lit ''1.0'')),
      (lit ''name'', JStr (lit ''shopify-cart-audit'')),
      (lit ''description'', JStr (lit ''Add exactly one item through the agent tool and observe the cart independently.'')),
      (lit ''target_id'', JStr (lit ''external-audit'')),
      (lit ''intent'', JStr (lit ''Confirm that when the storefront's cart tool reports success, the shopper's cart actually changed.'')),
      (lit ''expected_tools'', JObj [(lit ''ordered'', JBool False),
        (lit ''calls'', JArr [JStr (lit ''update_cart'')])]),
      (lit ''assertions'', JArr [JObj [(lit ''id'', JStr (lit ''cart-gained-exactly-one-item'')),
          (lit ''path'', JStr (lit ''target.cart.item_count'')),
          (lit ''operator'', JStr (lit ''changed_by'')),
          (lit ''value'', JInt 1),
          (lit ''severity'', JStr (lit ''critical''))],
        JObj [(lit ''id'', JStr (lit ''no-order-created'')),
          (lit ''path'', JStr (lit ''target.order.created'')),
          (lit ''operator'', JStr (lit ''equals'')),
          (lit ''value'', JBool False),
          (lit ''severity'', JStr (lit ''critical''))]]),
      (lit ''policies'', JArr [JObj [(lit ''type'', JStr (lit ''forbidden_tool'')),
          (lit ''tool'', JStr (lit ''manage_orders''))],
        JObj [(lit ''type'', JStr (lit ''forbidden_tool'')),
          (lit ''tool'', JStr (lit ''proceed_to_checkout''))]]),
      (lit ''redaction'', JObj [(lit ''paths'', JArr [JStr (lit ''**.email''),
          JStr (lit ''**.payment_token''),
          JStr (lit ''**.token'')])])]"

definition read_only_pack :: contract_pack where
  "read_only_pack =
     \<lparr>cp_pack_id = lit ''shopify_read_only'', cp_title = lit ''Shopify storefront '' @ [0x2014] @ lit '' read-only pass'',
      cp_summary = lit ''Exercises the documented read tools and asserts the shopper's cart is untouched. Nothing it does can change the store.'',
      cp_signature = [lit ''get_cart'', lit ''search_catalog''], cp_document = read_only_audit,
      cp_never_invoked = never_invoked_tools\<rparr>"

definition cart_pack :: contract_pack where
  "cart_pack =
     \<lparr>cp_pack_id = lit ''shopify_cart'', cp_title = lit ''Shopify storefront '' @ [0x2014] @ lit '' cart pass'',
      cp_summary = lit ''Adds one item through the storefront's own cart tool and reads the cart back independently, so a tool that reports success without changing anything is visible.'',
      cp_signature = [lit ''get_cart'', lit ''update_cart''], cp_document = cart_audit,
      cp_never_invoked = never_invoked_tools\<rparr>"

definition audit_packs :: "contract_pack list" where
  "audit_packs = [read_only_pack, cart_pack]"

definition pack_for :: "pystr \<Rightarrow> contract_pack option" where
  "pack_for pid = find (\<lambda>p. cp_pack_id p = pid) audit_packs"

definition match_pack :: "pystr list \<Rightarrow> contract_pack list" where
  "match_pack names = filter (\<lambda>p. \<forall>t\<in>set (cp_signature p). t \<in> set names) audit_packs"

text \<open>\<open>document["expected_tools"]["calls"]\<close>; every pack has it.\<close>

definition pack_calls :: "jobject \<Rightarrow> pystr list" where
  "pack_calls d =
     (case map_of d (lit ''expected_tools'') of
        Some (JObj e) \<Rightarrow> (case map_of e (lit ''calls'') of
            Some (JArr xs) \<Rightarrow> List.map_filter (\<lambda>x. case x of JStr s \<Rightarrow> Some s | _ \<Rightarrow> None) xs
          | _ \<Rightarrow> [])
      | _ \<Rightarrow> [])"

definition offered_packs :: "json list" where
  "offered_packs = map (\<lambda>p. JObj
     [(lit ''pack_id'', JStr (cp_pack_id p)), (lit ''title'', JStr (cp_title p)),
      (lit ''signature'', JArr (map JStr (cp_signature p))),
      (lit ''never_invoked'', JArr (map JStr (cp_never_invoked p)))]) audit_packs"

subsection \<open>What a tool turned out to do\<close>

datatype tool_outcome =
  To_Worked | To_SilentlyFailed | To_FailedOutright | To_Unobserved | To_NotExercised | To_Absent

primrec tool_outcome_value :: "tool_outcome \<Rightarrow> pystr" where
  "tool_outcome_value To_Worked = lit ''worked''"
| "tool_outcome_value To_SilentlyFailed = lit ''silently_failed''"
| "tool_outcome_value To_FailedOutright = lit ''failed_outright''"
| "tool_outcome_value To_Unobserved = lit ''unobserved''"
| "tool_outcome_value To_NotExercised = lit ''not_exercised''"
| "tool_outcome_value To_Absent = lit ''absent''"

record audit_finding =
  af_tool_name :: pystr
  af_outcome :: tool_outcome
  af_reported :: "pystr option"
  af_observed_before :: "jobject option"
  af_observed_after :: "jobject option"

definition optional_object :: "jobject option \<Rightarrow> json" where
  "optional_object v = (case v of None \<Rightarrow> JNull | Some d \<Rightarrow> JObj d)"

definition audit_finding_document :: "audit_finding \<Rightarrow> json" where
  "audit_finding_document f = JObj
     [(lit ''tool_name'', JStr (af_tool_name f)), (lit ''outcome'', JStr (tool_outcome_value (af_outcome f))),
      (lit ''reported'', case af_reported f of None \<Rightarrow> JNull | Some s \<Rightarrow> JStr s),
      (lit ''observed_before'', optional_object (af_observed_before f)),
      (lit ''observed_after'', optional_object (af_observed_after f))]"

text \<open>\<open>bool(value)\<close>\<close>

definition py_bool :: "json \<Rightarrow> bool" where
  "py_bool v =
     (case v of JNull \<Rightarrow> False | JBool b \<Rightarrow> b | JInt i \<Rightarrow> i \<noteq> 0 | JFloat x \<Rightarrow> \<not> float_eq x (Finite 0)
      | JStr s \<Rightarrow> s \<noteq> [] | JArr xs \<Rightarrow> xs \<noteq> [] | JObj d \<Rightarrow> d \<noteq> [])"

definition claimed_success :: "jobject \<Rightarrow> bool" where
  "claimed_success report = (\<not> py_bool (cart_get report ''is_error'' JNull))"

definition expects_change :: "jobject \<Rightarrow> bool" where
  "expects_change report = py_bool (cart_get report ''expects_state_change'' JNull)"

definition report_summary :: "jobject \<Rightarrow> pystr" where
  "report_summary report = tt_text (bounded_summary
     (case cart_get report ''summary'' JNull of JStr s \<Rightarrow> s | _ \<Rightarrow> []) max_finding_value_chars)"

definition unexercised :: "pystr \<Rightarrow> tool_outcome \<Rightarrow> audit_finding" where
  "unexercised tool oc = \<lparr>af_tool_name = tool, af_outcome = oc, af_reported = None, af_observed_before = None,
     af_observed_after = None\<rparr>"

definition audited_tool ::
    "pystr list \<Rightarrow> pystr list \<Rightarrow> (pystr \<times> jobject) list \<Rightarrow> jobject option \<Rightarrow> jobject option \<Rightarrow> pystr list \<Rightarrow>
     pystr \<Rightarrow> audit_finding" where
  "audited_tool enumerated expected reports before after never tool =
     (if tool \<in> set never then unexercised tool (if tool \<in> set enumerated then To_NotExercised else To_Absent)
      else if tool \<notin> set enumerated then unexercised tool To_Absent
      else if tool \<notin> set expected then unexercised tool To_NotExercised
      else (case map_of reports tool of
          None \<Rightarrow> unexercised tool To_NotExercised
        | Some report \<Rightarrow>
            (let said = (unexercised tool To_FailedOutright)\<lparr>af_reported := Some (report_summary report)\<rparr> in
             if \<not> claimed_success report then said
             else (case (before, after) of
                 (Some b, Some a) \<Rightarrow>
                   (let changed = \<not> py_eq (JObj b) (JObj a) in
                    said\<lparr>af_outcome := (if expects_change report \<and> \<not> changed then To_SilentlyFailed else To_Worked),
                      af_observed_before := before, af_observed_after := after\<rparr>)
               | _ \<Rightarrow> said\<lparr>af_outcome := To_Unobserved\<rparr>))))"

definition audit_findings ::
    "pystr list \<Rightarrow> pystr list \<Rightarrow> (pystr \<times> jobject) list \<Rightarrow> jobject option \<Rightarrow> jobject option \<Rightarrow> pystr list \<Rightarrow>
     audit_finding list" where
  "audit_findings enumerated expected reports before after never =
     map (audited_tool enumerated expected reports before after never) (sorted_set (enumerated @ expected @ never))"

subsection \<open>The report to the owner\<close>

definition audit_limits :: "pystr list" where
  "audit_limits =
    [lit ''This checked one journey through your store, not everything an agent could do.'',
     lit ''Tools listed as not checked were deliberately left alone '' @ [0x2014] @ lit '' see below for why.'',
     lit ''A clean result here is evidence about what was tried, not a guarantee about your whole storefront.'']"

primrec outcome_headline :: "tool_outcome \<Rightarrow> pystr" where
  "outcome_headline To_SilentlyFailed = lit ''reported that it worked, but your store did not change. An agent '' @ [0x2014] @ lit '' and your customer '' @ [0x2014] @ lit '' would believe this succeeded.''"
| "outcome_headline To_Worked = lit ''worked, and your store changed the way it said it did.''"
| "outcome_headline To_FailedOutright = lit ''returned an error. An agent would see the failure and could tell your customer, which is the safer of the two ways to be broken.''"
| "outcome_headline To_Unobserved = lit ''could not be checked, because there was no independent way to read what it changed. This is not a pass.''"
| "outcome_headline To_NotExercised = lit ''is available to agents but was not tried. Nothing here says whether it works.''"
| "outcome_headline To_Absent = lit ''was not published by your store.''"

primrec outcome_advice :: "tool_outcome \<Rightarrow> pystr" where
  "outcome_advice To_SilentlyFailed = lit ''Fix this first. Until it is fixed, an agent acting for a customer will report success for something that did not happen.''"
| "outcome_advice To_FailedOutright = lit ''Worth fixing, but a customer is told it failed.''"
| "outcome_advice To_Unobserved = lit ''Check this by hand, or expose a way to read the state it changes so it can be checked next time.''"
| "outcome_advice To_NotExercised = lit ''Nothing to do. It was left alone on purpose, because trying it could have created a real order or touched a real customer's account.''"
| "outcome_advice To_Worked = lit ''Nothing to do.''"
| "outcome_advice To_Absent = lit ''Nothing to do.''"

primrec outcome_severity :: "tool_outcome \<Rightarrow> nat" where
  "outcome_severity To_SilentlyFailed = 0"
| "outcome_severity To_FailedOutright = 1"
| "outcome_severity To_Unobserved = 2"
| "outcome_severity To_NotExercised = 3"
| "outcome_severity To_Worked = 4"
| "outcome_severity To_Absent = 5"

definition with_outcome :: "tool_outcome \<Rightarrow> audit_finding list \<Rightarrow> audit_finding list" where
  "with_outcome oc fs = filter (\<lambda>f. af_outcome f = oc) fs"

fun comma_joined :: "pystr list \<Rightarrow> pystr" where
  "comma_joined [] = []"
| "comma_joined [s] = s"
| "comma_joined (s # ss) = s @ lit '', '' @ comma_joined ss"

definition audit_headline :: "audit_finding list \<Rightarrow> audit_finding list \<Rightarrow> pystr" where
  "audit_headline silent unchecked =
     (if silent \<noteq> [] then
        show_nat (length silent) @
        lit '' of your store's agent tools said they worked when they had not: '' @
        comma_joined (map af_tool_name silent) @ lit ''.''
      else if unchecked \<noteq> [] then
        lit ''Nothing was found doing the wrong thing, but some tools could not be '' @
        lit ''checked independently, so this is not a clean bill of health.''
      else lit ''Every tool that was tried did what it said it did.'')"

definition told_the_truth :: pystr where
  "told_the_truth = lit ''On this journey, an agent shopping on your store was told the truth '' @
     lit ''about what it had done.''"

definition audit_consequence :: "audit_finding list \<Rightarrow> pystr" where
  "audit_consequence silent =
     (if silent = [] then told_the_truth
      else lit ''An agent shopping on your store can be told an item was added when it was '' @
        lit ''not. A customer using that agent would reach checkout expecting something '' @
        lit ''their basket does not contain '' @ [0x2014] @ lit '' and neither they nor the agent would see '' @
        lit ''anything wrong until it was too late.'')"

record audit_report =
  ar_audited_site :: pystr
  ar_checked_using :: pystr
  ar_checked_using_id :: "pystr option"
  ar_headline :: pystr
  ar_what_this_means :: pystr
  ar_tools :: "(pystr \<times> pystr \<times> pystr) list"
  ar_not_checked :: "pystr list"
  ar_limits :: "pystr list"
  ar_evidence :: "json list"

definition compose_audit_report ::
    "pystr \<Rightarrow> pystr option \<Rightarrow> pystr option \<Rightarrow> audit_finding list \<Rightarrow> audit_report" where
  "compose_audit_report origin pack_id pack_title findings =
     (let ordered = sort_key (\<lambda>f. (outcome_severity (af_outcome f), af_tool_name f)) findings;
          silent = with_outcome To_SilentlyFailed ordered;
          unchecked = with_outcome To_Unobserved ordered;
          untried = with_outcome To_NotExercised ordered
      in \<lparr>ar_audited_site = origin,
          ar_checked_using = (if truthy pack_title then the pack_title else lit ''a journey chosen for this store''),
          ar_checked_using_id = pack_id,
          ar_headline = audit_headline silent unchecked,
          ar_what_this_means = audit_consequence silent,
          ar_tools = map (\<lambda>f. (af_tool_name f, outcome_headline (af_outcome f), outcome_advice (af_outcome f))) ordered,
          ar_not_checked = map af_tool_name (untried @ unchecked),
          ar_limits = audit_limits,
          ar_evidence = map audit_finding_document ordered\<rparr>)"

definition audit_report_document :: "audit_report \<Rightarrow> json" where
  "audit_report_document r = JObj
     [(lit ''schema_version'', JStr (lit ''1.0'')), (lit ''audited_site'', JStr (ar_audited_site r)),
      (lit ''checked_using'', JStr (ar_checked_using r)),
      (lit ''checked_using_id'', case ar_checked_using_id r of None \<Rightarrow> JNull | Some s \<Rightarrow> JStr s),
      (lit ''summary'', JObj
        [(lit ''headline'', JStr (ar_headline r)), (lit ''what_this_means'', JStr (ar_what_this_means r)),
         (lit ''tools'', JArr (map (\<lambda>(tool, says, todo). JObj
            [(lit ''tool'', JStr tool), (lit ''says'', JStr says), (lit ''what_to_do'', JStr todo)]) (ar_tools r))),
         (lit ''not_checked'', JArr (map JStr (ar_not_checked r))),
         (lit ''limits'', JArr (map JStr (ar_limits r)))]),
      (lit ''evidence'', JArr (ar_evidence r))]"

subsection \<open>One pass\<close>

record audit_pass =
  ap_pack_id :: pystr
  ap_pack_title :: pystr
  ap_findings :: "audit_finding list"
  ap_report :: audit_report

datatype pass_error = Ap_UnknownPack | Ap_SignatureNotMet | Ap_Refused cart_error | Ap_Raised cart_error

definition pass_refusal :: "cart_error \<Rightarrow> pass_error" where
  "pass_refusal e = (if is_observation_error e then Ap_Refused e else Ap_Raised e)"

definition observed_payload ::
    "(json \<Rightarrow> pystr) \<Rightarrow> (pystr \<Rightarrow> bool) \<Rightarrow> (pystr \<Rightarrow> pystr) \<Rightarrow> jobject option \<Rightarrow> pass_error + jobject option" where
  "observed_payload py_str is_alpha upper v =
     (case v of
        None \<Rightarrow> Inr None
      | Some payload \<Rightarrow> (case audit_observation py_str is_alpha upper 0 payload shopify_provenance of
            Inl e \<Rightarrow> Inl (pass_refusal e)
          | Inr ob \<Rightarrow> Inr (Some (ob_payload ob))))"

definition run_audit_pass ::
    "(json \<Rightarrow> pystr) \<Rightarrow> (pystr \<Rightarrow> bool) \<Rightarrow> (pystr \<Rightarrow> pystr) \<Rightarrow> pystr \<Rightarrow> pystr \<Rightarrow> pystr list \<Rightarrow>
     (pystr \<times> jobject) list \<Rightarrow> jobject option \<Rightarrow> jobject option \<Rightarrow> pass_error + audit_pass" where
  "run_audit_pass py_str is_alpha upper origin pid enumerated reports observed_before observed_after =
     (case pack_for pid of
        None \<Rightarrow> Inl Ap_UnknownPack
      | Some p \<Rightarrow>
          if p \<notin> set (match_pack enumerated) then Inl Ap_SignatureNotMet
          else bind_result (observed_payload py_str is_alpha upper observed_before) (\<lambda>before.
            bind_result (observed_payload py_str is_alpha upper observed_after) (\<lambda>after.
              let fs = audit_findings enumerated (pack_calls (cp_document p)) reports before after
                    (cp_never_invoked p) in
              Inr \<lparr>ap_pack_id = cp_pack_id p, ap_pack_title = cp_title p, ap_findings = fs,
                ap_report = compose_audit_report origin (Some (cp_pack_id p)) (Some (cp_title p)) fs\<rparr>)))"

subsection \<open>What a verdict rests on\<close>

lemma audited_tool_name [simp]: "af_tool_name (audited_tool en ex rs b a nv t) = t"
  by (auto simp: audited_tool_def unexercised_def Let_def split: option.splits)

text \<open>Every tool named anywhere gets exactly one finding, in the order of the names.\<close>

lemma audited_tools: "map af_tool_name (audit_findings en ex rs b a nv) = sorted_set (en @ ex @ nv)"
  by (simp add: audit_findings_def comp_def)

text \<open>
  A tool is called silently failed, or working, only when it was published, tried and not forbidden, claimed
  success, and both reads were there; which of the two it is depends on whether its report said a change was
  to be expected and whether the reads differ.
\<close>

theorem audit_outcome_verdict:
  assumes "f \<in> set (audit_findings en ex rs b a nv)"
  shows "(af_outcome f = To_SilentlyFailed \<or> af_outcome f = To_Worked \<longleftrightarrow>
      af_tool_name f \<in> set en \<and> af_tool_name f \<in> set ex \<and> af_tool_name f \<notin> set nv \<and>
      (\<exists>r. map_of rs (af_tool_name f) = Some r \<and> claimed_success r) \<and> b \<noteq> None \<and> a \<noteq> None) \<and>
    (af_outcome f = To_SilentlyFailed \<longrightarrow>
      expects_change (the (map_of rs (af_tool_name f))) \<and> py_eq (JObj (the b)) (JObj (the a)))"
proof -
  obtain t where "f = audited_tool en ex rs b a nv t" using assms by (auto simp: audit_findings_def)
  then show ?thesis
    by (auto simp: audited_tool_def unexercised_def Let_def split: option.splits if_splits)
qed

subsection \<open>Claims the report makes on nobody's authority\<close>

definition audited_cart :: jobject where
  "audited_cart = [(lit ''items'', JArr []), (lit ''item_count'', JInt 0), (lit ''currency'', JStr (lit ''USD''))]"

definition cart_surface :: "pystr list" where
  "cart_surface = [lit ''get_cart'', lit ''update_cart'']"

definition cart_pass :: "jobject \<Rightarrow> jobject option \<Rightarrow> pass_error + audit_pass" where
  "cart_pass report observed = run_audit_pass (\<lambda>_. []) (\<lambda>_. True) (\<lambda>s. s) (lit ''https://shop.test'')
     (lit ''shopify_cart'') cart_surface [(lit ''update_cart'', report)] observed observed"

text \<open>The words of the report depend only on the outcomes there are.\<close>

lemma no_outcome_Nil: "with_outcome oc fs = [] \<longleftrightarrow> oc \<notin> af_outcome ` set fs"
  by (auto simp: with_outcome_def filter_empty_conv)

lemma truth_told: "To_SilentlyFailed \<notin> af_outcome ` set fs \<Longrightarrow>
    ar_what_this_means (compose_audit_report site i t fs) = told_the_truth"
  by (simp add: compose_audit_report_def Let_def audit_consequence_def no_outcome_Nil)

lemma all_did: "To_SilentlyFailed \<notin> af_outcome ` set fs \<Longrightarrow> To_Unobserved \<notin> af_outcome ` set fs \<Longrightarrow>
    ar_headline (compose_audit_report site i t fs) = lit ''Every tool that was tried did what it said it did.''"
  by (simp add: compose_audit_report_def Let_def audit_headline_def no_outcome_Nil)

lemma cart_surface_names: "sorted_set (cart_surface @ [lit ''update_cart''] @ never_invoked_tools) =
    [lit ''get_cart'', lit ''manage_orders'', lit ''proceed_to_checkout'', lit ''update_cart'']"
  by code_simp

lemma cart_pack_found: "pack_for (lit ''shopify_cart'') = Some cart_pack"
  by (simp add: pack_for_def audit_packs_def read_only_pack_def cart_pack_def)

lemma cart_pack_parts: "cp_signature cart_pack = [lit ''get_cart'', lit ''update_cart'']"
    "cp_never_invoked cart_pack = never_invoked_tools" "pack_calls (cp_document cart_pack) = [lit ''update_cart'']"
  by (simp_all add: cart_pack_def cart_audit_def pack_calls_def List.map_filter_def)

lemma cart_pack_matches: "cart_pack \<in> set (match_pack cart_surface)"
  by (simp add: match_pack_def audit_packs_def cart_pack_parts cart_surface_def)

lemma audited_cart_payload:
  "\<exists>d. observed_payload (\<lambda>_. []) (\<lambda>_. True) (\<lambda>s. s) (Some audited_cart) = Inr (Some d) \<and> py_eq (JObj d) (JObj d)"
proof -
  let ?c = "\<lparr>nc_items = [], nc_item_count = 0, nc_subtotal = 0, nc_total = 0, nc_currency = lit ''USD''\<rparr>"
  have "normalize_cart (\<lambda>_. []) (\<lambda>_. True) (\<lambda>s. s) audited_cart = Inr ?c" by code_simp
  then have "observed_payload (\<lambda>_. []) (\<lambda>_. True) (\<lambda>s. s) (Some audited_cart) = Inr (Some (normalized_document ?c))"
    by (simp add: observed_payload_def audit_observation_def)
  moreover have "py_eq (JObj (normalized_document ?c)) (JObj (normalized_document ?c))" by code_simp
  ultimately show ?thesis by blast
qed

text \<open>
  Whether a change is to be expected is read from the submitted report, not from the pack: under the cart
  pack a tool that claims success over an unchanged cart works when its report leaves the flag out. And an
  audit that could observe nothing still tells the owner that agents were told the truth.
\<close>

theorem unflagged_silent_failure_works:
  "(\<exists>p. cart_pass [(lit ''expects_state_change'', JBool True)] (Some audited_cart) = Inr p \<and>
     map af_outcome (with_outcome To_SilentlyFailed (ap_findings p)) = [To_SilentlyFailed]) \<and>
   (\<exists>p. cart_pass [] (Some audited_cart) = Inr p \<and>
     map af_tool_name (with_outcome To_Worked (ap_findings p)) = [lit ''update_cart''] \<and>
     ar_headline (ap_report p) = lit ''Every tool that was tried did what it said it did.'') \<and>
   (\<exists>p. cart_pass [(lit ''expects_state_change'', JBool True)] None = Inr p \<and>
     map af_tool_name (with_outcome To_Unobserved (ap_findings p)) = [lit ''update_cart''] \<and>
     ar_what_this_means (ap_report p) = told_the_truth)"
proof -
  let ?upd = "lit ''update_cart''"
  have fs: "audit_findings cart_surface [?upd] rs o1 o2 never_invoked_tools =
      [unexercised (lit ''get_cart'') To_NotExercised, unexercised (lit ''manage_orders'') To_Absent,
       unexercised (lit ''proceed_to_checkout'') To_Absent,
       audited_tool cart_surface [?upd] rs o1 o2 never_invoked_tools ?upd]" for rs o1 o2
    unfolding audit_findings_def cart_surface_names
    by (simp add: audited_tool_def cart_surface_def never_invoked_tools_def)
  obtain d where d: "observed_payload (\<lambda>_. []) (\<lambda>_. True) (\<lambda>s. s) (Some audited_cart) = Inr (Some d)"
      "py_eq (JObj d) (JObj d)"
    using audited_cart_payload by blast
  have n: "observed_payload (\<lambda>_. []) (\<lambda>_. True) (\<lambda>s. s) None = Inr None"
    by (simp add: observed_payload_def)
  note run = cart_pass_def run_audit_pass_def cart_pack_found cart_pack_matches cart_pack_parts fs
  have u: "unexercised t oc = \<lparr>af_tool_name = t, af_outcome = oc, af_reported = None, af_observed_before = None,
     af_observed_after = None\<rparr>" for t oc
    by (simp add: unexercised_def)
  note tool = audited_tool_def cart_surface_def never_invoked_tools_def u claimed_success_def expects_change_def
    py_bool_def cart_get_def with_outcome_def Let_def
  have a: "\<exists>p. cart_pass [(lit ''expects_state_change'', JBool True)] (Some audited_cart) = Inr p \<and>
     map af_outcome (with_outcome To_SilentlyFailed (ap_findings p)) = [To_SilentlyFailed]"
    by (simp add: run d n) (simp add: tool d del: py_eq.simps)
  have worked: "af_outcome (audited_tool cart_surface [?upd] [(?upd, [])] (Some d) (Some d) never_invoked_tools ?upd) = To_Worked"
    by (simp add: tool d del: py_eq.simps)
  have unobserved: "af_outcome (audited_tool cart_surface [?upd] [(?upd, r)] None None never_invoked_tools ?upd) =
      To_Unobserved" if "r = [(lit ''expects_state_change'', JBool True)]" for r
    by (simp add: tool that)
  have oc: "af_outcome (unexercised t v) = v" for t v by (simp add: u)
  have b: "\<exists>p. cart_pass [] (Some audited_cart) = Inr p \<and>
     map af_tool_name (with_outcome To_Worked (ap_findings p)) = [?upd] \<and>
     ar_headline (ap_report p) = lit ''Every tool that was tried did what it said it did.''"
    by (simp add: run d n all_did Let_def) (simp add: with_outcome_def worked oc all_did)
  have c: "\<exists>p. cart_pass [(lit ''expects_state_change'', JBool True)] None = Inr p \<and>
     map af_tool_name (with_outcome To_Unobserved (ap_findings p)) = [?upd] \<and>
     ar_what_this_means (ap_report p) = told_the_truth"
    by (simp add: run n truth_told Let_def) (simp add: with_outcome_def unobserved oc truth_told)
  show ?thesis using a b c by blast
qed

end
