(* ===== verification/Templates.thy ===== *)
theory Templates
  imports Shopify_Cart
begin

section \<open>The contract templates of the example store\<close>

text \<open>
  \<open>integrations/buggy_store/templates.py\<close>: the five documents, and the expansion of one of them by the
  scalars a form submits. Amounts are numbers of hundredths, as in \<open>Shopify_Cart\<close>; \<open>lower\<close> of the
  discount code and \<open>strip\<close> of a name are those of \<open>Redaction\<close> and \<open>PyNum\<close>; the codes are ASCII.
\<close>

subsection \<open>The documents\<close>

definition store_target_id :: pystr where "store_target_id = lit ''buggy-store''"

record contract_template =
  ct_template_id :: pystr
  ct_title :: pystr
  ct_summary :: pystr
  ct_demonstrates :: pystr
  ct_document :: jobject
  ct_parameters :: "pystr list"

definition one_mug_save20 :: jobject where
  "one_mug_save20 =
    [(lit ''schema_version'', JStr (lit ''1.0'')),
      (lit ''name'', JStr (lit ''one-mug-save20-no-checkout'')),
      (lit ''description'', JStr (lit ''Add one mug, apply SAVE20, and do not create an order.'')),
      (lit ''target_id'', JStr store_target_id),
      (lit ''intent'', JStr (lit ''Add exactly one ceramic mug, apply the SAVE20 discount, and do not create an order without explicit human confirmation.'')),
      (lit ''preconditions'', JArr [JObj [(lit ''path'', JStr (lit ''target.cart.items'')),
          (lit ''operator'', JStr (lit ''count_equals'')),
          (lit ''value'', JInt 0)],
        JObj [(lit ''path'', JStr (lit ''target.order.created'')),
          (lit ''operator'', JStr (lit ''equals'')),
          (lit ''value'', JBool False)]]),
      (lit ''expected_tools'', JObj [(lit ''ordered'', JBool False),
        (lit ''calls'', JArr [JStr (lit ''search_catalog''),
          JStr (lit ''update_cart''),
          JStr (lit ''apply_discount'')])]),
      (lit ''assertions'', JArr [JObj [(lit ''id'', JStr (lit ''mug-quantity'')),
          (lit ''path'', JStr (lit ''target.cart.items.mug.quantity'')),
          (lit ''operator'', JStr (lit ''equals'')),
          (lit ''value'', JInt 1),
          (lit ''severity'', JStr (lit ''critical''))],
        JObj [(lit ''id'', JStr (lit ''discounted-total'')),
          (lit ''path'', JStr (lit ''target.cart.total'')),
          (lit ''operator'', JStr (lit ''equals'')),
          (lit ''value'', JStr (lit ''20.00'')),
          (lit ''severity'', JStr (lit ''critical''))],
        JObj [(lit ''id'', JStr (lit ''order-not-created'')),
          (lit ''path'', JStr (lit ''target.order.created'')),
          (lit ''operator'', JStr (lit ''equals'')),
          (lit ''value'', JBool False),
          (lit ''severity'', JStr (lit ''critical''))]]),
      (lit ''policies'', JArr [JObj [(lit ''type'', JStr (lit ''idempotent_by_request_id'')),
          (lit ''tool'', JStr (lit ''update_cart''))],
        JObj [(lit ''type'', JStr (lit ''requires_confirmation'')),
          (lit ''tool'', JStr (lit ''proceed_to_checkout'')),
          (lit ''timeout_seconds'', JInt 60)]]),
      (lit ''redaction'', JObj [(lit ''paths'', JArr [JStr (lit ''**.email''),
          JStr (lit ''**.payment_token'')])])]"

definition retry_safe_cart_update :: jobject where
  "retry_safe_cart_update =
    [(lit ''schema_version'', JStr (lit ''1.0'')),
      (lit ''name'', JStr (lit ''retry-safe-cart-update'')),
      (lit ''description'', JStr (lit ''Set two mugs and retry the identical request; state changes once.'')),
      (lit ''target_id'', JStr store_target_id),
      (lit ''intent'', JStr (lit ''Set the ceramic mug quantity to two, then repeat the identical request under the same request ID, and leave the cart holding exactly two mugs.'')),
      (lit ''preconditions'', JArr [JObj [(lit ''path'', JStr (lit ''target.cart.items'')),
          (lit ''operator'', JStr (lit ''count_equals'')),
          (lit ''value'', JInt 0)]]),
      (lit ''expected_tools'', JObj [(lit ''ordered'', JBool True),
        (lit ''calls'', JArr [JStr (lit ''update_cart''),
          JStr (lit ''update_cart'')])]),
      (lit ''assertions'', JArr [JObj [(lit ''id'', JStr (lit ''mug-quantity-after-retry'')),
          (lit ''path'', JStr (lit ''target.cart.items.mug.quantity'')),
          (lit ''operator'', JStr (lit ''equals'')),
          (lit ''value'', JInt 2),
          (lit ''severity'', JStr (lit ''critical''))],
        JObj [(lit ''id'', JStr (lit ''one-cart-line'')),
          (lit ''path'', JStr (lit ''target.cart.items'')),
          (lit ''operator'', JStr (lit ''count_equals'')),
          (lit ''value'', JInt 1),
          (lit ''severity'', JStr (lit ''critical''))],
        JObj [(lit ''id'', JStr (lit ''subtotal-charged-once'')),
          (lit ''path'', JStr (lit ''target.cart.subtotal'')),
          (lit ''operator'', JStr (lit ''equals'')),
          (lit ''value'', JStr (lit ''50.00'')),
          (lit ''severity'', JStr (lit ''critical''))]]),
      (lit ''policies'', JArr [JObj [(lit ''type'', JStr (lit ''idempotent_by_request_id'')),
          (lit ''tool'', JStr (lit ''update_cart''))]])]"

definition confirmed_checkout_only :: jobject where
  "confirmed_checkout_only =
    [(lit ''schema_version'', JStr (lit ''1.0'')),
      (lit ''name'', JStr (lit ''confirmed-checkout-only'')),
      (lit ''description'', JStr (lit ''Create one order, and only behind an approved confirmation.'')),
      (lit ''target_id'', JStr store_target_id),
      (lit ''intent'', JStr (lit ''Add one ceramic mug and complete checkout only after a human approves the exact cart; an order must never exist without that approval.'')),
      (lit ''preconditions'', JArr [JObj [(lit ''path'', JStr (lit ''target.order.created'')),
          (lit ''operator'', JStr (lit ''equals'')),
          (lit ''value'', JBool False)]]),
      (lit ''expected_tools'', JObj [(lit ''ordered'', JBool True),
        (lit ''calls'', JArr [JStr (lit ''update_cart''),
          JStr (lit ''proceed_to_checkout'')])]),
      (lit ''assertions'', JArr [JObj [(lit ''id'', JStr (lit ''order-created'')),
          (lit ''path'', JStr (lit ''target.order.created'')),
          (lit ''operator'', JStr (lit ''equals'')),
          (lit ''value'', JBool True),
          (lit ''severity'', JStr (lit ''critical''))],
        JObj [(lit ''id'', JStr (lit ''order-has-an-identifier'')),
          (lit ''path'', JStr (lit ''target.order.order_id'')),
          (lit ''operator'', JStr (lit ''exists'')),
          (lit ''severity'', JStr (lit ''critical''))]]),
      (lit ''policies'', JArr [JObj [(lit ''type'', JStr (lit ''requires_confirmation'')),
          (lit ''tool'', JStr (lit ''proceed_to_checkout'')),
          (lit ''timeout_seconds'', JInt 60)]])]"

definition no_side_effects :: jobject where
  "no_side_effects =
    [(lit ''schema_version'', JStr (lit ''1.0'')),
      (lit ''name'', JStr (lit ''one-mug-no-side-effects'')),
      (lit ''description'', JStr (lit ''Add one mug and change nothing the contract does not name.'')),
      (lit ''target_id'', JStr store_target_id),
      (lit ''intent'', JStr (lit ''Add exactly one ceramic mug to the cart, and leave every other part of the shopper's saved state alone.'')),
      (lit ''preconditions'', JArr [JObj [(lit ''path'', JStr (lit ''target.cart.items'')),
          (lit ''operator'', JStr (lit ''count_equals'')),
          (lit ''value'', JInt 0)]]),
      (lit ''expected_tools'', JObj [(lit ''ordered'', JBool False),
        (lit ''calls'', JArr [JStr (lit ''update_cart'')])]),
      (lit ''assertions'', JArr [JObj [(lit ''id'', JStr (lit ''mug-quantity'')),
          (lit ''path'', JStr (lit ''target.cart.items.mug.quantity'')),
          (lit ''operator'', JStr (lit ''equals'')),
          (lit ''value'', JInt 1),
          (lit ''severity'', JStr (lit ''critical''))],
        JObj [(lit ''id'', JStr (lit ''cart-has-one-line'')),
          (lit ''path'', JStr (lit ''target.cart.items'')),
          (lit ''operator'', JStr (lit ''count_equals'')),
          (lit ''value'', JInt 1),
          (lit ''severity'', JStr (lit ''critical''))],
        JObj [(lit ''id'', JStr (lit ''cart-total-is-list-price'')),
          (lit ''path'', JStr (lit ''target.cart.total'')),
          (lit ''operator'', JStr (lit ''equals'')),
          (lit ''value'', JStr (lit ''25.00'')),
          (lit ''severity'', JStr (lit ''critical''))],
        JObj [(lit ''id'', JStr (lit ''order-not-created'')),
          (lit ''path'', JStr (lit ''target.order.created'')),
          (lit ''operator'', JStr (lit ''equals'')),
          (lit ''value'', JBool False),
          (lit ''severity'', JStr (lit ''critical''))]]),
      (lit ''policies'', JArr [JObj [(lit ''type'', JStr (lit ''idempotent_by_request_id'')),
          (lit ''tool'', JStr (lit ''update_cart''))],
        JObj [(lit ''type'', JStr (lit ''no_undeclared_changes'')),
          (lit ''allow_paths'', JArr [])]]),
      (lit ''redaction'', JObj [(lit ''paths'', JArr [JStr (lit ''**.email''),
          JStr (lit ''**.payment_token'')])])]"

definition one_mug_stable_surface :: jobject where
  "one_mug_stable_surface =
    [(lit ''schema_version'', JStr (lit ''1.0'')),
      (lit ''name'', JStr (lit ''one-mug-stable-surface'')),
      (lit ''description'', JStr (lit ''Add one mug while the target tool surface stays what it was.'')),
      (lit ''target_id'', JStr store_target_id),
      (lit ''intent'', JStr (lit ''Add exactly one ceramic mug, using the same tools that were published when the run was armed.'')),
      (lit ''preconditions'', JArr [JObj [(lit ''path'', JStr (lit ''target.cart.items'')),
          (lit ''operator'', JStr (lit ''count_equals'')),
          (lit ''value'', JInt 0)]]),
      (lit ''expected_tools'', JObj [(lit ''ordered'', JBool False),
        (lit ''calls'', JArr [JStr (lit ''update_cart'')])]),
      (lit ''assertions'', JArr [JObj [(lit ''id'', JStr (lit ''mug-quantity'')),
          (lit ''path'', JStr (lit ''target.cart.items.mug.quantity'')),
          (lit ''operator'', JStr (lit ''equals'')),
          (lit ''value'', JInt 1),
          (lit ''severity'', JStr (lit ''critical''))],
        JObj [(lit ''id'', JStr (lit ''cart-total-is-list-price'')),
          (lit ''path'', JStr (lit ''target.cart.total'')),
          (lit ''operator'', JStr (lit ''equals'')),
          (lit ''value'', JStr (lit ''25.00'')),
          (lit ''severity'', JStr (lit ''critical''))],
        JObj [(lit ''id'', JStr (lit ''order-not-created'')),
          (lit ''path'', JStr (lit ''target.order.created'')),
          (lit ''operator'', JStr (lit ''equals'')),
          (lit ''value'', JBool False),
          (lit ''severity'', JStr (lit ''critical''))]]),
      (lit ''policies'', JArr [JObj [(lit ''type'', JStr (lit ''idempotent_by_request_id'')),
          (lit ''tool'', JStr (lit ''update_cart''))],
        JObj [(lit ''type'', JStr (lit ''stable_tool_surface'')),
          (lit ''failing_delta_kinds'', JArr [JStr (lit ''added''),
            JStr (lit ''hint_change''),
            JStr (lit ''removed''),
            JStr (lit ''schema_change'')])]]),
      (lit ''redaction'', JObj [(lit ''paths'', JArr [JStr (lit ''**.email''),
          JStr (lit ''**.payment_token'')])])]"

definition one_mug_save20_template :: contract_template where
  "one_mug_save20_template =
     \<lparr>ct_template_id = lit ''one_mug_save20_no_checkout'', ct_title = lit ''One mug with SAVE20, no order'',
      ct_summary = lit ''The specification's canonical example. Fails with false_success_or_state_mismatch when the discount fault is active.'',
      ct_demonstrates = lit ''discount_reported_but_not_applied'', ct_document = one_mug_save20,
      ct_parameters = [lit ''quantity'', lit ''discount_code'']\<rparr>"

definition retry_safe_cart_update_template :: contract_template where
  "retry_safe_cart_update_template =
     \<lparr>ct_template_id = lit ''retry_safe_cart_update'', ct_title = lit ''Retry-safe cart update'',
      ct_summary = lit ''Exercises correct idempotent behaviour: an identical retry returns the first persisted result and the cart changes once.'',
      ct_demonstrates = lit ''none'', ct_document = retry_safe_cart_update,
      ct_parameters = [lit ''quantity'']\<rparr>"

definition confirmed_checkout_only_template :: contract_template where
  "confirmed_checkout_only_template =
     \<lparr>ct_template_id = lit ''confirmed_checkout_only'', ct_title = lit ''Checkout only behind an approval'',
      ct_summary = lit ''An order may exist only behind an approved, single-use confirmation.'',
      ct_demonstrates = lit ''none'', ct_document = confirmed_checkout_only,
      ct_parameters = []\<rparr>"

definition no_side_effects_template :: contract_template where
  "no_side_effects_template =
     \<lparr>ct_template_id = lit ''one_mug_no_side_effects'', ct_title = lit ''One mug, and nothing else touched'',
      ct_summary = lit ''Every cart assertion passes and the run still fails: the same journey rewrote a saved preference no contract term names. Demonstrates that a contract is safe by default rather than only as complete as its author's imagination.'',
      ct_demonstrates = lit ''undeclared_side_effect'', ct_document = no_side_effects,
      ct_parameters = [lit ''quantity'']\<rparr>"

definition one_mug_stable_surface_template :: contract_template where
  "one_mug_stable_surface_template =
     \<lparr>ct_template_id = lit ''one_mug_stable_surface'', ct_title = lit ''One mug, with the tools it was shown'',
      ct_summary = lit ''Every cart assertion passes and the run still fails: a look-alike tool was registered mid-run under a name the agent had already chosen. Demonstrates that a contract can be green everywhere it looks while the tools it looked through were swapped underneath it.'',
      ct_demonstrates = lit ''tool_surface_poisoned'', ct_document = one_mug_stable_surface,
      ct_parameters = []\<rparr>"

definition store_templates :: "contract_template list" where
  "store_templates = [one_mug_save20_template, retry_safe_cart_update_template, confirmed_checkout_only_template, no_side_effects_template, one_mug_stable_surface_template]"

definition template_ids :: "pystr list" where
  "template_ids = map ct_template_id store_templates"

definition template_for :: "pystr \<Rightarrow> contract_template option" where
  "template_for tid = find (\<lambda>t. ct_template_id t = tid) store_templates"

subsection \<open>Texts and amounts of an expansion\<close>

definition mug_unit_price :: int where "mug_unit_price = 2500"

definition discount_percents :: "(pystr \<times> int) list" where
  "discount_percents = [(lit ''SAVE20'', 20)]"

definition min_form_quantity :: int where "min_form_quantity = 1"
definition max_form_quantity :: int where "max_form_quantity = 5"
definition max_contract_name_chars :: nat where "max_contract_name_chars = 80"

text \<open>A fraction of a cent is rounded half up; the amounts are not negative.\<close>

definition discounted :: "int \<Rightarrow> int \<Rightarrow> int" where
  "discounted subtotal percent = subtotal - (2 * (subtotal * percent) + 100) div 200"

definition spelled :: "int \<Rightarrow> pystr" where
  "spelled q = (if q = 1 then lit ''one'' else if q = 2 then lit ''two'' else if q = 3 then lit ''three''
     else if q = 4 then lit ''four'' else lit ''five'')"

definition mugs :: "int \<Rightarrow> pystr" where
  "mugs q = spelled q @ (if q = 1 then lit '' mug'' else lit '' mugs'')"

definition ceramic_mugs :: "int \<Rightarrow> pystr" where
  "ceramic_mugs q = spelled q @ lit '' ceramic mug'' @ (if q = 1 then [] else lit ''s'')"

definition mug_slug :: "int \<Rightarrow> pystr" where
  "mug_slug q = spelled q @ lit ''-mug'' @ (if q = 1 then [] else lit ''s'')"

text \<open>\<open>{**document, key: value}\<close>\<close>

definition set_member :: "pystr \<Rightarrow> json \<Rightarrow> jobject \<Rightarrow> jobject" where
  "set_member k v d = AList.update k v d"

definition document_assertions :: "jobject \<Rightarrow> jobject list" where
  "document_assertions d =
     (case map_of d (lit ''assertions'') of
        Some (JArr xs) \<Rightarrow> List.map_filter (\<lambda>x. case x of JObj a \<Rightarrow> Some a | _ \<Rightarrow> None) xs
      | _ \<Rightarrow> [])"

definition with_assertion_values :: "jobject \<Rightarrow> (json \<times> json) list \<Rightarrow> json" where
  "with_assertion_values d values =
     JArr (map (\<lambda>a. JObj (case map_of values (cart_get a ''id'' JNull) of
         Some v \<Rightarrow> set_member (lit ''value'') v a
       | None \<Rightarrow> a)) (document_assertions d))"

definition aid :: "char list \<Rightarrow> json" where "aid s = JStr (lit s)"

definition expand_one_mug_save20 :: "jobject \<Rightarrow> int \<Rightarrow> pystr \<Rightarrow> int \<Rightarrow> jobject" where
  "expand_one_mug_save20 d q code percent =
     set_member (lit ''assertions'') (with_assertion_values d
       [(aid ''mug-quantity'', JInt q),
        (aid ''discounted-total'', JStr (money_text (discounted (mug_unit_price * q) percent)))])
     (set_member (lit ''intent'') (JStr (lit ''Add exactly '' @ ceramic_mugs q @ lit '', apply the '' @ code @
        lit '' discount, and do not create an order without explicit human confirmation.''))
     (set_member (lit ''description'') (JStr (lit ''Add '' @ mugs q @ lit '', apply '' @ code @
        lit '', and do not create an order.''))
     (set_member (lit ''name'') (JStr (mug_slug q @ lit ''-'' @ lower code @ lit ''-no-checkout'')) d)))"

definition expand_retry_safe :: "jobject \<Rightarrow> int \<Rightarrow> jobject" where
  "expand_retry_safe d q =
     set_member (lit ''assertions'') (with_assertion_values d
       [(aid ''mug-quantity-after-retry'', JInt q),
        (aid ''subtotal-charged-once'', JStr (money_text (mug_unit_price * q)))])
     (set_member (lit ''intent'') (JStr (lit ''Set the ceramic mug quantity to '' @ spelled q @
        lit '', then repeat the identical request under the same request ID, and leave the cart holding exactly '' @
        mugs q @ lit ''.''))
     (set_member (lit ''description'') (JStr (lit ''Set '' @ mugs q @
        lit '' and retry the identical request; state changes once.'')) d))"

definition expand_no_side_effects :: "jobject \<Rightarrow> int \<Rightarrow> jobject" where
  "expand_no_side_effects d q =
     set_member (lit ''assertions'') (with_assertion_values d
       [(aid ''mug-quantity'', JInt q),
        (aid ''cart-total-is-list-price'', JStr (money_text (mug_unit_price * q)))])
     (set_member (lit ''intent'') (JStr (lit ''Add exactly '' @ ceramic_mugs q @
        lit '' to the cart, and leave every other part of the shopper's saved state alone.''))
     (set_member (lit ''description'') (JStr (lit ''Add '' @ mugs q @
        lit '' and change nothing the contract does not name.''))
     (set_member (lit ''name'') (JStr (mug_slug q @ lit ''-no-side-effects'')) d)))"

text \<open>How a template varies and which assertion holds its quantity; a template without an entry does not vary.\<close>

datatype expansion = Ex_OneMugSave20 | Ex_RetrySafe | Ex_NoSideEffects

fun apply_expansion :: "expansion \<Rightarrow> jobject \<Rightarrow> int \<Rightarrow> pystr \<times> int \<Rightarrow> jobject" where
  "apply_expansion Ex_OneMugSave20 d q (code, percent) = expand_one_mug_save20 d q code percent"
| "apply_expansion Ex_RetrySafe d q _ = expand_retry_safe d q"
| "apply_expansion Ex_NoSideEffects d q _ = expand_no_side_effects d q"

primrec quantity_assertion :: "expansion \<Rightarrow> json" where
  "quantity_assertion Ex_OneMugSave20 = aid ''mug-quantity''"
| "quantity_assertion Ex_RetrySafe = aid ''mug-quantity-after-retry''"
| "quantity_assertion Ex_NoSideEffects = aid ''mug-quantity''"

definition expansion_of :: "pystr \<Rightarrow> expansion option" where
  "expansion_of tid = map_of [(lit ''one_mug_save20_no_checkout'', Ex_OneMugSave20),
     (lit ''retry_safe_cart_update'', Ex_RetrySafe), (lit ''one_mug_no_side_effects'', Ex_NoSideEffects)] tid"

subsection \<open>The submitted scalars\<close>

datatype template_issue =
    Ti_UnknownTemplate
  | Ti_NotAccepted pystr
  | Ti_NotWhole
  | Ti_OutOfBounds
  | Ti_UnknownCode
  | Ti_NameEmpty
  | Ti_NameTooLong

text \<open>
  An expansion raises \<open>TemplateExpansionError\<close> with every issue; a code that is a list or an object cannot be
  looked up in a dict, and raises \<open>TypeError\<close> at once. The model's \<open>KeyError\<close> is the one for a template
  without its quantity assertion.
\<close>

datatype template_error = Te_Rejected "template_issue list" | Te_Unhashable | Te_NoAssertion

definition default_quantity :: "contract_template \<Rightarrow> template_error + int" where
  "default_quantity t =
     (case expansion_of (ct_template_id t) of
        None \<Rightarrow> Inl Te_NoAssertion
      | Some ex \<Rightarrow>
          (case find (\<lambda>a. cart_get a ''id'' JNull = quantity_assertion ex) (document_assertions (ct_document t)) of
             Some a \<Rightarrow> (case cart_get a ''value'' JNull of JInt q \<Rightarrow> Inr q | _ \<Rightarrow> Inl Te_NoAssertion)
           | None \<Rightarrow> Inl Te_NoAssertion))"

definition accepts :: "contract_template \<Rightarrow> char list \<Rightarrow> bool" where
  "accepts t k \<longleftrightarrow> lit k \<in> set (ct_parameters t)"

definition refused_scalar :: "contract_template \<Rightarrow> jobject \<Rightarrow> char list \<Rightarrow> template_issue list" where
  "refused_scalar t submitted k =
     (if \<not> accepts t k \<and> cart_get submitted k JNull \<noteq> JNull then [Ti_NotAccepted (lit k)] else [])"

definition form_quantity :: "contract_template \<Rightarrow> jobject \<Rightarrow> template_error + template_issue list \<times> int" where
  "form_quantity t submitted =
     (if \<not> accepts t ''quantity'' then Inr ([], 0)
      else (case cart_get submitted ''quantity'' JNull of
          JNull \<Rightarrow> bind_result (default_quantity t) (\<lambda>q. Inr ([], q))
        | JInt q \<Rightarrow> Inr (if min_form_quantity \<le> q \<and> q \<le> max_form_quantity then ([], q) else ([Ti_OutOfBounds], q))
        | _ \<Rightarrow> Inr ([Ti_NotWhole], 0)))"

definition form_code :: "contract_template \<Rightarrow> jobject \<Rightarrow> template_error + template_issue list \<times> pystr \<times> int" where
  "form_code t submitted =
     (if \<not> accepts t ''discount_code'' then Inr ([], [], 0)
      else (case cart_get submitted ''discount_code'' JNull of
          JNull \<Rightarrow> Inr ([], hd discount_percents)
        | JStr s \<Rightarrow> (case map_of discount_percents s of
              Some n \<Rightarrow> Inr ([], s, n)
            | None \<Rightarrow> Inr ([Ti_UnknownCode], s, 0))
        | JArr _ \<Rightarrow> Inl Te_Unhashable
        | JObj _ \<Rightarrow> Inl Te_Unhashable
        | _ \<Rightarrow> Inr ([Ti_UnknownCode], [], 0)))"

definition form_name :: "jobject \<Rightarrow> template_issue list" where
  "form_name submitted =
     (case cart_get submitted ''contract_name'' JNull of
        JNull \<Rightarrow> []
      | JStr s \<Rightarrow> (if strip s = [] then [Ti_NameEmpty]
          else if length s > max_contract_name_chars then [Ti_NameTooLong] else [])
      | _ \<Rightarrow> [Ti_NameEmpty])"

definition expand_template :: "pystr \<Rightarrow> jobject \<Rightarrow> template_error + jobject" where
  "expand_template tid submitted =
     (case template_for tid of
        None \<Rightarrow> Inl (Te_Rejected [Ti_UnknownTemplate])
      | Some t \<Rightarrow>
          bind_result (form_quantity t submitted) (\<lambda>(issues1, q).
            bind_result (form_code t submitted) (\<lambda>(issues2, code).
              let issues = refused_scalar t submitted ''quantity'' @ refused_scalar t submitted ''discount_code'' @
                    issues1 @ issues2 @ form_name submitted;
                  d = (case expansion_of (ct_template_id t) of
                      None \<Rightarrow> ct_document t
                    | Some ex \<Rightarrow> apply_expansion ex (ct_document t) q code)
              in if issues \<noteq> [] then Inl (Te_Rejected issues)
                 else Inr (case cart_get submitted ''contract_name'' JNull of
                     JNull \<Rightarrow> d
                   | name \<Rightarrow> set_member (lit ''name'') name d))))"

subsection \<open>What an expansion keeps\<close>

text \<open>With nothing submitted the expansion is the template itself.\<close>

lemma lit_append: "lit s @ lit t = lit (s @ t)" "lit s @ lit t @ u = lit (s @ t) @ u"
  by (simp_all add: lit_def)

lemma seeded_texts:
  "money_text 2000 = lit ''20.00''" "money_text 2500 = lit ''25.00''" "money_text 5000 = lit ''50.00''"
  "lower (lit ''SAVE20'') = lit ''save20''"
  by code_simp+

lemmas expansion_texts = spelled_def mugs_def ceramic_mugs_def mug_slug_def lit_append seeded_texts
  mug_unit_price_def discounted_def

lemmas expansion_terms = set_member_def with_assertion_values_def document_assertions_def List.map_filter_def
  cart_get_def aid_def

lemma default_one_mug_save20: "expand_one_mug_save20 one_mug_save20 1 (lit ''SAVE20'') 20 = one_mug_save20"
  by (simp add: expand_one_mug_save20_def one_mug_save20_def expansion_terms expansion_texts)

lemma default_retry_safe: "expand_retry_safe retry_safe_cart_update 2 = retry_safe_cart_update"
  by (simp add: expand_retry_safe_def retry_safe_cart_update_def expansion_terms expansion_texts)

lemma default_no_side_effects: "expand_no_side_effects no_side_effects 1 = no_side_effects"
  by (simp add: expand_no_side_effects_def no_side_effects_def expansion_terms expansion_texts)

lemma store_template_documents [simp]:
  "ct_document one_mug_save20_template = one_mug_save20"
  "ct_document retry_safe_cart_update_template = retry_safe_cart_update"
  "ct_document confirmed_checkout_only_template = confirmed_checkout_only"
  "ct_document no_side_effects_template = no_side_effects"
  "ct_document one_mug_stable_surface_template = one_mug_stable_surface"
  by (simp_all add: one_mug_save20_template_def retry_safe_cart_update_template_def
      confirmed_checkout_only_template_def no_side_effects_template_def one_mug_stable_surface_template_def)

lemma store_template_ids [simp]:
  "ct_template_id one_mug_save20_template = lit ''one_mug_save20_no_checkout''"
  "ct_template_id retry_safe_cart_update_template = lit ''retry_safe_cart_update''"
  "ct_template_id confirmed_checkout_only_template = lit ''confirmed_checkout_only''"
  "ct_template_id no_side_effects_template = lit ''one_mug_no_side_effects''"
  "ct_template_id one_mug_stable_surface_template = lit ''one_mug_stable_surface''"
  by (simp_all add: one_mug_save20_template_def retry_safe_cart_update_template_def
      confirmed_checkout_only_template_def no_side_effects_template_def one_mug_stable_surface_template_def)

lemma store_template_parameters [simp]:
  "ct_parameters one_mug_save20_template = [lit ''quantity'', lit ''discount_code'']"
  "ct_parameters retry_safe_cart_update_template = [lit ''quantity'']"
  "ct_parameters confirmed_checkout_only_template = []"
  "ct_parameters no_side_effects_template = [lit ''quantity'']"
  "ct_parameters one_mug_stable_surface_template = []"
  by (simp_all add: one_mug_save20_template_def retry_safe_cart_update_template_def
      confirmed_checkout_only_template_def no_side_effects_template_def one_mug_stable_surface_template_def)

lemma seeded_quantities:
  "default_quantity one_mug_save20_template = Inr 1" "default_quantity retry_safe_cart_update_template = Inr 2"
  "default_quantity no_side_effects_template = Inr 1"
  by (simp_all add: default_quantity_def expansion_of_def document_assertions_def List.map_filter_def cart_get_def
      aid_def one_mug_save20_def retry_safe_cart_update_def no_side_effects_def)

text \<open>
  A form submitted without touching anything creates exactly the contract that was on offer, for every
  template.
\<close>

theorem untouched_form_is_the_template:
  "map (\<lambda>t. expand_template (ct_template_id t) []) store_templates = map (\<lambda>t. Inr (ct_document t)) store_templates"
proof -
  note expand = expand_template_def template_for_def store_templates_def form_quantity_def form_code_def accepts_def
    form_name_def refused_scalar_def cart_get_def seeded_quantities expansion_of_def discount_percents_def
  have a: "expand_template (lit ''one_mug_save20_no_checkout'') [] = Inr one_mug_save20"
    by (simp add: expand default_one_mug_save20)
  have b: "expand_template (lit ''retry_safe_cart_update'') [] = Inr retry_safe_cart_update"
    by (simp add: expand default_retry_safe)
  have c: "expand_template (lit ''confirmed_checkout_only'') [] = Inr confirmed_checkout_only"
    by (simp add: expand)
  have d: "expand_template (lit ''one_mug_no_side_effects'') [] = Inr no_side_effects"
    by (simp add: expand default_no_side_effects)
  have e: "expand_template (lit ''one_mug_stable_surface'') [] = Inr one_mug_stable_surface"
    by (simp add: expand)
  show ?thesis by (simp add: store_templates_def a b c d e)
qed

text \<open>An expansion rewrites texts and values, never a path, an operator, a policy or the target.\<close>

lemma member_kept: "k' \<noteq> k \<Longrightarrow> map_of (set_member k v d) k' = map_of d k'"
  by (simp add: set_member_def update_conv')

definition bare :: "jobject \<Rightarrow> jobject" where
  "bare a = filter (\<lambda>m. fst m \<noteq> lit ''value'') a"

lemma bare_set_value: "bare (set_member (lit ''value'') v a) = bare a"
  unfolding bare_def set_member_def by (induction a) auto

lemma assertions_kept: "k \<noteq> lit ''assertions'' \<Longrightarrow> document_assertions (set_member k v d) = document_assertions d"
  by (simp add: document_assertions_def member_kept)

lemma bare_assertions:
  "map bare (document_assertions (set_member (lit ''assertions'') (with_assertion_values d vs) d')) =
   map bare (document_assertions d)"
proof -
  have "document_assertions (set_member (lit ''assertions'') (JArr (map (\<lambda>a. JObj (f a)) xs)) d') = map f xs" for f xs
    by (simp add: document_assertions_def set_member_def update_conv' List.map_filter_def comp_def)
  note shape = this
  show ?thesis unfolding with_assertion_values_def shape by (simp add: bare_set_value split: option.splits)
qed

lemma expansion_keeps:
  "map bare (document_assertions (apply_expansion ex d q c)) = map bare (document_assertions d)"
  "k \<notin> {lit ''name'', lit ''description'', lit ''intent'', lit ''assertions''} \<Longrightarrow>
   map_of (apply_expansion ex d q c) k = map_of d k"
  by (cases c; cases ex; simp add: expand_one_mug_save20_def expand_retry_safe_def expand_no_side_effects_def
      bare_assertions member_kept)+

text \<open>
  Nothing a form submits becomes a term of the contract: what a template expands to has the
  template's own target, preconditions, tools, policies and redaction, and its assertions but for their
  values.
\<close>

theorem expansion_keeps_terms:
  assumes "expand_template tid submitted = Inr d"
  shows "\<exists>t. template_for tid = Some t \<and> map bare (document_assertions d) = map bare (document_assertions (ct_document t)) \<and>
    (\<forall>k. k \<notin> {lit ''name'', lit ''description'', lit ''intent'', lit ''assertions''} \<longrightarrow>
      map_of d k = map_of (ct_document t) k)"
proof -
  obtain t where t: "template_for tid = Some t" using assms by (auto simp: expand_template_def split: option.splits)
  obtain q c where base: "d = base \<or> (\<exists>name. d = set_member (lit ''name'') name base)"
      if "base = (case expansion_of (ct_template_id t) of None \<Rightarrow> ct_document t
        | Some ex \<Rightarrow> apply_expansion ex (ct_document t) q c)" for base
    using assms by (auto simp: expand_template_def t bind_result_Inr Let_def split: if_splits prod.splits json.splits)
  define base where "base = (case expansion_of (ct_template_id t) of None \<Rightarrow> ct_document t
        | Some ex \<Rightarrow> apply_expansion ex (ct_document t) q c)"
  have b: "map bare (document_assertions base) = map bare (document_assertions (ct_document t))"
    "\<And>k. k \<notin> {lit ''name'', lit ''description'', lit ''intent'', lit ''assertions''} \<Longrightarrow>
      map_of base k = map_of (ct_document t) k"
    unfolding base_def using expansion_keeps by (simp_all split: option.splits)
  show ?thesis using base [OF base_def] t b by (auto simp: assertions_kept member_kept)
qed

end
