(* ===== verification/Spec2Isabelle.thy ===== *)
theory Spec2Isabelle
  imports Prelude PyNum Json Paths Vocabulary Redaction Evidence Findings Canonical Contracts
    Assertions Trajectory Classification Diff Surface Policies Kernel Lifecycle Reports Verification
    Ports Database Confirmations Invocation Runs Journey Views Transactions Closings Service Refinement
    Simulation Reachable Execution Guarantees Store_Model Store Store_Laws
    Store_Run Store_Claims Comparison Evals Benchmarks
    Canonical_Laws Eval_Cases Eval_Replay Eval_Judge Eval_Laws Eval_Claims
    Eval_Generation Hash_Shape Generation_Claims Benchmark_Reports
    Findings_View Shopify_Cart Audits Templates
begin

text \<open>
  ActionWitness watches an agent act on a target application and decides whether the target's own
  state bears out what the agent was told to achieve and claims to have done. A workspace selects an
  outcome contract; a run is armed against it with a snapshot of the target's state; the agent's
  calls go through the service, which asks a person before a protected one and records what happened
  on an append-only timeline; verification evaluates the contract over that timeline and the state
  before and after, and seals a verdict. This development models the evaluation core
  (\<open>packages/actionwitness_core\<close>) and the run services
  (\<open>apps/actionwitness_service/.../application\<close>) and the example store it is demonstrated on
  (\<open>examples/buggy_store\<close>), and proves what they promise.

  \<^bold>\<open>Parts and theories.\<close> Definitions carry the names of the functions they model.

  \<^item> Shared: \<open>Prelude\<close> (results, lists, the locale of deterministic orders), \<open>PyNum\<close> (Python's
    numbers: unbounded integers, doubles as rationals with infinities, decimals with their context),
    \<open>Json\<close> (JSON values and \<open>deep_equal\<close>), \<open>Vocabulary\<close> (every closed enumeration with its
    published strings).
  \<^item> Core data: \<open>Paths\<close> (\<open>contracts/paths.py\<close>), \<open>Redaction\<close> (\<open>security/redaction.py\<close>), \<open>Canonical\<close>
    (\<open>security/canonical.py\<close>: RFC 8785 text and SHA-256), \<open>Evidence\<close> (\<open>evidence/models.py\<close>,
    \<open>evidence/effects.py\<close>), \<open>Findings\<close> (\<open>engine/findings.py\<close>), \<open>Contracts\<close> (\<open>contracts/models.py\<close>),
    \<open>Kernel\<close> (instants of \<open>kernel.py\<close>), \<open>Ports\<close> (published tools and argument validation of \<open>ports/\<close>).
  \<^item> Evaluation: \<open>Assertions\<close>, \<open>Trajectory\<close>, \<open>Classification\<close>, \<open>Diff\<close>, \<open>Policies\<close> (the modules of
    \<open>engine/\<close>), \<open>Surface\<close> (\<open>evidence/surface.py\<close>), \<open>Reports\<close> (\<open>reports/models.py\<close>), \<open>Verification\<close>
    (the evaluation inside \<open>application/verification_service.py\<close>), \<open>Lifecycle\<close> (\<open>journeys/\<close>: the
    transition tables and the guidance).
  \<^item> Run services: \<open>Database\<close> (the tables of \<open>persistence/\<close> as lists of rows, appending, guidance,
    ceilings), \<open>Confirmations\<close> (\<open>confirmation_service.py\<close>, \<open>decision_service.py\<close>), \<open>Invocation\<close>
    (\<open>invocation_service.py\<close>), \<open>Runs\<close> (\<open>run_service.py\<close>, \<open>verification_gate.py\<close>,
    \<open>verification_service.py\<close>, \<open>workspace_service.py\<close>, \<open>surface_service.py\<close>). One definition per
    transaction, from the tables to the new tables or a refusal; a refusal rolls back.
  \<^item> The whole: \<open>Service\<close> is one transition system in which clients interleave those reads and
    transactions freely, hand calls to the target and may be lost at any point. \<open>Journey\<close> is the
    abstract specification, the protocol of one run: status, tool facts, requests, calls at the
    target. \<open>Views\<close>, \<open>Transactions\<close> and \<open>Closings\<close> say what each transaction does to a run's view and
    that it leaves every other run alone; \<open>Refinement\<close> and \<open>Simulation\<close> show that every service step
    is a protocol step; \<open>Reachable\<close> draws the consequences, \<open>Execution\<close> is a concrete run from
    arming to verification, and \<open>Guarantees\<close> states the properties.
  \<^item> Around a verdict: \<open>Comparison\<close> (\<open>reports/comparison.py\<close>), \<open>Evals\<close> (\<open>evals/minimize.py\<close>,
    \<open>evals/interaction.py\<close>, \<open>evals/substitution.py\<close>: the fixture, steps, decisions and values a
    regression case keeps), \<open>Benchmarks\<close> (\<open>benchmarks/matrix.py\<close>, \<open>benchmarks/states.py\<close>),
    \<open>Benchmark_Reports\<close> (variants, their approval, manifests and reports of \<open>benchmarks/\<close>),
    \<open>Findings_View\<close> (\<open>application/findings_service.py\<close>, the findings an agent reads).
  \<^item> An external shop: \<open>Shopify_Cart\<close> (\<open>audit.py\<close> and \<open>observation.py\<close> of \<open>integrations/shopify\<close>: a
    submitted cart becomes an observation or is refused; when its check of the totals is exact), \<open>Audits\<close>
    (\<open>pack.py\<close>, \<open>audit_evidence.py\<close>, \<open>audit_report.py\<close>, \<open>audit_workflow.py\<close>: what each published tool
    turned out to do and what its owner is told). \<open>Templates\<close> holds the store's contract templates and
    their expansion (\<open>templates.py\<close> of \<open>integrations/buggy_store\<close>).
  \<^item> Regression cases and their replays: \<open>Eval_Cases\<close> (\<open>evals/models.py\<close>, \<open>evals/factory.py\<close>,
    \<open>evals/schema.py\<close>: the parts of a case, its document and hash, how it is built and read back, the
    comparison of a replay with its expectation), \<open>Eval_Replay\<close> (\<open>application/eval_runner.py\<close>: the
    fixture restored, the loop over the steps, the replayed events), \<open>Eval_Judge\<close>
    (\<open>application/eval_run_service.py\<close>: the verdict, the report, the rows of one evaluation),
    \<open>Eval_Generation\<close> (\<open>application/eval_case_service.py\<close>: what is read from a run's rows, the case
    stored once, the reads), \<open>Eval_Laws\<close> (what each evaluator can say about a replay), \<open>Eval_Claims\<close>
    and \<open>Generation_Claims\<close> (the properties); \<open>Canonical_Laws\<close> and \<open>Hash_Shape\<close> say which values have a
    canonical form and what its hash looks like.
  \<^item> The example store: \<open>Store_Model\<close> (money, catalog, scenarios, carts and their validators, documents
    and digests), \<open>Store\<close> (\<open>repository.py\<close> and \<open>service.py\<close>: the tables, one definition per operation,
    \<open>serve\<close> for one call and \<open>serves\<close> for the tables calls can reach), \<open>Store_Laws\<close> (the invariant of
    the tables and that every operation keeps it), \<open>Store_Run\<close> (documents that can be hashed, and a
    concrete run), \<open>Store_Claims\<close> (its properties).

  \<^bold>\<open>What the theorems show.\<close> C1 to C9 are about the services as a whole: the refinement, consent
  before every protected completion (so the contract's own consent policy passes on every timeline
  the service writes), at most one hand-over per call, gap-free append-only timelines, one unfinished
  run per workspace, waiting exactly when a request is open, verdicts over a settled timeline, and a
  reset that always succeeds. C8 is a defect of the protocol: a stale approval leaves a call without
  an end, and the run can then never be verified. C10 to C35 are about the
  core and what surrounds a verdict: parsing and printing of paths, redaction, the verdict of every
  evaluator (with cases where the code departs from its documentation stated as theorems of kind
  error), the totals of an observed cart, the diff, policies, reports, argument validation, the
  comparison of runs, content hashes, the generation and the evaluation of a regression case (two of
  whose theorems show cases no replay can reproduce), the approval of benchmark variants, and the
  cells and life of a benchmark suite.
  C36 to C40 are about the store: carts that add up, errors of its own only, one order per approval,
  settled confirmations and replayed retries.

  \<^bold>\<open>Conventions.\<close> A text is its list of code points. Fallible code returns a sum, \<open>Inl\<close> the error;
  the prose of a message is not modelled, its code is. A JSON object is an association list in
  insertion order. An instant inside the services is a number of microseconds. Time, identifiers,
  observations, published tools and the target's answer are parameters of the steps that use them,
  arbitrary except for what the code checks; a fresh identifier is one never drawn before. Functions
  of third-party libraries (text of arbitrary values, validation of stored documents) are parameters.

  \<^bold>\<open>Bounds.\<close> Two loops carry fuel. The shortest text of a double tries 1 to 17 digits, which suffice
  for every double; should none round back, the exact expansion is returned. The hash cuts the
  padded message into blocks with its length as fuel, one more than the blocks there are at least.
  Recursion over JSON values, schemas and dates is proved to terminate by size. The service has no
  bound on clients, runs or steps.

  \<^bold>\<open>Not modelled.\<close> The web framework routes, the database engine (its transactions are atomic
  steps, the workspace locks are what makes them so), configuration, telemetry, the command line and
  the front end, which are input and output; the Shopify pairing, which talks to an external bridge;
  the benchmark and comparison services and the rows of an audit, which are further components; the
  store's HTTP routes and the parsing of its stored documents; verification of an externally supplied
  observation, the observer's own workspace and the seeding of contract templates.
\<close>

end
